(* ===== verification/Prelude.thy ===== *)
theory Prelude
  imports Complex_Main "HOL-Library.Multiset" "HOL-Library.Sublist"
begin

text \<open>
  Shared ground of the development: the shape of a service operation, the table and
  dictionary operations every component uses, the interfaces (locales) that the
  components state their contracts with, and the generic lemmas about them.

  Conventions. A service operation of the backend is a function from the database to
  a pair: what it answers (an \<open>http_error\<close> or a value) and the database the session
  leaves committed. A \<open>raise HTTPException\<close> before the commit is the answer \<open>Inl\<close>
  with the database as it was. UUIDs are their canonical text, so \<open>str(id)\<close> is the
  identity; an operation that draws a fresh \<open>uuid4\<close> or reads the clock takes the drawn
  value or the instant as an argument. An instant is an \<open>int\<close>, in microseconds of UTC.
\<close>

section \<open>Answers of service operations\<close>

datatype http_error = HTTPException nat string

type_synonym ('a, 's) svc = "'s \<Rightarrow> (http_error + 'a) \<times> 's"

type_synonym uuid = string

type_synonym instant = int

named_theorems frame_simps \<open>what an operation leaves alone\<close>
named_theorems shape_simps \<open>keys and lengths that an operation keeps\<close>

definition seconds :: "int \<Rightarrow> int" where
  "seconds n = n * 1000000"

definition minutes :: "int \<Rightarrow> int" where
  "minutes n = seconds (n * 60)"

lemma seconds_mono [simp]: "seconds a \<le> seconds b \<longleftrightarrow> a \<le> b"
  by (simp add: seconds_def)

lemma minutes_mono [simp]: "minutes a \<le> minutes b \<longleftrightarrow> a \<le> b"
  by (simp add: minutes_def)

lemma minutes_max: "minutes (max a b) = max (minutes a) (minutes b)"
  by (simp add: max_def)

section \<open>Tables\<close>

text \<open>
  A table of the database is the list of its rows. \<open>select ... where id = k\<close> with
  \<open>scalar_one_or_none\<close> is \<open>row_find\<close>, \<open>update ... where\<close> is \<open>row_update\<close>.
\<close>

definition row_find :: "('r \<Rightarrow> bool) \<Rightarrow> 'r list \<Rightarrow> 'r option" where
  "row_find p rows = find p rows"

definition row_update :: "('r \<Rightarrow> bool) \<Rightarrow> ('r \<Rightarrow> 'r) \<Rightarrow> 'r list \<Rightarrow> 'r list" where
  "row_update p f rows = map (\<lambda>r. if p r then f r else r) rows"

definition row_count :: "('r \<Rightarrow> bool) \<Rightarrow> 'r list \<Rightarrow> nat" where
  "row_count p rows = length (filter p rows)"

lemma row_find_Nil [simp]: "row_find p [] = None"
  by (simp add: row_find_def)

lemma row_find_Cons [simp]: "row_find p (r # rows) = (if p r then Some r else row_find p rows)"
  by (simp add: row_find_def)

lemma row_find_SomeD: "row_find p rows = Some r \<Longrightarrow> p r \<and> r \<in> set rows"
  by (induction rows) (auto split: if_splits)

lemma row_find_None_iff: "row_find p rows = None \<longleftrightarrow> (\<forall>r \<in> set rows. \<not> p r)"
  by (induction rows) auto

lemma row_find_append:
  "row_find p (xs @ ys) = (case row_find p xs of None \<Rightarrow> row_find p ys | Some r \<Rightarrow> Some r)"
  by (induction xs) auto

lemma row_update_Nil [simp]: "row_update p f [] = []"
  by (simp add: row_update_def)

lemma row_update_Cons [simp]:
  "row_update p f (r # rows) = (if p r then f r else r) # row_update p f rows"
  by (simp add: row_update_def)

lemma row_update_append [simp]:
  "row_update p f (xs @ ys) = row_update p f xs @ row_update p f ys"
  by (simp add: row_update_def)

lemma length_row_update [simp, shape_simps]: "length (row_update p f rows) = length rows"
  by (simp add: row_update_def)

lemma map_row_update:
  "(\<And>r. p r \<Longrightarrow> g (f r) = g r) \<Longrightarrow> map g (row_update p f rows) = map g rows"
  by (induction rows) auto

lemma row_update_id: "(\<And>r. r \<in> set rows \<Longrightarrow> \<not> p r) \<Longrightarrow> row_update p f rows = rows"
  by (induction rows) auto

lemma filter_row_update_other:
  "(\<And>r. p r \<Longrightarrow> \<not> q r) \<Longrightarrow> (\<And>r. p r \<Longrightarrow> \<not> q (f r)) \<Longrightarrow>
    filter q (row_update p f rows) = filter q rows"
  by (induction rows) auto

lemma filter_row_update_commute:
  "(\<And>r. p r \<Longrightarrow> q (f r) = q r) \<Longrightarrow>
    filter q (row_update p f rows) = row_update p f (filter q rows)"
  by (induction rows) auto

lemma row_find_row_update_other:
  "(\<And>r. p r \<Longrightarrow> \<not> q r) \<Longrightarrow> (\<And>r. p r \<Longrightarrow> \<not> q (f r)) \<Longrightarrow>
    row_find q (row_update p f rows) = row_find q rows"
  by (induction rows) auto

lemma row_find_row_update_same:
  "(\<And>r. p r \<Longrightarrow> q (f r) = q r) \<Longrightarrow>
    row_find q (row_update p f rows) =
      map_option (\<lambda>r. if p r then f r else r) (row_find q rows)"
  by (induction rows) auto

lemma row_find_key_update:
  assumes "\<And>r. key (f r) = key r"
  shows "row_find (\<lambda>r. key r = k) (row_update (\<lambda>r. key r = j) f rows) =
    (if k = j then map_option f (row_find (\<lambda>r. key r = k) rows)
     else row_find (\<lambda>r. key r = k) rows)"
  using assms by (induction rows) auto

lemma row_update_memD:
  "x \<in> set (row_update p f rows) \<Longrightarrow> (\<exists>r \<in> set rows. p r \<and> x = f r) \<or> x \<in> set rows \<and> \<not> p x"
  by (induction rows) (auto split: if_splits)

lemma row_count_Nil [simp]: "row_count p [] = 0"
  by (simp add: row_count_def)

lemma row_count_Cons [simp]:
  "row_count p (r # rows) = (if p r then Suc (row_count p rows) else row_count p rows)"
  by (simp add: row_count_def)

lemma row_count_append [simp]: "row_count p (xs @ ys) = row_count p xs + row_count p ys"
  by (simp add: row_count_def)

lemma row_count_mono:
  "(\<And>r. r \<in> set rows \<Longrightarrow> q (f r) \<Longrightarrow> q r) \<Longrightarrow>
    row_count q (row_update p f rows) \<le> row_count q rows"
  by (induction rows) (auto simp: le_SucI)

lemma row_find_unique:
  assumes "distinct (map key rows)" "r \<in> set rows"
  shows "row_find (\<lambda>x. key x = key r) rows = Some r"
  using assms by (induction rows) (auto simp: image_iff)

section \<open>Dictionaries\<close>

text \<open>
  A Python dictionary that is iterated over is the association list of its items in
  insertion order: assigning an existing key keeps its place, a new key goes last.
\<close>

type_synonym ('k, 'v) dict = "('k \<times> 'v) list"

definition dget :: "'k \<Rightarrow> ('k, 'v) dict \<Rightarrow> 'v option" where
  "dget k d = map_of d k"

fun dset :: "'k \<Rightarrow> 'v \<Rightarrow> ('k, 'v) dict \<Rightarrow> ('k, 'v) dict" where
  "dset k v [] = [(k, v)]"
| "dset k v ((k', v') # d) = (if k' = k then (k, v) # d else (k', v') # dset k v d)"

definition dpop :: "'k \<Rightarrow> ('k, 'v) dict \<Rightarrow> ('k, 'v) dict" where
  "dpop k d = filter (\<lambda>p. fst p \<noteq> k) d"

definition dupdate :: "('k, 'v) dict \<Rightarrow> ('k, 'v) dict \<Rightarrow> ('k, 'v) dict" where
  "dupdate d new = foldl (\<lambda>acc p. dset (fst p) (snd p) acc) d new"

lemma dget_Nil [simp]: "dget k [] = None"
  by (simp add: dget_def)

lemma dget_None_iff: "dget k d = None \<longleftrightarrow> k \<notin> fst ` set d"
  by (simp add: dget_def map_of_eq_None_iff)

lemma dget_SomeD: "dget k d = Some v \<Longrightarrow> (k, v) \<in> set d"
  by (simp add: dget_def map_of_SomeD)

text \<open>The contract of a dictionary: what a lookup returns after each operation.\<close>

locale dictionary =
  fixes lookup :: "'k \<Rightarrow> 'd \<Rightarrow> 'v option"
    and store :: "'k \<Rightarrow> 'v \<Rightarrow> 'd \<Rightarrow> 'd"
    and remove :: "'k \<Rightarrow> 'd \<Rightarrow> 'd"
  assumes lookup_store: "lookup k (store j v d) = (if k = j then Some v else lookup k d)"
    and lookup_remove: "lookup k (remove j d) = (if k = j then None else lookup k d)"
begin

lemma lookup_store_same [simp]: "lookup k (store k v d) = Some v"
  by (simp add: lookup_store)

lemma lookup_store_other: "k \<noteq> j \<Longrightarrow> lookup k (store j v d) = lookup k d"
  by (simp add: lookup_store)

lemma lookup_store_all:
  "lookup k (foldl (\<lambda>acc p. store (fst p) (snd p) acc) d new) =
    (case map_of (rev new) k of None \<Rightarrow> lookup k d | Some v \<Rightarrow> Some v)"
  by (induction new arbitrary: d)
    (auto simp: lookup_store map_add_def split: option.splits)

end

lemma dget_dset: "dget k (dset j v d) = (if k = j then Some v else dget k d)"
  by (induction j v d rule: dset.induct) (auto simp: dget_def)

lemma dget_dpop: "dget k (dpop j d) = (if k = j then None else dget k d)"
  by (induction d) (auto simp: dget_def dpop_def)

interpretation pydict: dictionary dget dset dpop
  by unfold_locales (auto simp: dget_dset dget_dpop)

lemma dget_dupdate:
  "dget k (dupdate d new) =
    (case map_of (rev new) k of None \<Rightarrow> dget k d | Some v \<Rightarrow> Some v)"
  unfolding dupdate_def by (rule pydict.lookup_store_all)

lemma set_keys_dset: "fst ` set (dset k v d) = insert k (fst ` set d)"
  by (induction k v d rule: dset.induct) auto

lemma distinct_keys_dset: "distinct (map fst d) \<Longrightarrow> distinct (map fst (dset k v d))"
  by (induction k v d rule: dset.induct) (auto simp: set_keys_dset[unfolded image_set] image_iff
      dest: set_keys_dset[THEN equalityD1, THEN subsetD, OF imageI])

lemma dset_same: "dget k d = Some v \<Longrightarrow> dset k v d = d"
  by (induction k v d rule: dset.induct) (auto simp: dget_def)

section \<open>Reachability and invariants\<close>

text \<open>The states a transition relation reaches from an initial predicate.\<close>

inductive reachable :: "('s \<Rightarrow> bool) \<Rightarrow> ('s \<Rightarrow> 's \<Rightarrow> bool) \<Rightarrow> 's \<Rightarrow> bool"
  for start step where
  base: "start s \<Longrightarrow> reachable start step s"
| more: "reachable start step s \<Longrightarrow> step s t \<Longrightarrow> reachable start step t"

locale invariant_system =
  fixes start :: "'s \<Rightarrow> bool" and step :: "'s \<Rightarrow> 's \<Rightarrow> bool" and inv :: "'s \<Rightarrow> bool"
  assumes inv_start: "start s \<Longrightarrow> inv s"
    and inv_step: "inv s \<Longrightarrow> step s t \<Longrightarrow> inv t"
begin

lemma reachable_inv: "reachable start step s \<Longrightarrow> inv s"
  by (induction rule: reachable.induct) (auto intro: inv_start inv_step)

lemma rtranclp_inv: "step\<^sup>*\<^sup>* s t \<Longrightarrow> inv s \<Longrightarrow> inv t"
  by (induction rule: rtranclp_induct) (auto intro: inv_step)

end

section \<open>Runs and their refinement\<close>

text \<open>The answers and the last state of a deterministic step function over a list of inputs.\<close>

fun run_steps :: "('s \<Rightarrow> 'a \<Rightarrow> 'v \<times> 's) \<Rightarrow> 'a list \<Rightarrow> 's \<Rightarrow> 'v list \<times> 's" where
  "run_steps f [] s = ([], s)"
| "run_steps f (a # as) s =
    (case f s a of (v, s1) \<Rightarrow> case run_steps f as s1 of (vs, s2) \<Rightarrow> (v # vs, s2))"

text \<open>
  A concrete step function refines an abstract one when related states give equal answers and
  related states again; \<open>time\<close> reads the clock of an input, and the relation of an instant
  survives until any later one.
\<close>

locale step_refinement =
  fixes conc :: "'c \<Rightarrow> 'a \<Rightarrow> 'v \<times> 'c" and abst :: "'s \<Rightarrow> 'a \<Rightarrow> 'v \<times> 's"
    and time :: "'a \<Rightarrow> 't::linorder" and rel :: "'t \<Rightarrow> 'c \<Rightarrow> 's \<Rightarrow> bool"
  assumes step: "rel (time a) c s \<Longrightarrow> conc c a = (v, c') \<Longrightarrow> abst s a = (v', s') \<Longrightarrow>
      v = v' \<and> rel (time a) c' s'"
    and later: "rel t c s \<Longrightarrow> t \<le> t' \<Longrightarrow> rel t' c s"
begin

lemma run_refines:
  "sorted (t # map time as) \<Longrightarrow> rel t c s \<Longrightarrow> fst (run_steps conc as c) = fst (run_steps abst as s)"
proof (induction as arbitrary: t c s)
  case (Cons a as)
  obtain v c1 where c1: "conc c a = (v, c1)" by (cases "conc c a")
  obtain v' s1 where s1: "abst s a = (v', s1)" by (cases "abst s a")
  have "rel (time a) c s" using Cons.prems later by auto
  from step [OF this c1 s1] have eq: "v = v'" "rel (time a) c1 s1" by auto
  have "fst (run_steps conc as c1) = fst (run_steps abst as s1)"
    by (rule Cons.IH [OF _ eq(2)]) (use Cons.prems in auto)
  with eq(1) show ?case by (simp add: c1 s1 case_prod_beta)
qed simp

end

section \<open>Windows of time\<close>

text \<open>How many of the instants lie in a window, and that no window holds more than \<open>m\<close>.\<close>

definition count_within :: "'t::linordered_ab_group_add \<Rightarrow> 't \<Rightarrow> 't list \<Rightarrow> nat" where
  "count_within a w ts = length (filter (\<lambda>t. a \<le> t \<and> t \<le> a + w) ts)"

definition windows_within :: "int \<Rightarrow> 't::linordered_ab_group_add \<Rightarrow> 't list \<Rightarrow> bool" where
  "windows_within m w ts \<longleftrightarrow> (\<forall>a. int (count_within a w ts) \<le> m)"

lemma count_within_append: "count_within a w (xs @ ys) = count_within a w xs + count_within a w ys"
  by (simp add: count_within_def)

lemma windows_within_Nil: "0 \<le> m \<Longrightarrow> windows_within m w []"
  by (simp add: windows_within_def count_within_def)

text \<open>A limiter that counts the last window before it admits keeps every window within the limit.\<close>

lemma windows_within_snoc:
  assumes "windows_within m w ts" "\<forall>t \<in> set ts. t \<le> now"
    and "int (length (filter (\<lambda>t. now - w \<le> t) ts)) < m"
  shows "windows_within m w (ts @ [now])"
  unfolding windows_within_def
proof
  fix a
  show "int (count_within a w (ts @ [now])) \<le> m"
  proof (cases "a \<le> now \<and> now \<le> a + w")
    case False
    then have "count_within a w (ts @ [now]) = count_within a w ts"
      by (auto simp: count_within_def)
    with assms(1) show ?thesis unfolding windows_within_def by simp
  next
    case True
    then have "now - w \<le> a" by (simp add: diff_le_eq)
    then have "filter (\<lambda>t. a \<le> t \<and> t \<le> a + w) ts =
        filter (\<lambda>t. a \<le> t \<and> t \<le> a + w) (filter (\<lambda>t. now - w \<le> t) ts)"
      by (auto intro!: filter_cong)
    then have "count_within a w ts \<le> length (filter (\<lambda>t. now - w \<le> t) ts)"
      by (simp only: count_within_def length_filter_le)
    with assms(3) show ?thesis by (simp add: count_within_append) (simp add: count_within_def)
  qed
qed

section \<open>Lists\<close>

lemma filter_empty_iff: "filter p xs = [] \<longleftrightarrow> (\<forall>x \<in> set xs. \<not> p x)"
  by (induction xs) auto

end
