(* ===== verification/PyValue.thy ===== *)
theory PyValue
  imports Prelude
begin

text \<open>
  The values the backend keeps in JSON columns and the Python string operations the
  services apply to them.
\<close>

section \<open>JSON values\<close>

text \<open>
  A JSON column holds one of these; an object is the list of its items in order.
  Numbers are integers: the code branches on no fractional JSON number.
\<close>

datatype json =
  JNull
| JBool bool
| JInt int
| JStr string
| JList "json list"
| JObj "(string \<times> json) list"

text \<open>Python's truth value.\<close>

fun truthy :: "json \<Rightarrow> bool" where
  "truthy JNull = False"
| "truthy (JBool b) = b"
| "truthy (JInt i) = (i \<noteq> 0)"
| "truthy (JStr s) = (s \<noteq> [])"
| "truthy (JList xs) = (xs \<noteq> [])"
| "truthy (JObj d) = (d \<noteq> [])"

fun is_obj :: "json \<Rightarrow> bool" where
  "is_obj (JObj d) = True"
| "is_obj _ = False"

text \<open>\<open>x if isinstance(x, dict) else {}\<close>.\<close>

fun obj_or_empty :: "json \<Rightarrow> (string, json) dict" where
  "obj_or_empty (JObj d) = d"
| "obj_or_empty _ = []"

text \<open>\<open>d.get(k)\<close> (absent reads as None) and \<open>d.get(k, default)\<close>.\<close>

definition jget :: "string \<Rightarrow> (string, json) dict \<Rightarrow> json" where
  "jget k d = (case dget k d of None \<Rightarrow> JNull | Some v \<Rightarrow> v)"

definition jget_or :: "string \<Rightarrow> json \<Rightarrow> (string, json) dict \<Rightarrow> json" where
  "jget_or k dflt d = (case dget k d of None \<Rightarrow> dflt | Some v \<Rightarrow> v)"

lemma jget_Nil [simp]: "jget k [] = JNull"
  by (simp add: jget_def dget_def)

lemma jget_dset: "jget k (dset j v d) = (if k = j then v else jget k d)"
  by (simp add: jget_def dget_dset)

lemma jget_dset_same [simp]: "jget k (dset k v d) = v"
  by (simp add: jget_dset)

lemma jget_dset_other [simp]: "k \<noteq> j \<Longrightarrow> jget k (dset j v d) = jget k d"
  by (simp add: jget_dset)

lemma jget_dpop: "jget k (dpop j d) = (if k = j then JNull else jget k d)"
  by (simp add: jget_def dget_dpop)

lemma jget_or_dset: "jget_or k df (dset j v d) = (if k = j then v else jget_or k df d)"
  by (simp add: jget_or_def dget_dset)

section \<open>Strings\<close>

text \<open>
  Python strings are modelled over their ASCII characters; \<open>lower\<close> maps A-Z, and
  white space is the ten ASCII characters that \<open>str.isspace\<close> accepts.
\<close>

definition lower_char :: "char \<Rightarrow> char" where
  "lower_char c = (let n = of_char c :: nat in if 65 \<le> n \<and> n \<le> 90 then char_of (n + 32) else c)"

definition py_lower :: "string \<Rightarrow> string" where
  "py_lower s = map lower_char s"

definition is_space :: "char \<Rightarrow> bool" where
  "is_space c = ((of_char c :: nat) \<in> {9, 10, 11, 12, 13, 28, 29, 30, 31, 32})"

definition py_strip :: "string \<Rightarrow> string" where
  "py_strip s = rev (dropWhile is_space (rev (dropWhile is_space s)))"

text \<open>The same functions over the characters themselves, for evaluation.\<close>

lemma lower_char_code [code]:
  "lower_char c = (case map_of (zip ''ABCDEFGHIJKLMNOPQRSTUVWXYZ'' ''abcdefghijklmnopqrstuvwxyz'') c of
    Some d \<Rightarrow> d | None \<Rightarrow> c)"
proof (cases c)
  case (Char b0 b1 b2 b3 b4 b5 b6 b7)
  show ?thesis unfolding Char
    by (cases b0; cases b1; cases b2; cases b3; cases b4; cases b5; cases b6; cases b7;
        simp add: lower_char_def char_of_eq_iff)
qed

lemma is_space_code [code]:
  "is_space c \<longleftrightarrow> c \<in> set [CHR 0x20, CHR 0x0A, CHR 0x09, CHR 0x0D, CHR 0x0B, CHR 0x0C, CHR 0x1C, CHR 0x1D,
    CHR 0x1E, CHR 0x1F]"
proof (cases c)
  case (Char b0 b1 b2 b3 b4 b5 b6 b7)
  show ?thesis unfolding Char
    by (cases b0; cases b1; cases b2; cases b3; cases b4; cases b5; cases b6; cases b7;
        simp add: is_space_def)
qed

definition starts_with :: "string \<Rightarrow> string \<Rightarrow> bool" where
  "starts_with p s = prefix p s"

text \<open>\<open>needle in s\<close>.\<close>

fun occurs_in :: "string \<Rightarrow> string \<Rightarrow> bool" where
  "occurs_in needle [] = (needle = [])"
| "occurs_in needle (c # s) = (prefix needle (c # s) \<or> occurs_in needle s)"

lemma occurs_in_sublist: "occurs_in n s \<longleftrightarrow> sublist n s"
  by (induction s) (auto simp: sublist_Cons_right)

lemma occurs_in_self [simp]: "occurs_in n n"
  by (simp add: occurs_in_sublist)

section \<open>Decimal numerals\<close>

definition digit_char :: "nat \<Rightarrow> char" where
  "digit_char n = ''0123456789'' ! (n mod 10)"

fun show_nat :: "nat \<Rightarrow> string" where
  "show_nat n = (if n < 10 then [digit_char n] else show_nat (n div 10) @ [digit_char (n mod 10)])"

declare show_nat.simps [simp del]

definition show_int :: "int \<Rightarrow> string" where
  "show_int i = (if i < 0 then CHR ''-'' # show_nat (nat (- i)) else show_nat (nat i))"

definition digit_val :: "char \<Rightarrow> nat option" where
  "digit_val c = (let n = of_char c :: nat in if 48 \<le> n \<and> n \<le> 57 then Some (n - 48) else None)"

text \<open>
  The digits of an \<open>int()\<close> literal: at least one digit, single underscores between
  digits. The flag says whether the previous character was a digit.
\<close>

fun parse_digits :: "bool \<Rightarrow> nat \<Rightarrow> string \<Rightarrow> nat option" where
  "parse_digits after_digit acc [] = (if after_digit then Some acc else None)"
| "parse_digits after_digit acc (c # s) =
    (case digit_val c of
      Some d \<Rightarrow> parse_digits True (10 * acc + d) s
    | None \<Rightarrow> (if c = CHR ''_'' \<and> after_digit then parse_digits False acc s else None))"

definition parse_int :: "string \<Rightarrow> int option" where
  "parse_int s = (case py_strip s of
      [] \<Rightarrow> None
    | c # r \<Rightarrow>
        (if c = CHR ''-'' then map_option (\<lambda>n. - int n) (parse_digits False 0 r)
         else if c = CHR ''+'' then map_option int (parse_digits False 0 r)
         else map_option int (parse_digits False 0 (c # r))))"

text \<open>\<open>int(value)\<close>: None is a \<open>TypeError\<close> or a \<open>ValueError\<close>.\<close>

fun py_int :: "json \<Rightarrow> int option" where
  "py_int (JInt i) = Some i"
| "py_int (JBool b) = Some (if b then 1 else 0)"
| "py_int (JStr s) = parse_int s"
| "py_int _ = None"

text \<open>What is printed is read back.\<close>

lemma digit_val_digit_char [simp]: "digit_val (digit_char d) = Some (d mod 10)"
proof -
  have "\<forall>k < 10. digit_val (''0123456789'' ! k) = Some k"
    by (simp add: All_less_Suc numeral_eq_Suc digit_val_def)
  then show ?thesis by (simp add: digit_char_def)
qed

lemma parse_digits_show_nat:
  "\<exists>k. \<forall>r. parse_digits b acc (show_nat n @ r) = parse_digits True (acc * 10 ^ k + n) r"
proof (induction n arbitrary: acc b rule: show_nat.induct)
  case (1 n)
  show ?case
  proof (cases "n < 10")
    case True
    then have "\<forall>r. parse_digits b acc (show_nat n @ r) = parse_digits True (acc * 10 ^ 1 + n) r"
      by (simp add: show_nat.simps [of n] mult.commute)
    then show ?thesis by blast
  next
    case False
    obtain k where k: "\<forall>r. parse_digits b acc (show_nat (n div 10) @ r) = parse_digits True (acc * 10 ^ k + n div 10) r"
      using 1 [OF False] by blast
    have "\<forall>r. parse_digits b acc (show_nat n @ r) = parse_digits True (acc * 10 ^ Suc k + n) r"
    proof
      fix r
      have "10 * (acc * 10 ^ k + n div 10) + n mod 10 = acc * 10 ^ Suc k + n" by simp
      then show "parse_digits b acc (show_nat n @ r) = parse_digits True (acc * 10 ^ Suc k + n) r"
        using False k by (simp add: show_nat.simps [of n] algebra_simps)
    qed
    then show ?thesis by blast
  qed
qed

lemma digit_char_cases: "digit_char d \<in> set ''0123456789''"
  by (simp only: digit_char_def) (rule nth_mem, simp)

lemma set_show_nat: "set (show_nat n) \<subseteq> set ''0123456789''"
proof (induction n rule: show_nat.induct)
  case (1 n)
  then show ?case
    using digit_char_cases by (subst show_nat.simps) auto
qed

lemma show_nat_nonempty [simp]: "show_nat n \<noteq> []"
  by (subst show_nat.simps) simp

lemma py_strip_no_space: "\<forall>c \<in> set x. \<not> is_space c \<Longrightarrow> py_strip x = x"
proof -
  assume a: "\<forall>c \<in> set x. \<not> is_space c"
  have "dropWhile is_space y = y" if "\<forall>c \<in> set y. \<not> is_space c" for y
    using that by (cases y) auto
  from this [of x] this [of "rev x"] a show ?thesis by (simp add: py_strip_def)
qed

lemma parse_int_show_int [simp]: "parse_int (show_int i) = Some i"
proof -
  have dig: "\<not> is_space c \<and> c \<noteq> CHR ''-'' \<and> c \<noteq> CHR ''+''" if "c \<in> set (show_nat n)" for c n
    using subsetD [OF set_show_nat that] by (auto simp: is_space_def)
  have nat: "parse_digits False 0 (show_nat n) = Some n" for n
    using parse_digits_show_nat [of False 0 n] by (metis add_0 append_Nil2 mult_zero_left parse_digits.simps(1))
  show ?thesis
  proof (cases "i < 0")
    case True
    have "py_strip (CHR ''-'' # show_nat (nat (- i))) = CHR ''-'' # show_nat (nat (- i))"
      by (rule py_strip_no_space) (use dig in \<open>auto simp: is_space_def\<close>)
    with True show ?thesis by (simp add: parse_int_def show_int_def nat)
  next
    case False
    have "py_strip (show_nat (nat i)) = show_nat (nat i)"
      by (rule py_strip_no_space) (use dig in blast)
    moreover obtain c r where "show_nat (nat i) = c # r" by (cases "show_nat (nat i)") auto
    moreover have "c \<noteq> CHR ''-'' \<and> c \<noteq> CHR ''+''" using dig [of c "nat i"] calculation(2) by simp
    ultimately show ?thesis using False nat [of "nat i"] by (simp add: parse_int_def show_int_def)
  qed
qed

section \<open>Rendering\<close>

text \<open>
  \<open>json.dumps(value)\<close> with its default separators and \<open>ensure_ascii\<close>, and \<open>str(value)\<close>,
  over ASCII strings.
\<close>

definition hex_digit :: "nat \<Rightarrow> char" where
  "hex_digit n = ''0123456789abcdef'' ! (n mod 16)"

definition hex2 :: "char \<Rightarrow> string" where
  "hex2 c = (let n = of_char c :: nat in [hex_digit (n div 16), hex_digit n])"

definition printable :: "char \<Rightarrow> bool" where
  "printable c = (let n = of_char c :: nat in 32 \<le> n \<and> n < 127)"

definition json_char :: "char \<Rightarrow> string" where
  "json_char c =
    (if c = CHR 0x22 \<or> c = CHR 0x5C then [CHR 0x5C, c]
     else if c = CHR 0x0A then [CHR 0x5C, CHR ''n'']
     else if c = CHR 0x0D then [CHR 0x5C, CHR ''r'']
     else if c = CHR 0x09 then [CHR 0x5C, CHR ''t'']
     else if c = CHR 0x0C then [CHR 0x5C, CHR ''f'']
     else if c = CHR 0x08 then [CHR 0x5C, CHR ''b'']
     else if printable c then [c]
     else [CHR 0x5C, CHR ''u'', CHR ''0'', CHR ''0''] @ hex2 c)"

definition json_string :: "string \<Rightarrow> string" where
  "json_string s = [CHR 0x22] @ concat (map json_char s) @ [CHR 0x22]"

fun join :: "string \<Rightarrow> string list \<Rightarrow> string" where
  "join sep [] = []"
| "join sep [x] = x"
| "join sep (x # y # xs) = x @ sep @ join sep (y # xs)"

fun json_dumps :: "json \<Rightarrow> string" where
  "json_dumps JNull = ''null''"
| "json_dumps (JBool b) = (if b then ''true'' else ''false'')"
| "json_dumps (JInt i) = show_int i"
| "json_dumps (JStr s) = json_string s"
| "json_dumps (JList xs) = ''['' @ join '', '' (map json_dumps xs) @ '']''"
| "json_dumps (JObj d) =
    ''{'' @ join '', '' (map (\<lambda>p. json_string (fst p) @ '': '' @ json_dumps (snd p)) d) @ ''}''"

definition repr_char :: "char \<Rightarrow> char \<Rightarrow> string" where
  "repr_char quote c =
    (if c = quote \<or> c = CHR 0x5C then [CHR 0x5C, c]
     else if c = CHR 0x0A then [CHR 0x5C, CHR ''n'']
     else if c = CHR 0x0D then [CHR 0x5C, CHR ''r'']
     else if c = CHR 0x09 then [CHR 0x5C, CHR ''t'']
     else if printable c then [c]
     else [CHR 0x5C, CHR ''x''] @ hex2 c)"

definition repr_string :: "string \<Rightarrow> string" where
  "repr_string s =
    (let quote = (if CHR 0x27 \<in> set s \<and> CHR 0x22 \<notin> set s then CHR 0x22 else CHR 0x27)
     in [quote] @ concat (map (repr_char quote) s) @ [quote])"

fun py_repr :: "json \<Rightarrow> string" where
  "py_repr JNull = ''None''"
| "py_repr (JBool b) = (if b then ''True'' else ''False'')"
| "py_repr (JInt i) = show_int i"
| "py_repr (JStr s) = repr_string s"
| "py_repr (JList xs) = ''['' @ join '', '' (map py_repr xs) @ '']''"
| "py_repr (JObj d) =
    ''{'' @ join '', '' (map (\<lambda>p. repr_string (fst p) @ '': '' @ py_repr (snd p)) d) @ ''}''"

fun py_str :: "json \<Rightarrow> string" where
  "py_str (JStr s) = s"
| "py_str v = py_repr v"

text \<open>\<open>a or b\<close>.\<close>

definition py_or :: "json \<Rightarrow> json \<Rightarrow> json" where
  "py_or a b = (if truthy a then a else b)"

text \<open>The name in an \<open>AttributeError\<close>: \<open>'str' object has no attribute 'get'\<close>.\<close>

fun type_name :: "json \<Rightarrow> string" where
  "type_name JNull = ''NoneType''"
| "type_name (JBool _) = ''bool''"
| "type_name (JInt _) = ''int''"
| "type_name (JStr _) = ''str''"
| "type_name (JList _) = ''list''"
| "type_name (JObj _) = ''dict''"

definition no_attribute_get :: "json \<Rightarrow> string" where
  "no_attribute_get v =
    [CHR 0x27] @ type_name v @ [CHR 0x27] @ '' object has no attribute '' @ [CHR 0x27] @ ''get'' @ [CHR 0x27]"

section \<open>UUID text\<close>

text \<open>\<open>s.replace(old, new)\<close> for a nonempty \<open>old\<close>.\<close>

function replace_all :: "string \<Rightarrow> string \<Rightarrow> string \<Rightarrow> string" where
  "replace_all old new [] = []"
| "replace_all old new (c # s) =
    (if old \<noteq> [] \<and> prefix old (c # s) then new @ replace_all old new (drop (length old) (c # s))
     else c # replace_all old new s)"
  by pat_completeness auto
termination by (relation "measure (\<lambda>(old, new, s). length s)") (auto simp: neq_Nil_conv)

definition hex_char :: "char \<Rightarrow> bool" where
  "hex_char c = (let n = of_char c :: nat in 48 \<le> n \<and> n \<le> 57 \<or> 97 \<le> n \<and> n \<le> 102)"

definition strip_braces :: "string \<Rightarrow> string" where
  "strip_braces s =
    rev (dropWhile (\<lambda>c. c = CHR ''{'' \<or> c = CHR ''}'')
      (rev (dropWhile (\<lambda>c. c = CHR ''{'' \<or> c = CHR ''}'') s)))"

text \<open>
  \<open>UUID(text)\<close>: 32 hexadecimal digits once the URN prefixes, the braces and the dashes are
  gone; the value is its canonical text. None is a \<open>ValueError\<close>.
\<close>

definition parse_uuid :: "string \<Rightarrow> uuid option" where
  "parse_uuid s =
    (let h = py_lower (replace_all ''-'' [] (strip_braces (replace_all ''uuid:'' [] (replace_all ''urn:'' [] s))))
     in if length h = 32 \<and> list_all hex_char h
        then Some (join ''-'' [take 8 h, take 4 (drop 8 h), take 4 (drop 12 h), take 4 (drop 16 h), drop 20 h])
        else None)"

end
