(* ===== verification/Store.thy ===== *)
theory Store
  imports PyValue
begin

text \<open>
  The database: one row record per table of \<open>app/models\<close>, the columns in the order of
  the model class under a table prefix, and \<open>db\<close>, the tables as lists of rows in
  insertion order. A nullable column is an option; a status column whose values the code
  writes is a datatype. The relationship attributes and indexes are not state. The
  \<open>updated_at\<close> columns are written by the database alone and read by no service the
  model covers: they are left out.
\<close>

section \<open>Tenants and users\<close>

record tenant =
  tn_id :: uuid
  tn_name :: string
  tn_slug :: string
  tn_plan :: string
  tn_max_workflows :: int
  tn_max_agents_per_workflow :: int
  tn_monthly_token_budget :: int
  tn_tokens_used_this_month :: int
  tn_dispatch_alert_policy :: json
  tn_dispatch_automation_worker_config :: json
  tn_created_at :: instant

record user =
  us_id :: uuid
  us_tenant_id :: uuid
  us_email :: string
  us_password_hash :: string
  us_full_name :: "string option"
  us_role :: string
  us_is_active :: bool
  us_must_change_password :: bool
  us_created_at :: instant

record refresh_token =
  rt_id :: uuid
  rt_user_id :: uuid
  rt_tenant_id :: uuid
  rt_token_hash :: string
  rt_expires_at :: instant
  rt_revoked_at :: "instant option"
  rt_replaced_by_id :: "uuid option"
  rt_created_at :: instant

section \<open>Workflows and agents\<close>

text \<open>
  \<open>Workflow.definition\<close> is a JSON object with the lists \<open>nodes\<close> and \<open>edges\<close> (an absent
  list reads as empty). A node or an edge is an object; \<open>None\<close> is an absent key. The
  \<open>data\<close> of a node is any JSON value, the \<open>data\<close> of an edge an object.
\<close>

record node =
  nd_id :: "string option"
  nd_type :: "string option"
  nd_data :: json

record edge =
  ed_source :: "string option"
  ed_target :: "string option"
  ed_data :: "(string, json) dict"

record graph_def =
  df_nodes :: "node list"
  df_edges :: "edge list"

record workflow =
  wf_id :: uuid
  wf_tenant_id :: uuid
  wf_name :: string
  wf_description :: string
  wf_definition :: graph_def
  wf_execution_pattern :: string
  wf_is_active :: bool
  wf_dispatch_paused :: bool
  wf_dispatch_paused_at :: "instant option"
  wf_dispatch_paused_by :: "uuid option"
  wf_created_by :: "uuid option"
  wf_created_at :: instant

record agent_config =
  ac_id :: uuid
  ac_tenant_id :: uuid
  ac_workflow_id :: uuid
  ac_node_id :: string
  ac_name :: string
  ac_role :: string
  ac_system_prompt :: string
  ac_model :: string
  ac_tools :: "json list"
  ac_memory_type :: string
  ac_max_tokens :: int
  ac_temperature :: rat
  ac_created_at :: instant

record tool_row =
  tl_id :: uuid
  tl_tenant_id :: uuid
  tl_name :: string
  tl_description :: string
  tl_tool_type :: string
  tl_config :: json
  tl_is_active :: bool
  tl_created_at :: instant

section \<open>Executions\<close>

datatype exec_status = ExPending | ExRunning | ExCompleted | ExFailed | ExCancelled

record execution =
  ex_id :: uuid
  ex_tenant_id :: uuid
  ex_workflow_id :: uuid
  ex_status :: exec_status
  ex_input_data :: json
  ex_output_data :: json
  ex_total_tokens :: int
  ex_total_cost :: rat
  ex_error_message :: "string option"
  ex_started_at :: "instant option"
  ex_completed_at :: "instant option"
  ex_created_at :: instant

record execution_log =
  lg_execution_id :: uuid
  lg_agent_config_id :: "uuid option"
  lg_step_number :: nat
  lg_agent_name :: string
  lg_action :: string
  lg_input_data :: json
  lg_output_data :: json
  lg_tokens_used :: int
  lg_cost :: rat
  lg_decision_reasoning :: "string option"
  lg_duration_ms :: "nat option"
  lg_node_id :: "string option"
  lg_node_type :: string
  lg_connector_key :: "string option"
  lg_action_key :: "string option"
  lg_attempt :: nat
  lg_retryable :: bool
  lg_sanitized_error :: "string option"

section \<open>Workflow doctor\<close>

datatype fix_status = FxProposed | FxReplayPassed | FxReplayFailed | FxApplied | FxDismissed

datatype replay_status = RpPending | RpRunning | RpPassed | RpFailed

record fix_suggestion =
  fs_id :: uuid
  fs_tenant_id :: uuid
  fs_workflow_id :: uuid
  fs_execution_id :: uuid
  fs_agent_config_id :: "uuid option"
  fs_tool_id :: "uuid option"
  fs_detector_code :: string
  fs_title :: string
  fs_root_cause :: string
  fs_recommendation :: string
  fs_severity :: string
  fs_confidence :: rat
  fs_patch :: json
  fs_replay_result :: json
  fs_status :: fix_status
  fs_applied_by :: "uuid option"
  fs_applied_at :: "instant option"
  fs_dismissed_at :: "instant option"
  fs_created_at :: instant

record replay_run =
  rr_id :: uuid
  rr_tenant_id :: uuid
  rr_workflow_id :: uuid
  rr_execution_id :: uuid
  rr_suggestion_id :: uuid
  rr_mode :: string
  rr_status :: replay_status
  rr_result :: json
  rr_started_at :: instant
  rr_completed_at :: "instant option"

section \<open>Connectors and webhooks\<close>

record connector_credential =
  cr_id :: uuid
  cr_tenant_id :: uuid
  cr_connector_key :: string
  cr_name :: string
  cr_auth_type :: string
  cr_encrypted_config :: json
  cr_config_preview :: json
  cr_is_active :: bool
  cr_created_by :: "uuid option"
  cr_created_at :: instant

record workflow_trigger =
  tg_id :: uuid
  tg_tenant_id :: uuid
  tg_workflow_id :: uuid
  tg_trigger_type :: string
  tg_public_id :: string
  tg_config :: json
  tg_is_active :: bool
  tg_created_by :: "uuid option"
  tg_created_at :: instant

datatype event_status = WeReceived | WeExecutionCreated

record webhook_event =
  we_id :: uuid
  we_tenant_id :: uuid
  we_workflow_id :: uuid
  we_trigger_id :: uuid
  we_execution_id :: "uuid option"
  we_payload :: json
  we_headers_sanitized :: json
  we_status :: event_status
  we_error_message :: "string option"
  we_created_at :: instant

section \<open>Dispatch alerts and automation\<close>

record alert_channel =
  ch_id :: uuid
  ch_tenant_id :: uuid
  ch_name :: string
  ch_channel_type :: string
  ch_encrypted_config :: json
  ch_config_preview :: json
  ch_is_active :: bool
  ch_created_by :: "uuid option"
  ch_created_at :: instant

record alert_delivery =
  dl_id :: uuid
  dl_tenant_id :: uuid
  dl_channel_id :: "uuid option"
  dl_alert_code :: string
  dl_channel_type :: string
  dl_target_preview :: string
  dl_status :: string
  dl_status_code :: "int option"
  dl_error_message :: "string option"
  dl_created_at :: instant

record incident_ack =
  ak_id :: uuid
  ak_tenant_id :: uuid
  ak_incident_key :: string
  ak_status :: string
  ak_severity :: string
  ak_summary :: string
  ak_alert_codes :: "string list"
  ak_acknowledged_by :: "uuid option"
  ak_acknowledged_by_email :: string
  ak_acknowledged_by_name :: "string option"
  ak_note :: "string option"
  ak_resolved_by :: "uuid option"
  ak_resolved_by_email :: "string option"
  ak_resolved_by_name :: "string option"
  ak_resolution_note :: "string option"
  ak_resolved_at :: "instant option"
  ak_created_at :: instant

datatype plan_status =
  PlPendingApproval | PlApproved | PlRejected | PlExecuting | PlExecuted | PlBlocked | PlFailed

record automation_plan =
  pl_id :: uuid
  pl_tenant_id :: uuid
  pl_recommendation_code :: string
  pl_automation_type :: string
  pl_status :: plan_status
  pl_priority :: string
  pl_title :: string
  pl_rationale :: string
  pl_suggested_action :: string
  pl_confidence :: rat
  pl_evidence :: json
  pl_blocked_by :: json
  pl_requested_by :: "uuid option"
  pl_requested_by_email :: string
  pl_requested_by_name :: "string option"
  pl_approved_by :: "uuid option"
  pl_approved_by_email :: "string option"
  pl_approved_by_name :: "string option"
  pl_approved_at :: "instant option"
  pl_rejected_by :: "uuid option"
  pl_rejected_by_email :: "string option"
  pl_rejected_by_name :: "string option"
  pl_rejection_note :: "string option"
  pl_rejected_at :: "instant option"
  pl_execution_result :: json
  pl_executed_at :: "instant option"
  pl_execution_error :: "string option"
  pl_created_at :: instant

record worker_run =
  wr_id :: uuid
  wr_tenant_id :: uuid
  wr_triggered_by :: "uuid option"
  wr_trigger_type :: string
  wr_status :: string
  wr_limit :: int
  wr_claimed :: nat
  wr_executed :: nat
  wr_blocked :: nat
  wr_failed :: nat
  wr_error_message :: "string option"
  wr_created_at :: instant

section \<open>The database\<close>

record db =
  tenants :: "tenant list"
  users :: "user list"
  refresh_tokens :: "refresh_token list"
  workflows :: "workflow list"
  agent_configs :: "agent_config list"
  tools :: "tool_row list"
  executions :: "execution list"
  execution_logs :: "execution_log list"
  suggestions :: "fix_suggestion list"
  replay_runs :: "replay_run list"
  credentials :: "connector_credential list"
  triggers :: "workflow_trigger list"
  webhook_events :: "webhook_event list"
  channels :: "alert_channel list"
  deliveries :: "alert_delivery list"
  acks :: "incident_ack list"
  plans :: "automation_plan list"
  worker_runs :: "worker_run list"

definition empty_db :: db where
  "empty_db = \<lparr>tenants = [], users = [], refresh_tokens = [], workflows = [],
    agent_configs = [], tools = [], executions = [], execution_logs = [], suggestions = [],
    replay_runs = [], credentials = [], triggers = [], webhook_events = [], channels = [],
    deliveries = [], acks = [], plans = [], worker_runs = []\<rparr>"

end
