(* ===== verification/Compiler.thy ===== *)
theory Compiler
  imports Store
begin

text \<open>
  The graph compiler, \<open>app/engine/compiler.py\<close>: validation of a workflow definition, the
  agent configurations of its nodes, and the state graph it hands to LangGraph. LangGraph
  itself is a parameter: a function from the graph that was built to the message of the
  exception its \<open>add_node\<close>, \<open>add_edge\<close> or \<open>compile\<close> raises, if any.
\<close>

section \<open>Validation\<close>

datatype compilation_error =
  NoNodes
| TooManyNodes nat
| TooManyEdges nat
| UnknownSource "string option"
| UnknownTarget "string option"
| Disconnected
| Orphans "string option list"
| ConfigsMissing "string option list"

definition MAX_NODES :: nat where
  "MAX_NODES = 200"

definition MAX_EDGES :: nat where
  "MAX_EDGES = 400"

definition node_ids :: "graph_def \<Rightarrow> string option list" where
  "node_ids d = map nd_id (df_nodes d)"

text \<open>The loop over the edges: the first dangling end is reported, the source first.\<close>

fun check_edges :: "string option list \<Rightarrow> edge list \<Rightarrow> compilation_error option" where
  "check_edges ids [] = None"
| "check_edges ids (e # es) =
    (if ed_source e \<notin> set ids then Some (UnknownSource (ed_source e))
     else if ed_target e \<notin> set ids then Some (UnknownTarget (ed_target e))
     else check_edges ids es)"

definition connected_nodes :: "edge list \<Rightarrow> string option set" where
  "connected_nodes es = ed_source ` set es \<union> ed_target ` set es"

definition orphan_nodes :: "graph_def \<Rightarrow> string option list" where
  "orphan_nodes d = remdups (filter (\<lambda>i. i \<notin> connected_nodes (df_edges d)) (node_ids d))"

text \<open>\<open>None\<close> is a normal return, \<open>Some e\<close> is \<open>raise CompilationError\<close>.\<close>

definition validate_definition :: "graph_def \<Rightarrow> compilation_error option" where
  "validate_definition d =
    (let nodes = df_nodes d; edges = df_edges d in
     if nodes = [] then Some NoNodes
     else if length nodes > MAX_NODES then Some (TooManyNodes (length nodes))
     else if length edges > MAX_EDGES then Some (TooManyEdges (length edges))
     else case check_edges (node_ids d) edges of
       Some e \<Rightarrow> Some e
     | None \<Rightarrow>
        if length nodes > 1 \<and> edges = [] then Some Disconnected
        else if length nodes > 1 \<and> orphan_nodes d \<noteq> [] then Some (Orphans (orphan_nodes d))
        else None)"

text \<open>The promise of the validation, as a predicate on the definition.\<close>

definition well_formed_graph :: "graph_def \<Rightarrow> bool" where
  "well_formed_graph d \<longleftrightarrow>
    1 \<le> length (df_nodes d) \<and> length (df_nodes d) \<le> 200 \<and> length (df_edges d) \<le> 400 \<and>
    ed_source ` set (df_edges d) \<union> ed_target ` set (df_edges d) \<subseteq> nd_id ` set (df_nodes d) \<and>
    (length (df_nodes d) > 1 \<longrightarrow>
      nd_id ` set (df_nodes d) \<subseteq> ed_source ` set (df_edges d) \<union> ed_target ` set (df_edges d))"

text \<open>What each error says of the definition.\<close>

fun diagnosis :: "graph_def \<Rightarrow> compilation_error \<Rightarrow> bool" where
  "diagnosis d NoNodes = (df_nodes d = [])"
| "diagnosis d (TooManyNodes n) = (n = length (df_nodes d) \<and> n > 200)"
| "diagnosis d (TooManyEdges n) = (n = length (df_edges d) \<and> n > 400)"
| "diagnosis d (UnknownSource s) =
    (s \<notin> nd_id ` set (df_nodes d) \<and> s \<in> ed_source ` set (df_edges d))"
| "diagnosis d (UnknownTarget t) =
    (t \<notin> nd_id ` set (df_nodes d) \<and> t \<in> ed_target ` set (df_edges d))"
| "diagnosis d Disconnected = (length (df_nodes d) > 1 \<and> df_edges d = [])"
| "diagnosis d (Orphans os) =
    (os \<noteq> [] \<and> distinct os \<and>
     set os = nd_id ` set (df_nodes d) - (ed_source ` set (df_edges d) \<union> ed_target ` set (df_edges d)))"
| "diagnosis d (ConfigsMissing ms) = False"

lemma set_node_ids: "set (node_ids d) = nd_id ` set (df_nodes d)"
  by (simp add: node_ids_def)

lemma node_ids_Nil_iff [simp]: "node_ids d = [] \<longleftrightarrow> df_nodes d = []"
  by (simp add: node_ids_def)

lemma check_edges_None_iff:
  "check_edges ids es = None \<longleftrightarrow> ed_source ` set es \<union> ed_target ` set es \<subseteq> set ids"
  by (induction es) auto

lemma check_edges_Some:
  "check_edges ids es = Some err \<Longrightarrow>
    (\<exists>s. err = UnknownSource s \<and> s \<notin> set ids \<and> s \<in> ed_source ` set es) \<or>
    (\<exists>t. err = UnknownTarget t \<and> t \<notin> set ids \<and> t \<in> ed_target ` set es)"
  by (induction es) (auto split: if_splits)

lemma orphan_nodes_Nil_iff:
  "orphan_nodes d = [] \<longleftrightarrow>
    nd_id ` set (df_nodes d) \<subseteq> ed_source ` set (df_edges d) \<union> ed_target ` set (df_edges d)"
  by (auto simp: orphan_nodes_def filter_empty_iff set_node_ids connected_nodes_def)

lemma set_orphan_nodes:
  "set (orphan_nodes d) =
    nd_id ` set (df_nodes d) - (ed_source ` set (df_edges d) \<union> ed_target ` set (df_edges d))"
  by (auto simp: orphan_nodes_def set_node_ids connected_nodes_def)

lemmas validate_simps =
  validate_definition_def MAX_NODES_def MAX_EDGES_def Let_def

lemma check_edges_Some_iff:
  "(\<exists>err. check_edges ids es = Some err) \<longleftrightarrow>
    \<not> ed_source ` set es \<union> ed_target ` set es \<subseteq> set ids"
  using check_edges_None_iff [of ids es] by auto

lemma validate_None_iff: "validate_definition d = None \<longleftrightarrow> well_formed_graph d"
proof (cases "check_edges (node_ids d) (df_edges d)")
  case None
  then have closed: "ed_source ` set (df_edges d) \<union> ed_target ` set (df_edges d) \<subseteq> nd_id ` set (df_nodes d)"
    by (simp only: check_edges_None_iff set_node_ids)
  show ?thesis
    unfolding validate_definition_def well_formed_graph_def Let_def MAX_NODES_def MAX_EDGES_def None
      option.case orphan_nodes_Nil_iff
    using closed by (cases "df_nodes d"; cases "df_edges d") auto
next
  case (Some err)
  then have "\<not> ed_source ` set (df_edges d) \<union> ed_target ` set (df_edges d) \<subseteq> nd_id ` set (df_nodes d)"
    by (metis check_edges_Some_iff set_node_ids)
  with Some show ?thesis
    by (auto simp: validate_simps well_formed_graph_def)
qed

lemma distinct_orphan_nodes: "distinct (orphan_nodes d)"
  by (simp add: orphan_nodes_def)

lemma validate_Some_diagnosis:
  assumes "validate_definition d = Some err"
  shows "diagnosis d err"
proof (cases "check_edges (node_ids d) (df_edges d)")
  case None
  with assms show ?thesis
    by (auto simp: validate_simps set_orphan_nodes distinct_orphan_nodes split: if_splits)
next
  case (Some e)
  with assms check_edges_Some [OF Some] show ?thesis
    by (auto simp: validate_simps set_node_ids split: if_splits)
qed

section \<open>The state graph\<close>

text \<open>Where a conditional edge leads: a node, or LangGraph's \<open>END\<close>.\<close>

datatype dest = To "string option" | END

datatype graph_edge =
  PlainEdge "string option" dest
| ConditionalEdges "string option" "(json, dest) dict"

record state_graph =
  sg_nodes :: "string option list"
  sg_entry :: "string option"
  sg_edges :: "graph_edge list"

text \<open>\<open>adjacency[source].append(edge)\<close>, over the edges in definition order.\<close>

definition group_append :: "'k \<Rightarrow> 'v \<Rightarrow> ('k, 'v list) dict \<Rightarrow> ('k, 'v list) dict" where
  "group_append k x d = dset k ((case dget k d of None \<Rightarrow> [] | Some xs \<Rightarrow> xs) @ [x]) d"

definition adjacency :: "edge list \<Rightarrow> (string option, edge list) dict" where
  "adjacency es = foldl (\<lambda>adj e. group_append (ed_source e) e adj) [] es"

definition edge_condition :: "edge \<Rightarrow> json" where
  "edge_condition e = jget ''condition'' (ed_data e)"

definition condition_map :: "edge list \<Rightarrow> (json, dest) dict" where
  "condition_map es =
    (let m = foldl (\<lambda>m e. dset (jget_or ''condition'' (JStr ''default'') (ed_data e)) (To (ed_target e)) m) [] es
     in if dget (JStr ''default'') m = None then dset (JStr ''default'') END m else m)"

definition source_edges :: "string option \<Rightarrow> edge list \<Rightarrow> graph_edge list" where
  "source_edges src es =
    (if \<exists>e \<in> set es. truthy (edge_condition e) then [ConditionalEdges src (condition_map es)]
     else map (\<lambda>e. PlainEdge src (To (ed_target e))) es)"

definition entry_node :: "graph_def \<Rightarrow> string option" where
  "entry_node d =
    (case filter (\<lambda>i. i \<notin> ed_target ` set (df_edges d)) (node_ids d) of
      [] \<Rightarrow> nd_id (hd (df_nodes d))
    | i # _ \<Rightarrow> i)"

definition terminal_nodes :: "graph_def \<Rightarrow> string option list" where
  "terminal_nodes d = filter (\<lambda>i. i \<notin> ed_source ` set (df_edges d)) (node_ids d)"

definition build_state_graph :: "graph_def \<Rightarrow> state_graph" where
  "build_state_graph d =
    \<lparr>sg_nodes = node_ids d,
     sg_entry = entry_node d,
     sg_edges = concat (map (\<lambda>p. source_edges (fst p) (snd p)) (adjacency (df_edges d)))
       @ map (\<lambda>i. PlainEdge i END)
           (filter (\<lambda>i. dget i (adjacency (df_edges d)) = None) (terminal_nodes d))\<rparr>"

text \<open>\<open>condition_fn\<close> of \<open>_make_condition_function\<close>, on \<open>metadata.get("next_action", "default")\<close>.\<close>

definition condition_fn :: "(json, dest) dict \<Rightarrow> (string, json) dict \<Rightarrow> json" where
  "condition_fn cmap metadata =
    (let next_action = jget_or ''next_action'' (JStr ''default'') metadata in
     if dget next_action cmap \<noteq> None then next_action else JStr ''default'')"

section \<open>Compilation\<close>

definition node_kind :: "node \<Rightarrow> string" where
  "node_kind n = (case nd_type n of None \<Rightarrow> ''agent'' | Some t \<Rightarrow> if t = [] then ''agent'' else t)"

definition agent_node_ids :: "graph_def \<Rightarrow> string option list" where
  "agent_node_ids d = map nd_id (filter (\<lambda>n. node_kind n = ''agent'') (df_nodes d))"

text \<open>The rows the query selects, and \<open>{ac.node_id: ac for ac in agent_configs}\<close>.\<close>

definition select_agent_configs :: "db \<Rightarrow> uuid \<Rightarrow> uuid \<Rightarrow> string option list \<Rightarrow> agent_config list" where
  "select_agent_configs s workflow_id tenant_id ids =
    filter (\<lambda>ac. ac_workflow_id ac = workflow_id \<and> ac_tenant_id ac = tenant_id
      \<and> Some (ac_node_id ac) \<in> set ids) (agent_configs s)"

definition agent_config_map :: "db \<Rightarrow> uuid \<Rightarrow> uuid \<Rightarrow> string option list \<Rightarrow> (string, agent_config) dict" where
  "agent_config_map s workflow_id tenant_id ids =
    dupdate [] (map (\<lambda>ac. (ac_node_id ac, ac)) (select_agent_configs s workflow_id tenant_id ids))"

definition missing_configs :: "string option list \<Rightarrow> (string, agent_config) dict \<Rightarrow> string option list" where
  "missing_configs ids cfgs = remdups (filter (\<lambda>i. i \<notin> Some ` fst ` set cfgs) ids)"

text \<open>
  \<open>Compiled\<close> is the value returned, \<open>Rejected\<close> is \<open>raise CompilationError\<close>, and
  \<open>GraphError\<close> an exception of LangGraph that goes through \<open>compile_graph\<close>.
\<close>

datatype compile_result =
  Compiled state_graph "(string, agent_config) dict"
| Rejected compilation_error
| GraphError string

definition compile_graph ::
  "(state_graph \<Rightarrow> string option) \<Rightarrow> graph_def \<Rightarrow> uuid \<Rightarrow> uuid \<Rightarrow> db \<Rightarrow> compile_result" where
  "compile_graph langgraph d workflow_id tenant_id s =
    (case validate_definition d of
      Some err \<Rightarrow> Rejected err
    | None \<Rightarrow>
       (let ids = agent_node_ids d; cfgs = agent_config_map s workflow_id tenant_id ids;
            missing = missing_configs ids cfgs in
        if missing \<noteq> [] then Rejected (ConfigsMissing missing)
        else case langgraph (build_state_graph d) of
          Some msg \<Rightarrow> GraphError msg
        | None \<Rightarrow> Compiled (build_state_graph d) cfgs))"

lemma dget_group_append:
  "dget k (group_append j x d) =
    (if k = j then Some ((case dget k d of None \<Rightarrow> [] | Some xs \<Rightarrow> xs) @ [x]) else dget k d)"
  by (simp add: group_append_def dget_dset)

text \<open>Grouping a list by a key: a lookup returns the elements with that key, in order.\<close>

lemma dget_grouping:
  "dget k (foldl (\<lambda>adj e. group_append (key e) e adj) d es) =
    (case filter (\<lambda>e. key e = k) es of
      [] \<Rightarrow> dget k d
    | ys \<Rightarrow> Some ((case dget k d of None \<Rightarrow> [] | Some xs \<Rightarrow> xs) @ ys))"
proof (induction es arbitrary: d)
  case (Cons e es)
  then show ?case
    by (cases "filter (\<lambda>e. key e = k) es") (auto simp: dget_group_append split: option.splits)
qed simp

lemma dget_adjacency:
  "dget k (adjacency es) =
    (case filter (\<lambda>e. ed_source e = k) es of [] \<Rightarrow> None | ys \<Rightarrow> Some ys)"
  by (simp add: adjacency_def dget_grouping split: list.splits)

lemma keys_group_append: "fst ` set (group_append k x d) = insert k (fst ` set d)"
  by (simp add: group_append_def set_keys_dset)

lemma keys_adjacency: "fst ` set (adjacency es) = ed_source ` set es"
proof -
  have "fst ` set (foldl (\<lambda>adj e. group_append (ed_source e) e adj) d es) =
      ed_source ` set es \<union> fst ` set d" for d
    by (induction es arbitrary: d) (auto simp: keys_group_append)
  from this [of "[]"] show ?thesis by (simp add: adjacency_def)
qed

lemma dget_agent_config_map:
  assumes "dget i (agent_config_map s w t ids) = Some ac"
  shows "ac \<in> set (agent_configs s)" "ac_node_id ac = i" "ac_workflow_id ac = w"
    "ac_tenant_id ac = t" "Some i \<in> set ids"
proof -
  let ?rows = "map (\<lambda>ac. (ac_node_id ac, ac)) (select_agent_configs s w t ids)"
  from assms have "map_of (rev ?rows) i = Some ac"
    by (auto simp: agent_config_map_def dget_dupdate split: option.splits)
  then have "(i, ac) \<in> set (rev ?rows)" by (rule map_of_SomeD)
  then have mem: "(i, ac) \<in> (\<lambda>ac. (ac_node_id ac, ac)) ` set (select_agent_configs s w t ids)"
    by simp
  then show "ac \<in> set (agent_configs s)" "ac_node_id ac = i" "ac_workflow_id ac = w"
    "ac_tenant_id ac = t" "Some i \<in> set ids"
    by (auto simp: select_agent_configs_def)
qed

lemma missing_configs_Nil_iff:
  "missing_configs ids cfgs = [] \<longleftrightarrow> (\<forall>i \<in> set ids. \<exists>k. i = Some k \<and> dget k cfgs \<noteq> None)"
  unfolding missing_configs_def remdups_eq_nil_iff filter_empty_iff dget_None_iff
  by (fastforce simp: image_image)

lemma compile_CompiledD:
  assumes "compile_graph lg d w t s = Compiled g cfgs"
  shows "validate_definition d = None" "cfgs = agent_config_map s w t (agent_node_ids d)"
    "missing_configs (agent_node_ids d) cfgs = []" "g = build_state_graph d"
  using assms by (auto simp: compile_graph_def Let_def split: option.splits if_splits)

lemma compile_agent_node_config:
  assumes "compile_graph lg d w t s = Compiled g cfgs" "n \<in> set (df_nodes d)" "node_kind n = ''agent''"
  shows "\<exists>i ac. nd_id n = Some i \<and> dget i cfgs = Some ac \<and> ac \<in> set (agent_configs s) \<and>
    ac_node_id ac = i \<and> ac_workflow_id ac = w \<and> ac_tenant_id ac = t"
proof -
  have "nd_id n \<in> set (agent_node_ids d)"
    using assms(2,3) by (auto simp: agent_node_ids_def)
  then obtain i ac where "nd_id n = Some i" "dget i cfgs = Some ac"
    using compile_CompiledD(3) [OF assms(1)] by (auto simp: missing_configs_Nil_iff)
  moreover from this(2) compile_CompiledD(2) [OF assms(1)]
  have "ac \<in> set (agent_configs s)" "ac_node_id ac = i" "ac_workflow_id ac = w" "ac_tenant_id ac = t"
    using dget_agent_config_map by metis+
  ultimately show ?thesis by blast
qed

section \<open>The state graph stays inside the definition\<close>

fun edge_dests :: "graph_edge \<Rightarrow> dest set" where
  "edge_dests (PlainEdge src t) = {t}"
| "edge_dests (ConditionalEdges src m) = snd ` set m"

fun edge_from :: "graph_edge \<Rightarrow> string option" where
  "edge_from (PlainEdge src t) = src"
| "edge_from (ConditionalEdges src m) = src"

lemma snd_dset_subset: "snd ` set (dset k v d) \<subseteq> insert v (snd ` set d)"
  by (induction k v d rule: dset.induct) auto

lemma condition_map_dests:
  "snd ` set (condition_map es) \<subseteq> insert END (To ` ed_target ` set es)"
proof -
  let ?step = "\<lambda>m e. dset (jget_or ''condition'' (JStr ''default'') (ed_data e)) (To (ed_target e)) m"
  have "snd ` set (foldl ?step m es) \<subseteq> snd ` set m \<union> To ` ed_target ` set es" for m
  proof (induction es arbitrary: m)
    case (Cons e es)
    have "snd ` set (?step m e) \<subseteq> insert (To (ed_target e)) (snd ` set m)"
      by (rule snd_dset_subset)
    with Cons [of "?step m e"] show ?case by auto
  qed simp
  from this [of "[]"] have fold: "snd ` set (foldl ?step [] es) \<subseteq> To ` ed_target ` set es" by simp
  show ?thesis
    unfolding condition_map_def Let_def
    using subset_trans [OF snd_dset_subset insert_mono [OF fold]] fold by auto
qed

lemma condition_map_default: "dget (JStr ''default'') (condition_map es) \<noteq> None"
  by (simp add: condition_map_def Let_def dget_dset)

lemma condition_fn_in_map: "dget (condition_fn (condition_map es) metadata) (condition_map es) \<noteq> None"
  using condition_map_default [of es] by (simp add: condition_fn_def Let_def)

lemma source_edges_dests:
  "ge \<in> set (source_edges src es) \<Longrightarrow>
    edge_from ge = src \<and> edge_dests ge \<subseteq> insert END (To ` ed_target ` set es)"
  using condition_map_dests [of es] by (auto simp: source_edges_def split: if_splits)

lemma distinct_keys_adjacency: "distinct (map fst (adjacency es))"
proof -
  have "distinct (map fst d) \<Longrightarrow>
      distinct (map fst (foldl (\<lambda>adj e. group_append (ed_source e) e adj) d es))" for d
    by (induction es arbitrary: d) (auto simp: group_append_def distinct_keys_dset)
  then show ?thesis by (simp add: adjacency_def)
qed

lemma adjacency_memD:
  assumes "(src, es) \<in> set (adjacency all)"
  shows "es = filter (\<lambda>e. ed_source e = src) all" "es \<noteq> []"
proof -
  from assms have "dget src (adjacency all) = Some es"
    unfolding dget_def by (rule map_of_is_SomeI [OF distinct_keys_adjacency])
  then show "es = filter (\<lambda>e. ed_source e = src) all" "es \<noteq> []"
    by (auto simp: dget_adjacency split: list.splits)
qed

lemma entry_node_mem: "df_nodes d \<noteq> [] \<Longrightarrow> entry_node d \<in> nd_id ` set (df_nodes d)"
proof (cases "filter (\<lambda>i. i \<notin> ed_target ` set (df_edges d)) (node_ids d)")
  case (Cons i rest)
  then have "i \<in> set (filter (\<lambda>i. i \<notin> ed_target ` set (df_edges d)) (node_ids d))" by simp
  then have "i \<in> set (node_ids d)" by simp
  with Cons show ?thesis unfolding entry_node_def set_node_ids by simp
qed (simp add: entry_node_def)

lemma edge_from_mem:
  assumes "ge \<in> set (sg_edges (build_state_graph d))"
  shows "edge_from ge \<in> ed_source ` set (df_edges d) \<union> nd_id ` set (df_nodes d)"
    and "edge_dests ge \<subseteq> insert END (To ` ed_target ` set (df_edges d))"
proof -
  from assms consider (source) src es where "(src, es) \<in> set (adjacency (df_edges d))"
      "ge \<in> set (source_edges src es)"
    | (final) i where "i \<in> set (terminal_nodes d)" "ge = PlainEdge i END"
    by (auto simp: build_state_graph_def)
  then have "edge_from ge \<in> ed_source ` set (df_edges d) \<union> nd_id ` set (df_nodes d) \<and>
    edge_dests ge \<subseteq> insert END (To ` ed_target ` set (df_edges d))"
  proof cases
    case source
    note es = adjacency_memD [OF source(1)]
    then have "src \<in> ed_source ` set (df_edges d)" by (auto simp: filter_empty_iff)
    moreover have "set es \<subseteq> set (df_edges d)" using es(1) by auto
    ultimately show ?thesis using source_edges_dests [OF source(2)] by blast
  next
    case final
    then show ?thesis by (auto simp: terminal_nodes_def set_node_ids)
  qed
  then show "edge_from ge \<in> ed_source ` set (df_edges d) \<union> nd_id ` set (df_nodes d)"
    "edge_dests ge \<subseteq> insert END (To ` ed_target ` set (df_edges d))" by blast+
qed

section \<open>Properties\<close>

text \<open>
  C31: \<open>validate_definition\<close> returns normally exactly on the graphs within the limits
  (1 to 200 nodes, at most 400 edges) whose edges join declared nodes and, with more than one
  node, leave no node without an edge; otherwise the error it raises is a true diagnosis.
\<close>

theorem validate_definition_correct:
  "case validate_definition d of
    None \<Rightarrow> well_formed_graph d
  | Some err \<Rightarrow> \<not> well_formed_graph d \<and> diagnosis d err"
  using validate_None_iff [of d] validate_Some_diagnosis [of d] by (auto split: option.splits)

text \<open>
  When \<open>compile_graph\<close> returns, every agent node of the definition has an identifier
  and a configuration, a row of the same workflow and tenant for that node, and any other
  configuration it hands to the executor also belongs to that workflow and tenant.
\<close>

theorem compile_graph_configured:
  assumes "compile_graph langgraph d w t s = Compiled g cfgs"
  shows "(\<forall>n \<in> set (df_nodes d). node_kind n = ''agent'' \<longrightarrow>
      (\<exists>i ac. nd_id n = Some i \<and> dget i cfgs = Some ac)) \<and>
    (\<forall>i ac. dget i cfgs = Some ac \<longrightarrow> ac \<in> set (agent_configs s) \<and>
      ac_node_id ac = i \<and> ac_workflow_id ac = w \<and> ac_tenant_id ac = t)"
  using compile_agent_node_config [OF assms] compile_CompiledD(2) [OF assms]
    dget_agent_config_map [of _ s w t "agent_node_ids d"]
  by blast

text \<open>
  The state graph of a definition that passes validation stays inside it: its entry point
  is a declared node, and every edge, plain or conditional, leads from a declared node to
  declared nodes or to \<open>END\<close>.
\<close>

theorem state_graph_closed:
  assumes "validate_definition d = None"
  shows "sg_entry (build_state_graph d) \<in> nd_id ` set (df_nodes d) \<and>
    (\<forall>ge \<in> set (sg_edges (build_state_graph d)).
      edge_from ge \<in> nd_id ` set (df_nodes d) \<and>
      edge_dests ge \<subseteq> insert END (To ` nd_id ` set (df_nodes d)))"
proof -
  from assms have wf: "well_formed_graph d" by (simp add: validate_None_iff)
  then have ends: "ed_source ` set (df_edges d) \<union> ed_target ` set (df_edges d) \<subseteq> nd_id ` set (df_nodes d)"
    and "df_nodes d \<noteq> []" by (auto simp: well_formed_graph_def)
  from entry_node_mem [OF this(2)]
  have entry: "sg_entry (build_state_graph d) \<in> nd_id ` set (df_nodes d)"
    by (simp add: build_state_graph_def)
  have "edge_from ge \<in> nd_id ` set (df_nodes d) \<and>
      edge_dests ge \<subseteq> insert END (To ` nd_id ` set (df_nodes d))"
    if "ge \<in> set (sg_edges (build_state_graph d))" for ge
  proof
    from edge_from_mem(1) [OF that] ends show "edge_from ge \<in> nd_id ` set (df_nodes d)"
      by (auto simp only: Un_subset_iff Un_iff dest: subsetD)
    from ends have "To ` ed_target ` set (df_edges d) \<subseteq> To ` nd_id ` set (df_nodes d)"
      by (intro image_mono) (simp only: Un_subset_iff)
    from order_trans [OF edge_from_mem(2) [OF that] insert_mono [OF this]]
    show "edge_dests ge \<subseteq> insert END (To ` nd_id ` set (df_nodes d))" .
  qed
  with entry show ?thesis by blast
qed

section \<open>Witnesses\<close>

definition sample_node :: "string \<Rightarrow> node" where
  "sample_node i = \<lparr>nd_id = Some i, nd_type = None, nd_data = JNull\<rparr>"

definition sample_edge :: "string \<Rightarrow> string \<Rightarrow> string \<Rightarrow> edge" where
  "sample_edge a b c = \<lparr>ed_source = Some a, ed_target = Some b,
    ed_data = (if c = [] then [] else [(''condition'', JStr c)])\<rparr>"

text \<open>A loop between a writer and a reviewer, left when the reviewer approves.\<close>

definition sample_graph :: graph_def where
  "sample_graph = \<lparr>df_nodes = [sample_node ''write'', sample_node ''review'', sample_node ''publish''],
    df_edges = [sample_edge ''write'' ''review'' [], sample_edge ''review'' ''write'' ''retry'',
      sample_edge ''review'' ''publish'' ''approve'']\<rparr>"

definition sample_agent :: "string \<Rightarrow> agent_config" where
  "sample_agent i = \<lparr>ac_id = ''cfg-'' @ i, ac_tenant_id = ''t1'', ac_workflow_id = ''w1'',
    ac_node_id = i, ac_name = i, ac_role = ''analyzer'', ac_system_prompt = ''Be brief.'',
    ac_model = ''gpt-4o'', ac_tools = [], ac_memory_type = ''buffer'', ac_max_tokens = 100,
    ac_temperature = 7/10, ac_created_at = 0\<rparr>"

definition sample_agents_db :: db where
  "sample_agents_db = empty_db\<lparr>agent_configs := map sample_agent [''write'', ''review'', ''publish'']\<rparr>"

lemma sample_graph_compiles:
  "compile_graph (\<lambda>_. None) sample_graph ''w1'' ''t1'' sample_agents_db =
    Compiled (build_state_graph sample_graph)
      (map (\<lambda>i. (i, sample_agent i)) [''write'', ''review'', ''publish''])"
  by code_simp

theorem compile_graph_configured_witness:
  "\<exists>ac. dget ''review'' (map (\<lambda>i. (i, sample_agent i)) [''write'', ''review'', ''publish'']) = Some ac
    \<and> ac_tenant_id ac = ''t1'' \<and> ac \<in> set (agent_configs sample_agents_db)"
proof -
  have "dget ''review'' (map (\<lambda>i. (i, sample_agent i)) [''write'', ''review'', ''publish''])
      = Some (sample_agent ''review'')" by code_simp
  with compile_graph_configured [OF sample_graph_compiles] show ?thesis by blast
qed

theorem state_graph_closed_witness:
  "sg_entry (build_state_graph sample_graph) \<in> nd_id ` set (df_nodes sample_graph)"
proof -
  have "validate_definition sample_graph = None" by code_simp
  from state_graph_closed [OF this] show ?thesis by blast
qed

end
