(* ===== verification/TopoSort.thy ===== *)
theory TopoSort
  imports Compiler
begin

text \<open>
  The execution order of a workflow that is not cyclic: \<open>_topological_sort\<close> of
  \<open>app/engine/executor.py\<close>, Kahn's algorithm with the remaining nodes appended. The two
  dictionaries of the source are total functions, read only at declared nodes; the
  in-degrees are integers, since a node declared twice is relaxed twice.
\<close>

type_synonym nid = "string option"

section \<open>The algorithm\<close>

text \<open>The loop over the edges that fills \<open>adj\<close> and \<open>in_degree\<close>.\<close>

definition degree_step ::
  "nid list \<Rightarrow> (nid \<Rightarrow> nid list) \<times> (nid \<Rightarrow> int) \<Rightarrow> edge \<Rightarrow> (nid \<Rightarrow> nid list) \<times> (nid \<Rightarrow> int)" where
  "degree_step ids st e =
    (case st of (adj, deg) \<Rightarrow>
      if ed_source e \<in> set ids \<and> ed_target e \<in> set ids
      then (adj(ed_source e := adj (ed_source e) @ [ed_target e]),
            deg(ed_target e := deg (ed_target e) + 1))
      else (adj, deg))"

definition degrees :: "nid list \<Rightarrow> edge list \<Rightarrow> (nid \<Rightarrow> nid list) \<times> (nid \<Rightarrow> int)" where
  "degrees ids es = foldl (degree_step ids) (\<lambda>_. [], \<lambda>_. 0) es"

text \<open>The inner loop: a neighbour whose in-degree drops to zero joins the queue.\<close>

fun relax :: "nid list \<Rightarrow> (nid \<Rightarrow> int) \<Rightarrow> nid list \<Rightarrow> (nid \<Rightarrow> int) \<times> nid list" where
  "relax [] deg q = (deg, q)"
| "relax (n # ns) deg q =
    (let deg' = deg(n := deg n - 1) in
     relax ns deg' (if deg' n = 0 then q @ [n] else q))"

definition succs :: "nid list \<Rightarrow> edge list \<Rightarrow> nid \<Rightarrow> nid list" where
  "succs ids es = fst (degrees ids es)"

lemma degree_step_pair [simp]:
  "degree_step ids (adj, deg) e =
    (if ed_source e \<in> set ids \<and> ed_target e \<in> set ids
     then (adj(ed_source e := adj (ed_source e) @ [ed_target e]),
           deg(ed_target e := deg (ed_target e) + 1))
     else (adj, deg))"
  by (simp add: degree_step_def)

lemma degrees_closed_aux:
  "foldl (degree_step ids) (adj, deg) es =
    (\<lambda>s. adj s @ map ed_target (filter (\<lambda>e. ed_source e = s \<and> s \<in> set ids \<and> ed_target e \<in> set ids) es),
     \<lambda>t. deg t + int (length (filter (\<lambda>e. ed_target e = t \<and> ed_source e \<in> set ids \<and> t \<in> set ids) es)))"
proof (induction es arbitrary: adj deg)
  case (Cons e es)
  show ?case
    by (cases "ed_source e \<in> set ids \<and> ed_target e \<in> set ids")
      (auto simp: Cons.IH fun_eq_iff)
qed simp

lemma succs_closed:
  "succs ids es s = map ed_target (filter (\<lambda>e. ed_source e = s \<and> s \<in> set ids \<and> ed_target e \<in> set ids) es)"
  by (simp add: succs_def degrees_def degrees_closed_aux)

lemma in_degree_closed:
  "snd (degrees ids es) t =
    int (length (filter (\<lambda>e. ed_target e = t \<and> ed_source e \<in> set ids \<and> t \<in> set ids) es))"
  by (simp add: degrees_def degrees_closed_aux)

lemma succs_subset: "set (succs ids es s) \<subseteq> set ids"
  by (auto simp: succs_closed)

text \<open>Relaxing cannot grow the queue by more than the nodes it brings to zero.\<close>

definition positive :: "nid list \<Rightarrow> (nid \<Rightarrow> int) \<Rightarrow> nat" where
  "positive ids deg = card {n \<in> set ids. deg n > 0}"

lemma positive_decrement:
  assumes "n \<in> set ids"
  shows "positive ids (deg(n := deg n - 1)) + (if deg n = 1 then 1 else 0) \<le> positive ids deg"
proof (cases "deg n = 1")
  case True
  then have "{m \<in> set ids. deg m > 0} = insert n {m \<in> set ids. (deg(n := deg n - 1)) m > 0}"
    using assms by auto
  with True show ?thesis by (simp add: positive_def)
next
  case False
  then have "{m \<in> set ids. (deg(n := deg n - 1)) m > 0} \<subseteq> {m \<in> set ids. deg m > 0}" by auto
  with False show ?thesis by (simp add: positive_def card_mono)
qed

lemma relax_measure:
  "set ns \<subseteq> set ids \<Longrightarrow> relax ns deg q = (deg', q') \<Longrightarrow>
    length q' + positive ids deg' \<le> length q + positive ids deg"
proof (induction ns arbitrary: deg q)
  case (Cons n ns)
  let ?deg = "deg(n := deg n - 1)"
  from Cons.prems(2) have "relax ns ?deg (if ?deg n = 0 then q @ [n] else q) = (deg', q')"
    unfolding relax.simps Let_def .
  moreover from Cons.prems(1) have "set ns \<subseteq> set ids" by simp
  ultimately have "length q' + positive ids deg' \<le>
      length (if ?deg n = 0 then q @ [n] else q) + positive ids ?deg"
    by (intro Cons.IH)
  also have "\<dots> \<le> length (n # q) - 1 + positive ids deg"
    using positive_decrement [of n ids deg] Cons.prems(1) by auto
  finally show ?case by simp
qed simp

text \<open>The outer loop.\<close>

function kahn :: "nid list \<Rightarrow> edge list \<Rightarrow> (nid \<Rightarrow> int) \<Rightarrow> nid list \<Rightarrow> nid list \<Rightarrow> nid list" where
  "kahn ids es deg [] res = res"
| "kahn ids es deg (n # q) res =
    (case relax (succs ids es n) deg q of (deg', q') \<Rightarrow> kahn ids es deg' q' (res @ [n]))"
  by pat_completeness auto

termination
proof (relation "measure (\<lambda>(ids, es, deg, q, res). length q + positive ids deg)", goal_cases)
  case (2 ids es deg n q res st q')
  then show ?case
    using relax_measure [OF succs_subset [of ids es n], of deg q st q'] by simp
qed simp

definition kahn_prefix :: "nid list \<Rightarrow> edge list \<Rightarrow> nid list" where
  "kahn_prefix ids es =
    (let deg = snd (degrees ids es) in kahn ids es deg (filter (\<lambda>n. deg n = 0) ids) [])"

definition topological_sort :: "node list \<Rightarrow> edge list \<Rightarrow> nid list" where
  "topological_sort nodes es =
    (let ids = map nd_id nodes; result = kahn_prefix ids es in
     if length result < length ids then result @ filter (\<lambda>n. n \<notin> set result) ids else result)"

section \<open>What the loop keeps\<close>

text \<open>An edge between declared nodes: the target depends on the source.\<close>

definition depends :: "nid list \<Rightarrow> edge list \<Rightarrow> nid \<Rightarrow> nid \<Rightarrow> bool" where
  "depends ids es s t \<longleftrightarrow>
    s \<in> set ids \<and> t \<in> set ids \<and> (\<exists>e \<in> set es. ed_source e = s \<and> ed_target e = t)"

text \<open>The number of edges into a node from nodes that are not in the result yet.\<close>

definition pending_edges :: "nid list \<Rightarrow> edge list \<Rightarrow> nid list \<Rightarrow> nid \<Rightarrow> int" where
  "pending_edges ids es res t = int (length (filter (\<lambda>e. ed_target e = t \<and>
    ed_source e \<in> set ids \<and> t \<in> set ids \<and> ed_source e \<notin> set res) es))"

definition kahn_inv :: "nid list \<Rightarrow> edge list \<Rightarrow> (nid \<Rightarrow> int) \<Rightarrow> nid list \<Rightarrow> nid list \<Rightarrow> bool" where
  "kahn_inv ids es deg q res \<longleftrightarrow>
    distinct (res @ q) \<and> set (res @ q) \<subseteq> set ids \<and>
    (\<forall>n \<in> set ids. deg n = pending_edges ids es res n) \<and>
    (\<forall>n \<in> set ids. n \<in> set (res @ q) \<longleftrightarrow> deg n = 0) \<and>
    (\<forall>i < length res. \<forall>s. depends ids es s (res ! i) \<longrightarrow> s \<in> set (take i res))"

lemma pending_edges_nonneg [simp]: "0 \<le> pending_edges ids es res t"
  by (simp add: pending_edges_def)

lemma pending_edges_zero:
  "pending_edges ids es res t = 0 \<longleftrightarrow> (\<forall>s. depends ids es s t \<longrightarrow> s \<in> set res)"
  by (auto simp: pending_edges_def depends_def filter_empty_iff)

lemma count_list_map_filter: "count_list (map f (filter p xs)) y = length (filter (\<lambda>x. p x \<and> f x = y) xs)"
  by (induction xs) auto

lemma length_filter_split:
  "length (filter p xs) = length (filter (\<lambda>x. p x \<and> q x) xs) + length (filter (\<lambda>x. p x \<and> \<not> q x) xs)"
  by (induction xs) auto

lemma pending_edges_snoc:
  assumes "n \<in> set ids" "n \<notin> set res"
  shows "pending_edges ids es res t =
    pending_edges ids es (res @ [n]) t + int (count_list (succs ids es n) t)"
proof -
  let ?p = "\<lambda>e. ed_target e = t \<and> ed_source e \<in> set ids \<and> t \<in> set ids \<and> ed_source e \<notin> set res"
  have "filter (\<lambda>e. ?p e \<and> ed_source e \<noteq> n) es = filter (\<lambda>e. ed_target e = t \<and>
      ed_source e \<in> set ids \<and> t \<in> set ids \<and> ed_source e \<notin> set (res @ [n])) es"
    by (rule filter_cong) auto
  moreover have "filter (\<lambda>e. ?p e \<and> \<not> ed_source e \<noteq> n) es =
      filter (\<lambda>e. (ed_source e = n \<and> n \<in> set ids \<and> ed_target e \<in> set ids) \<and> ed_target e = t) es"
    using assms by (intro filter_cong) auto
  ultimately show ?thesis
    using length_filter_split [of ?p es "\<lambda>e. ed_source e \<noteq> n"]
    unfolding pending_edges_def succs_closed count_list_map_filter by simp
qed

text \<open>The neighbours that reach zero are appended once each, and no others.\<close>

lemma relax_result:
  assumes "\<And>m. m \<in> set ns \<Longrightarrow> int (count_list ns m) \<le> deg m"
  shows "\<exists>zs. relax ns deg q = (\<lambda>m. deg m - int (count_list ns m), q @ zs) \<and> distinct zs \<and>
    set zs = {m \<in> set ns. deg m = int (count_list ns m)}"
  using assms
proof (induction ns arbitrary: deg q)
  case (Cons n ns)
  define deg1 where "deg1 = (\<lambda>m. if m = n then deg n - 1 else deg m)"
  define q1 where "q1 = (if deg n = 1 then q @ [n] else q)"
  have step: "relax (n # ns) deg q = relax ns deg1 q1"
    by (simp add: deg1_def q1_def fun_upd_def)
  have "int (count_list ns m) \<le> deg1 m" if "m \<in> set ns" for m
    using Cons.prems [of m] that by (auto simp: deg1_def split: if_splits)
  from Cons.IH [OF this] obtain zs where
    zs: "relax ns deg1 q1 = (\<lambda>m. deg1 m - int (count_list ns m), q1 @ zs)" "distinct zs"
      "set zs = {m \<in> set ns. deg1 m = int (count_list ns m)}"
    by blast
  have deg: "(\<lambda>m. deg1 m - int (count_list ns m)) = (\<lambda>m. deg m - int (count_list (n # ns) m))"
    by (auto simp: deg1_def fun_eq_iff)
  show ?case
  proof (cases "deg n = 1")
    case True
    with Cons.prems [of n] have "n \<notin> set ns" by (auto simp: count_list_0_iff)
    have "m \<in> set (n # zs) \<longleftrightarrow> m \<in> set (n # ns) \<and> deg m = int (count_list (n # ns) m)" for m
      using True \<open>n \<notin> set ns\<close> by (cases "m = n") (simp_all add: zs(3) deg1_def count_list_0_iff)
    then have "set (n # zs) = {m \<in> set (n # ns). deg m = int (count_list (n # ns) m)}" by blast
    moreover have "distinct (n # zs)" using zs(2,3) \<open>n \<notin> set ns\<close> by simp
    moreover have "relax (n # ns) deg q = (\<lambda>m. deg m - int (count_list (n # ns) m), q @ n # zs)"
      using True step zs(1) deg by (simp add: q1_def)
    ultimately show ?thesis by blast
  next
    case False
    have "set zs = {m \<in> set (n # ns). deg m = int (count_list (n # ns) m)}"
    proof (intro set_eqI)
      fix m
      show "m \<in> set zs \<longleftrightarrow> m \<in> {m \<in> set (n # ns). deg m = int (count_list (n # ns) m)}"
      proof (cases "m = n")
        case True
        then show ?thesis
          using False by (cases "n \<in> set ns") (simp_all add: zs(3) deg1_def count_list_0_iff algebra_simps)
      next
        case False
        then show ?thesis by (simp add: zs(3) deg1_def)
      qed
    qed
    moreover have "relax (n # ns) deg q = (\<lambda>m. deg m - int (count_list (n # ns) m), q @ zs)"
      using False step zs(1) deg by (simp add: q1_def)
    ultimately show ?thesis using zs(2) by blast
  qed
qed simp

lemma kahn_inv_step:
  assumes inv: "kahn_inv ids es deg (n # q) res"
    and relax: "relax (succs ids es n) deg q = (deg', q')"
  shows "kahn_inv ids es deg' q' (res @ [n])"
proof -
  have n: "n \<in> set ids" "n \<notin> set res" "n \<notin> set q" and dist: "distinct res" "distinct q" "set res \<inter> set q = {}"
    and sub: "set (res @ n # q) \<subseteq> set ids"
    and deg: "\<And>m. m \<in> set ids \<Longrightarrow> deg m = pending_edges ids es res m"
    and zero: "\<And>m. m \<in> set ids \<Longrightarrow> m \<in> set (res @ n # q) \<longleftrightarrow> deg m = 0"
    and order: "\<And>i s. i < length res \<Longrightarrow> depends ids es s (res ! i) \<Longrightarrow> s \<in> set (take i res)"
    using inv unfolding kahn_inv_def by auto
  note split = pending_edges_snoc [OF n(1,2), of es]
  have "int (count_list (succs ids es n) m) \<le> deg m" if "m \<in> set (succs ids es n)" for m
    using split [of m] deg [of m] that succs_subset by fastforce
  from relax_result [OF this, of q] relax obtain zs where
    deg': "deg' = (\<lambda>m. deg m - int (count_list (succs ids es n) m))" and q': "q' = q @ zs"
    and zs: "distinct zs" "set zs = {m \<in> set (succs ids es n). deg m = int (count_list (succs ids es n) m)}"
    by auto
  have new: "deg' m = pending_edges ids es (res @ [n]) m" if "m \<in> set ids" for m
    using split [of m] deg [OF that] by (simp add: deg')
  have zs_ids: "set zs \<subseteq> set ids" using zs(2) subsetD [OF succs_subset] by blast
  have zs_new: "m \<notin> set (res @ n # q)" if "m \<in> set zs" for m
  proof -
    from that have "m \<in> set ids" "m \<in> set (succs ids es n)" "deg m = int (count_list (succs ids es n) m)"
      using zs(2) zs_ids by auto
    then show ?thesis using zero [of m] by (simp add: count_list_0_iff)
  qed
  have "m \<in> set ((res @ [n]) @ q') \<longleftrightarrow> deg' m = 0" if m: "m \<in> set ids" for m
  proof (cases "m \<in> set (succs ids es n)")
    case True
    then have "m \<in> set zs \<longleftrightarrow> deg' m = 0" by (simp add: zs(2) deg')
    moreover have "count_list (succs ids es n) m \<noteq> 0"
      using True by (simp add: count_list_0_iff)
    then have "deg m \<noteq> 0"
      using split [of m] deg [OF m] pending_edges_nonneg [of ids es "res @ [n]" m] by linarith
    ultimately show ?thesis using zero [OF m] by (simp add: q')
  next
    case False
    then have "deg' m = deg m" "m \<notin> set zs" by (simp_all add: deg' zs(2))
    then show ?thesis using zero [OF m] by (simp add: q')
  qed
  moreover have "s \<in> set (take i (res @ [n]))"
    if "i < length (res @ [n])" "depends ids es s ((res @ [n]) ! i)" for i s
  proof (cases "i < length res")
    case True
    with that order [of i s] show ?thesis by (simp add: nth_append)
  next
    case False
    with that have "i = length res" "depends ids es s n" by (simp_all add: nth_append less_Suc_eq)
    moreover have "pending_edges ids es res n = 0" using zero [OF n(1)] deg [OF n(1)] by simp
    ultimately show ?thesis by (simp add: pending_edges_zero)
  qed
  moreover have "distinct ((res @ [n]) @ q')" using n dist zs(1) zs_new by (auto simp: q')
  moreover have "set ((res @ [n]) @ q') \<subseteq> set ids" using sub zs_ids by (auto simp: q')
  ultimately show ?thesis unfolding kahn_inv_def using new by blast
qed

lemma kahn_inv_final: "kahn_inv ids es deg q res \<Longrightarrow> \<exists>deg'. kahn_inv ids es deg' [] (kahn ids es deg q res)"
proof (induction ids es deg q res rule: kahn.induct)
  case (2 ids es deg n q res)
  obtain deg' q' where r: "relax (succs ids es n) deg q = (deg', q')" by fastforce
  with 2 kahn_inv_step [OF 2(2) r] show ?case by simp
qed auto

lemma kahn_inv_start:
  "distinct ids \<Longrightarrow> kahn_inv ids es (snd (degrees ids es)) (filter (\<lambda>n. snd (degrees ids es) n = 0) ids) []"
  by (auto simp: kahn_inv_def in_degree_closed pending_edges_def intro!: arg_cong [of _ _ length] filter_cong)

text \<open>The final result: the prefix that Kahn's loop emits, then the declared nodes it did not.\<close>

lemma topological_sort_split:
  assumes "distinct (map nd_id nodes)"
  shows "\<exists>deg. kahn_inv (map nd_id nodes) es deg [] (kahn_prefix (map nd_id nodes) es)"
    and "topological_sort nodes es = kahn_prefix (map nd_id nodes) es @
      filter (\<lambda>n. n \<notin> set (kahn_prefix (map nd_id nodes) es)) (map nd_id nodes)"
proof -
  let ?ids = "map nd_id nodes" and ?P = "kahn_prefix (map nd_id nodes) es"
  show inv: "\<exists>deg. kahn_inv ?ids es deg [] ?P"
    using kahn_inv_final [OF kahn_inv_start [OF assms]] by (simp add: kahn_prefix_def Let_def)
  then have P: "distinct ?P" "set ?P \<subseteq> set ?ids" by (auto simp: kahn_inv_def)
  have "filter (\<lambda>n. n \<notin> set ?P) ?ids = []" if "\<not> length ?P < length ?ids"
  proof -
    from that have "card (set ?ids) \<le> card (set ?P)"
      using distinct_card [OF P(1)] distinct_card [OF assms] by linarith
    then have "set ?P = set ?ids" using P(2) card_seteq [of "set ?ids" "set ?P"] by simp
    then show ?thesis by (simp add: filter_empty_iff)
  qed
  then have "(if length ?P < length ?ids then ?P @ filter (\<lambda>n. n \<notin> set ?P) ?ids else ?P) =
      ?P @ filter (\<lambda>n. n \<notin> set ?P) ?ids" by (metis append_Nil2)
  then show "topological_sort nodes es = ?P @ filter (\<lambda>n. n \<notin> set ?P) ?ids"
    unfolding topological_sort_def Let_def .
qed

lemma kahn_prefix_order:
  assumes "kahn_inv ids es deg [] P" "depends ids es s t" "t \<in> set P"
  shows "\<exists>xs ys zs. P = xs @ s # ys @ t # zs"
proof -
  from assms(3) obtain i where i: "i < length P" "P ! i = t" by (auto simp: in_set_conv_nth)
  with assms(1,2) have "s \<in> set (take i P)" by (auto simp: kahn_inv_def)
  then obtain xs ys where "take i P = xs @ s # ys" by (auto dest: split_list)
  with id_take_nth_drop [OF i(1)] i(2) have "P = xs @ s # ys @ t # drop (Suc i) P" by simp
  then show ?thesis by blast
qed

lemma remaining_blocked:
  assumes "kahn_inv ids es deg [] P" "t \<in> set ids" "t \<notin> set P"
  shows "\<exists>s. depends ids es s t \<and> s \<notin> set P"
proof -
  from assms have "pending_edges ids es P t \<noteq> 0" by (auto simp: kahn_inv_def)
  then show ?thesis by (auto simp: pending_edges_zero)
qed

lemma acyclic_no_remaining:
  assumes inv: "kahn_inv ids es deg [] P" and acyc: "acyclic {(s, t). depends ids es s t}"
  shows "set P = set ids"
proof (rule ccontr)
  assume "set P \<noteq> set ids"
  with inv obtain t where t: "t \<in> set ids - set P" by (auto simp: kahn_inv_def)
  have "{(s, t). depends ids es s t} \<subseteq> set ids \<times> set ids" by (auto simp: depends_def)
  then have "finite {(s, t). depends ids es s t}" by (rule finite_subset) simp
  then have "wf {(s, t). depends ids es s t}" using acyc by (rule finite_acyclic_wf)
  then obtain m where m: "m \<in> set ids - set P" "\<And>s. depends ids es s m \<Longrightarrow> s \<notin> set ids - set P"
    using t by (rule wfE_min) auto
  with remaining_blocked [OF inv, of m] show False by (auto simp: depends_def)
qed

lemma topological_sort_mset:
  assumes "distinct (map nd_id nodes)"
  shows "mset (topological_sort nodes es) = mset (map nd_id nodes)"
proof -
  obtain deg where "kahn_inv (map nd_id nodes) es deg [] (kahn_prefix (map nd_id nodes) es)"
    using topological_sort_split(1) [OF assms] by blast
  then have "distinct (topological_sort nodes es)" "set (topological_sort nodes es) = set (map nd_id nodes)"
    unfolding topological_sort_split(2) [OF assms] using assms by (auto simp: kahn_inv_def)
  with assms show ?thesis using set_eq_iff_mset_eq_distinct by blast
qed

section \<open>Properties\<close>

text \<open>
  The execution order of a workflow whose node identifiers are distinct runs every
  declared node exactly once.
\<close>

theorem topological_sort_permutation:
  assumes "distinct (map nd_id nodes)"
  shows "mset (topological_sort nodes es) = mset (map nd_id nodes)"
  using assms by (rule topological_sort_mset)

text \<open>
  C35: the order is Kahn's prefix followed by the other nodes in definition order. A node of
  the prefix comes after every node it depends on; each remaining node waits for another
  remaining one, so an acyclic workflow has none and all its edges lead forward.
\<close>

theorem topological_sort_order:
  assumes "distinct (map nd_id nodes)"
  defines "ids \<equiv> map nd_id nodes"
  shows "\<exists>P. topological_sort nodes es = P @ filter (\<lambda>n. n \<notin> set P) ids \<and>
    (\<forall>s t. depends ids es s t \<and> t \<in> set P \<longrightarrow> (\<exists>xs ys zs. P = xs @ s # ys @ t # zs)) \<and>
    (\<forall>t \<in> set ids - set P. \<exists>s \<in> set ids - set P. depends ids es s t) \<and>
    (acyclic {(s, t). depends ids es s t} \<longrightarrow> topological_sort nodes es = P \<and> set P = set ids)"
proof -
  let ?P = "kahn_prefix ids es"
  obtain deg where inv: "kahn_inv ids es deg [] ?P"
    using topological_sort_split(1) [OF assms(1)] unfolding ids_def by blast
  have split: "topological_sort nodes es = ?P @ filter (\<lambda>n. n \<notin> set ?P) ids"
    using topological_sort_split(2) [OF assms(1)] unfolding ids_def .
  have "\<exists>s \<in> set ids - set ?P. depends ids es s t" if "t \<in> set ids - set ?P" for t
    using remaining_blocked [OF inv, of t] that unfolding depends_def by blast
  moreover have "topological_sort nodes es = ?P \<and> set ?P = set ids"
    if "acyclic {(s, t). depends ids es s t}"
    using acyclic_no_remaining [OF inv that] split by (simp add: filter_empty_iff)
  ultimately show ?thesis using split kahn_prefix_order [OF inv] by blast
qed

section \<open>Witnesses\<close>

definition diamond :: graph_def where
  "diamond = \<lparr>df_nodes = map sample_node [''join'', ''left'', ''start'', ''right''],
    df_edges = [sample_edge ''start'' ''left'' [], sample_edge ''start'' ''right'' [],
      sample_edge ''left'' ''join'' [], sample_edge ''right'' ''join'' []]\<rparr>"

lemma diamond_order:
  "topological_sort (df_nodes diamond) (df_edges diamond) =
    [Some ''start'', Some ''left'', Some ''right'', Some ''join'']"
  by code_simp

theorem topological_sort_permutation_witness:
  "mset (topological_sort (df_nodes diamond) (df_edges diamond)) =
    {#Some ''join'', Some ''left'', Some ''start'', Some ''right''#}"
proof -
  have "distinct (map nd_id (df_nodes diamond))" by code_simp
  from topological_sort_permutation [OF this, of "df_edges diamond"] show ?thesis
    by (simp add: diamond_def sample_node_def)
qed

theorem topological_sort_order_witness:
  "\<exists>P. topological_sort (df_nodes diamond) (df_edges diamond) =
    P @ filter (\<lambda>n. n \<notin> set P) (map nd_id (df_nodes diamond))"
proof -
  have "distinct (map nd_id (df_nodes diamond))" by code_simp
  from topological_sort_order [OF this, of "df_edges diamond"] show ?thesis by blast
qed

end
