(* ===== verification/Cost.thy ===== *)
theory Cost
  imports Store
begin

text \<open>
  Prices and costs of LLM calls, \<open>app/engine/cost.py\<close>. Prices and costs are rationals: the
  prices are whole cents per million tokens, so a cost is a multiple of ten to the minus
  eight and the rounding of the code loses nothing in exact arithmetic.
\<close>

type_synonym prices = "rat \<times> rat"

definition COST_PER_1M_TOKENS :: "(string, prices) dict" where
  "COST_PER_1M_TOKENS =
    [(''gpt-4o'', 5/2, 10), (''gpt-4o-mini'', 15/100, 60/100),
     (''claude-sonnet'', 3, 15), (''claude-opus'', 15, 75)]"

definition gpt_4o :: prices where "gpt_4o = (5/2, 10)"
definition gpt_4o_mini :: prices where "gpt_4o_mini = (15/100, 60/100)"
definition claude_sonnet :: prices where "claude_sonnet = (3, 15)"
definition claude_opus :: prices where "claude_opus = (15, 75)"

text \<open>The loop over the table: the first known model that is a prefix.\<close>

fun first_family :: "string \<Rightarrow> (string, prices) dict \<Rightarrow> prices option" where
  "first_family lowered [] = None"
| "first_family lowered ((known, p) # rest) =
    (if starts_with known lowered then Some p else first_family lowered rest)"

definition resolve_prices :: "string \<Rightarrow> prices" where
  "resolve_prices model =
    (case dget model COST_PER_1M_TOKENS of
      Some p \<Rightarrow> p
    | None \<Rightarrow>
       (let lowered = py_lower model in
        case first_family lowered COST_PER_1M_TOKENS of
          Some p \<Rightarrow> p
        | None \<Rightarrow>
            if occurs_in ''opus'' lowered then claude_opus
            else if occurs_in ''sonnet'' lowered then claude_sonnet
            else if starts_with ''gpt-4o-mini'' lowered \<or> occurs_in ''mini'' lowered then gpt_4o_mini
            else claude_opus))"

definition round8 :: "rat \<Rightarrow> rat" where
  "round8 x = of_int (round (x * 100000000)) / 100000000"

definition calculate_cost :: "string \<Rightarrow> int \<Rightarrow> int \<Rightarrow> rat" where
  "calculate_cost model input_tokens output_tokens =
    (let p = resolve_prices model in
     round8 ((of_int input_tokens * fst p + of_int output_tokens * snd p) / 1000000))"

lemmas price_defs = gpt_4o_def gpt_4o_mini_def claude_sonnet_def claude_opus_def

lemma table_prices:
  "COST_PER_1M_TOKENS = [(''gpt-4o'', gpt_4o), (''gpt-4o-mini'', gpt_4o_mini),
    (''claude-sonnet'', claude_sonnet), (''claude-opus'', claude_opus)]"
  by (simp add: COST_PER_1M_TOKENS_def price_defs)

lemma first_family_mem: "first_family l d = Some p \<Longrightarrow> p \<in> snd ` set d"
  by (induction l d rule: first_family.induct) (auto split: if_splits)

lemma resolve_prices_cases:
  "resolve_prices model \<in> {gpt_4o, gpt_4o_mini, claude_sonnet, claude_opus}"
proof -
  have known: "p \<in> {gpt_4o, gpt_4o_mini, claude_sonnet, claude_opus}"
    if "p \<in> snd ` set COST_PER_1M_TOKENS" for p
    using that by (auto simp: table_prices)
  have table: "p \<in> {gpt_4o, gpt_4o_mini, claude_sonnet, claude_opus}"
    if "dget model COST_PER_1M_TOKENS = Some p" for p
    using dget_SomeD [OF that] by (intro known) force
  show ?thesis
    unfolding resolve_prices_def Let_def
    using table known [OF first_family_mem [of "py_lower model"]]
    by (auto split: option.split)
qed

lemma round8_exact: "x * 100000000 = of_int k \<Longrightarrow> round8 x = x"
  by (simp add: round8_def field_simps)

lemma calculate_cost_exact:
  "calculate_cost model i out =
    (of_int i * fst (resolve_prices model) + of_int out * snd (resolve_prices model)) / 1000000"
proof -
  obtain a b :: int where "resolve_prices model = (of_int a / 100, of_int b / 100)"
  proof -
    have "resolve_prices model = (of_int 250 / 100, of_int 1000 / 100) \<or>
        resolve_prices model = (of_int 15 / 100, of_int 60 / 100) \<or>
        resolve_prices model = (of_int 300 / 100, of_int 1500 / 100) \<or>
        resolve_prices model = (of_int 1500 / 100, of_int 7500 / 100)"
      using resolve_prices_cases [of model] by (auto simp: price_defs)
    with that show ?thesis by blast
  qed
  then have "(of_int i * fst (resolve_prices model) + of_int out * snd (resolve_prices model)) / 1000000
      * 100000000 = of_int (i * a + out * b)"
    by (simp add: field_simps)
  from round8_exact [OF this] show ?thesis by (simp add: calculate_cost_def Let_def)
qed

section \<open>Properties\<close>

text \<open>
  The cost of a call is exactly the input and output tokens at the model's prices per
  million, it is never negative, and no model, known or not, costs more than Claude Opus,
  the price an unknown model is charged at.
\<close>

theorem calculate_cost_bounds:
  assumes "0 \<le> i" "0 \<le> out"
  shows "calculate_cost model i out =
      (of_int i * fst (resolve_prices model) + of_int out * snd (resolve_prices model)) / 1000000 \<and>
    0 \<le> calculate_cost model i out \<and>
    calculate_cost model i out \<le> calculate_cost ''claude-opus'' i out"
proof -
  have opus: "resolve_prices ''claude-opus'' = claude_opus" by (simp add: resolve_prices_def table_prices dget_def)
  have p: "0 \<le> fst (resolve_prices model)" "0 \<le> snd (resolve_prices model)"
    "fst (resolve_prices model) \<le> 15" "snd (resolve_prices model) \<le> 75"
    using resolve_prices_cases [of model] by (auto simp: price_defs)
  have "of_int i * fst (resolve_prices model) \<le> of_int i * 15"
    "of_int out * snd (resolve_prices model) \<le> of_int out * 75"
    using p assms by (simp_all add: mult_left_mono)
  then have "calculate_cost model i out \<le> calculate_cost ''claude-opus'' i out"
    by (simp add: calculate_cost_exact opus claude_opus_def divide_right_mono)
  moreover have "0 \<le> calculate_cost model i out"
    using p assms by (simp add: calculate_cost_exact)
  ultimately show ?thesis by (simp add: calculate_cost_exact)
qed

theorem calculate_cost_bounds_witness:
  "calculate_cost ''gpt-4o'' 1000 200 \<le> calculate_cost ''claude-opus'' 1000 200"
  using calculate_cost_bounds [of 1000 200 "''gpt-4o''"] by simp

text \<open>
  A dated name of the mini model, such as \<open>gpt-4o-mini-2024-07-18\<close>, is charged at the
  prices of \<open>gpt-4o\<close>: the prefix loop meets \<open>gpt-4o\<close> first, and the later test for
  \<open>gpt-4o-mini\<close> is never reached by such a name.
\<close>

theorem dated_mini_charged_as_gpt_4o:
  assumes "starts_with ''gpt-4o-mini'' (py_lower model)" "model \<noteq> ''gpt-4o-mini''"
  shows "resolve_prices model = gpt_4o"
proof -
  from assms(1) obtain r where r: "py_lower model = ''gpt-4o-mini'' @ r"
    by (auto simp: starts_with_def prefix_def)
  have "length model \<ge> 11" using arg_cong [OF r, of length] by (simp add: py_lower_def)
  then have "model \<noteq> ''gpt-4o''" by auto
  moreover have "first_family (py_lower model) COST_PER_1M_TOKENS = Some gpt_4o"
    by (simp add: table_prices starts_with_def r)
  moreover have "py_lower ''claude-sonnet'' = ''claude-sonnet''" "py_lower ''claude-opus'' = ''claude-opus''"
    by code_simp+
  with r have "model \<noteq> ''claude-sonnet''" "model \<noteq> ''claude-opus''" by auto
  ultimately show ?thesis
    using assms(2) by (auto simp: resolve_prices_def Let_def table_prices dget_def)
qed

theorem dated_mini_charged_as_gpt_4o_witness:
  "resolve_prices ''gpt-4o-mini-2024-07-18'' = gpt_4o"
proof -
  have "starts_with ''gpt-4o-mini'' (py_lower ''gpt-4o-mini-2024-07-18'')" by code_simp
  then show ?thesis by (rule dated_mini_charged_as_gpt_4o) simp
qed

end
