(* ===== verification/Agent.thy ===== *)
theory Agent
  imports Cost
begin

text \<open>
  The agent runtime, \<open>app/engine/agents/base.py\<close>: the message list of an agent, its tools,
  the provider call and its retries. The clients of OpenAI and Anthropic are parameters, one
  answer per attempt; \<open>asyncio.wait_for\<close> turns a call over the limit into \<open>ApiTimeout\<close>.
  The tool runtime behind \<open>execute_tool\<close> (network, databases, files) is a parameter too.
\<close>

section \<open>Workflow state and messages\<close>

record message =
  msg_role :: string
  msg_content :: json

text \<open>\<open>AgentState\<close>; its \<open>metadata\<close> is written once and read by no step.\<close>

record agent_state =
  st_messages :: "message list"
  st_current_agent :: string
  st_results :: "(string, json) dict"

definition say :: "string \<Rightarrow> string \<Rightarrow> message" where
  "say role text = \<lparr>msg_role = role, msg_content = JStr text\<rparr>"

definition nl :: string where
  "nl = [CHR 0x0A]"

definition build_messages :: "agent_config \<Rightarrow> agent_state \<Rightarrow> message list" where
  "build_messages cfg st =
    (let context_parts = map (\<lambda>p. ''['' @ fst p @ '']: '' @ py_str (snd p))
           (filter (\<lambda>p. fst p \<noteq> ac_name cfg) (st_results st)) in
     say ''system'' (ac_system_prompt cfg) # st_messages st
       @ (if context_parts = [] then []
          else [say ''user'' (''Previous agent results:'' @ nl @ join nl context_parts)]))"

section \<open>Tools\<close>

record tool_result =
  tr_tool_name :: json
  tr_success :: bool
  tr_output :: string

text \<open>The tool's input: the content of the last message.\<close>

definition tool_input :: "agent_state \<Rightarrow> json" where
  "tool_input st = (if st_messages st = [] then JStr [] else msg_content (last (st_messages st)))"

definition run_tool_ref ::
  "(string \<Rightarrow> json \<Rightarrow> json \<Rightarrow> bool \<times> string) \<Rightarrow> agent_state \<Rightarrow> db \<Rightarrow> uuid
    \<Rightarrow> (string, json) dict \<Rightarrow> tool_result list" where
  "run_tool_ref execute_tool st s tenant_id ref =
    (let tool_id = py_or (jget ''id'' ref) (jget ''tool_id'' ref);
         tool_name = jget_or ''name'' (JStr ''unknown'') ref in
     if \<not> truthy tool_id then []
     else case parse_uuid (py_str tool_id) of
       None \<Rightarrow> [\<lparr>tr_tool_name = tool_name, tr_success = False,
                  tr_output = ''Invalid tool ID: '' @ py_str tool_id\<rparr>]
     | Some tid \<Rightarrow>
        (case row_find (\<lambda>t. tl_id t = tid \<and> tl_tenant_id t = tenant_id \<and> tl_is_active t) (tools s) of
          None \<Rightarrow> [\<lparr>tr_tool_name = tool_name, tr_success = False,
                     tr_output = ''Tool '' @ py_str tool_name @ '' not found, skipping''\<rparr>]
        | Some t \<Rightarrow>
           (let r = execute_tool (tl_tool_type t) (tl_config t) (tool_input st) in
            [\<lparr>tr_tool_name = JStr (tl_name t), tr_success = fst r, tr_output = snd r\<rparr>])))"

text \<open>A tool reference that is not an object raises out of the loop.\<close>

fun execute_agent_tools ::
  "(string \<Rightarrow> json \<Rightarrow> json \<Rightarrow> bool \<times> string) \<Rightarrow> agent_state \<Rightarrow> db \<Rightarrow> uuid
    \<Rightarrow> json list \<Rightarrow> string + tool_result list" where
  "execute_agent_tools execute_tool st s tenant_id [] = Inr []"
| "execute_agent_tools execute_tool st s tenant_id (JObj ref # refs) =
    (case execute_agent_tools execute_tool st s tenant_id refs of
      Inl e \<Rightarrow> Inl e
    | Inr rs \<Rightarrow> Inr (run_tool_ref execute_tool st s tenant_id ref @ rs))"
| "execute_agent_tools execute_tool st s tenant_id (v # refs) = Inl (no_attribute_get v)"

definition tool_context :: "tool_result list \<Rightarrow> string" where
  "tool_context rs = nl @ nl @ ''--- Tool Results ---'' @ nl @
    concat (map (\<lambda>r. ''['' @ py_str (tr_tool_name r) @ '']: '' @ tr_output r @ nl) rs)"

section \<open>Provider calls\<close>

datatype 'a api = ApiOk 'a | ApiRateLimited string | ApiRaised string | ApiTimeout

record openai_response =
  oa_choices :: "string option list"
  oa_usage :: "(int \<times> int) option"

record anthropic_response =
  an_blocks :: "string option list"
  an_usage :: "int \<times> int"

record llm_env =
  openai_api_key :: string
  anthropic_api_key :: string
  openai_create :: "nat \<Rightarrow> string \<Rightarrow> message list \<Rightarrow> int \<Rightarrow> rat \<Rightarrow> openai_response api"
  anthropic_create :: "nat \<Rightarrow> string \<Rightarrow> json \<Rightarrow> message list \<Rightarrow> int \<Rightarrow> rat \<Rightarrow> anthropic_response api"

record llm_reply =
  lr_content :: string
  lr_input_tokens :: int
  lr_output_tokens :: int
  lr_reasoning :: "string option"

definition call_openai ::
  "llm_env \<Rightarrow> nat \<Rightarrow> string \<Rightarrow> message list \<Rightarrow> int \<Rightarrow> rat \<Rightarrow> llm_reply api" where
  "call_openai env attempt model messages max_tokens temperature =
    (if openai_api_key env = [] then ApiRaised ''OPENAI_API_KEY not configured''
     else case openai_create env attempt model messages max_tokens temperature of
       ApiOk r \<Rightarrow>
         (case oa_choices r of
           [] \<Rightarrow> ApiRaised ''list index out of range''
         | choice # _ \<Rightarrow>
             ApiOk \<lparr>lr_content = (case choice of None \<Rightarrow> [] | Some c \<Rightarrow> c),
                    lr_input_tokens = (case oa_usage r of None \<Rightarrow> 0 | Some u \<Rightarrow> fst u),
                    lr_output_tokens = (case oa_usage r of None \<Rightarrow> 0 | Some u \<Rightarrow> snd u),
                    lr_reasoning = None\<rparr>)
     | ApiRateLimited e \<Rightarrow> ApiRateLimited e
     | ApiRaised e \<Rightarrow> ApiRaised e
     | ApiTimeout \<Rightarrow> ApiTimeout)"

definition anthropic_model :: "string \<Rightarrow> string" where
  "anthropic_model model =
    (if model = ''claude-sonnet'' then ''claude-sonnet-4-20250514''
     else if model = ''claude-opus'' then ''claude-opus-4-20250514''
     else model)"

definition system_prompt_of :: "message list \<Rightarrow> json" where
  "system_prompt_of messages =
    foldl (\<lambda>p m. if msg_role m = ''system'' then msg_content m else p) (JStr []) messages"

definition chat_messages :: "message list \<Rightarrow> message list" where
  "chat_messages messages =
    (let chat = filter (\<lambda>m. msg_role m \<noteq> ''system'') messages
     in if chat = [] then [say ''user'' ''Please proceed.''] else chat)"

definition call_anthropic ::
  "llm_env \<Rightarrow> nat \<Rightarrow> string \<Rightarrow> message list \<Rightarrow> int \<Rightarrow> rat \<Rightarrow> llm_reply api" where
  "call_anthropic env attempt model messages max_tokens temperature =
    (if anthropic_api_key env = [] then ApiRaised ''ANTHROPIC_API_KEY not configured''
     else case anthropic_create env attempt (anthropic_model model) (system_prompt_of messages)
         (chat_messages messages) max_tokens temperature of
       ApiOk r \<Rightarrow>
         ApiOk \<lparr>lr_content = concat (map (\<lambda>b. case b of None \<Rightarrow> [] | Some t \<Rightarrow> t) (an_blocks r)),
                lr_input_tokens = fst (an_usage r),
                lr_output_tokens = snd (an_usage r),
                lr_reasoning = None\<rparr>
     | ApiRateLimited e \<Rightarrow> ApiRateLimited e
     | ApiRaised e \<Rightarrow> ApiRaised e
     | ApiTimeout \<Rightarrow> ApiTimeout)"

definition call_llm ::
  "llm_env \<Rightarrow> nat \<Rightarrow> string \<Rightarrow> message list \<Rightarrow> int \<Rightarrow> rat \<Rightarrow> llm_reply api" where
  "call_llm env attempt model messages max_tokens temperature =
    (if starts_with ''gpt-'' model then call_openai env attempt model messages max_tokens temperature
     else if starts_with ''claude-'' model
     then call_anthropic env attempt model messages max_tokens temperature
     else ApiRaised (''Unsupported model: '' @ model))"

section \<open>Retries\<close>

definition MAX_RETRIES :: nat where
  "MAX_RETRIES = 3"

definition retry_delay :: "nat \<Rightarrow> nat" where
  "retry_delay attempt = 1 * 2 ^ attempt"

text \<open>
  The loop over \<open>range(MAX_RETRIES)\<close>; beside the result, the delays it slept for. The call
  of an attempt is a function of its number.
\<close>

fun llm_attempts :: "(nat \<Rightarrow> llm_reply api) \<Rightarrow> nat list \<Rightarrow> (string + llm_reply) \<times> nat list" where
  "llm_attempts call [] = (Inl ''LLM call failed'', [])"
| "llm_attempts call (attempt # rest) =
    (case call attempt of
      ApiOk r \<Rightarrow> (Inr r, [])
    | ApiTimeout \<Rightarrow> (Inl ''LLM call timed out after 30s'', [])
    | ApiRaised e \<Rightarrow> (Inl e, [])
    | ApiRateLimited e \<Rightarrow>
        (if attempt < MAX_RETRIES - 1
         then (case llm_attempts call rest of (r, sleeps) \<Rightarrow> (r, retry_delay attempt # sleeps))
         else (Inl (''LLM rate limited after 3 retries: '' @ e), [])))"

definition call_llm_with_retry :: "(nat \<Rightarrow> llm_reply api) \<Rightarrow> (string + llm_reply) \<times> nat list" where
  "call_llm_with_retry call = llm_attempts call [0..<MAX_RETRIES]"

section \<open>One agent step\<close>

record agent_result =
  ar_output :: string
  ar_input_tokens :: int
  ar_output_tokens :: int
  ar_cost :: rat
  ar_duration_ms :: nat
  ar_reasoning :: "string option"
  ar_action :: string

text \<open>What one agent step sees of the outside: the providers, the tools and the clock.\<close>

record step_env =
  se_llm :: llm_env
  se_execute_tool :: "string \<Rightarrow> json \<Rightarrow> json \<Rightarrow> bool \<times> string"
  se_elapsed_ms :: nat

text \<open>\<open>Inl\<close> is an exception that leaves \<open>execute_agent\<close>.\<close>

definition execute_agent ::
  "step_env \<Rightarrow> agent_config \<Rightarrow> agent_state \<Rightarrow> db \<Rightarrow> uuid \<Rightarrow> string + agent_result" where
  "execute_agent env cfg st s tenant_id =
    (case execute_agent_tools (se_execute_tool env) st s tenant_id (ac_tools cfg) of
      Inl e \<Rightarrow> Inl e
    | Inr tool_results \<Rightarrow>
       (let messages = build_messages cfg st @
              (if tool_results = [] then [] else [say ''user'' (tool_context tool_results)]) in
        case fst (call_llm_with_retry (\<lambda>attempt.
               call_llm (se_llm env) attempt (ac_model cfg) messages (ac_max_tokens cfg) (ac_temperature cfg))) of
          Inl e \<Rightarrow>
            Inr \<lparr>ar_output = e, ar_input_tokens = 0, ar_output_tokens = 0, ar_cost = 0,
                 ar_duration_ms = se_elapsed_ms env, ar_reasoning = None, ar_action = ''error''\<rparr>
        | Inr r \<Rightarrow>
            Inr \<lparr>ar_output = lr_content r, ar_input_tokens = lr_input_tokens r,
                 ar_output_tokens = lr_output_tokens r,
                 ar_cost = calculate_cost (ac_model cfg) (lr_input_tokens r) (lr_output_tokens r),
                 ar_duration_ms = se_elapsed_ms env, ar_reasoning = lr_reasoning r,
                 ar_action = ''llm_call''\<rparr>))"

section \<open>Lemmas\<close>

fun rate_limited :: "'a api \<Rightarrow> bool" where
  "rate_limited (ApiRateLimited _) = True"
| "rate_limited _ = False"

lemma call_llm_reasoning: "call_llm env a model ms mt temp = ApiOk r \<Longrightarrow> lr_reasoning r = None"
  by (auto simp: call_llm_def call_openai_def call_anthropic_def
      split: if_splits api.splits list.splits)

lemma llm_attempts_Inr: "fst (llm_attempts call as) = Inr r \<Longrightarrow> \<exists>a \<in> set as. call a = ApiOk r"
proof (induction as)
  case (Cons a as)
  then show ?case
    by (cases "call a") (auto split: if_splits prod.splits)
qed simp

lemma execute_agent_tools_Inr_iff:
  "(\<exists>rs. execute_agent_tools f st s t refs = Inr rs) \<longleftrightarrow> (\<forall>v \<in> set refs. is_obj v)"
proof (induction refs)
  case (Cons v refs)
  then show ?case by (cases v) (auto split: sum.splits)
qed simp

text \<open>The shape of every answer of \<open>execute_agent\<close>.\<close>

lemma execute_agent_shape:
  assumes "execute_agent env cfg st s t = Inr r"
  shows "ar_reasoning r = None \<and>
    (ar_action r = ''llm_call'' \<and>
       ar_cost r = calculate_cost (ac_model cfg) (ar_input_tokens r) (ar_output_tokens r) \<or>
     ar_action r = ''error'' \<and> ar_input_tokens r = 0 \<and> ar_output_tokens r = 0 \<and> ar_cost r = 0)"
proof -
  from assms obtain rs where rs: "execute_agent_tools (se_execute_tool env) st s t (ac_tools cfg) = Inr rs"
    by (auto simp: execute_agent_def split: sum.splits)
  let ?call = "\<lambda>attempt. call_llm (se_llm env) attempt (ac_model cfg) (build_messages cfg st @
      (if rs = [] then [] else [say ''user'' (tool_context rs)])) (ac_max_tokens cfg) (ac_temperature cfg)"
  show ?thesis
  proof (cases "fst (call_llm_with_retry ?call)")
    case (Inl e)
    with assms rs show ?thesis by (auto simp: execute_agent_def Let_def)
  next
    case (Inr reply)
    then obtain a where "?call a = ApiOk reply"
      unfolding call_llm_with_retry_def by (blast dest: llm_attempts_Inr)
    then have "lr_reasoning reply = None" by (rule call_llm_reasoning)
    with assms rs Inr show ?thesis by (auto simp: execute_agent_def Let_def)
  qed
qed

lemma execute_agent_Inl_iff:
  "(\<exists>e. execute_agent env cfg st s t = Inl e) \<longleftrightarrow> (\<exists>v \<in> set (ac_tools cfg). \<not> is_obj v)"
proof -
  have "(\<exists>e. execute_agent env cfg st s t = Inl e) \<longleftrightarrow>
      \<not> (\<exists>rs. execute_agent_tools (se_execute_tool env) st s t (ac_tools cfg) = Inr rs)"
    by (auto simp: execute_agent_def Let_def split: sum.splits)
  then show ?thesis by (simp add: execute_agent_tools_Inr_iff)
qed

section \<open>Properties\<close>

text \<open>
  \<open>_call_llm_with_retry\<close> answers with the first call that is not rate limited, after
  sleeping 1 and then 2 seconds; there are at most three calls and two sleeps, and when all
  three are rate limited the error of the third is reported.
\<close>

theorem call_llm_with_retry_correct:
  "call_llm_with_retry call =
    (let k = length (takeWhile (\<lambda>a. rate_limited (call a)) [0, 1, 2]) in
     ((case call (min k 2) of
        ApiOk r \<Rightarrow> Inr r
      | ApiTimeout \<Rightarrow> Inl ''LLM call timed out after 30s''
      | ApiRaised e \<Rightarrow> Inl e
      | ApiRateLimited e \<Rightarrow> Inl (''LLM rate limited after 3 retries: '' @ e)),
      take (min k 2) [1, 2]))"
proof -
  have range: "[0..<MAX_RETRIES] = [0, 1, 2]" by (simp add: MAX_RETRIES_def upt_rec)
  show ?thesis
    unfolding call_llm_with_retry_def range
    by (cases "call 0"; cases "call 1"; cases "call 2")
      (simp_all add: MAX_RETRIES_def retry_delay_def Let_def numeral_2_eq_2)
qed

text \<open>
  A tool that is not the tenant's own, active tool never runs: its reference yields an
  error entry whatever the tool runtime would have answered.
\<close>

theorem foreign_tools_never_run:
  assumes "\<forall>t \<in> set (tools s). tl_is_active t \<longrightarrow> tl_tenant_id t \<noteq> tenant_id"
    and "\<forall>v \<in> set refs. is_obj v"
  shows "\<exists>rs. (\<forall>f. execute_agent_tools f st s tenant_id refs = Inr rs) \<and> (\<forall>r \<in> set rs. \<not> tr_success r)"
  using assms(2)
proof (induction refs)
  case (Cons v refs)
  then obtain ref where v: "v = JObj ref" by (cases v) auto
  have "row_find (\<lambda>t. tl_id t = tid \<and> tl_tenant_id t = tenant_id \<and> tl_is_active t) (tools s) = None" for tid
    using assms(1) by (auto simp: row_find_None_iff)
  then have "run_tool_ref f st s tenant_id ref = run_tool_ref (\<lambda>_ _ _. (False, [])) st s tenant_id ref"
    and "\<forall>r \<in> set (run_tool_ref f st s tenant_id ref). \<not> tr_success r" for f
    by (simp_all add: run_tool_ref_def Let_def split: option.split)
  moreover from Cons obtain rs where
    "\<forall>f. execute_agent_tools f st s tenant_id refs = Inr rs" "\<forall>r \<in> set rs. \<not> tr_success r"
    by auto
  ultimately show ?case unfolding v
    by (intro exI [of _ "run_tool_ref (\<lambda>_ _ _. (False, [])) st s tenant_id ref @ rs"]) auto
qed simp

theorem foreign_tools_never_run_witness:
  "\<exists>rs. execute_agent_tools (\<lambda>_ _ _. (True, ''ran'')) \<lparr>st_messages = [], st_current_agent = [], st_results = []\<rparr>
      empty_db ''t1'' [JObj [(''id'', JStr ''00000000-0000-0000-0000-000000000001'')]] = Inr rs
    \<and> list_all (\<lambda>r. \<not> tr_success r) rs"
proof -
  have "\<forall>t \<in> set (tools empty_db). tl_is_active t \<longrightarrow> tl_tenant_id t \<noteq> ''t1''"
    "\<forall>v \<in> set [JObj [(''id'', JStr ''00000000-0000-0000-0000-000000000001'')]]. is_obj v"
    by (simp_all add: empty_db_def)
  from foreign_tools_never_run [OF this, of "\<lparr>st_messages = [], st_current_agent = [], st_results = []\<rparr>"]
  show ?thesis unfolding list_all_iff by blast
qed

end
