(* ===== verification/Executor.thy ===== *)
theory Executor
  imports TopoSort Agent
begin

text \<open>
  The workflow executor, \<open>app/engine/executor.py\<close>: the entry queue and the routing between
  nodes, one turn of the execution loop, and a whole run of \<open>run_execution\<close>. What a run
  meets outside the database is its \<open>run_env\<close>: LangGraph, the agents' providers and tools,
  the connector runtime, the cancellation flag as each turn reads it, and the clock. The
  events a run broadcasts are the list it returns; logging and the cache invalidation of
  the analytics service have no part in what the run computes.
\<close>

section \<open>Queue and routing\<close>

definition named_ids :: "graph_def \<Rightarrow> string list" where
  "named_ids d = concat (map (\<lambda>n. case nd_id n of None \<Rightarrow> [] | Some i \<Rightarrow> if i = [] then [] else [i]) (df_nodes d))"

definition build_entry_node_queue :: "graph_def \<Rightarrow> string list" where
  "build_entry_node_queue d =
    (let ids = named_ids d;
         targets = ed_target ` set (df_edges d);
         entry = filter (\<lambda>i. Some i \<notin> targets) ids in
     if ids = [] then [] else if entry \<noteq> [] then [hd entry] else [hd ids])"

definition build_edge_adjacency :: "graph_def \<Rightarrow> (string, edge list) dict" where
  "build_edge_adjacency d =
    foldl (\<lambda>adj e. case ed_source e of
        None \<Rightarrow> adj
      | Some src \<Rightarrow> if src = [] then adj else group_append src e adj) [] (df_edges d)"

definition node_by_id :: "graph_def \<Rightarrow> (string, node) dict" where
  "node_by_id d = dupdate [] (concat (map (\<lambda>n. case nd_id n of
      None \<Rightarrow> [] | Some i \<Rightarrow> if i = [] then [] else [(i, n)]) (df_nodes d)))"

definition condition_text :: "edge \<Rightarrow> string" where
  "condition_text e = py_lower (py_strip (py_str (jget_or ''condition'' (JStr []) (ed_data e))))"

text \<open>
  The loop over the outgoing edges: \<open>Inl\<close> the target returned out of the loop, \<open>Inr\<close> the
  last default target seen.
\<close>

fun match_edges ::
  "string \<Rightarrow> string \<Rightarrow> string option \<Rightarrow> edge list \<Rightarrow> string option + string option" where
  "match_edges action reasoning dflt [] = Inr dflt"
| "match_edges action reasoning dflt (e # es) =
    (let c = condition_text e in
     if c = [] then match_edges action reasoning dflt es
     else if c = ''default'' then match_edges action reasoning (ed_target e) es
     else if c = action then Inl (ed_target e)
     else if reasoning \<noteq> [] \<and> occurs_in c reasoning then Inl (ed_target e)
     else match_edges action reasoning dflt es)"

definition resolve_next_node ::
  "string \<Rightarrow> (string, edge list) dict \<Rightarrow> string \<Rightarrow> string option \<Rightarrow> string option" where
  "resolve_next_node current adj action reasoning =
    (case dget current adj of
      None \<Rightarrow> None
    | Some [] \<Rightarrow> None
    | Some [e] \<Rightarrow> ed_target e
    | Some (e # es) \<Rightarrow>
       (case match_edges (py_lower (py_strip action))
              (py_lower (py_strip (case reasoning of None \<Rightarrow> [] | Some r \<Rightarrow> r))) None (e # es) of
          Inl t \<Rightarrow> t
        | Inr dflt \<Rightarrow> (if dflt \<noteq> None \<and> dflt \<noteq> Some [] then dflt else ed_target e)))"

section \<open>Events\<close>

text \<open>
  The messages \<open>_broadcast_ws\<close> puts on the queues of the execution's subscribers: type and
  data. An error that stops a run over the budget carries the flag \<open>fatal\<close>.
\<close>

datatype ws_event =
  StepStart string nat
| StepComplete string nat int rat nat
| ErrorEvent string string nat bool
| ExecutionComplete exec_status int rat json

section \<open>Writing the execution row\<close>

definition update_execution :: "uuid \<Rightarrow> (execution \<Rightarrow> execution) \<Rightarrow> db \<Rightarrow> db" where
  "update_execution eid f s = s\<lparr>executions := row_update (\<lambda>e. ex_id e = eid) f (executions s)\<rparr>"

definition fail_execution :: "instant \<Rightarrow> uuid \<Rightarrow> string \<Rightarrow> db \<Rightarrow> db" where
  "fail_execution now eid msg =
    update_execution eid (\<lambda>e. e\<lparr>ex_status := ExFailed, ex_error_message := Some msg, ex_completed_at := Some now\<rparr>)"

definition cancel_running :: "instant \<Rightarrow> uuid \<Rightarrow> string \<Rightarrow> db \<Rightarrow> db" where
  "cancel_running now eid msg =
    update_execution eid (\<lambda>e. e\<lparr>ex_status := ExCancelled, ex_error_message := Some msg, ex_completed_at := Some now\<rparr>)"

definition find_execution :: "uuid \<Rightarrow> db \<Rightarrow> execution option" where
  "find_execution eid s = row_find (\<lambda>e. ex_id e = eid) (executions s)"

text \<open>The final event, with the totals and the output the row has now.\<close>

definition complete_event :: "uuid \<Rightarrow> exec_status \<Rightarrow> db \<Rightarrow> ws_event" where
  "complete_event eid st s =
    (case find_execution eid s of
      Some e \<Rightarrow> ExecutionComplete st (ex_total_tokens e) (ex_total_cost e) (ex_output_data e)
    | None \<Rightarrow> ExecutionComplete st 0 0 (JObj []))"

section \<open>The run and its environment\<close>

record connector_result =
  cn_connector_key :: string
  cn_action_key :: string
  cn_input_data :: json
  cn_output_data :: json
  cn_duration_ms :: nat
  cn_retryable :: bool

record connector_error =
  ce_detector_code :: string
  ce_retryable :: bool
  ce_input_data :: json
  ce_output_data :: json
  ce_sanitized_error :: string

text \<open>\<open>execute_connector_node\<close>: it returns, raises \<open>ConnectorRuntimeError\<close>, or another exception.\<close>

datatype connector_outcome =
  ConnectorOk connector_result
| ConnectorFailed connector_error
| ConnectorRaised string

record run_env =
  re_langgraph :: "state_graph \<Rightarrow> string option"
  re_step :: "nat \<Rightarrow> step_env"
  re_connector :: "nat \<Rightarrow> db \<Rightarrow> uuid \<Rightarrow> node \<Rightarrow> connector_outcome"
  re_cancelled :: "nat \<Rightarrow> bool"
  re_started :: instant
  re_ended :: instant

text \<open>What a run fixes before its loop.\<close>

record run_cfg =
  rc_execution_id :: uuid
  rc_workflow_id :: uuid
  rc_tenant_id :: uuid
  rc_cyclic :: bool
  rc_nodes :: "(string, node) dict"
  rc_adjacency :: "(string, edge list) dict"
  rc_configs :: "(string, agent_config) dict"

record loop_state =
  ls_queue :: "nid list"
  ls_step_number :: nat
  ls_iteration :: nat
  ls_agent :: agent_state
  ls_db :: db
  ls_events :: "ws_event list"

text \<open>
  An exception that leaves the run: one with its message, or the one the code runs into after
  \<open>db.rollback()\<close>. A rollback expires every object of the session; reading an attribute of an
  expired object loads it, which an asynchronous session refuses with \<open>MissingGreenlet\<close>.
\<close>

datatype crash = Raised string | AfterRollback

definition MISSING_GREENLET :: string where
  "MISSING_GREENLET = ''greenlet_spawn has not been called; can'' @ [CHR 0x27] @
    ''t call await_only() here. Was IO attempted in an unexpected place? '' @
    ''(Background on this error at: https://sqlalche.me/e/20/xd2s)''"

fun crash_text :: "crash \<Rightarrow> string" where
  "crash_text (Raised msg) = msg"
| "crash_text AfterRollback = MISSING_GREENLET"

text \<open>A turn goes on, returns from the run, or lets an exception out of it.\<close>

datatype outcome =
  Next loop_state
| Done db "ws_event list"
| Crash crash db "ws_event list"

definition MAX_ITERATIONS :: nat where
  "MAX_ITERATIONS = 10"

definition nid_text :: "nid \<Rightarrow> string" where
  "nid_text i = (case i of None \<Rightarrow> [] | Some x \<Rightarrow> x)"

definition lookup_nid :: "nid \<Rightarrow> (string, 'v) dict \<Rightarrow> 'v option" where
  "lookup_nid i d = (case i of None \<Rightarrow> None | Some x \<Rightarrow> dget x d)"

definition emit :: "ws_event list \<Rightarrow> loop_state \<Rightarrow> loop_state" where
  "emit evs ls = ls\<lparr>ls_events := ls_events ls @ evs\<rparr>"

text \<open>\<open>if next_node: queue.append(next_node)\<close>, in a cyclic workflow.\<close>

definition route :: "run_cfg \<Rightarrow> nid \<Rightarrow> string \<Rightarrow> string option \<Rightarrow> loop_state \<Rightarrow> loop_state" where
  "route cfg i action reasoning ls =
    (if rc_cyclic cfg then
      (case resolve_next_node (nid_text i) (rc_adjacency cfg) action reasoning of
        None \<Rightarrow> ls
      | Some t \<Rightarrow> if t = [] then ls else ls\<lparr>ls_queue := ls_queue ls @ [Some t]\<rparr>)
     else ls)"

section \<open>One turn of the loop\<close>

definition no_log :: execution_log where
  "no_log = \<lparr>lg_execution_id = [], lg_agent_config_id = None, lg_step_number = 0,
    lg_agent_name = [], lg_action = [], lg_input_data = JNull, lg_output_data = JNull,
    lg_tokens_used = 0, lg_cost = 0, lg_decision_reasoning = None, lg_duration_ms = None,
    lg_node_id = None, lg_node_type = [], lg_connector_key = None, lg_action_key = None,
    lg_attempt = 1, lg_retryable = False, lg_sanitized_error = None\<rparr>"

definition add_log :: "execution_log \<Rightarrow> db \<Rightarrow> db" where
  "add_log lg s = s\<lparr>execution_logs := execution_logs s @ [lg]\<rparr>"

text \<open>The node's label, and the two keys, as the loop reads them from the node's data.\<close>

definition connector_label :: "node \<Rightarrow> string \<times> string \<times> string" where
  "connector_label n =
    (let d = obj_or_empty (nd_data n);
         key = py_str (py_or (jget ''connector_key'' d) (JStr []));
         action = py_str (py_or (jget ''action_key'' d) (JStr [])) in
     (key, action, py_str (py_or (jget ''label'' d) (JStr (key @ ''.'' @ action)))))"

text \<open>A connector node: the call, its log, and either the failure of the run or the next node.\<close>

definition connector_turn :: "run_env \<Rightarrow> run_cfg \<Rightarrow> nid \<Rightarrow> node \<Rightarrow> loop_state \<Rightarrow> outcome" where
  "connector_turn env cfg i n ls0 =
    (case connector_label n of (key, action, label) \<Rightarrow>
     let step = ls_step_number ls0 + 1;
         eid = rc_execution_id cfg;
         ls = emit [StepStart label step]
           (ls0\<lparr>ls_step_number := step, ls_agent := (ls_agent ls0)\<lparr>st_current_agent := label\<rparr>\<rparr>) in
     case re_connector env (ls_iteration ls) (ls_db ls) (rc_tenant_id cfg) n of
       ConnectorRaised msg \<Rightarrow> Crash (Raised msg) (ls_db ls) (ls_events ls)
     | ConnectorFailed exc \<Rightarrow>
        (let lg = no_log\<lparr>lg_execution_id := eid, lg_step_number := step, lg_agent_name := label,
               lg_action := ''connector_error'', lg_input_data := ce_input_data exc,
               lg_output_data := ce_output_data exc,
               lg_decision_reasoning := Some (ce_detector_code exc), lg_node_id := i,
               lg_node_type := ''connector'', lg_connector_key := Some key,
               lg_action_key := Some action, lg_retryable := ce_retryable exc,
               lg_sanitized_error := Some (ce_sanitized_error exc)\<rparr>;
             s = fail_execution (re_ended env) eid (ce_sanitized_error exc) (add_log lg (ls_db ls)) in
         Done s (ls_events ls @ [ErrorEvent (ce_sanitized_error exc) label step False,
           complete_event eid ExFailed s]))
     | ConnectorOk r \<Rightarrow>
        (let lg = no_log\<lparr>lg_execution_id := eid, lg_step_number := step, lg_agent_name := label,
               lg_action := ''connector_call'', lg_input_data := cn_input_data r,
               lg_output_data := cn_output_data r, lg_duration_ms := Some (cn_duration_ms r),
               lg_node_id := i, lg_node_type := ''connector'',
               lg_connector_key := Some (cn_connector_key r), lg_action_key := Some (cn_action_key r),
               lg_retryable := cn_retryable r\<rparr>;
             st = ls_agent ls;
             st' = st\<lparr>st_results := dset label (cn_output_data r) (st_results st),
               st_messages := st_messages st @ [say ''assistant'' (json_dumps (cn_output_data r))]\<rparr> in
         Next (route cfg i ''connector_call'' (Some [])
           (emit [StepComplete label step 0 0 (cn_duration_ms r)]
             (ls\<lparr>ls_db := add_log lg (ls_db ls), ls_agent := st'\<rparr>)))))"

definition json_message :: "message \<Rightarrow> json" where
  "json_message m = JObj [(''role'', JStr (msg_role m)), (''content'', msg_content m)]"

text \<open>
  The conditional update of the tenant: the tokens of the step are charged only where the
  budget still covers them. \<open>None\<close> is a row count of zero, followed by the rollback.
\<close>

definition charge_tenant :: "uuid \<Rightarrow> int \<Rightarrow> db \<Rightarrow> db option" where
  "charge_tenant tid tokens s =
    (let covered = (\<lambda>t. tn_id t = tid \<and> tn_tokens_used_this_month t + tokens \<le> tn_monthly_token_budget t) in
     if row_count covered (tenants s) = 0 then None
     else Some (s\<lparr>tenants := row_update covered
       (\<lambda>t. t\<lparr>tn_tokens_used_this_month := tn_tokens_used_this_month t + tokens\<rparr>) (tenants s)\<rparr>))"

definition add_totals :: "uuid \<Rightarrow> int \<Rightarrow> rat \<Rightarrow> db \<Rightarrow> db" where
  "add_totals eid tokens cost = update_execution eid
    (\<lambda>e. e\<lparr>ex_total_tokens := ex_total_tokens e + tokens, ex_total_cost := ex_total_cost e + cost\<rparr>)"

definition agent_log :: "run_cfg \<Rightarrow> nid \<Rightarrow> agent_config \<Rightarrow> nat \<Rightarrow> agent_state \<Rightarrow> agent_result \<Rightarrow> execution_log" where
  "agent_log cfg i ac step st r =
    no_log\<lparr>lg_execution_id := rc_execution_id cfg, lg_agent_config_id := Some (ac_id ac),
      lg_step_number := step, lg_agent_name := ac_name ac, lg_action := ar_action r,
      lg_input_data := (if st_messages st = [] then JNull
        else JObj [(''messages'', JList [json_message (last (st_messages st))])]),
      lg_output_data := JObj [(''content'', JStr (ar_output r))],
      lg_tokens_used := ar_input_tokens r + ar_output_tokens r, lg_cost := ar_cost r,
      lg_decision_reasoning := ar_reasoning r, lg_duration_ms := Some (ar_duration_ms r),
      lg_node_id := i, lg_node_type := ''agent''\<rparr>"

text \<open>
  After the agent has answered: its error, or the charge, the log and the totals. When the charge
  fails the code rolls back and cancels the execution; the next thing it reads, for the event that
  should tell so, is the name of the agent, an expired object.
\<close>

definition agent_commit ::
  "run_env \<Rightarrow> run_cfg \<Rightarrow> nid \<Rightarrow> agent_config \<Rightarrow> agent_result \<Rightarrow> loop_state \<Rightarrow> outcome" where
  "agent_commit env cfg i ac r ls =
    (let eid = rc_execution_id cfg; step = ls_step_number ls; name = ac_name ac;
         tokens = ar_input_tokens r + ar_output_tokens r; st = ls_agent ls in
     if ar_action r = ''error'' then
      (let msg = (if ar_output r = [] then ''Agent execution failed'' else ar_output r);
           s = fail_execution (re_ended env) eid msg (ls_db ls) in
       Done s (ls_events ls @ [ErrorEvent msg name step False, complete_event eid ExFailed s]))
     else case charge_tenant (rc_tenant_id cfg) tokens (ls_db ls) of
       None \<Rightarrow>
        Crash AfterRollback
          (cancel_running (re_ended env) eid ''Monthly token budget would be exceeded by this step'' (ls_db ls))
          (ls_events ls)
     | Some charged \<Rightarrow>
        (let s = add_totals eid tokens (ar_cost r) (add_log (agent_log cfg i ac step st r) charged);
             st' = st\<lparr>st_results := dset name (JStr (ar_output r)) (st_results st),
               st_messages := st_messages st @ [say ''assistant'' (ar_output r)]\<rparr> in
         Next (route cfg i (ar_action r) (ar_reasoning r)
           (emit [StepComplete name step tokens (ar_cost r) (ar_duration_ms r)]
             (ls\<lparr>ls_db := s, ls_agent := st'\<rparr>)))))"

text \<open>The budget check before the call, over the agent's \<open>max_tokens\<close>.\<close>

definition over_budget :: "uuid \<Rightarrow> agent_config \<Rightarrow> db \<Rightarrow> bool" where
  "over_budget tid ac s =
    (case row_find (\<lambda>t. tn_id t = tid) (tenants s) of
      None \<Rightarrow> False
    | Some t \<Rightarrow> tn_tokens_used_this_month t + ac_max_tokens ac > tn_monthly_token_budget t)"

definition agent_turn :: "run_env \<Rightarrow> run_cfg \<Rightarrow> nid \<Rightarrow> agent_config \<Rightarrow> loop_state \<Rightarrow> outcome" where
  "agent_turn env cfg i ac ls0 =
    (let step = ls_step_number ls0 + 1; eid = rc_execution_id cfg; name = ac_name ac;
         ls = emit [StepStart name step]
           (ls0\<lparr>ls_step_number := step, ls_agent := (ls_agent ls0)\<lparr>st_current_agent := name\<rparr>\<rparr>) in
     if over_budget (rc_tenant_id cfg) ac (ls_db ls) then
      (let msg = ''Monthly token budget exceeded'';
           s = cancel_running (re_ended env) eid msg (ls_db ls) in
       Done s (ls_events ls @ [ErrorEvent msg name step False, complete_event eid ExCancelled s]))
     else case execute_agent (re_step env (ls_iteration ls)) ac (ls_agent ls) (ls_db ls) (rc_tenant_id cfg) of
       Inl msg \<Rightarrow> Crash (Raised msg) (ls_db ls) (ls_events ls)
     | Inr r \<Rightarrow> agent_commit env cfg i ac r ls)"

text \<open>One turn: pop, iteration limit, cancellation, then the node by its type.\<close>

definition loop_turn :: "run_env \<Rightarrow> run_cfg \<Rightarrow> loop_state \<Rightarrow> outcome" where
  "loop_turn env cfg ls0 =
    (let i = hd (ls_queue ls0); eid = rc_execution_id cfg;
         ls = ls0\<lparr>ls_queue := tl (ls_queue ls0), ls_iteration := ls_iteration ls0 + 1\<rparr> in
     if rc_cyclic cfg \<and> ls_iteration ls > MAX_ITERATIONS then
       Done (fail_execution (re_ended env) eid ''Max iterations exceeded'' (ls_db ls))
         (ls_events ls @ [ErrorEvent ''Max iterations exceeded'' (nid_text i) (ls_step_number ls) False,
           ExecutionComplete ExFailed 0 0 (JObj [])])
     else if re_cancelled env (ls_iteration ls) then
      (let s = cancel_running (re_ended env) eid ''Execution cancelled by user'' (ls_db ls) in
       Done s (ls_events ls @ [complete_event eid ExCancelled s]))
     else
       (case lookup_nid i (rc_nodes cfg) of
          Some n \<Rightarrow>
            if node_kind n = ''connector'' then connector_turn env cfg i n ls
            else (case lookup_nid i (rc_configs cfg) of None \<Rightarrow> Next ls | Some ac \<Rightarrow> agent_turn env cfg i ac ls)
        | None \<Rightarrow>
            (case lookup_nid i (rc_configs cfg) of None \<Rightarrow> Next ls | Some ac \<Rightarrow> agent_turn env cfg i ac ls)))"

section \<open>The loop\<close>

text \<open>The queue is empty: the execution is completed with the results of its nodes.\<close>

definition complete_run :: "run_env \<Rightarrow> run_cfg \<Rightarrow> loop_state \<Rightarrow> db \<times> ws_event list" where
  "complete_run env cfg ls =
    (let eid = rc_execution_id cfg; s = ls_db ls; out = JObj (st_results (ls_agent ls));
         s' = update_execution eid
           (\<lambda>e. e\<lparr>ex_status := ExCompleted, ex_output_data := out, ex_completed_at := Some (re_ended env)\<rparr>) s in
     (s', ls_events ls @
       [case find_execution eid s of
          Some e \<Rightarrow> ExecutionComplete ExCompleted (ex_total_tokens e) (ex_total_cost e) out
        | None \<Rightarrow> ExecutionComplete ExCompleted 0 0 out]))"

definition turns_left :: "run_cfg \<Rightarrow> loop_state \<Rightarrow> nat" where
  "turns_left cfg ls =
    (if rc_cyclic cfg then Suc MAX_ITERATIONS - ls_iteration ls else length (ls_queue ls))"

lemma route_fields [simp]:
  "ls_step_number (route cfg i a r ls) = ls_step_number ls"
  "ls_iteration (route cfg i a r ls) = ls_iteration ls"
  "ls_agent (route cfg i a r ls) = ls_agent ls"
  "ls_db (route cfg i a r ls) = ls_db ls"
  "ls_events (route cfg i a r ls) = ls_events ls"
  "\<not> rc_cyclic cfg \<Longrightarrow> route cfg i a r ls = ls"
  by (simp_all add: route_def split: option.split)

lemma emit_fields [simp]:
  "ls_queue (emit evs ls) = ls_queue ls"
  "ls_step_number (emit evs ls) = ls_step_number ls"
  "ls_iteration (emit evs ls) = ls_iteration ls"
  "ls_agent (emit evs ls) = ls_agent ls"
  "ls_db (emit evs ls) = ls_db ls"
  "ls_events (emit evs ls) = ls_events ls @ evs"
  by (simp_all add: emit_def)

lemmas turn_defs = loop_turn_def connector_turn_def agent_turn_def agent_commit_def

lemma loop_turn_Next:
  assumes "loop_turn env cfg ls = Next ls'"
  shows "ls_iteration ls' = ls_iteration ls + 1"
    and "rc_cyclic cfg \<Longrightarrow> ls_iteration ls' \<le> MAX_ITERATIONS"
    and "\<not> rc_cyclic cfg \<Longrightarrow> ls_queue ls' = tl (ls_queue ls)"
  using assms
  by (auto simp: turn_defs Let_def split: if_splits option.splits sum.splits prod.splits
      connector_outcome.splits)

function run_loop :: "run_env \<Rightarrow> run_cfg \<Rightarrow> loop_state \<Rightarrow> crash option \<times> db \<times> ws_event list" where
  "run_loop env cfg ls =
    (if ls_queue ls = [] then (None, complete_run env cfg ls)
     else case loop_turn env cfg ls of
       Next ls' \<Rightarrow> run_loop env cfg ls'
     | Done s evs \<Rightarrow> (None, s, evs)
     | Crash exc s evs \<Rightarrow> (Some exc, s, evs))"
  by pat_completeness auto

termination
proof (relation "measure (\<lambda>(env, cfg, ls). turns_left cfg ls)", goal_cases)
  case (2 env cfg ls ls')
  then show ?case
    using loop_turn_Next [of env cfg ls ls'] by (cases "ls_queue ls") (auto simp: turns_left_def MAX_ITERATIONS_def)
qed simp

declare run_loop.simps [simp del]

section \<open>A run\<close>

text \<open>The user's input as the first message.\<close>

definition input_messages :: "json \<Rightarrow> message list" where
  "input_messages input =
    (if truthy input then
      (let d = obj_or_empty input in
       [\<lparr>msg_role = ''user'', msg_content =
          py_or (py_or (jget_or ''text'' (JStr []) d) (jget_or ''message'' (JStr []) d)) (JStr (json_dumps input))\<rparr>])
     else [])"

definition initial_queue :: "workflow \<Rightarrow> nid list" where
  "initial_queue w =
    (if wf_execution_pattern w = ''cyclic'' then map Some (build_entry_node_queue (wf_definition w))
     else topological_sort (df_nodes (wf_definition w)) (df_edges (wf_definition w)))"

definition run_config :: "uuid \<Rightarrow> uuid \<Rightarrow> uuid \<Rightarrow> workflow \<Rightarrow> (string, agent_config) dict \<Rightarrow> run_cfg" where
  "run_config eid wid tid w cfgs =
    \<lparr>rc_execution_id = eid, rc_workflow_id = wid, rc_tenant_id = tid,
     rc_cyclic = (wf_execution_pattern w = ''cyclic''),
     rc_nodes = node_by_id (wf_definition w),
     rc_adjacency = build_edge_adjacency (wf_definition w),
     rc_configs = cfgs\<rparr>"

definition start_state :: "workflow \<Rightarrow> json \<Rightarrow> db \<Rightarrow> loop_state" where
  "start_state w input s =
    \<lparr>ls_queue = initial_queue w, ls_step_number = 0, ls_iteration = 0,
     ls_agent = \<lparr>st_messages = input_messages input, st_current_agent = [], st_results = []\<rparr>,
     ls_db = s, ls_events = []\<rparr>"

text \<open>
  The messages of \<open>CompilationError\<close>; a set is rendered in definition order, and the dash
  of the disconnection message is written as a hyphen (the source has a long dash).
\<close>

definition nid_repr :: "nid \<Rightarrow> string" where
  "nid_repr i = (case i of None \<Rightarrow> ''None'' | Some x \<Rightarrow> repr_string x)"

definition nid_str :: "nid \<Rightarrow> string" where
  "nid_str i = (case i of None \<Rightarrow> ''None'' | Some x \<Rightarrow> x)"

definition set_repr :: "nid list \<Rightarrow> string" where
  "set_repr xs = ''{'' @ join '', '' (map nid_repr xs) @ ''}''"

fun compilation_message :: "compilation_error \<Rightarrow> string" where
  "compilation_message NoNodes = ''Workflow has no nodes''"
| "compilation_message (TooManyNodes n) =
    ''Workflow has too many nodes ('' @ show_nat n @ ''); maximum is 200''"
| "compilation_message (TooManyEdges n) =
    ''Workflow has too many edges ('' @ show_nat n @ ''); maximum is 400''"
| "compilation_message (UnknownSource i) = ''Edge references unknown source node: '' @ nid_str i"
| "compilation_message (UnknownTarget i) = ''Edge references unknown target node: '' @ nid_str i"
| "compilation_message Disconnected = ''Multiple nodes but no edges - graph is disconnected''"
| "compilation_message (Orphans xs) = ''Orphan nodes not connected to any edge: '' @ set_repr xs"
| "compilation_message (ConfigsMissing xs) = ''Agent configs missing for nodes: '' @ set_repr xs
    @ ''. Configure agents for all nodes before running.''"

definition mark_running :: "instant \<Rightarrow> uuid \<Rightarrow> db \<Rightarrow> db option" where
  "mark_running now eid s =
    (let pending = (\<lambda>e. ex_id e = eid \<and> ex_status e = ExPending) in
     if row_count pending (executions s) = 0 then None
     else Some (s\<lparr>executions := row_update pending
       (\<lambda>e. e\<lparr>ex_status := ExRunning, ex_started_at := Some now\<rparr>) (executions s)\<rparr>))"

text \<open>The early failures: the row is failed and two events are sent, with zero totals.\<close>

definition refuse :: "run_env \<Rightarrow> uuid \<Rightarrow> string \<Rightarrow> string \<Rightarrow> db \<Rightarrow> crash option \<times> db \<times> ws_event list" where
  "refuse env eid row_msg event_msg s =
    (None, fail_execution (re_ended env) eid row_msg s,
     [ErrorEvent event_msg [] 0 False, ExecutionComplete ExFailed 0 0 (JObj [])])"

definition find_workflow :: "uuid \<Rightarrow> uuid \<Rightarrow> db \<Rightarrow> workflow option" where
  "find_workflow wid tid s =
    row_find (\<lambda>w. wf_id w = wid \<and> wf_tenant_id w = tid \<and> wf_is_active w) (workflows s)"

definition find_tenant :: "uuid \<Rightarrow> db \<Rightarrow> tenant option" where
  "find_tenant tid s = row_find (\<lambda>t. tn_id t = tid) (tenants s)"

text \<open>\<open>_run_execution_inner\<close>: the exception it raises if any, the database, the events.\<close>

definition run_execution_inner ::
  "run_env \<Rightarrow> uuid \<Rightarrow> uuid \<Rightarrow> uuid \<Rightarrow> json \<Rightarrow> db \<Rightarrow> crash option \<times> db \<times> ws_event list" where
  "run_execution_inner env eid wid tid input s =
    (case find_workflow wid tid s of
      None \<Rightarrow> (Some (Raised ''Workflow not found or inactive''), s, [])
    | Some w \<Rightarrow>
       if df_nodes (wf_definition w) = [] then (Some (Raised ''Workflow has no nodes defined''), s, [])
       else case find_tenant tid s of
         None \<Rightarrow> (Some (Raised ''Tenant not found''), s, [])
       | Some t \<Rightarrow>
          if tn_tokens_used_this_month t \<ge> tn_monthly_token_budget t then
            refuse env eid ''Monthly token budget exceeded'' ''Monthly token budget exceeded'' s
          else case compile_graph (re_langgraph env) (wf_definition w) wid tid s of
            Rejected err \<Rightarrow>
              refuse env eid (''Compilation error: '' @ compilation_message err) (compilation_message err) s
          | GraphError msg \<Rightarrow> (Some (Raised msg), s, [])
          | Compiled g cfgs \<Rightarrow>
             (case mark_running (re_started env) eid s of
               None \<Rightarrow> (None, s, [])
             | Some s1 \<Rightarrow> run_loop env (run_config eid wid tid w cfgs) (start_state w input s1)))"

text \<open>\<open>run_execution\<close>: an exception that leaves the run fails the execution.\<close>

definition run_execution ::
  "run_env \<Rightarrow> uuid \<Rightarrow> uuid \<Rightarrow> uuid \<Rightarrow> json \<Rightarrow> db \<Rightarrow> db \<times> ws_event list" where
  "run_execution env eid wid tid input s =
    (case run_execution_inner env eid wid tid input s of
      (None, s', evs) \<Rightarrow> (s', evs)
    | (Some exc, s', evs) \<Rightarrow>
       (let msg = crash_text exc; s'' = fail_execution (re_ended env) eid msg s' in
        (s'', evs @ [ErrorEvent msg [] 0 False, complete_event eid ExFailed s''])))"

text \<open>Whether the run has rolled the session back, which expires what its caller has loaded.\<close>

definition run_rolls_back :: "run_env \<Rightarrow> uuid \<Rightarrow> uuid \<Rightarrow> uuid \<Rightarrow> json \<Rightarrow> db \<Rightarrow> bool" where
  "run_rolls_back env eid wid tid input s \<longleftrightarrow>
    fst (run_execution_inner env eid wid tid input s) = Some AfterRollback"

end
