(* ===== verification/Samples.thy ===== *)
theory Samples
  imports Executor
begin

text \<open>
  A small concrete world for the witnesses: an environment whose providers answer, two
  tenants, workflows, agents and executions.
\<close>

section \<open>Sample world\<close>

definition sample_env :: run_env where
  "sample_env = \<lparr>re_langgraph = (\<lambda>_. None),
    re_step = (\<lambda>_. \<lparr>se_llm = \<lparr>openai_api_key = ''key'', anthropic_api_key = [],
        openai_create = (\<lambda>_ _ _ _ _. ApiOk \<lparr>oa_choices = [Some ''fine''], oa_usage = Some (10, 5)\<rparr>),
        anthropic_create = (\<lambda>_ _ _ _ _ _. ApiTimeout)\<rparr>,
      se_execute_tool = (\<lambda>_ _ _. (False, [])), se_elapsed_ms = 3\<rparr>),
    re_connector = (\<lambda>_ _ _ _. ConnectorRaised ''unreachable''),
    re_cancelled = (\<lambda>_. False), re_started = 1, re_ended = 2\<rparr>"

definition sample_tenant :: "string \<Rightarrow> int \<Rightarrow> int \<Rightarrow> tenant" where
  "sample_tenant i budget used = \<lparr>tn_id = i, tn_name = i, tn_slug = i, tn_plan = ''free'',
    tn_max_workflows = 2, tn_max_agents_per_workflow = 3, tn_monthly_token_budget = budget,
    tn_tokens_used_this_month = used, tn_dispatch_alert_policy = JObj [],
    tn_dispatch_automation_worker_config = JObj [], tn_created_at = 0\<rparr>"

definition sample_workflow :: "string \<Rightarrow> graph_def \<Rightarrow> string \<Rightarrow> workflow" where
  "sample_workflow i d pattern = \<lparr>wf_id = i, wf_tenant_id = ''t1'', wf_name = i, wf_description = [],
    wf_definition = d, wf_execution_pattern = pattern, wf_is_active = True,
    wf_dispatch_paused = False, wf_dispatch_paused_at = None, wf_dispatch_paused_by = None,
    wf_created_by = None, wf_created_at = 0\<rparr>"

definition sample_execution :: "string \<Rightarrow> string \<Rightarrow> exec_status \<Rightarrow> execution" where
  "sample_execution i w st = \<lparr>ex_id = i, ex_tenant_id = ''t1'', ex_workflow_id = w, ex_status = st,
    ex_input_data = JNull, ex_output_data = JNull, ex_total_tokens = 0, ex_total_cost = 0,
    ex_error_message = None, ex_started_at = None, ex_completed_at = None, ex_created_at = 0\<rparr>"

text \<open>Two tenants; the second has spent its budget. A linear workflow of four agents.\<close>

definition sample_db :: "exec_status \<Rightarrow> int \<Rightarrow> db" where
  "sample_db st used = empty_db\<lparr>
    tenants := [sample_tenant ''t1'' 1000 used, sample_tenant ''t2'' 50 50],
    workflows := [sample_workflow ''w1'' diamond ''linear''],
    agent_configs := map sample_agent [''start'', ''left'', ''right'', ''join''],
    executions := [sample_execution ''e0'' ''w1'' ExCompleted, sample_execution ''e1'' ''w1'' st]\<rparr>"

lemma sample_db_keys: "distinct (map tn_id (tenants (sample_db st used)))"
  by (simp add: sample_db_def sample_tenant_def)

end
