(* ===== verification/Auth.thy ===== *)
theory Auth
  imports Samples
begin

text \<open>
  Authentication and the administration of a tenant's users: \<open>app/core/security.py\<close>,
  \<open>app/core/dependencies.py\<close>, \<open>app/services/auth_service.py\<close> and the endpoints of
  \<open>app/api/v1/auth.py\<close> and \<open>app/api/v1/tenants.py\<close>. The JWT, hashing and password libraries
  are the record \<open>crypto\<close>; what a request draws (the clock, uuid4, the salt) is the record
  \<open>draw\<close>.
\<close>

section \<open>Tokens and passwords\<close>

record crypto =
  cy_encode :: "(string \<times> string) list \<Rightarrow> instant \<Rightarrow> string"
  cy_decode :: "instant \<Rightarrow> string \<Rightarrow> (string, json) dict option"
  cy_sha256 :: "string \<Rightarrow> string"
  cy_hash :: "string \<Rightarrow> string \<Rightarrow> string"
  cy_verify :: "string \<Rightarrow> string \<Rightarrow> bool"
  cy_access_minutes :: int
  cy_refresh_days :: int

record draw =
  dw_now :: instant
  dw_salt :: string
  dw_tenant_id :: uuid
  dw_user_id :: uuid
  dw_token_id :: uuid
  dw_uuid :: uuid

definition BCRYPT_MAX_BYTES :: nat where
  "BCRYPT_MAX_BYTES = 72"

definition bcrypt_bytes :: "string \<Rightarrow> string" where
  "bcrypt_bytes password = take BCRYPT_MAX_BYTES password"

definition hash_password :: "crypto \<Rightarrow> string \<Rightarrow> string \<Rightarrow> string" where
  "hash_password cy salt password = cy_hash cy salt (bcrypt_bytes password)"

definition verify_password :: "crypto \<Rightarrow> string \<Rightarrow> string \<Rightarrow> bool" where
  "verify_password cy plain hashed = cy_verify cy (bcrypt_bytes plain) hashed"

text \<open>The claims of a token; its expiry, the claim \<open>exp\<close>, is the second argument of the encoder.\<close>

definition access_claims :: "uuid \<Rightarrow> uuid \<Rightarrow> string \<Rightarrow> (string \<times> string) list" where
  "access_claims uid tid role =
    [(''sub'', uid), (''tenant_id'', tid), (''role'', role), (''type'', ''access'')]"

definition refresh_claims :: "uuid \<Rightarrow> uuid \<Rightarrow> uuid \<Rightarrow> (string \<times> string) list" where
  "refresh_claims uid tid jti =
    [(''sub'', uid), (''tenant_id'', tid), (''jti'', jti), (''type'', ''refresh'')]"

definition create_access_token :: "crypto \<Rightarrow> instant \<Rightarrow> uuid \<Rightarrow> uuid \<Rightarrow> string \<Rightarrow> string" where
  "create_access_token cy now uid tid role =
    cy_encode cy (access_claims uid tid role) (now + minutes (cy_access_minutes cy))"

definition get_refresh_token_expiry :: "crypto \<Rightarrow> instant \<Rightarrow> instant" where
  "get_refresh_token_expiry cy now = now + minutes (cy_refresh_days cy * 1440)"

definition create_refresh_token_with_id :: "crypto \<Rightarrow> instant \<Rightarrow> uuid \<Rightarrow> uuid \<Rightarrow> uuid \<Rightarrow> string" where
  "create_refresh_token_with_id cy now uid tid jti =
    cy_encode cy (refresh_claims uid tid jti) (get_refresh_token_expiry cy now)"

text \<open>
  What the code relies on of \<open>jose.jwt\<close>: a token decodes to the claims it was made of until the
  second of its expiry, and not after.
\<close>

definition token_laws :: "crypto \<Rightarrow> bool" where
  "token_laws cy \<longleftrightarrow>
    (\<forall>claims expiry t uid tid x. claims = access_claims uid tid x \<or> claims = refresh_claims uid tid x \<longrightarrow>
      (if t div 1000000 \<le> expiry div 1000000
       then \<exists>p. cy_decode cy t (cy_encode cy claims expiry) = Some p \<and>
         (\<forall>k. k \<noteq> ''exp'' \<longrightarrow> dget k p = map_option JStr (map_of claims k))
       else cy_decode cy t (cy_encode cy claims expiry) = None))"

section \<open>Names\<close>

definition normalize_email :: "string \<Rightarrow> string" where
  "normalize_email email = py_lower (py_strip email)"

definition slug_char :: "char \<Rightarrow> bool" where
  "slug_char c \<longleftrightarrow> (let n = of_char c :: nat in 97 \<le> n \<and> n \<le> 122 \<or> 48 \<le> n \<and> n \<le> 57)"

definition slug_gap :: "char \<Rightarrow> bool" where
  "slug_gap c \<longleftrightarrow> is_space c \<or> c = CHR ''-''"

text \<open>\<open>re.sub(r"[\s-]+", "-", slug)\<close>: the flag says that the previous character was in a gap.\<close>

fun collapse_gaps :: "bool \<Rightarrow> string \<Rightarrow> string" where
  "collapse_gaps g [] = []"
| "collapse_gaps g (c # s) =
    (if slug_gap c then (if g then collapse_gaps True s else CHR ''-'' # collapse_gaps True s)
     else c # collapse_gaps False s)"

definition slugify :: "string \<Rightarrow> string" where
  "slugify name = collapse_gaps False (filter (\<lambda>c. slug_char c \<or> slug_gap c) (py_strip (py_lower name)))"

section \<open>Issuing and revoking refresh tokens\<close>

text \<open>\<open>scalar_one_or_none\<close> where the column is not a key: several rows are an exception.\<close>

fun one_or_none :: "'r list \<Rightarrow> http_error + 'r option" where
  "one_or_none [] = Inr None"
| "one_or_none [r] = Inr (Some r)"
| "one_or_none _ = Inl (HTTPException 500 ''Multiple rows were found when one or none was required'')"

definition users_by_email :: "string \<Rightarrow> db \<Rightarrow> user list" where
  "users_by_email email s = filter (\<lambda>u. py_lower (us_email u) = email) (users s)"

definition user_by_id :: "uuid \<Rightarrow> db \<Rightarrow> user option" where
  "user_by_id uid s = row_find (\<lambda>u. us_id u = uid) (users s)"

record token_pair =
  tp_access_token :: string
  tp_refresh_token :: string
  tp_refresh_row :: refresh_token

definition issue_token_pair :: "crypto \<Rightarrow> draw \<Rightarrow> user \<Rightarrow> db \<Rightarrow> token_pair \<times> db" where
  "issue_token_pair cy dw u s =
    (let token = create_refresh_token_with_id cy (dw_now dw) (us_id u) (us_tenant_id u) (dw_token_id dw);
         row = \<lparr>rt_id = dw_token_id dw, rt_user_id = us_id u, rt_tenant_id = us_tenant_id u,
           rt_token_hash = cy_sha256 cy token, rt_expires_at = get_refresh_token_expiry cy (dw_now dw),
           rt_revoked_at = None, rt_replaced_by_id = None, rt_created_at = dw_now dw\<rparr> in
     (\<lparr>tp_access_token = create_access_token cy (dw_now dw) (us_id u) (us_tenant_id u) (us_role u),
       tp_refresh_token = token, tp_refresh_row = row\<rparr>,
      s\<lparr>refresh_tokens := refresh_tokens s @ [row]\<rparr>))"

definition revoke_refresh_tokens :: "uuid \<Rightarrow> instant \<Rightarrow> db \<Rightarrow> db" where
  "revoke_refresh_tokens uid now s =
    s\<lparr>refresh_tokens := row_update (\<lambda>r. rt_user_id r = uid \<and> rt_revoked_at r = None)
      (\<lambda>r. r\<lparr>rt_revoked_at := Some now\<rparr>) (refresh_tokens s)\<rparr>"

section \<open>Registration and login\<close>

definition new_tenant :: "draw \<Rightarrow> string \<Rightarrow> string \<Rightarrow> tenant" where
  "new_tenant dw name slug =
    \<lparr>tn_id = dw_tenant_id dw, tn_name = name, tn_slug = slug, tn_plan = ''free'', tn_max_workflows = 2,
     tn_max_agents_per_workflow = 3, tn_monthly_token_budget = 100000, tn_tokens_used_this_month = 0,
     tn_dispatch_alert_policy = JObj [], tn_dispatch_automation_worker_config = JObj [],
     tn_created_at = dw_now dw\<rparr>"

definition has_slug :: "string \<Rightarrow> db \<Rightarrow> bool" where
  "has_slug slug s \<longleftrightarrow> list_ex (\<lambda>t. tn_slug t = slug) (tenants s)"

definition choose_slug :: "draw \<Rightarrow> string \<Rightarrow> db \<Rightarrow> string" where
  "choose_slug dw name s =
    (if has_slug (slugify name) s then slugify name @ ''-'' @ take 8 (dw_uuid dw) else slugify name)"

record registered =
  rg_user_id :: uuid
  rg_tenant_id :: uuid
  rg_access_token :: string
  rg_refresh_token :: string

text \<open>A slug that is taken in spite of its suffix violates the unique constraint of the column.\<close>

definition register :: "crypto \<Rightarrow> draw \<Rightarrow> string \<Rightarrow> string \<Rightarrow> string \<Rightarrow> string \<Rightarrow> (registered, db) svc" where
  "register cy dw email password full_name tenant_name s =
    (case one_or_none (users_by_email (normalize_email email) s) of
      Inl err \<Rightarrow> (Inl err, s)
    | Inr (Some _) \<Rightarrow> (Inl (HTTPException 409 ''Email already registered''), s)
    | Inr None \<Rightarrow>
       (let slug = choose_slug dw tenant_name s;
            t = new_tenant dw tenant_name slug;
            u = \<lparr>us_id = dw_user_id dw, us_tenant_id = tn_id t, us_email = normalize_email email,
                 us_password_hash = hash_password cy (dw_salt dw) password, us_full_name = Some full_name,
                 us_role = ''owner'', us_is_active = True, us_must_change_password = False,
                 us_created_at = dw_now dw\<rparr> in
        if has_slug slug s then (Inl (HTTPException 500 ''IntegrityError''), s)
        else case issue_token_pair cy dw u (s\<lparr>tenants := tenants s @ [t], users := users s @ [u]\<rparr>) of
          (tp, s') \<Rightarrow>
            (Inr \<lparr>rg_user_id = us_id u, rg_tenant_id = tn_id t, rg_access_token = tp_access_token tp,
                  rg_refresh_token = tp_refresh_token tp\<rparr>, s')))"

record session =
  se_access_token :: string
  se_refresh_token :: string
  se_user :: "user option"

definition invalid_credentials :: http_error where
  "invalid_credentials = HTTPException 401 ''Invalid email or password''"

definition login :: "crypto \<Rightarrow> draw \<Rightarrow> string \<Rightarrow> string \<Rightarrow> (session, db) svc" where
  "login cy dw email password s =
    (case one_or_none (users_by_email (normalize_email email) s) of
      Inl err \<Rightarrow> (Inl err, s)
    | Inr None \<Rightarrow> (Inl invalid_credentials, s)
    | Inr (Some u) \<Rightarrow>
       if \<not> verify_password cy password (us_password_hash u) then (Inl invalid_credentials, s)
       else if \<not> us_is_active u then (Inl (HTTPException 401 ''Account is deactivated''), s)
       else case issue_token_pair cy dw u s of
         (tp, s') \<Rightarrow> (Inr \<lparr>se_access_token = tp_access_token tp, se_refresh_token = tp_refresh_token tp,
           se_user = Some u\<rparr>, s'))"

definition get_profile :: "uuid \<Rightarrow> db \<Rightarrow> http_error + user" where
  "get_profile uid s = (case user_by_id uid s of
    None \<Rightarrow> Inl (HTTPException 404 ''User not found'') | Some u \<Rightarrow> Inr u)"

section \<open>Refresh and logout\<close>

text \<open>\<open>UUID(value)\<close>: only its \<open>ValueError\<close> is caught.\<close>

fun claim_uuid :: "json \<Rightarrow> http_error + uuid" where
  "claim_uuid (JStr x) = (case parse_uuid x of
    None \<Rightarrow> Inl (HTTPException 401 ''Invalid token payload'') | Some u \<Rightarrow> Inr u)"
| "claim_uuid _ = Inl (HTTPException 500 ''AttributeError'')"

fun claim_uuids :: "json list \<Rightarrow> http_error + uuid list" where
  "claim_uuids [] = Inr []"
| "claim_uuids (v # vs) = (case claim_uuid v of
    Inl err \<Rightarrow> Inl err
  | Inr u \<Rightarrow> (case claim_uuids vs of Inl err \<Rightarrow> Inl err | Inr us \<Rightarrow> Inr (u # us)))"

definition invalid_refresh :: http_error where
  "invalid_refresh = HTTPException 401 ''Invalid or expired refresh token''"

definition reuse_detected :: http_error where
  "reuse_detected = HTTPException 401 ''Refresh token has already been used; all sessions have been revoked.''"

text \<open>The user, tenant and token a refresh token names.\<close>

definition refresh_claims_of :: "crypto \<Rightarrow> instant \<Rightarrow> string \<Rightarrow> http_error + uuid list" where
  "refresh_claims_of cy now token =
    (case cy_decode cy now token of
      None \<Rightarrow> Inl invalid_refresh
    | Some p \<Rightarrow>
       if jget ''type'' p \<noteq> JStr ''refresh'' then Inl invalid_refresh
       else if jget ''sub'' p = JNull \<or> jget ''tenant_id'' p = JNull \<or> jget ''jti'' p = JNull
       then Inl (HTTPException 401 ''Invalid token payload'')
       else claim_uuids [jget ''sub'' p, jget ''tenant_id'' p, jget ''jti'' p])"

definition find_refresh_row :: "crypto \<Rightarrow> string \<Rightarrow> uuid list \<Rightarrow> db \<Rightarrow> refresh_token option" where
  "find_refresh_row cy token ids s = row_find (\<lambda>r. [rt_user_id r, rt_tenant_id r, rt_id r] = ids \<and>
    rt_token_hash r = cy_sha256 cy token) (refresh_tokens s)"

definition update_refresh_row :: "uuid \<Rightarrow> (refresh_token \<Rightarrow> refresh_token) \<Rightarrow> db \<Rightarrow> db" where
  "update_refresh_row i f s = s\<lparr>refresh_tokens := row_update (\<lambda>r. rt_id r = i) f (refresh_tokens s)\<rparr>"

definition refresh_session :: "crypto \<Rightarrow> draw \<Rightarrow> string \<Rightarrow> (session, db) svc" where
  "refresh_session cy dw token s =
    (case refresh_claims_of cy (dw_now dw) token of
      Inl err \<Rightarrow> (Inl err, s)
    | Inr ids \<Rightarrow>
       (case find_refresh_row cy token ids s of
         None \<Rightarrow> (Inl invalid_refresh, s)
       | Some row \<Rightarrow>
          if rt_revoked_at row \<noteq> None then
            (Inl reuse_detected, revoke_refresh_tokens (rt_user_id row) (dw_now dw) s)
          else if rt_expires_at row \<le> dw_now dw then (Inl invalid_refresh, s)
          else case user_by_id (rt_user_id row) s of
            None \<Rightarrow> (Inl (HTTPException 401 ''User not found or deactivated''), s)
          | Some u \<Rightarrow>
             if \<not> us_is_active u then (Inl (HTTPException 401 ''User not found or deactivated''), s)
             else case issue_token_pair cy dw u (update_refresh_row (rt_id row)
                 (\<lambda>r. r\<lparr>rt_revoked_at := Some (dw_now dw)\<rparr>) s) of
               (tp, s') \<Rightarrow>
                 (Inr \<lparr>se_access_token = tp_access_token tp, se_refresh_token = tp_refresh_token tp,
                       se_user = None\<rparr>,
                  update_refresh_row (rt_id row)
                    (\<lambda>r. r\<lparr>rt_replaced_by_id := Some (rt_id (tp_refresh_row tp))\<rparr>) s')))"

text \<open>
  Logout. \<open>Inl\<close> is the \<open>AttributeError\<close> of a \<open>jti\<close> that is not a string; every other unusable
  token is silently accepted.
\<close>

definition revoke_refresh_token :: "crypto \<Rightarrow> instant \<Rightarrow> string \<Rightarrow> (unit, db) svc" where
  "revoke_refresh_token cy now token s =
    (case cy_decode cy now token of
      None \<Rightarrow> (Inr (), s)
    | Some p \<Rightarrow>
       if jget ''type'' p \<noteq> JStr ''refresh'' \<or> \<not> truthy (jget ''jti'' p) then (Inr (), s)
       else case jget ''jti'' p of
         JStr x \<Rightarrow>
          (case parse_uuid x of
            None \<Rightarrow> (Inr (), s)
          | Some i \<Rightarrow>
             (case row_find (\<lambda>r. rt_id r = i \<and> rt_token_hash r = cy_sha256 cy token \<and> rt_revoked_at r = None)
                 (refresh_tokens s) of
               None \<Rightarrow> (Inr (), s)
             | Some row \<Rightarrow> (Inr (), update_refresh_row (rt_id row) (\<lambda>r. r\<lparr>rt_revoked_at := Some now\<rparr>) s)))
       | _ \<Rightarrow> (Inl (HTTPException 500 ''AttributeError''), s))"

section \<open>Profile and password\<close>

definition update_user :: "uuid \<Rightarrow> (user \<Rightarrow> user) \<Rightarrow> db \<Rightarrow> db" where
  "update_user uid f s = s\<lparr>users := row_update (\<lambda>u. us_id u = uid) f (users s)\<rparr>"

text \<open>Why a change of password is refused.\<close>

definition password_refusal :: "crypto \<Rightarrow> user \<Rightarrow> string option \<Rightarrow> http_error option" where
  "password_refusal cy u current_password =
    (if us_must_change_password u then None
     else case current_password of
       None \<Rightarrow> Some (HTTPException 400 ''Current password is required to set a new password'')
     | Some c \<Rightarrow>
        if c = [] then Some (HTTPException 400 ''Current password is required to set a new password'')
        else if \<not> verify_password cy c (us_password_hash u)
        then Some (HTTPException 401 ''Current password is incorrect'') else None)"

definition rename :: "string option \<Rightarrow> user \<Rightarrow> user" where
  "rename full_name u = (case full_name of None \<Rightarrow> u | Some n \<Rightarrow> u\<lparr>us_full_name := Some n\<rparr>)"

definition update_profile ::
  "crypto \<Rightarrow> draw \<Rightarrow> uuid \<Rightarrow> string option \<Rightarrow> string option \<Rightarrow> string option \<Rightarrow> (user, db) svc" where
  "update_profile cy dw uid full_name password current_password s =
    (case user_by_id uid s of
      None \<Rightarrow> (Inl (HTTPException 404 ''User not found''), s)
    | Some u \<Rightarrow>
       (case password of
         None \<Rightarrow> (Inr (rename full_name u), update_user uid (rename full_name) s)
       | Some p \<Rightarrow>
          (case password_refusal cy u current_password of
            Some err \<Rightarrow> (Inl err, s)
          | None \<Rightarrow>
             (let f = (\<lambda>x. (rename full_name x)\<lparr>us_password_hash := hash_password cy (dw_salt dw) p,
                    us_must_change_password := False\<rparr>) in
              (Inr (f u), revoke_refresh_tokens uid (dw_now dw) (update_user uid f s))))))"

definition set_password :: "crypto \<Rightarrow> draw \<Rightarrow> uuid \<Rightarrow> string \<Rightarrow> string option \<Rightarrow> (session, db) svc" where
  "set_password cy dw uid password current_password s =
    (case update_profile cy dw uid None (Some password) current_password s of
      (Inl err, s') \<Rightarrow> (Inl err, s')
    | (Inr u, s') \<Rightarrow>
       (case issue_token_pair cy dw u s' of
         (tp, s'') \<Rightarrow> (Inr \<lparr>se_access_token = tp_access_token tp, se_refresh_token = tp_refresh_token tp,
           se_user = Some u\<rparr>, s'')))"

section \<open>The users of a tenant\<close>

definition list_tenant_users :: "uuid \<Rightarrow> db \<Rightarrow> user list" where
  "list_tenant_users tid s = sort_key us_created_at (filter (\<lambda>u. us_tenant_id u = tid) (users s))"

text \<open>The answer carries the temporary password, the first twelve characters of a uuid4.\<close>

definition invite_user :: "crypto \<Rightarrow> draw \<Rightarrow> uuid \<Rightarrow> string \<Rightarrow> string \<Rightarrow> (user \<times> string, db) svc" where
  "invite_user cy dw tid email role s =
    (case one_or_none (users_by_email (normalize_email email) s) of
      Inl err \<Rightarrow> (Inl err, s)
    | Inr (Some u) \<Rightarrow>
       (Inl (HTTPException 409 (if us_tenant_id u = tid then ''User already in this tenant''
         else ''User already belongs to another tenant'')), s)
    | Inr None \<Rightarrow>
       (let temporary = take 12 (dw_uuid dw);
            u = \<lparr>us_id = dw_user_id dw, us_tenant_id = tid, us_email = normalize_email email,
                 us_password_hash = hash_password cy (dw_salt dw) temporary,
                 us_full_name = Some (normalize_email email), us_role = role, us_is_active = True,
                 us_must_change_password = True, us_created_at = dw_now dw\<rparr> in
        (Inr (u, temporary), s\<lparr>users := users s @ [u]\<rparr>)))"

definition tenant_user :: "uuid \<Rightarrow> uuid \<Rightarrow> db \<Rightarrow> user option" where
  "tenant_user tid uid s = row_find (\<lambda>u. us_id u = uid \<and> us_tenant_id u = tid) (users s)"

definition update_user_role :: "uuid \<Rightarrow> uuid \<Rightarrow> string \<Rightarrow> uuid \<Rightarrow> (user, db) svc" where
  "update_user_role tid uid new_role current_id s =
    (case tenant_user tid uid s of
      None \<Rightarrow> (Inl (HTTPException 404 ''User not found''), s)
    | Some u \<Rightarrow>
       if us_id u = current_id then (Inl (HTTPException 400 ''Cannot change your own role''), s)
       else (Inr (u\<lparr>us_role := new_role\<rparr>), update_user uid (\<lambda>x. x\<lparr>us_role := new_role\<rparr>) s))"

text \<open>
  Rows that keep a user from being deleted. A relationship to \<open>User\<close> with a back reference and no
  delete cascade makes the session set the referring column to null before it deletes the row: the
  column \<open>user_id\<close> of \<open>RefreshToken\<close> does not allow that. The references without a back
  reference are foreign keys with no \<open>ondelete\<close>.
\<close>

definition user_referenced :: "uuid \<Rightarrow> db \<Rightarrow> bool" where
  "user_referenced uid s \<longleftrightarrow>
    list_ex (\<lambda>r. rt_user_id r = uid) (refresh_tokens s) \<or>
    list_ex (\<lambda>w. wf_dispatch_paused_by w = Some uid) (workflows s) \<or>
    list_ex (\<lambda>r. ak_resolved_by r = Some uid) (acks s) \<or>
    list_ex (\<lambda>r. pl_requested_by r = Some uid \<or> pl_approved_by r = Some uid \<or> pl_rejected_by r = Some uid)
      (plans s)"

definition unlink :: "uuid \<Rightarrow> uuid option \<Rightarrow> uuid option" where
  "unlink uid v = (if v = Some uid then None else v)"

definition delete_user :: "uuid \<Rightarrow> db \<Rightarrow> db" where
  "delete_user uid s = s\<lparr>
    users := filter (\<lambda>x. us_id x \<noteq> uid) (users s),
    workflows := map (\<lambda>w. w\<lparr>wf_created_by := unlink uid (wf_created_by w)\<rparr>) (workflows s),
    credentials := map (\<lambda>r. r\<lparr>cr_created_by := unlink uid (cr_created_by r)\<rparr>) (credentials s),
    triggers := map (\<lambda>r. r\<lparr>tg_created_by := unlink uid (tg_created_by r)\<rparr>) (triggers s),
    suggestions := map (\<lambda>r. r\<lparr>fs_applied_by := unlink uid (fs_applied_by r)\<rparr>) (suggestions s),
    channels := map (\<lambda>r. r\<lparr>ch_created_by := unlink uid (ch_created_by r)\<rparr>) (channels s),
    acks := map (\<lambda>r. r\<lparr>ak_acknowledged_by := unlink uid (ak_acknowledged_by r)\<rparr>) (acks s),
    worker_runs := map (\<lambda>r. r\<lparr>wr_triggered_by := unlink uid (wr_triggered_by r)\<rparr>) (worker_runs s)\<rparr>"

definition remove_user :: "uuid \<Rightarrow> uuid \<Rightarrow> uuid \<Rightarrow> (unit, db) svc" where
  "remove_user tid uid current_id s =
    (case tenant_user tid uid s of
      None \<Rightarrow> (Inl (HTTPException 404 ''User not found''), s)
    | Some u \<Rightarrow>
       if us_id u = current_id then (Inl (HTTPException 400 ''Cannot remove yourself''), s)
       else if user_referenced uid s then (Inl (HTTPException 500 ''IntegrityError''), s)
       else (Inr (), delete_user uid s))"

section \<open>The endpoints\<close>

text \<open>
  \<open>get_current_user\<close>, with the path of the request. A \<open>sub\<close> claim that is no string is an
  \<open>AttributeError\<close>, as for refresh tokens.
\<close>

definition get_current_user :: "crypto \<Rightarrow> instant \<Rightarrow> string \<Rightarrow> string \<Rightarrow> db \<Rightarrow> http_error + user" where
  "get_current_user cy now path token s =
    (case cy_decode cy now token of
      None \<Rightarrow> Inl (HTTPException 401 ''Invalid or expired token'')
    | Some p \<Rightarrow>
       if jget ''type'' p \<noteq> JStr ''access'' then Inl (HTTPException 401 ''Invalid or expired token'')
       else if jget ''sub'' p = JNull then Inl (HTTPException 401 ''Invalid token payload'')
       else case claim_uuid (jget ''sub'' p) of
         Inl err \<Rightarrow> Inl err
       | Inr uid \<Rightarrow>
          (case user_by_id uid s of
            None \<Rightarrow> Inl (HTTPException 401 ''User not found'')
          | Some u \<Rightarrow>
             if \<not> us_is_active u then Inl (HTTPException 401 ''User is deactivated'')
             else if us_must_change_password u \<and>
               path \<notin> {''/api/v1/auth/me'', ''/api/v1/auth/set-password''}
             then Inl (HTTPException 403 ''Password reset required before using this account'')
             else Inr u))"

definition PLATFORM_ADMIN_ROLE :: string where
  "PLATFORM_ADMIN_ROLE = ''platform_admin''"

definition require_role :: "string list \<Rightarrow> user \<Rightarrow> http_error option" where
  "require_role allowed u =
    (if us_role u \<in> set allowed then None
     else Some (HTTPException 403 (''Role '' @ [CHR 0x27] @ us_role u @ [CHR 0x27] @
       '' is not allowed. Required: '' @ join '', '' allowed)))"

definition require_platform_admin :: "user \<Rightarrow> http_error option" where
  "require_platform_admin u =
    (if us_role u = PLATFORM_ADMIN_ROLE then None
     else Some (HTTPException 403 ''Platform admin role is required''))"

text \<open>The schema of an invitation and of a role update: \<open>^(editor|viewer)$\<close>.\<close>

definition valid_role :: "string \<Rightarrow> bool" where
  "valid_role role \<longleftrightarrow> role = ''editor'' \<or> role = ''viewer''"

definition unprocessable :: http_error where
  "unprocessable = HTTPException 422 []"

text \<open>
  The length limits of the schemas; an absent optional value is valid. The syntax of an e-mail
  address is the validation library's.
\<close>

definition length_within :: "nat \<Rightarrow> nat \<Rightarrow> string \<Rightarrow> bool" where
  "length_within lo hi x \<longleftrightarrow> lo \<le> length x \<and> length x \<le> hi"

definition PASSWORD_MIN_LENGTH :: nat where
  "PASSWORD_MIN_LENGTH = 8"

definition PASSWORD_MAX_LENGTH :: nat where
  "PASSWORD_MAX_LENGTH = 72"

definition valid_registration :: "string \<Rightarrow> string \<Rightarrow> string \<Rightarrow> string \<Rightarrow> bool" where
  "valid_registration email password full_name tenant_name \<longleftrightarrow> length email \<le> 255 \<and>
    length_within PASSWORD_MIN_LENGTH PASSWORD_MAX_LENGTH password \<and> length_within 1 255 full_name \<and> length_within 1 255 tenant_name"

definition valid_profile_update :: "string option \<Rightarrow> string option \<Rightarrow> bool" where
  "valid_profile_update password current_password \<longleftrightarrow>
    (case password of None \<Rightarrow> True | Some p \<Rightarrow> length_within PASSWORD_MIN_LENGTH PASSWORD_MAX_LENGTH p) \<and>
    (case current_password of None \<Rightarrow> True | Some p \<Rightarrow> length_within 6 PASSWORD_MAX_LENGTH p)"

text \<open>The requests that write users, tenants or refresh tokens, and their answers.\<close>

datatype auth_request =
  Register string string string string
| Login string string
| Refresh string
| Logout string
| UpdateMe string "string option" "string option" "string option"
| SetPassword string "string option" "string option"
| Invite string string string
| UpdateRole string uuid string
| RemoveUser string uuid

datatype auth_answer = Registered registered | Session session | Profile user | Invited user string | NoContent

fun answer :: "('a \<Rightarrow> auth_answer) \<Rightarrow> (http_error + 'a) \<times> db \<Rightarrow> (http_error + auth_answer) \<times> db" where
  "answer f (Inl err, s) = (Inl err, s)"
| "answer f (Inr v, s) = (Inr (f v), s)"

definition as_user ::
  "crypto \<Rightarrow> draw \<Rightarrow> string \<Rightarrow> string \<Rightarrow> (user \<Rightarrow> (auth_answer, db) svc) \<Rightarrow> (auth_answer, db) svc" where
  "as_user cy dw path token body s =
    (case get_current_user cy (dw_now dw) path token s of Inl err \<Rightarrow> (Inl err, s) | Inr u \<Rightarrow> body u s)"

definition as_owner ::
  "crypto \<Rightarrow> draw \<Rightarrow> string \<Rightarrow> string \<Rightarrow> (user \<Rightarrow> (auth_answer, db) svc) \<Rightarrow> (auth_answer, db) svc" where
  "as_owner cy dw path token body =
    as_user cy dw path token (\<lambda>u s. case require_role [''owner''] u of
      Some err \<Rightarrow> (Inl err, s) | None \<Rightarrow> body u s)"

text \<open>
  The path of the requests on one user ends with an identifier: no such path is one of the two
  that a user with a temporary password may call.
\<close>

definition invite_endpoint :: "crypto \<Rightarrow> draw \<Rightarrow> string \<Rightarrow> string \<Rightarrow> string \<Rightarrow> (auth_answer, db) svc" where
  "invite_endpoint cy dw token email role =
    as_owner cy dw ''/api/v1/tenants/invite'' token (\<lambda>u s.
      if \<not> valid_role role \<or> length email > 255 then (Inl unprocessable, s)
      else answer (\<lambda>(v, temporary). Invited v temporary)
        (invite_user cy dw (us_tenant_id u) email role s))"

definition update_role_endpoint :: "crypto \<Rightarrow> draw \<Rightarrow> string \<Rightarrow> uuid \<Rightarrow> string \<Rightarrow> (auth_answer, db) svc" where
  "update_role_endpoint cy dw token uid role =
    as_owner cy dw (''/api/v1/tenants/users/'' @ uid @ ''/role'') token (\<lambda>u s.
      if \<not> valid_role role then (Inl unprocessable, s)
      else answer Profile (update_user_role (us_tenant_id u) uid role (us_id u) s))"

definition remove_user_endpoint :: "crypto \<Rightarrow> draw \<Rightarrow> string \<Rightarrow> uuid \<Rightarrow> (auth_answer, db) svc" where
  "remove_user_endpoint cy dw token uid =
    as_owner cy dw (''/api/v1/tenants/users/'' @ uid) token (\<lambda>u s.
      answer (\<lambda>_. NoContent) (remove_user (us_tenant_id u) uid (us_id u) s))"

text \<open>The two endpoints that only read.\<close>

definition list_users_endpoint :: "crypto \<Rightarrow> instant \<Rightarrow> string \<Rightarrow> db \<Rightarrow> http_error + user list" where
  "list_users_endpoint cy now token s =
    (case get_current_user cy now ''/api/v1/tenants/users'' token s of
      Inl err \<Rightarrow> Inl err
    | Inr u \<Rightarrow> (case require_role [''owner''] u of
        Some err \<Rightarrow> Inl err | None \<Rightarrow> Inr (list_tenant_users (us_tenant_id u) s)))"

definition get_me_endpoint :: "crypto \<Rightarrow> instant \<Rightarrow> string \<Rightarrow> db \<Rightarrow> http_error + user" where
  "get_me_endpoint cy now token s =
    (case get_current_user cy now ''/api/v1/auth/me'' token s of
      Inl err \<Rightarrow> Inl err | Inr u \<Rightarrow> get_profile (us_id u) s)"

fun serve :: "crypto \<Rightarrow> draw \<Rightarrow> auth_request \<Rightarrow> (auth_answer, db) svc" where
  "serve cy dw (Register email password full_name tenant_name) s =
    (if \<not> valid_registration email password full_name tenant_name then (Inl unprocessable, s)
     else answer Registered (register cy dw email password full_name tenant_name s))"
| "serve cy dw (Login email password) s = answer Session (login cy dw email password s)"
| "serve cy dw (Refresh token) s =
    (if token = [] then (Inl (HTTPException 401 ''Refresh token is required''), s)
     else answer Session (refresh_session cy dw token s))"
| "serve cy dw (Logout token) s =
    (if token = [] then (Inr NoContent, s)
     else answer (\<lambda>_. NoContent) (revoke_refresh_token cy (dw_now dw) token s))"
| "serve cy dw (UpdateMe token full_name password current_password) s =
    as_user cy dw ''/api/v1/auth/me'' token (\<lambda>u s.
      if \<not> valid_profile_update password current_password then (Inl unprocessable, s)
      else answer Profile (update_profile cy dw (us_id u) full_name password current_password s)) s"
| "serve cy dw (SetPassword token password current_password) s =
    as_user cy dw ''/api/v1/auth/set-password'' token (\<lambda>u s.
      if \<not> valid_profile_update password current_password then (Inl unprocessable, s)
      else case password of
        None \<Rightarrow> (Inl (HTTPException 400 ''New password is required''), s)
      | Some p \<Rightarrow>
         if p = [] then (Inl (HTTPException 400 ''New password is required''), s)
         else answer Session (set_password cy dw (us_id u) p current_password s)) s"
| "serve cy dw (Invite token email role) s = invite_endpoint cy dw token email role s"
| "serve cy dw (UpdateRole token uid role) s = update_role_endpoint cy dw token uid role s"
| "serve cy dw (RemoveUser token uid) s = remove_user_endpoint cy dw token uid s"

lemmas endpoint_defs = invite_endpoint_def update_role_endpoint_def remove_user_endpoint_def
  as_owner_def as_user_def

text \<open>
  The life of the deployment as far as authentication goes: each step serves one request, and
  the identifiers it draws have never been drawn before.
\<close>

type_synonym auth_state = "db \<times> uuid set"

definition drawn :: "draw \<Rightarrow> uuid set" where
  "drawn dw = {dw_tenant_id dw, dw_user_id dw, dw_token_id dw}"

inductive auth_step :: "crypto \<Rightarrow> auth_state \<Rightarrow> auth_state \<Rightarrow> bool" for cy where
  auth_step: "drawn dw \<inter> used = {} \<Longrightarrow> s' = snd (serve cy dw req s) \<Longrightarrow>
    auth_step cy (s, used) (s', used \<union> drawn dw)"

inductive_cases auth_stepE: "auth_step cy x y"

section \<open>Refresh tokens are never forgotten\<close>

text \<open>What an operation may do to a row: revoke it and link it to its successor.\<close>

definition kept :: "refresh_token \<Rightarrow> refresh_token \<Rightarrow> bool" where
  "kept r r' \<longleftrightarrow> rt_id r' = rt_id r \<and> rt_user_id r' = rt_user_id r \<and> rt_tenant_id r' = rt_tenant_id r \<and>
    rt_token_hash r' = rt_token_hash r \<and> rt_expires_at r' = rt_expires_at r \<and>
    (rt_revoked_at r \<noteq> None \<longrightarrow> rt_revoked_at r' \<noteq> None)"

lemma kept_refl [simp]: "kept r r"
  by (simp add: kept_def)

lemma kept_trans: "kept a b \<Longrightarrow> kept b c \<Longrightarrow> kept a c"
  by (simp add: kept_def)

definition token_change :: "uuid \<Rightarrow> refresh_token list \<Rightarrow> refresh_token list \<Rightarrow> bool" where
  "token_change new ts ts' \<longleftrightarrow> (\<exists>ts0 tail. ts' = ts0 @ tail \<and> list_all2 kept ts ts0 \<and>
    length tail \<le> 1 \<and> (\<forall>r \<in> set tail. rt_id r = new))"

lemma list_all2_kept_refl [simp]: "list_all2 kept ts ts"
  by (simp add: list_all2_refl)

lemma list_all2_kept_update:
  "(\<And>r. kept r (f r)) \<Longrightarrow> list_all2 kept ts (row_update p f ts)"
  by (induction ts) auto

lemma list_all2_kept_trans: "list_all2 kept xs ys \<Longrightarrow> list_all2 kept ys zs \<Longrightarrow> list_all2 kept xs zs"
  using list_all2_trans [of kept kept kept] kept_trans by blast

lemma token_change_refl [simp, intro]: "token_change new ts ts"
  unfolding token_change_def by (intro exI [of _ ts] exI [of _ "[]"]) simp

lemma token_change_update:
  assumes "token_change new ts ts'" "\<And>r. kept r (f r)"
  shows "token_change new ts (row_update p f ts')"
proof -
  from assms(1) obtain ts0 tail where t: "ts' = ts0 @ tail" "list_all2 kept ts ts0" "length tail \<le> 1"
      "\<forall>r \<in> set tail. rt_id r = new"
    unfolding token_change_def by blast
  have "\<forall>r \<in> set (row_update p f tail). rt_id r = new"
    using t(4) assms(2) by (auto simp: row_update_def kept_def)
  moreover have "list_all2 kept ts (row_update p f ts0)"
    by (rule list_all2_kept_trans [OF t(2) list_all2_kept_update]) (rule assms(2))
  ultimately show ?thesis
    unfolding token_change_def using t(1,3)
    by (intro exI [of _ "row_update p f ts0"] exI [of _ "row_update p f tail"]) simp
qed

lemma token_change_append:
  "list_all2 kept ts ts' \<Longrightarrow> rt_id r = new \<Longrightarrow> token_change new ts (ts' @ [r])"
  unfolding token_change_def by (intro exI [of _ ts'] exI [of _ "[r]"]) simp

lemma token_change_kept: "list_all2 kept ts ts' \<Longrightarrow> token_change new ts ts'"
  unfolding token_change_def by (intro exI [of _ ts'] exI [of _ "[]"]) simp

lemma list_all2_kept_ids: "list_all2 kept ts ts' \<Longrightarrow> map rt_id ts' = map rt_id ts"
  by (induction rule: list_all2_induct) (auto simp: kept_def)

lemma token_change_ids:
  assumes "token_change new ts ts'"
  shows "map rt_id ts' = map rt_id ts \<or> map rt_id ts' = map rt_id ts @ [new]"
proof -
  from assms obtain ts0 tail where t: "ts' = ts0 @ tail" "list_all2 kept ts ts0" "length tail \<le> 1"
      "\<forall>r \<in> set tail. rt_id r = new"
    unfolding token_change_def by blast
  show ?thesis
  proof (cases tail)
    case Nil
    then show ?thesis using t list_all2_kept_ids by simp
  next
    case (Cons r rest)
    then show ?thesis using t list_all2_kept_ids [OF t(2)] by simp
  qed
qed

lemma token_change_row:
  assumes "token_change new ts ts'" "r \<in> set ts"
  shows "\<exists>r' \<in> set ts'. kept r r'"
proof -
  from assms(1) obtain ts0 tail where t: "ts' = ts0 @ tail" "list_all2 kept ts ts0"
    unfolding token_change_def by blast
  from t(2) assms(2) have "\<exists>r' \<in> set ts0. kept r r'" by (induction rule: list_all2_induct) auto
  then show ?thesis by (auto simp: t(1))
qed

text \<open>The tokens after each operation.\<close>

lemma refresh_tokens_update_user [simp]: "refresh_tokens (update_user uid f s) = refresh_tokens s"
  by (simp add: update_user_def)

lemma refresh_tokens_update_row [simp]:
  "refresh_tokens (update_refresh_row i f s) = row_update (\<lambda>r. rt_id r = i) f (refresh_tokens s)"
  by (simp add: update_refresh_row_def)

lemma refresh_tokens_revoke:
  "list_all2 kept (refresh_tokens s) (refresh_tokens (revoke_refresh_tokens uid now s))"
  by (simp add: revoke_refresh_tokens_def list_all2_kept_update kept_def)

lemma refresh_tokens_issue:
  "issue_token_pair cy dw u s = (tp, s') \<Longrightarrow>
    \<exists>row. refresh_tokens s' = refresh_tokens s @ [row] \<and> rt_id row = dw_token_id dw \<and>
      rt_user_id row = us_id u \<and> tp_refresh_row tp = row"
  by (auto simp: issue_token_pair_def Let_def)

lemma users_update_row [simp]: "users (update_refresh_row i f s) = users s"
  by (simp add: update_refresh_row_def)

lemma users_revoke [simp]: "users (revoke_refresh_tokens uid now s) = users s"
  by (simp add: revoke_refresh_tokens_def)

lemma users_issue [simp]: "users (snd (issue_token_pair cy dw u s)) = users s"
  by (simp add: issue_token_pair_def Let_def)

lemma issue_tokens_change:
  "issue_token_pair cy dw u s = (tp, s') \<Longrightarrow> list_all2 kept ts (refresh_tokens s) \<Longrightarrow>
    token_change (dw_token_id dw) ts (refresh_tokens s')"
  using refresh_tokens_issue [of cy dw u s tp s'] token_change_append by force

lemma register_tokens:
  "token_change (dw_token_id dw) (refresh_tokens s)
    (refresh_tokens (snd (register cy dw email password full_name tenant_name s)))"
  by (auto simp: register_def Let_def issue_token_pair_def intro: token_change_append
      split: sum.splits option.splits prod.splits)

lemma login_tokens:
  "token_change (dw_token_id dw) (refresh_tokens s) (refresh_tokens (snd (login cy dw email password s)))"
  by (auto simp: login_def Let_def issue_token_pair_def intro: token_change_append
      split: sum.splits option.splits prod.splits)

lemma refresh_session_tokens:
  "token_change (dw_token_id dw) (refresh_tokens s) (refresh_tokens (snd (refresh_session cy dw token s)))"
proof -
  have *: "token_change (dw_token_id dw) (refresh_tokens s)
      (row_update p (\<lambda>r. r\<lparr>rt_replaced_by_id := v\<rparr>) (refresh_tokens s'))"
    if "issue_token_pair cy dw u (update_refresh_row i (\<lambda>r. r\<lparr>rt_revoked_at := Some (dw_now dw)\<rparr>) s) = (tp, s')"
    for p v u i tp s'
    by (intro token_change_update issue_tokens_change [OF that])
      (simp_all add: list_all2_kept_update kept_def)
  then show ?thesis
    by (auto simp: refresh_session_def refresh_tokens_revoke intro: token_change_kept
        split: sum.splits option.splits prod.splits if_splits)
qed

lemma update_profile_tokens:
  "list_all2 kept (refresh_tokens s) (refresh_tokens (snd (update_profile cy dw uid name password current s)))"
proof -
  have "list_all2 kept (refresh_tokens s)
      (refresh_tokens (revoke_refresh_tokens uid (dw_now dw) (update_user uid f s)))" for f
    using refresh_tokens_revoke [of "update_user uid f s"] by simp
  then show ?thesis
    by (auto simp: update_profile_def Let_def split: option.splits)
qed

lemma set_password_tokens:
  "token_change (dw_token_id dw) (refresh_tokens s) (refresh_tokens (snd (set_password cy dw uid p current s)))"
proof -
  obtain r s1 where u: "update_profile cy dw uid None (Some p) current s = (r, s1)" by fastforce
  have k: "list_all2 kept (refresh_tokens s) (refresh_tokens s1)"
    using update_profile_tokens [of s cy dw uid None "Some p" current] by (simp add: u)
  show ?thesis
  proof (cases r)
    case (Inl err)
    then show ?thesis using k by (simp add: set_password_def u token_change_kept)
  next
    case (Inr v)
    then show ?thesis
      using k by (auto simp: set_password_def u split: prod.splits intro: issue_tokens_change)
  qed
qed

lemma snd_answer [simp]: "snd (answer f x) = snd x"
  by (cases "(f, x)" rule: answer.cases) auto

lemma refresh_tokens_frame [simp]:
  "refresh_tokens (snd (invite_user cy dw tid email role s)) = refresh_tokens s"
  "refresh_tokens (snd (update_user_role tid uid role cid s)) = refresh_tokens s"
  "refresh_tokens (snd (remove_user tid uid cid s)) = refresh_tokens s"
  by (simp_all add: invite_user_def update_user_role_def remove_user_def delete_user_def Let_def
      split: sum.splits option.splits)

lemma revoke_refresh_token_tokens:
  "list_all2 kept (refresh_tokens s) (refresh_tokens (snd (revoke_refresh_token cy now token s)))"
  by (auto simp: revoke_refresh_token_def kept_def list_all2_kept_update split: option.splits json.splits)

lemma serve_tokens:
  "token_change (dw_token_id dw) (refresh_tokens s) (refresh_tokens (snd (serve cy dw req s)))"
  by (cases req)
    (auto simp: endpoint_defs register_tokens login_tokens refresh_session_tokens
      set_password_tokens revoke_refresh_token_tokens [THEN token_change_kept]
      update_profile_tokens [THEN token_change_kept] split: sum.splits option.splits)

section \<open>The users\<close>

text \<open>What a request does to the table of users.\<close>

definition normal_email :: "string \<Rightarrow> bool" where
  "normal_email e \<longleftrightarrow> normalize_email e = e"

definition is_owner :: "uuid \<Rightarrow> user \<Rightarrow> bool" where
  "is_owner tid u \<longleftrightarrow> us_tenant_id u = tid \<and> us_role u = ''owner''"

definition same_account :: "user \<Rightarrow> user \<Rightarrow> bool" where
  "same_account u v \<longleftrightarrow> us_id v = us_id u \<and> us_tenant_id v = us_tenant_id u \<and>
    us_email v = us_email u \<and> us_role v = us_role u"

inductive user_change :: "draw \<Rightarrow> user list \<Rightarrow> user list \<Rightarrow> bool" for dw us where
  edited: "(\<And>u. same_account u (f u)) \<Longrightarrow> user_change dw us (row_update p f us)"
| founded: "us_id v = dw_user_id dw \<Longrightarrow> us_tenant_id v = dw_tenant_id dw \<Longrightarrow> us_role v = ''owner'' \<Longrightarrow>
    normal_email (us_email v) \<Longrightarrow> us_email v \<notin> py_lower ` us_email ` set us \<Longrightarrow>
    user_change dw us (us @ [v])"
| invited: "boss \<in> set us \<Longrightarrow> is_owner (us_tenant_id v) boss \<Longrightarrow> us_id v = dw_user_id dw \<Longrightarrow>
    valid_role (us_role v) \<Longrightarrow> normal_email (us_email v) \<Longrightarrow>
    us_email v \<notin> py_lower ` us_email ` set us \<Longrightarrow> user_change dw us (us @ [v])"
| promoted: "boss \<in> set us \<Longrightarrow> is_owner (us_tenant_id boss) boss \<Longrightarrow> us_id boss \<noteq> uid \<Longrightarrow>
    t \<in> set us \<Longrightarrow> us_id t = uid \<Longrightarrow> us_tenant_id t = us_tenant_id boss \<Longrightarrow> valid_role role \<Longrightarrow>
    user_change dw us (row_update (\<lambda>u. us_id u = uid) (\<lambda>u. u\<lparr>us_role := role\<rparr>) us)"
| removed: "boss \<in> set us \<Longrightarrow> is_owner (us_tenant_id boss) boss \<Longrightarrow> us_id boss \<noteq> uid \<Longrightarrow>
    t \<in> set us \<Longrightarrow> us_id t = uid \<Longrightarrow> us_tenant_id t = us_tenant_id boss \<Longrightarrow>
    user_change dw us (filter (\<lambda>u. us_id u \<noteq> uid) us)"

lemma user_change_refl [simp, intro]: "user_change dw us us"
  using user_change.edited [of "\<lambda>u. u" dw us "\<lambda>_. False"]
  by (simp add: same_account_def row_update_def)

lemma lower_char_idem [simp]: "lower_char (lower_char c) = lower_char c"
  by (simp add: lower_char_def Let_def)

lemma py_lower_idem [simp]: "py_lower (py_lower x) = py_lower x"
  by (simp add: py_lower_def)

lemma is_space_lower [simp]: "is_space (lower_char c) = is_space c"
  by (simp add: is_space_def lower_char_def Let_def)

lemma py_strip_lower: "py_strip (py_lower x) = py_lower (py_strip x)"
  by (simp add: py_strip_def py_lower_def dropWhile_map rev_map o_def)

lemma hd_dropWhile_not: "dropWhile P xs \<noteq> [] \<Longrightarrow> \<not> P (hd (dropWhile P xs))"
  by (rule hd_dropWhile)

lemma dropWhile_idem: "dropWhile P (dropWhile P xs) = dropWhile P xs"
  by (induction xs) auto

lemma dropWhile_rev_dropWhile:
  "dropWhile P xs = xs \<Longrightarrow> dropWhile P (rev (dropWhile P (rev xs))) = rev (dropWhile P (rev xs))"
proof -
  assume a: "dropWhile P xs = xs"
  let ?ys = "rev (dropWhile P (rev xs))"
  show ?thesis
  proof (cases ?ys)
    case (Cons y ys)
    have "xs = ?ys @ rev (takeWhile P (rev xs))"
      by (metis rev_append rev_rev_ident takeWhile_dropWhile_id)
    with Cons have "hd xs = y" "xs \<noteq> []" by (metis append_Cons list.sel(1), auto)
    with a have "\<not> P y" by (metis hd_dropWhile)
    with Cons show ?thesis by simp
  next
    case Nil
    show ?thesis unfolding Nil by simp
  qed
qed

lemma py_strip_idem [simp]: "py_strip (py_strip x) = py_strip x"
  unfolding py_strip_def
  by (simp add: dropWhile_rev_dropWhile dropWhile_idem)

lemma normalize_email_normal [simp]: "normal_email (normalize_email e)"
  by (simp add: normal_email_def normalize_email_def py_strip_lower)

lemma lower_normal: "normal_email e \<Longrightarrow> py_lower e = e"
  by (metis normal_email_def normalize_email_def py_lower_idem)

lemma one_or_none_None: "one_or_none xs = Inr None \<longleftrightarrow> xs = []"
  by (cases xs rule: one_or_none.cases) auto

lemma one_or_none_Some: "one_or_none xs = Inr (Some x) \<longleftrightarrow> xs = [x]"
  by (cases xs rule: one_or_none.cases) auto

lemma users_by_email_None:
  "one_or_none (users_by_email e s) = Inr None \<Longrightarrow> e \<notin> py_lower ` us_email ` set (users s)"
  by (auto simp: one_or_none_None users_by_email_def filter_empty_iff)

lemma get_current_user_InrD:
  "get_current_user cy now path token s = Inr u \<Longrightarrow> u \<in> set (users s) \<and> us_is_active u"
  by (auto simp: get_current_user_def user_by_id_def dest: row_find_SomeD split: option.splits if_splits sum.splits)

lemma require_owner: "require_role [''owner''] u = None \<longleftrightarrow> us_role u = ''owner''"
  by (simp add: require_role_def)

definition account_edit :: "user list \<Rightarrow> user list \<Rightarrow> bool" where
  "account_edit us us' \<longleftrightarrow> (\<exists>f p. (\<forall>u. same_account u (f u)) \<and> us' = row_update p f us)"

lemma account_edit_refl [simp]: "account_edit us us"
  unfolding account_edit_def
  by (intro exI [of _ "\<lambda>u. u"] exI [of _ "\<lambda>_. False"]) (simp add: same_account_def row_update_def)

lemma account_edit_update: "(\<And>u. same_account u (f u)) \<Longrightarrow> account_edit us (row_update p f us)"
  unfolding account_edit_def by blast

lemma account_edit_change: "account_edit us us' \<Longrightarrow> user_change dw us us'"
  unfolding account_edit_def by (blast intro: user_change.edited)

text \<open>One lemma per operation, then the endpoints.\<close>

lemma register_users:
  "user_change dw (users s) (users (snd (register cy dw email password full_name tenant_name s)))"
  by (auto simp: register_def Let_def issue_token_pair_def new_tenant_def
      intro!: user_change.founded dest: users_by_email_None split: sum.splits option.splits)

lemma login_users [simp]: "users (snd (login cy dw email password s)) = users s"
  by (auto simp: login_def issue_token_pair_def Let_def split: sum.splits option.splits)

lemma refresh_users [simp]: "users (snd (refresh_session cy dw token s)) = users s"
  by (auto simp: refresh_session_def issue_token_pair_def Let_def split: sum.splits option.splits)

lemma revoke_token_users [simp]: "users (snd (revoke_refresh_token cy now token s)) = users s"
  by (auto simp: revoke_refresh_token_def split: option.splits json.splits)

lemma same_account_rename [simp]: "same_account u (rename n u)"
  by (simp add: same_account_def rename_def split: option.split)

lemma update_profile_users:
  "account_edit (users s) (users (snd (update_profile cy dw uid name password current s)))"
proof -
  have "same_account u ((rename name u)\<lparr>us_password_hash := h, us_must_change_password := False\<rparr>)" for u h
    by (simp add: same_account_def rename_def split: option.split)
  then show ?thesis
    by (simp add: update_profile_def update_user_def Let_def account_edit_update split: option.splits)
qed

lemma set_password_users:
  "users (snd (set_password cy dw uid p current s)) = users (snd (update_profile cy dw uid None (Some p) current s))"
proof (cases "update_profile cy dw uid None (Some p) current s")
  case (Pair r s1)
  then show ?thesis
    by (cases r) (auto simp: set_password_def issue_token_pair_def Let_def)
qed

lemma invite_users:
  assumes "boss \<in> set (users s)" "is_owner tid boss" "valid_role role"
  shows "user_change dw (users s) (users (snd (invite_user cy dw tid email role s)))"
  using assms
  by (auto simp: invite_user_def Let_def intro!: user_change.invited dest: users_by_email_None
      split: sum.splits option.splits)

lemma tenant_user_SomeD:
  "tenant_user tid uid s = Some t \<Longrightarrow> t \<in> set (users s) \<and> us_id t = uid \<and> us_tenant_id t = tid"
  by (auto simp: tenant_user_def dest!: row_find_SomeD)

lemma update_role_users:
  assumes "boss \<in> set (users s)" "is_owner (us_tenant_id boss) boss" "valid_role role"
  shows "user_change dw (users s) (users (snd (update_user_role (us_tenant_id boss) uid role (us_id boss) s)))"
proof (cases "tenant_user (us_tenant_id boss) uid s")
  case (Some t)
  note t = tenant_user_SomeD [OF Some]
  show ?thesis
  proof (cases "us_id t = us_id boss")
    case False
    with t have "us_id boss \<noteq> uid" by auto
    with t assms have "user_change dw (users s)
        (row_update (\<lambda>u. us_id u = uid) (\<lambda>u. u\<lparr>us_role := role\<rparr>) (users s))"
      by (intro user_change.promoted [of boss _ uid t]) auto
    with Some False show ?thesis by (simp add: update_user_role_def update_user_def)
  qed (simp add: update_user_role_def Some)
qed (simp add: update_user_role_def)

lemma remove_users:
  assumes "boss \<in> set (users s)" "is_owner (us_tenant_id boss) boss"
  shows "user_change dw (users s) (users (snd (remove_user (us_tenant_id boss) uid (us_id boss) s)))"
proof (cases "tenant_user (us_tenant_id boss) uid s")
  case (Some t)
  note t = tenant_user_SomeD [OF Some]
  show ?thesis
  proof (cases "us_id t = us_id boss")
    case False
    with t have "us_id boss \<noteq> uid" by auto
    with t assms have "user_change dw (users s) (filter (\<lambda>u. us_id u \<noteq> uid) (users s))"
      by (intro user_change.removed [of boss _ uid t]) auto
    with Some False show ?thesis by (simp add: remove_user_def delete_user_def)
  qed (simp add: remove_user_def Some)
qed (simp add: remove_user_def)

lemma serve_users: "user_change dw (users s) (users (snd (serve cy dw req s)))"
proof -
  have owner: "is_owner (us_tenant_id u) u" if "require_role [''owner''] u = None" for u
    using that by (simp add: require_owner is_owner_def)
  show ?thesis
    by (cases req)
      (auto simp: endpoint_defs register_users set_password_users
        invite_users update_role_users remove_users owner update_profile_users [THEN account_edit_change]
        dest!: get_current_user_InrD split: sum.splits option.splits)
qed

text \<open>
  The invariant of the accounts: identifiers and addresses are unique, addresses are normalised,
  and every tenant that has users has exactly one owner.
\<close>

definition accounts_ok :: "uuid set \<Rightarrow> user list \<Rightarrow> bool" where
  "accounts_ok used us \<longleftrightarrow> distinct (map us_id us) \<and> distinct (map us_email us) \<and>
    (\<forall>e \<in> us_email ` set us. normal_email e) \<and> us_id ` set us \<subseteq> used \<and>
    us_tenant_id ` set us \<subseteq> used \<and> (\<forall>t \<in> us_tenant_id ` set us. row_count (is_owner t) us = 1)"

lemma row_count_one_unique:
  "row_count p xs = 1 \<Longrightarrow> x \<in> set xs \<Longrightarrow> y \<in> set xs \<Longrightarrow> p x \<Longrightarrow> p y \<Longrightarrow> x = y"
proof -
  assume a: "row_count p xs = 1" "x \<in> set xs" "y \<in> set xs" "p x" "p y"
  then obtain z where "filter p xs = [z]" by (auto simp: row_count_def length_Suc_conv)
  moreover have "x \<in> set (filter p xs)" "y \<in> set (filter p xs)" using a by simp_all
  ultimately show "x = y" by simp
qed

lemma accounts_ok_id:
  assumes "accounts_ok used us" "u \<in> set us" "v \<in> set us" "us_id u = us_id v"
  shows "u = v"
  using assms unfolding accounts_ok_def distinct_map by (blast dest: inj_onD)

lemma accounts_ok_owner:
  assumes "accounts_ok used us" "u \<in> set us" "v \<in> set us" "is_owner t u" "is_owner t v"
  shows "u = v"
proof (rule row_count_one_unique [OF _ assms(2,3,4,5)])
  show "row_count (is_owner t) us = 1"
    using assms(1,2,4) by (auto simp: accounts_ok_def is_owner_def)
qed

lemma row_count_cong_map:
  "(\<And>x. x \<in> set xs \<Longrightarrow> q (f x) = q x) \<Longrightarrow> row_count q (row_update p f xs) = row_count q xs"
  by (induction xs) auto

lemma row_count_filter_keep:
  "(\<And>x. x \<in> set xs \<Longrightarrow> q x \<Longrightarrow> keep x) \<Longrightarrow> row_count q (filter keep xs) = row_count q xs"
  by (induction xs) auto

lemma lower_emails: "accounts_ok used us \<Longrightarrow> py_lower ` us_email ` set us = us_email ` set us"
  by (auto simp: accounts_ok_def lower_normal image_iff)

lemma accounts_ok_same:
  assumes "map us_id us' = map us_id us" "map us_email us' = map us_email us"
    "map us_tenant_id us' = map us_tenant_id us"
    "\<And>t. row_count (is_owner t) us' = row_count (is_owner t) us" "used \<subseteq> used'"
  shows "accounts_ok used us \<Longrightarrow> accounts_ok used' us'"
proof -
  have sets: "us_id ` set us' = us_id ` set us" "us_email ` set us' = us_email ` set us"
      "us_tenant_id ` set us' = us_tenant_id ` set us"
    using assms(1-3) by (metis set_map)+
  assume "accounts_ok used us"
  then show ?thesis using assms(5) unfolding accounts_ok_def assms(1,2,4) sets by blast
qed

lemma accounts_ok_change:
  assumes "user_change dw us us'" "accounts_ok used us" "drawn dw \<inter> used = {}"
  shows "accounts_ok (used \<union> drawn dw) us'"
  using assms(1)
proof cases
  case (edited f p)
  have same: "us_id (f u) = us_id u" "us_tenant_id (f u) = us_tenant_id u" "us_email (f u) = us_email u"
      "is_owner t (f u) = is_owner t u" for u t
    using edited(2) [of u] by (simp_all add: same_account_def is_owner_def)
  have "row_count (is_owner t) us' = row_count (is_owner t) us" for t
    unfolding edited(1) by (rule row_count_cong_map) (simp add: same)
  moreover have "map us_id us' = map us_id us" "map us_email us' = map us_email us"
      "map us_tenant_id us' = map us_tenant_id us"
    unfolding edited(1) by (simp_all add: map_row_update same)
  ultimately show ?thesis by (intro accounts_ok_same [OF _ _ _ _ _ assms(2)]) auto
next
  case (founded v)
  have "row_count (is_owner t) us' = row_count (is_owner t) us + (if t = dw_tenant_id dw then 1 else 0)" for t
    by (simp add: founded(1) is_owner_def founded(3,4))
  moreover have "row_count (is_owner (dw_tenant_id dw)) us = 0"
    using assms(2,3) by (auto simp: row_count_def filter_empty_iff is_owner_def accounts_ok_def drawn_def)
  ultimately show ?thesis
    using assms(2,3) founded lower_emails [OF assms(2)]
    by (auto simp: accounts_ok_def drawn_def)
next
  case (invited boss v)
  have "row_count (is_owner t) us' = row_count (is_owner t) us" for t
    using invited(5) by (simp add: invited(1) is_owner_def valid_role_def) auto
  moreover have "us_tenant_id v = us_tenant_id boss" using invited(3) by (simp add: is_owner_def)
  ultimately show ?thesis
    using assms(2,3) invited lower_emails [OF assms(2)]
    by (auto simp: accounts_ok_def drawn_def)
next
  case (promoted boss uid t role)
  have no: "us_role u \<noteq> ''owner''" if "u \<in> set us" "us_id u = uid" for u
  proof
    assume "us_role u = ''owner''"
    moreover have "u = t" using accounts_ok_id [OF assms(2)] that promoted(5,6) by simp
    ultimately have "is_owner (us_tenant_id boss) u" using promoted(7) by (simp add: is_owner_def)
    with that promoted(2,3) accounts_ok_owner [OF assms(2)] have "u = boss" by blast
    with that(2) promoted(4) show False by simp
  qed
  let ?f = "\<lambda>u. u\<lparr>us_role := role\<rparr>"
  have "row_count (is_owner x) us' = row_count (is_owner x) us" for x
    unfolding promoted(1) row_count_def row_update_def filter_map length_map
    using no promoted(8)
    by (intro arg_cong [where f = length] filter_cong) (auto simp: is_owner_def valid_role_def)
  moreover have "map us_id us' = map us_id us" "map us_email us' = map us_email us"
      "map us_tenant_id us' = map us_tenant_id us"
    unfolding promoted(1) by (simp_all add: map_row_update)
  ultimately show ?thesis by (intro accounts_ok_same [OF _ _ _ _ _ assms(2)]) auto
next
  case (removed boss uid t)
  have keep: "us_id u \<noteq> uid" if "u \<in> set us" "is_owner x u" for u x
  proof
    assume u: "us_id u = uid"
    have "u = t" using accounts_ok_id [OF assms(2)] that u removed(5,6) by simp
    with that have "is_owner (us_tenant_id boss) u" using removed(7) by (simp add: is_owner_def)
    with that removed(2,3) accounts_ok_owner [OF assms(2)] have "u = boss" by blast
    with u removed(4) show False by simp
  qed
  have count: "row_count (is_owner x) us' = row_count (is_owner x) us" for x
    unfolding removed(1) by (rule row_count_filter_keep) (rule keep)
  have sub: "g ` set us' \<subseteq> g ` set us" "distinct (map g us) \<Longrightarrow> distinct (map g us')" for g :: "user \<Rightarrow> string"
    unfolding removed(1) by (rule image_mono, simp, rule distinct_map_filter)
  from assms(2) have ok: "distinct (map us_id us)" "distinct (map us_email us)"
      "\<forall>e \<in> us_email ` set us. normal_email e" "us_id ` set us \<subseteq> used" "us_tenant_id ` set us \<subseteq> used"
      "\<forall>t \<in> us_tenant_id ` set us. row_count (is_owner t) us = 1"
    unfolding accounts_ok_def by simp_all
  show ?thesis
    unfolding accounts_ok_def count
  proof (intro conjI)
    show "distinct (map us_id us')" by (rule sub(2) [OF ok(1)])
    show "distinct (map us_email us')" by (rule sub(2) [OF ok(2)])
    show "\<forall>e \<in> us_email ` set us'. normal_email e" using ok(3) subsetD [OF sub(1)] by blast
    show "us_id ` set us' \<subseteq> used \<union> drawn dw" by (rule le_supI1 [OF subset_trans [OF sub(1) ok(4)]])
    show "us_tenant_id ` set us' \<subseteq> used \<union> drawn dw" by (rule le_supI1 [OF subset_trans [OF sub(1) ok(5)]])
    show "\<forall>t \<in> us_tenant_id ` set us'. row_count (is_owner t) us = 1" using ok(6) subsetD [OF sub(1)] by blast
  qed
qed

section \<open>Invariants of the deployment\<close>

fun auth_inv :: "auth_state \<Rightarrow> bool" where
  "auth_inv (s, used) \<longleftrightarrow> accounts_ok used (users s) \<and>
    distinct (map rt_id (refresh_tokens s)) \<and> rt_id ` set (refresh_tokens s) \<subseteq> used"

text \<open>The row of a token is still there, and revoked.\<close>

fun spent :: "refresh_token \<Rightarrow> auth_state \<Rightarrow> bool" where
  "spent r0 (s, used) \<longleftrightarrow> (\<exists>r \<in> set (refresh_tokens s). kept r0 r \<and> rt_revoked_at r \<noteq> None)"

lemma auth_inv_serve:
  assumes "auth_inv (s, used)" "drawn dw \<inter> used = {}"
  shows "auth_inv (snd (serve cy dw req s), used \<union> drawn dw)"
proof -
  let ?ts = "refresh_tokens s" and ?ts' = "refresh_tokens (snd (serve cy dw req s))"
  have new: "dw_token_id dw \<in> drawn dw" by (simp add: drawn_def)
  have ok: "accounts_ok used (users s)" "distinct (map rt_id ?ts)" "set (map rt_id ?ts) \<subseteq> used"
    using assms(1) by simp_all
  have "distinct (map rt_id ?ts') \<and> set (map rt_id ?ts') \<subseteq> used \<union> drawn dw"
    using token_change_ids [OF serve_tokens [of dw s cy req]]
  proof
    assume e: "map rt_id ?ts' = map rt_id ?ts"
    show ?thesis unfolding e using ok by blast
  next
    assume e: "map rt_id ?ts' = map rt_id ?ts @ [dw_token_id dw]"
    have "dw_token_id dw \<notin> set (map rt_id ?ts)" using ok(3) assms(2) new by blast
    then show ?thesis unfolding e using ok(2,3) new by auto
  qed
  then show ?thesis using accounts_ok_change [OF serve_users ok(1) assms(2)] by simp
qed

lemma auth_inv_step: "auth_inv x \<Longrightarrow> auth_step cy x y \<Longrightarrow> auth_inv y"
  by (auto elim!: auth_stepE simp del: auth_inv.simps serve.simps intro: auth_inv_serve)

lemma spent_serve:
  assumes "spent r0 (s, used)"
  shows "spent r0 (snd (serve cy dw req s), used')"
proof -
  from assms obtain r where r: "r \<in> set (refresh_tokens s)" "kept r0 r" "rt_revoked_at r \<noteq> None" by auto
  then obtain r' where r': "r' \<in> set (refresh_tokens (snd (serve cy dw req s)))" "kept r r'"
    using token_change_row [OF serve_tokens] by blast
  have "kept r0 r'" by (rule kept_trans [OF r(2) r'(2)])
  moreover have "rt_revoked_at r' \<noteq> None" using r(3) r'(2) by (simp add: kept_def)
  ultimately show ?thesis using r'(1) by auto
qed

lemma spent_step: "spent r0 x \<Longrightarrow> auth_step cy x y \<Longrightarrow> spent r0 y"
  by (auto elim!: auth_stepE simp del: spent.simps serve.simps intro: spent_serve)

text \<open>A user that ever had a refresh token has a row in the table.\<close>

fun holds_token :: "uuid \<Rightarrow> auth_state \<Rightarrow> bool" where
  "holds_token uid (s, used) \<longleftrightarrow> (\<exists>r \<in> set (refresh_tokens s). rt_user_id r = uid)"

lemma holds_token_serve:
  assumes "holds_token uid (s, used)"
  shows "holds_token uid (snd (serve cy dw req s), used')"
proof -
  from assms obtain r where "r \<in> set (refresh_tokens s)" "rt_user_id r = uid" by auto
  with token_change_row [OF serve_tokens] show ?thesis unfolding holds_token.simps kept_def by metis
qed

lemma holds_token_step: "holds_token uid x \<Longrightarrow> auth_step cy x y \<Longrightarrow> holds_token uid y"
  by (auto elim!: auth_stepE simp del: holds_token.simps serve.simps intro: holds_token_serve)

interpretation token_holders: invariant_system "holds_token uid" "auth_step cy" "holds_token uid" for cy uid
  by unfold_locales (auto intro: holds_token_step)

interpretation auth: invariant_system "\<lambda>x. x = (empty_db, {})" "auth_step cy" auth_inv for cy
  by unfold_locales (auto simp: empty_db_def accounts_ok_def intro: auth_inv_step)

interpretation spent_tokens: invariant_system "spent r0" "auth_step cy" "spent r0" for cy r0
  by unfold_locales (auto intro: spent_step)

lemma spent_found:
  assumes "auth_inv (s, used)" "spent r0 (s, used)"
    and "[rt_user_id r0, rt_tenant_id r0, rt_id r0] = ids" "rt_token_hash r0 = cy_sha256 cy token"
  shows "\<exists>r. find_refresh_row cy token ids s = Some r \<and> rt_user_id r = rt_user_id r0 \<and> rt_revoked_at r \<noteq> None"
proof -
  obtain r where r: "r \<in> set (refresh_tokens s)" "kept r0 r" "rt_revoked_at r \<noteq> None"
    using assms(2) by auto
  then have r_ids: "[rt_user_id r, rt_tenant_id r, rt_id r] = ids" "rt_token_hash r = cy_sha256 cy token"
    using assms(3,4) by (auto simp: kept_def)
  then have "find_refresh_row cy token ids s \<noteq> None"
    using r(1) unfolding find_refresh_row_def row_find_None_iff by blast
  then obtain r' where r': "find_refresh_row cy token ids s = Some r'" by blast
  then have "r' \<in> set (refresh_tokens s)" "rt_id r' = rt_id r"
    using r_ids by (auto simp: find_refresh_row_def dest: row_find_SomeD)
  moreover have "inj_on rt_id (set (refresh_tokens s))" using assms(1) by (simp add: distinct_map)
  ultimately have "r' = r" using r(1) by (meson inj_onD)
  then show ?thesis using r r' by (simp add: kept_def)
qed

lemma revoked_all:
  "r \<in> set (refresh_tokens (revoke_refresh_tokens uid now s)) \<Longrightarrow> rt_user_id r = uid \<Longrightarrow> rt_revoked_at r \<noteq> None"
proof
  assume r: "r \<in> set (refresh_tokens (revoke_refresh_tokens uid now s))" "rt_user_id r = uid" "rt_revoked_at r = None"
  have "r \<in> set (row_update (\<lambda>r. rt_user_id r = uid \<and> rt_revoked_at r = None)
      (\<lambda>r. r\<lparr>rt_revoked_at := Some now\<rparr>) (refresh_tokens s))"
    using r(1) by (simp add: revoke_refresh_tokens_def)
  from row_update_memD [OF this] show False
  proof
    assume "\<exists>q \<in> set (refresh_tokens s). (rt_user_id q = uid \<and> rt_revoked_at q = None) \<and> r = q\<lparr>rt_revoked_at := Some now\<rparr>"
    then obtain q where "r = q\<lparr>rt_revoked_at := Some now\<rparr>" by blast
    with r(3) show False by simp
  next
    assume "r \<in> set (refresh_tokens s) \<and> \<not> (rt_user_id r = uid \<and> rt_revoked_at r = None)"
    with r show False by simp
  qed
qed

lemma refresh_session_InrD:
  assumes "refresh_session cy dw token s = (Inr se, s1)"
  shows "\<exists>ids row u tp s0. refresh_claims_of cy (dw_now dw) token = Inr ids \<and>
    find_refresh_row cy token ids s = Some row \<and> rt_revoked_at row = None \<and> dw_now dw < rt_expires_at row \<and>
    user_by_id (rt_user_id row) s = Some u \<and> us_is_active u \<and>
    issue_token_pair cy dw u (update_refresh_row (rt_id row) (\<lambda>r. r\<lparr>rt_revoked_at := Some (dw_now dw)\<rparr>) s) = (tp, s0) \<and>
    se = \<lparr>se_access_token = tp_access_token tp, se_refresh_token = tp_refresh_token tp, se_user = None\<rparr> \<and>
    s1 = update_refresh_row (rt_id row) (\<lambda>r. r\<lparr>rt_replaced_by_id := Some (rt_id (tp_refresh_row tp))\<rparr>) s0"
  using assms by (auto simp: refresh_session_def split: sum.splits option.splits if_splits prod.splits)

lemma refresh_session_spends:
  assumes "refresh_session cy dw token s = (Inr se, s1)"
  shows "\<exists>ids row. refresh_claims_of cy (dw_now dw) token = Inr ids \<and> find_refresh_row cy token ids s = Some row \<and>
    spent row (s1, used)"
proof -
  from refresh_session_InrD [OF assms] obtain ids row u tp s0
    where *: "refresh_claims_of cy (dw_now dw) token = Inr ids" "find_refresh_row cy token ids s = Some row"
      "issue_token_pair cy dw u (update_refresh_row (rt_id row) (\<lambda>r. r\<lparr>rt_revoked_at := Some (dw_now dw)\<rparr>) s) = (tp, s0)"
      "s1 = update_refresh_row (rt_id row) (\<lambda>r. r\<lparr>rt_replaced_by_id := Some (rt_id (tp_refresh_row tp))\<rparr>) s0"
    by blast
  have "row \<in> set (refresh_tokens s)" using *(2) by (auto simp: find_refresh_row_def dest: row_find_SomeD)
  then have "row\<lparr>rt_revoked_at := Some (dw_now dw)\<rparr> \<in>
      set (row_update (\<lambda>r. rt_id r = rt_id row) (\<lambda>r. r\<lparr>rt_revoked_at := Some (dw_now dw)\<rparr>) (refresh_tokens s))"
    by (auto simp: row_update_def image_iff)
  then have "row\<lparr>rt_revoked_at := Some (dw_now dw)\<rparr> \<in> set (refresh_tokens s0)"
    using refresh_tokens_issue [OF *(3)] by auto
  then have "row\<lparr>rt_revoked_at := Some (dw_now dw), rt_replaced_by_id := Some (rt_id (tp_refresh_row tp))\<rparr> \<in>
      set (refresh_tokens s1)"
    unfolding *(4) refresh_tokens_update_row row_update_def set_map by (rule rev_image_eqI) simp
  then have "spent row (s1, used)"
    unfolding spent.simps by (rule rev_bexI) (simp add: kept_def)
  with *(1,2) show ?thesis by blast
qed

section \<open>A concrete codec\<close>

text \<open>
  Tokens in clear: the expiry and the claims, one escaped text after the other. It satisfies the
  laws the code relies on.
\<close>

fun escape :: "string \<Rightarrow> string" where
  "escape [] = ''.''"
| "escape (c # x) = CHR ''x'' # c # escape x"

fun unescape :: "string \<Rightarrow> (string \<times> string) option" where
  "unescape [] = None"
| "unescape (m # x) =
    (if m = CHR ''.'' then Some ([], x)
     else case x of [] \<Rightarrow> None | c # y \<Rightarrow> map_option (\<lambda>(a, r). (c # a, r)) (unescape y))"

lemma unescape_escape [simp]: "unescape (escape x @ r) = Some (x, r)"
  by (induction x) auto

fun unescape_all :: "nat \<Rightarrow> string \<Rightarrow> string list" where
  "unescape_all 0 x = []"
| "unescape_all (Suc n) x = (case unescape x of None \<Rightarrow> [] | Some (a, r) \<Rightarrow> a # unescape_all n r)"

lemma unescape_all_escape: "length xs \<le> n \<Longrightarrow> unescape_all n (concat (map escape xs)) = xs"
proof (induction xs arbitrary: n)
  case Nil
  then show ?case by (cases n) auto
next
  case (Cons x xs)
  then show ?case by (cases n) auto
qed

lemma length_escape_all: "length xs \<le> length (concat (map escape xs))"
proof (induction xs)
  case (Cons x xs)
  have "1 \<le> length (escape x)" by (cases x) auto
  with Cons show ?case by simp
qed simp

fun flatten :: "(string \<times> string) list \<Rightarrow> string list" where
  "flatten [] = []"
| "flatten ((k, v) # r) = k # v # flatten r"

fun pairs :: "string list \<Rightarrow> (string \<times> string) list" where
  "pairs (k # v # r) = (k, v) # pairs r"
| "pairs _ = []"

lemma pairs_flatten [simp]: "pairs (flatten c) = c"
  by (induction c rule: flatten.induct) auto

text \<open>An integer as a sign and its bits, the lowest first.\<close>

function bits :: "int \<Rightarrow> string" where
  "bits i = (if i \<le> 0 then [] else (if even i then CHR ''0'' else CHR ''1'') # bits (i div 2))"
  by pat_completeness auto
termination by (relation "measure nat") auto

declare bits.simps [simp del]

fun unbits :: "string \<Rightarrow> int" where
  "unbits [] = 0"
| "unbits (c # x) = (if c = CHR ''1'' then 1 else 0) + 2 * unbits x"

lemma unbits_bits: "0 \<le> i \<Longrightarrow> unbits (bits i) = i"
  by (induction i rule: bits.induct) (subst bits.simps, auto, presburger)

definition write_int :: "int \<Rightarrow> string" where
  "write_int i = (if i < 0 then CHR ''-'' # bits (- i) else CHR ''+'' # bits i)"

fun read_int :: "string \<Rightarrow> int" where
  "read_int [] = 0"
| "read_int (c # x) = (if c = CHR ''-'' then - unbits x else unbits x)"

lemma read_write_int [simp]: "read_int (write_int i) = i"
  by (simp add: write_int_def unbits_bits)

definition plain_encode :: "(string \<times> string) list \<Rightarrow> instant \<Rightarrow> string" where
  "plain_encode claims expiry = concat (map escape (write_int expiry # flatten claims))"

definition plain_decode :: "instant \<Rightarrow> string \<Rightarrow> (string, json) dict option" where
  "plain_decode now token =
    (case unescape_all (length token) token of
      [] \<Rightarrow> None
    | e # xs \<Rightarrow>
       if now div 1000000 \<le> read_int e div 1000000
       then Some (map (\<lambda>(k, v). (k, JStr v)) (pairs xs)) else None)"

definition plain_crypto :: crypto where
  "plain_crypto = \<lparr>cy_encode = plain_encode, cy_decode = plain_decode, cy_sha256 = (\<lambda>x. x),
    cy_hash = (\<lambda>salt p. salt @ p), cy_verify = (\<lambda>p h. sublist p h), cy_access_minutes = 30,
    cy_refresh_days = 7\<rparr>"

lemma plain_decode_encode:
  "plain_decode now (plain_encode claims expiry) =
    (if now div 1000000 \<le> expiry div 1000000 then Some (map (\<lambda>(k, v). (k, JStr v)) claims) else None)"
  unfolding plain_decode_def
  by (subst plain_encode_def, subst unescape_all_escape)
    (simp_all only: plain_encode_def length_escape_all list.case read_write_int pairs_flatten)

lemma token_laws_plain [simp]: "token_laws plain_crypto"
  by (simp add: token_laws_def plain_crypto_def plain_decode_encode dget_def map_of_map)

definition sample_draw :: "instant \<Rightarrow> nat \<Rightarrow> draw" where
  "sample_draw now n = \<lparr>dw_now = now, dw_salt = [],
    dw_tenant_id = ''00000000-0000-4000-8000-00000000000'' @ show_nat (3 * n),
    dw_user_id = ''00000000-0000-4000-8000-00000000000'' @ show_nat (3 * n + 1),
    dw_token_id = ''00000000-0000-4000-8000-00000000000'' @ show_nat (3 * n + 2), dw_uuid = ''0123456789abcdef''\<rparr>"

text \<open>A deployment after one registration.\<close>

definition founding :: auth_request where
  "founding = Register '' Ada@Example.org '' ''correct horse'' ''Ada'' ''Ada Ltd''"

definition founded_db :: db where
  "founded_db = snd (serve plain_crypto (sample_draw 5 0) founding empty_db)"

definition founded_used :: "uuid set" where
  "founded_used = {} \<union> drawn (sample_draw 5 0)"

lemma founded_step: "auth_step plain_crypto (empty_db, {}) (founded_db, founded_used)"
  unfolding founded_db_def founded_used_def by (rule auth_step) simp_all

lemma founded_reachable: "reachable (\<lambda>x. x = (empty_db, {})) (auth_step plain_crypto) (founded_db, founded_used)"
  by (rule reachable.more [where s = "(empty_db, {})"]) (simp_all add: reachable.base founded_step)

lemma founded_inv: "auth_inv (founded_db, founded_used)"
  by (rule auth.reachable_inv [OF founded_reachable])

lemma founded_fresh: "drawn (sample_draw t 1) \<inter> founded_used = {}"
  by (simp add: drawn_def founded_used_def sample_draw_def show_nat.simps digit_char_def)

section \<open>Sessions\<close>

lemma get_current_user_access:
  assumes "token_laws cy" "t div 1000000 \<le> (now + minutes (cy_access_minutes cy)) div 1000000"
    and "parse_uuid (us_id u) = Some (us_id u)"
  shows "get_current_user cy t path (create_access_token cy now (us_id u) tid role) s =
    (case user_by_id (us_id u) s of
      None \<Rightarrow> Inl (HTTPException 401 ''User not found'')
    | Some u \<Rightarrow>
       if \<not> us_is_active u then Inl (HTTPException 401 ''User is deactivated'')
       else if us_must_change_password u \<and> path \<notin> {''/api/v1/auth/me'', ''/api/v1/auth/set-password''}
       then Inl (HTTPException 403 ''Password reset required before using this account'') else Inr u)"
proof -
  obtain p where p: "cy_decode cy t (create_access_token cy now (us_id u) tid role) = Some p"
      "\<forall>k. k \<noteq> ''exp'' \<longrightarrow> dget k p = map_option JStr (map_of (access_claims (us_id u) tid role) k)"
    using assms(1,2) unfolding token_laws_def create_access_token_def by (smt (verit))
  have "jget ''type'' p = JStr ''access''" "jget ''sub'' p = JStr (us_id u)"
    using p(2) by (simp_all add: jget_def access_claims_def)
  then show ?thesis using p(1) assms(3) by (simp add: get_current_user_def)
qed

lemma refresh_claims_issued:
  assumes "token_laws cy" "t div 1000000 \<le> get_refresh_token_expiry cy now div 1000000"
    and "parse_uuid uid = Some uid" "parse_uuid tid = Some tid" "parse_uuid jti = Some jti"
  shows "refresh_claims_of cy t (create_refresh_token_with_id cy now uid tid jti) = Inr [uid, tid, jti]"
proof -
  obtain p where p: "cy_decode cy t (create_refresh_token_with_id cy now uid tid jti) = Some p"
      "\<forall>k. k \<noteq> ''exp'' \<longrightarrow> dget k p = map_option JStr (map_of (refresh_claims uid tid jti) k)"
    using assms(1,2) unfolding token_laws_def create_refresh_token_with_id_def by (smt (verit))
  have "jget ''type'' p = JStr ''refresh''" "jget ''sub'' p = JStr uid" "jget ''tenant_id'' p = JStr tid"
      "jget ''jti'' p = JStr jti"
    using p(2) by (simp_all add: jget_def refresh_claims_def)
  then show ?thesis using p(1) assms(3-5) by (simp add: refresh_claims_of_def)
qed

lemma login_InrD:
  assumes "login cy dw email password s = (Inr se, s1)"
  shows "\<exists>u. u \<in> set (users s) \<and> us_is_active u \<and> verify_password cy password (us_password_hash u) \<and>
    se_user se = Some u \<and>
    se_access_token se = create_access_token cy (dw_now dw) (us_id u) (us_tenant_id u) (us_role u) \<and>
    se_refresh_token se =
      create_refresh_token_with_id cy (dw_now dw) (us_id u) (us_tenant_id u) (dw_token_id dw) \<and>
    s1 = s\<lparr>refresh_tokens := refresh_tokens s @ [\<lparr>rt_id = dw_token_id dw, rt_user_id = us_id u,
      rt_tenant_id = us_tenant_id u, rt_token_hash = cy_sha256 cy (se_refresh_token se),
      rt_expires_at = get_refresh_token_expiry cy (dw_now dw), rt_revoked_at = None,
      rt_replaced_by_id = None, rt_created_at = dw_now dw\<rparr>]\<rparr>"
proof -
  have mem: "u \<in> set (users s)" if "one_or_none (users_by_email e s) = Inr (Some u)" for u e
  proof -
    have "u \<in> set (users_by_email e s)" using that by (simp add: one_or_none_Some)
    then show ?thesis by (simp add: users_by_email_def)
  qed
  show ?thesis
    using assms mem
    by (auto simp: login_def issue_token_pair_def Let_def split: sum.splits option.splits if_splits)
qed

text \<open>The row of a token just issued is the one its claims find.\<close>

lemma find_issued_row:
  assumes "rt_id row \<notin> rt_id ` set (refresh_tokens s)" "rt_token_hash row = cy_sha256 cy token"
  shows "find_refresh_row cy token [rt_user_id row, rt_tenant_id row, rt_id row]
    (s\<lparr>refresh_tokens := refresh_tokens s @ [row]\<rparr>) = Some row"
proof -
  have "row_find (\<lambda>r. [rt_user_id r, rt_tenant_id r, rt_id r] = [rt_user_id row, rt_tenant_id row, rt_id row] \<and>
      rt_token_hash r = cy_sha256 cy token) (refresh_tokens s) = None"
    using assms(1) unfolding row_find_None_iff by (metis image_eqI list.inject)
  then show ?thesis using assms(2) by (simp add: find_refresh_row_def row_find_append)
qed

lemma access_token_no_refresh:
  assumes "token_laws cy"
  shows "refresh_claims_of cy t (create_access_token cy now uid tid role) = Inl invalid_refresh"
proof (cases "t div 1000000 \<le> (now + minutes (cy_access_minutes cy)) div 1000000")
  case True
  then obtain p where p: "cy_decode cy t (create_access_token cy now uid tid role) = Some p"
      "\<forall>k. k \<noteq> ''exp'' \<longrightarrow> dget k p = map_option JStr (map_of (access_claims uid tid role) k)"
    using assms unfolding token_laws_def create_access_token_def by (smt (verit))
  then have "jget ''type'' p = JStr ''access''" by (simp add: jget_def access_claims_def)
  then show ?thesis using p(1) by (simp add: refresh_claims_of_def)
next
  case False
  then have "cy_decode cy t (create_access_token cy now uid tid role) = None"
    using assms unfolding token_laws_def create_access_token_def by (smt (verit))
  then show ?thesis by (simp add: refresh_claims_of_def)
qed

lemma refresh_token_no_access:
  assumes "token_laws cy"
  shows "get_current_user cy t path (create_refresh_token_with_id cy now uid tid jti) s =
    Inl (HTTPException 401 ''Invalid or expired token'')"
proof (cases "t div 1000000 \<le> get_refresh_token_expiry cy now div 1000000")
  case True
  then obtain p where p: "cy_decode cy t (create_refresh_token_with_id cy now uid tid jti) = Some p"
      "\<forall>k. k \<noteq> ''exp'' \<longrightarrow> dget k p = map_option JStr (map_of (refresh_claims uid tid jti) k)"
    using assms unfolding token_laws_def create_refresh_token_with_id_def by (smt (verit))
  then have "jget ''type'' p = JStr ''refresh''" by (simp add: jget_def refresh_claims_def)
  then show ?thesis using p(1) by (simp add: get_current_user_def)
next
  case False
  then have "cy_decode cy t (create_refresh_token_with_id cy now uid tid jti) = None"
    using assms unfolding token_laws_def create_refresh_token_with_id_def by (smt (verit))
  then show ?thesis by (simp add: get_current_user_def)
qed

section \<open>Properties\<close>

text \<open>
  C14: a refresh token works once. After a refresh was granted, whatever requests are served in
  between, presenting the same token again is answered 401: as long as it has not expired, as a reuse,
  and every refresh token of its user is revoked; once it has expired, as an invalid token, and
  nothing changes. Assumed of the token library: decoding depends on the time only by the expiry, so at
  another time the token decodes to the same claims or not at all.
\<close>

theorem refresh_token_single_use:
  assumes "auth_inv (s, used)" "drawn dw \<inter> used = {}"
    and "serve cy dw (Refresh token) s = (Inr answer1, s1)"
    and "(auth_step cy)\<^sup>*\<^sup>* (s1, used \<union> drawn dw) (s2, used2)"
    and "cy_decode cy (dw_now dw2) token \<in> {None, cy_decode cy (dw_now dw) token}"
  shows "\<exists>uid rest. refresh_claims_of cy (dw_now dw) token = Inr (uid # rest) \<and>
    (if cy_decode cy (dw_now dw2) token = None then serve cy dw2 (Refresh token) s2 = (Inl invalid_refresh, s2)
     else \<exists>s3. serve cy dw2 (Refresh token) s2 = (Inl reuse_detected, s3) \<and>
       list_all (\<lambda>r. rt_user_id r = uid \<longrightarrow> rt_revoked_at r \<noteq> None) (refresh_tokens s3))"
proof -
  have t: "token \<noteq> []" and "\<exists>se. refresh_session cy dw token s = (Inr se, s1)"
    using assms(3) by (auto split: if_splits elim: answer.elims)
  then obtain ids row where row: "refresh_claims_of cy (dw_now dw) token = Inr ids"
      "find_refresh_row cy token ids s = Some row" "spent row (s1, used \<union> drawn dw)"
    using refresh_session_spends by blast
  have ids: "[rt_user_id row, rt_tenant_id row, rt_id row] = ids" "rt_token_hash row = cy_sha256 cy token"
    using row(2) by (auto simp: find_refresh_row_def dest: row_find_SomeD)
  have "auth_inv (s1, used \<union> drawn dw)"
    using auth_inv_serve [OF assms(1,2), of cy "Refresh token"] by (simp only: assms(3) snd_conv)
  then have "auth_inv (s2, used2)" by (rule auth.rtranclp_inv [OF assms(4)])
  moreover have "spent row (s2, used2)" by (rule spent_tokens.rtranclp_inv [OF assms(4) row(3)])
  ultimately obtain r where r: "find_refresh_row cy token ids s2 = Some r" "rt_user_id r = rt_user_id row"
      "rt_revoked_at r \<noteq> None"
    using spent_found [OF _ _ ids] by blast
  let ?s3 = "revoke_refresh_tokens (rt_user_id row) (dw_now dw2) s2"
  have "serve cy dw2 (Refresh token) s2 = (Inl reuse_detected, ?s3)" if "cy_decode cy (dw_now dw2) token \<noteq> None"
  proof -
    from that assms(5) have "cy_decode cy (dw_now dw2) token = cy_decode cy (dw_now dw) token" by auto
    with row(1) have "refresh_claims_of cy (dw_now dw2) token = Inr ids" by (simp add: refresh_claims_of_def)
    then show ?thesis using t r by (simp add: refresh_session_def)
  qed
  moreover have "serve cy dw2 (Refresh token) s2 = (Inl invalid_refresh, s2)" if "cy_decode cy (dw_now dw2) token = None"
    using t that by (simp add: refresh_session_def refresh_claims_of_def)
  moreover have "list_all (\<lambda>r. rt_user_id r = rt_user_id row \<longrightarrow> rt_revoked_at r \<noteq> None) (refresh_tokens ?s3)"
    using revoked_all by (simp add: list_all_iff)
  moreover have "refresh_claims_of cy (dw_now dw) token = Inr (rt_user_id row # tl ids)"
    using row(1) ids(1) by auto
  ultimately show ?thesis by (intro exI [of _ "rt_user_id row"] exI [of _ "tl ids"]) auto
qed

definition founded_token :: string where
  "founded_token = create_refresh_token_with_id plain_crypto 5 (dw_user_id (sample_draw 5 0))
    (dw_tenant_id (sample_draw 5 0)) (dw_token_id (sample_draw 5 0))"

theorem refresh_token_single_use_witness:
  "fst (serve plain_crypto (sample_draw 7 2) (Refresh founded_token)
    (snd (serve plain_crypto (sample_draw 6 1) (Refresh founded_token) founded_db))) = Inl reuse_detected"
proof -
  let ?r = "serve plain_crypto (sample_draw 6 1) (Refresh founded_token) founded_db"
  have "\<not> isl (fst ?r)" by code_simp
  then obtain a s1 where r: "?r = (Inr a, s1)" by (metis isl_def prod.collapse sum.collapse(2))
  have c: "cy_decode plain_crypto (dw_now (sample_draw 7 2)) founded_token =
      cy_decode plain_crypto (dw_now (sample_draw 6 1)) founded_token" by code_simp
  have fresh: "cy_decode plain_crypto (dw_now (sample_draw 7 2)) founded_token \<noteq> None" by code_simp
  from c have "cy_decode plain_crypto (dw_now (sample_draw 7 2)) founded_token \<in>
      {None, cy_decode plain_crypto (dw_now (sample_draw 6 1)) founded_token}" by simp
  from refresh_token_single_use [OF founded_inv founded_fresh r rtranclp.rtrancl_refl this] fresh
  obtain s3 where "serve plain_crypto (sample_draw 7 2) (Refresh founded_token) s1 = (Inl reuse_detected, s3)"
    by (auto split: if_splits)
  then show ?thesis by (simp only: r snd_conv fst_conv)
qed

text \<open>
  C15: from the empty database, whatever requests are served, e-mail addresses stay unique and
  normalised (so that looking a user up by address never meets several rows), and every tenant
  that has users has exactly one owner.
\<close>

theorem accounts_stay_consistent:
  assumes "reachable (\<lambda>x. x = (empty_db, {})) (auth_step cy) (s, used)"
  shows "distinct (map us_email (users s)) \<and> list_all (\<lambda>u. normal_email (us_email u)) (users s) \<and>
    list_all (\<lambda>u. row_count (is_owner (us_tenant_id u)) (users s) = 1) (users s) \<and>
    one_or_none (users_by_email email s) = Inr (row_find (\<lambda>u. us_email u = email) (users s))"
proof -
  from auth.reachable_inv [OF assms] have ok: "accounts_ok used (users s)" by simp
  have one: "one_or_none (filter (\<lambda>u. us_email u = email) us) = Inr (row_find (\<lambda>u. us_email u = email) us)"
    if "distinct (map us_email us)" for us
  proof (cases "row_find (\<lambda>u. us_email u = email) us")
    case None
    then have "filter (\<lambda>u. us_email u = email) us = []" by (simp add: row_find_None_iff filter_empty_iff)
    then show ?thesis using None by simp
  next
    case (Some u)
    with that have "filter (\<lambda>u. us_email u = email) us = [u]"
      by (induction us) (auto simp: filter_empty_iff image_iff split: if_splits)
    with Some show ?thesis by simp
  qed
  have "users_by_email email s = filter (\<lambda>u. us_email u = email) (users s)"
    unfolding users_by_email_def
    by (rule filter_cong) (use ok lower_normal in \<open>auto simp: accounts_ok_def\<close>)
  with one [of "users s"] ok
  have "one_or_none (users_by_email email s) = Inr (row_find (\<lambda>u. us_email u = email) (users s))"
    by (simp add: accounts_ok_def)
  moreover have "list_all (\<lambda>u. row_count (is_owner (us_tenant_id u)) (users s) = 1) (users s)"
      "list_all (\<lambda>u. normal_email (us_email u)) (users s)"
    using ok unfolding accounts_ok_def list_all_iff by blast+
  moreover have "distinct (map us_email (users s))" using ok unfolding accounts_ok_def by blast
  ultimately show ?thesis by blast
qed

theorem accounts_stay_consistent_witness:
  "length (users founded_db) = 1 \<and> map us_email (users founded_db) = [''ada@example.org''] \<and>
   one_or_none (users_by_email ''ada@example.org'' founded_db) =
     Inr (row_find (\<lambda>u. us_email u = ''ada@example.org'') (users founded_db))"
proof -
  have "length (users founded_db) = 1" by code_simp
  moreover have "map us_email (users founded_db) = [''ada@example.org'']" by code_simp
  ultimately show ?thesis using accounts_stay_consistent [OF founded_reachable] by blast
qed

text \<open>
  A session that starts works. When a login is granted, its access token authenticates the
  same user until its expiry, its refresh token is accepted until the expiry of its row, and
  neither token is accepted in the place of the other.
\<close>

theorem session_tokens_work:
  assumes "token_laws cy" "auth_inv (s, used)" "drawn dw \<inter> used = {}"
    and "login cy dw email password s = (Inr se, s1)"
    and "list_all (\<lambda>u. parse_uuid (us_id u) = Some (us_id u) \<and>
      parse_uuid (us_tenant_id u) = Some (us_tenant_id u)) (users s)"
    and "parse_uuid (dw_token_id dw) = Some (dw_token_id dw)"
    and "t div 1000000 \<le> (dw_now dw + minutes (cy_access_minutes cy)) div 1000000"
    and "dw_now dw2 < get_refresh_token_expiry cy (dw_now dw)"
  shows "\<exists>u. se_user se = Some u \<and>
    get_current_user cy t ''/api/v1/auth/me'' (se_access_token se) s1 = Inr u \<and>
    (\<exists>se2 s2. refresh_session cy dw2 (se_refresh_token se) s1 = (Inr se2, s2)) \<and>
    refresh_session cy dw2 (se_access_token se) s1 = (Inl invalid_refresh, s1) \<and>
    get_current_user cy t path (se_refresh_token se) s1 = Inl (HTTPException 401 ''Invalid or expired token'')"
proof -
  from login_InrD [OF assms(4)] obtain u where u: "u \<in> set (users s)" "us_is_active u" "se_user se = Some u"
      "se_access_token se = create_access_token cy (dw_now dw) (us_id u) (us_tenant_id u) (us_role u)"
      "se_refresh_token se = create_refresh_token_with_id cy (dw_now dw) (us_id u) (us_tenant_id u) (dw_token_id dw)"
      and s1: "s1 = s\<lparr>refresh_tokens := refresh_tokens s @ [\<lparr>rt_id = dw_token_id dw, rt_user_id = us_id u,
        rt_tenant_id = us_tenant_id u, rt_token_hash = cy_sha256 cy (se_refresh_token se),
        rt_expires_at = get_refresh_token_expiry cy (dw_now dw), rt_revoked_at = None,
        rt_replaced_by_id = None, rt_created_at = dw_now dw\<rparr>]\<rparr>" (is "_ = s\<lparr>refresh_tokens := _ @ [?row]\<rparr>")
    by blast
  have uuids: "parse_uuid (us_id u) = Some (us_id u)" "parse_uuid (us_tenant_id u) = Some (us_tenant_id u)"
    using assms(5) u(1) by (auto simp: list_all_iff)
  have "distinct (map us_id (users s))" using assms(2) by (simp add: accounts_ok_def)
  then have byid: "user_by_id (us_id u) s1 = Some u"
    using row_find_unique [of us_id "users s" u] u(1) by (simp add: user_by_id_def s1)
  have "rt_id ?row \<notin> rt_id ` set (refresh_tokens s)"
    using assms(2,3) by (auto simp: drawn_def)
  then have found: "find_refresh_row cy (se_refresh_token se) [us_id u, us_tenant_id u, dw_token_id dw] s1 = Some ?row"
    using find_issued_row [of ?row s cy "se_refresh_token se"] by (simp add: s1)
  have "dw_now dw2 div 1000000 \<le> get_refresh_token_expiry cy (dw_now dw) div 1000000"
    using assms(8) by (simp add: zdiv_mono1)
  from refresh_claims_issued [OF assms(1) this uuids assms(6)]
  have claims: "refresh_claims_of cy (dw_now dw2) (se_refresh_token se) = Inr [us_id u, us_tenant_id u, dw_token_id dw]"
    by (simp add: u(5))
  have "\<exists>se2 s2. refresh_session cy dw2 (se_refresh_token se) s1 = (Inr se2, s2)"
    using assms(8) u(2) byid by (simp add: refresh_session_def claims found split: prod.split)
  moreover have "get_current_user cy t ''/api/v1/auth/me'' (se_access_token se) s1 = Inr u"
    unfolding u(4) get_current_user_access [OF assms(1,7) uuids(1)] using byid u(2) by simp
  moreover have "refresh_session cy dw2 (se_access_token se) s1 = (Inl invalid_refresh, s1)"
    by (simp add: refresh_session_def u(4) access_token_no_refresh [OF assms(1)])
  ultimately show ?thesis using u(3,5) refresh_token_no_access [OF assms(1)] by auto
qed

theorem session_tokens_work_witness:
  "\<exists>se s1 u. login plain_crypto (sample_draw 6 1) ''ada@example.org'' ''correct horse'' founded_db = (Inr se, s1) \<and>
    se_user se = Some u \<and> get_current_user plain_crypto 1800000000 ''/api/v1/auth/me'' (se_access_token se) s1 = Inr u \<and>
    fst (refresh_session plain_crypto (sample_draw 600000000000 2) (se_access_token se) s1) = Inl invalid_refresh"
proof -
  let ?r = "login plain_crypto (sample_draw 6 1) ''ada@example.org'' ''correct horse'' founded_db"
  have "\<not> isl (fst ?r)" by code_simp
  then obtain se s1 where r: "?r = (Inr se, s1)" by (metis isl_def prod.collapse sum.collapse(2))
  have ids: "list_all (\<lambda>u. parse_uuid (us_id u) = Some (us_id u) \<and>
      parse_uuid (us_tenant_id u) = Some (us_tenant_id u)) (users founded_db)" by code_simp
  have tok: "parse_uuid (dw_token_id (sample_draw 6 1)) = Some (dw_token_id (sample_draw 6 1))" by code_simp
  have t1: "(1800000000::int) div 1000000 \<le>
      (dw_now (sample_draw 6 1) + minutes (cy_access_minutes plain_crypto)) div 1000000" by code_simp
  have t2: "dw_now (sample_draw 600000000000 2) < get_refresh_token_expiry plain_crypto (dw_now (sample_draw 6 1))"
    by code_simp
  show ?thesis
    using session_tokens_work [OF token_laws_plain founded_inv founded_fresh r ids tok t1 t2] r
    by (metis fst_conv)
qed

text \<open>
  A user who has logged in cannot be removed any more. Whatever requests are served after the
  login, the request of an owner to remove the user is refused and changes nothing: the row of
  the refresh token is never deleted, and it refers to the user.
\<close>

theorem logged_in_user_not_removable:
  assumes "serve cy dw (Login email password) s = (Inr (Session se), s1)" "se_user se = Some u"
    and "(auth_step cy)\<^sup>*\<^sup>* (s1, used) (s2, used2)"
  shows "\<exists>err. serve cy dw2 (RemoveUser token (us_id u)) s2 = (Inl err, s2)"
proof -
  have "\<exists>se'. login cy dw email password s = (Inr se', s1) \<and> se' = se"
    using assms(1) by (cases "login cy dw email password s"; cases "fst (login cy dw email password s)") auto
  with login_InrD assms(2) have "holds_token (us_id u) (s1, used)" by fastforce
  then have "holds_token (us_id u) (s2, used2)" by (rule token_holders.rtranclp_inv [OF assms(3)])
  then have "user_referenced (us_id u) s2" by (auto simp: user_referenced_def list_ex_iff)
  then have "\<exists>err. remove_user tid (us_id u) cid s2 = (Inl err, s2)" for tid cid
    by (simp add: remove_user_def split: option.split)
  then have "\<exists>err. answer f (remove_user tid (us_id u) cid s2) = (Inl err, s2)" for f tid cid
    by (metis answer.simps(1))
  then show ?thesis
    by (auto simp: endpoint_defs split: sum.split option.split)
qed

text \<open>Ada invites Bob, who logs in with his temporary password.\<close>

definition ada_token :: string where
  "ada_token = create_access_token plain_crypto 5 (dw_user_id (sample_draw 5 0))
    (dw_tenant_id (sample_draw 5 0)) ''owner''"

definition invited_db :: db where
  "invited_db = snd (serve plain_crypto (sample_draw 6 1) (Invite ada_token ''bob@example.org'' ''editor'') founded_db)"

definition bob_logged_in :: "(http_error + auth_answer) \<times> db" where
  "bob_logged_in = serve plain_crypto (sample_draw 7 2) (Login ''bob@example.org'' ''0123456789ab'') invited_db"

theorem logged_in_user_not_removable_witness:
  "fst (serve plain_crypto (sample_draw 8 3) (RemoveUser ada_token (dw_user_id (sample_draw 6 1))) invited_db) =
      Inr NoContent \<and>
   serve plain_crypto (sample_draw 8 3) (RemoveUser ada_token (dw_user_id (sample_draw 6 1))) (snd bob_logged_in) =
      (Inl (HTTPException 500 ''IntegrityError''), snd bob_logged_in)"
proof -
  have "case fst bob_logged_in of Inr (Session se) \<Rightarrow>
      map_option us_id (se_user se) = Some (dw_user_id (sample_draw 6 1)) | _ \<Rightarrow> False"
    by code_simp
  then obtain se u where l': "fst bob_logged_in = Inr (Session se)"
      and u: "se_user se = Some u" "us_id u = dw_user_id (sample_draw 6 1)"
    by (auto split: sum.splits auth_answer.splits)
  have l: "serve plain_crypto (sample_draw 7 2) (Login ''bob@example.org'' ''0123456789ab'') invited_db =
      (Inr (Session se), snd bob_logged_in)"
    using l' unfolding bob_logged_in_def by (metis prod.collapse)
  from logged_in_user_not_removable [OF l u(1) rtranclp.rtrancl_refl]
  obtain err where "serve plain_crypto (sample_draw 8 3) (RemoveUser ada_token (us_id u)) (snd bob_logged_in) =
      (Inl err, snd bob_logged_in)" by blast
  moreover have "fst (serve plain_crypto (sample_draw 8 3) (RemoveUser ada_token (dw_user_id (sample_draw 6 1)))
      (snd bob_logged_in)) = Inl (HTTPException 500 ''IntegrityError'')" by code_simp
  moreover have "fst (serve plain_crypto (sample_draw 8 3) (RemoveUser ada_token (dw_user_id (sample_draw 6 1))) invited_db) =
      Inr NoContent" by code_simp
  ultimately show ?thesis by (simp only: u(2) fst_conv)
qed

end
