(* ===== verification/Redaction.thy ===== *)
theory Redaction
  imports PyValue
begin

text \<open>
  Redaction of secrets, \<open>app/services/connector_security.py\<close>: the keys that name secrets, masking,
  the redaction of configurations and payloads, and the two regular expressions of
  \<open>sanitize_error\<close>, written out as scanners: each alternative of the expressions starts with a
  character the preceding part excludes, so that matching never backtracks.
\<close>

section \<open>Keys and values\<close>

definition SECRET_KEY_PARTS :: "string list" where
  "SECRET_KEY_PARTS = [''authorization'', ''cookie'', ''password'', ''secret'', ''token'', ''api_key'',
    ''apikey'', ''access_key'', ''private_key'', ''x-api-key'']"

definition is_secret_key :: "string \<Rightarrow> bool" where
  "is_secret_key key \<longleftrightarrow> list_ex (\<lambda>part. occurs_in part (py_lower key)) SECRET_KEY_PARTS"

definition mask_secret :: "json \<Rightarrow> string" where
  "mask_secret v =
    (let text = py_str v in
     if length text \<le> 4 then ''****'' else ''********'' @ drop (length text - 4) text)"

fun redact_secret_values :: "json \<Rightarrow> json" where
  "redact_secret_values (JObj d) =
    JObj (map (\<lambda>p. (fst p, if is_secret_key (fst p) then JStr ''****'' else redact_secret_values (snd p))) d)"
| "redact_secret_values (JList xs) = JList (map redact_secret_values xs)"
| "redact_secret_values v = v"

definition build_config_preview :: "string \<Rightarrow> (string, json) dict \<Rightarrow> json" where
  "build_config_preview auth_type config =
    (if auth_type = ''api_key_header'' then
       JObj [(''header_name'', JStr (py_str (jget_or ''header_name'' (JStr []) config))),
             (''header_value'', JStr (mask_secret (jget_or ''header_value'' (JStr []) config)))]
     else redact_secret_values (JObj config))"

section \<open>Bearer tokens in texts\<close>

definition alnum :: "char \<Rightarrow> bool" where
  "alnum c \<longleftrightarrow> c \<in> set ''0123456789ABCDEFGHIJKLMNOPQRSTUVWXYZabcdefghijklmnopqrstuvwxyz''"

definition word_char :: "char \<Rightarrow> bool" where
  "word_char c \<longleftrightarrow> alnum c \<or> c = CHR ''_''"

definition bearer_char :: "char \<Rightarrow> bool" where
  "bearer_char c \<longleftrightarrow> alnum c \<or> c \<in> set ''._~+/=-''"

text \<open>What is left after a case-insensitive literal.\<close>

fun literal_ci :: "string \<Rightarrow> string \<Rightarrow> string option" where
  "literal_ci [] x = Some x"
| "literal_ci (l # lit) [] = None"
| "literal_ci (l # lit) (c # x) = (if lower_char c = l then literal_ci lit x else None)"

lemma literal_ci_length: "literal_ci lit x = Some r \<Longrightarrow> length x = length lit + length r"
  by (induction lit x rule: literal_ci.induct) (auto split: if_splits)

text \<open>\<open>bearer\s+[A-Za-z0-9._~+/=-]+\<close> at the front of the text: what is left after the match.\<close>

definition match_bearer :: "string \<Rightarrow> string option" where
  "match_bearer x =
    (case literal_ci ''bearer'' x of
      None \<Rightarrow> None
    | Some r \<Rightarrow>
       (let r1 = dropWhile is_space r; r2 = dropWhile bearer_char r1 in
        if length r1 < length r \<and> length r2 < length r1 then Some r2 else None))"

lemma match_bearer_shorter: "match_bearer x = Some r \<Longrightarrow> length r < length x"
  by (auto simp: match_bearer_def Let_def dest: literal_ci_length split: option.splits if_splits)

function sub_bearer :: "string \<Rightarrow> string" where
  "sub_bearer [] = []"
| "sub_bearer (c # x) =
    (case match_bearer (c # x) of
      Some r \<Rightarrow> ''Bearer ****'' @ sub_bearer r
    | None \<Rightarrow> c # sub_bearer x)"
  by pat_completeness auto
termination by (relation "measure length") (auto dest: match_bearer_shorter)

section \<open>Assignments of secrets in texts\<close>

definition is_quote :: "char \<Rightarrow> bool" where
  "is_quote c \<longleftrightarrow> c = CHR 0x22 \<or> c = CHR 0x27"

definition value_char :: "char \<Rightarrow> bool" where
  "value_char c \<longleftrightarrow> \<not> is_quote c \<and> \<not> is_space c \<and> c \<notin> set '',;}{''"

definition skip_quote :: "string \<Rightarrow> string" where
  "skip_quote x = (case x of [] \<Rightarrow> [] | c # r \<Rightarrow> if is_quote c then r else x)"

fun first_key :: "string list \<Rightarrow> string \<Rightarrow> string option" where
  "first_key [] x = None"
| "first_key (k # ks) x = (case literal_ci k x of Some r \<Rightarrow> Some r | None \<Rightarrow> first_key ks x)"

text \<open>
  The key, \<open>["']?\s*[:=]\s*["']?\<close> and \<open>[^"'\s,;}{]+\<close> at the front of the text: what is left after the
  key and the separator, and after the value.
\<close>

definition match_assignment :: "string \<Rightarrow> (string \<times> string) option" where
  "match_assignment x =
    (case first_key SECRET_KEY_PARTS x of
      None \<Rightarrow> None
    | Some r \<Rightarrow>
       (case dropWhile is_space (skip_quote r) of
         [] \<Rightarrow> None
       | c # r1 \<Rightarrow>
          if c = CHR '':'' \<or> c = CHR ''='' then
            (let v = skip_quote (dropWhile is_space r1); r2 = dropWhile value_char v in
             if length r2 < length v then Some (v, r2) else None)
          else None))"

lemma length_skip_quote: "length (skip_quote x) \<le> length x"
  by (cases x) (auto simp: skip_quote_def)

lemma first_key_shorter: "first_key ks x = Some r \<Longrightarrow> length r \<le> length x"
  by (induction ks) (auto dest: literal_ci_length split: option.splits if_splits)

lemma match_assignment_shorter:
  assumes "match_assignment x = Some (v, r)"
  shows "length r < length v \<and> length v \<le> length x"
proof -
  from assms obtain r0 c r1 where *: "first_key SECRET_KEY_PARTS x = Some r0"
      "dropWhile is_space (skip_quote r0) = c # r1" "v = skip_quote (dropWhile is_space r1)" "length r < length v"
    by (auto simp: match_assignment_def Let_def split: option.splits list.splits if_splits)
  have "length v \<le> length r1"
    unfolding *(3) by (rule le_trans [OF length_skip_quote length_dropWhile_le])
  also have "\<dots> \<le> length (dropWhile is_space (skip_quote r0))" by (simp add: *(2))
  also have "\<dots> \<le> length r0" by (rule le_trans [OF length_dropWhile_le length_skip_quote])
  also have "\<dots> \<le> length x" by (rule first_key_shorter [OF *(1)])
  finally show ?thesis using *(4) by simp
qed

text \<open>
  \<open>re.sub\<close> of the assignments: the flag says that the previous character is a word character,
  where \<open>\b\<close> does not hold. The value becomes four stars.
\<close>

function sub_assignments :: "bool \<Rightarrow> string \<Rightarrow> string" where
  "sub_assignments inside [] = []"
| "sub_assignments inside (c # x) =
    (case (if inside then None else match_assignment (c # x)) of
      Some (v, r) \<Rightarrow> take (length (c # x) - length v) (c # x) @ ''****'' @
        sub_assignments (word_char (last (take (length v - length r) v))) r
    | None \<Rightarrow> c # sub_assignments (word_char c) x)"
  by pat_completeness auto
termination
  by (relation "measure (\<lambda>(i, x). length x)") (auto dest: match_assignment_shorter split: if_splits)

definition sanitize_text :: "string \<Rightarrow> string" where
  "sanitize_text x = sub_assignments False (sub_bearer x)"

definition sanitize_error :: "json \<Rightarrow> string" where
  "sanitize_error message = sanitize_text (py_str message)"

end
