(* ===== verification/Health.thy ===== *)
theory Health
  imports Store Redaction
begin

text \<open>
  The health of webhook dispatch and the configuration of the automation worker, from
  \<open>app/services/analytics_service.py\<close>: counts over the executions of a time window, throttled
  triggers, alerts with their severities, and whether a tenant's scheduled run is due.
\<close>

section \<open>Alerts\<close>

datatype severity = Info | Warning | Critical

instantiation severity :: linorder
begin

fun severity_rank :: "severity \<Rightarrow> nat" where
  "severity_rank Info = 0"
| "severity_rank Warning = 1"
| "severity_rank Critical = 2"

definition less_eq_severity :: "severity \<Rightarrow> severity \<Rightarrow> bool" where
  "less_eq_severity a b \<longleftrightarrow> severity_rank a \<le> severity_rank b"

definition less_severity :: "severity \<Rightarrow> severity \<Rightarrow> bool" where
  "less_severity a b \<longleftrightarrow> severity_rank a < severity_rank b"

instance
proof
  fix a b c :: severity
  show "(a < b) = (a \<le> b \<and> \<not> b \<le> a)" by (auto simp: less_eq_severity_def less_severity_def)
  show "a \<le> a" by (simp add: less_eq_severity_def)
  show "a \<le> b \<Longrightarrow> b \<le> c \<Longrightarrow> a \<le> c" by (simp add: less_eq_severity_def)
  show "a \<le> b \<Longrightarrow> b \<le> a \<Longrightarrow> a = b" by (cases a; cases b) (auto simp: less_eq_severity_def)
  show "a \<le> b \<or> b \<le> a" by (auto simp: less_eq_severity_def)
qed

end

record health_alert =
  al_code :: string
  al_severity :: severity
  al_title :: string
  al_message :: string
  al_count :: nat

definition alert_if :: "nat \<Rightarrow> string \<Rightarrow> severity \<Rightarrow> string \<Rightarrow> string \<Rightarrow> health_alert list" where
  "alert_if n code sev title text =
    (if n = 0 then [] else [\<lparr>al_code = code, al_severity = sev, al_title = title,
      al_message = show_nat n @ text, al_count = n\<rparr>])"

definition dispatch_alerts :: "nat \<Rightarrow> nat \<Rightarrow> nat \<Rightarrow> nat \<Rightarrow> health_alert list" where
  "dispatch_alerts paused throttled deferred dead =
    alert_if paused ''dispatch_paused'' Warning ''Workflow dispatch is paused''
      '' workflow dispatch queue is paused.'' @
    alert_if throttled ''trigger_throttled'' Warning ''Webhook triggers are throttled''
      '' webhook trigger rate-limit window is exhausted.'' @
    alert_if deferred ''deferred_retries'' Info ''Retries are scheduled''
      '' webhook dispatch retry is waiting for its next attempt.'' @
    alert_if dead ''dead_lettered'' Critical ''Dead-letter queue needs review''
      '' webhook dispatch is dead-lettered.''"

section \<open>Counting\<close>

text \<open>\<open>Inl\<close> is the \<open>AttributeError\<close> of a value that is not an object.\<close>

definition get_of :: "json \<Rightarrow> string + (string, json) dict" where
  "get_of v = (case v of JObj d \<Rightarrow> Inr d | _ \<Rightarrow> Inl (no_attribute_get v))"

definition is_webhook_execution :: "json \<Rightarrow> string + bool" where
  "is_webhook_execution input =
    (case get_of (py_or input (JObj [])) of
      Inl err \<Rightarrow> Inl err
    | Inr d \<Rightarrow>
       (case get_of (jget_or ''trigger'' (JObj []) d) of
         Inl err \<Rightarrow> Inl err
       | Inr t \<Rightarrow> Inr (jget ''type'' t = JStr ''webhook'')))"

definition get_rate_limit_config :: "json \<Rightarrow> string + (int \<times> int) option" where
  "get_rate_limit_config config =
    (case get_of (py_or config (JObj [])) of
      Inl err \<Rightarrow> Inl err
    | Inr d \<Rightarrow> Inr (case jget ''rate_limit'' d of
        JObj limit \<Rightarrow>
          if jget ''enabled'' limit \<noteq> JBool True then None
          else (case (py_int (jget ''max_events'' limit), py_int (jget ''window_seconds'' limit)) of
             (Some events, Some window) \<Rightarrow> if events < 1 \<or> window < 1 then None else Some (events, window)
           | _ \<Rightarrow> None)
      | _ \<Rightarrow> None))"

definition events_since :: "uuid \<Rightarrow> uuid \<Rightarrow> instant \<Rightarrow> db \<Rightarrow> nat" where
  "events_since tid trigger cutoff s = row_count (\<lambda>e. we_tenant_id e = tid \<and> we_trigger_id e = trigger \<and>
    cutoff \<le> we_created_at e) (webhook_events s)"

fun throttled_among :: "uuid \<Rightarrow> instant \<Rightarrow> db \<Rightarrow> workflow_trigger list \<Rightarrow> string + nat" where
  "throttled_among tid now s [] = Inr 0"
| "throttled_among tid now s (t # ts) =
    (case get_rate_limit_config (tg_config t) of
      Inl err \<Rightarrow> Inl err
    | Inr limit \<Rightarrow>
       (case throttled_among tid now s ts of
         Inl err \<Rightarrow> Inl err
       | Inr n \<Rightarrow> Inr (case limit of
           None \<Rightarrow> n
         | Some (events, window) \<Rightarrow>
             if int (events_since tid (tg_id t) (now - seconds window) s) \<ge> events then Suc n else n)))"

definition count_throttled_triggers :: "uuid \<Rightarrow> instant \<Rightarrow> db \<Rightarrow> string + nat" where
  "count_throttled_triggers tid now s = throttled_among tid now s
    (filter (\<lambda>t. tg_tenant_id t = tid \<and> tg_trigger_type t = ''webhook'' \<and> tg_is_active t) (triggers s))"

record dispatch_counts =
  dc_pending :: nat
  dc_deferred :: nat
  dc_dead :: nat
  dc_manual :: nat

definition no_dispatches :: dispatch_counts where
  "no_dispatches = \<lparr>dc_pending = 0, dc_deferred = 0, dc_dead = 0, dc_manual = 0\<rparr>"

text \<open>One row of the loop of \<open>get_dispatch_health\<close>.\<close>

definition count_dispatch :: "exec_status \<Rightarrow> json \<Rightarrow> dispatch_counts \<Rightarrow> string + dispatch_counts" where
  "count_dispatch st input c =
    (case is_webhook_execution input of
      Inl err \<Rightarrow> Inl err
    | Inr False \<Rightarrow> Inr c
    | Inr True \<Rightarrow>
       (case get_of (py_or (jget ''dispatch'' (obj_or_empty input)) (JObj [])) of
         Inl err \<Rightarrow> Inl err
       | Inr d \<Rightarrow> Inr \<lparr>
           dc_pending = dc_pending c + (if st = ExPending then 1 else 0),
           dc_deferred = dc_deferred c + (if st = ExPending \<and> truthy (jget ''next_attempt_at'' d) then 1 else 0),
           dc_dead = dc_dead c + (if jget ''dead_lettered'' d = JBool True then 1 else 0),
           dc_manual = dc_manual c + (if jget ''manual_retry'' d = JBool True then 1 else 0)\<rparr>))"

fun count_dispatches :: "execution list \<Rightarrow> dispatch_counts \<Rightarrow> string + dispatch_counts" where
  "count_dispatches [] c = Inr c"
| "count_dispatches (e # es) c =
    (case count_dispatch (ex_status e) (ex_input_data e) c of
      Inl err \<Rightarrow> Inl err
    | Inr c' \<Rightarrow> count_dispatches es c')"

record dispatch_health =
  dh_paused_workflows :: nat
  dh_throttled_triggers :: nat
  dh_pending_dispatches :: nat
  dh_deferred_retries :: nat
  dh_dead_lettered_executions :: nat
  dh_manual_retries :: nat
  dh_alerts :: "health_alert list"

definition recent_executions :: "uuid \<Rightarrow> instant \<Rightarrow> db \<Rightarrow> execution list" where
  "recent_executions tid start s =
    filter (\<lambda>e. ex_tenant_id e = tid \<and> start \<le> ex_created_at e) (executions s)"

definition paused_workflows :: "uuid \<Rightarrow> db \<Rightarrow> nat" where
  "paused_workflows tid s =
    row_count (\<lambda>w. wf_tenant_id w = tid \<and> wf_is_active w \<and> wf_dispatch_paused w) (workflows s)"

definition get_dispatch_health :: "uuid \<Rightarrow> int \<Rightarrow> instant \<Rightarrow> db \<Rightarrow> string + dispatch_health" where
  "get_dispatch_health tid window_hours now s =
    (case count_dispatches (recent_executions tid (now - minutes (60 * window_hours)) s) no_dispatches of
      Inl err \<Rightarrow> Inl err
    | Inr c \<Rightarrow>
       (case count_throttled_triggers tid now s of
         Inl err \<Rightarrow> Inl err
       | Inr throttled \<Rightarrow> Inr \<lparr>
           dh_paused_workflows = paused_workflows tid s, dh_throttled_triggers = throttled,
           dh_pending_dispatches = dc_pending c, dh_deferred_retries = dc_deferred c,
           dh_dead_lettered_executions = dc_dead c, dh_manual_retries = dc_manual c,
           dh_alerts = dispatch_alerts (paused_workflows tid s) throttled (dc_deferred c) (dc_dead c)\<rparr>))"

section \<open>The worker's configuration\<close>

record worker_config =
  wc_enabled :: bool
  wc_interval_minutes :: int
  wc_max_plans_per_run :: int

definition default_worker_config :: worker_config where
  "default_worker_config = \<lparr>wc_enabled = False, wc_interval_minutes = 15, wc_max_plans_per_run = 10\<rparr>"

definition valid_worker_config :: "worker_config \<Rightarrow> bool" where
  "valid_worker_config c \<longleftrightarrow> 5 \<le> wc_interval_minutes c \<and> wc_interval_minutes c \<le> 1440 \<and>
    1 \<le> wc_max_plans_per_run c \<and> wc_max_plans_per_run c \<le> 50"

text \<open>\<open>model_dump\<close>.\<close>

definition dump_worker_config :: "worker_config \<Rightarrow> json" where
  "dump_worker_config c = JObj [(''enabled'', JBool (wc_enabled c)),
    (''interval_minutes'', JInt (wc_interval_minutes c)), (''max_plans_per_run'', JInt (wc_max_plans_per_run c))]"

text \<open>
  The stored configuration over the defaults. None is a validation error; the conversions that
  the schema library makes of values \<open>model_dump\<close> never stores (texts, fractions) count as errors.
\<close>

definition normalize_worker_config :: "json \<Rightarrow> worker_config option" where
  "normalize_worker_config raw =
    (if \<not> truthy raw then Some default_worker_config
     else case raw of
       JObj d \<Rightarrow>
        (case (jget_or ''enabled'' (JBool False) d, jget_or ''interval_minutes'' (JInt 15) d,
            jget_or ''max_plans_per_run'' (JInt 10) d) of
          (JBool b, JInt i, JInt m) \<Rightarrow>
            (let c = \<lparr>wc_enabled = b, wc_interval_minutes = i, wc_max_plans_per_run = m\<rparr> in
             if valid_worker_config c then Some c else None)
        | _ \<Rightarrow> None)
     | _ \<Rightarrow> None)"

definition tenant_by_id :: "uuid \<Rightarrow> db \<Rightarrow> http_error + tenant" where
  "tenant_by_id tid s = (case row_find (\<lambda>t. tn_id t = tid) (tenants s) of
    None \<Rightarrow> Inl (HTTPException 404 ''Tenant not found'') | Some t \<Rightarrow> Inr t)"

definition get_worker_config :: "uuid \<Rightarrow> db \<Rightarrow> http_error + worker_config" where
  "get_worker_config tid s =
    (case tenant_by_id tid s of
      Inl err \<Rightarrow> Inl err
    | Inr t \<Rightarrow> (case normalize_worker_config (tn_dispatch_automation_worker_config t) of
        None \<Rightarrow> Inl (HTTPException 500 ''ValidationError'') | Some c \<Rightarrow> Inr c))"

definition update_worker_config :: "uuid \<Rightarrow> worker_config \<Rightarrow> (worker_config, db) svc" where
  "update_worker_config tid c s =
    (case tenant_by_id tid s of
      Inl err \<Rightarrow> (Inl err, s)
    | Inr t \<Rightarrow>
       (let s' = s\<lparr>tenants := row_update (\<lambda>t. tn_id t = tid)
            (\<lambda>t. t\<lparr>tn_dispatch_automation_worker_config := dump_worker_config c\<rparr>) (tenants s)\<rparr> in
        (get_worker_config tid s', s')))"

section \<open>Worker runs\<close>

definition new_worker_run ::
  "uuid \<Rightarrow> instant \<Rightarrow> uuid \<Rightarrow> string \<Rightarrow> int \<Rightarrow> nat \<Rightarrow> nat \<Rightarrow> nat \<Rightarrow> nat \<Rightarrow> uuid option \<Rightarrow> string \<Rightarrow>
    string option \<Rightarrow> worker_run" where
  "new_worker_run i created tid trigger_type limit claimed executed blocked failed by st err =
    \<lparr>wr_id = i, wr_tenant_id = tid, wr_triggered_by = by, wr_trigger_type = trigger_type, wr_status = st,
     wr_limit = limit, wr_claimed = claimed, wr_executed = executed, wr_blocked = blocked, wr_failed = failed,
     wr_error_message = (case err of None \<Rightarrow> None | Some m \<Rightarrow> if m = [] then None else Some (sanitize_text m)),
     wr_created_at = created\<rparr>"

definition record_worker_run :: "worker_run \<Rightarrow> db \<Rightarrow> db" where
  "record_worker_run r s = s\<lparr>worker_runs := worker_runs s @ [r]\<rparr>"

definition list_worker_runs :: "uuid \<Rightarrow> nat \<Rightarrow> db \<Rightarrow> worker_run list" where
  "list_worker_runs tid limit s =
    take limit (sort_key (\<lambda>r. - wr_created_at r) (filter (\<lambda>r. wr_tenant_id r = tid) (worker_runs s)))"

definition latest_scheduled_automation_worker_run :: "uuid \<Rightarrow> db \<Rightarrow> worker_run option" where
  "latest_scheduled_automation_worker_run tid s =
    (case sort_key (\<lambda>r. - wr_created_at r)
        (filter (\<lambda>r. wr_tenant_id r = tid \<and> wr_trigger_type r = ''scheduled'') (worker_runs s)) of
      [] \<Rightarrow> None | r # _ \<Rightarrow> Some r)"

definition FAILED_RUN_BACKOFF :: int where
  "FAILED_RUN_BACKOFF = 30"

text \<open>Whether the tenant is due, why not, the next run and the end of the back-off.\<close>

definition automation_worker_due_state ::
  "worker_config \<Rightarrow> worker_run option \<Rightarrow> instant \<Rightarrow> bool \<times> string option \<times> instant option \<times> instant option" where
  "automation_worker_due_state c latest now =
    (if \<not> wc_enabled c then (False, Some ''tenant_disabled'', None, None)
     else case latest of
       None \<Rightarrow> (True, None, None, None)
     | Some r \<Rightarrow>
        if wr_status r = ''failed'' then
          (let until = wr_created_at r + minutes (max (wc_interval_minutes c) FAILED_RUN_BACKOFF) in
           if now < until then (False, Some ''backoff'', Some until, Some until)
           else (True, None, None, Some until))
        else
          (let next_run = wr_created_at r + minutes (wc_interval_minutes c) in
           if now < next_run then (False, Some ''interval'', Some next_run, None)
           else (True, None, None, None)))"

record worker_diagnostics =
  wd_generated_at :: instant
  wd_scheduler_enabled :: bool
  wd_scheduler_interval_seconds :: rat
  wd_scheduler_tenant_limit :: int
  wd_tenant_config :: worker_config
  wd_approved_plan_count :: nat
  wd_latest_scheduled_run :: "worker_run option"
  wd_tenant_due_now :: bool
  wd_tenant_skip_reason :: "string option"
  wd_next_run_at :: "instant option"
  wd_backoff_until :: "instant option"

definition approved_plans :: "uuid \<Rightarrow> db \<Rightarrow> nat" where
  "approved_plans tid s = row_count (\<lambda>p. pl_tenant_id p = tid \<and> pl_status p = PlApproved) (plans s)"

definition sanitize_worker_run :: "worker_run \<Rightarrow> worker_run" where
  "sanitize_worker_run r = r\<lparr>wr_error_message := (case wr_error_message r of
    None \<Rightarrow> None | Some m \<Rightarrow> if m = [] then None else Some (sanitize_text m))\<rparr>"

definition get_worker_diagnostics ::
  "uuid \<Rightarrow> bool \<Rightarrow> rat \<Rightarrow> int \<Rightarrow> instant \<Rightarrow> db \<Rightarrow> http_error + worker_diagnostics" where
  "get_worker_diagnostics tid sched_enabled sched_interval sched_limit now s =
    (case get_worker_config tid s of
      Inl err \<Rightarrow> Inl err
    | Inr c \<Rightarrow>
       (case automation_worker_due_state c (latest_scheduled_automation_worker_run tid s) now of
         (due, reason, next_run, until) \<Rightarrow>
           Inr \<lparr>wd_generated_at = now, wd_scheduler_enabled = sched_enabled,
             wd_scheduler_interval_seconds = sched_interval, wd_scheduler_tenant_limit = sched_limit,
             wd_tenant_config = c, wd_approved_plan_count = approved_plans tid s,
             wd_latest_scheduled_run = map_option sanitize_worker_run (latest_scheduled_automation_worker_run tid s),
             wd_tenant_due_now = due, wd_tenant_skip_reason = reason, wd_next_run_at = next_run,
             wd_backoff_until = until\<rparr>))"

section \<open>Lemmas\<close>

lemma normalize_dump:
  "valid_worker_config c \<Longrightarrow> normalize_worker_config (dump_worker_config c) = Some c"
  by (cases c) (simp add: normalize_worker_config_def dump_worker_config_def jget_or_def dget_def Let_def)

lemma normalize_valid: "normalize_worker_config raw = Some c \<Longrightarrow> valid_worker_config c"
  by (auto simp: normalize_worker_config_def default_worker_config_def Let_def valid_worker_config_def
      split: json.splits if_splits)

end
