(* ===== verification/RunSpec.thy ===== *)
theory RunSpec
  imports Executor
begin

text \<open>
  What a run of the executor does to the database: an abstract step relation that forgets
  providers, tools and connectors, the proof that every turn of the loop is one of its
  steps, and the summary of a whole run from which the properties follow.
\<close>

section \<open>The abstract turn\<close>

fun is_final :: "ws_event \<Rightarrow> bool" where
  "is_final (ExecutionComplete _ _ _ _) = True"
| "is_final _ = False"

definition no_final :: "ws_event list \<Rightarrow> bool" where
  "no_final evs = list_all (\<lambda>ev. \<not> is_final ev) evs"

lemma no_final_simps [simp]:
  "no_final []"
  "no_final (ev # evs) \<longleftrightarrow> \<not> is_final ev \<and> no_final evs"
  "no_final (xs @ ys) \<longleftrightarrow> no_final xs \<and> no_final ys"
  by (auto simp: no_final_def)

text \<open>A node the loop runs: a connector, or one with an agent configuration.\<close>

definition runnable :: "run_cfg \<Rightarrow> nid \<Rightarrow> bool" where
  "runnable cfg i \<longleftrightarrow>
    (case lookup_nid i (rc_nodes cfg) of None \<Rightarrow> False | Some n \<Rightarrow> node_kind n = ''connector'') \<or>
    lookup_nid i (rc_configs cfg) \<noteq> None"

definition continues :: "run_cfg \<Rightarrow> loop_state \<Rightarrow> loop_state \<Rightarrow> bool" where
  "continues cfg ls ls' \<longleftrightarrow>
    ls_iteration ls' = Suc (ls_iteration ls) \<and>
    (rc_cyclic cfg \<longrightarrow> ls_iteration ls' \<le> MAX_ITERATIONS) \<and>
    (\<not> rc_cyclic cfg \<longrightarrow> ls_queue ls' = tl (ls_queue ls))"

text \<open>A log row of the step that follows \<open>ls\<close>.\<close>

definition next_log :: "run_cfg \<Rightarrow> loop_state \<Rightarrow> execution_log \<Rightarrow> bool" where
  "next_log cfg ls lg \<longleftrightarrow>
    lg_execution_id lg = rc_execution_id cfg \<and> lg_step_number lg = Suc (ls_step_number ls) \<and>
    lg_node_id lg = hd (ls_queue ls)"

inductive turn_effect :: "run_cfg \<Rightarrow> loop_state \<Rightarrow> outcome \<Rightarrow> bool" for cfg ls where
  skip: "\<lbrakk>\<not> runnable cfg (hd (ls_queue ls)); continues cfg ls ls'; ls_db ls' = ls_db ls;
      ls_events ls' = ls_events ls; ls_step_number ls' = ls_step_number ls\<rbrakk>
    \<Longrightarrow> turn_effect cfg ls (Next ls')"
| connector: "\<lbrakk>runnable cfg (hd (ls_queue ls)); continues cfg ls ls'; next_log cfg ls lg;
      lg_tokens_used lg = 0; lg_cost lg = 0; ls_db ls' = add_log lg (ls_db ls);
      ls_events ls' = ls_events ls @ [StepStart l (Suc (ls_step_number ls)),
        StepComplete l (Suc (ls_step_number ls)) 0 0 d];
      ls_step_number ls' = Suc (ls_step_number ls)\<rbrakk>
    \<Longrightarrow> turn_effect cfg ls (Next ls')"
| agent: "\<lbrakk>runnable cfg (hd (ls_queue ls)); continues cfg ls ls'; next_log cfg ls lg;
      charge_tenant (rc_tenant_id cfg) (lg_tokens_used lg) (ls_db ls) = Some charged;
      ls_db ls' = add_totals (rc_execution_id cfg) (lg_tokens_used lg) (lg_cost lg) (add_log lg charged);
      ls_events ls' = ls_events ls @ [StepStart l (Suc (ls_step_number ls)),
        StepComplete l (Suc (ls_step_number ls)) (lg_tokens_used lg) (lg_cost lg) d];
      ls_step_number ls' = Suc (ls_step_number ls)\<rbrakk>
    \<Longrightarrow> turn_effect cfg ls (Next ls')"
| failed: "\<lbrakk>s = fail_execution now (rc_execution_id cfg) msg (ls_db ls); no_final mid;
      fin = complete_event (rc_execution_id cfg) ExFailed s \<or>
        rc_cyclic cfg \<and> ls_iteration ls \<ge> MAX_ITERATIONS \<and> fin = ExecutionComplete ExFailed 0 0 (JObj [])\<rbrakk>
    \<Longrightarrow> turn_effect cfg ls (Done s (ls_events ls @ mid @ [fin]))"
| connector_failed: "\<lbrakk>runnable cfg (hd (ls_queue ls)); next_log cfg ls lg; lg_tokens_used lg = 0; lg_cost lg = 0;
      rc_cyclic cfg \<longrightarrow> ls_iteration ls < MAX_ITERATIONS;
      s = fail_execution now (rc_execution_id cfg) msg (add_log lg (ls_db ls)); no_final mid\<rbrakk>
    \<Longrightarrow> turn_effect cfg ls (Done s (ls_events ls @ mid @ [complete_event (rc_execution_id cfg) ExFailed s]))"
| cancelled: "\<lbrakk>s = cancel_running now (rc_execution_id cfg) msg (ls_db ls); no_final mid\<rbrakk>
    \<Longrightarrow> turn_effect cfg ls (Done s (ls_events ls @ mid @ [complete_event (rc_execution_id cfg) ExCancelled s]))"
| crashed: "no_final mid \<Longrightarrow> turn_effect cfg ls (Crash exc (ls_db ls) (ls_events ls @ mid))"
| rolled_back: "\<lbrakk>s = cancel_running now (rc_execution_id cfg) msg (ls_db ls); no_final mid\<rbrakk>
    \<Longrightarrow> turn_effect cfg ls (Crash exc s (ls_events ls @ mid))"

inductive_cases turn_effect_NextE: "turn_effect cfg ls (Next ls')"
inductive_cases turn_effect_DoneE: "turn_effect cfg ls (Done s evs)"
inductive_cases turn_effect_CrashE: "turn_effect cfg ls (Crash exc s evs)"

lemmas turn_effect_Next_cases =
  turn_effect_NextE [consumes 1, case_names skip connector agent]
lemmas turn_effect_Done_cases =
  turn_effect_DoneE [consumes 1, case_names failed connector_failed cancelled]

lemma no_log_simps [simp]:
  "lg_tokens_used no_log = 0" "lg_cost no_log = 0"
  by (simp_all add: no_log_def)

definition popped :: "loop_state \<Rightarrow> loop_state" where
  "popped ls = ls\<lparr>ls_queue := tl (ls_queue ls), ls_iteration := Suc (ls_iteration ls)\<rparr>"

lemma popped_fields [simp]:
  "ls_queue (popped ls) = tl (ls_queue ls)" "ls_iteration (popped ls) = Suc (ls_iteration ls)"
  "ls_step_number (popped ls) = ls_step_number ls" "ls_agent (popped ls) = ls_agent ls"
  "ls_db (popped ls) = ls_db ls" "ls_events (popped ls) = ls_events ls"
  by (simp_all add: popped_def)

lemma continues_popped:
  "rc_cyclic cfg \<longrightarrow> Suc (ls_iteration ls) \<le> MAX_ITERATIONS \<Longrightarrow> continues cfg ls (popped ls)"
  by (simp add: continues_def)

lemma connector_turn_effect:
  assumes "runnable cfg (hd (ls_queue ls))" "rc_cyclic cfg \<longrightarrow> Suc (ls_iteration ls) \<le> MAX_ITERATIONS"
  shows "turn_effect cfg ls (connector_turn env cfg (hd (ls_queue ls)) n (popped ls))"
proof -
  obtain key action label where lab: "connector_label n = (key, action, label)"
    by (cases "connector_label n")
  show ?thesis
  proof (cases "re_connector env (Suc (ls_iteration ls)) (ls_db ls) (rc_tenant_id cfg) n")
    case (ConnectorOk r)
    show ?thesis
      unfolding connector_turn_def lab Let_def prod.case
      by (simp add: ConnectorOk)
        (rule turn_effect.connector [where d = "cn_duration_ms r"];
          (insert assms, simp add: continues_def next_log_def)?)
  next
    case (ConnectorFailed exc)
    show ?thesis
      unfolding connector_turn_def lab Let_def prod.case
      by (simp add: ConnectorFailed)
        (rule turn_effect.connector_failed [where mid = "[_, _]", simplified];
          (insert assms, auto simp: next_log_def)?)
  next
    case (ConnectorRaised msg)
    then show ?thesis
      unfolding connector_turn_def lab Let_def prod.case
      using turn_effect.crashed [of "[StepStart label (Suc (ls_step_number ls))]"] by simp
  qed
qed

lemma agent_commit_effect:
  assumes "runnable cfg (hd (ls_queue ls))" "rc_cyclic cfg \<longrightarrow> Suc (ls_iteration ls) \<le> MAX_ITERATIONS"
    and ls1: "ls_db ls1 = ls_db ls" "ls_iteration ls1 = Suc (ls_iteration ls)"
      "ls_step_number ls1 = Suc (ls_step_number ls)" "ls_queue ls1 = tl (ls_queue ls)"
      "ls_events ls1 = ls_events ls @ [StepStart (ac_name ac) (Suc (ls_step_number ls))]"
  shows "turn_effect cfg ls (agent_commit env cfg (hd (ls_queue ls)) ac r ls1)"
proof (cases "ar_action r = ''error''")
  case True
  then show ?thesis
    unfolding agent_commit_def Let_def
    by (cases "ar_output r = []")
      (simp add: ls1, rule turn_effect.failed [where mid = "[_, _]", simplified]; simp)+
next
  case False
  let ?tokens = "ar_input_tokens r + ar_output_tokens r"
  show ?thesis
  proof (cases "charge_tenant (rc_tenant_id cfg) ?tokens (ls_db ls)")
    case None
    with False show ?thesis
      unfolding agent_commit_def Let_def
      by (simp add: ls1) (rule turn_effect.rolled_back [where mid = "[_]", simplified]; simp)
  next
    case (Some charged)
    let ?lg = "agent_log cfg (hd (ls_queue ls)) ac (Suc (ls_step_number ls)) (ls_agent ls1) r"
    from False Some show ?thesis
      unfolding agent_commit_def Let_def
      by (simp add: ls1)
        (rule turn_effect.agent [where lg = ?lg and charged = charged and d = "ar_duration_ms r"];
          (insert assms, simp add: agent_log_def continues_def next_log_def)?)
  qed
qed

lemma agent_turn_effect:
  assumes "runnable cfg (hd (ls_queue ls))" "rc_cyclic cfg \<longrightarrow> Suc (ls_iteration ls) \<le> MAX_ITERATIONS"
  shows "turn_effect cfg ls (agent_turn env cfg (hd (ls_queue ls)) ac (popped ls))"
proof (cases "over_budget (rc_tenant_id cfg) ac (ls_db ls)")
  case True
  then show ?thesis
    unfolding agent_turn_def Let_def
    by simp (rule turn_effect.cancelled [where mid = "[_, _]", simplified]; simp)
next
  case False
  let ?ls1 = "emit [StepStart (ac_name ac) (ls_step_number (popped ls) + 1)] (popped ls
    \<lparr>ls_step_number := ls_step_number (popped ls) + 1,
     ls_agent := (ls_agent (popped ls))\<lparr>st_current_agent := ac_name ac\<rparr>\<rparr>)"
  show ?thesis
  proof (cases "execute_agent (re_step env (Suc (ls_iteration ls))) ac (ls_agent ?ls1) (ls_db ls) (rc_tenant_id cfg)")
    case (Inl msg)
    with False turn_effect.crashed [of "[StepStart (ac_name ac) (Suc (ls_step_number ls))]"]
    show ?thesis by (simp add: agent_turn_def Let_def)
  next
    case (Inr r)
    have "turn_effect cfg ls (agent_commit env cfg (hd (ls_queue ls)) ac r ?ls1)"
      by (rule agent_commit_effect [OF assms]) simp_all
    with False Inr show ?thesis by (simp add: agent_turn_def Let_def)
  qed
qed

text \<open>Every turn of the loop is a step of the abstract relation.\<close>

lemma loop_turn_effect: "turn_effect cfg ls (loop_turn env cfg ls)"
proof -
  let ?i = "hd (ls_queue ls)"
  have pop: "ls\<lparr>ls_queue := tl (ls_queue ls), ls_iteration := ls_iteration ls + 1\<rparr> = popped ls"
    by (simp add: popped_def)
  consider (limit) "rc_cyclic cfg" "Suc (ls_iteration ls) > MAX_ITERATIONS"
    | (cancel) "\<not> (rc_cyclic cfg \<and> Suc (ls_iteration ls) > MAX_ITERATIONS)" "re_cancelled env (Suc (ls_iteration ls))"
    | (run) "rc_cyclic cfg \<longrightarrow> Suc (ls_iteration ls) \<le> MAX_ITERATIONS" "\<not> re_cancelled env (Suc (ls_iteration ls))"
    by fastforce
  then show ?thesis
  proof cases
    case limit
    then show ?thesis
      unfolding loop_turn_def Let_def pop
      by simp (rule turn_effect.failed [where mid = "[_]", simplified]; simp)
  next
    case cancel
    then have "loop_turn env cfg ls = Done
        (cancel_running (re_ended env) (rc_execution_id cfg) ''Execution cancelled by user'' (ls_db ls))
        (ls_events ls @ [complete_event (rc_execution_id cfg) ExCancelled
          (cancel_running (re_ended env) (rc_execution_id cfg) ''Execution cancelled by user'' (ls_db ls))])"
      unfolding loop_turn_def Let_def pop by (auto simp only: popped_fields if_True if_False)
    then show ?thesis
      by simp (rule turn_effect.cancelled [where mid = "[]", simplified]; simp)
  next
    case run
    then have guard: "\<not> (rc_cyclic cfg \<and> ls_iteration (popped ls) > MAX_ITERATIONS)"
      "\<not> re_cancelled env (ls_iteration (popped ls))"
      by auto
    let ?agent = "case lookup_nid ?i (rc_configs cfg) of None \<Rightarrow> Next (popped ls)
      | Some ac \<Rightarrow> agent_turn env cfg ?i ac (popped ls)"
    have agent: "turn_effect cfg ls ?agent"
      if "case lookup_nid ?i (rc_nodes cfg) of None \<Rightarrow> True | Some n \<Rightarrow> node_kind n \<noteq> ''connector''"
    proof (cases "lookup_nid ?i (rc_configs cfg)")
      case None
      with that have "\<not> runnable cfg ?i" by (auto simp: runnable_def split: option.splits)
      with None continues_popped [OF run(1)] show ?thesis by (auto intro: turn_effect.skip)
    next
      case (Some ac)
      then have "runnable cfg ?i" by (simp add: runnable_def)
      from agent_turn_effect [OF this run(1)] Some show ?thesis by simp
    qed
    have "loop_turn env cfg ls = (case lookup_nid ?i (rc_nodes cfg) of
        Some n \<Rightarrow> if node_kind n = ''connector'' then connector_turn env cfg ?i n (popped ls) else ?agent
      | None \<Rightarrow> ?agent)"
      unfolding loop_turn_def Let_def pop using guard by (simp only: if_False)
    moreover have "turn_effect cfg ls (connector_turn env cfg ?i n (popped ls))"
      if "lookup_nid ?i (rc_nodes cfg) = Some n" "node_kind n = ''connector''" for n
      using that by (intro connector_turn_effect run(1)) (simp add: runnable_def)
    ultimately show ?thesis
      using agent by (cases "lookup_nid ?i (rc_nodes cfg)") auto
  qed
qed

section \<open>The effect of some steps on the database\<close>

definition log_tokens :: "execution_log list \<Rightarrow> int" where
  "log_tokens new = sum_list (map lg_tokens_used new)"

definition log_cost :: "execution_log list \<Rightarrow> rat" where
  "log_cost new = sum_list (map lg_cost new)"

text \<open>The database after a run has logged \<open>new\<close>: the tenant is charged, the totals are summed.\<close>

definition after_steps :: "uuid \<Rightarrow> uuid \<Rightarrow> execution_log list \<Rightarrow> db \<Rightarrow> db" where
  "after_steps eid tid new s = s\<lparr>
    tenants := row_update (\<lambda>t. tn_id t = tid)
      (\<lambda>t. t\<lparr>tn_tokens_used_this_month := tn_tokens_used_this_month t + log_tokens new\<rparr>) (tenants s),
    executions := row_update (\<lambda>e. ex_id e = eid)
      (\<lambda>e. e\<lparr>ex_total_tokens := ex_total_tokens e + log_tokens new,
            ex_total_cost := ex_total_cost e + log_cost new\<rparr>) (executions s),
    execution_logs := execution_logs s @ new\<rparr>"

definition within_budget :: "uuid \<Rightarrow> db \<Rightarrow> bool" where
  "within_budget tid s \<longleftrightarrow> (\<forall>t \<in> set (tenants s). tn_id t = tid \<longrightarrow>
    tn_tokens_used_this_month t \<le> tn_monthly_token_budget t)"

lemma log_sums [simp]:
  "log_tokens [] = 0" "log_cost [] = 0"
  "log_tokens (xs @ ys) = log_tokens xs + log_tokens ys" "log_cost (xs @ ys) = log_cost xs + log_cost ys"
  "log_tokens [lg] = lg_tokens_used lg" "log_cost [lg] = lg_cost lg"
  by (simp_all add: log_tokens_def log_cost_def)

lemma row_update_row_update:
  "(\<And>r. p (f r) = p r) \<Longrightarrow> row_update p g (row_update p f rows) = row_update p (\<lambda>r. g (f r)) rows"
  by (induction rows) auto

lemma row_update_cong:
  "(\<And>r. r \<in> set rows \<Longrightarrow> p r = q r) \<Longrightarrow> (\<And>r. r \<in> set rows \<Longrightarrow> q r \<Longrightarrow> f r = g r) \<Longrightarrow>
    row_update p f rows = row_update q g rows"
  by (induction rows) auto

lemma row_update_ident: "(\<And>r. f r = r) \<Longrightarrow> row_update p f rows = rows"
  by (induction rows) auto

lemma set_row_update: "set (row_update p f rows) = (\<lambda>r. if p r then f r else r) ` set rows"
  by (simp add: row_update_def)

lemma map_tn_id_after_steps [simp]: "map tn_id (tenants (after_steps eid tid new s)) = map tn_id (tenants s)"
  by (simp add: after_steps_def map_row_update)

lemma map_ex_id_after_steps [simp]: "map ex_id (executions (after_steps eid tid new s)) = map ex_id (executions s)"
  by (simp add: after_steps_def map_row_update)

lemma after_steps_Nil [simp]: "after_steps eid tid [] s = s"
  by (simp add: after_steps_def row_update_ident)

lemma row_update_add_tokens:
  "row_update p (\<lambda>t. t\<lparr>tn_tokens_used_this_month := tn_tokens_used_this_month t + b\<rparr>)
    (row_update p (\<lambda>t. t\<lparr>tn_tokens_used_this_month := tn_tokens_used_this_month t + a\<rparr>) rows) =
   row_update p (\<lambda>t. t\<lparr>tn_tokens_used_this_month := tn_tokens_used_this_month t + (a + b)\<rparr>) rows"
  if "\<And>t x. p (t\<lparr>tn_tokens_used_this_month := x\<rparr>) = p t"
  by (simp add: row_update_row_update that add.assoc)

lemma after_steps_connector:
  assumes "lg_tokens_used lg = 0" "lg_cost lg = 0"
  shows "add_log lg (after_steps eid tid new s) = after_steps eid tid (new @ [lg]) s"
  by (simp add: after_steps_def add_log_def assms)

lemma charge_tenant_SomeD:
  assumes "distinct (map tn_id (tenants s))" "charge_tenant tid tokens s = Some c"
  shows "c = s\<lparr>tenants := row_update (\<lambda>t. tn_id t = tid)
      (\<lambda>t. t\<lparr>tn_tokens_used_this_month := tn_tokens_used_this_month t + tokens\<rparr>) (tenants s)\<rparr>"
    and "\<forall>t \<in> set (tenants s). tn_id t = tid \<longrightarrow>
      tn_tokens_used_this_month t + tokens \<le> tn_monthly_token_budget t"
proof -
  let ?covered = "\<lambda>t. tn_id t = tid \<and> tn_tokens_used_this_month t + tokens \<le> tn_monthly_token_budget t"
  from assms(2) have "row_count ?covered (tenants s) \<noteq> 0"
    and c: "c = s\<lparr>tenants := row_update ?covered
      (\<lambda>t. t\<lparr>tn_tokens_used_this_month := tn_tokens_used_this_month t + tokens\<rparr>) (tenants s)\<rparr>"
    by (auto simp: charge_tenant_def Let_def split: if_splits)
  then obtain r where r: "r \<in> set (tenants s)" "?covered r"
    by (auto simp: row_count_def filter_empty_iff)
  have all: "?covered t \<longleftrightarrow> tn_id t = tid" if "t \<in> set (tenants s)" for t
    using that r assms(1) by (auto simp: distinct_map dest: inj_onD)
  then show "\<forall>t \<in> set (tenants s). tn_id t = tid \<longrightarrow>
      tn_tokens_used_this_month t + tokens \<le> tn_monthly_token_budget t"
    by blast
  show "c = s\<lparr>tenants := row_update (\<lambda>t. tn_id t = tid)
      (\<lambda>t. t\<lparr>tn_tokens_used_this_month := tn_tokens_used_this_month t + tokens\<rparr>) (tenants s)\<rparr>"
    unfolding c by (rule arg_cong [of _ _ "\<lambda>ts. s\<lparr>tenants := ts\<rparr>"], rule row_update_cong) (simp_all only: all)
qed

lemma charged_within_budget:
  "\<forall>t \<in> set ts. tn_id t = tid \<longrightarrow> tn_tokens_used_this_month t + k \<le> tn_monthly_token_budget t \<Longrightarrow>
    \<forall>t \<in> set (row_update (\<lambda>t. tn_id t = tid)
      (\<lambda>t. t\<lparr>tn_tokens_used_this_month := tn_tokens_used_this_month t + k\<rparr>) ts).
      tn_id t = tid \<longrightarrow> tn_tokens_used_this_month t \<le> tn_monthly_token_budget t"
  by (induction ts) auto

lemma after_steps_agent:
  assumes "distinct (map tn_id (tenants s))"
    and "charge_tenant tid (lg_tokens_used lg) (after_steps eid tid new s) = Some charged"
  shows "add_totals eid (lg_tokens_used lg) (lg_cost lg) (add_log lg charged) = after_steps eid tid (new @ [lg]) s"
    and "within_budget tid (after_steps eid tid (new @ [lg]) s)"
proof -
  have "distinct (map tn_id (tenants (after_steps eid tid new s)))" by (simp add: assms(1))
  note c = charge_tenant_SomeD [OF this assms(2)]
  show eq: "add_totals eid (lg_tokens_used lg) (lg_cost lg) (add_log lg charged) = after_steps eid tid (new @ [lg]) s"
    unfolding c(1)
    by (simp add: after_steps_def add_totals_def update_execution_def add_log_def row_update_row_update add.assoc)
  have "tenants (after_steps eid tid (new @ [lg]) s) = row_update (\<lambda>t. tn_id t = tid)
      (\<lambda>t. t\<lparr>tn_tokens_used_this_month := tn_tokens_used_this_month t + lg_tokens_used lg\<rparr>)
      (tenants (after_steps eid tid new s))"
    by (simp add: after_steps_def row_update_row_update add.assoc)
  then show "within_budget tid (after_steps eid tid (new @ [lg]) s)"
    unfolding within_budget_def by (simp only:) (rule charged_within_budget [OF c(2)])
qed

section \<open>The loop as a contract\<close>

text \<open>
  What a predicate on the loop must satisfy to hold of a run: it survives every abstract
  turn that goes on, gives the postcondition at every turn that ends, and at the empty
  queue. Whatever the environment, \<open>run_loop\<close> then ends in the postcondition.
\<close>

locale loop_contract =
  fixes cfg :: run_cfg
    and inv :: "loop_state \<Rightarrow> bool"
    and post :: "crash option \<Rightarrow> db \<Rightarrow> ws_event list \<Rightarrow> bool"
  assumes goes_on: "inv ls \<Longrightarrow> ls_queue ls \<noteq> [] \<Longrightarrow> turn_effect cfg ls (Next ls') \<Longrightarrow> inv ls'"
    and returns: "inv ls \<Longrightarrow> ls_queue ls \<noteq> [] \<Longrightarrow> turn_effect cfg ls (Done s evs) \<Longrightarrow> post None s evs"
    and crashes: "inv ls \<Longrightarrow> ls_queue ls \<noteq> [] \<Longrightarrow> turn_effect cfg ls (Crash msg s evs) \<Longrightarrow> post (Some msg) s evs"
    and completes: "inv ls \<Longrightarrow> ls_queue ls = [] \<Longrightarrow> complete_run env cfg ls = (s, evs) \<Longrightarrow> post None s evs"
begin

lemma run_loop_post: "inv ls \<Longrightarrow> run_loop env cfg ls = (m, s, evs) \<Longrightarrow> post m s evs"
proof (induction env cfg' \<equiv> cfg ls rule: run_loop.induct)
  case (1 env ls)
  show ?case
  proof (cases "ls_queue ls = []")
    case True
    with 1 completes [of ls env s evs] show ?thesis by (simp add: run_loop.simps)
  next
    case False
    note effect = loop_turn_effect [of cfg ls env]
    show ?thesis
    proof (cases "loop_turn env cfg ls")
      case (Next ls')
      with 1 False effect goes_on [of ls ls'] show ?thesis
        by (simp add: run_loop.simps [of env cfg ls])
    next
      case (Done s' evs')
      with 1 False effect returns [of ls s' evs'] show ?thesis
        by (simp add: run_loop.simps [of env cfg ls])
    next
      case (Crash msg s' evs')
      with 1 False effect crashes [of ls msg s' evs'] show ?thesis
        by (simp add: run_loop.simps [of env cfg ls])
    qed
  qed
qed

end

section \<open>The summary of a run\<close>

text \<open>The writes that end a run: status, output, error and time of completion.\<close>

definition final_write :: "exec_status \<Rightarrow> (execution \<Rightarrow> execution) \<Rightarrow> bool" where
  "final_write st f \<longleftrightarrow> (\<forall>e. \<exists>out err now.
    f e = e\<lparr>ex_status := st, ex_output_data := out, ex_error_message := err, ex_completed_at := Some now\<rparr>)"

text \<open>The logs a run may have written when its initial queue was \<open>q0\<close>.\<close>

definition run_logs :: "run_cfg \<Rightarrow> nid list \<Rightarrow> execution_log list \<Rightarrow> bool" where
  "run_logs cfg q0 new \<longleftrightarrow>
    (\<forall>lg \<in> set new. lg_execution_id lg = rc_execution_id cfg) \<and>
    map lg_step_number new = [1..<Suc (length new)] \<and>
    (rc_cyclic cfg \<longrightarrow> length new \<le> MAX_ITERATIONS) \<and>
    (\<not> rc_cyclic cfg \<longrightarrow> prefix (map lg_node_id new) (filter (runnable cfg) q0))"

definition run_inv :: "run_cfg \<Rightarrow> db \<Rightarrow> nid list \<Rightarrow> loop_state \<Rightarrow> bool" where
  "run_inv cfg s1 q0 ls \<longleftrightarrow> distinct (map tn_id (tenants s1)) \<and> (\<exists>new.
    ls_db ls = after_steps (rc_execution_id cfg) (rc_tenant_id cfg) new s1 \<and>
    within_budget (rc_tenant_id cfg) (ls_db ls) \<and>
    (\<forall>lg \<in> set new. lg_execution_id lg = rc_execution_id cfg) \<and>
    map lg_step_number new = [1..<Suc (length new)] \<and>
    ls_step_number ls = length new \<and> no_final (ls_events ls) \<and>
    (rc_cyclic cfg \<longrightarrow> length new \<le> ls_iteration ls \<and> ls_iteration ls \<le> MAX_ITERATIONS) \<and>
    (\<not> rc_cyclic cfg \<longrightarrow>
      map lg_node_id new @ filter (runnable cfg) (ls_queue ls) = filter (runnable cfg) q0))"

text \<open>
  How a run that passed the start ends: the effect of its steps, then one final write that
  the last event announces, or nothing more when an exception leaves the loop.
\<close>

definition announces :: "run_cfg \<Rightarrow> exec_status \<Rightarrow> db \<Rightarrow> ws_event \<Rightarrow> bool" where
  "announces cfg st s fin \<longleftrightarrow>
    (\<exists>tokens cost out. fin = ExecutionComplete st tokens cost out) \<and>
    (fin = complete_event (rc_execution_id cfg) st s \<or>
     find_execution (rc_execution_id cfg) s = None \<or>
     rc_cyclic cfg \<and> fin = ExecutionComplete ExFailed 0 0 (JObj []))"

definition run_post ::
  "run_cfg \<Rightarrow> db \<Rightarrow> nid list \<Rightarrow> crash option \<Rightarrow> db \<Rightarrow> ws_event list \<Rightarrow> bool" where
  "run_post cfg s1 q0 m s evs \<longleftrightarrow> (\<exists>new.
    run_logs cfg q0 new \<and>
    within_budget (rc_tenant_id cfg) (after_steps (rc_execution_id cfg) (rc_tenant_id cfg) new s1) \<and>
    (case m of
      Some exc \<Rightarrow> no_final evs \<and>
       (s = after_steps (rc_execution_id cfg) (rc_tenant_id cfg) new s1 \<or>
        (\<exists>now msg. s = cancel_running now (rc_execution_id cfg) msg
          (after_steps (rc_execution_id cfg) (rc_tenant_id cfg) new s1)))
    | None \<Rightarrow>
       \<exists>st f pre fin. st \<in> {ExCompleted, ExFailed, ExCancelled} \<and> final_write st f \<and>
         s = update_execution (rc_execution_id cfg) f
           (after_steps (rc_execution_id cfg) (rc_tenant_id cfg) new s1) \<and>
         evs = pre @ [fin] \<and> no_final pre \<and> announces cfg st s fin \<and>
         (st = ExCompleted \<longrightarrow> \<not> rc_cyclic cfg \<longrightarrow> map lg_node_id new = filter (runnable cfg) q0)))"

text \<open>The part of the invariant about the logs written so far and the queue that is left.\<close>

definition logged_so_far :: "run_cfg \<Rightarrow> nid list \<Rightarrow> loop_state \<Rightarrow> execution_log list \<Rightarrow> bool" where
  "logged_so_far cfg q0 ls new \<longleftrightarrow>
    (\<forall>lg \<in> set new. lg_execution_id lg = rc_execution_id cfg) \<and>
    map lg_step_number new = [1..<Suc (length new)] \<and>
    ls_step_number ls = length new \<and>
    (rc_cyclic cfg \<longrightarrow> length new \<le> ls_iteration ls \<and> ls_iteration ls \<le> MAX_ITERATIONS) \<and>
    (\<not> rc_cyclic cfg \<longrightarrow>
      map lg_node_id new @ filter (runnable cfg) (ls_queue ls) = filter (runnable cfg) q0)"

lemma run_inv_alt:
  "run_inv cfg s1 q0 ls \<longleftrightarrow> distinct (map tn_id (tenants s1)) \<and> (\<exists>new.
    ls_db ls = after_steps (rc_execution_id cfg) (rc_tenant_id cfg) new s1 \<and>
    within_budget (rc_tenant_id cfg) (ls_db ls) \<and> no_final (ls_events ls) \<and> logged_so_far cfg q0 ls new)"
  unfolding run_inv_def logged_so_far_def by meson

lemma logged_skip:
  assumes "logged_so_far cfg q0 ls new" "ls_queue ls \<noteq> []" "continues cfg ls ls'"
    "\<not> runnable cfg (hd (ls_queue ls))" "ls_step_number ls' = ls_step_number ls"
  shows "logged_so_far cfg q0 ls' new"
  using assms by (cases "ls_queue ls") (auto simp: logged_so_far_def continues_def)

lemma logged_step:
  assumes "logged_so_far cfg q0 ls new" "ls_queue ls \<noteq> []" "continues cfg ls ls'"
    "runnable cfg (hd (ls_queue ls))" "next_log cfg ls lg" "ls_step_number ls' = Suc (ls_step_number ls)"
  shows "logged_so_far cfg q0 ls' (new @ [lg])"
  using assms by (cases "ls_queue ls") (auto simp: logged_so_far_def continues_def next_log_def)

lemma logged_run_logs:
  assumes "logged_so_far cfg q0 ls new"
  shows "run_logs cfg q0 new"
  using assms by (auto simp: logged_so_far_def run_logs_def intro: prefixI [OF sym])

lemma logged_last_run_logs:
  assumes "logged_so_far cfg q0 ls new" "ls_queue ls \<noteq> []" "next_log cfg ls lg"
    "runnable cfg (hd (ls_queue ls))" "rc_cyclic cfg \<longrightarrow> ls_iteration ls < MAX_ITERATIONS"
  shows "run_logs cfg q0 (new @ [lg])"
proof -
  have "prefix (map lg_node_id (new @ [lg])) (filter (runnable cfg) q0)" if "\<not> rc_cyclic cfg"
  proof -
    have "filter (runnable cfg) q0 = map lg_node_id (new @ [lg]) @ filter (runnable cfg) (tl (ls_queue ls))"
      using assms that by (cases "ls_queue ls") (auto simp: logged_so_far_def next_log_def)
    then show ?thesis by (rule prefixI)
  qed
  with assms show ?thesis by (auto simp: logged_so_far_def run_logs_def next_log_def)
qed

lemma final_writes:
  "final_write ExFailed (\<lambda>e. e\<lparr>ex_status := ExFailed, ex_error_message := Some msg, ex_completed_at := Some now\<rparr>)"
  "final_write ExCancelled (\<lambda>e. e\<lparr>ex_status := ExCancelled, ex_error_message := Some msg, ex_completed_at := Some now\<rparr>)"
  "final_write ExCompleted (\<lambda>e. e\<lparr>ex_status := ExCompleted, ex_output_data := out, ex_completed_at := Some now\<rparr>)"
  unfolding final_write_def
  by (rule allI, rename_tac e, case_tac e, simp)+

lemma find_update_execution:
  "(\<And>e. ex_id (f e) = ex_id e) \<Longrightarrow>
    find_execution eid (update_execution eid f s) = map_option f (find_execution eid s)"
  by (simp add: find_execution_def update_execution_def row_find_key_update)

lemma complete_event_announces:
  "announces cfg st s (complete_event (rc_execution_id cfg) st s)"
  by (auto simp: announces_def complete_event_def split: option.split)

lemma complete_run_announces:
  assumes "complete_run env cfg ls = (s, evs)"
  shows "\<exists>f fin. final_write ExCompleted f \<and> s = update_execution (rc_execution_id cfg) f (ls_db ls) \<and>
    evs = ls_events ls @ [fin] \<and> announces cfg ExCompleted s fin"
proof -
  let ?out = "JObj (st_results (ls_agent ls))"
  let ?f = "\<lambda>e. e\<lparr>ex_status := ExCompleted, ex_output_data := ?out, ex_completed_at := Some (re_ended env)\<rparr>"
  let ?fin = "case find_execution (rc_execution_id cfg) (ls_db ls) of
      Some e \<Rightarrow> ExecutionComplete ExCompleted (ex_total_tokens e) (ex_total_cost e) ?out
    | None \<Rightarrow> ExecutionComplete ExCompleted 0 0 ?out"
  from assms have s: "s = update_execution (rc_execution_id cfg) ?f (ls_db ls)" and evs: "evs = ls_events ls @ [?fin]"
    by (simp_all add: complete_run_def Let_def)
  have "announces cfg ExCompleted s ?fin"
    by (auto simp: announces_def complete_event_def s find_update_execution split: option.split)
  with s evs final_writes(3) show ?thesis by blast
qed

text \<open>Every run ends in \<open>run_post\<close>.\<close>

lemma run_post_returned:
  assumes "run_logs cfg q0 new"
    and "within_budget (rc_tenant_id cfg) (after_steps (rc_execution_id cfg) (rc_tenant_id cfg) new s1)"
    and "s = update_execution (rc_execution_id cfg) f (after_steps (rc_execution_id cfg) (rc_tenant_id cfg) new s1)"
    and "final_write st f" "st \<in> {ExCompleted, ExFailed, ExCancelled}" "no_final pre" "announces cfg st s fin"
    and "st = ExCompleted \<longrightarrow> \<not> rc_cyclic cfg \<longrightarrow> map lg_node_id new = filter (runnable cfg) q0"
  shows "run_post cfg s1 q0 None s (pre @ [fin])"
  unfolding run_post_def option.case using assms by blast

interpretation run: loop_contract cfg "run_inv cfg s1 q0" "run_post cfg s1 q0" for cfg s1 q0
proof unfold_locales
  fix ls ls'
  assume inv: "run_inv cfg s1 q0 ls" and q: "ls_queue ls \<noteq> []" and turn: "turn_effect cfg ls (Next ls')"
  then obtain new where dist: "distinct (map tn_id (tenants s1))"
    and db: "ls_db ls = after_steps (rc_execution_id cfg) (rc_tenant_id cfg) new s1"
    and budget: "within_budget (rc_tenant_id cfg) (ls_db ls)" and nf: "no_final (ls_events ls)"
    and logs: "logged_so_far cfg q0 ls new"
    by (auto simp: run_inv_alt)
  from turn show "run_inv cfg s1 q0 ls'"
  proof (cases rule: turn_effect_Next_cases)
    case skip
    note logged_skip [OF logs q skip(2) skip(1) skip(5)]
    with dist db budget nf skip show ?thesis by (auto simp: run_inv_alt)
  next
    case (connector lg l d)
    then have "ls_db ls' = after_steps (rc_execution_id cfg) (rc_tenant_id cfg) (new @ [lg]) s1"
      using after_steps_connector [of lg] db by simp
    moreover have "within_budget (rc_tenant_id cfg) (ls_db ls')"
      using budget connector by (simp add: within_budget_def add_log_def)
    ultimately show ?thesis
      using dist nf connector logged_step [OF logs q, of ls' lg] by (auto simp: run_inv_alt)
  next
    case (agent lg charged l d)
    with db have "charge_tenant (rc_tenant_id cfg) (lg_tokens_used lg)
        (after_steps (rc_execution_id cfg) (rc_tenant_id cfg) new s1) = Some charged" by simp
    note charge = after_steps_agent [OF dist this]
    show ?thesis
      using dist nf agent charge logged_step [OF logs q, of ls' lg] by (auto simp: run_inv_alt)
  qed
next
  fix ls s evs
  assume inv: "run_inv cfg s1 q0 ls" and q: "ls_queue ls \<noteq> []" and turn: "turn_effect cfg ls (Done s evs)"
  then obtain new where db: "ls_db ls = after_steps (rc_execution_id cfg) (rc_tenant_id cfg) new s1"
    and budget: "within_budget (rc_tenant_id cfg) (ls_db ls)" and nf: "no_final (ls_events ls)"
    and logs: "logged_so_far cfg q0 ls new"
    by (auto simp: run_inv_alt)
  note budget' = budget [unfolded db]
  from turn show "run_post cfg s1 q0 None s evs"
  proof (cases rule: turn_effect_Done_cases)
    case (failed now msg mid fin)
    have fin: "announces cfg ExFailed s fin"
      using failed(2,3) complete_event_announces [of cfg ExFailed s] by (auto simp: announces_def)
    have "run_post cfg s1 q0 None s ((ls_events ls @ mid) @ [fin])"
      by (rule run_post_returned [OF logged_run_logs [OF logs] budget' _ final_writes(1)])
        (use failed fin nf in \<open>simp_all add: fail_execution_def db\<close>)
    with failed(4) show ?thesis by simp
  next
    case (connector_failed lg now msg mid)
    note logs' = logged_last_run_logs [OF logs q connector_failed(2,1,5)]
    have db': "add_log lg (ls_db ls) = after_steps (rc_execution_id cfg) (rc_tenant_id cfg) (new @ [lg]) s1"
      using connector_failed after_steps_connector [of lg] db by simp
    moreover have "within_budget (rc_tenant_id cfg) (add_log lg (ls_db ls))"
      using budget by (simp add: within_budget_def add_log_def)
    ultimately have budget'': "within_budget (rc_tenant_id cfg)
        (after_steps (rc_execution_id cfg) (rc_tenant_id cfg) (new @ [lg]) s1)" by simp
    have "run_post cfg s1 q0 None s ((ls_events ls @ mid) @ [complete_event (rc_execution_id cfg) ExFailed s])"
      by (rule run_post_returned [OF logs' budget'' _ final_writes(1)])
        (use connector_failed nf complete_event_announces db' in \<open>simp_all add: fail_execution_def\<close>)
    with connector_failed(7,8) show ?thesis by simp
  next
    case (cancelled now msg mid)
    have "run_post cfg s1 q0 None s ((ls_events ls @ mid) @ [complete_event (rc_execution_id cfg) ExCancelled s])"
      by (rule run_post_returned [OF logged_run_logs [OF logs] budget' _ final_writes(2)])
        (use cancelled nf complete_event_announces in \<open>simp_all add: cancel_running_def db\<close>)
    with cancelled(2,3) show ?thesis by simp
  qed
next
  fix ls msg s evs
  assume "run_inv cfg s1 q0 ls" and "ls_queue ls \<noteq> []" and turn: "turn_effect cfg ls (Crash msg s evs)"
  then obtain new where db: "ls_db ls = after_steps (rc_execution_id cfg) (rc_tenant_id cfg) new s1"
    and budget: "within_budget (rc_tenant_id cfg) (ls_db ls)" and nf: "no_final (ls_events ls)"
    and logs: "logged_so_far cfg q0 ls new"
    by (auto simp: run_inv_alt)
  from turn have "s = ls_db ls \<or> (\<exists>now msg. s = cancel_running now (rc_execution_id cfg) msg (ls_db ls))"
    "no_final evs"
    using nf by (auto elim: turn_effect_CrashE)
  with db budget logged_run_logs [OF logs] show "run_post cfg s1 q0 (Some msg) s evs"
    by (auto simp: run_post_def)
next
  fix ls env s evs
  assume "run_inv cfg s1 q0 ls" and q: "ls_queue ls = []" and run: "complete_run env cfg ls = (s, evs)"
  then obtain new where db: "ls_db ls = after_steps (rc_execution_id cfg) (rc_tenant_id cfg) new s1"
    and budget: "within_budget (rc_tenant_id cfg) (ls_db ls)" and nf: "no_final (ls_events ls)"
    and logs: "logged_so_far cfg q0 ls new"
    by (auto simp: run_inv_alt)
  from complete_run_announces [OF run] obtain f fin where fin: "final_write ExCompleted f"
    "s = update_execution (rc_execution_id cfg) f (ls_db ls)" "evs = ls_events ls @ [fin]"
    "announces cfg ExCompleted s fin" by blast
  have "run_post cfg s1 q0 None s (ls_events ls @ [fin])"
    by (rule run_post_returned [OF logged_run_logs [OF logs] budget [unfolded db] _ fin(1)])
      (use fin nf db logs q in \<open>simp_all add: logged_so_far_def\<close>)
  with fin(3) show "run_post cfg s1 q0 None s evs" by simp
qed

end
