(* ===== verification/Runs.thy ===== *)
theory Runs
  imports RunSpec
begin

text \<open>
  The properties of a whole run of the executor, from the summary \<open>run_execution_cases\<close>:
  what it charges, logs, reports and leaves alone, and how it ends.
\<close>

section \<open>The three ways a run goes\<close>

lemma mark_running_SomeD:
  "mark_running now eid s = Some s1 \<Longrightarrow>
    s1 = s\<lparr>executions := row_update (\<lambda>e. ex_id e = eid \<and> ex_status e = ExPending)
      (\<lambda>e. e\<lparr>ex_status := ExRunning, ex_started_at := Some now\<rparr>) (executions s)\<rparr> \<and>
    row_count (\<lambda>e. ex_id e = eid \<and> ex_status e = ExPending) (executions s) \<noteq> 0"
  by (auto simp: mark_running_def Let_def split: if_splits)

text \<open>The final event of a refusal carries zero totals.\<close>

definition refused_by :: "run_env \<Rightarrow> uuid \<Rightarrow> db \<Rightarrow> db \<Rightarrow> ws_event list \<Rightarrow> bool" where
  "refused_by env eid s s' evs \<longleftrightarrow> (\<exists>row_msg event_msg fin.
    s' = fail_execution (re_ended env) eid row_msg s \<and>
    evs = [ErrorEvent event_msg [] 0 False, fin] \<and>
    (fin = ExecutionComplete ExFailed 0 0 (JObj []) \<or> fin = complete_event eid ExFailed s'))"

definition ran :: "run_env \<Rightarrow> uuid \<Rightarrow> uuid \<Rightarrow> uuid \<Rightarrow> db \<Rightarrow> db \<Rightarrow> ws_event list \<Rightarrow>
    run_cfg \<Rightarrow> nid list \<Rightarrow> execution_log list \<Rightarrow> exec_status \<Rightarrow> bool" where
  "ran env eid wid tid s s' evs cfg q0 new st \<longleftrightarrow>
    (\<exists>w g cfgs s1 f pre fin.
      find_workflow wid tid s = Some w \<and>
      compile_graph (re_langgraph env) (wf_definition w) wid tid s = Compiled g cfgs \<and>
      cfg = run_config eid wid tid w cfgs \<and> q0 = initial_queue w \<and>
      mark_running (re_started env) eid s = Some s1 \<and>
      run_logs cfg q0 new \<and> within_budget tid (after_steps eid tid new s1) \<and>
      s' = update_execution eid f (after_steps eid tid new s1) \<and> final_write st f \<and>
      st \<in> {ExCompleted, ExFailed, ExCancelled} \<and>
      evs = pre @ [fin] \<and> no_final pre \<and> announces cfg st s' fin \<and>
      (st = ExCompleted \<longrightarrow> \<not> rc_cyclic cfg \<longrightarrow> map lg_node_id new = filter (runnable cfg) q0))"

lemma run_config_fields [simp]:
  "rc_execution_id (run_config eid wid tid w cfgs) = eid"
  "rc_tenant_id (run_config eid wid tid w cfgs) = tid"
  "rc_cyclic (run_config eid wid tid w cfgs) \<longleftrightarrow> wf_execution_pattern w = ''cyclic''"
  "rc_configs (run_config eid wid tid w cfgs) = cfgs"
  "rc_nodes (run_config eid wid tid w cfgs) = node_by_id (wf_definition w)"
  by (simp_all add: run_config_def)

lemma start_inv:
  assumes "distinct (map tn_id (tenants s))" "within_budget tid s"
  shows "run_inv (run_config eid wid tid w cfgs) s (initial_queue w) (start_state w input s)"
  using assms by (auto simp: run_inv_def start_state_def intro!: exI [of _ "[]"])

lemma tenant_within_budget:
  assumes "distinct (map tn_id (tenants s))" "find_tenant tid s = Some t"
    and "tn_tokens_used_this_month t < tn_monthly_token_budget t"
  shows "within_budget tid s"
proof -
  have t: "tn_id t = tid" "t \<in> set (tenants s)"
    using row_find_SomeD [OF assms(2) [unfolded find_tenant_def]] by auto
  have "t' = t" if "t' \<in> set (tenants s)" "tn_id t' = tid" for t'
    using that t assms(1) by (auto simp: distinct_map dest: inj_onD)
  with assms(3) show ?thesis by (auto simp: within_budget_def)
qed

lemma ranI:
  assumes "find_workflow wid tid s = Some w"
    and "compile_graph (re_langgraph env) (wf_definition w) wid tid s = Compiled g cfgs"
    and "mark_running (re_started env) eid s = Some s1"
    and "run_logs (run_config eid wid tid w cfgs) (initial_queue w) new"
    and "within_budget tid (after_steps eid tid new s1)"
    and "s' = update_execution eid f (after_steps eid tid new s1)" "final_write st f"
    and "st \<in> {ExCompleted, ExFailed, ExCancelled}" "evs = pre @ [fin]" "no_final pre"
    and "announces (run_config eid wid tid w cfgs) st s' fin"
    and "st = ExCompleted \<longrightarrow> wf_execution_pattern w \<noteq> ''cyclic'' \<longrightarrow>
      map lg_node_id new = filter (runnable (run_config eid wid tid w cfgs)) (initial_queue w)"
  shows "ran env eid wid tid s s' evs (run_config eid wid tid w cfgs) (initial_queue w) new st"
  unfolding ran_def run_config_fields using assms by blast

lemma fail_after_cancel: "fail_execution now eid msg (cancel_running now' eid msg' s) = fail_execution now eid msg s"
  by (simp add: fail_execution_def cancel_running_def update_execution_def row_update_row_update o_def)

lemma loop_ran:
  assumes dist: "distinct (map tn_id (tenants s))"
    and w: "find_workflow wid tid s = Some w"
    and t: "find_tenant tid s = Some t" "tn_tokens_used_this_month t < tn_monthly_token_budget t"
    and c: "compile_graph (re_langgraph env) (wf_definition w) wid tid s = Compiled g cfgs"
    and m: "mark_running (re_started env) eid s = Some s1"
    and loop: "run_loop env (run_config eid wid tid w cfgs) (start_state w input s1) = (exc, s2, evs)"
  defines "cfg \<equiv> run_config eid wid tid w cfgs"
  shows "exc = None \<Longrightarrow> \<exists>new st. ran env eid wid tid s s2 evs cfg (initial_queue w) new st"
    and "exc = Some c \<Longrightarrow> \<exists>new. ran env eid wid tid s (fail_execution now eid msg s2)
      (evs @ [ErrorEvent msg [] 0 False, complete_event eid ExFailed (fail_execution now eid msg s2)])
      cfg (initial_queue w) new ExFailed"
proof -
  have "tenants s1 = tenants s" using mark_running_SomeD [OF m] by simp
  then have "distinct (map tn_id (tenants s1))" "within_budget tid s1"
    using dist tenant_within_budget [OF dist t] by (simp_all add: within_budget_def)
  then have inv: "run_inv cfg s1 (initial_queue w) (start_state w input s1)"
    unfolding cfg_def by (rule start_inv)
  note post = run.run_loop_post [OF inv loop [folded cfg_def]]
  show "\<exists>new st. ran env eid wid tid s s2 evs cfg (initial_queue w) new st" if none: "exc = None"
  proof -
    from post obtain new st f pre fin where "run_logs cfg (initial_queue w) new"
      "within_budget tid (after_steps eid tid new s1)" "s2 = update_execution eid f (after_steps eid tid new s1)"
      "final_write st f" "st \<in> {ExCompleted, ExFailed, ExCancelled}" "evs = pre @ [fin]" "no_final pre"
      "announces cfg st s2 fin"
      "st = ExCompleted \<longrightarrow> \<not> rc_cyclic cfg \<longrightarrow> map lg_node_id new = filter (runnable cfg) (initial_queue w)"
      unfolding none run_post_def option.case cfg_def run_config_fields by blast
    then have "ran env eid wid tid s s2 evs (run_config eid wid tid w cfgs) (initial_queue w) new st"
      by (intro ranI [OF w c m]) (simp_all add: cfg_def)
    then show ?thesis unfolding cfg_def by blast
  qed
  show "\<exists>new. ran env eid wid tid s (fail_execution now eid msg s2)
      (evs @ [ErrorEvent msg [] 0 False, complete_event eid ExFailed (fail_execution now eid msg s2)])
      cfg (initial_queue w) new ExFailed" if crash: "exc = Some c"
  proof -
    from post obtain new where "run_logs cfg (initial_queue w) new" "within_budget tid (after_steps eid tid new s1)"
      "s2 = after_steps eid tid new s1 \<or> (\<exists>now msg. s2 = cancel_running now eid msg (after_steps eid tid new s1))"
      "no_final evs"
      unfolding crash run_post_def option.case cfg_def run_config_fields by blast
    moreover from this(3) have "fail_execution now eid msg s2 = update_execution eid
        (\<lambda>e. e\<lparr>ex_status := ExFailed, ex_error_message := Some msg, ex_completed_at := Some now\<rparr>)
        (after_steps eid tid new s1)"
      by (elim disjE exE) (simp_all add: fail_after_cancel, simp_all add: fail_execution_def)
    moreover have "no_final (evs @ [ErrorEvent msg [] 0 False])" using \<open>no_final evs\<close> by simp
    moreover have "announces cfg ExFailed (fail_execution now eid msg s2)
        (complete_event eid ExFailed (fail_execution now eid msg s2))"
      using complete_event_announces [of cfg] by (simp add: cfg_def)
    ultimately have "ran env eid wid tid s (fail_execution now eid msg s2)
        ((evs @ [ErrorEvent msg [] 0 False]) @ [complete_event eid ExFailed (fail_execution now eid msg s2)])
        (run_config eid wid tid w cfgs) (initial_queue w) new ExFailed"
      by (intro ranI [OF w c m _ _ _ final_writes(1) _ refl]) (simp_all add: cfg_def)
    then show ?thesis unfolding cfg_def by auto
  qed
qed

lemma run_execution_cases:
  assumes dist: "distinct (map tn_id (tenants s))"
    and run: "run_execution env eid wid tid input s = (s', evs)"
  obtains (refused) "refused_by env eid s s' evs"
  | (stale) "s' = s" "evs = []" "\<forall>e \<in> set (executions s). ex_id e = eid \<longrightarrow> ex_status e \<noteq> ExPending"
  | (ran) cfg q0 new st where "ran env eid wid tid s s' evs cfg q0 new st"
proof -
  obtain exc s2 evs2 where inner: "run_execution_inner env eid wid tid input s = (exc, s2, evs2)"
    by (cases "run_execution_inner env eid wid tid input s")
  have result: "(s', evs) = (case exc of None \<Rightarrow> (s2, evs2)
    | Some exc \<Rightarrow> (let msg = crash_text exc; s'' = fail_execution (re_ended env) eid msg s2 in
        (s'', evs2 @ [ErrorEvent msg [] 0 False, complete_event eid ExFailed s''])))"
    using run inner by (simp add: run_execution_def split: option.splits)
  have early: "refused_by env eid s s' evs" if "exc = Some c" "s2 = s" "evs2 = []" for c
    using result that by (auto simp: refused_by_def Let_def)
  have refuse: "refused_by env eid s s' evs"
    if "(exc, s2, evs2) = refuse env eid row_msg event_msg s" for row_msg event_msg
    using result that by (auto simp: refused_by_def refuse_def)
  show thesis
  proof (cases "find_workflow wid tid s")
    case None
    with inner show thesis by (intro refused early) (auto simp: run_execution_inner_def)
  next
    case w: (Some w)
    show thesis
    proof (cases "df_nodes (wf_definition w) = [] \<or> find_tenant tid s = None")
      case True
      with inner w show thesis
        by (cases "df_nodes (wf_definition w) = []")
          (intro refused early, auto simp: run_execution_inner_def)+
    next
      case False
      then obtain t where t: "find_tenant tid s = Some t" and nodes: "df_nodes (wf_definition w) \<noteq> []" by auto
      show thesis
      proof (cases "tn_monthly_token_budget t \<le> tn_tokens_used_this_month t")
        case True
        with inner w t nodes have "(exc, s2, evs2) =
            refuse env eid ''Monthly token budget exceeded'' ''Monthly token budget exceeded'' s"
          by (simp add: run_execution_inner_def)
        then show thesis by (rule refused [OF refuse])
      next
        case budget: False
        show thesis
        proof (cases "compile_graph (re_langgraph env) (wf_definition w) wid tid s")
          case (Rejected err)
          with inner w t nodes budget have "(exc, s2, evs2) =
              refuse env eid (''Compilation error: '' @ compilation_message err) (compilation_message err) s"
            by (simp add: run_execution_inner_def)
          then show thesis by (rule refused [OF refuse])
        next
          case (GraphError msg)
          with inner w t nodes budget show thesis
            by (intro refused early) (auto simp: run_execution_inner_def)
        next
          case (Compiled g cfgs)
          show thesis
          proof (cases "mark_running (re_started env) eid s")
            case None
            with inner w t nodes budget Compiled result have "s' = s" "evs = []"
              by (auto simp: run_execution_inner_def)
            moreover have "\<forall>e \<in> set (executions s). ex_id e = eid \<longrightarrow> ex_status e \<noteq> ExPending"
              using None by (auto simp: mark_running_def Let_def row_count_def filter_empty_iff split: if_splits)
            ultimately show thesis by (rule stale)
          next
            case m: (Some s1)
            with inner w t nodes budget Compiled
            have "run_loop env (run_config eid wid tid w cfgs) (start_state w input s1) = (exc, s2, evs2)"
              by (simp add: run_execution_inner_def)
            note loop = loop_ran [OF dist w t _ Compiled m this]
            show thesis
            proof (cases exc)
              case None
              with loop(1) budget result show thesis by (auto intro: ran)
            next
              case (Some c)
              with loop(2) [of c "re_ended env" "crash_text c"] budget result show thesis by (auto simp: Let_def intro: ran)
            qed
          qed
        qed
      qed
    qed
  qed
qed

section \<open>The effect of a run\<close>

text \<open>A write to an execution row that keeps its identity and adds to its totals.\<close>

definition adds_totals :: "int \<Rightarrow> rat \<Rightarrow> (execution \<Rightarrow> execution) \<Rightarrow> bool" where
  "adds_totals tokens cost F \<longleftrightarrow> (\<forall>e.
    ex_id (F e) = ex_id e \<and> ex_tenant_id (F e) = ex_tenant_id e \<and> ex_workflow_id (F e) = ex_workflow_id e \<and>
    ex_input_data (F e) = ex_input_data e \<and> ex_created_at (F e) = ex_created_at e \<and>
    ex_total_tokens (F e) = ex_total_tokens e + tokens \<and> ex_total_cost (F e) = ex_total_cost e + cost)"

lemma final_write_adds: "final_write st f \<Longrightarrow> adds_totals 0 0 f"
  unfolding final_write_def adds_totals_def
proof
  fix e assume "\<forall>e. \<exists>out err now. f e = e\<lparr>ex_status := st, ex_output_data := out,
    ex_error_message := err, ex_completed_at := Some now\<rparr>"
  then obtain out err now where "f e = e\<lparr>ex_status := st, ex_output_data := out,
    ex_error_message := err, ex_completed_at := Some now\<rparr>" by blast
  then show "ex_id (f e) = ex_id e \<and> ex_tenant_id (f e) = ex_tenant_id e \<and>
    ex_workflow_id (f e) = ex_workflow_id e \<and> ex_input_data (f e) = ex_input_data e \<and>
    ex_created_at (f e) = ex_created_at e \<and> ex_total_tokens (f e) = ex_total_tokens e + 0 \<and>
    ex_total_cost (f e) = ex_total_cost e + 0" by simp
qed

lemma final_write_status: "final_write st f \<Longrightarrow> ex_status (f e) = st"
proof -
  assume "final_write st f"
  then obtain out err now where "f e = e\<lparr>ex_status := st, ex_output_data := out,
    ex_error_message := err, ex_completed_at := Some now\<rparr>" unfolding final_write_def by blast
  then show ?thesis by simp
qed

lemma row_update_restrict:
  "row_update (\<lambda>r. p r \<and> q r) f rows = row_update p (\<lambda>r. if q r then f r else r) rows"
  by (induction rows) auto

definition run_write :: "instant \<Rightarrow> execution_log list \<Rightarrow> (execution \<Rightarrow> execution) \<Rightarrow> execution \<Rightarrow> execution" where
  "run_write started new f e =
    (let e1 = (if ex_status e = ExPending then e\<lparr>ex_status := ExRunning, ex_started_at := Some started\<rparr> else e)
     in f (e1\<lparr>ex_total_tokens := ex_total_tokens e1 + log_tokens new,
              ex_total_cost := ex_total_cost e1 + log_cost new\<rparr>))"

lemma run_write_adds:
  assumes "final_write st f" shows "adds_totals (log_tokens new) (log_cost new) (run_write now new f)"
  using final_write_adds [OF assms] by (simp add: adds_totals_def run_write_def Let_def)

lemma run_write_status: "final_write st f \<Longrightarrow> ex_status (run_write now new f e) = st"
  by (simp add: run_write_def Let_def final_write_status)

text \<open>The tables after a run that was not refused.\<close>

lemma ran_tables:
  assumes "ran env eid wid tid s s' evs cfg q0 new st"
  shows "\<exists>f. final_write st f \<and> s' = s\<lparr>
      tenants := row_update (\<lambda>t. tn_id t = tid)
        (\<lambda>t. t\<lparr>tn_tokens_used_this_month := tn_tokens_used_this_month t + log_tokens new\<rparr>) (tenants s),
      executions := row_update (\<lambda>e. ex_id e = eid) (run_write (re_started env) new f) (executions s),
      execution_logs := execution_logs s @ new\<rparr>"
    and "\<forall>t \<in> set (tenants s). tn_id t = tid \<longrightarrow>
      tn_tokens_used_this_month t + log_tokens new \<le> tn_monthly_token_budget t"
proof -
  from assms obtain s1 f where m: "mark_running (re_started env) eid s = Some s1"
    and budget: "within_budget tid (after_steps eid tid new s1)"
    and s': "s' = update_execution eid f (after_steps eid tid new s1)" and f: "final_write st f"
    unfolding ran_def by blast
  note s1 = conjunct1 [OF mark_running_SomeD [OF m]]
  have "executions s' = row_update (\<lambda>e. ex_id e = eid) (run_write (re_started env) new f) (executions s)"
    unfolding s' update_execution_def after_steps_def s1 run_write_def Let_def
    by (simp add: row_update_restrict row_update_row_update)
  then have "s' = s\<lparr>
      tenants := row_update (\<lambda>t. tn_id t = tid)
        (\<lambda>t. t\<lparr>tn_tokens_used_this_month := tn_tokens_used_this_month t + log_tokens new\<rparr>) (tenants s),
      executions := row_update (\<lambda>e. ex_id e = eid) (run_write (re_started env) new f) (executions s),
      execution_logs := execution_logs s @ new\<rparr>"
    unfolding s' update_execution_def after_steps_def s1 by simp
  with f show "\<exists>f. final_write st f \<and> s' = s\<lparr>
      tenants := row_update (\<lambda>t. tn_id t = tid)
        (\<lambda>t. t\<lparr>tn_tokens_used_this_month := tn_tokens_used_this_month t + log_tokens new\<rparr>) (tenants s),
      executions := row_update (\<lambda>e. ex_id e = eid) (run_write (re_started env) new f) (executions s),
      execution_logs := execution_logs s @ new\<rparr>" by blast
  have "tn_tokens_used_this_month t + log_tokens new \<le> tn_monthly_token_budget t"
    if "t \<in> set (tenants s)" "tn_id t = tid" for t
  proof -
    let ?t = "t\<lparr>tn_tokens_used_this_month := tn_tokens_used_this_month t + log_tokens new\<rparr>"
    have "?t \<in> set (tenants (after_steps eid tid new s1))"
      using that by (auto simp: after_steps_def s1 set_row_update intro!: image_eqI [of _ _ t])
    with budget that show ?thesis by (auto simp: within_budget_def)
  qed
  then show "\<forall>t \<in> set (tenants s). tn_id t = tid \<longrightarrow>
      tn_tokens_used_this_month t + log_tokens new \<le> tn_monthly_token_budget t" by blast
qed

lemma ran_logs:
  "ran env eid wid tid s s' evs cfg q0 new st \<Longrightarrow> run_logs cfg q0 new \<and> rc_execution_id cfg = eid"
  by (auto simp: ran_def)

lemma run_execution_effect:
  assumes "distinct (map tn_id (tenants s))" "run_execution env eid wid tid input s = (s', evs)"
  shows "\<exists>new F. s' = s\<lparr>
      tenants := row_update (\<lambda>t. tn_id t = tid)
        (\<lambda>t. t\<lparr>tn_tokens_used_this_month := tn_tokens_used_this_month t + log_tokens new\<rparr>) (tenants s),
      executions := row_update (\<lambda>e. ex_id e = eid) F (executions s),
      execution_logs := execution_logs s @ new\<rparr> \<and>
    adds_totals (log_tokens new) (log_cost new) F \<and>
    (\<forall>lg \<in> set new. lg_execution_id lg = eid) \<and> map lg_step_number new = [1..<Suc (length new)] \<and>
    (new \<noteq> [] \<longrightarrow> (\<forall>t \<in> set (tenants s). tn_id t = tid \<longrightarrow>
      tn_tokens_used_this_month t + log_tokens new \<le> tn_monthly_token_budget t))"
  using assms
proof (cases rule: run_execution_cases)
  case refused
  then obtain row_msg where "s' = fail_execution (re_ended env) eid row_msg s"
    by (auto simp: refused_by_def)
  then show ?thesis
    using final_write_adds [OF final_writes(1) [where msg = row_msg and now = "re_ended env"]]
    by (intro exI [of _ "[]"] exI [of _ "\<lambda>e. e\<lparr>ex_status := ExFailed,
        ex_error_message := Some row_msg, ex_completed_at := Some (re_ended env)\<rparr>"])
      (simp add: fail_execution_def update_execution_def row_update_ident)
next
  case stale
  then show ?thesis
    by (intro exI [of _ "[]"] exI [of _ "\<lambda>e. e"]) (simp add: adds_totals_def row_update_ident)
next
  case (ran cfg q0 new st)
  from ran_tables(1) [OF ran] obtain f where "final_write st f" "s' = s\<lparr>
      tenants := row_update (\<lambda>t. tn_id t = tid)
        (\<lambda>t. t\<lparr>tn_tokens_used_this_month := tn_tokens_used_this_month t + log_tokens new\<rparr>) (tenants s),
      executions := row_update (\<lambda>e. ex_id e = eid) (run_write (re_started env) new f) (executions s),
      execution_logs := execution_logs s @ new\<rparr>" by blast
  with run_write_adds ran_tables(2) [OF ran] ran_logs [OF ran] show ?thesis
    unfolding run_logs_def by blast
qed

end
