(* ===== verification/RunProperties.thy ===== *)
theory RunProperties
  imports Runs Samples
begin

text \<open>
  The properties of a run, for every environment: budget, accounting, isolation, ending,
  order of the nodes, routing; and the cases where a run overwrites an execution that was
  not waiting for it.
\<close>

section \<open>A sample run\<close>

definition sample_run :: "db \<Rightarrow> db \<times> ws_event list" where
  "sample_run s = run_execution sample_env ''e1'' ''w1'' ''t1'' JNull s"

lemma sample_run_completes:
  "map lg_node_id (execution_logs (fst (sample_run (sample_db ExPending 0)))) =
     [Some ''start'', Some ''left'', Some ''right'', Some ''join''] \<and>
   map ex_status (executions (fst (sample_run (sample_db ExPending 0)))) = [ExCompleted, ExCompleted]"
  by code_simp

section \<open>Budget, accounting and isolation\<close>

lemma run_execution_pair: "run_execution env eid wid tid input s = (fst (run_execution env eid wid tid input s),
    snd (run_execution env eid wid tid input s))"
  by simp

lemma run_execution_budget:
  assumes "distinct (map tn_id (tenants s))"
    and "\<forall>t \<in> set (tenants s). tn_tokens_used_this_month t \<le> tn_monthly_token_budget t"
  shows "\<forall>t \<in> set (tenants (fst (run_execution env eid wid tid input s))).
    tn_tokens_used_this_month t \<le> tn_monthly_token_budget t"
proof -
  from run_execution_effect [OF assms(1) run_execution_pair [of env eid wid tid input s]] obtain new F where
    eff: "fst (run_execution env eid wid tid input s) = s\<lparr>
      tenants := row_update (\<lambda>t. tn_id t = tid)
        (\<lambda>t. t\<lparr>tn_tokens_used_this_month := tn_tokens_used_this_month t + log_tokens new\<rparr>) (tenants s),
      executions := row_update (\<lambda>e. ex_id e = eid) F (executions s),
      execution_logs := execution_logs s @ new\<rparr>"
    "new \<noteq> [] \<longrightarrow> (\<forall>t \<in> set (tenants s). tn_id t = tid \<longrightarrow>
      tn_tokens_used_this_month t + log_tokens new \<le> tn_monthly_token_budget t)"
    by blast
  then have tn: "tenants (fst (run_execution env eid wid tid input s)) =
      row_update (\<lambda>t. tn_id t = tid)
        (\<lambda>t. t\<lparr>tn_tokens_used_this_month := tn_tokens_used_this_month t + log_tokens new\<rparr>) (tenants s)"
    by simp
  note eff(2) tn
  with assms(2) show ?thesis
    by (cases "new = []") (auto simp: set_row_update row_update_ident)
qed

text \<open>
  C1: no run takes a tenant over its monthly budget, whatever the providers answer: if every
  tenant is within its budget before a run, every tenant is after it.
\<close>

theorem run_execution_keeps_budget:
  assumes "distinct (map tn_id (tenants s))"
    and "\<forall>t \<in> set (tenants s). tn_tokens_used_this_month t \<le> tn_monthly_token_budget t"
  shows "\<forall>t \<in> set (tenants (fst (run_execution env eid wid tid input s))).
    tn_tokens_used_this_month t \<le> tn_monthly_token_budget t"
  using assms by (rule run_execution_budget)

theorem run_execution_keeps_budget_witness:
  "list_all (\<lambda>t. tn_tokens_used_this_month t \<le> tn_monthly_token_budget t)
    (tenants (fst (sample_run (sample_db ExPending 0))))"
proof -
  have "\<forall>t \<in> set (tenants (sample_db ExPending 0)). tn_tokens_used_this_month t \<le> tn_monthly_token_budget t"
    by (simp add: sample_db_def sample_tenant_def)
  from run_execution_keeps_budget [OF sample_db_keys this] show ?thesis
    by (simp add: sample_run_def list_all_iff)
qed

text \<open>
  C6: the books balance. A run appends log rows of its own execution, numbered from one; what
  it adds to the execution's totals and to the tenant's monthly usage is the sum of the tokens
  in these rows, and the cost total grows by the sum of their costs.
\<close>

theorem run_execution_accounting:
  assumes "distinct (map tn_id (tenants s))" "find_tenant tid s = Some t" "find_execution eid s = Some e"
  shows "\<exists>new e'. execution_logs (fst (run_execution env eid wid tid input s)) = execution_logs s @ new \<and>
    (\<forall>lg \<in> set new. lg_execution_id lg = eid) \<and>
    map lg_step_number new = [1..<Suc (length new)] \<and>
    find_tenant tid (fst (run_execution env eid wid tid input s)) =
      Some (t\<lparr>tn_tokens_used_this_month := tn_tokens_used_this_month t + log_tokens new\<rparr>) \<and>
    find_execution eid (fst (run_execution env eid wid tid input s)) = Some e' \<and>
    ex_total_tokens e' = ex_total_tokens e + log_tokens new \<and>
    ex_total_cost e' = ex_total_cost e + log_cost new"
proof -
  from run_execution_effect [OF assms(1) run_execution_pair [of env eid wid tid input s]] obtain new F where
    eff: "fst (run_execution env eid wid tid input s) = s\<lparr>
      tenants := row_update (\<lambda>t. tn_id t = tid)
        (\<lambda>t. t\<lparr>tn_tokens_used_this_month := tn_tokens_used_this_month t + log_tokens new\<rparr>) (tenants s),
      executions := row_update (\<lambda>e. ex_id e = eid) F (executions s),
      execution_logs := execution_logs s @ new\<rparr>"
    "adds_totals (log_tokens new) (log_cost new) F"
    "\<forall>lg \<in> set new. lg_execution_id lg = eid" "map lg_step_number new = [1..<Suc (length new)]"
    by blast
  have "find_execution eid (fst (run_execution env eid wid tid input s)) = Some (F e)"
    using assms(3) eff(2) by (simp add: eff(1) find_execution_def row_find_key_update adds_totals_def)
  moreover have "find_tenant tid (fst (run_execution env eid wid tid input s)) =
      Some (t\<lparr>tn_tokens_used_this_month := tn_tokens_used_this_month t + log_tokens new\<rparr>)"
    using assms(2) by (simp add: eff(1) find_tenant_def row_find_key_update)
  ultimately show ?thesis
    using eff(2-4) by (intro exI [of _ new] exI [of _ "F e"]) (simp add: eff(1) adds_totals_def)
qed

theorem run_execution_accounting_witness:
  "\<exists>new. execution_logs (fst (sample_run (sample_db ExPending 0))) = new \<and>
    find_tenant ''t1'' (fst (sample_run (sample_db ExPending 0))) =
      Some (sample_tenant ''t1'' 1000 (log_tokens new))"
proof -
  have "find_tenant ''t1'' (sample_db ExPending 0) = Some (sample_tenant ''t1'' 1000 0)"
    "find_execution ''e1'' (sample_db ExPending 0) = Some (sample_execution ''e1'' ''w1'' ExPending)"
    by (simp_all add: sample_db_def find_tenant_def find_execution_def sample_tenant_def sample_execution_def)
  from run_execution_accounting [OF sample_db_keys this, of sample_env "''w1''" JNull] show ?thesis
    by (auto simp: sample_run_def sample_db_def empty_db_def sample_tenant_def)
qed

text \<open>
  C8: a run touches nothing of others. Beside the log rows it appends, only the usage of its
  own tenant and the row of its own execution change: every other row of these tables and
  every other table of the database is what it was.
\<close>

theorem run_execution_isolated:
  fixes s :: db and env :: run_env and eid wid tid :: uuid and input :: json
  assumes "distinct (map tn_id (tenants s))"
  defines "s' \<equiv> fst (run_execution env eid wid tid input s)"
  shows "s' = s\<lparr>tenants := tenants s', executions := executions s', execution_logs := execution_logs s'\<rparr> \<and>
    map (\<lambda>t. if tn_id t = tid then t\<lparr>tn_tokens_used_this_month := 0\<rparr> else t) (tenants s') =
      map (\<lambda>t. if tn_id t = tid then t\<lparr>tn_tokens_used_this_month := 0\<rparr> else t) (tenants s) \<and>
    filter (\<lambda>e. ex_id e \<noteq> eid) (executions s') = filter (\<lambda>e. ex_id e \<noteq> eid) (executions s) \<and>
    map ex_id (executions s') = map ex_id (executions s) \<and>
    filter (\<lambda>lg. lg_execution_id lg \<noteq> eid) (execution_logs s') =
      filter (\<lambda>lg. lg_execution_id lg \<noteq> eid) (execution_logs s)"
proof -
  from run_execution_effect [OF assms(1) run_execution_pair [of env eid wid tid input s]] obtain new F where
    eff: "s' = s\<lparr>
      tenants := row_update (\<lambda>t. tn_id t = tid)
        (\<lambda>t. t\<lparr>tn_tokens_used_this_month := tn_tokens_used_this_month t + log_tokens new\<rparr>) (tenants s),
      executions := row_update (\<lambda>e. ex_id e = eid) F (executions s),
      execution_logs := execution_logs s @ new\<rparr>"
    "adds_totals (log_tokens new) (log_cost new) F" "\<forall>lg \<in> set new. lg_execution_id lg = eid"
    unfolding s'_def by blast
  have F: "ex_id (F e) = ex_id e" for e using eff(2) by (simp add: adds_totals_def)
  show ?thesis
    unfolding eff(1) using F eff(3)
    by (simp add: map_row_update filter_row_update_other filter_empty_iff)
qed

theorem run_execution_isolated_witness:
  "filter (\<lambda>e. ex_id e \<noteq> ''e1'') (executions (fst (sample_run (sample_db ExPending 0)))) =
    [sample_execution ''e0'' ''w1'' ExCompleted]"
  using run_execution_isolated [OF sample_db_keys [of ExPending 0], of sample_env "''e1''" "''w1''" "''t1''" JNull]
  by (simp add: sample_run_def sample_db_def sample_execution_def)

section \<open>How a run ends\<close>

lemma find_fail_execution:
  "find_execution eid (fail_execution now eid msg s) =
    map_option (\<lambda>e. e\<lparr>ex_status := ExFailed, ex_error_message := Some msg, ex_completed_at := Some now\<rparr>)
      (find_execution eid s)"
  by (simp add: fail_execution_def find_update_execution)

lemma complete_event_status: "\<exists>tokens cost out. complete_event eid st s = ExecutionComplete st tokens cost out"
  by (auto simp: complete_event_def split: option.split)

lemma ran_find_execution:
  assumes "ran env eid wid tid s s' evs cfg q0 new st" "find_execution eid s = Some e"
  shows "\<exists>e'. find_execution eid s' = Some e' \<and> ex_status e' = st"
proof -
  from ran_tables(1) [OF assms(1)] obtain f where f: "final_write st f"
    and s': "executions s' = row_update (\<lambda>e. ex_id e = eid) (run_write (re_started env) new f) (executions s)"
    by auto
  have "ex_id (run_write (re_started env) new f e) = ex_id e" for e
    using run_write_adds [OF f] by (simp add: adds_totals_def)
  with s' assms(2) have "find_execution eid s' = Some (run_write (re_started env) new f e)"
    by (simp add: find_execution_def row_find_key_update)
  with run_write_status [OF f] show ?thesis by blast
qed

lemma run_execution_final:
  assumes "distinct (map tn_id (tenants s))"
    and "find_execution eid s = Some e" "ex_status e = ExPending"
    and run: "run_execution env eid wid tid input s = (s', evs)"
  shows "\<exists>e' pre tokens cost out. find_execution eid s' = Some e' \<and>
    ex_status e' \<in> {ExCompleted, ExFailed, ExCancelled} \<and>
    evs = pre @ [ExecutionComplete (ex_status e') tokens cost out] \<and> no_final pre"
  using assms(1) run
proof (cases rule: run_execution_cases)
  case refused
  then obtain row_msg event_msg fin where
    r: "s' = fail_execution (re_ended env) eid row_msg s" "evs = [ErrorEvent event_msg [] 0 False] @ [fin]"
      "fin = ExecutionComplete ExFailed 0 0 (JObj []) \<or> fin = complete_event eid ExFailed s'"
    by (auto simp: refused_by_def)
  then obtain tokens cost out where "fin = ExecutionComplete ExFailed tokens cost out"
    using complete_event_status by blast
  with r assms(2) show ?thesis by (simp add: find_fail_execution)
next
  case stale
  with assms(2,3) show ?thesis
    using row_find_SomeD [of _ "executions s" e] by (auto simp: find_execution_def)
next
  case (ran cfg q0 new st)
  from ran_find_execution [OF ran assms(2)] obtain e' where e': "find_execution eid s' = Some e'" "ex_status e' = st"
    by blast
  from ran have "st \<in> {ExCompleted, ExFailed, ExCancelled}"
    "\<exists>pre fin. evs = pre @ [fin] \<and> no_final pre \<and> announces cfg st s' fin"
    unfolding ran_def by blast+
  with e' show ?thesis unfolding announces_def by blast
qed

text \<open>
  C3: every run of a waiting execution ends, and says how: the execution goes from pending to
  completed, failed or cancelled, and the subscribers get exactly one \<open>execution_complete\<close>
  event, the last one, with the status the row has.
\<close>

theorem run_execution_ends:
  assumes "distinct (map tn_id (tenants s))"
    and "find_execution eid s = Some e" "ex_status e = ExPending"
    and run: "run_execution env eid wid tid input s = (s', evs)"
  shows "\<exists>e' pre tokens cost out. find_execution eid s' = Some e' \<and>
    ex_status e' \<in> {ExCompleted, ExFailed, ExCancelled} \<and>
    evs = pre @ [ExecutionComplete (ex_status e') tokens cost out] \<and> no_final pre"
  by (rule run_execution_final [OF assms])

theorem run_execution_ends_witness:
  "\<exists>e'. find_execution ''e1'' (fst (sample_run (sample_db ExPending 1000))) = Some e' \<and>
    ex_status e' \<in> {ExCompleted, ExFailed, ExCancelled}"
proof -
  have "find_execution ''e1'' (sample_db ExPending 1000) = Some (sample_execution ''e1'' ''w1'' ExPending)"
    by (simp add: sample_db_def find_execution_def sample_execution_def)
  moreover have "ex_status (sample_execution ''e1'' ''w1'' ExPending) = ExPending"
    by (simp add: sample_execution_def)
  ultimately show ?thesis
    unfolding sample_run_def
    using run_execution_ends [OF sample_db_keys _ _ run_execution_pair [of sample_env "''e1''" "''w1''" "''t1''" JNull]]
    by blast
qed

text \<open>
  The two early failures do not look at the status of the execution. When the tenant has
  spent its budget, a run marks as failed an execution that was cancelled, or completed,
  before the run started.
\<close>

theorem spent_budget_overwrites_status:
  assumes "find_workflow wid tid s = Some w" "df_nodes (wf_definition w) \<noteq> []"
    and "find_tenant tid s = Some t" "tn_tokens_used_this_month t \<ge> tn_monthly_token_budget t"
    and "find_execution eid s = Some e"
  shows "find_execution eid (fst (run_execution env eid wid tid input s)) =
    Some (e\<lparr>ex_status := ExFailed, ex_error_message := Some ''Monthly token budget exceeded'',
      ex_completed_at := Some (re_ended env)\<rparr>)"
  using assms by (simp add: run_execution_def run_execution_inner_def refuse_def find_fail_execution)

theorem spent_budget_overwrites_status_witness:
  "map_option ex_status (find_execution ''e1'' (sample_db ExCancelled 1000)) = Some ExCancelled \<and>
   map_option ex_status (find_execution ''e1'' (fst (sample_run (sample_db ExCancelled 1000)))) = Some ExFailed"
proof -
  let ?s = "sample_db ExCancelled 1000"
  have "find_workflow ''w1'' ''t1'' ?s = Some (sample_workflow ''w1'' diamond ''linear'')"
    "df_nodes (wf_definition (sample_workflow ''w1'' diamond ''linear'')) \<noteq> []"
    "find_tenant ''t1'' ?s = Some (sample_tenant ''t1'' 1000 1000)"
    "tn_monthly_token_budget (sample_tenant ''t1'' 1000 1000) \<le> tn_tokens_used_this_month (sample_tenant ''t1'' 1000 1000)"
    "find_execution ''e1'' ?s = Some (sample_execution ''e1'' ''w1'' ExCancelled)"
    by (simp_all add: sample_db_def find_workflow_def sample_workflow_def diamond_def find_tenant_def
        sample_tenant_def find_execution_def sample_execution_def)
  from spent_budget_overwrites_status [OF this, of sample_env JNull] this(5) show ?thesis
    by (simp add: sample_run_def sample_execution_def)
qed

text \<open>
  Past the early checks the start is guarded: a run whose execution is no longer pending
  (cancelled while it waited, or taken by another worker) changes nothing and reports nothing.
\<close>

theorem run_execution_not_pending:
  assumes "find_workflow wid tid s = Some w" "df_nodes (wf_definition w) \<noteq> []"
    and "find_tenant tid s = Some t" "tn_tokens_used_this_month t < tn_monthly_token_budget t"
    and "compile_graph (re_langgraph env) (wf_definition w) wid tid s = Compiled g cfgs"
    and "\<forall>e \<in> set (executions s). ex_id e = eid \<longrightarrow> ex_status e \<noteq> ExPending"
  shows "run_execution env eid wid tid input s = (s, [])"
proof -
  have "mark_running (re_started env) eid s = None"
    using assms(6) by (auto simp: mark_running_def Let_def row_count_def filter_empty_iff)
  with assms show ?thesis by (simp add: run_execution_def run_execution_inner_def)
qed

theorem run_execution_not_pending_witness:
  "sample_run (sample_db ExCancelled 10) = (sample_db ExCancelled 10, [])"
proof -
  let ?s = "sample_db ExCancelled 10"
  have "find_workflow ''w1'' ''t1'' ?s = Some (sample_workflow ''w1'' diamond ''linear'')"
    "df_nodes (wf_definition (sample_workflow ''w1'' diamond ''linear'')) \<noteq> []"
    "find_tenant ''t1'' ?s = Some (sample_tenant ''t1'' 1000 10)"
    "tn_tokens_used_this_month (sample_tenant ''t1'' 1000 10) < tn_monthly_token_budget (sample_tenant ''t1'' 1000 10)"
    by (simp_all add: sample_db_def find_workflow_def sample_workflow_def diamond_def find_tenant_def
        sample_tenant_def)
  moreover have "compile_graph (re_langgraph sample_env) (wf_definition (sample_workflow ''w1'' diamond ''linear''))
      ''w1'' ''t1'' ?s = Compiled (build_state_graph diamond)
        (map (\<lambda>i. (i, sample_agent i)) [''start'', ''left'', ''right'', ''join''])"
    by code_simp
  moreover have "\<forall>e \<in> set (executions ?s). ex_id e = ''e1'' \<longrightarrow> ex_status e \<noteq> ExPending"
    by (simp add: sample_db_def sample_execution_def)
  ultimately show ?thesis unfolding sample_run_def by (rule run_execution_not_pending)
qed

section \<open>The order of the nodes\<close>

lemma node_by_id_entry:
  assumes "distinct (map nd_id (df_nodes d))" "n \<in> set (df_nodes d)" "nd_id n = Some i" "i \<noteq> []"
  shows "dget i (node_by_id d) = Some n"
proof -
  let ?pairs = "\<lambda>n. case nd_id n of None \<Rightarrow> [] | Some i \<Rightarrow> if i = [] then [] else [(i, n)]"
  have "(j, m) \<in> set (concat (map ?pairs (df_nodes d))) \<Longrightarrow> m \<in> set (df_nodes d) \<and> nd_id m = Some j" for j m
    by (auto split: option.splits if_splits)
  moreover have "(i, n) \<in> set (concat (map ?pairs (df_nodes d)))"
    using assms(2-4) by force
  moreover have "m = n" if "m \<in> set (df_nodes d)" "nd_id m = Some i" for m
    using that assms(1-3) by (metis distinct_map inj_onD)
  ultimately have only: "(i, m) \<in> set (rev (concat (map ?pairs (df_nodes d)))) \<longleftrightarrow> m = n" for m
    unfolding set_rev by blast
  have "map_of (rev (concat (map ?pairs (df_nodes d)))) i = Some n"
  proof (cases "map_of (rev (concat (map ?pairs (df_nodes d)))) i")
    case None
    then have "i \<notin> fst ` set (rev (concat (map ?pairs (df_nodes d))))" by (rule map_of_eq_None_iff [THEN iffD1])
    with imageI [OF only [THEN iffD2, OF refl], of fst] show ?thesis unfolding fst_conv by contradiction
  next
    case (Some m)
    then have "(i, m) \<in> set (rev (concat (map ?pairs (df_nodes d))))" by (rule map_of_SomeD)
    with only [of m] Some show ?thesis by simp
  qed
  then show ?thesis by (simp add: node_by_id_def dget_dupdate)
qed

text \<open>A node the executor knows: named, an agent or a connector.\<close>

definition executable_node :: "node \<Rightarrow> bool" where
  "executable_node n \<longleftrightarrow> nd_id n \<noteq> None \<and> nd_id n \<noteq> Some [] \<and> node_kind n \<in> {''agent'', ''connector''}"

lemma executable_runnable:
  assumes "distinct (map nd_id (df_nodes (wf_definition w)))"
    and "compile_graph lg (wf_definition w) wid tid s = Compiled g cfgs"
    and "n \<in> set (df_nodes (wf_definition w))" "executable_node n"
  shows "runnable (run_config eid wid tid w cfgs) (nd_id n)"
proof (cases "node_kind n = ''connector''")
  case True
  from assms(4) obtain i where "nd_id n = Some i" "i \<noteq> []" by (auto simp: executable_node_def)
  with node_by_id_entry [OF assms(1,3)] True show ?thesis
    by (simp add: runnable_def lookup_nid_def)
next
  case False
  with assms(4) have "node_kind n = ''agent''" by (simp add: executable_node_def)
  from compile_agent_node_config [OF assms(2,3) this] show ?thesis
    by (auto simp: runnable_def lookup_nid_def)
qed

text \<open>
  C7: a linear run that completes has executed every node of the workflow exactly once, in
  topological order: the nodes of its log rows are the nodes of the definition in the order
  of \<open>_topological_sort\<close>.
\<close>

theorem completed_linear_run_order:
  assumes "distinct (map tn_id (tenants s))" "find_execution eid s = Some e" "ex_status e = ExPending"
    and w: "find_workflow wid tid s = Some w" "wf_execution_pattern w \<noteq> ''cyclic''"
    and nodes: "distinct (map nd_id (df_nodes (wf_definition w)))"
      "\<forall>n \<in> set (df_nodes (wf_definition w)). executable_node n"
    and run: "run_execution env eid wid tid input s = (s', evs)"
    and completed: "find_execution eid s' = Some e'" "ex_status e' = ExCompleted"
  shows "\<exists>new. execution_logs s' = execution_logs s @ new \<and>
    map lg_node_id new = topological_sort (df_nodes (wf_definition w)) (df_edges (wf_definition w)) \<and>
    mset (map lg_node_id new) = mset (map nd_id (df_nodes (wf_definition w)))"
  using assms(1) run
proof (cases rule: run_execution_cases)
  case refused
  then obtain row_msg where "s' = fail_execution (re_ended env) eid row_msg s" by (auto simp: refused_by_def)
  with assms(2) completed show ?thesis by (auto simp: find_fail_execution)
next
  case stale
  with assms(2,3) completed show ?thesis by auto
next
  case (ran cfg q0 new st)
  from ran_find_execution [OF ran assms(2)] completed have st: "st = ExCompleted" by auto
  from ran w(1) obtain g cfgs where c: "compile_graph (re_langgraph env) (wf_definition w) wid tid s = Compiled g cfgs"
    and cfg: "cfg = run_config eid wid tid w cfgs" and q0: "q0 = initial_queue w"
    and order: "st = ExCompleted \<longrightarrow> \<not> rc_cyclic cfg \<longrightarrow> map lg_node_id new = filter (runnable cfg) q0"
    unfolding ran_def by auto
  let ?order = "topological_sort (df_nodes (wf_definition w)) (df_edges (wf_definition w))"
  have q: "q0 = ?order" using w(2) q0 by (simp add: initial_queue_def)
  have perm: "mset ?order = mset (map nd_id (df_nodes (wf_definition w)))"
    by (rule topological_sort_mset [OF nodes(1)])
  have "runnable cfg i" if "i \<in> set q0" for i
  proof -
    from that q perm have "i \<in> set (map nd_id (df_nodes (wf_definition w)))" by (metis set_mset_mset)
    then obtain n where "n \<in> set (df_nodes (wf_definition w))" "i = nd_id n" by auto
    with executable_runnable [OF nodes(1) c] nodes(2) show ?thesis by (simp add: cfg)
  qed
  then have "filter (runnable cfg) q0 = q0" by (simp add: filter_id_conv)
  with order st w(2) have "map lg_node_id new = ?order" by (simp add: cfg q)
  moreover have "execution_logs s' = execution_logs s @ new" using ran_tables(1) [OF ran] by auto
  ultimately show ?thesis using perm by metis
qed

theorem completed_linear_run_order_witness:
  "\<exists>new. execution_logs (fst (sample_run (sample_db ExPending 0))) = new \<and>
    map lg_node_id new = [Some ''start'', Some ''left'', Some ''right'', Some ''join'']"
proof -
  let ?s = "sample_db ExPending 0" and ?w = "sample_workflow ''w1'' diamond ''linear''"
  have e: "find_execution ''e1'' ?s = Some (sample_execution ''e1'' ''w1'' ExPending)"
      "ex_status (sample_execution ''e1'' ''w1'' ExPending) = ExPending"
    and w: "find_workflow ''w1'' ''t1'' ?s = Some ?w" "wf_execution_pattern ?w \<noteq> ''cyclic''"
    by (simp_all add: sample_db_def find_execution_def sample_execution_def find_workflow_def sample_workflow_def)
  have nodes: "distinct (map nd_id (df_nodes (wf_definition ?w)))"
    "\<forall>n \<in> set (df_nodes (wf_definition ?w)). executable_node n"
    by (simp_all add: sample_workflow_def diamond_def sample_node_def executable_node_def node_kind_def)
  have "map_option ex_status (find_execution ''e1'' (fst (sample_run ?s))) = Some ExCompleted" by code_simp
  then obtain e' where "find_execution ''e1'' (fst (sample_run ?s)) = Some e'" "ex_status e' = ExCompleted" by auto
  from completed_linear_run_order [OF sample_db_keys e w nodes run_execution_pair this [unfolded sample_run_def]]
  show ?thesis using diamond_order
    by (auto simp: sample_run_def sample_workflow_def sample_db_def empty_db_def)
qed

text \<open>
  C22: runs are bounded. A cyclic run writes at most ten log rows, however its nodes route; any
  other run writes at most one per declared node, when the node identifiers are distinct.
\<close>

theorem run_execution_bounded:
  assumes "distinct (map tn_id (tenants s))" "find_workflow wid tid s = Some w"
    and "distinct (map nd_id (df_nodes (wf_definition w)))"
  shows "\<exists>new. execution_logs (fst (run_execution env eid wid tid input s)) = execution_logs s @ new \<and>
    length new \<le> (if wf_execution_pattern w = ''cyclic'' then 10 else length (df_nodes (wf_definition w)))"
  using assms(1) run_execution_pair [of env eid wid tid input s]
proof (cases rule: run_execution_cases)
  case refused
  then show ?thesis by (auto simp: refused_by_def fail_execution_def update_execution_def)
next
  case stale
  then show ?thesis by simp
next
  case (ran cfg q0 new st)
  let ?order = "topological_sort (df_nodes (wf_definition w)) (df_edges (wf_definition w))"
  from ran assms(2) have logs: "run_logs cfg q0 new" and q0: "q0 = initial_queue w"
    and cyc: "rc_cyclic cfg \<longleftrightarrow> wf_execution_pattern w = ''cyclic''"
    unfolding ran_def by auto
  have "length new \<le> length (df_nodes (wf_definition w))" if "\<not> rc_cyclic cfg"
  proof -
    from logs that have "length (map lg_node_id new) \<le> length (filter (runnable cfg) q0)"
      unfolding run_logs_def by (blast dest: prefix_length_le)
    also have "\<dots> \<le> length q0" by simp
    also have "length q0 = length (df_nodes (wf_definition w))"
      using arg_cong [OF topological_sort_mset [OF assms(3), of "df_edges (wf_definition w)"], of size] that cyc
      by (simp add: q0 initial_queue_def)
    finally show ?thesis by simp
  qed
  with logs cyc have "length new \<le> (if wf_execution_pattern w = ''cyclic'' then 10 else length (df_nodes (wf_definition w)))"
    by (auto simp: run_logs_def MAX_ITERATIONS_def)
  moreover have "execution_logs (fst (run_execution env eid wid tid input s)) = execution_logs s @ new"
    using ran_tables(1) [OF ran] by auto
  ultimately show ?thesis by blast
qed

theorem run_execution_bounded_witness:
  "length (execution_logs (fst (sample_run (sample_db ExPending 0)))) \<le> 4"
proof -
  have "find_workflow ''w1'' ''t1'' (sample_db ExPending 0) = Some (sample_workflow ''w1'' diamond ''linear'')"
    "distinct (map nd_id (df_nodes (wf_definition (sample_workflow ''w1'' diamond ''linear''))))"
    by (simp_all add: sample_db_def find_workflow_def sample_workflow_def diamond_def sample_node_def)
  from run_execution_bounded [OF sample_db_keys this, of sample_env "''e1''" JNull] show ?thesis
    by (auto simp: sample_run_def sample_db_def empty_db_def sample_workflow_def diamond_def)
qed

section \<open>Routing\<close>

lemma match_edges_silent:
  assumes "\<forall>e \<in> set es. condition_text e \<noteq> action"
  shows "match_edges action [] dflt es =
    Inr (foldl (\<lambda>d e. if condition_text e = ''default'' then ed_target e else d) dflt es)"
  using assms by (induction es arbitrary: dflt) (auto simp: Let_def)

lemma llm_call_normal: "py_lower (py_strip ''llm_call'') = ''llm_call''" "py_lower (py_strip []) = []"
  by code_simp+

text \<open>
  What a model answers never steers a workflow. The providers report no reasoning, so
  after every successful agent step of a node with several outgoing edges, unless an edge has
  the literal condition \<open>llm_call\<close>, the next node is the last default edge's target, or the
  first edge's: the other conditions are dead.
\<close>

theorem llm_output_never_routes:
  assumes "execute_agent env ac st s tid = Inr r" "ar_action r \<noteq> ''error''"
    and "dget current adj = Some (e # e' # es)"
    and "\<forall>x \<in> set (e # e' # es). condition_text x \<noteq> ''llm_call''"
  shows "resolve_next_node current adj (ar_action r) (ar_reasoning r) =
    (let dflt = foldl (\<lambda>d x. if condition_text x = ''default'' then ed_target x else d) None (e # e' # es)
     in if dflt \<noteq> None \<and> dflt \<noteq> Some [] then dflt else ed_target e)"
proof -
  from execute_agent_shape [OF assms(1)] assms(2)
  have "ar_action r = ''llm_call''" "ar_reasoning r = None" by auto
  with assms(3) match_edges_silent [OF assms(4), of None] show ?thesis
    by (simp add: resolve_next_node_def llm_call_normal Let_def del: match_edges.simps foldl.simps)
qed

theorem llm_output_never_routes_witness:
  "\<exists>r. execute_agent (re_step sample_env 0) (sample_agent ''review'')
      \<lparr>st_messages = [], st_current_agent = [], st_results = []\<rparr> empty_db ''t1'' = Inr r \<and>
    resolve_next_node ''review'' (build_edge_adjacency sample_graph) (ar_action r) (ar_reasoning r) = Some ''write''"
proof -
  let ?r = "\<lparr>ar_output = ''fine'', ar_input_tokens = 10, ar_output_tokens = 5, ar_cost = 75 / 1000000,
    ar_duration_ms = 3, ar_reasoning = None, ar_action = ''llm_call''\<rparr>"
  have r: "execute_agent (re_step sample_env 0) (sample_agent ''review'')
      \<lparr>st_messages = [], st_current_agent = [], st_results = []\<rparr> empty_db ''t1'' = Inr ?r"
    by code_simp
  have adj: "dget ''review'' (build_edge_adjacency sample_graph) =
      Some [sample_edge ''review'' ''write'' ''retry'', sample_edge ''review'' ''publish'' ''approve'']"
    by code_simp
  have c: "\<forall>x \<in> set [sample_edge ''review'' ''write'' ''retry'', sample_edge ''review'' ''publish'' ''approve''].
      condition_text x \<noteq> ''llm_call''"
    by code_simp
  have "foldl (\<lambda>d x. if condition_text x = ''default'' then ed_target x else d) None
      [sample_edge ''review'' ''write'' ''retry'', sample_edge ''review'' ''publish'' ''approve''] = None"
    by code_simp
  with llm_output_never_routes [OF r _ adj c] r show ?thesis
    by (auto simp: Let_def sample_edge_def)
qed

text \<open>
  The executor starts a cyclic workflow where the compiled graph does: for a definition
  whose nodes are all named, the entry queue holds exactly the entry point of the state graph.
\<close>

theorem entry_queue_agrees:
  assumes "\<forall>n \<in> set (df_nodes d). nd_id n \<noteq> None \<and> nd_id n \<noteq> Some []" "df_nodes d \<noteq> []"
  shows "map Some (build_entry_node_queue d) = [sg_entry (build_state_graph d)]"
proof -
  have ids: "map Some (named_ids d) = node_ids d"
  proof -
    have "map Some (concat (map (\<lambda>n. case nd_id n of None \<Rightarrow> [] | Some i \<Rightarrow> if i = [] then [] else [i]) ns)) = map nd_id ns"
      if "\<forall>n \<in> set ns. nd_id n \<noteq> None \<and> nd_id n \<noteq> Some []" for ns
      using that by (induction ns) auto
    from this [OF assms(1)] show ?thesis by (simp add: named_ids_def node_ids_def)
  qed
  let ?targets = "ed_target ` set (df_edges d)"
  have entry: "map Some (filter (\<lambda>i. Some i \<notin> ?targets) (named_ids d)) = filter (\<lambda>i. i \<notin> ?targets) (node_ids d)"
    unfolding ids [symmetric] by (simp add: filter_map o_def)
  have "nd_id (hd (df_nodes d)) = hd (node_ids d)"
    using assms(2) by (simp add: node_ids_def hd_map)
  moreover have "named_ids d \<noteq> []" using assms(2) ids by (metis list.map_disc_iff node_ids_Nil_iff)
  moreover from this have "hd (node_ids d) = Some (hd (named_ids d))"
    unfolding ids [symmetric] by (simp add: hd_map)
  ultimately show ?thesis
    unfolding build_entry_node_queue_def build_state_graph_def entry_node_def Let_def state_graph.simps
      entry [symmetric]
    by (cases "filter (\<lambda>i. Some i \<notin> ?targets) (named_ids d)") (simp_all only: list.map list.case if_True if_False, simp_all)
qed

theorem entry_queue_agrees_witness:
  "map Some (build_entry_node_queue sample_graph) = [Some ''write'']"
proof -
  have "\<forall>n \<in> set (df_nodes sample_graph). nd_id n \<noteq> None \<and> nd_id n \<noteq> Some []" "df_nodes sample_graph \<noteq> []"
    by (simp_all add: sample_graph_def sample_node_def)
  moreover have "sg_entry (build_state_graph sample_graph) = Some ''write''" by code_simp
  ultimately show ?thesis using entry_queue_agrees [of sample_graph] by simp
qed

end
