(* ===== verification/ExecutionService.thy ===== *)
theory ExecutionService
  imports Samples
begin

text \<open>
  The execution service, \<open>app/services/execution_service.py\<close>: admission of new executions,
  listing, the manual retry of dead-lettered webhook executions, and cancellation. The
  registry of running executions, \<open>_active_executions\<close> of the executor, is part of what
  cancellation reads and writes.
\<close>

section \<open>Look-ups and limits\<close>

definition get_workflow :: "uuid \<Rightarrow> uuid \<Rightarrow> db \<Rightarrow> http_error + workflow" where
  "get_workflow tid wid s =
    (case row_find (\<lambda>w. wf_id w = wid \<and> wf_tenant_id w = tid \<and> wf_is_active w) (workflows s) of
      None \<Rightarrow> Inl (HTTPException 404 ''Workflow not found'')
    | Some w \<Rightarrow> Inr w)"

definition get_execution :: "uuid \<Rightarrow> uuid \<Rightarrow> db \<Rightarrow> http_error + execution" where
  "get_execution tid eid s =
    (case row_find (\<lambda>e. ex_id e = eid \<and> ex_tenant_id e = tid) (executions s) of
      None \<Rightarrow> Inl (HTTPException 404 ''Execution not found'')
    | Some e \<Rightarrow> Inr e)"

definition PLAN_CONCURRENT_EXECUTION_LIMITS :: "(string, nat) dict" where
  "PLAN_CONCURRENT_EXECUTION_LIMITS = [(''free'', 1), (''pro'', 5), (''team'', 20)]"

definition get_concurrent_execution_limit :: "string \<Rightarrow> nat" where
  "get_concurrent_execution_limit plan =
    (case dget (py_lower (if plan = [] then ''free'' else plan)) PLAN_CONCURRENT_EXECUTION_LIMITS of
      None \<Rightarrow> 1 | Some n \<Rightarrow> n)"

definition active :: "uuid \<Rightarrow> execution \<Rightarrow> bool" where
  "active tid e \<longleftrightarrow> ex_tenant_id e = tid \<and> (ex_status e = ExPending \<or> ex_status e = ExRunning)"

definition count_active_executions :: "uuid \<Rightarrow> db \<Rightarrow> nat" where
  "count_active_executions tid s = row_count (active tid) (executions s)"

definition WEBHOOK_BACKLOG_MULTIPLIER :: nat where
  "WEBHOOK_BACKLOG_MULTIPLIER = 10"

text \<open>\<open>None\<close>: the webhook is admitted.\<close>

definition enforce_webhook_admission :: "uuid \<Rightarrow> db \<Rightarrow> http_error option" where
  "enforce_webhook_admission tid s =
    (case find_tenant tid s of
      None \<Rightarrow> Some (HTTPException 404 ''Tenant not found'')
    | Some t \<Rightarrow>
        if tn_tokens_used_this_month t \<ge> tn_monthly_token_budget t
        then Some (HTTPException 429 ''Monthly token budget exceeded'')
        else if count_active_executions tid s \<ge>
          get_concurrent_execution_limit (tn_plan t) * WEBHOOK_BACKLOG_MULTIPLIER
        then Some (HTTPException 429 ''Execution backlog is full; webhook rejected. Retry later.'')
        else None)"

section \<open>Creating an execution\<close>

definition new_execution :: "uuid \<Rightarrow> instant \<Rightarrow> uuid \<Rightarrow> uuid \<Rightarrow> json \<Rightarrow> execution" where
  "new_execution eid now tid wid input =
    \<lparr>ex_id = eid, ex_tenant_id = tid, ex_workflow_id = wid, ex_status = ExPending,
     ex_input_data = input, ex_output_data = JNull, ex_total_tokens = 0, ex_total_cost = 0,
     ex_error_message = None, ex_started_at = None, ex_completed_at = None, ex_created_at = now\<rparr>"

definition add_execution :: "execution \<Rightarrow> db \<Rightarrow> db" where
  "add_execution e s = s\<lparr>executions := executions s @ [e]\<rparr>"

definition limit_message :: "string \<Rightarrow> nat \<Rightarrow> string" where
  "limit_message plan n = ''Concurrent execution limit reached for plan '' @ [CHR 0x27] @ plan @ [CHR 0x27] @
    '' ('' @ show_nat n @ '' active). Wait for a running execution to finish or upgrade your plan.''"

text \<open>\<open>eid\<close> and \<open>now\<close> are the identifier and the time of creation the row is given.\<close>

definition create_execution :: "uuid \<Rightarrow> instant \<Rightarrow> uuid \<Rightarrow> uuid \<Rightarrow> json \<Rightarrow> (execution, db) svc" where
  "create_execution eid now tid wid input s =
    (case get_workflow tid wid s of
      Inl err \<Rightarrow> (Inl err, s)
    | Inr w \<Rightarrow>
       if df_nodes (wf_definition w) = [] then
         (Inl (HTTPException 400 ''Workflow has no nodes defined. Add agents in the Builder first.''), s)
       else case validate_definition (wf_definition w) of
         Some err \<Rightarrow> (Inl (HTTPException 400 (''Invalid workflow graph: '' @ compilation_message err)), s)
       | None \<Rightarrow>
          (case find_tenant tid s of
            None \<Rightarrow> (Inl (HTTPException 404 ''Tenant not found''), s)
          | Some t \<Rightarrow>
             if tn_tokens_used_this_month t \<ge> tn_monthly_token_budget t then
               (Inl (HTTPException 422 ''Monthly token budget exceeded''), s)
             else
              (let limit = get_concurrent_execution_limit (tn_plan t) in
               if count_active_executions tid s \<ge> limit then
                 (Inl (HTTPException 409 (limit_message (tn_plan t) limit)), s)
               else
                (let e = new_execution eid now tid wid input in (Inr e, add_execution e s)))))"

section \<open>Listing\<close>

definition parse_status :: "string \<Rightarrow> exec_status option" where
  "parse_status x =
    (if x = ''pending'' then Some ExPending else if x = ''running'' then Some ExRunning
     else if x = ''completed'' then Some ExCompleted else if x = ''failed'' then Some ExFailed
     else if x = ''cancelled'' then Some ExCancelled else None)"

record execution_page =
  pg_items :: "execution list"
  pg_total :: nat
  pg_page :: nat
  pg_per_page :: nat

definition selected :: "uuid \<Rightarrow> uuid option \<Rightarrow> exec_status option \<Rightarrow> execution \<Rightarrow> bool" where
  "selected tid wid st e \<longleftrightarrow> ex_tenant_id e = tid \<and>
    (case wid of None \<Rightarrow> True | Some w \<Rightarrow> ex_workflow_id e = w) \<and>
    (case st of None \<Rightarrow> True | Some x \<Rightarrow> ex_status e = x)"

text \<open>Newest first; rows created at the same instant keep the order of the table.\<close>

definition newest_first :: "execution list \<Rightarrow> execution list" where
  "newest_first es = sort_key (\<lambda>e. - ex_created_at e) es"

definition resolve_filter :: "string option \<Rightarrow> http_error + exec_status option" where
  "resolve_filter status_filter =
    (case status_filter of
      None \<Rightarrow> Inr None
    | Some x \<Rightarrow>
       if x = [] then Inr None
       else case parse_status x of
         None \<Rightarrow> Inl (HTTPException 400
           ''Invalid status filter. Must be one of: cancelled, completed, failed, pending, running'')
       | Some st \<Rightarrow> Inr (Some st))"

definition list_executions ::
  "uuid \<Rightarrow> uuid option \<Rightarrow> string option \<Rightarrow> nat \<Rightarrow> nat \<Rightarrow> db \<Rightarrow> http_error + execution_page" where
  "list_executions tid wid status_filter page per_page s =
    (case resolve_filter status_filter of
      Inl err \<Rightarrow> Inl err
    | Inr st \<Rightarrow>
       (let rows = filter (selected tid wid st) (executions s) in
        Inr \<lparr>pg_items = take per_page (drop ((page - 1) * per_page) (newest_first rows)),
             pg_total = row_count (selected tid wid st) (executions s),
             pg_page = page, pg_per_page = per_page\<rparr>))"

section \<open>Retrying a dead-lettered execution\<close>

text \<open>\<open>d.get(key) or {}\<close>.\<close>

definition sub_dict :: "string \<Rightarrow> (string, json) dict \<Rightarrow> json" where
  "sub_dict key d = py_or (jget key d) (JObj [])"

text \<open>
  \<open>_get_dispatch_attempt\<close>: \<open>Inl\<close> is the \<open>AttributeError\<close> of a dispatch entry that is not an
  object, which the handler does not catch.
\<close>

definition get_dispatch_attempt :: "(string, json) dict \<Rightarrow> string + int" where
  "get_dispatch_attempt input =
    (case sub_dict ''dispatch'' input of
      JObj d \<Rightarrow> (case py_int (jget_or ''attempt'' (JInt 1) d) of None \<Rightarrow> Inr 1 | Some n \<Rightarrow> Inr (max n 1))
    | v \<Rightarrow> Inl (no_attribute_get v))"

definition is_dead_lettered_webhook_execution :: "execution \<Rightarrow> string + bool" where
  "is_dead_lettered_webhook_execution e =
    (let input = obj_or_empty (ex_input_data e) in
     if ex_status e \<noteq> ExFailed then Inr False
     else case sub_dict ''trigger'' input of
       JObj trigger \<Rightarrow>
         if jget ''type'' trigger \<noteq> JStr ''webhook'' then Inr False
         else (case sub_dict ''dispatch'' input of
            JObj dispatch \<Rightarrow> Inr (jget ''dead_lettered'' dispatch = JBool True)
          | v \<Rightarrow> Inl (no_attribute_get v))
     | v \<Rightarrow> Inl (no_attribute_get v))"

definition build_manual_retry_input_data :: "execution \<Rightarrow> uuid \<Rightarrow> string + json" where
  "build_manual_retry_input_data source user_id =
    (let input = obj_or_empty (ex_input_data source);
         dispatch = obj_or_empty (sub_dict ''dispatch'' input);
         root = py_or (jget ''root_execution_id'' dispatch) (JStr (ex_id source)) in
     case get_dispatch_attempt input of
       Inl err \<Rightarrow> Inl err
     | Inr attempt \<Rightarrow>
        (let d1 = dupdate dispatch
              [(''attempt'', JInt (attempt + 1)), (''root_execution_id'', root),
               (''parent_execution_id'', JStr (ex_id source)), (''previous_execution_id'', JStr (ex_id source)),
               (''manual_retry'', JBool True), (''requested_by_user_id'', JStr user_id),
               (''dead_lettered'', JBool False)];
             d2 = dpop ''next_attempt_at'' (dpop ''dead_letter_reason'' d1) in
         Inr (JObj (dset ''dispatch'' (JObj d2) input))))"

text \<open>An exception no handler catches is answered 500.\<close>

definition internal_error :: "string \<Rightarrow> http_error" where
  "internal_error msg = HTTPException 500 msg"

definition retry_dead_letter_execution ::
  "uuid \<Rightarrow> instant \<Rightarrow> uuid \<Rightarrow> uuid \<Rightarrow> uuid \<Rightarrow> (execution, db) svc" where
  "retry_dead_letter_execution new_id now tid eid user_id s =
    (case get_execution tid eid s of
      Inl err \<Rightarrow> (Inl err, s)
    | Inr source \<Rightarrow>
       (case is_dead_lettered_webhook_execution source of
         Inl msg \<Rightarrow> (Inl (internal_error msg), s)
       | Inr False \<Rightarrow> (Inl (HTTPException 409 ''Only dead-letter webhook executions can be retried.''), s)
       | Inr True \<Rightarrow>
          (case build_manual_retry_input_data source user_id of
            Inl msg \<Rightarrow> (Inl (internal_error msg), s)
          | Inr input \<Rightarrow> create_execution new_id now tid (ex_workflow_id source) input s)))"

section \<open>Logs and cancellation\<close>

definition get_execution_logs :: "uuid \<Rightarrow> uuid \<Rightarrow> db \<Rightarrow> http_error + execution_log list" where
  "get_execution_logs tid eid s =
    (case get_execution tid eid s of
      Inl err \<Rightarrow> Inl err
    | Inr _ \<Rightarrow> Inr (sort_key lg_step_number (filter (\<lambda>lg. lg_execution_id lg = eid) (execution_logs s))))"

text \<open>The registry \<open>_active_executions\<close>: the cancellation flag of each running execution.\<close>

type_synonym registry = "(uuid, bool) dict"

definition request_cancel :: "uuid \<Rightarrow> registry \<Rightarrow> bool \<times> registry" where
  "request_cancel eid reg = (if dget eid reg = None then (False, reg) else (True, dset eid True reg))"

definition is_cancelled :: "uuid \<Rightarrow> registry \<Rightarrow> bool" where
  "is_cancelled eid reg = (case dget eid reg of None \<Rightarrow> False | Some b \<Rightarrow> b)"

fun status_text :: "exec_status \<Rightarrow> string" where
  "status_text ExPending = ''pending''"
| "status_text ExRunning = ''running''"
| "status_text ExCompleted = ''completed''"
| "status_text ExFailed = ''failed''"
| "status_text ExCancelled = ''cancelled''"

definition cancel_refusal :: "exec_status \<Rightarrow> http_error" where
  "cancel_refusal st = HTTPException 409 (''Cannot cancel execution with status '' @ [CHR 0x27] @ status_text st @
    [CHR 0x27] @ ''. Only pending or running executions can be cancelled.'')"

text \<open>
  The service works on the registry and the database. The second reading of the row, when the
  registry does not know a running execution, is in the same session: it returns the object
  already loaded.
\<close>

definition cancel_execution :: "instant \<Rightarrow> uuid \<Rightarrow> uuid \<Rightarrow> (execution, registry \<times> db) svc" where
  "cancel_execution now tid eid = (\<lambda>(reg, s).
    case get_execution tid eid s of
      Inl err \<Rightarrow> (Inl err, (reg, s))
    | Inr e \<Rightarrow>
       (case ex_status e of
         ExRunning \<Rightarrow>
           (case request_cancel eid reg of
             (True, reg') \<Rightarrow> (Inr e, (reg', s))
           | (False, reg') \<Rightarrow>
              (case get_execution tid eid s of
                Inl err \<Rightarrow> (Inl err, (reg', s))
              | Inr e' \<Rightarrow>
                 (if ex_status e' = ExPending \<or> ex_status e' = ExRunning then (Inr e, (reg', s))
                  else (Inl (cancel_refusal (ex_status e')), (reg', s)))))
       | ExPending \<Rightarrow>
           (let f = (\<lambda>x. x\<lparr>ex_status := ExCancelled,
                 ex_error_message := Some ''Execution cancelled by user'', ex_completed_at := Some now\<rparr>) in
            (Inr (f e), (reg, update_execution eid f s)))
       | st \<Rightarrow> (Inl (cancel_refusal st), (reg, s))))"

section \<open>Lemmas\<close>

lemma get_execution_InrD:
  "get_execution tid eid s = Inr e \<Longrightarrow> ex_id e = eid \<and> ex_tenant_id e = tid \<and> e \<in> set (executions s)"
  by (auto simp: get_execution_def dest!: row_find_SomeD split: option.splits)

lemma create_execution_Inr_iff:
  "(\<exists>e. fst (create_execution eid now tid wid input s) = Inr e) \<longleftrightarrow>
    (\<exists>w t. get_workflow tid wid s = Inr w \<and> well_formed_graph (wf_definition w) \<and>
      find_tenant tid s = Some t \<and> tn_tokens_used_this_month t < tn_monthly_token_budget t \<and>
      count_active_executions tid s < get_concurrent_execution_limit (tn_plan t))"
proof -
  have "df_nodes d \<noteq> []" if "well_formed_graph d" for d
    using that by (auto simp: well_formed_graph_def)
  then show ?thesis
    by (auto simp: create_execution_def Let_def validate_None_iff [symmetric] not_le
        split: sum.splits option.splits)
qed

lemma create_execution_snd:
  "snd (create_execution eid now tid wid input s) =
    (case fst (create_execution eid now tid wid input s) of Inl _ \<Rightarrow> s | Inr e \<Rightarrow> add_execution e s)"
  by (auto simp: create_execution_def Let_def split: sum.splits option.splits)

lemma create_execution_row:
  "fst (create_execution eid now tid wid input s) = Inr e \<Longrightarrow> e = new_execution eid now tid wid input"
  by (auto simp: create_execution_def Let_def split: sum.splits option.splits if_splits)

lemma count_active_add:
  "count_active_executions tid (add_execution e s) =
    count_active_executions tid s + (if active tid e then 1 else 0)"
  by (simp add: count_active_executions_def add_execution_def)

lemma dget_pages:
  "concat (map (\<lambda>k. take n (drop (k * n) xs)) [0..<m]) = take (m * n) xs"
  by (induction m) (simp_all add: take_add [symmetric] add.commute)

text \<open>The input a manual retry builds, and what it does to the database.\<close>

definition retried_dispatch :: "execution \<Rightarrow> uuid \<Rightarrow> int \<Rightarrow> (string, json) dict \<Rightarrow> (string, json) dict" where
  "retried_dispatch src user_id n d = dpop ''next_attempt_at'' (dpop ''dead_letter_reason'' (dupdate d
    [(''attempt'', JInt (n + 1)), (''root_execution_id'', py_or (jget ''root_execution_id'' d) (JStr (ex_id src))),
     (''parent_execution_id'', JStr (ex_id src)), (''previous_execution_id'', JStr (ex_id src)),
     (''manual_retry'', JBool True), (''requested_by_user_id'', JStr user_id),
     (''dead_lettered'', JBool False)]))"

lemma retry_dead_letter_input:
  assumes "get_execution tid eid s = Inr src"
    and "retry_dead_letter_execution new_id now tid eid user_id s = (Inr e, s')"
  shows "\<exists>input d n. create_execution new_id now tid (ex_workflow_id src) input s = (Inr e, s') \<and>
    sub_dict ''dispatch'' (obj_or_empty (ex_input_data src)) = JObj d \<and>
    get_dispatch_attempt (obj_or_empty (ex_input_data src)) = Inr n \<and> n \<ge> 1 \<and>
    obj_or_empty input =
      dset ''dispatch'' (JObj (retried_dispatch src user_id n d)) (obj_or_empty (ex_input_data src))"
proof -
  let ?input = "obj_or_empty (ex_input_data src)"
  from assms obtain input where dead: "is_dead_lettered_webhook_execution src = Inr True"
    and input: "build_manual_retry_input_data src user_id = Inr input"
    and new: "create_execution new_id now tid (ex_workflow_id src) input s = (Inr e, s')"
    by (auto simp: retry_dead_letter_execution_def split: sum.splits bool.splits)
  from dead obtain d where d: "sub_dict ''dispatch'' ?input = JObj d"
    by (auto simp: is_dead_lettered_webhook_execution_def Let_def split: if_splits json.splits)
  with input obtain n where n: "get_dispatch_attempt ?input = Inr n" "n \<ge> 1"
    by (cases "py_int (jget_or ''attempt'' (JInt 1) d)") (auto simp: get_dispatch_attempt_def)
  from input d n(1) have "obj_or_empty input = dset ''dispatch'' (JObj (retried_dispatch src user_id n d)) ?input"
    by (auto simp: build_manual_retry_input_data_def Let_def retried_dispatch_def)
  with new d n show ?thesis by blast
qed

section \<open>Properties\<close>

text \<open>
  C32: \<open>create_execution\<close> admits an execution exactly when the workflow is the tenant's own and
  active, its graph well formed, the monthly budget not spent, and fewer executions are pending
  or running than the plan allows. Then it adds one pending row of this tenant, workflow and
  input; on any refusal the database is unchanged.
\<close>

theorem create_execution_correct:
  "case create_execution eid now tid wid input s of
    (Inr e, s') \<Rightarrow> e = new_execution eid now tid wid input \<and> s' = add_execution e s \<and>
      (\<exists>w t. get_workflow tid wid s = Inr w \<and> well_formed_graph (wf_definition w) \<and>
        find_tenant tid s = Some t \<and> tn_tokens_used_this_month t < tn_monthly_token_budget t \<and>
        count_active_executions tid s < get_concurrent_execution_limit (tn_plan t))
  | (Inl err, s') \<Rightarrow> s' = s \<and>
      \<not> (\<exists>w t. get_workflow tid wid s = Inr w \<and> well_formed_graph (wf_definition w) \<and>
        find_tenant tid s = Some t \<and> tn_tokens_used_this_month t < tn_monthly_token_budget t \<and>
        count_active_executions tid s < get_concurrent_execution_limit (tn_plan t))"
proof -
  obtain r s' where r: "create_execution eid now tid wid input s = (r, s')"
    by (cases "create_execution eid now tid wid input s")
  note iff = create_execution_Inr_iff [of eid now tid wid input s, unfolded r fst_conv]
  note db = create_execution_snd [of eid now tid wid input s, unfolded r fst_conv snd_conv]
  show ?thesis
  proof (cases r)
    case (Inl err)
    with iff db show ?thesis by (simp add: r del: not_ex)
  next
    case (Inr e)
    with iff db create_execution_row [of eid now tid wid input s e] show ?thesis by (simp add: r)
  qed
qed

text \<open>
  The plan's concurrency limit is an invariant of admission: if a tenant has no more
  pending and running executions than its plan allows, it still has no more after any call of
  \<open>create_execution\<close>, for whatever tenant the call is.
\<close>

theorem create_execution_keeps_limit:
  assumes "find_tenant tid s = Some t"
    and "count_active_executions tid s \<le> get_concurrent_execution_limit (tn_plan t)"
  shows "count_active_executions tid (snd (create_execution eid now tid' wid input s))
    \<le> get_concurrent_execution_limit (tn_plan t)"
proof (cases "fst (create_execution eid now tid' wid input s)")
  case (Inl err)
  with assms(2) show ?thesis by (simp add: create_execution_snd)
next
  case (Inr e)
  note e = create_execution_row [OF Inr]
  from Inr create_execution_Inr_iff [of eid now tid' wid input s] obtain t' where
    t': "find_tenant tid' s = Some t'" "count_active_executions tid' s < get_concurrent_execution_limit (tn_plan t')"
    by blast
  show ?thesis
  proof (cases "tid' = tid")
    case True
    with t' assms Inr show ?thesis by (simp add: create_execution_snd count_active_add)
  next
    case False
    then have "\<not> active tid e" by (simp add: e active_def new_execution_def)
    with Inr assms(2) show ?thesis by (simp add: create_execution_snd count_active_add)
  qed
qed

lemma sample_finds:
  "find_tenant ''t1'' (sample_db st used) = Some (sample_tenant ''t1'' 1000 used)"
  "get_execution ''t1'' ''e1'' (sample_db st used) = Inr (sample_execution ''e1'' ''w1'' st)"
  by (simp_all add: find_tenant_def get_execution_def sample_db_def sample_tenant_def sample_execution_def)

theorem create_execution_keeps_limit_witness:
  "count_active_executions ''t1'' (snd (create_execution ''e2'' 5 ''t1'' ''w1'' JNull (sample_db ExCompleted 0))) \<le> 1"
proof -
  have limit: "get_concurrent_execution_limit (tn_plan (sample_tenant ''t1'' 1000 0)) = 1" by code_simp
  moreover have "count_active_executions ''t1'' (sample_db ExCompleted 0) = 0"
    by (simp add: count_active_executions_def sample_db_def active_def sample_execution_def)
  ultimately show ?thesis
    using create_execution_keeps_limit [OF sample_finds(1) [of ExCompleted 0]] by simp
qed

text \<open>
  Cancellation follows the state of the execution. A pending one becomes cancelled at
  once and nothing else changes; a running one is flagged in the registry when this process
  runs it; a finished one is refused with 409 and neither the registry nor the database moves.
\<close>

theorem cancel_execution_correct:
  assumes "get_execution tid eid s = Inr e"
  shows "case ex_status e of
    ExPending \<Rightarrow> \<exists>e'. cancel_execution now tid eid (reg, s) =
        (Inr e', (reg, update_execution eid (\<lambda>x. x\<lparr>ex_status := ExCancelled,
          ex_error_message := Some ''Execution cancelled by user'', ex_completed_at := Some now\<rparr>) s)) \<and>
      ex_status e' = ExCancelled
  | ExRunning \<Rightarrow> cancel_execution now tid eid (reg, s) =
        (Inr e, (if dget eid reg = None then reg else dset eid True reg, s)) \<and>
      (is_cancelled eid (snd (request_cancel eid reg)) \<longleftrightarrow> dget eid reg \<noteq> None)
  | st \<Rightarrow> \<exists>msg. cancel_execution now tid eid (reg, s) = (Inl (HTTPException 409 msg), (reg, s))"
  using assms
  by (cases "ex_status e")
    (auto simp: cancel_execution_def Let_def request_cancel_def is_cancelled_def cancel_refusal_def dget_dset)

theorem cancel_execution_correct_witness:
  "\<exists>msg. cancel_execution 9 ''t1'' ''e1'' ([], sample_db ExCompleted 0) =
    (Inl (HTTPException 409 msg), ([], sample_db ExCompleted 0))"
  using cancel_execution_correct [OF sample_finds(2) [of ExCompleted 0], of 9 "[]"]
  by (simp add: sample_execution_def)

text \<open>
  Cancelling a running execution that no process holds any more (the server was restarted
  while it ran) answers with success and changes nothing: the execution stays running.
\<close>

theorem cancel_orphan_has_no_effect:
  assumes "get_execution tid eid s = Inr e" "ex_status e = ExRunning" "dget eid reg = None"
  shows "cancel_execution now tid eid (reg, s) = (Inr e, (reg, s))"
  using assms by (simp add: cancel_execution_def request_cancel_def)

theorem cancel_orphan_has_no_effect_witness:
  "cancel_execution 9 ''t1'' ''e1'' ([], sample_db ExRunning 0) =
    (Inr (sample_execution ''e1'' ''w1'' ExRunning), ([], sample_db ExRunning 0))"
  by (rule cancel_orphan_has_no_effect [OF sample_finds(2)]) (simp_all add: sample_execution_def)

text \<open>
  The manual retry of a dead-lettered webhook execution keeps its input and records its
  lineage: in the dispatch entry of the new execution the attempt is one more than the
  source's, the root is the source's root (the source itself at the first retry), the parent
  is the source, and it is no longer dead-lettered; every other input entry is unchanged.
\<close>

theorem retry_dead_letter_lineage:
  assumes "get_execution tid eid s = Inr src"
    and "retry_dead_letter_execution new_id now tid eid user_id s = (Inr e, s')"
  shows "\<exists>d d' n. sub_dict ''dispatch'' (obj_or_empty (ex_input_data src)) = JObj d \<and>
    get_dispatch_attempt (obj_or_empty (ex_input_data src)) = Inr n \<and> n \<ge> 1 \<and>
    ex_status e = ExPending \<and> ex_tenant_id e = tid \<and> ex_workflow_id e = ex_workflow_id src \<and>
    jget ''dispatch'' (obj_or_empty (ex_input_data e)) = JObj d' \<and>
    jget ''attempt'' d' = JInt (n + 1) \<and>
    jget ''root_execution_id'' d' = py_or (jget ''root_execution_id'' d) (JStr (ex_id src)) \<and>
    jget ''parent_execution_id'' d' = JStr (ex_id src) \<and>
    jget ''dead_lettered'' d' = JBool False \<and>
    (\<forall>key. key \<noteq> ''dispatch'' \<longrightarrow>
      jget key (obj_or_empty (ex_input_data e)) = jget key (obj_or_empty (ex_input_data src)))"
proof -
  from retry_dead_letter_input [OF assms] obtain input d n where *:
      "create_execution new_id now tid (ex_workflow_id src) input s = (Inr e, s')"
      "sub_dict ''dispatch'' (obj_or_empty (ex_input_data src)) = JObj d"
      "get_dispatch_attempt (obj_or_empty (ex_input_data src)) = Inr n" "n \<ge> 1"
      "obj_or_empty input = dset ''dispatch'' (JObj (retried_dispatch src user_id n d)) (obj_or_empty (ex_input_data src))"
    by blast
  have "e = new_execution new_id now tid (ex_workflow_id src) input"
    using create_execution_row [of new_id now tid "ex_workflow_id src" input s e] *(1) by simp
  with * show ?thesis
    by (simp add: new_execution_def retried_dispatch_def jget_dpop dupdate_def jget_dset)
qed

definition dead_letter_execution :: execution where
  "dead_letter_execution = (sample_execution ''e1'' ''w1'' ExFailed)\<lparr>ex_input_data := JObj
    [(''trigger'', JObj [(''type'', JStr ''webhook'')]), (''payload'', JInt 7),
     (''dispatch'', JObj [(''attempt'', JInt 3), (''dead_lettered'', JBool True)])]\<rparr>"

definition dead_letter_db :: db where
  "dead_letter_db = (sample_db ExFailed 0)\<lparr>executions := [dead_letter_execution]\<rparr>"

theorem retry_dead_letter_lineage_witness:
  "\<exists>e d'. fst (retry_dead_letter_execution ''e2'' 5 ''t1'' ''e1'' ''u1'' dead_letter_db) = Inr e \<and>
    jget ''dispatch'' (obj_or_empty (ex_input_data e)) = JObj d' \<and> jget ''attempt'' d' = JInt 4"
proof -
  have src: "get_execution ''t1'' ''e1'' dead_letter_db = Inr dead_letter_execution"
    by (simp add: dead_letter_db_def get_execution_def dead_letter_execution_def sample_execution_def)
  have "case fst (retry_dead_letter_execution ''e2'' 5 ''t1'' ''e1'' ''u1'' dead_letter_db) of
      Inl _ \<Rightarrow> False | Inr e \<Rightarrow> True" by code_simp
  then obtain e s' where run: "retry_dead_letter_execution ''e2'' 5 ''t1'' ''e1'' ''u1'' dead_letter_db = (Inr e, s')"
    by (cases "retry_dead_letter_execution ''e2'' 5 ''t1'' ''e1'' ''u1'' dead_letter_db")
      (auto split: sum.splits)
  have "get_dispatch_attempt (obj_or_empty (ex_input_data dead_letter_execution)) = Inr 3"
    by code_simp
  with retry_dead_letter_lineage [OF src run] run show ?thesis by auto
qed

text \<open>
  Paging loses and repeats nothing: the pages 1 to \<open>m\<close> of a listing, one after the other,
  are the first \<open>m * per_page\<close> of the tenant's selected executions, newest first, and the
  total is the number of these executions.
\<close>

theorem list_executions_pages:
  assumes "\<forall>k. list_executions tid wid status_filter (Suc k) per_page s = Inr (pg k)"
  shows "\<exists>st. concat (map (\<lambda>k. pg_items (pg k)) [0..<m]) =
      take (m * per_page) (newest_first (filter (selected tid wid st) (executions s))) \<and>
    pg_total (pg 0) = length (filter (selected tid wid st) (executions s)) \<and>
    sorted (map (\<lambda>e. - ex_created_at e) (newest_first (filter (selected tid wid st) (executions s)))) \<and>
    mset (newest_first (filter (selected tid wid st) (executions s))) =
      mset (filter (selected tid wid st) (executions s))"
proof -
  from assms obtain st where "resolve_filter status_filter = Inr st"
    by (cases "resolve_filter status_filter") (auto simp: list_executions_def)
  with assms have pg: "pg k = \<lparr>pg_items = take per_page (drop (k * per_page)
        (newest_first (filter (selected tid wid st) (executions s)))),
      pg_total = row_count (selected tid wid st) (executions s), pg_page = Suc k, pg_per_page = per_page\<rparr>" for k
    by (simp add: list_executions_def)
  show ?thesis
    by (intro exI [of _ st]) (simp add: pg dget_pages row_count_def newest_first_def)
qed

theorem list_executions_pages_witness:
  "\<exists>st. take 2 (newest_first (filter (selected ''t1'' None st) (executions (sample_db ExPending 0)))) =
     [sample_execution ''e0'' ''w1'' ExCompleted, sample_execution ''e1'' ''w1'' ExPending]"
proof -
  let ?rows = "[sample_execution ''e0'' ''w1'' ExCompleted, sample_execution ''e1'' ''w1'' ExPending]"
  have "newest_first ?rows = ?rows"
    by (simp add: newest_first_def sample_execution_def)
  then have "\<forall>k. list_executions ''t1'' None None (Suc k) 1 (sample_db ExPending 0) =
      Inr \<lparr>pg_items = take 1 (drop k ?rows), pg_total = 2, pg_page = Suc k, pg_per_page = 1\<rparr>"
    by (simp add: list_executions_def resolve_filter_def sample_db_def selected_def sample_execution_def row_count_def)
  from list_executions_pages [OF this, of 2] show ?thesis by (auto simp: upt_rec)
qed

end
