(* ===== verification/PyTime.thy ===== *)
theory PyTime
  imports PyValue
begin

text \<open>
  Dates and times as text: \<open>datetime.isoformat()\<close> of an aware UTC time and
  \<open>datetime.fromisoformat\<close> on the extended formats (date, time to microseconds, offset),
  with the round trip between them. An instant counts the microseconds of UTC since the
  first day of year 1, so \<open>0\<close> is \<open>datetime.min\<close>.
\<close>

section \<open>The calendar\<close>

definition leap :: "nat \<Rightarrow> bool" where
  "leap y \<longleftrightarrow> y mod 4 = 0 \<and> (y mod 100 \<noteq> 0 \<or> y mod 400 = 0)"

definition year_days :: "nat \<Rightarrow> nat" where
  "year_days y = (if leap y then 366 else 365)"

definition month_lengths :: "nat \<Rightarrow> nat list" where
  "month_lengths y = [31, if leap y then 29 else 28, 31, 30, 31, 30, 31, 31, 30, 31, 30, 31]"

text \<open>The days before a year, from year 1.\<close>

fun days_before_year :: "nat \<Rightarrow> nat" where
  "days_before_year y = (if y \<le> 1 then 0 else
    (y - 1) * 365 + (y - 1) div 4 - (y - 1) div 100 + (y - 1) div 400)"

declare days_before_year.simps [simp del]

lemma days_before_year_Suc:
  assumes "1 \<le> y"
  shows "days_before_year (Suc y) = days_before_year y + year_days y"
proof -
  obtain k where y: "y = Suc k" using assms by (cases y) auto
  define carry where "carry m = (if Suc k mod m = 0 then 1 else 0 :: nat)" for m
  have q: "Suc k div m = k div m + carry m" for m by (simp add: div_Suc carry_def)
  have "Suc k mod 100 = 0" if "Suc k mod 400 = 0"
    using that mod_mod_cancel [of 100 400 "Suc k"] by simp
  moreover have "Suc k mod 4 = 0" if "Suc k mod 100 = 0"
    using that mod_mod_cancel [of 4 100 "Suc k"] by simp
  ultimately have c: "carry 4 + carry 400 = carry 100 + (if leap y then 1 else 0)" "carry 100 \<le> carry 4"
    by (auto simp: carry_def leap_def y)
  have le: "k div 100 \<le> k * 365 + k div 4" by (simp add: div_le_mono2 trans_le_add2)
  have shift: "Suc k * 365 + (a + x) - (b + z) + (d + w) = (k * 365 + a - b + d) + (365 + l)"
    if b: "b \<le> k * 365 + a" and w: "x + w = z + l" and z: "z \<le> x" for a b d x z w l :: nat
  proof -
    obtain e f where e: "k * 365 + a = b + e" and f: "x = z + f"
      using b z by (auto simp: le_iff_add)
    then have "Suc k * 365 + (a + x) - (b + z) = 365 + e + f" "k * 365 + a - b = e" by simp_all
    with w f show ?thesis by simp
  qed
  have "days_before_year (Suc y) = Suc k * 365 + Suc k div 4 - Suc k div 100 + Suc k div 400"
    by (simp add: days_before_year.simps y)
  also have "\<dots> = (k * 365 + k div 4 - k div 100 + k div 400) + (365 + (if leap y then 1 else 0))"
    unfolding q using le c by (rule shift)
  also have "\<dots> = days_before_year y + year_days y"
    by (cases "k = 0") (simp_all add: days_before_year.simps y year_days_def)
  finally show ?thesis .
qed

fun split_year :: "nat \<Rightarrow> nat \<Rightarrow> nat \<Rightarrow> nat \<times> nat" where
  "split_year 0 y n = (y, n)"
| "split_year (Suc fuel) y n =
    (if n < year_days y then (y, n) else split_year fuel (Suc y) (n - year_days y))"

fun split_month :: "nat list \<Rightarrow> nat \<Rightarrow> nat \<Rightarrow> nat \<times> nat" where
  "split_month [] m n = (m, n)"
| "split_month (l # ls) m n = (if n < l then (m, n) else split_month ls (Suc m) (n - l))"

text \<open>Year, month and day of a day number; 400 years are one cycle of 146097 days.\<close>

definition civil :: "nat \<Rightarrow> nat \<times> nat \<times> nat" where
  "civil n =
    (case split_year 400 (400 * (n div 146097) + 1) (n mod 146097) of (y, r) \<Rightarrow>
     case split_month (month_lengths y) 1 r of (m, d) \<Rightarrow> (y, m, d + 1))"

definition day_number :: "nat \<Rightarrow> nat \<Rightarrow> nat \<Rightarrow> nat" where
  "day_number y m d = days_before_year y + sum_list (take (m - 1) (month_lengths y)) + (d - 1)"

lemma sum_month_lengths: "sum_list (month_lengths y) = year_days y"
  by (simp add: month_lengths_def year_days_def)

lemma split_year_correct:
  assumes "1 \<le> y" "split_year fuel y n = (y', r)"
  shows "days_before_year y + n = days_before_year y' + r" "y \<le> y'"
    "n < days_before_year (y + fuel) - days_before_year y \<Longrightarrow> r < year_days y'"
proof -
  have mono: "days_before_year a \<le> days_before_year b" if "1 \<le> a" "a \<le> b" for a b
    using that(2,1) by (induction rule: dec_induct) (auto simp: days_before_year_Suc)
  have "days_before_year y + n = days_before_year y' + r \<and> y \<le> y' \<and>
      (n < days_before_year (y + fuel) - days_before_year y \<longrightarrow> r < year_days y')"
    using assms
  proof (induction fuel y n rule: split_year.induct)
    case (2 fuel y n)
    show ?case
    proof (cases "n < year_days y")
      case True
      with 2(3) show ?thesis by auto
    next
      case False
      with 2 have IH: "days_before_year (Suc y) + (n - year_days y) = days_before_year y' + r \<and> Suc y \<le> y' \<and>
        (n - year_days y < days_before_year (Suc y + fuel) - days_before_year (Suc y) \<longrightarrow> r < year_days y')"
        by simp
      with False 2(2) mono [of "Suc y" "Suc y + fuel"] show ?thesis
        by (auto simp: days_before_year_Suc)
    qed
  qed simp
  then show "days_before_year y + n = days_before_year y' + r" "y \<le> y'"
    "n < days_before_year (y + fuel) - days_before_year y \<Longrightarrow> r < year_days y'" by auto
qed

lemma split_month_correct:
  assumes "split_month ls m n = (m', r)" "n < sum_list ls"
  shows "m \<le> m' \<and> m' < m + length ls \<and> n = sum_list (take (m' - m) ls) + r \<and> r < ls ! (m' - m)"
  using assms
proof (induction ls m n rule: split_month.induct)
  case (2 l ls m n)
  show ?case
  proof (cases "n < l")
    case False
    with 2 have "Suc m \<le> m' \<and> m' < Suc m + length ls \<and> n - l = sum_list (take (m' - Suc m) ls) + r \<and>
        r < ls ! (m' - Suc m)" by auto
    moreover from this have "m' - m = Suc (m' - Suc m)" by auto
    ultimately show ?thesis using False by auto
  qed (use 2 in auto)
qed simp

lemma days_before_cycle: "days_before_year (400 * c + 1) = 146097 * c"
proof -
  have "400 * c div 4 = 100 * c" "400 * c div 100 = 4 * c" by simp_all
  then show ?thesis by (simp add: days_before_year.simps)
qed

text \<open>The calendar is consistent: the date of a day number has that number.\<close>

lemma civil_correct:
  assumes "civil n = (y, m, d)"
  shows "day_number y m d = n" "1 \<le> y" "1 \<le> m" "m \<le> 12" "1 \<le> d" "d \<le> month_lengths y ! (m - 1)"
proof -
  let ?y0 = "400 * (n div 146097) + 1"
  obtain r d0 where r: "split_year 400 ?y0 (n mod 146097) = (y, r)"
    and d0: "split_month (month_lengths y) 1 r = (m, d0)" and d: "d = d0 + 1"
    using assms by (auto simp: civil_def split: prod.splits)
  have "days_before_year (?y0 + 400) = 146097 * (n div 146097 + 1)"
    using days_before_cycle [of "n div 146097 + 1"] by (simp add: algebra_simps)
  then have "n mod 146097 < days_before_year (?y0 + 400) - days_before_year ?y0"
    unfolding days_before_cycle by (simp add: algebra_simps)
  with split_year_correct [OF _ r] have y: "days_before_year ?y0 + n mod 146097 = days_before_year y + r"
    "?y0 \<le> y" "r < year_days y" by simp_all
  then have "n = days_before_year y + r" unfolding days_before_cycle by simp
  moreover have "r < sum_list (month_lengths y)" using y(3) by (simp add: sum_month_lengths)
  note split_month_correct [OF d0 this]
  ultimately show "day_number y m d = n" "1 \<le> y" "1 \<le> m" "m \<le> 12" "1 \<le> d" "d \<le> month_lengths y ! (m - 1)"
    using y(2) d by (auto simp: day_number_def month_lengths_def)
qed

section \<open>Text\<close>

text \<open>A number in exactly \<open>k\<close> digits, and the reader of exactly \<open>k\<close> digits.\<close>

fun pad :: "nat \<Rightarrow> nat \<Rightarrow> string" where
  "pad 0 n = []"
| "pad (Suc k) n = pad k (n div 10) @ [digit_char n]"

fun read_digits :: "nat \<Rightarrow> nat \<Rightarrow> string \<Rightarrow> (nat \<times> string) option" where
  "read_digits 0 acc s = Some (acc, s)"
| "read_digits (Suc k) acc [] = None"
| "read_digits (Suc k) acc (c # s) =
    (case digit_val c of None \<Rightarrow> None | Some d \<Rightarrow> read_digits k (10 * acc + d) s)"

lemma read_digits_split:
  "read_digits (j + k) acc s =
    (case read_digits j acc s of None \<Rightarrow> None | Some (n, s') \<Rightarrow> read_digits k n s')"
  by (induction j acc s rule: read_digits.induct) (auto split: option.splits)

lemma read_digits_pad: "read_digits k acc (pad k n @ s) = Some (acc * 10 ^ k + n mod 10 ^ k, s)"
proof (induction k arbitrary: n s)
  case (Suc k)
  have "n mod 10 ^ Suc k = 10 * (n div 10 mod 10 ^ k) + n mod 10"
    by (simp add: mod_mult2_eq [of n 10 "10 ^ k"])
  with read_digits_split [of k 1 acc "pad (Suc k) n @ s"] Suc [of "n div 10" "digit_char n # s"]
  show ?case by (simp add: algebra_simps)
qed simp

definition expect :: "char \<Rightarrow> string \<Rightarrow> string option" where
  "expect c s = (case s of [] \<Rightarrow> None | d # r \<Rightarrow> if d = c then Some r else None)"

lemma expect_Cons [simp]: "expect c (c # s) = Some s"
  by (simp add: expect_def)

section \<open>Times of day\<close>

definition us_per_day :: int where
  "us_per_day = 86400000000"

definition time_of_day :: "nat \<Rightarrow> nat \<Rightarrow> nat \<Rightarrow> nat \<Rightarrow> int" where
  "time_of_day h mi sec us = ((int h * 60 + int mi) * 60 + int sec) * 1000000 + int us"

text \<open>A date and time read from text: without an offset, or an instant of UTC.\<close>

datatype datetime = Naive int | Aware int

text \<open>The microseconds, as \<open>isoformat\<close> writes them: not at all when they are zero.\<close>

definition iso_fraction :: "nat \<Rightarrow> string" where
  "iso_fraction us = (if us = 0 then [] else CHR ''.'' # pad 6 us)"

definition isoformat :: "instant \<Rightarrow> string" where
  "isoformat t =
    (let n = nat t; us = n mod 1000000; secs = n div 1000000;
         sec = secs mod 60; mi = secs div 60 mod 60; h = secs div 3600 mod 24 in
     case civil (secs div 86400) of (y, m, d) \<Rightarrow>
       pad 4 y @ ''-'' @ pad 2 m @ ''-'' @ pad 2 d @ ''T'' @ pad 2 h @ '':'' @ pad 2 mi @ '':'' @ pad 2 sec
         @ iso_fraction us @ ''+00:00'')"

text \<open>The digits after the point: six count, further ones are cut, fewer are filled up.\<close>

fun read_fraction :: "nat \<Rightarrow> nat \<Rightarrow> string \<Rightarrow> nat \<times> string" where
  "read_fraction k acc (c # s) =
    (case digit_val c of
      None \<Rightarrow> (acc * 10 ^ k, c # s)
    | Some d \<Rightarrow> (case k of 0 \<Rightarrow> read_fraction 0 acc s | Suc j \<Rightarrow> read_fraction j (10 * acc + d) s))"
| "read_fraction k acc [] = (acc * 10 ^ k, [])"

text \<open>An offset: none, \<open>Z\<close>, or hours with optional minutes and seconds; in microseconds.\<close>

definition read_offset :: "string \<Rightarrow> int option option" where
  "read_offset s =
    (case s of
      [] \<Rightarrow> Some None
    | c # r \<Rightarrow>
       if c = CHR ''Z'' \<and> r = [] then Some (Some 0)
       else if c = CHR ''+'' \<or> c = CHR ''-'' then
        (let sign = (if c = CHR ''+'' then 1 else -1 :: int) in
         case read_digits 2 0 r of
           None \<Rightarrow> None
         | Some (h, r1) \<Rightarrow>
            if h \<ge> 24 then None
            else if r1 = [] then Some (Some (sign * time_of_day h 0 0 0))
            else (case expect (CHR '':'') r1 of
              None \<Rightarrow> None
            | Some r2 \<Rightarrow>
               (case read_digits 2 0 r2 of
                 None \<Rightarrow> None
               | Some (mi, r3) \<Rightarrow>
                  if mi \<ge> 60 then None
                  else if r3 = [] then Some (Some (sign * time_of_day h mi 0 0))
                  else (case expect (CHR '':'') r3 of
                    None \<Rightarrow> None
                  | Some r4 \<Rightarrow>
                     (case read_digits 2 0 r4 of
                       Some (sec, []) \<Rightarrow>
                         if sec < 60 then Some (Some (sign * time_of_day h mi sec 0)) else None
                     | _ \<Rightarrow> None)))))
       else None)"

definition read_seconds :: "nat \<Rightarrow> nat \<Rightarrow> string \<Rightarrow> (int \<times> string) option" where
  "read_seconds h mi s =
    (case expect (CHR '':'') s of
      None \<Rightarrow> Some (time_of_day h mi 0 0, s)
    | Some r \<Rightarrow>
       (case read_digits 2 0 r of
         None \<Rightarrow> None
       | Some (sec, r1) \<Rightarrow>
          if sec \<ge> 60 then None
          else (case r1 of
            c # d # r2 \<Rightarrow>
              if (c = CHR ''.'' \<or> c = CHR '','') \<and> digit_val d \<noteq> None
              then (case read_fraction 6 0 (d # r2) of (us, r3) \<Rightarrow> Some (time_of_day h mi sec us, r3))
              else Some (time_of_day h mi sec 0, r1)
          | _ \<Rightarrow> Some (time_of_day h mi sec 0, r1))))"

definition read_time :: "string \<Rightarrow> (int \<times> string) option" where
  "read_time s =
    (case read_digits 2 0 s of
      None \<Rightarrow> None
    | Some (h, r) \<Rightarrow>
       if h \<ge> 24 then None
       else (case expect (CHR '':'') r of
         None \<Rightarrow> Some (time_of_day h 0 0 0, r)
       | Some r1 \<Rightarrow>
          (case read_digits 2 0 r1 of
            None \<Rightarrow> None
          | Some (mi, r2) \<Rightarrow> if mi \<ge> 60 then None else read_seconds h mi r2)))"

text \<open>\<open>None\<close> is a \<open>ValueError\<close>. The separator between date and time may be any character.\<close>

definition fromisoformat :: "string \<Rightarrow> datetime option" where
  "fromisoformat s =
    (case read_digits 4 0 s of
      Some (y, c1 # s1) \<Rightarrow>
       (case read_digits 2 0 s1 of
         Some (m, c2 # s2) \<Rightarrow>
          (case read_digits 2 0 s2 of
            Some (d, s3) \<Rightarrow>
             if c1 = CHR ''-'' \<and> c2 = CHR ''-'' \<and> 1 \<le> y \<and> 1 \<le> m \<and> m \<le> 12 \<and> 1 \<le> d
               \<and> d \<le> month_lengths y ! (m - 1) then
              (let midnight = int (day_number y m d) * us_per_day in
               case s3 of
                 [] \<Rightarrow> Some (Naive midnight)
               | sep # s4 \<Rightarrow>
                  (case read_time s4 of
                    None \<Rightarrow> None
                  | Some (us, s5) \<Rightarrow>
                     (case read_offset s5 of
                       None \<Rightarrow> None
                     | Some None \<Rightarrow> Some (Naive (midnight + us))
                     | Some (Some off) \<Rightarrow> Some (Aware (midnight + us - off)))))
             else None
          | _ \<Rightarrow> None)
       | _ \<Rightarrow> None)
    | _ \<Rightarrow> None)"

lemma pad_Suc_front: "pad (Suc k) n = digit_char (n div 10 ^ k) # pad k n"
proof (induction k arbitrary: n)
  case (Suc k)
  have "pad (Suc (Suc k)) n = pad (Suc k) (n div 10) @ [digit_char n]" by simp
  also have "\<dots> = (digit_char (n div 10 div 10 ^ k) # pad k (n div 10)) @ [digit_char n]"
    by (simp only: Suc.IH)
  also have "\<dots> = digit_char (n div 10 ^ Suc k) # pad (Suc k) n" by (simp add: div_mult2_eq)
  finally show ?case .
qed simp

lemma read_fraction_pad:
  "s = [] \<or> digit_val (hd s) = None \<Longrightarrow> read_fraction k acc (pad k n @ s) = (acc * 10 ^ k + n mod 10 ^ k, s)"
proof (induction k arbitrary: acc n s)
  case 0
  then show ?case by (cases s) auto
next
  case (Suc k)
  have "n mod (10 * 10 ^ k) = 10 ^ k * (n div 10 ^ k mod 10) + n mod 10 ^ k"
    using mod_mult2_eq [of n "10 ^ k" 10] by (simp add: mult.commute)
  with Suc show ?case by (simp add: pad_Suc_front del: pad.simps(2)) (simp add: algebra_simps)
qed

text \<open>Reading back what \<open>isoformat\<close> writes, up to the last day of year 9999.\<close>

lemma fromisoformat_isoformat:
  assumes "0 \<le> t" "t < int (days_before_year 10000) * us_per_day"
  shows "fromisoformat (isoformat t) = Some (Aware t)"
proof -
  define n where "n = nat t"
  define us where "us = n mod 1000000"
  define secs where "secs = n div 1000000"
  obtain y m d where c: "civil (secs div 86400) = (y, m, d)" by (cases "civil (secs div 86400)")
  note date = civil_correct [OF c]
  have "n < days_before_year 10000 * 86400000000"
    using assms by (simp add: n_def us_per_day_def nat_less_iff)
  then have "secs div 86400 < days_before_year 10000"
    by (simp add: secs_def less_mult_imp_div_less mult.commute mult.left_commute div_mult2_eq [symmetric])
  then have "days_before_year y < days_before_year 10000"
    using date(1) by (simp add: day_number_def)
  have mono: "days_before_year a \<le> days_before_year b" if "1 \<le> a" "a \<le> b" for a b
    using that(2,1) by (induction rule: dec_induct) (auto simp: days_before_year_Suc)
  have "y < 10000" using \<open>days_before_year y < days_before_year 10000\<close> mono [of 10000 y] by (meson leD leI one_le_numeral)
  have lengths: "month_lengths y ! (m - 1) \<le> 31"
  proof -
    have "\<forall>l \<in> set (month_lengths y). l \<le> 31" by (simp add: month_lengths_def)
    moreover have "m - 1 < length (month_lengths y)" using date(3,4) by (simp add: month_lengths_def)
    ultimately show ?thesis by (meson nth_mem)
  qed
  have frac: "read_seconds h mi (CHR '':'' # pad 2 sec @ iso_fraction us @ ''+00:00'') =
      Some (time_of_day h mi sec us, ''+00:00'')" if "sec < 60" for h mi sec
  proof (cases "us = 0")
    case True
    then show ?thesis using that by (simp add: read_seconds_def iso_fraction_def read_digits_pad digit_val_def)
  next
    case False
    have p6: "pad 6 us = digit_char (us div 100000) # pad 5 us"
      using pad_Suc_front [of 5 us] by simp
    have "us mod 10 ^ 6 = us" by (simp add: us_def)
    then have "read_fraction 6 0 (digit_char (us div 100000) # pad 5 us @ ''+00:00'') = (us, ''+00:00'')"
      using read_fraction_pad [of "''+00:00''" 6 0 us] unfolding p6 by (simp add: digit_val_def)
    with False show ?thesis
      using that by (simp add: read_seconds_def iso_fraction_def read_digits_pad p6)
  qed
  define clock where "clock = pad 2 (secs div 3600 mod 24) @ '':'' @ pad 2 (secs div 60 mod 60) @ '':'' @
      pad 2 (secs mod 60) @ iso_fraction us @ ''+00:00''"
  have time: "read_time clock =
      Some (time_of_day (secs div 3600 mod 24) (secs div 60 mod 60) (secs mod 60) us, ''+00:00'')"
    using frac by (simp add: clock_def read_time_def read_digits_pad not_le)
  have offset: "read_offset ''+00:00'' = Some (Some 0)" by code_simp
  have iso: "isoformat t = pad 4 y @ CHR ''-'' # pad 2 m @ CHR ''-'' # pad 2 d @ CHR ''T'' # clock"
    unfolding isoformat_def Let_def n_def [symmetric] us_def [symmetric] secs_def [symmetric] c clock_def by simp
  have "fromisoformat (isoformat t) = Some (Aware (int (day_number y m d) * us_per_day +
      time_of_day (secs div 3600 mod 24) (secs div 60 mod 60) (secs mod 60) us - 0))"
    unfolding iso fromisoformat_def
    using \<open>y < 10000\<close> date lengths by (simp add: read_digits_pad time offset Let_def)
  also have "int (day_number y m d) * us_per_day +
      time_of_day (secs div 3600 mod 24) (secs div 60 mod 60) (secs mod 60) us - 0 = t"
  proof -
    have "secs = secs div 60 * 60 + secs mod 60"
      "secs div 60 = secs div 3600 * 60 + secs div 60 mod 60"
      "secs div 3600 = secs div 86400 * 24 + secs div 3600 mod 24"
      using div_mult2_eq [of secs 60 60] div_mult2_eq [of secs 3600 24] by simp_all
    moreover have "int n0 = (int c0 * 24 + int h) * 3600 + int mi * 60 + int sec"
      if "n0 = a * 60 + sec" "a = b * 60 + mi" "b = c0 * 24 + h" for n0 a b c0 h mi sec :: nat
      using that by simp
    ultimately have hms: "int secs = (int (secs div 86400) * 24 + int (secs div 3600 mod 24)) * 3600
        + int (secs div 60 mod 60) * 60 + int (secs mod 60)" by blast
    have "n = secs * 1000000 + us" by (simp add: secs_def us_def)
    then have "int n = int secs * 1000000 + int us" by simp
    moreover have "int n = t" using assms(1) by (simp add: n_def)
    ultimately show ?thesis unfolding date(1) time_of_day_def us_per_day_def hms by (simp add: algebra_simps)
  qed
  finally show ?thesis .
qed

end
