(* ===== verification/Dispatcher.thy ===== *)
theory Dispatcher
  imports RunProperties ExecutionService PyTime
    "HOL-Library.Char_ord" "HOL-Library.List_Lexorder" "HOL-Library.Product_Lexorder"
begin

text \<open>
  The dispatcher of webhook executions, \<open>app/services/webhook_dispatcher_service.py\<close>: which
  pending executions a pass picks and in which order, the run of each through the executor,
  and the retry policy after a failure. What the dispatcher needs of the executor is the
  locale \<open>executor\<close>; \<open>run_execution\<close> provides it.
\<close>

section \<open>Reading an execution\<close>

definition PENDING_SCAN_LIMIT :: nat where
  "PENDING_SCAN_LIMIT = 100"

record dispatch_report =
  dr_scanned :: nat
  dr_dispatched :: nat
  dr_skipped :: nat
  dr_deferred :: nat
  dr_paused :: nat
  dr_retries_scheduled :: nat
  dr_dead_lettered :: nat
  dr_execution_ids :: "uuid list"

definition empty_report :: dispatch_report where
  "empty_report = \<lparr>dr_scanned = 0, dr_dispatched = 0, dr_skipped = 0, dr_deferred = 0, dr_paused = 0,
    dr_retries_scheduled = 0, dr_dead_lettered = 0, dr_execution_ids = []\<rparr>"

record retry_policy =
  rp_max_attempts :: int
  rp_backoff_seconds :: int

definition default_policy :: retry_policy where
  "default_policy = \<lparr>rp_max_attempts = 3, rp_backoff_seconds = 60\<rparr>"

definition is_webhook_trigger_execution :: "execution \<Rightarrow> bool" where
  "is_webhook_trigger_execution e =
    (case jget ''trigger'' (obj_or_empty (ex_input_data e)) of
      JObj trigger \<Rightarrow> jget ''type'' trigger = JStr ''webhook''
    | _ \<Rightarrow> False)"

definition dispatch_metadata :: "(string, json) dict \<Rightarrow> (string, json) dict" where
  "dispatch_metadata input = obj_or_empty (jget ''dispatch'' input)"

definition attempt_number :: "(string, json) dict \<Rightarrow> int" where
  "attempt_number input =
    (case py_int (jget_or ''attempt'' (JInt 1) (dispatch_metadata input)) of None \<Rightarrow> 1 | Some n \<Rightarrow> max n 1)"

text \<open>A time without an offset is taken as UTC.\<close>

definition parse_datetime :: "json \<Rightarrow> instant option" where
  "parse_datetime v =
    (case v of
      JStr s \<Rightarrow> if s = [] then None
        else (case fromisoformat s of None \<Rightarrow> None | Some (Naive t) \<Rightarrow> Some t | Some (Aware t) \<Rightarrow> Some t)
    | _ \<Rightarrow> None)"

definition is_retry_due :: "execution \<Rightarrow> instant \<Rightarrow> bool" where
  "is_retry_due e now =
    (case parse_datetime (jget ''next_attempt_at'' (dispatch_metadata (obj_or_empty (ex_input_data e)))) of
      None \<Rightarrow> True | Some t \<Rightarrow> t \<le> now)"

text \<open>The oldest pending executions, of all tenants and of any origin.\<close>

definition pending_execution_candidates :: "nat \<Rightarrow> db \<Rightarrow> execution list" where
  "pending_execution_candidates scan_limit s =
    take scan_limit (sort_key (\<lambda>e. (ex_created_at e, ex_id e))
      (filter (\<lambda>e. ex_status e = ExPending) (executions s)))"

definition has_retryable_failure :: "uuid \<Rightarrow> db \<Rightarrow> bool" where
  "has_retryable_failure eid s =
    (row_find (\<lambda>lg. lg_execution_id lg = eid \<and> lg_retryable lg) (execution_logs s) \<noteq> None)"

definition is_workflow_dispatch_paused :: "uuid \<Rightarrow> db \<Rightarrow> bool" where
  "is_workflow_dispatch_paused wid s =
    (case row_find (\<lambda>w. wf_id w = wid) (workflows s) of None \<Rightarrow> False | Some w \<Rightarrow> wf_dispatch_paused w)"

section \<open>The retry policy\<close>

definition with_dispatch_metadata :: "(string, json) dict \<Rightarrow> (string, json) dict \<Rightarrow> json" where
  "with_dispatch_metadata input metadata = JObj (dset ''dispatch'' (JObj metadata) input)"

definition retry_metadata :: "execution \<Rightarrow> retry_policy \<Rightarrow> instant \<Rightarrow> (string, json) dict" where
  "retry_metadata e policy now =
    (let input = obj_or_empty (ex_input_data e); current = dispatch_metadata input in
     dupdate current
       [(''attempt'', JInt (attempt_number input + 1)),
        (''root_execution_id'', py_or (jget ''root_execution_id'' current) (JStr (ex_id e))),
        (''parent_execution_id'', JStr (ex_id e)),
        (''previous_execution_id'', JStr (ex_id e)),
        (''next_attempt_at'', JStr (isoformat (now + seconds (rp_backoff_seconds policy)))),
        (''dead_lettered'', JBool False)])"

definition retry_row :: "uuid \<Rightarrow> instant \<Rightarrow> execution \<Rightarrow> retry_policy \<Rightarrow> instant \<Rightarrow> execution" where
  "retry_row new_id created e policy now =
    new_execution new_id created (ex_tenant_id e) (ex_workflow_id e)
      (with_dispatch_metadata (obj_or_empty (ex_input_data e)) (retry_metadata e policy now))"

definition schedule_retry_execution ::
  "uuid \<Rightarrow> instant \<Rightarrow> execution \<Rightarrow> retry_policy \<Rightarrow> instant \<Rightarrow> db \<Rightarrow> db" where
  "schedule_retry_execution new_id created e policy now s =
    add_execution (retry_row new_id created e policy now) s"

definition mark_dead_lettered :: "execution \<Rightarrow> instant \<Rightarrow> db \<Rightarrow> db" where
  "mark_dead_lettered e now s =
    (let input = obj_or_empty (ex_input_data e);
         metadata = dupdate (dispatch_metadata input)
           [(''attempt'', JInt (attempt_number input)), (''dead_lettered'', JBool True),
            (''dead_letter_reason'', JStr ''max_attempts_exhausted''),
            (''dead_lettered_at'', JStr (isoformat now))] in
     update_execution (ex_id e) (\<lambda>x. x\<lparr>ex_input_data := with_dispatch_metadata input metadata\<rparr>) s)"

datatype retry_result = NoRetry | RetryScheduled | DeadLettered

definition apply_retry_policy_after_dispatch ::
  "uuid \<Rightarrow> instant \<Rightarrow> uuid \<Rightarrow> retry_policy \<Rightarrow> instant \<Rightarrow> db \<Rightarrow> retry_result \<times> db" where
  "apply_retry_policy_after_dispatch new_id created eid policy now s =
    (case find_execution eid s of
      None \<Rightarrow> (NoRetry, s)
    | Some e \<Rightarrow>
        if ex_status e \<noteq> ExFailed then (NoRetry, s)
        else if \<not> has_retryable_failure (ex_id e) s then (NoRetry, s)
        else if attempt_number (obj_or_empty (ex_input_data e)) \<ge> rp_max_attempts policy
        then (DeadLettered, mark_dead_lettered e now s)
        else (RetryScheduled, schedule_retry_execution new_id created e policy now s))"

section \<open>A pass\<close>

text \<open>
  What a pass takes from outside: the executor, which also tells whether the run has rolled the
  session back, and for the retry of an execution the fresh identifier and the time of creation
  its row gets.
\<close>

record dispatch_env =
  de_run :: "execution \<Rightarrow> db \<Rightarrow> bool \<times> db"
  de_fresh :: "uuid \<Rightarrow> uuid"
  de_created :: "uuid \<Rightarrow> instant"

datatype verdict = Skip | Paused | Deferred | Dispatch

definition judge :: "instant \<Rightarrow> db \<Rightarrow> execution \<Rightarrow> verdict" where
  "judge now s e =
    (if \<not> is_webhook_trigger_execution e then Skip
     else if is_workflow_dispatch_paused (ex_workflow_id e) s then Paused
     else if \<not> is_retry_due e now then Deferred
     else Dispatch)"

definition count_result :: "retry_result \<Rightarrow> dispatch_report \<Rightarrow> dispatch_report" where
  "count_result r rep =
    (case r of
      NoRetry \<Rightarrow> rep
    | RetryScheduled \<Rightarrow> rep\<lparr>dr_retries_scheduled := dr_retries_scheduled rep + 1\<rparr>
    | DeadLettered \<Rightarrow> rep\<lparr>dr_dead_lettered := dr_dead_lettered rep + 1\<rparr>)"

definition dispatch_one ::
  "dispatch_env \<Rightarrow> retry_policy \<Rightarrow> instant \<Rightarrow> execution \<Rightarrow> db \<Rightarrow> retry_result \<times> bool \<times> db" where
  "dispatch_one env policy now e s =
    (case de_run env e s of (expired, s1) \<Rightarrow>
      (case apply_retry_policy_after_dispatch (de_fresh env (ex_id e)) (de_created env (ex_id e)) (ex_id e)
         policy now s1 of (r, s2) \<Rightarrow> (r, expired, s2)))"

text \<open>
  The loop. A run that rolled back has expired the rows of the candidates that are left: reading the
  next one raises \<open>MissingGreenlet\<close>, which leaves the pass. The result is the report, the exception
  if any, and the database; with an exception the caller does not get the report, which is then what
  the pass had counted.
\<close>

fun dispatch_loop ::
  "dispatch_env \<Rightarrow> nat \<Rightarrow> retry_policy \<Rightarrow> instant \<Rightarrow> bool \<Rightarrow> execution list \<Rightarrow> dispatch_report \<Rightarrow> db
    \<Rightarrow> dispatch_report \<times> string option \<times> db" where
  "dispatch_loop env limit policy now expired [] rep s = (rep, None, s)"
| "dispatch_loop env limit policy now expired (e # es) rep s =
    (if dr_dispatched rep \<ge> limit then (rep, None, s)
     else if expired then (rep, Some MISSING_GREENLET, s)
     else
      (let rep1 = rep\<lparr>dr_scanned := dr_scanned rep + 1\<rparr> in
       case judge now s e of
         Skip \<Rightarrow> dispatch_loop env limit policy now False es (rep1\<lparr>dr_skipped := dr_skipped rep1 + 1\<rparr>) s
       | Paused \<Rightarrow> dispatch_loop env limit policy now False es (rep1\<lparr>dr_paused := dr_paused rep1 + 1\<rparr>) s
       | Deferred \<Rightarrow> dispatch_loop env limit policy now False es (rep1\<lparr>dr_deferred := dr_deferred rep1 + 1\<rparr>) s
       | Dispatch \<Rightarrow>
          (case dispatch_one env policy now e s of (r, expired', s') \<Rightarrow>
            dispatch_loop env limit policy now expired' es
              (count_result r (rep1\<lparr>dr_dispatched := dr_dispatched rep1 + 1,
                 dr_execution_ids := dr_execution_ids rep1 @ [ex_id e]\<rparr>)) s')))"

definition dispatch_pass ::
  "dispatch_env \<Rightarrow> int \<Rightarrow> retry_policy \<Rightarrow> instant \<Rightarrow> db \<Rightarrow> dispatch_report \<times> string option \<times> db" where
  "dispatch_pass env limit policy now s =
    (if limit \<le> 0 then (empty_report, None, s)
     else dispatch_loop env (nat limit) policy now False
       (pending_execution_candidates (max PENDING_SCAN_LIMIT (nat limit)) s) empty_report s)"

text \<open>The service as it is wired: every execution runs through \<open>run_execution\<close>.\<close>

definition executor_env :: "(uuid \<Rightarrow> run_env) \<Rightarrow> (uuid \<Rightarrow> uuid) \<Rightarrow> (uuid \<Rightarrow> instant) \<Rightarrow> dispatch_env" where
  "executor_env envs fresh created =
    \<lparr>de_run = (\<lambda>e s.
       (run_rolls_back (envs (ex_id e)) (ex_id e) (ex_workflow_id e) (ex_tenant_id e) (ex_input_data e) s,
        fst (run_execution (envs (ex_id e)) (ex_id e) (ex_workflow_id e) (ex_tenant_id e) (ex_input_data e) s))),
     de_fresh = fresh, de_created = created\<rparr>"

definition dispatch_pending_webhook_executions ::
  "(uuid \<Rightarrow> run_env) \<Rightarrow> (uuid \<Rightarrow> uuid) \<Rightarrow> (uuid \<Rightarrow> instant) \<Rightarrow> int \<Rightarrow> retry_policy \<Rightarrow> instant \<Rightarrow> db
    \<Rightarrow> dispatch_report \<times> string option \<times> db" where
  "dispatch_pending_webhook_executions envs fresh created = dispatch_pass (executor_env envs fresh created)"

section \<open>The report of a pass\<close>

definition balanced :: "dispatch_report \<Rightarrow> bool" where
  "balanced rep \<longleftrightarrow>
    dr_scanned rep = dr_skipped rep + dr_paused rep + dr_deferred rep + dr_dispatched rep \<and>
    length (dr_execution_ids rep) = dr_dispatched rep \<and>
    dr_retries_scheduled rep + dr_dead_lettered rep \<le> dr_dispatched rep"

lemma count_result_fields [simp]:
  "dr_dispatched (count_result r rep) = dr_dispatched rep"
  "dr_execution_ids (count_result r rep) = dr_execution_ids rep"
  "dr_scanned (count_result r rep) = dr_scanned rep"
  by (simp_all add: count_result_def split: retry_result.split)

lemma balanced_step:
  assumes "balanced rep"
  shows "balanced (rep\<lparr>dr_scanned := dr_scanned rep + 1, dr_skipped := dr_skipped rep + 1\<rparr>)"
    "balanced (rep\<lparr>dr_scanned := dr_scanned rep + 1, dr_paused := dr_paused rep + 1\<rparr>)"
    "balanced (rep\<lparr>dr_scanned := dr_scanned rep + 1, dr_deferred := dr_deferred rep + 1\<rparr>)"
    "balanced (count_result r (rep\<lparr>dr_scanned := dr_scanned rep + 1, dr_dispatched := dr_dispatched rep + 1,
      dr_execution_ids := dr_execution_ids rep @ [i]\<rparr>))"
  using assms by (auto simp: balanced_def count_result_def split: retry_result.split)

text \<open>One scanned execution, as a step on report and database.\<close>

definition visit ::
  "dispatch_env \<Rightarrow> retry_policy \<Rightarrow> instant \<Rightarrow> execution \<Rightarrow> dispatch_report \<times> db \<Rightarrow> dispatch_report \<times> bool \<times> db" where
  "visit env policy now e st =
    (case st of (rep, s) \<Rightarrow>
      (case judge now s e of
        Skip \<Rightarrow> (rep\<lparr>dr_scanned := dr_scanned rep + 1, dr_skipped := dr_skipped rep + 1\<rparr>, False, s)
      | Paused \<Rightarrow> (rep\<lparr>dr_scanned := dr_scanned rep + 1, dr_paused := dr_paused rep + 1\<rparr>, False, s)
      | Deferred \<Rightarrow> (rep\<lparr>dr_scanned := dr_scanned rep + 1, dr_deferred := dr_deferred rep + 1\<rparr>, False, s)
      | Dispatch \<Rightarrow>
         (case dispatch_one env policy now e s of (r, expired, s') \<Rightarrow>
           (count_result r (rep\<lparr>dr_scanned := dr_scanned rep + 1, dr_dispatched := dr_dispatched rep + 1,
             dr_execution_ids := dr_execution_ids rep @ [ex_id e]\<rparr>), expired, s'))))"

lemma dispatch_loop_Cons:
  "dispatch_loop env limit policy now expired (e # es) rep s =
    (if dr_dispatched rep \<ge> limit then (rep, None, s)
     else if expired then (rep, Some MISSING_GREENLET, s)
     else (case visit env policy now e (rep, s) of (rep', expired', s') \<Rightarrow>
       dispatch_loop env limit policy now expired' es rep' s'))"
  by (simp add: visit_def Let_def split: verdict.split prod.split)

declare dispatch_loop.simps(2) [simp del]

lemma visit_report:
  assumes "visit env policy now e (rep, s) = (rep', x, s')" "balanced rep"
  shows "balanced rep'" "dr_scanned rep' = Suc (dr_scanned rep)" "dr_dispatched rep' \<le> Suc (dr_dispatched rep)"
    "dr_execution_ids rep' = dr_execution_ids rep \<or> dr_execution_ids rep' = dr_execution_ids rep @ [ex_id e]"
  using assms balanced_step [OF assms(2)]
  by (auto simp: visit_def split: verdict.splits prod.splits)

lemma dispatch_loop_report:
  assumes "dispatch_loop env limit policy now expired es rep s = (rep', exc, s')" "balanced rep" "dr_dispatched rep \<le> limit"
  shows "balanced rep' \<and> dr_dispatched rep' \<le> limit \<and> dr_scanned rep' \<le> dr_scanned rep + length es \<and>
    (\<exists>ids. dr_execution_ids rep' = dr_execution_ids rep @ ids \<and> subseq ids (map ex_id es))"
  using assms
proof (induction es arbitrary: expired rep s)
  case (Cons e es)
  show ?case
  proof (cases "dr_dispatched rep \<ge> limit \<or> expired")
    case True
    with Cons.prems show ?thesis by (auto simp: dispatch_loop_Cons split: if_splits)
  next
    case False
    obtain rep1 x s1 where v: "visit env policy now e (rep, s) = (rep1, x, s1)" by (metis surj_pair)
    note r = visit_report [OF v Cons.prems(2)]
    from Cons.IH [of x rep1 s1] r False Cons.prems(1) v
    have IH: "balanced rep' \<and> dr_dispatched rep' \<le> limit \<and> dr_scanned rep' \<le> dr_scanned rep1 + length es \<and>
      (\<exists>ids. dr_execution_ids rep' = dr_execution_ids rep1 @ ids \<and> subseq ids (map ex_id es))"
      by (simp add: dispatch_loop_Cons)
    then obtain ids where ids: "dr_execution_ids rep' = dr_execution_ids rep1 @ ids" "subseq ids (map ex_id es)"
      by blast
    have "\<exists>ids. dr_execution_ids rep' = dr_execution_ids rep @ ids \<and> subseq ids (map ex_id (e # es))"
      using r(4) ids by (auto intro: list_emb_Cons)
    with IH r(2) show ?thesis by auto
  qed
qed (auto simp: dispatch_loop.simps(1))

section \<open>What the dispatcher needs of the executor\<close>

locale executor =
  fixes run :: "execution \<Rightarrow> db \<Rightarrow> db"
  assumes run_tenants: "distinct (map tn_id (tenants s)) \<Longrightarrow> map tn_id (tenants (run e s)) = map tn_id (tenants s)"
    and run_ids: "distinct (map tn_id (tenants s)) \<Longrightarrow> map ex_id (executions (run e s)) = map ex_id (executions s)"
    and run_inputs: "distinct (map tn_id (tenants s)) \<Longrightarrow>
      map ex_input_data (executions (run e s)) = map ex_input_data (executions s)"
    and run_others: "distinct (map tn_id (tenants s)) \<Longrightarrow>
      filter (\<lambda>x. ex_id x \<noteq> ex_id e) (executions (run e s)) = filter (\<lambda>x. ex_id x \<noteq> ex_id e) (executions s)"
    and run_settles: "distinct (map tn_id (tenants s)) \<Longrightarrow> x \<in> set (executions (run e s)) \<Longrightarrow>
      ex_id x = ex_id e \<Longrightarrow> ex_status x \<noteq> ExPending"

text \<open>The executions with these identifiers have left the queue.\<close>

definition settled :: "uuid set \<Rightarrow> db \<Rightarrow> bool" where
  "settled ids s \<longleftrightarrow> (\<forall>x \<in> set (executions s). ex_id x \<in> ids \<longrightarrow> ex_status x \<noteq> ExPending)"

definition attempts_within :: "int \<Rightarrow> db \<Rightarrow> bool" where
  "attempts_within n s \<longleftrightarrow> (\<forall>x \<in> set (executions s). attempt_number (obj_or_empty (ex_input_data x)) \<le> n)"

lemma attempts_within_inputs:
  "attempts_within n s \<longleftrightarrow> (\<forall>v \<in> set (map ex_input_data (executions s)). attempt_number (obj_or_empty v) \<le> n)"
  by (simp add: attempts_within_def)

lemma dispatch_metadata_with [simp]:
  "dispatch_metadata (obj_or_empty (with_dispatch_metadata input metadata)) = metadata"
  by (simp add: dispatch_metadata_def with_dispatch_metadata_def)

lemma jget_or_dupdate_Cons:
  "jget_or k df (dupdate d ((j, v) # new)) = jget_or k df (dupdate (dset j v d) new)"
  by (simp add: dupdate_def)

lemma dupdate_Nil [simp]: "dupdate d [] = d"
  by (simp add: dupdate_def)

lemma attempt_number_ge_1: "attempt_number input \<ge> 1"
  by (simp add: attempt_number_def split: option.split)

lemma attempt_number_retry:
  "attempt_number (obj_or_empty (with_dispatch_metadata input (retry_metadata e policy now))) =
    attempt_number (obj_or_empty (ex_input_data e)) + 1"
  using attempt_number_ge_1 [of "obj_or_empty (ex_input_data e)"]
  by (simp add: attempt_number_def [of "obj_or_empty (with_dispatch_metadata _ _)"] retry_metadata_def Let_def
      jget_or_dupdate_Cons jget_or_dset)

lemma attempt_number_dead:
  "attempt_number (obj_or_empty (with_dispatch_metadata input (dupdate d
    [(''attempt'', JInt (attempt_number i)), (''dead_lettered'', a), (''dead_letter_reason'', b),
     (''dead_lettered_at'', c)]))) = attempt_number i"
  using attempt_number_ge_1 [of i]
  by (simp add: attempt_number_def [of "obj_or_empty (with_dispatch_metadata _ _)"]
      jget_or_dupdate_Cons jget_or_dset)

lemma apply_retry_cases:
  assumes "apply_retry_policy_after_dispatch new_id created eid policy now s = (r, s')"
  obtains (none) "r = NoRetry" "s' = s"
  | (dead) e where "find_execution eid s = Some e" "r = DeadLettered" "s' = mark_dead_lettered e now s"
  | (retry) e where "find_execution eid s = Some e"
      "attempt_number (obj_or_empty (ex_input_data e)) < rp_max_attempts policy"
      "r = RetryScheduled" "s' = add_execution (retry_row new_id created e policy now) s"
  using assms
  by (auto simp: apply_retry_policy_after_dispatch_def schedule_retry_execution_def split: option.splits if_splits)

lemma find_executionD: "find_execution eid s = Some e \<Longrightarrow> ex_id e = eid \<and> e \<in> set (executions s)"
  by (auto simp: find_execution_def dest: row_find_SomeD)

lemma mark_dead_tables [simp]:
  "tenants (mark_dead_lettered e now s) = tenants s"
  by (simp add: mark_dead_lettered_def Let_def update_execution_def)

lemma add_execution_tables [simp]:
  "tenants (add_execution e s) = tenants s" "executions (add_execution e s) = executions s @ [e]"
  by (simp_all add: add_execution_def)

lemma apply_retry_keeps:
  assumes "apply_retry_policy_after_dispatch new_id created eid policy now s = (r, s')"
  shows "tenants s' = tenants s"
    and "settled ids s \<Longrightarrow> new_id \<notin> ids \<Longrightarrow> settled ids s'"
    and "rp_max_attempts policy \<le> n \<Longrightarrow> attempts_within n s \<Longrightarrow> attempts_within n s'"
proof -
  from assms have "tenants s' = tenants s \<and> (settled ids s \<longrightarrow> new_id \<notin> ids \<longrightarrow> settled ids s') \<and>
    (rp_max_attempts policy \<le> n \<longrightarrow> attempts_within n s \<longrightarrow> attempts_within n s')"
  proof (cases rule: apply_retry_cases)
    case none
    then show ?thesis by simp
  next
    case (dead e)
    then show ?thesis
      using find_executionD [OF dead(1)]
      by (auto simp: settled_def attempts_within_def mark_dead_lettered_def Let_def update_execution_def
          set_row_update attempt_number_dead)
  next
    case (retry e)
    then show ?thesis
      by (auto simp: settled_def attempts_within_def retry_row_def new_execution_def attempt_number_retry)
  qed
  then show "tenants s' = tenants s"
    "settled ids s \<Longrightarrow> new_id \<notin> ids \<Longrightarrow> settled ids s'"
    "rp_max_attempts policy \<le> n \<Longrightarrow> attempts_within n s \<Longrightarrow> attempts_within n s'" by blast+
qed

text \<open>
  The invariant of a pass: what it has dispatched is settled, and attempts stay within a bound that
  is not below the policy's.
\<close>

definition pass_inv :: "uuid set \<Rightarrow> int \<Rightarrow> dispatch_report \<Rightarrow> db \<Rightarrow> bool" where
  "pass_inv known n rep s \<longleftrightarrow> distinct (map tn_id (tenants s)) \<and>
    set (dr_execution_ids rep) \<subseteq> known \<and> settled (set (dr_execution_ids rep)) s \<and>
    attempts_within n s"

context executor begin

lemma run_settled:
  assumes "distinct (map tn_id (tenants s))" "settled ids s"
  shows "settled (insert (ex_id e) ids) (run e s)"
  unfolding settled_def
proof (intro ballI impI)
  fix x assume x: "x \<in> set (executions (run e s))" "ex_id x \<in> insert (ex_id e) ids"
  show "ex_status x \<noteq> ExPending"
  proof (cases "ex_id x = ex_id e")
    case True
    with run_settles [OF assms(1) x(1)] show ?thesis by simp
  next
    case False
    then have "x \<in> set (filter (\<lambda>x. ex_id x \<noteq> ex_id e) (executions (run e s)))" using x(1) by simp
    then have "x \<in> set (executions s)" unfolding run_others [OF assms(1)] by simp
    with assms(2) x(2) False show ?thesis by (auto simp: settled_def)
  qed
qed

lemma visit_pass_inv:
  assumes "pass_inv known n rep s" "rp_max_attempts policy \<le> n" "ex_id e \<in> known" "\<And>x y. snd (de_run env x y) = run x y"
    and "\<forall>i. de_fresh env i \<notin> known" "visit env policy now e (rep, s) = (rep', expired, s')"
  shows "pass_inv known n rep' s'"
proof (cases "judge now s e = Dispatch")
  case False
  with assms show ?thesis by (cases "judge now s e") (auto simp: visit_def pass_inv_def)
next
  case True
  obtain r where one: "dispatch_one env policy now e s = (r, expired, s')"
    and rep': "dr_execution_ids rep' = dr_execution_ids rep @ [ex_id e]"
    using assms(6) True by (auto simp: visit_def split: prod.splits)
  from assms(1) have dist: "distinct (map tn_id (tenants s))" by (simp add: pass_inv_def)
  have att: "attempts_within n (run e s)"
    using assms(1) unfolding pass_inv_def attempts_within_inputs run_inputs [OF dist] by blast
  have "settled (insert (ex_id e) (set (dr_execution_ids rep))) (run e s)"
    using run_settled [OF dist] assms(1) by (simp add: pass_inv_def)
  moreover have "apply_retry_policy_after_dispatch (de_fresh env (ex_id e)) (de_created env (ex_id e)) (ex_id e)
      policy now (run e s) = (r, s')"
    using one assms(4) [of e s] by (auto simp: dispatch_one_def split: prod.splits)
  note keeps = apply_retry_keeps [OF this]
  moreover have "de_fresh env (ex_id e) \<notin> insert (ex_id e) (set (dr_execution_ids rep))"
    using assms(1,3) spec [OF assms(5), of "ex_id e"] by (auto simp: pass_inv_def)
  ultimately have "settled (insert (ex_id e) (set (dr_execution_ids rep))) s'"
    "attempts_within n s'" using att assms(2) by blast+
  then show ?thesis
    using assms(1,3) rep' keeps(1) run_tenants [OF dist] dist by (auto simp: pass_inv_def)
qed

lemma dispatch_loop_inv:
  assumes "pass_inv known n rep s" "rp_max_attempts policy \<le> n" "ex_id ` set es \<subseteq> known" "\<And>x y. snd (de_run env x y) = run x y"
    and "\<forall>i. de_fresh env i \<notin> known" "dispatch_loop env limit policy now expired es rep s = (rep', exc, s')"
  shows "pass_inv known n rep' s'"
  using assms
proof (induction es arbitrary: expired rep s)
  case (Cons e es)
  obtain rep1 x s1 where v: "visit env policy now e (rep, s) = (rep1, x, s1)" by (metis surj_pair)
  from visit_pass_inv [OF Cons.prems(1,2) _ Cons.prems(4,5) v] Cons.prems Cons.IH [of rep1 s1 x] v
  show ?case by (auto simp: dispatch_loop_Cons split: if_splits)
qed (simp add: dispatch_loop.simps(1))

end

section \<open>The executor provides it\<close>

lemma run_execution_keeps:
  assumes "distinct (map tn_id (tenants s))"
  shows "map tn_id (tenants (fst (run_execution env eid wid tid input s))) = map tn_id (tenants s)"
    and "map ex_id (executions (fst (run_execution env eid wid tid input s))) = map ex_id (executions s)"
    and "map ex_input_data (executions (fst (run_execution env eid wid tid input s))) =
      map ex_input_data (executions s)"
    and "filter (\<lambda>x. ex_id x \<noteq> eid) (executions (fst (run_execution env eid wid tid input s))) =
      filter (\<lambda>x. ex_id x \<noteq> eid) (executions s)"
proof -
  from run_execution_effect [OF assms run_execution_pair [of env eid wid tid input s]] obtain new F where
    eff: "fst (run_execution env eid wid tid input s) = s\<lparr>
      tenants := row_update (\<lambda>t. tn_id t = tid)
        (\<lambda>t. t\<lparr>tn_tokens_used_this_month := tn_tokens_used_this_month t + log_tokens new\<rparr>) (tenants s),
      executions := row_update (\<lambda>e. ex_id e = eid) F (executions s),
      execution_logs := execution_logs s @ new\<rparr>"
    and F: "\<And>e. ex_id (F e) = ex_id e" "\<And>e. ex_input_data (F e) = ex_input_data e"
    unfolding adds_totals_def by blast
  show "map tn_id (tenants (fst (run_execution env eid wid tid input s))) = map tn_id (tenants s)"
    "map ex_id (executions (fst (run_execution env eid wid tid input s))) = map ex_id (executions s)"
    "map ex_input_data (executions (fst (run_execution env eid wid tid input s))) =
      map ex_input_data (executions s)"
    "filter (\<lambda>x. ex_id x \<noteq> eid) (executions (fst (run_execution env eid wid tid input s))) =
      filter (\<lambda>x. ex_id x \<noteq> eid) (executions s)"
    unfolding eff by (simp_all add: map_row_update F filter_row_update_other)
qed

lemma run_execution_settles:
  assumes "distinct (map tn_id (tenants s))"
    and "x \<in> set (executions (fst (run_execution env eid wid tid input s)))" "ex_id x = eid"
  shows "ex_status x \<noteq> ExPending"
  using assms(1) run_execution_pair [of env eid wid tid input s]
proof (cases rule: run_execution_cases)
  case refused
  then obtain msg where eq: "fst (run_execution env eid wid tid input s) = fail_execution (re_ended env) eid msg s"
    unfolding refused_by_def by blast
  let ?f = "\<lambda>e. e\<lparr>ex_status := ExFailed, ex_error_message := Some msg, ex_completed_at := Some (re_ended env)\<rparr>"
  have "x \<in> set (row_update (\<lambda>e. ex_id e = eid) ?f (executions s))"
    using assms(2) unfolding eq by (simp add: fail_execution_def update_execution_def)
  from row_update_memD [OF this] assms(3) have "\<exists>e. x = ?f e" by blast
  then show ?thesis by auto
next
  case stale
  from assms(2,3) stale(3) show ?thesis unfolding stale(1) by blast
next
  case (ran cfg q0 new st)
  from ran_tables(1) [OF ran] obtain f where f: "final_write st f"
    and ex: "executions (fst (run_execution env eid wid tid input s)) =
      row_update (\<lambda>e. ex_id e = eid) (run_write (re_started env) new f) (executions s)"
    by auto
  from assms(2,3) have "\<exists>e. x = run_write (re_started env) new f e"
    unfolding ex by (blast dest: row_update_memD)
  moreover from ran have "st \<noteq> ExPending" unfolding ran_def by auto
  ultimately show ?thesis using run_write_status [OF f] by auto
qed

text \<open>A run leaves the workflows as they are, and with them whether dispatch is paused.\<close>

lemma run_execution_workflows:
  assumes "distinct (map tn_id (tenants s))"
  shows "workflows (fst (run_execution env eid wid tid input s)) = workflows s"
proof -
  from run_execution_effect [OF assms run_execution_pair [of env eid wid tid input s]] obtain new F where
    eff: "fst (run_execution env eid wid tid input s) = s\<lparr>
      tenants := row_update (\<lambda>t. tn_id t = tid)
        (\<lambda>t. t\<lparr>tn_tokens_used_this_month := tn_tokens_used_this_month t + log_tokens new\<rparr>) (tenants s),
      executions := row_update (\<lambda>e. ex_id e = eid) F (executions s),
      execution_logs := execution_logs s @ new\<rparr>"
    unfolding adds_totals_def by blast
  show ?thesis unfolding eff by simp
qed

interpretation dispatched: executor
  "\<lambda>e s. fst (run_execution (envs (ex_id e)) (ex_id e) (ex_workflow_id e) (ex_tenant_id e) (ex_input_data e) s)"
  for envs
  by unfold_locales (simp_all only: run_execution_keeps, rule run_execution_settles)

section \<open>A pass that reaches an execution\<close>

lemma apply_retry_workflows:
  "workflows (snd (apply_retry_policy_after_dispatch new_id created eid policy now s)) = workflows s"
  by (auto simp: apply_retry_policy_after_dispatch_def mark_dead_lettered_def schedule_retry_execution_def
      add_execution_def update_execution_def Let_def split: option.split)

lemma judge_workflows: "workflows s' = workflows s \<Longrightarrow> judge now s' e = judge now s e"
  by (simp add: judge_def is_workflow_dispatch_paused_def)

text \<open>
  An execution in the scanned list that is to be dispatched is dispatched, if the limit leaves room
  for all those in front of it.
\<close>

lemma visit_keeps:
  assumes "visit (executor_env envs fresh created) policy now e (rep, s) = (rep', expired, s')"
    and "distinct (map tn_id (tenants s))"
  shows "workflows s' = workflows s" "distinct (map tn_id (tenants s'))"
    "set (dr_execution_ids rep) \<subseteq> set (dr_execution_ids rep')"
    "judge now s e = Dispatch \<Longrightarrow> ex_id e \<in> set (dr_execution_ids rep')"
  using assms run_execution_workflows [OF assms(2)] run_execution_keeps(1) [OF assms(2)]
    apply_retry_workflows apply_retry_keeps(1)
  by (auto simp: visit_def dispatch_one_def executor_env_def split: verdict.splits prod.splits)
    (metis snd_conv)+

lemma dispatch_loop_reaches:
  assumes "dispatch_loop (executor_env envs fresh created) limit policy now expired es rep s = (rep', None, s')"
    and "distinct (map tn_id (tenants s))" "balanced rep"
    and "e \<in> set es \<and> judge now s e = Dispatch \<or> ex_id e \<in> set (dr_execution_ids rep)"
    and "dr_dispatched rep + length es \<le> limit"
  shows "ex_id e \<in> set (dr_execution_ids rep')"
  using assms
proof (induction es arbitrary: expired rep s)
  case Nil
  then show ?case by (simp add: dispatch_loop.simps(1))
next
  case (Cons x es)
  obtain rep1 g s1 where v: "visit (executor_env envs fresh created) policy now x (rep, s) = (rep1, g, s1)"
    by (metis surj_pair)
  note k = visit_keeps [OF v Cons.prems(2)] and r = visit_report [OF v Cons.prems(3)]
  have "dispatch_loop (executor_env envs fresh created) limit policy now g es rep1 s1 = (rep', None, s')"
    using Cons.prems(1,5) v by (simp add: dispatch_loop_Cons split: if_splits)
  moreover have "e \<in> set es \<and> judge now s1 e = Dispatch \<or> ex_id e \<in> set (dr_execution_ids rep1)"
    using Cons.prems(4) k(3,4) judge_workflows [OF k(1)] by auto
  ultimately show ?case using Cons.IH [of g rep1 s1] k(2) r(1,3) Cons.prems(5) by simp
qed

section \<open>Properties\<close>

text \<open>
  The report of a pass is true and bounded: at most \<open>limit\<close> executions are dispatched,
  every scanned one is counted once as skipped, paused, deferred or dispatched, retries and
  dead letters are counted among the dispatched, no more than the scan limit is scanned, and the
  dispatched executions come in the order of creation.
\<close>

theorem dispatch_report_correct:
  "case dispatch_pending_webhook_executions envs fresh created limit policy now s of
    (rep, exc, s') \<Rightarrow> dr_dispatched rep \<le> nat limit \<and>
      dr_scanned rep = dr_skipped rep + dr_paused rep + dr_deferred rep + dr_dispatched rep \<and>
      length (dr_execution_ids rep) = dr_dispatched rep \<and>
      dr_retries_scheduled rep + dr_dead_lettered rep \<le> dr_dispatched rep \<and>
      dr_scanned rep \<le> max PENDING_SCAN_LIMIT (nat limit) \<and>
      subseq (dr_execution_ids rep)
        (map ex_id (sort_key (\<lambda>e. (ex_created_at e, ex_id e)) (filter (\<lambda>e. ex_status e = ExPending) (executions s))))"
proof -
  let ?es = "pending_execution_candidates (max PENDING_SCAN_LIMIT (nat limit)) s"
  obtain rep exc s' where r: "dispatch_pending_webhook_executions envs fresh created limit policy now s = (rep, exc, s')"
    by (metis surj_pair)
  have start: "balanced empty_report" "dr_dispatched empty_report \<le> nat limit" "dr_scanned empty_report = 0"
    "dr_execution_ids empty_report = []"
    by (simp_all add: balanced_def empty_report_def)
  show ?thesis
  proof (cases "limit \<le> 0")
    case True
    with r start show ?thesis
      by (auto simp: dispatch_pending_webhook_executions_def dispatch_pass_def balanced_def)
  next
    case False
    with r have "dispatch_loop (executor_env envs fresh created) (nat limit) policy now False ?es empty_report s = (rep, exc, s')"
      by (simp add: dispatch_pending_webhook_executions_def dispatch_pass_def)
    from dispatch_loop_report [OF this start(1,2)] have rep: "balanced rep" "dr_dispatched rep \<le> nat limit"
      "dr_scanned rep \<le> length ?es" "subseq (dr_execution_ids rep) (map ex_id ?es)"
      by (simp_all add: start)
    have "length ?es \<le> max PENDING_SCAN_LIMIT (nat limit)" by (simp add: pending_execution_candidates_def)
    moreover have "subseq (map ex_id ?es) (map ex_id (sort_key (\<lambda>e. (ex_created_at e, ex_id e))
        (filter (\<lambda>e. ex_status e = ExPending) (executions s))))"
      unfolding pending_execution_candidates_def by (intro subseq_map prefix_imp_subseq take_is_prefix)
    ultimately show ?thesis
      using rep subseq_order.trans by (auto simp: r balanced_def)
  qed
qed

text \<open>
  C33: a dispatched execution leaves the queue, and retries end. After a pass no execution it
  dispatched is still pending, also when an exception leaves the pass, so the next pass does not take
  it again; and if no execution is beyond the policy's number of attempts before the pass, none is after it.
\<close>

theorem dispatch_pass_progress:
  assumes "distinct (map tn_id (tenants s))" "attempts_within (rp_max_attempts policy) s"
    and "\<forall>i. fresh i \<notin> ex_id ` set (executions s)"
    and "dispatch_pending_webhook_executions envs fresh created limit policy now s = (rep, exc, s')"
  shows "settled (set (dr_execution_ids rep)) s' \<and> attempts_within (rp_max_attempts policy) s'"
proof (cases "limit \<le> 0")
  case True
  with assms show ?thesis
    by (auto simp: dispatch_pending_webhook_executions_def dispatch_pass_def empty_report_def settled_def)
next
  case False
  let ?env = "executor_env envs fresh created"
  let ?es = "pending_execution_candidates (max PENDING_SCAN_LIMIT (nat limit)) s"
  have "pass_inv (ex_id ` set (executions s)) (rp_max_attempts policy) empty_report s"
    using assms(1,2) by (simp add: pass_inv_def empty_report_def settled_def)
  moreover note order_refl [of "rp_max_attempts policy"]
  moreover have "ex_id ` set ?es \<subseteq> ex_id ` set (executions s)"
    unfolding pending_execution_candidates_def by (rule image_mono) (auto dest: in_set_takeD)
  moreover have "\<And>e s. snd (de_run ?env e s) = fst (run_execution (envs (ex_id e)) (ex_id e) (ex_workflow_id e)
      (ex_tenant_id e) (ex_input_data e) s)" "\<forall>i. de_fresh ?env i \<notin> ex_id ` set (executions s)"
    using assms(3) by (simp_all add: executor_env_def)
  moreover have "dispatch_loop ?env (nat limit) policy now False ?es empty_report s = (rep, exc, s')"
    using assms(4) False by (simp add: dispatch_pending_webhook_executions_def dispatch_pass_def)
  ultimately have "pass_inv (ex_id ` set (executions s)) (rp_max_attempts policy) rep s'"
    by (rule dispatched.dispatch_loop_inv)
  then show ?thesis by (simp add: pass_inv_def)
qed

definition webhook_execution :: "string \<Rightarrow> instant \<Rightarrow> execution" where
  "webhook_execution i created = (sample_execution i ''w1'' ExPending)\<lparr>
    ex_input_data := JObj [(''trigger'', JObj [(''type'', JStr ''webhook'')])], ex_created_at := created\<rparr>"

definition webhook_db :: db where
  "webhook_db = (sample_db ExCompleted 0)\<lparr>executions := [webhook_execution ''e1'' 1]\<rparr>"

theorem dispatch_pass_progress_witness:
  "list_all (\<lambda>x. ex_status x \<noteq> ExPending) (filter (\<lambda>x. ex_id x = ''e1'')
    (executions (snd (snd (dispatch_pending_webhook_executions (\<lambda>_. sample_env) (\<lambda>i. i @ ''r'') (\<lambda>_. 9) 10
      default_policy 5 webhook_db)))))"
proof -
  have tn: "distinct (map tn_id (tenants webhook_db))"
    by (simp add: webhook_db_def sample_db_def sample_tenant_def)
  have att: "attempts_within (rp_max_attempts default_policy) webhook_db"
    by (simp add: attempts_within_def webhook_db_def webhook_execution_def attempt_number_def
        dispatch_metadata_def jget_def jget_or_def dget_def default_policy_def)
  have fresh: "\<forall>i. i @ ''r'' \<notin> ex_id ` set (executions webhook_db)"
    by (simp add: webhook_db_def webhook_execution_def sample_execution_def append_eq_Cons_conv)
  obtain rep exc s' where r: "dispatch_pending_webhook_executions (\<lambda>_. sample_env) (\<lambda>i. i @ ''r'') (\<lambda>_. 9) 10
      default_policy 5 webhook_db = (rep, exc, s')" by (metis surj_pair)
  have "dr_execution_ids (fst (dispatch_pending_webhook_executions (\<lambda>_. sample_env) (\<lambda>i. i @ ''r'') (\<lambda>_. 9) 10
      default_policy 5 webhook_db)) = [''e1'']" by code_simp
  with dispatch_pass_progress [OF tn att fresh r] r show ?thesis
    by (auto simp: settled_def list_all_iff)
qed

text \<open>
  A retry waits. The execution the policy creates is a webhook execution of the same
  tenant and workflow, one attempt further, and a pass defers it exactly until the backoff has
  passed: the time written as text is read back unchanged.
\<close>

theorem retry_waits_for_backoff:
  fixes e :: execution and policy :: retry_policy and now created later :: instant and new_id :: uuid
  assumes "is_webhook_trigger_execution e"
    and "0 \<le> now + seconds (rp_backoff_seconds policy)"
    and "now + seconds (rp_backoff_seconds policy) < int (days_before_year 10000) * us_per_day"
  defines "r \<equiv> retry_row new_id created e policy now"
  shows "is_webhook_trigger_execution r \<and> ex_status r = ExPending \<and>
    ex_tenant_id r = ex_tenant_id e \<and> ex_workflow_id r = ex_workflow_id e \<and>
    attempt_number (obj_or_empty (ex_input_data r)) = attempt_number (obj_or_empty (ex_input_data e)) + 1 \<and>
    (is_retry_due r later \<longleftrightarrow> now + seconds (rp_backoff_seconds policy) \<le> later)"
proof -
  let ?t = "now + seconds (rp_backoff_seconds policy)"
  have "isoformat ?t \<noteq> []" by (simp add: isoformat_def Let_def split: prod.split)
  moreover note fromisoformat_isoformat [OF assms(2,3)]
  moreover have "jget ''next_attempt_at'' (dispatch_metadata (obj_or_empty (ex_input_data r))) = JStr (isoformat ?t)"
    by (simp add: r_def retry_row_def new_execution_def retry_metadata_def Let_def dupdate_def jget_dset)
  ultimately have "is_retry_due r later \<longleftrightarrow> ?t \<le> later"
    by (simp add: is_retry_due_def parse_datetime_def)
  moreover have "is_webhook_trigger_execution r"
    using assms(1) by (simp add: r_def retry_row_def new_execution_def is_webhook_trigger_execution_def
        with_dispatch_metadata_def jget_dset)
  ultimately show ?thesis
    by (simp add: r_def retry_row_def new_execution_def attempt_number_retry)
qed

theorem retry_waits_for_backoff_witness:
  "\<not> is_retry_due (retry_row ''e2'' 9 (webhook_execution ''e1'' 1) default_policy 5) 60000000 \<and>
   is_retry_due (retry_row ''e2'' 9 (webhook_execution ''e1'' 1) default_policy 5) 60000005"
proof -
  have w: "is_webhook_trigger_execution (webhook_execution ''e1'' 1)"
    by (simp add: is_webhook_trigger_execution_def webhook_execution_def jget_def dget_def)
  have t: "(5::int) + seconds (rp_backoff_seconds default_policy) = 60000005"
    by (simp add: seconds_def default_policy_def)
  have "days_before_year 10000 = 3652059" by (simp add: days_before_year.simps)
  then have "60000005 < int (days_before_year 10000) * us_per_day" by (simp add: us_per_day_def)
  with retry_waits_for_backoff [OF w, of 5 default_policy] show ?thesis by (simp add: t)
qed

lemma sorted_smaller_before:
  assumes "sorted (map key xs)" "i < length xs"
  shows "length (filter (\<lambda>y. key y < key (xs ! i)) xs) \<le> i"
proof -
  have "filter (\<lambda>y. key y < key (xs ! i)) (drop i xs) = []"
  proof (rule filter_False, rule ballI)
    fix y assume "y \<in> set (drop i xs)"
    then obtain j where "j < length xs - i" "y = xs ! (i + j)" by (auto simp: in_set_conv_nth)
    then have "key (xs ! i) \<le> key y"
      using assms sorted_nth_mono [of "map key xs" i "i + j"] by simp
    then show "\<not> key y < key (xs ! i)" by simp
  qed
  then have "filter (\<lambda>y. key y < key (xs ! i)) xs = filter (\<lambda>y. key y < key (xs ! i)) (take i xs)"
    by (metis append_Nil2 append_take_drop_id filter_append)
  then show ?thesis using le_trans [OF length_filter_le, of "take i xs" i] by simp
qed

lemma length_filter_sort_key: "length (filter P (sort_key f xs)) = length (filter P xs)"
proof -
  have "mset (filter P (sort_key f xs)) = mset (filter P xs)" by simp
  then show ?thesis by (rule mset_eq_length)
qed

lemma skip_all:
  "\<forall>e \<in> set es. \<not> is_webhook_trigger_execution e \<Longrightarrow>
    \<exists>rep'. dispatch_loop env limit policy now False es rep s = (rep', None, s) \<and> dr_dispatched rep' = dr_dispatched rep"
proof (induction es arbitrary: rep)
  case (Cons e es)
  let ?rep = "rep\<lparr>dr_scanned := Suc (dr_scanned rep), dr_skipped := Suc (dr_skipped rep)\<rparr>"
  obtain rep' where "dispatch_loop env limit policy now False es ?rep s = (rep', None, s) \<and> dr_dispatched rep' = dr_dispatched ?rep"
    using Cons by (metis list.set_intros(2))
  with Cons.prems show ?case by (auto simp: dispatch_loop_Cons visit_def judge_def)
qed (simp add: dispatch_loop.simps(1))

text \<open>
  Old manual executions starve the webhooks. The scan takes the oldest pending executions of
  any kind, so when as many non-webhook executions as the scan limit are pending and older than
  every pending webhook execution, a pass dispatches nothing and changes nothing: every later
  pass does the same.
\<close>

theorem scan_limit_starves_webhooks:
  assumes "\<forall>w \<in> set (executions s). ex_status w = ExPending \<and> is_webhook_trigger_execution w \<longrightarrow>
    max PENDING_SCAN_LIMIT (nat limit) \<le> length (filter (\<lambda>x. ex_status x = ExPending \<and>
      (ex_created_at x, ex_id x) < (ex_created_at w, ex_id w)) (executions s))"
  shows "\<exists>rep. dispatch_pending_webhook_executions envs fresh created limit policy now s = (rep, None, s) \<and>
    dr_dispatched rep = 0"
proof -
  let ?key = "\<lambda>e. (ex_created_at e, ex_id e)"
  let ?pend = "filter (\<lambda>e. ex_status e = ExPending) (executions s)"
  let ?k = "max PENDING_SCAN_LIMIT (nat limit)"
  have "\<not> is_webhook_trigger_execution w" if w: "w \<in> set (pending_execution_candidates ?k s)" for w
  proof
    assume hook: "is_webhook_trigger_execution w"
    from w obtain i where i: "i < ?k" "i < length (sort_key ?key ?pend)" "sort_key ?key ?pend ! i = w"
      by (auto simp: pending_execution_candidates_def in_set_conv_nth)
    then have "w \<in> set (sort_key ?key ?pend)" by (metis nth_mem)
    then have "w \<in> set (executions s)" "ex_status w = ExPending" by simp_all
    with hook have "?k \<le> length (filter (\<lambda>x. ex_status x = ExPending \<and> ?key x < ?key w) (executions s))"
      using bspec [OF assms] by blast
    also have "\<dots> = length (filter (\<lambda>x. ?key x < ?key w) ?pend)"
      by (simp only: filter_filter conj_commute)
    also have "\<dots> = length (filter (\<lambda>x. ?key x < ?key w) (sort_key ?key ?pend))"
      by (rule length_filter_sort_key [symmetric])
    also have "\<dots> \<le> i"
      using sorted_smaller_before [OF sorted_sort_key i(2)] i(3) by simp
    finally show False using i(1) by linarith
  qed
  then have none: "\<forall>e \<in> set (pending_execution_candidates ?k s). \<not> is_webhook_trigger_execution e" by blast
  show ?thesis
  proof (cases "limit \<le> 0")
    case True
    then show ?thesis
      by (simp add: dispatch_pending_webhook_executions_def dispatch_pass_def empty_report_def)
  next
    case False
    with skip_all [OF none, of "executor_env envs fresh created" "nat limit" policy now empty_report s]
    show ?thesis
      by (auto simp: dispatch_pending_webhook_executions_def dispatch_pass_def empty_report_def)
  qed
qed

definition starved_db :: db where
  "starved_db = empty_db\<lparr>executions := webhook_execution ''hook'' 1 #
    map (\<lambda>n. sample_execution (pad 3 n) ''w1'' ExPending) [0..<100]\<rparr>"

theorem scan_limit_starves_webhooks_witness:
  "\<exists>rep. dispatch_pending_webhook_executions (\<lambda>_. sample_env) (\<lambda>i. i @ ''r'') (\<lambda>_. 9) 10
    default_policy 5 starved_db = (rep, None, starved_db) \<and> dr_dispatched rep = 0"
proof (rule scan_limit_starves_webhooks, intro ballI impI, elim conjE)
  fix w assume "w \<in> set (executions starved_db)" "is_webhook_trigger_execution w"
  then have "w = webhook_execution ''hook'' 1"
    by (auto simp: starved_db_def is_webhook_trigger_execution_def sample_execution_def jget_def dget_def)
  then show "max PENDING_SCAN_LIMIT (nat 10) \<le> length (filter (\<lambda>x. ex_status x = ExPending \<and>
      (ex_created_at x, ex_id x) < (ex_created_at w, ex_id w)) (executions starved_db))"
    by (simp add: starved_db_def PENDING_SCAN_LIMIT_def webhook_execution_def sample_execution_def filter_map o_def
        less_prod_def)
qed

end
