(* ===== verification/PlanWorker.thy ===== *)
theory PlanWorker
  imports Health Dispatcher
begin

text \<open>
  Approval-gated automation: the decisions on a plan from \<open>app/services/analytics_service.py\<close> and
  the worker of \<open>app/services/dispatch_automation_plan_worker.py\<close>, which resumes paused workflows
  and retries dead-lettered executions on behalf of approved plans.
\<close>

section \<open>Decisions\<close>

definition get_plan :: "uuid \<Rightarrow> uuid \<Rightarrow> db \<Rightarrow> http_error + automation_plan" where
  "get_plan tid pid s =
    (case row_find (\<lambda>p. pl_id p = pid \<and> pl_tenant_id p = tid) (plans s) of
      None \<Rightarrow> Inl (HTTPException 404 ''Dispatch automation plan not found.'')
    | Some p \<Rightarrow> Inr p)"

definition update_plan :: "uuid \<Rightarrow> (automation_plan \<Rightarrow> automation_plan) \<Rightarrow> db \<Rightarrow> db" where
  "update_plan pid f s = s\<lparr>plans := row_update (\<lambda>p. pl_id p = pid) f (plans s)\<rparr>"

definition list_plans :: "uuid \<Rightarrow> nat \<Rightarrow> db \<Rightarrow> automation_plan list" where
  "list_plans tid limit s =
    take limit (sort_key (\<lambda>p. - pl_created_at p) (filter (\<lambda>p. pl_tenant_id p = tid) (plans s)))"

definition approve_plan :: "instant \<Rightarrow> uuid \<Rightarrow> user \<Rightarrow> uuid \<Rightarrow> (automation_plan, db) svc" where
  "approve_plan now tid u pid s =
    (case get_plan tid pid s of
      Inl err \<Rightarrow> (Inl err, s)
    | Inr p \<Rightarrow>
       if pl_status p \<noteq> PlPendingApproval
       then (Inl (HTTPException 409 ''Only pending automation plans can be approved.''), s)
       else
        (let f = (\<lambda>p. p\<lparr>pl_status := PlApproved, pl_approved_by := Some (us_id u),
              pl_approved_by_email := Some (us_email u), pl_approved_by_name := us_full_name u,
              pl_approved_at := Some now\<rparr>) in
         (Inr (f p), update_plan pid f s)))"

definition reject_plan :: "instant \<Rightarrow> uuid \<Rightarrow> user \<Rightarrow> uuid \<Rightarrow> string option \<Rightarrow> (automation_plan, db) svc" where
  "reject_plan now tid u pid note s =
    (case get_plan tid pid s of
      Inl err \<Rightarrow> (Inl err, s)
    | Inr p \<Rightarrow>
       if pl_status p \<noteq> PlPendingApproval
       then (Inl (HTTPException 409 ''Only pending automation plans can be rejected.''), s)
       else
        (let f = (\<lambda>p. p\<lparr>pl_status := PlRejected, pl_rejected_by := Some (us_id u),
              pl_rejected_by_email := Some (us_email u), pl_rejected_by_name := us_full_name u,
              pl_rejection_note := (case note of None \<Rightarrow> None | Some m \<Rightarrow>
                if m = [] then None else Some (sanitize_text m)),
              pl_rejected_at := Some now\<rparr>) in
         (Inr (f p), update_plan pid f s)))"

section \<open>The source of a retry\<close>

record worker_result =
  wk_claimed :: nat
  wk_executed :: nat
  wk_blocked :: nat
  wk_failed :: nat

definition idle_result :: worker_result where
  "idle_result = \<lparr>wk_claimed = 0, wk_executed = 0, wk_blocked = 0, wk_failed = 0\<rparr>"

definition terminal_plan_status :: "plan_status \<Rightarrow> bool" where
  "terminal_plan_status st \<longleftrightarrow> st \<in> {PlExecuted, PlBlocked, PlFailed, PlRejected}"

definition sanitize_item :: "json \<Rightarrow> json" where
  "sanitize_item v = (case v of JStr x \<Rightarrow> JStr (sanitize_text x) | _ \<Rightarrow> v)"

fun safe_result :: "json \<Rightarrow> json" where
  "safe_result (JStr x) = JStr (sanitize_text x)"
| "safe_result (JList xs) = JList (map sanitize_item xs)"
| "safe_result (JObj d) = JObj (map (\<lambda>p. (fst p, safe_result (snd p))) d)"
| "safe_result v = v"

definition plan_dispatch_metadata :: "execution \<Rightarrow> (string, json) dict" where
  "plan_dispatch_metadata e = obj_or_empty (jget ''dispatch'' (obj_or_empty (ex_input_data e)))"

definition is_eligible_dead_letter_source :: "execution \<Rightarrow> bool" where
  "is_eligible_dead_letter_source e \<longleftrightarrow> ex_status e = ExFailed \<and>
    jget ''type'' (obj_or_empty (jget ''trigger'' (obj_or_empty (ex_input_data e)))) = JStr ''webhook'' \<and>
    jget ''dead_lettered'' (plan_dispatch_metadata e) = JBool True"

definition retry_child_source_id :: "execution \<Rightarrow> json" where
  "retry_child_source_id e = py_or (jget ''parent_execution_id'' (plan_dispatch_metadata e))
    (jget ''previous_execution_id'' (plan_dispatch_metadata e))"

definition retry_child_source_ids :: "execution list \<Rightarrow> string set" where
  "retry_child_source_ids es = set (map py_str (filter truthy (map retry_child_source_id es)))"

definition MAX_DEAD_LETTER_SCAN :: nat where
  "MAX_DEAD_LETTER_SCAN = 1000"

text \<open>The most recent executions of the tenant, oldest first.\<close>

definition scan_window :: "uuid \<Rightarrow> db \<Rightarrow> execution list" where
  "scan_window tid s =
    rev (take MAX_DEAD_LETTER_SCAN (rev (sort_key (\<lambda>e. (ex_created_at e, ex_id e))
      (filter (\<lambda>e. ex_tenant_id e = tid) (executions s)))))"

definition find_dead_letter_retry_source :: "uuid \<Rightarrow> db \<Rightarrow> execution option" where
  "find_dead_letter_retry_source tid s =
    (let es = scan_window tid s in
     find (\<lambda>e. ex_id e \<notin> retry_child_source_ids es \<and> is_eligible_dead_letter_source e) es)"

section \<open>Executing a plan\<close>

text \<open>What the worker draws: the clock, and the identifier and time of the execution a plan creates.\<close>

record worker_env =
  pw_now :: instant
  pw_fresh :: "uuid \<Rightarrow> uuid"
  pw_created :: "uuid \<Rightarrow> instant"

definition unsafe_reasons :: "dispatch_health \<Rightarrow> string list" where
  "unsafe_reasons h =
    (if dh_dead_lettered_executions h = 0 then [] else [''dead_lettered dispatches remain active'']) @
    (if dh_deferred_retries h = 0 then [] else [''deferred retries remain active'']) @
    (if dh_throttled_triggers h = 0 then [] else [''throttled triggers remain active''])"

definition resume_workflows :: "uuid \<Rightarrow> db \<Rightarrow> db" where
  "resume_workflows tid s = s\<lparr>workflows := row_update (\<lambda>w. wf_tenant_id w = tid \<and> wf_dispatch_paused w)
    (\<lambda>w. w\<lparr>wf_dispatch_paused := False\<rparr>) (workflows s)\<rparr>"

text \<open>\<open>Inl\<close> is an exception that reaches the worker's handler.\<close>

definition execute_resume_guard ::
  "instant \<Rightarrow> automation_plan \<Rightarrow> db \<Rightarrow> (string + plan_status \<times> json) \<times> db" where
  "execute_resume_guard now p s =
    (case get_dispatch_health (pl_tenant_id p) 24 now s of
      Inl err \<Rightarrow> (Inl err, s)
    | Inr h \<Rightarrow>
       if unsafe_reasons h \<noteq> [] then
         (Inr (PlBlocked, JObj [(''reason'', JStr (sanitize_text (join '', '' (unsafe_reasons h)))),
            (''paused_workflows'', JInt (int (dh_paused_workflows h))),
            (''dead_lettered_executions'', JInt (int (dh_dead_lettered_executions h))),
            (''deferred_retries'', JInt (int (dh_deferred_retries h))),
            (''throttled_triggers'', JInt (int (dh_throttled_triggers h)))]), s)
       else
         (Inr (PlExecuted, JObj [(''action'', JStr ''resume_guard''),
            (''resumed_workflows'', JInt (int (row_count
              (\<lambda>w. wf_tenant_id w = pl_tenant_id p \<and> wf_dispatch_paused w) (workflows s))))]),
          resume_workflows (pl_tenant_id p) s))"

definition retry_actor_id :: "automation_plan \<Rightarrow> uuid" where
  "retry_actor_id p = (case pl_approved_by p of
    Some u \<Rightarrow> u | None \<Rightarrow> (case pl_requested_by p of Some u \<Rightarrow> u | None \<Rightarrow> pl_id p))"

definition mark_automated :: "uuid \<Rightarrow> json \<Rightarrow> json" where
  "mark_automated pid input =
    (let d = obj_or_empty input in
     JObj (dset ''dispatch'' (JObj (dupdate (obj_or_empty (py_or (jget ''dispatch'' d) (JObj [])))
       [(''automated_retry'', JBool True), (''automation_plan_id'', JStr pid)])) d))"

text \<open>
  A refusal of the execution service blocks the plan. The answer 500 of the model stands for an
  exception that is no HTTP refusal: it reaches the handler of the worker.
\<close>

definition execute_approval_gated_retry ::
  "worker_env \<Rightarrow> automation_plan \<Rightarrow> db \<Rightarrow> (string + plan_status \<times> json) \<times> db" where
  "execute_approval_gated_retry env p s =
    (case find_dead_letter_retry_source (pl_tenant_id p) s of
      None \<Rightarrow>
        (Inr (PlBlocked, JObj [(''action'', JStr ''approval_gated_retry''),
          (''reason'', JStr ''No eligible dead-lettered webhook execution found.''),
          (''retried_executions'', JInt 0)]), s)
    | Some source \<Rightarrow>
       (case retry_dead_letter_execution (pw_fresh env (pl_id p)) (pw_created env (pl_id p))
           (pl_tenant_id p) (ex_id source) (retry_actor_id p) s of
         (Inl (HTTPException code detail), s') \<Rightarrow>
           if code = 500 then (Inl detail, s')
           else (Inr (PlBlocked, JObj [(''action'', JStr ''approval_gated_retry''),
             (''reason'', JStr (sanitize_text detail)), (''retried_executions'', JInt 0),
             (''source_execution_id'', JStr (ex_id source))]), s')
       | (Inr e, s') \<Rightarrow>
           (Inr (PlExecuted, JObj [(''action'', JStr ''approval_gated_retry''), (''retried_executions'', JInt 1),
              (''source_execution_ids'', JList [JStr (ex_id source)]),
              (''retry_execution_ids'', JList [JStr (ex_id e)])]),
            update_execution (ex_id e)
              (\<lambda>x. x\<lparr>ex_input_data := mark_automated (pl_id p) (ex_input_data x)\<rparr>) s')))"

definition execute_plan :: "worker_env \<Rightarrow> automation_plan \<Rightarrow> db \<Rightarrow> (string + plan_status \<times> json) \<times> db" where
  "execute_plan env p s =
    (if pl_automation_type p = ''resume_guard'' then execute_resume_guard (pw_now env) p s
     else if pl_automation_type p = ''approval_gated_retry'' then execute_approval_gated_retry env p s
     else (Inr (PlBlocked, JObj [(''reason'', JStr ''Unsupported automation type.''),
       (''automation_type'', JStr (sanitize_text (pl_automation_type p)))]), s))"

section \<open>A pass of the worker\<close>

definition close_plan :: "instant \<Rightarrow> string + plan_status \<times> json \<Rightarrow> automation_plan \<Rightarrow> automation_plan" where
  "close_plan now outcome p =
    (case outcome of
      Inl msg \<Rightarrow> p\<lparr>pl_status := PlFailed,
        pl_execution_result := JObj [(''reason'', JStr ''Automation execution failed.'')],
        pl_execution_error := Some (sanitize_text msg), pl_executed_at := Some now\<rparr>
    | Inr (st, result) \<Rightarrow> p\<lparr>pl_status := st, pl_execution_result := safe_result result,
        pl_execution_error := None, pl_executed_at := Some now\<rparr>)"

definition count_outcome :: "string + plan_status \<times> json \<Rightarrow> worker_result \<Rightarrow> worker_result" where
  "count_outcome outcome r =
    (case outcome of
      Inl _ \<Rightarrow> r\<lparr>wk_failed := wk_failed r + 1\<rparr>
    | Inr (st, _) \<Rightarrow>
       if st = PlExecuted then r\<lparr>wk_executed := wk_executed r + 1\<rparr>
       else if st = PlBlocked then r\<lparr>wk_blocked := wk_blocked r + 1\<rparr>
       else r\<lparr>wk_failed := wk_failed r + 1\<rparr>)"

fun worker_loop :: "worker_env \<Rightarrow> automation_plan list \<Rightarrow> worker_result \<Rightarrow> db \<Rightarrow> worker_result \<times> db" where
  "worker_loop env [] r s = (r, s)"
| "worker_loop env (p # ps) r s =
    (if terminal_plan_status (pl_status p) then worker_loop env ps r s
     else
      (case execute_plan env p (update_plan (pl_id p) (\<lambda>p. p\<lparr>pl_status := PlExecuting\<rparr>) s) of
        (outcome, s') \<Rightarrow>
          worker_loop env ps (count_outcome outcome (r\<lparr>wk_claimed := wk_claimed r + 1\<rparr>))
            (update_plan (pl_id p) (close_plan (pw_now env) outcome) s')))"

text \<open>The approved plans in the order of approval, plans without that time last.\<close>

definition approval_key :: "automation_plan \<Rightarrow> nat \<times> instant \<times> instant" where
  "approval_key p = (case pl_approved_at p of
    None \<Rightarrow> (1, 0, pl_created_at p) | Some t \<Rightarrow> (0, t, pl_created_at p))"

definition approved_queue :: "uuid option \<Rightarrow> nat \<Rightarrow> db \<Rightarrow> automation_plan list" where
  "approved_queue tid limit s =
    take limit (sort_key approval_key (filter (\<lambda>p. pl_status p = PlApproved \<and>
      (case tid of None \<Rightarrow> True | Some t \<Rightarrow> pl_tenant_id p = t)) (plans s)))"

definition run_plan_worker_once :: "worker_env \<Rightarrow> nat \<Rightarrow> uuid option \<Rightarrow> db \<Rightarrow> worker_result \<times> db" where
  "run_plan_worker_once env limit tid s = worker_loop env (approved_queue tid limit s) idle_result s"

section \<open>What a pass does to the plans\<close>

definition outcome_ok :: "string + plan_status \<times> json \<Rightarrow> bool" where
  "outcome_ok o1 \<longleftrightarrow> (case o1 of Inl _ \<Rightarrow> True | Inr (st, _) \<Rightarrow> st = PlExecuted \<or> st = PlBlocked)"

lemma plans_retry [simp]: "plans (snd (retry_dead_letter_execution i now tid eid uid s)) = plans s"
  by (auto simp: retry_dead_letter_execution_def create_execution_snd add_execution_def
      split: sum.splits bool.splits)

lemma plans_after_retry: "retry_dead_letter_execution i now tid eid uid s = (r, s') \<Longrightarrow> plans s' = plans s"
  by (metis plans_retry snd_conv)

lemma plans_execute [simp]: "plans (snd (execute_plan env p s)) = plans s"
proof -
  have "plans (snd (execute_approval_gated_retry env p s)) = plans s"
    by (auto simp: execute_approval_gated_retry_def update_execution_def dest: plans_after_retry
        split: option.split prod.split sum.split http_error.split)
  then show ?thesis
    by (simp add: execute_plan_def execute_resume_guard_def resume_workflows_def split: sum.split)
qed

lemma outcome_execute: "outcome_ok (fst (execute_plan env p s))"
  by (auto simp: execute_plan_def execute_resume_guard_def execute_approval_gated_retry_def outcome_ok_def
      split: sum.split option.split prod.split http_error.split)

lemma close_executing [simp]: "close_plan now out (p\<lparr>pl_status := st\<rparr>) = close_plan now out p"
  by (simp add: close_plan_def split: sum.split prod.split)

lemma pl_id_close [simp]: "pl_id (close_plan now out p) = pl_id p"
  by (simp add: close_plan_def split: sum.split prod.split)

text \<open>What the execution of the \<open>i\<close>th plan of a pass returns, in the state the plans before it leave.\<close>

definition turn_outcome :: "worker_env \<Rightarrow> automation_plan list \<Rightarrow> nat \<Rightarrow> db \<Rightarrow> string + plan_status \<times> json" where
  "turn_outcome env ps i s = fst (execute_plan env (ps ! i) (update_plan (pl_id (ps ! i))
    (\<lambda>p. p\<lparr>pl_status := PlExecuting\<rparr>) (snd (worker_loop env (take i ps) idle_result s))))"

lemma worker_loop_db: "snd (worker_loop env ps r s) = snd (worker_loop env ps r' s)"
proof (induction ps arbitrary: r r' s)
  case (Cons p ps)
  show ?case
    by (cases "execute_plan env p (update_plan (pl_id p) (\<lambda>p. p\<lparr>pl_status := PlExecuting\<rparr>) s)") (simp, intro conjI impI Cons.IH)
qed simp

lemma turn_outcome_Suc:
  assumes "\<not> terminal_plan_status (pl_status p)"
    and "execute_plan env p (update_plan (pl_id p) (\<lambda>p. p\<lparr>pl_status := PlExecuting\<rparr>) s) = (o1, s1)"
  shows "turn_outcome env (p # ps) (Suc i) s = turn_outcome env ps i (update_plan (pl_id p) (close_plan (pw_now env) o1) s1)"
proof -
  have "snd (worker_loop env (take (Suc i) (p # ps)) idle_result s) =
      snd (worker_loop env (take i ps) idle_result (update_plan (pl_id p) (close_plan (pw_now env) o1) s1))"
    using assms by simp (rule worker_loop_db)
  then show ?thesis by (simp add: turn_outcome_def)
qed

lemma worker_loop_plans:
  assumes "distinct (map pl_id ps)" "\<forall>p \<in> set ps. \<not> terminal_plan_status (pl_status p)"
  shows "\<exists>out. (\<forall>i. outcome_ok (out i)) \<and> (\<forall>i < length ps. out (pl_id (ps ! i)) = turn_outcome env ps i s) \<and>
    plans (snd (worker_loop env ps r s)) =
    row_update (\<lambda>p. pl_id p \<in> pl_id ` set ps) (\<lambda>p. close_plan (pw_now env) (out (pl_id p)) p) (plans s)"
  using assms
proof (induction ps arbitrary: r s)
  case Nil
  then show ?case by (intro exI [of _ "\<lambda>_. Inl []"]) (simp add: row_update_def outcome_ok_def)
next
  case (Cons p ps)
  obtain o1 s1 where e: "execute_plan env p (update_plan (pl_id p) (\<lambda>p. p\<lparr>pl_status := PlExecuting\<rparr>) s) = (o1, s1)"
    by fastforce
  let ?s2 = "update_plan (pl_id p) (close_plan (pw_now env) o1) s1"
  let ?r2 = "count_outcome o1 (r\<lparr>wk_claimed := wk_claimed r + 1\<rparr>)"
  from Cons.prems have "distinct (map pl_id ps)" "\<forall>p \<in> set ps. \<not> terminal_plan_status (pl_status p)" by auto
  from Cons.IH [OF this, of ?s2 ?r2] obtain out where out: "\<forall>i. outcome_ok (out i)"
      "\<forall>i < length ps. out (pl_id (ps ! i)) = turn_outcome env ps i ?s2"
      "plans (snd (worker_loop env ps ?r2 ?s2)) =
        row_update (\<lambda>p. pl_id p \<in> pl_id ` set ps) (\<lambda>p. close_plan (pw_now env) (out (pl_id p)) p) (plans ?s2)"
    by blast
  have o1: "outcome_ok o1" using outcome_execute by (metis e fst_conv)
  have s1: "plans s1 = row_update (\<lambda>q. pl_id q = pl_id p) (\<lambda>p. p\<lparr>pl_status := PlExecuting\<rparr>) (plans s)"
  proof -
    have "s1 = snd (execute_plan env p (update_plan (pl_id p) (\<lambda>p. p\<lparr>pl_status := PlExecuting\<rparr>) s))"
      by (simp add: e)
    then show ?thesis by (simp add: update_plan_def)
  qed
  have s2: "plans ?s2 = row_update (\<lambda>q. pl_id q = pl_id p) (close_plan (pw_now env) o1) (plans s)"
    by (simp add: update_plan_def s1 row_update_def)
  have new: "pl_id p \<notin> pl_id ` set ps" using Cons.prems(1) by simp
  have run: "worker_loop env (p # ps) r s = worker_loop env ps ?r2 ?s2"
    using Cons.prems(2) by (simp add: e)
  have "plans (snd (worker_loop env (p # ps) r s)) = row_update (\<lambda>q. pl_id q \<in> pl_id ` set (p # ps))
      (\<lambda>q. close_plan (pw_now env) ((out(pl_id p := o1)) (pl_id q)) q) (plans s)"
    unfolding run out(3) s2 row_update_def map_map
    by (rule map_cong [OF refl]) (use new in auto)
  moreover have "\<forall>i. outcome_ok ((out(pl_id p := o1)) i)" using out(1) o1 by simp
  moreover have "(out(pl_id p := o1)) (pl_id ((p # ps) ! i)) = turn_outcome env (p # ps) i s"
    if "i < length (p # ps)" for i
  proof (cases i)
    case 0
    then show ?thesis by (simp add: turn_outcome_def e)
  next
    case (Suc j)
    with that have j: "j < length ps" by simp
    then have "pl_id (ps ! j) \<noteq> pl_id p" using new by (metis imageI nth_mem)
    with j out(2) Suc turn_outcome_Suc [OF _ e] Cons.prems(2) show ?thesis by simp
  qed
  ultimately show ?case by blast
qed

lemma worker_loop_counts:
  "\<forall>p \<in> set ps. \<not> terminal_plan_status (pl_status p) \<Longrightarrow>
    wk_claimed (fst (worker_loop env ps r s)) = wk_claimed r + length ps \<and>
    wk_executed (fst (worker_loop env ps r s)) + wk_blocked (fst (worker_loop env ps r s)) +
      wk_failed (fst (worker_loop env ps r s)) = wk_executed r + wk_blocked r + wk_failed r + length ps"
proof (induction ps arbitrary: r s)
  case (Cons p ps)
  obtain o1 s1 where e: "execute_plan env p (update_plan (pl_id p) (\<lambda>p. p\<lparr>pl_status := PlExecuting\<rparr>) s) = (o1, s1)"
    by fastforce
  have c: "wk_claimed (count_outcome o1 r') = wk_claimed r' \<and>
      wk_executed (count_outcome o1 r') + wk_blocked (count_outcome o1 r') + wk_failed (count_outcome o1 r') =
        Suc (wk_executed r' + wk_blocked r' + wk_failed r')" for r'
    by (simp add: count_outcome_def split: sum.split prod.split)
  from Cons show ?case by (simp add: e c)
qed simp

lemma set_approved_queue: "p \<in> set (approved_queue tid limit s) \<Longrightarrow> p \<in> set (plans s) \<and> pl_status p = PlApproved"
  by (auto simp: approved_queue_def dest: in_set_takeD)

lemma distinct_approved_queue:
  assumes "distinct (map pl_id (plans s))"
  shows "distinct (map pl_id (approved_queue tid limit s))"
proof -
  let ?f = "filter (\<lambda>p. pl_status p = PlApproved \<and> (case tid of None \<Rightarrow> True | Some t \<Rightarrow> pl_tenant_id p = t)) (plans s)"
  have "distinct (map pl_id ?f)" using assms by (simp add: distinct_map_filter)
  then have "distinct (map pl_id (sort_key approval_key ?f))"
    by (simp add: distinct_map)
  then show ?thesis
    unfolding approved_queue_def take_map [symmetric] by (rule distinct_take)
qed

section \<open>A retried source is not found again\<close>

lemma sorted_last_max:
  assumes "sorted (map k ys)" "e \<in> set ys" "\<forall>y \<in> set ys. y = e \<or> k y < k e"
  shows "last ys = e"
proof (rule ccontr)
  assume ne: "last ys \<noteq> e"
  have ys: "ys \<noteq> []" using assms(2) by auto
  then have "k (last ys) < k e" using assms(3) ne by auto
  moreover obtain i where i: "i < length ys" "ys ! i = e" using assms(2) by (auto simp: in_set_conv_nth)
  have "map k ys ! i \<le> map k ys ! (length ys - 1)"
    by (rule sorted_nth_mono [OF assms(1)]) (use i(1) in simp_all)
  then have "k e \<le> k (last ys)" using i ys by (simp add: last_conv_nth)
  ultimately show False by simp
qed

lemma newest_in_window:
  assumes "e \<in> set (executions s)" "ex_tenant_id e = tid"
    and "\<forall>x \<in> set (executions s). x = e \<or> ex_created_at x < ex_created_at e"
  shows "e \<in> set (scan_window tid s)"
proof -
  let ?k = "\<lambda>e. (ex_created_at e, ex_id e)"
  let ?ys = "sort_key ?k (filter (\<lambda>e. ex_tenant_id e = tid) (executions s))"
  have mem: "e \<in> set ?ys" using assms(1,2) by simp
  have "last ?ys = e"
    by (rule sorted_last_max [OF sorted_sort_key mem]) (use assms(3) in auto)
  moreover have "?ys \<noteq> []" using mem by (metis empty_iff list.set(1))
  ultimately have "hd (rev ?ys) = e" "rev ?ys \<noteq> []" by (simp_all add: hd_rev)
  then have "e \<in> set (take MAX_DEAD_LETTER_SCAN (rev ?ys))"
    by (cases "rev ?ys") (simp_all add: MAX_DEAD_LETTER_SCAN_def)
  then show ?thesis by (simp add: scan_window_def)
qed

lemma found_not_retried:
  assumes "find_dead_letter_retry_source tid s = Some source"
    and "child \<in> set (scan_window tid s)" "truthy (retry_child_source_id child)"
  shows "ex_id source \<noteq> py_str (retry_child_source_id child)"
proof -
  have "py_str (retry_child_source_id child) \<in> retry_child_source_ids (scan_window tid s)"
    using assms(2,3) by (auto simp: retry_child_source_ids_def)
  moreover have "ex_id source \<notin> retry_child_source_ids (scan_window tid s)"
    using assms(1) by (auto simp: find_dead_letter_retry_source_def Let_def find_Some_iff)
  ultimately show ?thesis by auto
qed

lemma executed_retry:
  assumes "execute_approval_gated_retry env p s = (Inr (PlExecuted, result), s')"
    and "find_dead_letter_retry_source (pl_tenant_id p) s = Some source"
    and "pw_fresh env (pl_id p) \<notin> ex_id ` set (executions s)" "distinct (map ex_id (executions s))"
  shows "\<exists>e. executions s' = executions s @ [e] \<and> ex_id e = pw_fresh env (pl_id p) \<and>
    ex_tenant_id e = pl_tenant_id p \<and> ex_created_at e = pw_created env (pl_id p) \<and> ex_status e = ExPending \<and>
    jget ''parent_execution_id'' (plan_dispatch_metadata e) = JStr (ex_id source)"
proof -
  obtain e0 s0 where r: "retry_dead_letter_execution (pw_fresh env (pl_id p)) (pw_created env (pl_id p))
      (pl_tenant_id p) (ex_id source) (retry_actor_id p) s = (Inr e0, s0)"
    and s': "s' = update_execution (ex_id e0)
      (\<lambda>x. x\<lparr>ex_input_data := mark_automated (pl_id p) (ex_input_data x)\<rparr>) s0"
    using assms(1,2) by (auto simp: execute_approval_gated_retry_def split: prod.splits sum.splits http_error.splits if_splits)
  have src: "source \<in> set (executions s)" "ex_tenant_id source = pl_tenant_id p"
  proof -
    have "source \<in> set (scan_window (pl_tenant_id p) s)"
      using assms(2) by (auto simp: find_dead_letter_retry_source_def Let_def find_Some_iff)
    then have "source \<in> set (filter (\<lambda>e. ex_tenant_id e = pl_tenant_id p) (executions s))"
      by (auto simp: scan_window_def dest!: in_set_takeD)
    then show "source \<in> set (executions s)" "ex_tenant_id source = pl_tenant_id p" by simp_all
  qed
  have "get_execution (pl_tenant_id p) (ex_id source) s = Inr source"
  proof -
    have "row_find (\<lambda>e. ex_id e = ex_id source \<and> ex_tenant_id e = pl_tenant_id p) rows = Some source"
      if "source \<in> set rows" "distinct (map ex_id rows)" for rows
      using that src(2) by (induction rows) (auto simp: image_iff)
    then show ?thesis using src(1) assms(4) by (simp add: get_execution_def)
  qed
  from retry_dead_letter_input [OF this r] obtain input d n where i:
      "create_execution (pw_fresh env (pl_id p)) (pw_created env (pl_id p)) (pl_tenant_id p) (ex_workflow_id source) input s = (Inr e0, s0)"
      "obj_or_empty input = dset ''dispatch'' (JObj (retried_dispatch source (retry_actor_id p) n d))
        (obj_or_empty (ex_input_data source))"
    by blast
  have e0: "e0 = new_execution (pw_fresh env (pl_id p)) (pw_created env (pl_id p)) (pl_tenant_id p) (ex_workflow_id source) input"
    using create_execution_row [of "pw_fresh env (pl_id p)" "pw_created env (pl_id p)" "pl_tenant_id p" "ex_workflow_id source" input s e0]
    by (simp add: i(1))
  have s0: "s0 = add_execution e0 s"
    using create_execution_snd [of "pw_fresh env (pl_id p)" "pw_created env (pl_id p)" "pl_tenant_id p" "ex_workflow_id source" input s]
    by (simp only: i(1) fst_conv snd_conv sum.case)
  let ?e = "e0\<lparr>ex_input_data := mark_automated (pl_id p) (ex_input_data e0)\<rparr>"
  have "\<forall>x \<in> set (executions s). ex_id x \<noteq> pw_fresh env (pl_id p)" using assms(3) by (metis imageI)
  then have "executions s' = executions s @ [?e]"
    unfolding s' s0
    by (auto simp: update_execution_def add_execution_def e0 new_execution_def intro!: row_update_id)
  moreover have "jget ''parent_execution_id'' (plan_dispatch_metadata ?e) = JStr (ex_id source)"
  proof -
    have par: "jget ''parent_execution_id'' (retried_dispatch source (retry_actor_id p) n d) = JStr (ex_id source)"
      by (simp add: retried_dispatch_def jget_dpop dupdate_def jget_dset)
    then have "retried_dispatch source (retry_actor_id p) n d \<noteq> []" by auto
    with par show ?thesis
      by (simp add: plan_dispatch_metadata_def mark_automated_def Let_def e0 new_execution_def i(2)
          py_or_def dupdate_def jget_dset)
  qed
  ultimately show ?thesis by (intro exI [of _ ?e]) (simp add: e0 new_execution_def)
qed

section \<open>Samples\<close>

definition sample_plan :: "string \<Rightarrow> string \<Rightarrow> plan_status \<Rightarrow> automation_plan" where
  "sample_plan i kind st = \<lparr>pl_id = i, pl_tenant_id = ''t1'', pl_recommendation_code = ''retry_dead_letters'',
    pl_automation_type = kind, pl_status = st, pl_priority = ''high'', pl_title = [], pl_rationale = [],
    pl_suggested_action = [], pl_confidence = 1, pl_evidence = JNull, pl_blocked_by = JNull,
    pl_requested_by = Some ''u1'', pl_requested_by_email = [], pl_requested_by_name = None,
    pl_approved_by = Some ''u1'', pl_approved_by_email = None, pl_approved_by_name = None,
    pl_approved_at = Some 3, pl_rejected_by = None, pl_rejected_by_email = None, pl_rejected_by_name = None,
    pl_rejection_note = None, pl_rejected_at = None, pl_execution_result = JNull, pl_executed_at = None,
    pl_execution_error = None, pl_created_at = 2\<rparr>"

definition sample_worker :: worker_env where
  "sample_worker = \<lparr>pw_now = 50, pw_fresh = (\<lambda>i. i @ ''-retry''), pw_created = (\<lambda>_. 40)\<rparr>"

text \<open>A dead-lettered execution and two approved plans, the last of an unknown kind.\<close>

definition automation_db :: db where
  "automation_db = dead_letter_db\<lparr>plans := [sample_plan ''p1'' ''approval_gated_retry'' PlApproved, sample_plan ''p3'' ''resume_guard'' PlRejected,
    sample_plan ''p4'' ''page_operator'' PlApproved]\<rparr>"

text \<open>
  A plan \<open>p'\<close> that has been dealt with, from \<open>p\<close> and what its execution returned: an exception fails it
  with the sanitized message, a return leaves it executed or blocked with the sanitized result and no
  error; nothing else of the plan changes.
\<close>

definition plan_settled :: "instant \<Rightarrow> string + plan_status \<times> json \<Rightarrow> automation_plan \<Rightarrow> automation_plan \<Rightarrow> bool" where
  "plan_settled now outcome p p' \<longleftrightarrow> pl_executed_at p' = Some now \<and>
    (case outcome of
      Inl msg \<Rightarrow> pl_status p' = PlFailed \<and> pl_execution_error p' = Some (sanitize_text msg) \<and>
        pl_execution_result p' = JObj [(''reason'', JStr ''Automation execution failed.'')]
    | Inr (st, result) \<Rightarrow> pl_status p' = st \<and> (st = PlExecuted \<or> st = PlBlocked) \<and> pl_execution_error p' = None \<and>
        pl_execution_result p' = safe_result result) \<and>
    p' = p\<lparr>pl_status := pl_status p', pl_execution_result := pl_execution_result p',
      pl_execution_error := pl_execution_error p', pl_executed_at := pl_executed_at p'\<rparr>"

section \<open>Properties\<close>

text \<open>
  C34: a pass settles what it claims. It claims the approved plans of its tenant in the order of
  their approval, up to its limit; each of them ends executed, blocked or failed as its own execution,
  in the state the plans before it leave, returned or raised, with the time and the sanitized result or
  error of it, and is counted once; no other plan changes. An exception while a plan is executed
  fails that plan only.
\<close>

theorem plan_worker_settles:
  assumes "distinct (map pl_id (plans s))"
    and "run_plan_worker_once env limit tid s = (r, s')"
  shows "wk_claimed r = length (approved_queue tid limit s) \<and> wk_claimed r \<le> limit \<and>
    wk_executed r + wk_blocked r + wk_failed r = wk_claimed r \<and>
    list_all2 (\<lambda>p p'. if p \<in> set (approved_queue tid limit s)
      then pl_status p = PlApproved \<and> (\<exists>i < length (approved_queue tid limit s). approved_queue tid limit s ! i = p \<and>
        plan_settled (pw_now env) (turn_outcome env (approved_queue tid limit s) i s) p p')
      else p' = p) (plans s) (plans s')"
proof -
  let ?q = "approved_queue tid limit s"
  have open_plans: "\<forall>p \<in> set ?q. \<not> terminal_plan_status (pl_status p)"
    by (auto simp: terminal_plan_status_def dest!: set_approved_queue)
  have run: "worker_loop env ?q idle_result s = (r, s')" using assms(2) by (simp add: run_plan_worker_once_def)
  obtain out where out: "\<forall>i. outcome_ok (out i)" "\<forall>i < length ?q. out (pl_id (?q ! i)) = turn_outcome env ?q i s"
      "plans s' = row_update (\<lambda>p. pl_id p \<in> pl_id ` set ?q) (\<lambda>p. close_plan (pw_now env) (out (pl_id p)) p) (plans s)"
    using worker_loop_plans [OF distinct_approved_queue [OF assms(1)] open_plans, of env s idle_result] run by auto
  have queued: "pl_id p \<in> pl_id ` set ?q \<longleftrightarrow> p \<in> set ?q" if "p \<in> set (plans s)" for p
  proof
    assume "pl_id p \<in> pl_id ` set ?q"
    then obtain q where q: "q \<in> set ?q" "pl_id q = pl_id p" by auto
    with set_approved_queue have "q \<in> set (plans s)" by blast
    with assms(1) that q(2) have "q = p" by (simp add: distinct_map inj_on_def)
    with q(1) show "p \<in> set ?q" by simp
  qed simp
  have closed: "plan_settled now o1 p (close_plan now o1 p)" if "outcome_ok o1" for now o1 p
    using that by (auto simp: plan_settled_def close_plan_def outcome_ok_def split: sum.splits prod.splits)
  have settled: "\<exists>i < length ?q. ?q ! i = p \<and>
      plan_settled (pw_now env) (turn_outcome env ?q i s) p (close_plan (pw_now env) (out (pl_id p)) p)"
    if "p \<in> set ?q" for p
  proof -
    from that obtain i where i: "i < length ?q" "?q ! i = p" by (auto simp: in_set_conv_nth)
    with out(2) have "out (pl_id p) = turn_outcome env ?q i s" by blast
    with out(1) have "plan_settled (pw_now env) (turn_outcome env ?q i s) p (close_plan (pw_now env) (out (pl_id p)) p)"
      by (metis closed)
    with i show ?thesis by blast
  qed
  have "list_all2 (\<lambda>p p'. if p \<in> set ?q
      then pl_status p = PlApproved \<and> (\<exists>i < length ?q. ?q ! i = p \<and>
        plan_settled (pw_now env) (turn_outcome env ?q i s) p p')
      else p' = p) (plans s) (plans s')"
    unfolding out(3) row_update_def list_all2_map2
    by (rule list.rel_refl_strong) (use set_approved_queue settled queued in auto)
  moreover have "length ?q \<le> limit" by (simp add: approved_queue_def)
  ultimately show ?thesis
    using worker_loop_counts [OF open_plans, of env idle_result s] run by (simp add: idle_result_def)
qed

theorem plan_worker_settles_witness:
  "map pl_status (plans (snd (run_plan_worker_once sample_worker 10 (Some ''t1'') automation_db))) =
     [PlExecuted, PlRejected, PlBlocked] \<and>
   wk_claimed (fst (run_plan_worker_once sample_worker 10 (Some ''t1'') automation_db)) = 2 \<and>
   wk_claimed (fst (run_plan_worker_once sample_worker 10 (Some ''t1'') automation_db)) \<le> 10"
proof -
  have d: "distinct (map pl_id (plans automation_db))" by code_simp
  obtain r s' where run: "run_plan_worker_once sample_worker 10 (Some ''t1'') automation_db = (r, s')" by fastforce
  have "wk_claimed (fst (run_plan_worker_once sample_worker 10 (Some ''t1'') automation_db)) \<le> 10"
    using plan_worker_settles [OF d run] by (simp add: run)
  moreover have "map pl_status (plans (snd (run_plan_worker_once sample_worker 10 (Some ''t1'') automation_db))) =
     [PlExecuted, PlRejected, PlBlocked]" by code_simp
  moreover have "wk_claimed (fst (run_plan_worker_once sample_worker 10 (Some ''t1'') automation_db)) = 2" by code_simp
  ultimately show ?thesis by simp
qed

text \<open>
  C36: a dead letter is retried once. After a plan has retried a dead-lettered execution, no later
  scan of the tenant proposes the same execution, as long as the retry is the most recent execution
  of the scan: the new execution names its source as its parent.
\<close>

theorem dead_letter_retried_once:
  assumes "execute_approval_gated_retry env p s = (Inr (PlExecuted, result), s')"
    and "find_dead_letter_retry_source (pl_tenant_id p) s = Some source"
    and "pw_fresh env (pl_id p) \<notin> ex_id ` set (executions s)" "distinct (map ex_id (executions s))"
    and "list_all (\<lambda>e. ex_created_at e < pw_created env (pl_id p)) (executions s)" "ex_id source \<noteq> []"
  shows "\<exists>e. executions s' = executions s @ [e] \<and> ex_status e = ExPending \<and>
    jget ''parent_execution_id'' (plan_dispatch_metadata e) = JStr (ex_id source) \<and>
    map_option ex_id (find_dead_letter_retry_source (pl_tenant_id p) s') \<noteq> Some (ex_id source)"
proof -
  from executed_retry [OF assms(1-4)] obtain e where e: "executions s' = executions s @ [e]"
      "ex_id e = pw_fresh env (pl_id p)" "ex_tenant_id e = pl_tenant_id p"
      "ex_created_at e = pw_created env (pl_id p)" "ex_status e = ExPending"
      "jget ''parent_execution_id'' (plan_dispatch_metadata e) = JStr (ex_id source)"
    by blast
  have "e \<in> set (scan_window (pl_tenant_id p) s')"
    by (rule newest_in_window) (use e assms(5) in \<open>auto simp: list_all_iff\<close>)
  moreover have child: "retry_child_source_id e = JStr (ex_id source)"
    using assms(6) by (simp add: retry_child_source_id_def py_or_def e(6))
  ultimately have "ex_id found \<noteq> ex_id source"
    if "find_dead_letter_retry_source (pl_tenant_id p) s' = Some found" for found
    using found_not_retried [OF that, of e] assms(6) by simp
  then have "map_option ex_id (find_dead_letter_retry_source (pl_tenant_id p) s') \<noteq> Some (ex_id source)" by auto
  with e(1,5,6) show ?thesis by blast
qed

theorem dead_letter_retried_once_witness:
  "map_option ex_id (find_dead_letter_retry_source ''t1'' automation_db) = Some ''e1'' \<and>
   map_option ex_id (find_dead_letter_retry_source ''t1''
     (snd (execute_approval_gated_retry sample_worker (sample_plan ''p1'' ''approval_gated_retry'' PlApproved)
       automation_db))) \<noteq> Some ''e1''"
proof -
  let ?p = "sample_plan ''p1'' ''approval_gated_retry'' PlApproved"
  have "case fst (execute_approval_gated_retry sample_worker ?p automation_db) of
      Inr (st, _) \<Rightarrow> st = PlExecuted | Inl _ \<Rightarrow> False" by code_simp
  then obtain result where r: "fst (execute_approval_gated_retry sample_worker ?p automation_db) = Inr (PlExecuted, result)"
    by (auto split: sum.splits prod.splits)
  then have run: "execute_approval_gated_retry sample_worker ?p automation_db =
      (Inr (PlExecuted, result), snd (execute_approval_gated_retry sample_worker ?p automation_db))"
    by (metis prod.collapse)
  have id: "map_option ex_id (find_dead_letter_retry_source ''t1'' automation_db) = Some ''e1''" by code_simp
  then obtain source where src: "find_dead_letter_retry_source (pl_tenant_id ?p) automation_db = Some source"
      "ex_id source = ''e1''"
    by (auto simp: sample_plan_def)
  have f: "pw_fresh sample_worker (pl_id ?p) \<notin> ex_id ` set (executions automation_db)" by code_simp
  have d: "distinct (map ex_id (executions automation_db))" by code_simp
  have c: "list_all (\<lambda>e. ex_created_at e < pw_created sample_worker (pl_id ?p)) (executions automation_db)" by code_simp
  have ne: "ex_id source \<noteq> []" by (simp add: src(2))
  have t: "pl_tenant_id ?p = ''t1''" by (simp add: sample_plan_def)
  from dead_letter_retried_once [OF run src(1) f d c ne]
  have "map_option ex_id (find_dead_letter_retry_source ''t1''
      (snd (execute_approval_gated_retry sample_worker ?p automation_db))) \<noteq> Some ''e1''"
    unfolding t src(2) by blast
  with id show ?thesis by blast
qed

text \<open>
  One foreign execution blinds the operators. An execution of the last day whose input has a
  \<open>trigger\<close> entry that is not an object makes the health of its tenant's dispatch an exception,
  and fails every plan that would resume paused workflows; the input of a manual execution is
  not checked, so any member of the tenant can create one.
\<close>

theorem foreign_trigger_breaks_health:
  assumes "e \<in> set (executions s)" "ex_created_at e \<ge> now - minutes 1440" "ex_input_data e = JObj d"
    and "jget_or ''trigger'' (JObj []) d \<noteq> JObj (obj_or_empty (jget_or ''trigger'' (JObj []) d))"
  shows "\<exists>err. get_dispatch_health (ex_tenant_id e) 24 now s = Inl err \<and>
    (pl_tenant_id p = ex_tenant_id e \<longrightarrow> execute_resume_guard now p s = (Inl err, s))"
proof -
  have "d \<noteq> []" using assms(4) by (auto simp: jget_or_def)
  then have bad: "\<exists>err. count_dispatch st (ex_input_data e) c = Inl err" for st c
    using assms(3,4) by (auto simp: count_dispatch_def is_webhook_execution_def get_of_def py_or_def
        split: json.splits)
  have "\<exists>err. count_dispatches es c = Inl err" if "e \<in> set es" for es c
    using that
  proof (induction es arbitrary: c)
    case (Cons x es)
    show ?case
    proof (cases "x = e")
      case True
      then show ?thesis using bad [of "ex_status e" c] by auto
    next
      case False
      then show ?thesis using Cons by (auto split: sum.split)
    qed
  qed simp
  moreover have "e \<in> set (recent_executions (ex_tenant_id e) (now - minutes (60 * 24)) s)"
    using assms(1,2) by (simp add: recent_executions_def)
  ultimately obtain err where
      "count_dispatches (recent_executions (ex_tenant_id e) (now - minutes (60 * 24)) s) no_dispatches = Inl err"
    by blast
  then have "get_dispatch_health (ex_tenant_id e) 24 now s = Inl err" by (simp add: get_dispatch_health_def)
  then show ?thesis by (auto simp: execute_resume_guard_def)
qed

theorem foreign_trigger_breaks_health_witness:
  "\<exists>err. get_dispatch_health ''t1'' 24 5 (empty_db\<lparr>executions := [(sample_execution ''e1'' ''w1'' ExCompleted)\<lparr>
    ex_input_data := JObj [(''trigger'', JStr ''daily'')]\<rparr>]\<rparr>) = Inl err"
proof -
  let ?e = "(sample_execution ''e1'' ''w1'' ExCompleted)\<lparr>ex_input_data := JObj [(''trigger'', JStr ''daily'')]\<rparr>"
  let ?s = "empty_db\<lparr>executions := [?e]\<rparr>" and ?d = "[(''trigger'', JStr ''daily'')]"
  have a: "?e \<in> set (executions ?s)" by simp
  have b: "ex_created_at ?e \<ge> 5 - minutes 1440" by (simp add: sample_execution_def minutes_def seconds_def)
  have c: "ex_input_data ?e = JObj ?d" by simp
  have d: "jget_or ''trigger'' (JObj []) ?d \<noteq> JObj (obj_or_empty (jget_or ''trigger'' (JObj []) ?d))"
    by (simp add: jget_or_def dget_def)
  from foreign_trigger_breaks_health [OF a b c d] have "\<exists>err. get_dispatch_health (ex_tenant_id ?e) 24 5 ?s = Inl err"
    by blast
  then show ?thesis by (simp add: sample_execution_def)
qed

end
