(* ===== verification/Scheduler.thy ===== *)
theory Scheduler
  imports PlanWorker
begin

text \<open>
  The scheduler of the automation worker,
  \<open>app/services/dispatch_automation_worker_scheduler.py\<close>: which tenants are due, one evaluation
  over the tenants under the leader lock, and the read-only snapshot of the fleet.
\<close>

section \<open>Due tenants\<close>

definition FAILED_RUN_BACKOFF_MINUTES :: int where
  "FAILED_RUN_BACKOFF_MINUTES = 30"

record due_state =
  du_due_now :: bool
  du_skip_reason :: "string option"
  du_next_run_at :: "instant option"
  du_backoff_until :: "instant option"

definition latest_scheduled_run :: "uuid \<Rightarrow> db \<Rightarrow> worker_run option" where
  "latest_scheduled_run tid s =
    (case sort_key (\<lambda>r. - wr_created_at r)
        (filter (\<lambda>r. wr_tenant_id r = tid \<and> wr_trigger_type r = ''scheduled'') (worker_runs s)) of
      [] \<Rightarrow> None | r # _ \<Rightarrow> Some r)"

definition tenant_schedule_due_state :: "bool \<Rightarrow> int \<Rightarrow> worker_run option \<Rightarrow> instant \<Rightarrow> due_state" where
  "tenant_schedule_due_state enabled interval latest now =
    (if \<not> enabled then
       \<lparr>du_due_now = False, du_skip_reason = Some ''tenant_disabled'', du_next_run_at = None, du_backoff_until = None\<rparr>
     else case latest of
       None \<Rightarrow> \<lparr>du_due_now = True, du_skip_reason = None, du_next_run_at = None, du_backoff_until = None\<rparr>
     | Some r \<Rightarrow>
        (let effective = (if wr_status r = ''failed'' then max interval FAILED_RUN_BACKOFF_MINUTES else interval);
             next_run = wr_created_at r + minutes effective in
         if next_run \<le> now then
           \<lparr>du_due_now = True, du_skip_reason = None, du_next_run_at = None,
             du_backoff_until = (if wr_status r = ''failed'' then Some next_run else None)\<rparr>
         else if wr_status r = ''failed'' then
           \<lparr>du_due_now = False, du_skip_reason = Some ''backoff'', du_next_run_at = Some next_run,
             du_backoff_until = Some next_run\<rparr>
         else
           \<lparr>du_due_now = False, du_skip_reason = Some ''interval'', du_next_run_at = Some next_run,
             du_backoff_until = None\<rparr>))"

definition tenant_schedule_is_due :: "uuid \<Rightarrow> int \<Rightarrow> instant \<Rightarrow> db \<Rightarrow> string option" where
  "tenant_schedule_is_due tid interval now s =
    du_skip_reason (tenant_schedule_due_state True interval (latest_scheduled_run tid s) now)"

section \<open>One evaluation\<close>

record scheduler_report =
  sr_lock_acquired :: bool
  sr_lock_skipped :: bool
  sr_tenants_scanned :: nat
  sr_tenants_enabled :: nat
  sr_tenants_due :: nat
  sr_tenants_skipped_interval :: nat
  sr_tenants_skipped_backoff :: nat
  sr_failed_tenants :: nat
  sr_claimed :: nat
  sr_executed :: nat
  sr_blocked :: nat
  sr_failed :: nat
  sr_tenant_ids :: "string list"

definition fresh_report :: "bool \<Rightarrow> bool \<Rightarrow> scheduler_report" where
  "fresh_report acquired skipped = \<lparr>sr_lock_acquired = acquired, sr_lock_skipped = skipped,
    sr_tenants_scanned = 0, sr_tenants_enabled = 0, sr_tenants_due = 0, sr_tenants_skipped_interval = 0,
    sr_tenants_skipped_backoff = 0, sr_failed_tenants = 0, sr_claimed = 0, sr_executed = 0,
    sr_blocked = 0, sr_failed = 0, sr_tenant_ids = []\<rparr>"

definition add_result :: "uuid \<Rightarrow> worker_result \<Rightarrow> scheduler_report \<Rightarrow> scheduler_report" where
  "add_result tid w r = r\<lparr>sr_tenants_due := sr_tenants_due r + 1, sr_tenant_ids := sr_tenant_ids r @ [tid],
    sr_claimed := sr_claimed r + wk_claimed w, sr_executed := sr_executed r + wk_executed w,
    sr_blocked := sr_blocked r + wk_blocked w, sr_failed := sr_failed r + wk_failed w\<rparr>"

definition add_failure :: "uuid \<Rightarrow> scheduler_report \<Rightarrow> scheduler_report" where
  "add_failure tid r = r\<lparr>sr_tenants_due := sr_tenants_due r + 1, sr_failed_tenants := sr_failed_tenants r + 1,
    sr_failed := sr_failed r + 1, sr_tenant_ids := sr_tenant_ids r @ [tid]\<rparr>"

text \<open>
  What an evaluation is given: the clock, whether the lock was acquired, the function that runs a
  tenant's plans (\<open>Inl\<close>: it raised), and the identifier and time of the audit row of each tenant.
\<close>

record schedule_env =
  sv_now :: instant
  sv_lock :: bool
  sv_run :: "nat \<Rightarrow> uuid \<Rightarrow> db \<Rightarrow> (string + worker_result option) \<times> db"
  sv_run_id :: "uuid \<Rightarrow> uuid"
  sv_recorded :: "uuid \<Rightarrow> instant"

text \<open>Running a due tenant, with its audit row.\<close>

definition run_tenant :: "schedule_env \<Rightarrow> uuid \<Rightarrow> int \<Rightarrow> scheduler_report \<Rightarrow> db \<Rightarrow> scheduler_report \<times> db" where
  "run_tenant env tid limit rep s =
    (case sv_run env (nat limit) tid s of
      (Inr result, s1) \<Rightarrow>
        (let w = (case result of None \<Rightarrow> idle_result | Some w \<Rightarrow> w) in
         (add_result tid w rep, record_worker_run (new_worker_run (sv_run_id env tid) (sv_recorded env tid) tid
            ''scheduled'' limit (wk_claimed w) (wk_executed w) (wk_blocked w) (wk_failed w) None ''completed'' None) s1))
    | (Inl msg, s1) \<Rightarrow>
        (add_failure tid rep, record_worker_run (new_worker_run (sv_run_id env tid) (sv_recorded env tid) tid
            ''scheduled'' limit 0 0 0 1 None ''failed'' (Some msg)) s1))"

text \<open>The loop over the tenants; an invalid stored configuration ends it with an exception.\<close>

fun evaluate_tenants ::
  "schedule_env \<Rightarrow> nat \<Rightarrow> tenant list \<Rightarrow> scheduler_report \<Rightarrow> db \<Rightarrow> (http_error + scheduler_report) \<times> db" where
  "evaluate_tenants env limit [] rep s = (Inr rep, s)"
| "evaluate_tenants env limit (t # ts) rep s =
    (if sr_tenants_due rep \<ge> limit then (Inr rep, s)
     else let rep1 = rep\<lparr>sr_tenants_scanned := sr_tenants_scanned rep + 1\<rparr> in
      case get_worker_config (tn_id t) s of
        Inl err \<Rightarrow> (Inl err, s)
      | Inr c \<Rightarrow>
         if \<not> wc_enabled c then evaluate_tenants env limit ts rep1 s
         else let rep2 = rep1\<lparr>sr_tenants_enabled := sr_tenants_enabled rep1 + 1\<rparr>;
                  reason = tenant_schedule_is_due (tn_id t) (wc_interval_minutes c) (sv_now env) s in
          if reason = Some ''interval'' then
            evaluate_tenants env limit ts (rep2\<lparr>sr_tenants_skipped_interval := sr_tenants_skipped_interval rep2 + 1\<rparr>) s
          else if reason = Some ''backoff'' then
            evaluate_tenants env limit ts (rep2\<lparr>sr_tenants_skipped_backoff := sr_tenants_skipped_backoff rep2 + 1\<rparr>) s
          else case run_tenant env (tn_id t) (wc_max_plans_per_run c) rep2 s of
            (rep3, s') \<Rightarrow> evaluate_tenants env limit ts rep3 s')"

definition tenants_by_age :: "db \<Rightarrow> tenant list" where
  "tenants_by_age s = sort_key tn_created_at (tenants s)"

definition evaluate_automation_workers ::
  "schedule_env \<Rightarrow> int \<Rightarrow> db \<Rightarrow> (http_error + scheduler_report) \<times> db" where
  "evaluate_automation_workers env limit s =
    (if \<not> sv_lock env then (Inr (fresh_report False True), s)
     else evaluate_tenants env (nat (max limit 1)) (tenants_by_age s) (fresh_report True False) s)"

text \<open>The default run function, the plan worker: its handler lets no exception through.\<close>

definition plan_worker_run :: "worker_env \<Rightarrow> nat \<Rightarrow> uuid \<Rightarrow> db \<Rightarrow> (string + worker_result option) \<times> db" where
  "plan_worker_run env limit tid s =
    (case run_plan_worker_once env limit (Some tid) s of (r, s') \<Rightarrow> (Inr (Some r), s'))"

section \<open>The fleet snapshot\<close>

record readiness =
  rd_tenant_id :: string
  rd_enabled :: bool
  rd_due_now :: bool
  rd_skip_reason :: "string option"
  rd_approved_plan_count :: nat
  rd_latest_scheduled_status :: "string option"
  rd_last_scheduled_at :: "instant option"
  rd_next_run_at :: "instant option"
  rd_backoff_until :: "instant option"
  rd_max_plans_per_run :: int

record fleet_snapshot =
  fl_generated_at :: instant
  fl_scheduler_enabled :: bool
  fl_scheduler_interval_seconds :: rat
  fl_scheduler_tenant_limit :: int
  fl_total_tenants :: nat
  fl_configured_tenants :: nat
  fl_enabled_tenants :: nat
  fl_disabled_tenants :: nat
  fl_due_tenants :: nat
  fl_interval_waiting_tenants :: nat
  fl_backoff_tenants :: nat
  fl_approved_plan_backlog :: nat
  fl_tenants :: "readiness list"

definition bump :: "bool \<Rightarrow> nat \<Rightarrow> nat" where
  "bump b n = (if b then Suc n else n)"

definition inspect_tenant :: "bool \<Rightarrow> db \<Rightarrow> tenant \<Rightarrow> worker_config \<Rightarrow> fleet_snapshot \<Rightarrow> fleet_snapshot" where
  "inspect_tenant include_tenants s t c f =
    (let latest = latest_scheduled_run (tn_id t) s;
         n = approved_plans (tn_id t) s;
         due = tenant_schedule_due_state (wc_enabled c) (wc_interval_minutes c) latest (fl_generated_at f) in
     f\<lparr>fl_approved_plan_backlog := fl_approved_plan_backlog f + n,
       fl_configured_tenants := bump (truthy (tn_dispatch_automation_worker_config t)) (fl_configured_tenants f),
       fl_enabled_tenants := bump (wc_enabled c) (fl_enabled_tenants f),
       fl_disabled_tenants := bump (\<not> wc_enabled c) (fl_disabled_tenants f),
       fl_due_tenants := bump (du_due_now due) (fl_due_tenants f),
       fl_interval_waiting_tenants :=
         bump (\<not> du_due_now due \<and> du_skip_reason due = Some ''interval'') (fl_interval_waiting_tenants f),
       fl_backoff_tenants := bump (\<not> du_due_now due \<and> du_skip_reason due = Some ''backoff'') (fl_backoff_tenants f),
       fl_tenants := fl_tenants f @ (if include_tenants then
         [\<lparr>rd_tenant_id = tn_id t, rd_enabled = wc_enabled c, rd_due_now = du_due_now due,
           rd_skip_reason = du_skip_reason due, rd_approved_plan_count = n,
           rd_latest_scheduled_status = map_option wr_status latest,
           rd_last_scheduled_at = map_option wr_created_at latest, rd_next_run_at = du_next_run_at due,
           rd_backoff_until = du_backoff_until due, rd_max_plans_per_run = wc_max_plans_per_run c\<rparr>] else [])\<rparr>)"

fun inspect_tenants :: "bool \<Rightarrow> db \<Rightarrow> tenant list \<Rightarrow> fleet_snapshot \<Rightarrow> http_error + fleet_snapshot" where
  "inspect_tenants inc s [] f = Inr f"
| "inspect_tenants inc s (t # ts) f =
    (case get_worker_config (tn_id t) s of
      Inl err \<Rightarrow> Inl err
    | Inr c \<Rightarrow> inspect_tenants inc s ts (inspect_tenant inc s t c f))"

definition inspect_fleet ::
  "bool \<Rightarrow> rat \<Rightarrow> int \<Rightarrow> instant \<Rightarrow> bool \<Rightarrow> db \<Rightarrow> http_error + fleet_snapshot" where
  "inspect_fleet enabled interval limit now include_tenants s =
    inspect_tenants include_tenants s (tenants_by_age s)
      \<lparr>fl_generated_at = now, fl_scheduler_enabled = enabled, fl_scheduler_interval_seconds = interval,
       fl_scheduler_tenant_limit = max limit 1, fl_total_tenants = length (tenants_by_age s),
       fl_configured_tenants = 0, fl_enabled_tenants = 0, fl_disabled_tenants = 0, fl_due_tenants = 0,
       fl_interval_waiting_tenants = 0, fl_backoff_tenants = 0, fl_approved_plan_backlog = 0, fl_tenants = []\<rparr>"

section \<open>Runs and the audit rows\<close>

lemma latest_scheduled_run_upper:
  assumes "r \<in> set (worker_runs s)" "wr_tenant_id r = tid" "wr_trigger_type r = ''scheduled''"
  shows "\<exists>x. latest_scheduled_run tid s = Some x \<and> wr_created_at r \<le> wr_created_at x"
proof -
  let ?rows = "filter (\<lambda>r. wr_tenant_id r = tid \<and> wr_trigger_type r = ''scheduled'') (worker_runs s)"
  have r: "r \<in> set (sort_key (\<lambda>r. - wr_created_at r) ?rows)" using assms by simp
  then have "sort_key (\<lambda>r. - wr_created_at r) ?rows \<noteq> []" by (rule contrapos_pn) simp
  then obtain x rest where x: "sort_key (\<lambda>r. - wr_created_at r) ?rows = x # rest"
    by (auto simp only: neq_Nil_conv)
  have "sorted (map (\<lambda>r. - wr_created_at r) (x # rest))"
    unfolding x [symmetric] by (rule sorted_sort_key)
  moreover have "r \<in> set (x # rest)" using r by (simp only: x)
  ultimately have "wr_created_at r \<le> wr_created_at x" by auto
  then show ?thesis by (simp add: latest_scheduled_run_def x)
qed

lemma recent_run_not_due:
  assumes "r \<in> set (worker_runs s)" "wr_tenant_id r = tid" "wr_trigger_type r = ''scheduled''"
    and "now < wr_created_at r + minutes interval"
  shows "tenant_schedule_is_due tid interval now s \<in> {Some ''interval'', Some ''backoff''}"
proof -
  obtain x where x: "latest_scheduled_run tid s = Some x" "wr_created_at r \<le> wr_created_at x"
    using latest_scheduled_run_upper [OF assms(1-3)] by blast
  have "minutes interval \<le> minutes (max interval FAILED_RUN_BACKOFF_MINUTES)" by simp
  with x(2) assms(4) have "now < wr_created_at x + minutes interval"
      "now < wr_created_at x + minutes (max interval FAILED_RUN_BACKOFF_MINUTES)"
    by linarith+
  with x(1) show ?thesis
    by (simp add: tenant_schedule_is_due_def tenant_schedule_due_state_def Let_def)
qed

text \<open>Every tenant an evaluation adds was due by its configuration, and has an audit row afterwards.\<close>

definition ran_in_turn :: "schedule_env \<Rightarrow> db \<Rightarrow> db \<Rightarrow> uuid \<Rightarrow> bool" where
  "ran_in_turn env s s' tid \<longleftrightarrow>
    (\<exists>c. get_worker_config tid s = Inr c \<and> wc_enabled c \<and>
      (\<forall>r \<in> set (worker_runs s). wr_tenant_id r = tid \<and> wr_trigger_type r = ''scheduled'' \<longrightarrow>
        wr_created_at r + minutes (wc_interval_minutes c) \<le> sv_now env)) \<and>
    (\<exists>r \<in> set (worker_runs s'). wr_tenant_id r = tid \<and> wr_trigger_type r = ''scheduled'' \<and>
      wr_created_at r = sv_recorded env tid)"

text \<open>What the scheduler relies on of the function that runs a tenant's plans.\<close>

locale automation_run =
  fixes run :: "nat \<Rightarrow> uuid \<Rightarrow> db \<Rightarrow> (string + worker_result option) \<times> db"
  assumes run_tenants: "tenants (snd (run limit tid s)) = tenants s"
    and run_worker_runs: "worker_runs (snd (run limit tid s)) = worker_runs s"
begin

lemma run_tenant_effect:
  assumes "sv_run env = run" "run_tenant env tid limit rep s = (rep', s')"
  shows "tenants s' = tenants s \<and> sr_tenant_ids rep' = sr_tenant_ids rep @ [tid] \<and>
    sr_tenants_due rep' = sr_tenants_due rep + 1 \<and>
    (\<exists>r. worker_runs s' = worker_runs s @ [r] \<and> wr_tenant_id r = tid \<and> wr_trigger_type r = ''scheduled'' \<and>
      wr_created_at r = sv_recorded env tid)"
  using assms run_tenants [of "nat limit" tid s] run_worker_runs [of "nat limit" tid s]
  by (auto simp: run_tenant_def record_worker_run_def new_worker_run_def add_result_def add_failure_def Let_def
      split: prod.splits sum.splits)

lemma get_worker_config_tenants: "tenants s' = tenants s \<Longrightarrow> get_worker_config tid s' = get_worker_config tid s"
  by (simp add: get_worker_config_def tenant_by_id_def)

lemma evaluate_tenants_effect:
  assumes "sv_run env = run" "evaluate_tenants env limit ts rep s = (Inr rep', s')"
  shows "tenants s' = tenants s \<and> set (worker_runs s) \<subseteq> set (worker_runs s') \<and>
    (\<exists>new. sr_tenant_ids rep' = sr_tenant_ids rep @ new \<and> (\<forall>tid \<in> set new. ran_in_turn env s s' tid))"
  using assms(2)
proof (induction ts arbitrary: rep s)
  case Nil
  then show ?case by simp
next
  case (Cons t ts)
  show ?case
  proof (cases "sr_tenants_due rep \<ge> limit")
    case True
    with Cons.prems show ?thesis by simp
  next
    case False
    let ?rep1 = "rep\<lparr>sr_tenants_scanned := sr_tenants_scanned rep + 1\<rparr>"
    let ?rep2 = "?rep1\<lparr>sr_tenants_enabled := sr_tenants_enabled ?rep1 + 1\<rparr>"
    obtain c where c: "get_worker_config (tn_id t) s = Inr c"
      using Cons.prems False by (auto simp: Let_def split: sum.splits)
    let ?reason = "tenant_schedule_is_due (tn_id t) (wc_interval_minutes c) (sv_now env) s"
    show ?thesis
    proof (cases "wc_enabled c \<and> ?reason \<noteq> Some ''interval'' \<and> ?reason \<noteq> Some ''backoff''")
      case skip: False
      have "\<exists>rep2. sr_tenant_ids rep2 = sr_tenant_ids rep \<and> evaluate_tenants env limit ts rep2 s = (Inr rep', s')"
      proof (cases "wc_enabled c")
        case on: True
        with skip have "?reason = Some ''interval'' \<or> ?reason = Some ''backoff''" by blast
        then show ?thesis
        proof
          assume "?reason = Some ''interval''"
          then show ?thesis using Cons.prems False c on
            by (intro exI [of _ "?rep2\<lparr>sr_tenants_skipped_interval := sr_tenants_skipped_interval ?rep2 + 1\<rparr>"])
              (simp add: Let_def)
        next
          assume "?reason = Some ''backoff''"
          then show ?thesis using Cons.prems False c on
            by (intro exI [of _ "?rep2\<lparr>sr_tenants_skipped_backoff := sr_tenants_skipped_backoff ?rep2 + 1\<rparr>"])
              (simp add: Let_def)
        qed
      next
        case False
        then show ?thesis using Cons.prems \<open>\<not> limit \<le> sr_tenants_due rep\<close> c
          by (intro exI [of _ ?rep1]) (simp add: Let_def)
      qed
      then obtain rep2 where rep2: "sr_tenant_ids rep2 = sr_tenant_ids rep"
          "evaluate_tenants env limit ts rep2 s = (Inr rep', s')" by blast
      show ?thesis using Cons.IH [OF rep2(2)] by (simp only: rep2(1))
    next
      case due: True
      obtain rep3 s1 where r: "run_tenant env (tn_id t) (wc_max_plans_per_run c) ?rep2 s = (rep3, s1)" by fastforce
      have rest: "evaluate_tenants env limit ts rep3 s1 = (Inr rep', s')"
        using Cons.prems False c due r by (simp add: Let_def)
      from run_tenant_effect [OF assms(1) r] obtain row where row: "tenants s1 = tenants s"
          "sr_tenant_ids rep3 = sr_tenant_ids rep @ [tn_id t]" "worker_runs s1 = worker_runs s @ [row]"
          "wr_tenant_id row = tn_id t" "wr_trigger_type row = ''scheduled''" "wr_created_at row = sv_recorded env (tn_id t)"
        by auto
      from Cons.IH [OF rest] obtain new where ih: "tenants s' = tenants s1"
          "set (worker_runs s1) \<subseteq> set (worker_runs s')" "sr_tenant_ids rep' = sr_tenant_ids rep3 @ new"
          "\<forall>tid \<in> set new. ran_in_turn env s1 s' tid" by blast
      have "wr_created_at r + minutes (wc_interval_minutes c) \<le> sv_now env"
        if "r \<in> set (worker_runs s)" "wr_tenant_id r = tn_id t" "wr_trigger_type r = ''scheduled''" for r
        using recent_run_not_due [OF that, of "sv_now env" "wc_interval_minutes c"] due by fastforce
      moreover have "row \<in> set (worker_runs s')" using ih(2) row(3) by auto
      ultimately have "ran_in_turn env s s' (tn_id t)"
        unfolding ran_in_turn_def using c due row(4-6) by blast
      moreover have "ran_in_turn env s s' tid" if "tid \<in> set new" for tid
        using ih(4) that get_worker_config_tenants [OF row(1)] row(3) unfolding ran_in_turn_def by auto
      ultimately have "\<forall>tid \<in> set (tn_id t # new). ran_in_turn env s s' tid" by simp
      moreover have "sr_tenant_ids rep' = sr_tenant_ids rep @ (tn_id t # new)" using ih(3) row(2) by simp
      moreover have "tenants s' = tenants s" "set (worker_runs s) \<subseteq> set (worker_runs s')"
        using ih(1,2) row(1,3) by auto
      ultimately show ?thesis by blast
    qed
  qed
qed

end

section \<open>The plan worker as run function\<close>

lemma retry_frame:
  "retry_dead_letter_execution i now tid eid uid s = (r, s') \<Longrightarrow>
    tenants s' = tenants s \<and> worker_runs s' = worker_runs s"
proof -
  have "tenants (snd (retry_dead_letter_execution i now tid eid uid s)) = tenants s \<and>
      worker_runs (snd (retry_dead_letter_execution i now tid eid uid s)) = worker_runs s"
    by (auto simp: retry_dead_letter_execution_def create_execution_snd add_execution_def
        split: sum.splits bool.splits)
  then show "retry_dead_letter_execution i now tid eid uid s = (r, s') \<Longrightarrow> ?thesis" by simp
qed

lemma execute_plan_frame:
  "tenants (snd (execute_plan env p s)) = tenants s \<and> worker_runs (snd (execute_plan env p s)) = worker_runs s"
  by (auto simp: execute_plan_def execute_resume_guard_def execute_approval_gated_retry_def resume_workflows_def
      update_execution_def dest: retry_frame split: sum.split option.split prod.split http_error.split)

lemma worker_loop_frame:
  "tenants (snd (worker_loop env ps r s)) = tenants s \<and> worker_runs (snd (worker_loop env ps r s)) = worker_runs s"
proof (induction ps arbitrary: r s)
  case (Cons p ps)
  have "tenants (update_plan i f s) = tenants s \<and> worker_runs (update_plan i f s) = worker_runs s" for i f s
    by (simp add: update_plan_def)
  with Cons execute_plan_frame [of env p] show ?case
    by (auto split: prod.split) (metis snd_conv)+
qed simp

interpretation plan_worker: automation_run "plan_worker_run env" for env
proof
  fix limit tid s
  show "tenants (snd (plan_worker_run env limit tid s)) = tenants s"
      "worker_runs (snd (plan_worker_run env limit tid s)) = worker_runs s"
    using worker_loop_frame [of env "approved_queue (Some tid) limit s" idle_result s]
    by (cases "worker_loop env (approved_queue (Some tid) limit s) idle_result s";
        simp add: plan_worker_run_def run_plan_worker_once_def)+
qed

section \<open>Properties\<close>

text \<open>
  The operators see what the scheduler does. The diagnostics of the analytics service compute
  whether a tenant is due, why not, its next run and the end of its back-off with code of their
  own; on every configuration and every latest run they agree with the scheduler.
\<close>

theorem diagnostics_agree_with_scheduler:
  "automation_worker_due_state c latest now =
    (let d = tenant_schedule_due_state (wc_enabled c) (wc_interval_minutes c) latest now in
     (du_due_now d, du_skip_reason d, du_next_run_at d, du_backoff_until d)) \<and>
   latest_scheduled_automation_worker_run tid s = latest_scheduled_run tid s"
  by (auto simp: automation_worker_due_state_def tenant_schedule_due_state_def Let_def FAILED_RUN_BACKOFF_def
      FAILED_RUN_BACKOFF_MINUTES_def latest_scheduled_automation_worker_run_def latest_scheduled_run_def
      split: option.split)

text \<open>
  C37: no tenant is run twice within its interval. A tenant that one evaluation ran, with the plan
  worker, is not run by a later evaluation before the tenant's interval has passed since its audit
  row, whatever rows were added in between; and an evaluation without the lock runs nobody.
\<close>

theorem no_second_run_within_interval:
  assumes "sv_run env = plan_worker_run wenv" "sv_run env2 = plan_worker_run wenv2"
    and "evaluate_automation_workers env limit s = (Inr rep1, s1)" "tid \<in> set (sr_tenant_ids rep1)"
    and "set (worker_runs s1) \<subseteq> set (worker_runs s2)" "get_worker_config tid s2 = Inr c"
    and "evaluate_automation_workers env2 limit2 s2 = (Inr rep2, s3)"
    and "sv_now env2 < sv_recorded env tid + minutes (wc_interval_minutes c)"
  shows "tid \<notin> set (sr_tenant_ids rep2) \<and> sv_lock env"
proof -
  have lock: "sv_lock env"
  proof (rule ccontr)
    assume "\<not> sv_lock env"
    with assms(3,4) show False by (auto simp: evaluate_automation_workers_def fresh_report_def)
  qed
  then have "evaluate_tenants env (nat (max limit 1)) (tenants_by_age s) (fresh_report True False) s = (Inr rep1, s1)"
    using assms(3) by (simp add: evaluate_automation_workers_def)
  from plan_worker.evaluate_tenants_effect [OF assms(1) this] assms(4)
  have "ran_in_turn env s s1 tid" by (auto simp: fresh_report_def)
  then obtain r where r: "r \<in> set (worker_runs s2)" "wr_tenant_id r = tid" "wr_trigger_type r = ''scheduled''"
      "wr_created_at r = sv_recorded env tid"
    using assms(5) unfolding ran_in_turn_def by blast
  have "tid \<notin> set (sr_tenant_ids rep2)"
  proof
    assume mem: "tid \<in> set (sr_tenant_ids rep2)"
    have "sv_lock env2"
    proof (rule ccontr)
      assume "\<not> sv_lock env2"
      with assms(7) mem show False by (auto simp: evaluate_automation_workers_def fresh_report_def)
    qed
    then have "evaluate_tenants env2 (nat (max limit2 1)) (tenants_by_age s2) (fresh_report True False) s2 = (Inr rep2, s3)"
      using assms(7) by (simp add: evaluate_automation_workers_def)
    from plan_worker.evaluate_tenants_effect [OF assms(2) this] mem
    have "ran_in_turn env2 s2 s3 tid" by (auto simp: fresh_report_def)
    then have "wr_created_at r + minutes (wc_interval_minutes c) \<le> sv_now env2"
      using assms(6) r(1-3) unfolding ran_in_turn_def by auto
    with r(4) assms(8) show False by simp
  qed
  with lock show ?thesis by blast
qed

definition sample_schedule :: "instant \<Rightarrow> schedule_env" where
  "sample_schedule now = \<lparr>sv_now = now, sv_lock = True, sv_run = plan_worker_run sample_worker,
    sv_run_id = (\<lambda>i. i @ ''-run''), sv_recorded = (\<lambda>_. now)\<rparr>"

definition scheduled_db :: db where
  "scheduled_db = empty_db\<lparr>tenants := [(sample_tenant ''t1'' 9 0)\<lparr>tn_dispatch_automation_worker_config :=
      dump_worker_config \<lparr>wc_enabled = True, wc_interval_minutes = 15, wc_max_plans_per_run = 10\<rparr>\<rparr>,
    sample_tenant ''t2'' 9 0]\<rparr>"

theorem no_second_run_within_interval_witness:
  "\<exists>rep1 s1 rep2 s3. evaluate_automation_workers (sample_schedule 0) 25 scheduled_db = (Inr rep1, s1) \<and>
    sr_tenant_ids rep1 = [''t1''] \<and>
    evaluate_automation_workers (sample_schedule 600000000) 25 s1 = (Inr rep2, s3) \<and> ''t1'' \<notin> set (sr_tenant_ids rep2)"
proof -
  let ?r1 = "evaluate_automation_workers (sample_schedule 0) 25 scheduled_db"
  have a: "case fst ?r1 of Inr rep \<Rightarrow> sr_tenant_ids rep = [''t1''] | Inl _ \<Rightarrow> False" by code_simp
  then obtain rep1 s1 where r1: "?r1 = (Inr rep1, s1)" and ids: "sr_tenant_ids rep1 = [''t1'']"
    by (cases ?r1) (auto split: sum.splits)
  have "\<not> isl (fst (evaluate_automation_workers (sample_schedule 600000000) 25 (snd ?r1)))" by code_simp
  then obtain rep2 s3 where r2: "evaluate_automation_workers (sample_schedule 600000000) 25 s1 = (Inr rep2, s3)"
    unfolding r1 by (metis isl_def prod.collapse snd_conv sum.collapse(2))
  have c: "get_worker_config ''t1'' (snd ?r1) =
      Inr \<lparr>wc_enabled = True, wc_interval_minutes = 15, wc_max_plans_per_run = 10\<rparr>" by code_simp
  have "''t1'' \<notin> set (sr_tenant_ids rep2)"
    using no_second_run_within_interval [OF _ _ r1 _ _ c [unfolded r1 snd_conv] r2, of sample_worker sample_worker] ids
    by (simp add: sample_schedule_def minutes_def seconds_def)
  with r1 ids r2 show ?thesis by blast
qed

end
