(* ===== verification/Json.thy ===== *)
theory Json
  imports PyValue "HOL-Library.List_Lexorder" "HOL-Library.Char_ord"
begin

text \<open>
  The JSON texts the backend writes and reads back: \<open>json.dumps\<close> with sorted keys and compact
  separators, and \<open>json.loads\<close>, over ASCII texts and whole numbers (a numeral with a fraction
  or an exponent, and an escape beyond one byte, are outside the model). The parser takes fuel; the
  length of the text is enough.
\<close>

section \<open>Printing\<close>

text \<open>\<open>json.dumps(value, sort_keys=True, separators=(",", ":"))\<close>.\<close>

fun sort_keys :: "json \<Rightarrow> json" where
  "sort_keys (JObj d) = JObj (sort_key fst (map (\<lambda>p. (fst p, sort_keys (snd p))) d))"
| "sort_keys (JList xs) = JList (map sort_keys xs)"
| "sort_keys v = v"

fun dumps_compact :: "json \<Rightarrow> string" where
  "dumps_compact JNull = ''null''"
| "dumps_compact (JBool b) = (if b then ''true'' else ''false'')"
| "dumps_compact (JInt i) = show_int i"
| "dumps_compact (JStr s) = json_string s"
| "dumps_compact (JList xs) = ''['' @ join '','' (map dumps_compact xs) @ '']''"
| "dumps_compact (JObj d) =
    ''{'' @ join '','' (map (\<lambda>p. json_string (fst p) @ '':'' @ dumps_compact (snd p)) d) @ ''}''"

definition dumps_sorted :: "json \<Rightarrow> string" where
  "dumps_sorted v = dumps_compact (sort_keys v)"

section \<open>Parsing\<close>

definition skip_ws :: "string \<Rightarrow> string" where
  "skip_ws s = dropWhile (\<lambda>c. c \<in> {CHR '' '', CHR 0x09, CHR 0x0A, CHR 0x0D}) s"

definition eat :: "char \<Rightarrow> string \<Rightarrow> string option" where
  "eat c s = (case s of [] \<Rightarrow> None | d # r \<Rightarrow> if d = c then Some r else None)"

definition hex_val :: "char \<Rightarrow> nat option" where
  "hex_val c = map_of (zip ''0123456789abcdefABCDEF'' ([0..<16] @ [10..<16])) c"

definition simple_escape :: "char \<Rightarrow> char option" where
  "simple_escape c = map_of [(CHR 0x22, CHR 0x22), (CHR 0x5C, CHR 0x5C), (CHR ''/'', CHR ''/''), (CHR ''b'', CHR 0x08),
    (CHR ''f'', CHR 0x0C), (CHR ''n'', CHR 0x0A), (CHR ''r'', CHR 0x0D), (CHR ''t'', CHR 0x09)] c"

text \<open>The text after an opening quote: the string and what follows its closing quote.\<close>

fun parse_string :: "string \<Rightarrow> (string \<times> string) option" where
  "parse_string [] = None"
| "parse_string (c # s) =
    (if c = CHR 0x22 then Some ([], s)
     else if c = CHR 0x5C then
       (case s of
         [] \<Rightarrow> None
       | e # r \<Rightarrow>
          (case simple_escape e of
            Some x \<Rightarrow> map_option (\<lambda>(y, q). (x # y, q)) (parse_string r)
          | None \<Rightarrow>
             if e \<noteq> CHR ''u'' then None
             else (case r of
               z1 # z2 # h1 # h2 # q \<Rightarrow>
                 (case (hex_val z1, hex_val z2, hex_val h1, hex_val h2) of
                   (Some 0, Some 0, Some a, Some b) \<Rightarrow>
                     map_option (\<lambda>(y, q'). (char_of (16 * a + b :: nat) # y, q')) (parse_string q)
                 | _ \<Rightarrow> None)
             | _ \<Rightarrow> None)))
     else if (of_char c :: nat) < 32 then None
     else map_option (\<lambda>(y, q). (c # y, q)) (parse_string s))"

definition is_digit :: "char \<Rightarrow> bool" where
  "is_digit c \<longleftrightarrow> c \<in> set ''0123456789''"

definition digits_value :: "string \<Rightarrow> nat" where
  "digits_value ds = foldl (\<lambda>n c. 10 * n + (case digit_val c of None \<Rightarrow> 0 | Some d \<Rightarrow> d)) 0 ds"

definition parse_nat :: "string \<Rightarrow> (nat \<times> string) option" where
  "parse_nat s =
    (let ds = takeWhile is_digit s; ds' = (if take 1 ds = ''0'' then ''0'' else ds); r = drop (length ds') s in
     if ds' = [] \<or> take 1 r \<in> {''.'', ''e'', ''E''} then None else Some (digits_value ds', r))"

definition parse_number :: "string \<Rightarrow> (json \<times> string) option" where
  "parse_number s =
    (case eat (CHR ''-'') s of
      Some r \<Rightarrow> map_option (\<lambda>(n, q). (JInt (- int n), q)) (parse_nat r)
    | None \<Rightarrow> map_option (\<lambda>(n, q). (JInt (int n), q)) (parse_nat s))"

definition parse_atom :: "string \<Rightarrow> (json \<times> string) option" where
  "parse_atom s =
    (if prefix ''null'' s then Some (JNull, drop 4 s)
     else if prefix ''true'' s then Some (JBool True, drop 4 s)
     else if prefix ''false'' s then Some (JBool False, drop 5 s)
     else parse_number s)"

fun parse_value :: "nat \<Rightarrow> string \<Rightarrow> (json \<times> string) option"
and parse_elements :: "nat \<Rightarrow> json list \<Rightarrow> string \<Rightarrow> (json \<times> string) option"
and parse_members :: "nat \<Rightarrow> (string, json) dict \<Rightarrow> string \<Rightarrow> (json \<times> string) option" where
  "parse_value 0 s = None"
| "parse_value (Suc n) s =
    (case skip_ws s of
      [] \<Rightarrow> None
    | c # r \<Rightarrow>
       (if c = CHR 0x22 then map_option (\<lambda>(x, q). (JStr x, q)) (parse_string r)
        else if c = CHR ''['' then
          (case eat (CHR '']'') (skip_ws r) of Some q \<Rightarrow> Some (JList [], q) | None \<Rightarrow> parse_elements n [] r)
        else if c = CHR ''{'' then
          (case eat (CHR ''}'') (skip_ws r) of Some q \<Rightarrow> Some (JObj [], q) | None \<Rightarrow> parse_members n [] r)
        else parse_atom (c # r)))"
| "parse_elements 0 acc s = None"
| "parse_elements (Suc n) acc s =
    (case parse_value n s of
      None \<Rightarrow> None
    | Some (v, r) \<Rightarrow>
       (case eat (CHR '']'') (skip_ws r) of
         Some q \<Rightarrow> Some (JList (acc @ [v]), q)
       | None \<Rightarrow>
          (case eat (CHR '','') (skip_ws r) of
            Some q \<Rightarrow> parse_elements n (acc @ [v]) q
          | None \<Rightarrow> None)))"
| "parse_members 0 acc s = None"
| "parse_members (Suc n) acc s =
    (case eat (CHR 0x22) (skip_ws s) of
      None \<Rightarrow> None
    | Some r \<Rightarrow>
       (case parse_string r of
         None \<Rightarrow> None
       | Some (k, r1) \<Rightarrow>
          (case eat (CHR '':'') (skip_ws r1) of
            None \<Rightarrow> None
          | Some r2 \<Rightarrow>
             (case parse_value n r2 of
               None \<Rightarrow> None
             | Some (v, r3) \<Rightarrow>
                (case eat (CHR ''}'') (skip_ws r3) of
                  Some q \<Rightarrow> Some (JObj (dset k v acc), q)
                | None \<Rightarrow>
                   (case eat (CHR '','') (skip_ws r3) of
                     Some q \<Rightarrow> parse_members n (dset k v acc) q
                   | None \<Rightarrow> None))))))"

definition loads :: "string \<Rightarrow> json option" where
  "loads s =
    (case parse_value (Suc (length s)) s of
      Some (v, r) \<Rightarrow> if skip_ws r = [] then Some v else None
    | None \<Rightarrow> None)"

section \<open>What is printed is read back\<close>

text \<open>Objects whose keys are distinct, at every depth: the values a Python program can hold.\<close>

fun proper :: "json \<Rightarrow> bool" where
  "proper (JObj d) = (distinct (map fst d) \<and> (\<forall>p \<in> set d. proper (snd p)))"
| "proper (JList xs) = (\<forall>x \<in> set xs. proper x)"
| "proper v = True"


lemma hex_val_digit: "hex_val (hex_digit n) = Some (n mod 16)"
proof -
  have "\<forall>k \<in> set [0..<16]. hex_val (''0123456789abcdef'' ! k) = Some k" by code_simp
  then show ?thesis by (simp add: hex_digit_def)
qed

lemma parse_string_char: "parse_string (json_char c @ s) = map_option (\<lambda>(y, q). (c # y, q)) (parse_string s)"
proof -
  have esc: "simple_escape (CHR ''u'') = None" by (simp add: simple_escape_def)
  have u: "hex_val (CHR ''0'') = Some 0" by code_simp
  have n: "(of_char c :: nat) < 256" by simp
  have c: "char_of (16 * (of_char c div 16 mod 16) + of_char c mod 16 :: nat) = c"
    using n by (simp add: less_mult_imp_div_less)
  show ?thesis
    by (auto simp: json_char_def hex2_def Let_def printable_def esc u hex_val_digit c simple_escape_def not_less)
qed

lemma parse_string_json: "parse_string (concat (map json_char x) @ CHR 0x22 # r) = Some (x, r)"
  by (induction x) (simp_all add: parse_string_char)

lemma digits_value_show: "digits_value (show_nat n) = n"
proof (induction n rule: show_nat.induct)
  case (1 n)
  then show ?case by (subst show_nat.simps) (auto simp: digits_value_def)
qed

lemma show_nat_leading: "take 1 (show_nat n) = ''0'' \<Longrightarrow> n = 0"
proof (induction n rule: show_nat.induct)
  case (1 n)
  show ?case
  proof (cases "n < 10")
    case True
    have "\<forall>k \<in> set [0..<10]. digit_char k = CHR ''0'' \<longrightarrow> k = 0" by code_simp
    with True 1(2) show ?thesis by (simp add: show_nat.simps [of n])
  next
    case False
    have "take 1 (show_nat n) = take 1 (show_nat (n div 10))"
      using False by (simp add: show_nat.simps [of n] Suc_le_eq)
    with 1 False show ?thesis by auto
  qed
qed

definition closes :: "string \<Rightarrow> bool" where
  "closes r \<longleftrightarrow> take 1 r \<in> {[], '','', '']'', ''}''}"

lemma closes_simps [simp]: "closes []" "closes (CHR '','' # r)" "closes (CHR '']'' # r)" "closes (CHR ''}'' # r)"
  by (simp_all add: closes_def)

lemma is_digit_show: "c \<in> set (show_nat n) \<Longrightarrow> is_digit c"
  using set_show_nat unfolding is_digit_def by blast

lemma takeWhile_show: "closes r \<Longrightarrow> takeWhile is_digit (show_nat n @ r) = show_nat n"
proof -
  assume r: "closes r"
  have "takeWhile is_digit r = []" using r by (cases r) (auto simp: closes_def is_digit_def)
  then show ?thesis using is_digit_show [of _ n] by (simp add: takeWhile_append2)
qed

lemma parse_nat_show: "closes r \<Longrightarrow> parse_nat (show_nat n @ r) = Some (n, r)"
proof -
  assume r: "closes r"
  have tail: "take 1 r \<notin> {''.'', ''e'', ''E''}" using r by (auto simp: closes_def)
  show ?thesis
  proof (cases "take 1 (show_nat n) = ''0''")
    case True
    then have n: "n = 0" by (rule show_nat_leading)
    have "show_nat 0 = ''0''" by (simp add: show_nat.simps digit_char_def)
    with n tail r show ?thesis
      using takeWhile_show [OF r, of 0] by (simp add: parse_nat_def Let_def) (simp add: digits_value_def digit_val_def)
  next
    case False
    with r tail show ?thesis by (simp add: parse_nat_def Let_def takeWhile_show digits_value_show)
  qed
qed

lemma show_nat_Cons: "\<exists>c r. show_nat n = c # r \<and> is_digit c"
  using is_digit_show [of _ n] by (cases "show_nat n") auto

lemma parse_number_show: "closes r \<Longrightarrow> parse_number (show_int i @ r) = Some (JInt i, r)"
proof -
  assume r: "closes r"
  have "eat (CHR ''-'') (show_nat n @ r) = None" for n
    using show_nat_Cons [of n] by (auto simp: eat_def is_digit_def)
  with r show ?thesis by (auto simp: parse_number_def show_int_def parse_nat_show) (simp add: eat_def parse_nat_show)
qed

text \<open>The first character of a printed value.\<close>

definition opens :: "char \<Rightarrow> bool" where
  "opens c \<longleftrightarrow> c \<notin> set '' ,]}:'' \<union> {CHR 0x09, CHR 0x0A, CHR 0x0D}"

lemma show_int_Cons: "\<exists>c r. show_int i = c # r \<and> (is_digit c \<or> c = CHR ''-'')"
  using show_nat_Cons [of "nat i"] by (auto simp: show_int_def)

lemma dumps_Cons: "\<exists>c r. dumps_compact v = c # r \<and> opens c"
  using show_int_Cons [of "case v of JInt i \<Rightarrow> i | _ \<Rightarrow> 0"]
  by (cases v) (auto simp: opens_def json_string_def is_digit_def)

lemma skip_ws_opens: "opens c \<Longrightarrow> skip_ws (c # r) = c # r"
  by (auto simp: skip_ws_def opens_def)

lemma skip_ws_mark [simp]:
  "skip_ws (CHR '','' # r) = CHR '','' # r" "skip_ws (CHR '']'' # r) = CHR '']'' # r"
  "skip_ws (CHR ''}'' # r) = CHR ''}'' # r" "skip_ws (CHR '':'' # r) = CHR '':'' # r"
  "skip_ws (CHR 0x22 # r) = CHR 0x22 # r" "skip_ws [] = []"
  by (simp_all add: skip_ws_def)

lemma eat_simps [simp]: "eat c (c # r) = Some r" "d \<noteq> c \<Longrightarrow> eat c (d # r) = None"
  by (simp_all add: eat_def)

lemma skip_ws_dumps: "skip_ws (dumps_compact v @ r) = dumps_compact v @ r"
  using dumps_Cons [of v] by (auto simp: skip_ws_opens)

lemma eat_dumps: "\<not> opens c \<Longrightarrow> eat c (dumps_compact v @ r) = None"
  using dumps_Cons [of v] by (auto simp: eat_def)

lemma length_dumps: "0 < length (dumps_compact v)"
  using dumps_Cons [of v] by auto

lemma parse_elements_dumps:
  assumes "\<And>x n r. x \<in> set xs \<Longrightarrow> length (dumps_compact x) \<le> n \<Longrightarrow> closes r \<Longrightarrow>
      parse_value n (dumps_compact x @ r) = Some (x, r)"
    and "xs \<noteq> []" "length (join '','' (map dumps_compact xs)) < n"
  shows "parse_elements n acc (join '','' (map dumps_compact xs) @ CHR '']'' # r) = Some (JList (acc @ xs), r)"
  using assms
proof (induction xs arbitrary: n acc)
  case (Cons x xs)
  then obtain m where n: "n = Suc m" by (cases n) auto
  show ?case
  proof (cases xs)
    case Nil
    with Cons n show ?thesis by simp
  next
    case (Cons y ys)
    have tail: "parse_elements m (acc @ [x]) (join '','' (map dumps_compact xs) @ CHR '']'' # r) =
        Some (JList ((acc @ [x]) @ xs), r)"
      by (rule Cons.IH) (use Cons.prems Cons n in auto)
    have "parse_value m (dumps_compact x @ CHR '','' # join '','' (map dumps_compact xs) @ CHR '']'' # r) =
        Some (x, CHR '','' # join '','' (map dumps_compact xs) @ CHR '']'' # r)"
      by (rule Cons.prems(1)) (use Cons.prems(3) Cons n in auto)
    with tail Cons n show ?thesis by simp
  qed
qed simp

lemma dset_new: "k \<notin> fst ` set d \<Longrightarrow> dset k v d = d @ [(k, v)]"
  by (induction d) auto

lemma parse_members_dumps:
  fixes d :: "(string \<times> json) list"
  defines "item \<equiv> \<lambda>p. json_string (fst p) @ '':'' @ dumps_compact (snd p)"
  assumes "\<And>p n r. p \<in> set d \<Longrightarrow> length (dumps_compact (snd p)) \<le> n \<Longrightarrow> closes r \<Longrightarrow>
      parse_value n (dumps_compact (snd p) @ r) = Some (snd p, r)"
    and "d \<noteq> []" "length (join '','' (map item d)) < n" "distinct (map fst (acc @ d))"
  shows "parse_members n acc (join '','' (map item d) @ CHR ''}'' # r) = Some (JObj (acc @ d), r)"
  using assms(2-)
proof (induction d arbitrary: n acc)
  case (Cons p d)
  then obtain m where n: "n = Suc m" by (cases n) auto
  have new: "dset (fst p) (snd p) acc = acc @ [p]"
    using Cons.prems(4) by (simp add: dset_new)
  show ?case
  proof (cases d)
    case Nil
    with Cons.prems n new show ?thesis by (simp add: item_def json_string_def parse_string_json)
  next
    case (Cons q ds)
    let ?rest = "join '','' (map item d) @ CHR ''}'' # r"
    have tail: "parse_members m (acc @ [p]) ?rest = Some (JObj ((acc @ [p]) @ d), r)"
      by (rule Cons.IH) (use Cons.prems Cons n in auto)
    have "parse_value m (dumps_compact (snd p) @ CHR '','' # ?rest) = Some (snd p, CHR '','' # ?rest)"
      by (rule Cons.prems(1)) (use Cons.prems(3) Cons n in \<open>auto simp: item_def\<close>)
    with tail Cons n new show ?thesis by (simp add: item_def json_string_def parse_string_json)
  qed
qed simp

lemma parse_value_dumps:
  "proper v \<Longrightarrow> length (dumps_compact v) \<le> n \<Longrightarrow> closes r \<Longrightarrow> parse_value n (dumps_compact v @ r) = Some (v, r)"
proof (induction v arbitrary: n r rule: dumps_compact.induct)
  case (3 i)
  obtain m where n: "n = Suc m" using 3 length_dumps [of "JInt i"] by (cases n) auto
  obtain c t where c: "show_int i = c # t" "is_digit c \<or> c = CHR ''-''" using show_int_Cons by blast
  then have "opens c" by (auto simp: opens_def is_digit_def)
  then have "skip_ws (show_int i @ r) = c # t @ r" by (simp add: c(1) skip_ws_opens)
  with n c parse_number_show [OF 3(3), of i] show ?case by (auto simp: parse_atom_def is_digit_def)
next
  case (5 xs)
  obtain m where n: "n = Suc m" using 5 by (cases n) auto
  show ?case
  proof (cases "xs = []")
    case False
    then have "parse_elements m [] (join '','' (map dumps_compact xs) @ CHR '']'' # r) = Some (JList ([] @ xs), r)"
      by (intro parse_elements_dumps) (use 5 n in auto)
    moreover obtain x ys where "xs = x # ys" using False by (cases xs) auto
    moreover have "\<not> opens (CHR '']'')" by (simp add: opens_def)
    ultimately show ?thesis using n
      by (cases ys) (simp_all add: skip_ws_opens opens_def skip_ws_dumps eat_dumps)
  qed (simp add: n skip_ws_opens opens_def)
next
  case (6 d)
  let ?item = "\<lambda>p. json_string (fst p) @ '':'' @ dumps_compact (snd p)"
  obtain m where n: "n = Suc m" using 6 by (cases n) auto
  show ?case
  proof (cases "d = []")
    case False
    then have "parse_members m [] (join '','' (map ?item d) @ CHR ''}'' # r) = Some (JObj ([] @ d), r)"
      by (intro parse_members_dumps) (use 6 n in auto)
    moreover obtain p ds where "d = p # ds" using False by (cases d) auto
    ultimately show ?thesis using n
      by (cases ds) (simp_all add: skip_ws_opens opens_def json_string_def)
  qed (simp add: n skip_ws_opens opens_def)
next
  case 1
  then show ?case by (cases n) (simp_all add: skip_ws_opens opens_def parse_atom_def)
next
  case (2 b)
  then show ?case by (cases n; cases b) (simp_all add: skip_ws_opens opens_def parse_atom_def)
next
  case (4 x)
  then show ?case by (cases n) (simp_all add: json_string_def parse_string_json)
qed

lemma loads_dumps: "proper v \<Longrightarrow> loads (dumps_compact v) = Some v"
  using parse_value_dumps [of v "Suc (length (dumps_compact v))" "[]"] by (simp add: loads_def)

lemma proper_sort_keys: "proper v \<Longrightarrow> proper (sort_keys v)"
proof (induction v rule: sort_keys.induct)
  case (1 d)
  have "mset (map fst (sort_key fst (map (\<lambda>p. (fst p, sort_keys (snd p))) d))) = mset (map fst d)"
    by (simp add: multiset.map_comp comp_def)
  then have "distinct (map fst (sort_key fst (map (\<lambda>p. (fst p, sort_keys (snd p))) d)))"
    using 1(2) mset_eq_imp_distinct_iff by fastforce
  with 1 show ?case by auto
qed auto

lemma loads_dumps_sorted: "proper v \<Longrightarrow> loads (dumps_sorted v) = Some (sort_keys v)"
  by (simp add: dumps_sorted_def loads_dumps proper_sort_keys)

end
