(* ===== verification/Settings.thy ===== *)
theory Settings
  imports Json Redaction
begin

text \<open>
  The settings, \<open>app/core/config.py\<close>, the checks the application makes of them when it starts,
  and the encryption of stored credentials, the rest of \<open>app/services/connector_security.py\<close>. The
  Fernet library is the record \<open>fernet\<close>.
\<close>

section \<open>Settings and their checks\<close>

record settings =
  st_jwt_secret :: string
  st_credential_encryption_key :: string
  st_app_env :: string
  st_cors_origins :: string

definition DEFAULT_JWT_SECRET :: string where
  "DEFAULT_JWT_SECRET = ''change-me-in-production-use-256-bit-random-key''"

definition DEFAULT_DEV_CREDENTIAL_KEY :: string where
  "DEFAULT_DEV_CREDENTIAL_KEY = ''dev-only-credential-encryption-key-do-not-use-in-prod''"

definition is_production :: "settings \<Rightarrow> bool" where
  "is_production st \<longleftrightarrow> py_lower (st_app_env st) = ''production''"

definition is_local_development :: "settings \<Rightarrow> bool" where
  "is_local_development st \<longleftrightarrow> py_lower (st_app_env st) \<in> {''development'', ''dev'', ''local''}"

text \<open>\<open>Some\<close>: the message of the \<open>ValueError\<close>.\<close>

definition validate_runtime_safety :: "settings \<Rightarrow> string option" where
  "validate_runtime_safety st =
    (if is_local_development st then None
     else if st_jwt_secret st = DEFAULT_JWT_SECRET then
       Some ''JWT_SECRET must be changed from the default value outside local development.''
     else if length (st_jwt_secret st) < 32 then
       Some ''JWT_SECRET must be at least 32 characters outside local development.''
     else if st_credential_encryption_key st = [] then
       Some ''CREDENTIAL_ENCRYPTION_KEY must be set outside local development.''
     else if length (st_credential_encryption_key st) < 32 then
       Some ''CREDENTIAL_ENCRYPTION_KEY must be at least 32 characters outside local development.''
     else if st_credential_encryption_key st = st_jwt_secret st then
       Some (''CREDENTIAL_ENCRYPTION_KEY must be different from JWT_SECRET '' @
         ''to keep auth and encryption key domains separate.'')
     else None)"

text \<open>\<open>s.split(sep)\<close> for one character.\<close>

fun py_split :: "char \<Rightarrow> string \<Rightarrow> string list" where
  "py_split sep [] = [[]]"
| "py_split sep (c # s) =
    (if c = sep then [] # py_split sep s
     else (case py_split sep s of [] \<Rightarrow> [[c]] | x # xs \<Rightarrow> (c # x) # xs))"

definition cors_origins :: "settings \<Rightarrow> string list" where
  "cors_origins st = filter (\<lambda>x. x \<noteq> []) (map py_strip (py_split (CHR '','') (st_cors_origins st)))"

text \<open>The checks of \<open>create_app\<close>: the application starts when it answers \<open>None\<close>.\<close>

definition startup_check :: "settings \<Rightarrow> string option" where
  "startup_check st =
    (case validate_runtime_safety st of
      Some msg \<Rightarrow> Some msg
    | None \<Rightarrow>
       if ''*'' \<in> set (cors_origins st) then
         Some (''CORS_ORIGINS cannot be '' @ [CHR 0x27, CHR ''*'', CHR 0x27] @
           '' because credentials are allowed. Set explicit origins.'')
       else None)"

section \<open>Encrypted configurations\<close>

text \<open>
  \<open>fn_encrypt\<close> takes the key material, the random part of the token and the payload;
  \<open>fn_decrypt\<close> answers \<open>None\<close> for an \<open>InvalidToken\<close>.
\<close>

record fernet =
  fn_encrypt :: "string \<Rightarrow> string \<Rightarrow> string \<Rightarrow> string"
  fn_decrypt :: "string \<Rightarrow> string \<Rightarrow> string option"

text \<open>What the code relies on of Fernet: a token decrypts with its key.\<close>

definition fernet_laws :: "fernet \<Rightarrow> bool" where
  "fernet_laws fn \<longleftrightarrow> (\<forall>m nonce x. fn_decrypt fn m (fn_encrypt fn m nonce x) = Some x)"

definition fernet_material :: "settings \<Rightarrow> string + string" where
  "fernet_material st =
    (if st_credential_encryption_key st = [] then
       (if is_local_development st then Inr DEFAULT_DEV_CREDENTIAL_KEY
        else Inl ''CREDENTIAL_ENCRYPTION_KEY is not configured.'')
     else Inr (st_credential_encryption_key st))"

definition encrypt_config :: "fernet \<Rightarrow> settings \<Rightarrow> string \<Rightarrow> (string, json) dict \<Rightarrow> string + json" where
  "encrypt_config fn st nonce config =
    (case fernet_material st of
      Inl err \<Rightarrow> Inl err
    | Inr m \<Rightarrow> Inr (JObj [(''ciphertext'', JStr (fn_encrypt fn m nonce (dumps_sorted (JObj config))))]))"

definition decrypt_config :: "fernet \<Rightarrow> settings \<Rightarrow> (string, json) dict \<Rightarrow> string + json" where
  "decrypt_config fn st encrypted =
    (case jget ''ciphertext'' encrypted of
      JStr token \<Rightarrow>
        (case fernet_material st of
          Inl err \<Rightarrow> Inl err
        | Inr m \<Rightarrow>
           (case fn_decrypt fn m token of
             None \<Rightarrow> Inl ''InvalidToken''
           | Some payload \<Rightarrow>
              (case loads payload of None \<Rightarrow> Inl ''JSONDecodeError'' | Some v \<Rightarrow> Inr v)))
    | _ \<Rightarrow> Inr (JObj []))"

section \<open>Properties\<close>

lemma validated_material:
  "validate_runtime_safety st = None \<Longrightarrow> \<exists>m. fernet_material st = Inr m \<and>
    (\<not> is_local_development st \<longrightarrow> m = st_credential_encryption_key st \<and> 32 \<le> length m \<and> m \<noteq> st_jwt_secret st)"
  by (auto simp: validate_runtime_safety_def fernet_material_def split: if_splits)

text \<open>
  Stored credentials stay readable. In an application that passed the checks of its start,
  encrypting a configuration never fails; and any application with the same encryption key in the
  same kind of environment, whatever its other settings, a rotated \<open>JWT_SECRET\<close> included, reads
  back every entry of it, with the keys of its objects sorted. Outside local development the
  encryption key is the configured one, long enough and different from the secret of the tokens.
\<close>

theorem credentials_stay_readable:
  assumes "startup_check st = None" "fernet_laws fn" "proper (JObj config)"
    and "st_credential_encryption_key st2 = st_credential_encryption_key st"
    and "is_local_development st2 = is_local_development st"
  shows "\<exists>token d. encrypt_config fn st nonce config = Inr (JObj [(''ciphertext'', JStr token)]) \<and>
    decrypt_config fn st2 [(''ciphertext'', JStr token)] = Inr (JObj d) \<and>
    (\<forall>k. dget k d = map_option sort_keys (dget k config)) \<and> sorted (map fst d) \<and>
    (is_local_development st \<or> 32 \<le> length (st_credential_encryption_key st) \<and>
      st_credential_encryption_key st \<noteq> st_jwt_secret st)"
proof -
  have ok: "validate_runtime_safety st = None" using assms(1) by (simp add: startup_check_def split: option.splits)
  from validated_material [OF this] obtain m where m: "fernet_material st = Inr m"
      "is_local_development st \<or> 32 \<le> length (st_credential_encryption_key st) \<and>
        st_credential_encryption_key st \<noteq> st_jwt_secret st" by blast
  have m2: "fernet_material st2 = Inr m" using m(1) assms(4,5) by (auto simp: fernet_material_def split: if_splits)
  define items where "items = map (\<lambda>p. (fst p, sort_keys (snd p))) config"
  let ?token = "fn_encrypt fn m nonce (dumps_sorted (JObj config))"
  have keys: "distinct (map fst items)" using assms(3) by (simp add: items_def comp_def)
  have "mset (map fst (sort_key fst items)) = mset (map fst items)" by simp
  with keys have "distinct (map fst (sort_key fst items))" by (metis mset_eq_imp_distinct_iff)
  then have "map_of (sort_key fst items) = map_of items"
    using keys by (simp add: map_of_inject_set)
  moreover have "map_of items = map_option sort_keys \<circ> map_of config"
    unfolding items_def by (induction config) auto
  ultimately have get: "dget k (sort_key fst items) = map_option sort_keys (dget k config)" for k
    by (simp add: dget_def)
  have "encrypt_config fn st nonce config = Inr (JObj [(''ciphertext'', JStr ?token)])"
    by (simp add: encrypt_config_def m(1))
  moreover have "decrypt_config fn st2 [(''ciphertext'', JStr ?token)] = Inr (JObj (sort_key fst items))"
    using assms(2) loads_dumps_sorted [OF assms(3)]
    by (simp add: decrypt_config_def m2 jget_def dget_def fernet_laws_def items_def)
  moreover have "sorted (map fst (sort_key fst items))" by (rule sorted_sort_key)
  ultimately show ?thesis using get m(2) by blast
qed

definition sample_fernet :: fernet where
  "sample_fernet = \<lparr>fn_encrypt = (\<lambda>m nonce x. m @ x),
    fn_decrypt = (\<lambda>m t. if prefix m t then Some (drop (length m) t) else None)\<rparr>"

definition sample_settings :: "string \<Rightarrow> settings" where
  "sample_settings secret = \<lparr>st_jwt_secret = secret,
    st_credential_encryption_key = ''0123456789abcdef0123456789abcdef'', st_app_env = ''production'',
    st_cors_origins = ''https://app.example.com''\<rparr>"

theorem credentials_stay_readable_witness:
  "\<exists>token d. encrypt_config sample_fernet (sample_settings ''old-secret-old-secret-old-secret-old'') []
      [(''url'', JStr ''https://x''), (''count'', JInt 3)] = Inr (JObj [(''ciphertext'', JStr token)]) \<and>
    decrypt_config sample_fernet (sample_settings ''new'') [(''ciphertext'', JStr token)] = Inr (JObj d) \<and>
    dget ''count'' d = Some (JInt 3)"
proof -
  have a: "startup_check (sample_settings ''old-secret-old-secret-old-secret-old'') = None" by code_simp
  have b: "fernet_laws sample_fernet" by (simp add: fernet_laws_def sample_fernet_def)
  have c: "proper (JObj [(''url'', JStr ''https://x''), (''count'', JInt 3)])" by simp
  from credentials_stay_readable [OF a b c, of "sample_settings ''new''" "[]"]
  obtain token d where "encrypt_config sample_fernet (sample_settings ''old-secret-old-secret-old-secret-old'') []
      [(''url'', JStr ''https://x''), (''count'', JInt 3)] = Inr (JObj [(''ciphertext'', JStr token)])"
    "decrypt_config sample_fernet (sample_settings ''new'') [(''ciphertext'', JStr token)] = Inr (JObj d)"
    "\<forall>k. dget k d = map_option sort_keys (dget k [(''url'', JStr ''https://x''), (''count'', JInt 3)])"
    by (auto simp: sample_settings_def is_local_development_def)
  then show ?thesis by (auto simp: dget_def)
qed

text \<open>The public development key passes the checks when it is configured explicitly.\<close>

lemma development_key_accepted:
  "validate_runtime_safety \<lparr>st_jwt_secret = ''0123456789abcdef0123456789abcdef'',
    st_credential_encryption_key = DEFAULT_DEV_CREDENTIAL_KEY, st_app_env = ''production'',
    st_cors_origins = []\<rparr> = None"
  by code_simp

end
