(* ===== verification/Connectors.thy ===== *)
theory Connectors
  imports ExecutionService Settings
begin

text \<open>
  The connector service, \<open>app/services/connector_service.py\<close>: the catalogue, the stored
  credentials, the triggers, and the ingestion of webhooks with its signature check, rate limit and
  admission. A trigger's configuration is an object: only \<open>create_trigger\<close> writes it.
\<close>

section \<open>The catalogue\<close>

definition HTTP_CONNECTOR_MANIFEST :: "(string, json) dict" where
  "HTTP_CONNECTOR_MANIFEST =
    [(''key'', JStr ''http''), (''name'', JStr ''HTTP''),
     (''description'', JStr ''Make HTTP requests with explicit network safety and redacted logs.''),
     (''version'', JStr ''1.0.0''), (''auth_types'', JList [JStr ''none'', JStr ''api_key_header'']),
     (''actions'', JList [JObj
       [(''key'', JStr ''request''), (''name'', JStr ''Request''),
        (''input_schema'', JObj
          [(''type'', JStr ''object''), (''required'', JList [JStr ''url'', JStr ''method'']),
           (''properties'', JObj
             [(''url'', JObj [(''type'', JStr ''string''), (''format'', JStr ''uri'')]),
              (''method'', JObj [(''type'', JStr ''string''),
                (''enum'', JList (map JStr [''GET'', ''POST'', ''PUT'', ''PATCH'', ''DELETE'']))]),
              (''headers'', JObj [(''type'', JStr ''object'')]),
              (''query'', JObj [(''type'', JStr ''object'')]), (''body'', JObj [])])]),
        (''output_schema'', JObj
          [(''type'', JStr ''object''),
           (''properties'', JObj
             [(''status_code'', JObj [(''type'', JStr ''integer'')]),
              (''headers'', JObj [(''type'', JStr ''object'')]), (''body'', JObj [])])]),
        (''retry'', JObj [(''max_attempts'', JInt 1),
          (''retryable_statuses'', JList (map JInt [408, 429, 500, 502, 503, 504]))])]])]"

definition BUILT_IN_CONNECTORS :: "(string, (string, json) dict) dict" where
  "BUILT_IN_CONNECTORS = [(''http'', HTTP_CONNECTOR_MANIFEST)]"

fun list_or_empty :: "json \<Rightarrow> json list" where
  "list_or_empty (JList xs) = xs"
| "list_or_empty _ = []"

definition connector_summary :: "(string, json) dict \<Rightarrow> json" where
  "connector_summary m = JObj
    [(''key'', jget ''key'' m), (''name'', jget ''name'' m),
     (''description'', jget_or ''description'' (JStr []) m), (''version'', jget_or ''version'' (JStr ''1.0.0'') m),
     (''auth_types'', jget_or ''auth_types'' (JList []) m),
     (''actions'', JList (map (\<lambda>a. JObj [(''key'', jget ''key'' (obj_or_empty a)), (''name'', jget ''name'' (obj_or_empty a))])
       (list_or_empty (jget_or ''actions'' (JList []) m))))]"

definition list_connectors :: "json list" where
  "list_connectors = map (\<lambda>p. connector_summary (snd p)) BUILT_IN_CONNECTORS"

definition get_connector :: "string \<Rightarrow> http_error + json" where
  "get_connector key =
    (case dget key BUILT_IN_CONNECTORS of
      None \<Rightarrow> Inl (HTTPException 404 ''Connector not found'')
    | Some m \<Rightarrow> Inr (JObj
       [(''key'', jget ''key'' m), (''name'', jget ''name'' m),
        (''description'', jget_or ''description'' (JStr []) m),
        (''version'', jget_or ''version'' (JStr ''1.0.0'') m), (''manifest'', JObj m)]))"

section \<open>Credentials\<close>

definition quoted :: "string \<Rightarrow> string" where
  "quoted x = [CHR 0x27] @ x @ [CHR 0x27]"

definition validate_connector_auth :: "string \<Rightarrow> string \<Rightarrow> (string, json) dict \<Rightarrow> http_error option" where
  "validate_connector_auth key auth_type config =
    (case dget key BUILT_IN_CONNECTORS of
      None \<Rightarrow> Some (HTTPException 404 ''Connector not found'')
    | Some m \<Rightarrow>
       if JStr auth_type \<notin> set (list_or_empty (jget_or ''auth_types'' (JList []) m)) then
         Some (HTTPException 422 (''Auth type '' @ quoted auth_type @ '' is not supported by connector '' @ quoted key @ ''.''))
       else if auth_type = ''api_key_header'' \<and>
         \<not> (truthy (jget ''header_name'' config) \<and> truthy (jget ''header_value'' config)) then
         Some (HTTPException 422 ''API key header credentials require header_name and header_value.'')
       else None)"

text \<open>What creating a row draws: its identifier, its time, and the random part of a token.\<close>

record row_draw =
  rw_id :: uuid
  rw_created :: instant
  rw_nonce :: string

definition create_credential ::
  "fernet \<Rightarrow> settings \<Rightarrow> row_draw \<Rightarrow> uuid \<Rightarrow> uuid \<Rightarrow> string \<Rightarrow> string \<Rightarrow> string \<Rightarrow> (string, json) dict \<Rightarrow>
    (connector_credential, db) svc" where
  "create_credential fn st dw tid uid key name auth_type config s =
    (case validate_connector_auth key auth_type config of
      Some err \<Rightarrow> (Inl err, s)
    | None \<Rightarrow>
       (case encrypt_config fn st (rw_nonce dw) config of
         Inl msg \<Rightarrow> (Inl (internal_error msg), s)
       | Inr encrypted \<Rightarrow>
          (let c = \<lparr>cr_id = rw_id dw, cr_tenant_id = tid, cr_connector_key = key, cr_name = name,
               cr_auth_type = auth_type, cr_encrypted_config = encrypted,
               cr_config_preview = build_config_preview auth_type config, cr_is_active = True,
               cr_created_by = Some uid, cr_created_at = rw_created dw\<rparr> in
           if list_ex (\<lambda>x. cr_tenant_id x = tid \<and> cr_name x = name \<and> cr_is_active x) (credentials s) then
             (Inl (HTTPException 409 (''Connector credential with name '' @ quoted name @ '' already exists.'')), s)
           else (Inr c, s\<lparr>credentials := credentials s @ [c]\<rparr>))))"

definition list_credentials :: "uuid \<Rightarrow> string option \<Rightarrow> db \<Rightarrow> connector_credential list" where
  "list_credentials tid key s = sort_key cr_created_at
    (filter (\<lambda>c. cr_tenant_id c = tid \<and> cr_is_active c \<and>
      (case key of None \<Rightarrow> True | Some k \<Rightarrow> k = [] \<or> cr_connector_key c = k)) (credentials s))"

definition get_credential :: "uuid \<Rightarrow> uuid \<Rightarrow> db \<Rightarrow> http_error + connector_credential" where
  "get_credential tid cid s =
    (case row_find (\<lambda>c. cr_id c = cid \<and> cr_tenant_id c = tid \<and> cr_is_active c) (credentials s) of
      None \<Rightarrow> Inl (HTTPException 404 ''Connector credential not found'')
    | Some c \<Rightarrow> Inr c)"

definition delete_credential :: "uuid \<Rightarrow> uuid \<Rightarrow> (unit, db) svc" where
  "delete_credential tid cid s =
    (case get_credential tid cid s of
      Inl err \<Rightarrow> (Inl err, s)
    | Inr c \<Rightarrow> (Inr (), s\<lparr>credentials :=
        row_update (\<lambda>x. cr_id x = cr_id c) (\<lambda>x. x\<lparr>cr_is_active := False\<rparr>) (credentials s)\<rparr>))"

section \<open>The configuration of a trigger\<close>

definition bad_rate_limit :: http_error where
  "bad_rate_limit =
    HTTPException 422 ''Webhook trigger rate_limit requires positive max_events and window_seconds.''"

definition get_trigger_rate_limit :: "(string, json) dict \<Rightarrow> http_error + (int \<times> int) option" where
  "get_trigger_rate_limit config =
    (case jget ''rate_limit'' config of
      JObj limit \<Rightarrow>
        if jget ''enabled'' limit \<noteq> JBool True then Inr None
        else (case (py_int (jget ''max_events'' limit), py_int (jget ''window_seconds'' limit)) of
           (Some events, Some window) \<Rightarrow>
             if events < 1 \<or> window < 1 then Inl bad_rate_limit else Inr (Some (events, window))
         | _ \<Rightarrow> Inl bad_rate_limit)
    | _ \<Rightarrow> Inr None)"

definition webhook_auth_type :: "(string, json) dict \<Rightarrow> string" where
  "webhook_auth_type config =
    (case jget ''auth'' config of
      JObj auth \<Rightarrow> py_lower (py_str (py_or (jget ''type'' auth) (JStr ''none'')))
    | JStr x \<Rightarrow> py_lower x
    | _ \<Rightarrow> ''none'')"

definition hmac_settings :: "(string, json) dict \<Rightarrow> (string, json) dict" where
  "hmac_settings config =
    (case jget ''auth'' config of JObj auth \<Rightarrow> auth | _ \<Rightarrow> obj_or_empty (jget ''hmac'' config))"

definition ALLOWED_HMAC_ALGORITHMS :: "string list" where
  "ALLOWED_HMAC_ALGORITHMS = [''sha256'', ''sha1'', ''sha512'']"

definition hmac_algorithm :: "(string, json) dict \<Rightarrow> string" where
  "hmac_algorithm cfg = py_lower (py_str (jget_or ''algorithm'' (JStr ''sha256'') cfg))"

definition validate_webhook_auth_config :: "(string, json) dict \<Rightarrow> http_error option" where
  "validate_webhook_auth_config config =
    (let auth_type = webhook_auth_type config; cfg = hmac_settings config in
     if auth_type \<notin> {''none'', ''hmac''} then
       Some (HTTPException 422 ''Webhook trigger auth must be one of: none, hmac.'')
     else if auth_type \<noteq> ''hmac'' then None
     else if (case jget ''secret'' cfg of JStr x \<Rightarrow> length x < 16 | _ \<Rightarrow> True) then
       Some (HTTPException 422 ''HMAC webhook auth requires a secret of at least 16 characters.'')
     else if hmac_algorithm cfg \<notin> set ALLOWED_HMAC_ALGORITHMS then
       Some (HTTPException 422 ''HMAC webhook auth algorithm must be one of: sha256, sha1, sha512.'')
     else if jget ''tolerance_seconds'' cfg \<noteq> JNull \<and>
       (case py_int (jget ''tolerance_seconds'' cfg) of None \<Rightarrow> True | Some n \<Rightarrow> n < 0) then
       Some (HTTPException 422 ''HMAC webhook tolerance_seconds must be a non-negative integer.'')
     else None)"

definition create_trigger ::
  "row_draw \<Rightarrow> string \<Rightarrow> uuid \<Rightarrow> uuid \<Rightarrow> uuid \<Rightarrow> string \<Rightarrow> (string, json) dict \<Rightarrow> (workflow_trigger, db) svc" where
  "create_trigger dw public_id tid wid uid trigger_type config s =
    (case get_workflow tid wid s of
      Inl err \<Rightarrow> (Inl err, s)
    | Inr _ \<Rightarrow>
       if trigger_type \<noteq> ''webhook'' then (Inl (HTTPException 422 ''M9 supports only webhook triggers.''), s)
       else (case get_trigger_rate_limit config of
         Inl err \<Rightarrow> (Inl err, s)
       | Inr _ \<Rightarrow>
          (case validate_webhook_auth_config config of
            Some err \<Rightarrow> (Inl err, s)
          | None \<Rightarrow>
             (let t = \<lparr>tg_id = rw_id dw, tg_tenant_id = tid, tg_workflow_id = wid, tg_trigger_type = trigger_type,
                  tg_public_id = public_id, tg_config = JObj config, tg_is_active = True,
                  tg_created_by = Some uid, tg_created_at = rw_created dw\<rparr> in
              if list_ex (\<lambda>x. tg_public_id x = public_id) (triggers s) then
                (Inl (internal_error ''UNIQUE constraint failed: workflow_triggers.public_id''), s)
              else (Inr t, s\<lparr>triggers := triggers s @ [t]\<rparr>)))))"

definition list_triggers :: "uuid \<Rightarrow> uuid \<Rightarrow> db \<Rightarrow> http_error + workflow_trigger list" where
  "list_triggers tid wid s =
    (case get_workflow tid wid s of
      Inl err \<Rightarrow> Inl err
    | Inr _ \<Rightarrow> Inr (sort_key tg_created_at
        (filter (\<lambda>t. tg_tenant_id t = tid \<and> tg_workflow_id t = wid \<and> tg_is_active t) (triggers s))))"

section \<open>Ingesting a webhook\<close>

text \<open>
  A delivery: the headers, the exact body, and the object parsed from it. \<open>hmac_hex\<close> stands for
  \<open>hmac.new(secret, payload, algorithm).hexdigest()\<close>; bytes are read as their ASCII text.
\<close>

record delivery =
  dv_headers :: "(string, string) dict"
  dv_raw_body :: string
  dv_payload :: "(string, json) dict"

type_synonym hmac_hex = "string \<Rightarrow> string \<Rightarrow> string \<Rightarrow> string"

definition lowered_headers :: "(string, string) dict \<Rightarrow> (string, string) dict" where
  "lowered_headers h = dupdate [] (map (\<lambda>p. (py_lower (fst p), snd p)) h)"

text \<open>\<open>x.split("=", 1)[1]\<close> when there is an equals sign.\<close>

definition after_equals :: "string \<Rightarrow> string" where
  "after_equals x = (if CHR ''='' \<in> set x then tl (dropWhile (\<lambda>c. c \<noteq> CHR ''='') x) else x)"

definition unauthorized :: "string \<Rightarrow> http_error option" where
  "unauthorized msg = Some (HTTPException 401 msg)"

text \<open>The payload that was signed, after the checks of the time stamp.\<close>

definition signed_payload ::
  "instant \<Rightarrow> (string, json) dict \<Rightarrow> (string, string) dict \<Rightarrow> string \<Rightarrow> http_error + string" where
  "signed_payload clock cfg lowered raw =
    (let header = jget ''timestamp_header'' cfg; tolerance = jget ''tolerance_seconds'' cfg in
     if \<not> truthy header then Inr raw
     else case dget (py_lower (py_str header)) lowered of
       None \<Rightarrow> Inl (HTTPException 401 ''Webhook timestamp is missing.'')
     | Some value \<Rightarrow>
        if value = [] then Inl (HTTPException 401 ''Webhook timestamp is missing.'')
        else case parse_int value of
          None \<Rightarrow> Inl (HTTPException 401 ''Webhook timestamp is invalid.'')
        | Some ts \<Rightarrow>
           if tolerance = JNull then Inr (value @ ''.'' @ raw)
           else case py_int tolerance of
             None \<Rightarrow> Inl (internal_error ''int() argument'')
           | Some n \<Rightarrow>
              if \<bar>clock div 1000000 - ts\<bar> > n then
                Inl (HTTPException 401 ''Webhook timestamp is outside the allowed window.'')
              else Inr (value @ ''.'' @ raw))"

definition verify_webhook_signature :: "hmac_hex \<Rightarrow> instant \<Rightarrow> (string, json) dict \<Rightarrow> delivery \<Rightarrow> http_error option" where
  "verify_webhook_signature hmac clock config dv =
    (if webhook_auth_type config \<noteq> ''hmac'' then None
     else let lowered = lowered_headers (dv_headers dv); cfg = hmac_settings config;
              secret = py_str (py_or (jget ''secret'' cfg) (JStr [])) in
     if secret = [] then unauthorized ''Webhook signature verification is misconfigured.''
     else let algorithm = (if hmac_algorithm cfg \<in> set ALLOWED_HMAC_ALGORITHMS then hmac_algorithm cfg else ''sha256'');
              signature_header = py_lower (py_str (jget_or ''signature_header'' (JStr ''X-Signature-256'') cfg));
              provided = after_equals (case dget signature_header lowered of None \<Rightarrow> [] | Some x \<Rightarrow> x) in
     if provided = [] then unauthorized ''Webhook signature is missing.''
     else case signed_payload clock cfg lowered (dv_raw_body dv) of
       Inl err \<Rightarrow> Some err
     | Inr payload \<Rightarrow>
        if hmac algorithm secret payload \<noteq> py_strip provided then unauthorized ''Webhook signature is invalid.''
        else None)"

definition accepted_events :: "workflow_trigger \<Rightarrow> instant \<Rightarrow> db \<Rightarrow> nat" where
  "accepted_events t cutoff s = row_count (\<lambda>e. we_tenant_id e = tg_tenant_id t \<and> we_trigger_id e = tg_id t \<and>
    cutoff \<le> we_created_at e) (webhook_events s)"

definition enforce_webhook_rate_limit :: "instant \<Rightarrow> workflow_trigger \<Rightarrow> db \<Rightarrow> http_error option" where
  "enforce_webhook_rate_limit clock t s =
    (case get_trigger_rate_limit (obj_or_empty (tg_config t)) of
      Inl err \<Rightarrow> Some err
    | Inr None \<Rightarrow> None
    | Inr (Some (max_events, window)) \<Rightarrow>
        if int (accepted_events t (clock - seconds window) s) \<ge> max_events
        then Some (HTTPException 429 ''Webhook trigger rate limit exceeded.'') else None)"

text \<open>What ingesting draws: the clock of its checks, the time of its rows, and their identifiers.\<close>

record ingest_draw =
  ig_clock :: instant
  ig_created :: instant
  ig_event_id :: uuid
  ig_execution_id :: uuid

definition ingested_input :: "uuid \<Rightarrow> uuid \<Rightarrow> delivery \<Rightarrow> json" where
  "ingested_input trigger_id event_id dv = JObj
    [(''trigger'', JObj [(''type'', JStr ''webhook''), (''trigger_id'', JStr trigger_id), (''event_id'', JStr event_id)]),
     (''payload'', JObj (dv_payload dv)),
     (''headers'', redact_secret_values (JObj (map (\<lambda>p. (fst p, JStr (snd p))) (dv_headers dv))))]"

definition ingested_event :: "ingest_draw \<Rightarrow> workflow_trigger \<Rightarrow> delivery \<Rightarrow> webhook_event" where
  "ingested_event dw t dv =
    \<lparr>we_id = ig_event_id dw, we_tenant_id = tg_tenant_id t, we_workflow_id = tg_workflow_id t,
     we_trigger_id = tg_id t, we_execution_id = Some (ig_execution_id dw), we_payload = JObj (dv_payload dv),
     we_headers_sanitized = redact_secret_values (JObj (map (\<lambda>p. (fst p, JStr (snd p))) (dv_headers dv))),
     we_status = WeExecutionCreated, we_error_message = None, we_created_at = ig_created dw\<rparr>"

definition find_trigger :: "string \<Rightarrow> db \<Rightarrow> workflow_trigger option" where
  "find_trigger public_id s =
    row_find (\<lambda>t. tg_public_id t = public_id \<and> tg_trigger_type t = ''webhook'' \<and> tg_is_active t) (triggers s)"

definition ingest_webhook ::
  "hmac_hex \<Rightarrow> ingest_draw \<Rightarrow> string \<Rightarrow> delivery \<Rightarrow> (uuid \<times> exec_status, db) svc" where
  "ingest_webhook hmac dw public_id dv s =
    (case find_trigger public_id s of
      None \<Rightarrow> (Inl (HTTPException 404 ''Webhook not found''), s)
    | Some t \<Rightarrow>
       (case verify_webhook_signature hmac (ig_clock dw) (obj_or_empty (tg_config t)) dv of
         Some err \<Rightarrow> (Inl err, s)
       | None \<Rightarrow>
          (case get_workflow (tg_tenant_id t) (tg_workflow_id t) s of
            Inl err \<Rightarrow> (Inl err, s)
          | Inr w \<Rightarrow>
             (case enforce_webhook_rate_limit (ig_clock dw) t s of
               Some err \<Rightarrow> (Inl err, s)
             | None \<Rightarrow>
                (case enforce_webhook_admission (tg_tenant_id t) s of
                  Some err \<Rightarrow> (Inl err, s)
                | None \<Rightarrow>
                   (let e = new_execution (ig_execution_id dw) (ig_created dw) (tg_tenant_id t) (wf_id w)
                         (ingested_input (tg_id t) (ig_event_id dw) dv) in
                    (Inr (ex_id e, ex_status e),
                     add_execution e (s\<lparr>webhook_events := webhook_events s @ [ingested_event dw t dv]\<rparr>))))))))"

section \<open>What an accepted delivery went through\<close>

lemma ingest_webhook_InrD:
  assumes "ingest_webhook hmac dw public_id dv s = (Inr r, s')"
  obtains t w where "find_trigger public_id s = Some t"
    "verify_webhook_signature hmac (ig_clock dw) (obj_or_empty (tg_config t)) dv = None"
    "get_workflow (tg_tenant_id t) (tg_workflow_id t) s = Inr w"
    "enforce_webhook_rate_limit (ig_clock dw) t s = None"
    "enforce_webhook_admission (tg_tenant_id t) s = None"
    "r = (ig_execution_id dw, ExPending)"
    "s' = s\<lparr>webhook_events := webhook_events s @ [ingested_event dw t dv],
      executions := executions s @ [new_execution (ig_execution_id dw) (ig_created dw) (tg_tenant_id t)
        (tg_workflow_id t) (ingested_input (tg_id t) (ig_event_id dw) dv)]\<rparr>"
proof -
  from assms obtain t w where acc: "find_trigger public_id s = Some t"
    "verify_webhook_signature hmac (ig_clock dw) (obj_or_empty (tg_config t)) dv = None"
    "get_workflow (tg_tenant_id t) (tg_workflow_id t) s = Inr w"
    "enforce_webhook_rate_limit (ig_clock dw) t s = None"
    "enforce_webhook_admission (tg_tenant_id t) s = None"
    by (auto simp: ingest_webhook_def split: option.splits sum.splits)
  moreover have "wf_id w = tg_workflow_id t"
    using acc(3) by (auto simp: get_workflow_def dest: row_find_SomeD split: option.splits)
  ultimately show ?thesis
    using assms that by (auto simp: ingest_webhook_def Let_def new_execution_def add_execution_def)
qed

lemma ingest_webhook_refused: "ingest_webhook hmac dw public_id dv s = (Inl err, s') \<Longrightarrow> s' = s"
  by (auto simp: ingest_webhook_def Let_def split: option.splits sum.splits)

lemma find_trigger_SomeD: "find_trigger public_id s = Some t \<Longrightarrow> t \<in> set (triggers s)"
  unfolding find_trigger_def by (blast dest: row_find_SomeD)

lemma lowered_headers_SomeD: "dget k (lowered_headers h) = Some v \<Longrightarrow> \<exists>name. (name, v) \<in> set h \<and> py_lower name = k"
  by (auto simp: lowered_headers_def dget_dupdate dest!: map_of_SomeD split: option.splits) blast

text \<open>A text the trigger's owner accepts as signed, at the instant of the check.\<close>

definition timely_payload :: "instant \<Rightarrow> (string, json) dict \<Rightarrow> delivery \<Rightarrow> string \<Rightarrow> bool" where
  "timely_payload clock cfg dv payload \<longleftrightarrow>
    (if \<not> truthy (jget ''timestamp_header'' cfg) then payload = dv_raw_body dv
     else \<exists>name stamp ts. (name, stamp) \<in> set (dv_headers dv) \<and>
       py_lower name = py_lower (py_str (jget ''timestamp_header'' cfg)) \<and>
       payload = stamp @ ''.'' @ dv_raw_body dv \<and> parse_int stamp = Some ts \<and>
       (jget ''tolerance_seconds'' cfg = JNull \<or>
         (\<exists>n. py_int (jget ''tolerance_seconds'' cfg) = Some n \<and> \<bar>clock div 1000000 - ts\<bar> \<le> n)))"

lemma signed_payload_InrD:
  "signed_payload clock cfg (lowered_headers (dv_headers dv)) (dv_raw_body dv) = Inr payload \<Longrightarrow>
    timely_payload clock cfg dv payload"
  by (auto simp: signed_payload_def timely_payload_def Let_def not_less
      dest!: lowered_headers_SomeD split: if_splits option.splits; blast)

lemma verified_signature:
  assumes "verify_webhook_signature hmac clock config dv = None" "webhook_auth_type config = ''hmac''"
  shows "\<exists>algorithm payload name value. algorithm \<in> set ALLOWED_HMAC_ALGORITHMS \<and>
    timely_payload clock (hmac_settings config) dv payload \<and> (name, value) \<in> set (dv_headers dv) \<and>
    hmac algorithm (py_str (py_or (jget ''secret'' (hmac_settings config)) (JStr []))) payload =
      py_strip (after_equals value)"
proof -
  let ?cfg = "hmac_settings config" and ?low = "lowered_headers (dv_headers dv)"
  let ?alg = "if hmac_algorithm ?cfg \<in> set ALLOWED_HMAC_ALGORITHMS then hmac_algorithm ?cfg else ''sha256''"
  let ?header = "py_lower (py_str (jget_or ''signature_header'' (JStr ''X-Signature-256'') ?cfg))"
  from assms obtain payload where p: "signed_payload clock ?cfg ?low (dv_raw_body dv) = Inr payload"
    "after_equals (case dget ?header ?low of None \<Rightarrow> [] | Some x \<Rightarrow> x) \<noteq> []"
    "hmac ?alg (py_str (py_or (jget ''secret'' ?cfg) (JStr []))) payload =
      py_strip (after_equals (case dget ?header ?low of None \<Rightarrow> [] | Some x \<Rightarrow> x))"
    by (auto simp: verify_webhook_signature_def Let_def unauthorized_def split: if_splits sum.splits)
  obtain sig where v: "dget ?header ?low = Some sig"
    using p(2) by (cases "dget ?header ?low") (auto simp: after_equals_def)
  then obtain name where "(name, sig) \<in> set (dv_headers dv)" by (auto dest: lowered_headers_SomeD)
  moreover have "?alg \<in> set ALLOWED_HMAC_ALGORITHMS" by (simp add: ALLOWED_HMAC_ALGORITHMS_def)
  ultimately show ?thesis using p v signed_payload_InrD [OF p(1)] by (metis option.simps(5))
qed

lemma created_hmac_trigger:
  assumes "create_trigger dw public_id tid wid uid kind config s = (Inr t, s')" "webhook_auth_type config = ''hmac''"
  shows "\<exists>secret. tg_config t = JObj config \<and> jget ''secret'' (hmac_settings config) = JStr secret \<and> 16 \<le> length secret"
  using assms
  by (auto simp: create_trigger_def validate_webhook_auth_config_def Let_def
      split: sum.splits option.splits if_splits json.splits)

section \<open>Deliveries over time\<close>

text \<open>
  The system as the webhooks see it: deliveries arrive and are handled one at a time, in transactions
  that do not overlap; triggers are created with a fresh identifier; everything else the backend does
  leaves triggers and events alone. A delivery has two times. Its rows are stamped by the database with
  \<open>now()\<close>, the start of its transaction, so not before the rows that are there. The limit is checked
  later, against the clock of the backend, which is at most \<open>delta\<close> ahead of the stamp: the longest
  time from the start of a transaction to the check, with what the two clocks differ by.
\<close>

inductive webhook_step :: "hmac_hex \<Rightarrow> instant \<Rightarrow> db \<Rightarrow> db \<Rightarrow> bool" for hmac delta where
  deliver: "ingest_webhook hmac dw public_id dv s = (r, s') \<Longrightarrow>
    ig_clock dw \<le> ig_created dw + delta \<Longrightarrow>
    \<forall>e \<in> set (webhook_events s). we_created_at e \<le> ig_created dw \<Longrightarrow> webhook_step hmac delta s s'"
| new_trigger: "create_trigger rw public_id tid wid uid kind config s = (r, s') \<Longrightarrow>
    rw_id rw \<notin> tg_id ` set (triggers s) \<Longrightarrow> rw_id rw \<notin> we_trigger_id ` set (webhook_events s) \<Longrightarrow>
    webhook_step hmac delta s s'"
| elsewhere: "webhook_events s' = webhook_events s \<Longrightarrow> triggers s' = triggers s \<Longrightarrow> webhook_step hmac delta s s'"

definition event_times :: "workflow_trigger \<Rightarrow> db \<Rightarrow> instant list" where
  "event_times t s = map we_created_at
    (filter (\<lambda>e. we_tenant_id e = tg_tenant_id t \<and> we_trigger_id e = tg_id t) (webhook_events s))"

definition rate_limit_of :: "workflow_trigger \<Rightarrow> (int \<times> int) option" where
  "rate_limit_of t = (case get_trigger_rate_limit (obj_or_empty (tg_config t)) of Inr l \<Rightarrow> l | Inl _ \<Rightarrow> None)"

definition limits_kept :: "instant \<Rightarrow> db \<Rightarrow> bool" where
  "limits_kept delta s \<longleftrightarrow> distinct (map tg_id (triggers s)) \<and>
    (\<forall>t \<in> set (triggers s). \<forall>m w. rate_limit_of t = Some (m, w) \<longrightarrow>
      windows_within m (seconds w - delta) (event_times t s))"

lemma rate_limit_positive: "rate_limit_of t = Some (m, w) \<Longrightarrow> 1 \<le> m \<and> 1 \<le> w"
  by (auto simp: rate_limit_of_def get_trigger_rate_limit_def split: sum.splits json.splits if_splits option.splits)

lemma accepted_events_times:
  "accepted_events t cutoff s = length (filter (\<lambda>x. cutoff \<le> x) (event_times t s))"
  by (simp add: accepted_events_def event_times_def row_count_def filter_map comp_def conj_ac)

lemma event_times_ingest:
  "event_times t (s\<lparr>webhook_events := webhook_events s @ [ingested_event dw t' dv], executions := es\<rparr>) =
    event_times t s @ (if tg_tenant_id t' = tg_tenant_id t \<and> tg_id t' = tg_id t then [ig_created dw] else [])"
  by (simp add: event_times_def ingested_event_def)

lemma length_filter_mono: "(\<And>x. P x \<Longrightarrow> Q x) \<Longrightarrow> length (filter P xs) \<le> length (filter Q xs)"
  by (induction xs) auto

lemma limits_kept_ingest:
  assumes "limits_kept delta s" "ingest_webhook hmac dw public_id dv s = (r, s')"
    and "ig_clock dw \<le> ig_created dw + delta"
    and "\<forall>e \<in> set (webhook_events s). we_created_at e \<le> ig_created dw"
  shows "limits_kept delta s'"
proof (cases r)
  case (Inl err)
  with assms(1,2) ingest_webhook_refused show ?thesis by blast
next
  case (Inr x)
  from assms(2) [unfolded Inr] obtain t where t: "find_trigger public_id s = Some t"
      "enforce_webhook_rate_limit (ig_clock dw) t s = None"
    and s': "\<exists>es. s' = s\<lparr>webhook_events := webhook_events s @ [ingested_event dw t dv], executions := es\<rparr>"
    by (elim ingest_webhook_InrD) blast
  have "windows_within m (seconds w - delta) (event_times u s')" if u: "u \<in> set (triggers s)" "rate_limit_of u = Some (m, w)" for u m w
  proof -
    have old: "windows_within m (seconds w - delta) (event_times u s)"
      using assms(1) u unfolding limits_kept_def by blast
    show ?thesis
    proof (cases "tg_id u = tg_id t")
      case False
      with s' old show ?thesis by (auto simp: event_times_ingest)
    next
      case True
      with assms(1) u(1) find_trigger_SomeD [OF t(1)] have "u = t"
        unfolding limits_kept_def by (auto simp: distinct_map dest: inj_onD)
      with t(2) u(2) have below: "int (length (filter (\<lambda>x. ig_clock dw - seconds w \<le> x) (event_times u s))) < m"
        by (auto simp: enforce_webhook_rate_limit_def rate_limit_of_def accepted_events_times
            split: sum.splits option.splits if_splits)
      have "length (filter (\<lambda>x. ig_created dw - (seconds w - delta) \<le> x) (event_times u s)) \<le>
          length (filter (\<lambda>x. ig_clock dw - seconds w \<le> x) (event_times u s))"
        using assms(3) by (intro length_filter_mono) auto
      with below have "int (length (filter (\<lambda>x. ig_created dw - (seconds w - delta) \<le> x) (event_times u s))) < m"
        by linarith
      moreover have "\<forall>x \<in> set (event_times u s). x \<le> ig_created dw"
        using assms(4) by (auto simp: event_times_def)
      ultimately have "windows_within m (seconds w - delta) (event_times u s @ [ig_created dw])"
        using old by (intro windows_within_snoc)
      with s' \<open>u = t\<close> show ?thesis by (auto simp: event_times_ingest)
    qed
  qed
  with assms(1) s' show ?thesis unfolding limits_kept_def by auto
qed

lemma create_trigger_triggers:
  assumes "create_trigger rw public_id tid wid uid kind config s = (r, s')"
  shows "s' = s \<or> (\<exists>t. r = Inr t \<and> tg_id t = rw_id rw \<and> s' = s\<lparr>triggers := triggers s @ [t]\<rparr>)"
  using assms by (auto simp: create_trigger_def Let_def split: sum.splits option.splits if_split_asm)

lemma limits_kept_step: "webhook_step hmac delta s s' \<Longrightarrow> limits_kept delta s \<Longrightarrow> limits_kept delta s'"
proof (induction rule: webhook_step.induct)
  case (new_trigger rw public_id tid wid uid kind config s r s')
  from create_trigger_triggers [OF new_trigger.hyps(1)] show ?case
  proof
    assume "\<exists>t. r = Inr t \<and> tg_id t = rw_id rw \<and> s' = s\<lparr>triggers := triggers s @ [t]\<rparr>"
    then obtain t where t: "tg_id t = rw_id rw" "s' = s\<lparr>triggers := triggers s @ [t]\<rparr>" by blast
    have times: "event_times u s' = event_times u s" for u by (simp add: event_times_def t(2))
    have "event_times t s = []"
      using new_trigger.hyps(3) by (auto simp: event_times_def t(1) filter_empty_iff intro: rev_image_eqI)
    then have "windows_within m (seconds w - delta) (event_times t s)" if "rate_limit_of t = Some (m, w)" for m w
      using rate_limit_positive [OF that] by (simp add: windows_within_Nil)
    with new_trigger.prems new_trigger.hyps(2) show ?thesis
      unfolding limits_kept_def times by (auto simp: t)
  qed (use new_trigger.prems in simp)
next
  case (elsewhere s' s)
  then show ?case by (simp add: limits_kept_def event_times_def)
qed (rule limits_kept_ingest)

interpretation webhooks: invariant_system "\<lambda>s. s = empty_db" "webhook_step hmac delta" "limits_kept delta" for hmac delta
  by unfold_locales (simp add: limits_kept_def empty_db_def, rule limits_kept_step)

section \<open>Properties\<close>

text \<open>
  C16: a signed trigger accepts signed deliveries only. When the trigger was created with HMAC
  authentication, every accepted delivery carries, in one of its headers, the digest under the
  trigger's secret of at least 16 characters of the exact body, with the stamp of the delivery in
  front when the trigger asks for one, and then the stamp is within the tolerance. Nothing of the
  payload reaches the entries the dispatcher reads: accepting adds one pending execution of the
  trigger's tenant and workflow whose origin is the trigger, and its event.
\<close>

theorem accepted_webhook_is_signed:
  assumes "create_trigger rw pid tid wid uid kind config s0 = (Inr t, s1)" "webhook_auth_type config = ''hmac''"
    and "find_trigger public_id s = Some t" "ingest_webhook hmac dw public_id dv s = (Inr (eid, st), s')"
  shows "\<exists>secret algorithm payload name sig. jget ''secret'' (hmac_settings config) = JStr secret \<and>
    16 \<le> length secret \<and> algorithm \<in> set ALLOWED_HMAC_ALGORITHMS \<and>
    timely_payload (ig_clock dw) (hmac_settings config) dv payload \<and> (name, sig) \<in> set (dv_headers dv) \<and>
    hmac algorithm secret payload = py_strip (after_equals sig) \<and>
    executions s' = executions s @ [new_execution eid (ig_created dw) tid wid
      (ingested_input (tg_id t) (ig_event_id dw) dv)] \<and>
    webhook_events s' = webhook_events s @ [ingested_event dw t dv] \<and>
    jget ''trigger'' (obj_or_empty (ingested_input (tg_id t) (ig_event_id dw) dv)) =
      JObj [(''type'', JStr ''webhook''), (''trigger_id'', JStr (tg_id t)), (''event_id'', JStr (ig_event_id dw))]"
proof -
  from created_hmac_trigger [OF assms(1,2)] obtain secret where secret: "tg_config t = JObj config"
    "jget ''secret'' (hmac_settings config) = JStr secret" "16 \<le> length secret" by blast
  have t: "tg_tenant_id t = tid" "tg_workflow_id t = wid"
    using assms(1) by (auto simp: create_trigger_def Let_def split: sum.splits option.splits if_splits)
  have acc: "verify_webhook_signature hmac (ig_clock dw) config dv = None"
    "executions s' = executions s @ [new_execution eid (ig_created dw) tid wid
      (ingested_input (tg_id t) (ig_event_id dw) dv)] \<and>
    webhook_events s' = webhook_events s @ [ingested_event dw t dv]"
    using assms(3) secret(1) t by (rule_tac ingest_webhook_InrD [OF assms(4)], simp)+
  have "py_str (py_or (jget ''secret'' (hmac_settings config)) (JStr [])) = secret"
    using secret(2,3) by (auto simp: py_or_def)
  with verified_signature [OF acc(1) assms(2)] obtain algorithm payload name sig where
    "algorithm \<in> set ALLOWED_HMAC_ALGORITHMS" "timely_payload (ig_clock dw) (hmac_settings config) dv payload"
    "(name, sig) \<in> set (dv_headers dv)" "hmac algorithm secret payload = py_strip (after_equals sig)" by auto
  moreover have "jget ''trigger'' (obj_or_empty (ingested_input (tg_id t) (ig_event_id dw) dv)) =
      JObj [(''type'', JStr ''webhook''), (''trigger_id'', JStr (tg_id t)), (''event_id'', JStr (ig_event_id dw))]"
    by (simp add: ingested_input_def jget_def dget_def)
  ultimately show ?thesis using secret(2,3) acc(2) by blast
qed

definition sample_hmac :: hmac_hex where
  "sample_hmac algorithm secret payload = algorithm @ ''.'' @ secret @ ''.'' @ payload"

definition sample_row_draw :: row_draw where
  "sample_row_draw = \<lparr>rw_id = ''g1'', rw_created = 0, rw_nonce = []\<rparr>"

definition signed_config :: "(string, json) dict" where
  "signed_config = [(''auth'', JObj [(''type'', JStr ''HMAC''), (''secret'', JStr ''0123456789abcdef'')]),
    (''rate_limit'', JObj [(''enabled'', JBool True), (''max_events'', JInt 1), (''window_seconds'', JInt 60)])]"

definition sample_delivery :: delivery where
  "sample_delivery = \<lparr>dv_headers = [(''x-signature-256'', ''sha256=sha256.0123456789abcdef.{}'')],
    dv_raw_body = ''{}'', dv_payload = []\<rparr>"

definition sample_ingest :: "instant \<Rightarrow> ingest_draw" where
  "sample_ingest now = \<lparr>ig_clock = now, ig_created = now, ig_event_id = ''v1'', ig_execution_id = ''e9''\<rparr>"

theorem accepted_webhook_is_signed_witness:
  "\<exists>t s1 st s2 secret algorithm payload name sig.
    create_trigger sample_row_draw ''pub'' ''t1'' ''w1'' ''u1'' ''webhook'' signed_config (sample_db ExCompleted 0) = (Inr t, s1) \<and>
    ingest_webhook sample_hmac (sample_ingest 5) ''pub'' sample_delivery s1 = (Inr (''e9'', st), s2) \<and>
    (name, sig) \<in> set (dv_headers sample_delivery) \<and>
    sample_hmac algorithm secret payload = py_strip (after_equals sig) \<and> 16 \<le> length secret"
proof -
  let ?c = "create_trigger sample_row_draw ''pub'' ''t1'' ''w1'' ''u1'' ''webhook'' signed_config (sample_db ExCompleted 0)"
  let ?i = "ingest_webhook sample_hmac (sample_ingest 5) ''pub'' sample_delivery (snd ?c)"
  have "\<not> isl (fst ?c)" by code_simp
  then obtain t s1 where c: "?c = (Inr t, s1)" by (metis isl_def prod.collapse sum.collapse(2))
  have "case fst ?i of Inr x \<Rightarrow> fst x = ''e9'' | Inl _ \<Rightarrow> False" by code_simp
  then obtain st s2 where i: "ingest_webhook sample_hmac (sample_ingest 5) ''pub'' sample_delivery s1 = (Inr (''e9'', st), s2)"
    unfolding c by (cases "ingest_webhook sample_hmac (sample_ingest 5) ''pub'' sample_delivery s1") (auto split: sum.splits)
  have hm: "webhook_auth_type signed_config = ''hmac''" by code_simp
  have "map_option Inr (find_trigger ''pub'' (snd ?c)) = Some (fst ?c)" by code_simp
  then have f: "find_trigger ''pub'' s1 = Some t" unfolding c by auto
  from accepted_webhook_is_signed [OF c hm f i] c i show ?thesis by blast
qed

text \<open>
  C17: the rate limit of a trigger holds over its whole life, for deliveries handled one at a time. In
  every state the system reaches from the empty database, whatever deliveries, new triggers and other
  operations came before, no interval that is \<open>delta\<close> shorter than the trigger's window holds more
  events of the trigger than its limit, where \<open>delta\<close> bounds how far the backend's clock at the check
  is ahead of the start of the delivery's transaction, which stamps its event.
\<close>

theorem webhook_rate_limit_holds:
  assumes "reachable (\<lambda>s. s = empty_db) (webhook_step hmac delta) s" "t \<in> set (triggers s)"
    and "get_trigger_rate_limit (obj_or_empty (tg_config t)) = Inr (Some (max_events, window))"
  shows "int (row_count (\<lambda>e. we_tenant_id e = tg_tenant_id t \<and> we_trigger_id e = tg_id t \<and>
    from \<le> we_created_at e \<and> we_created_at e \<le> from + (seconds window - delta)) (webhook_events s)) \<le> max_events"
proof -
  have "windows_within max_events (seconds window - delta) (event_times t s)"
    using webhooks.reachable_inv [OF assms(1)] assms(2,3)
    unfolding limits_kept_def rate_limit_of_def by auto
  then have "int (count_within from (seconds window - delta) (event_times t s)) \<le> max_events"
    unfolding windows_within_def by blast
  then show ?thesis
    by (simp add: count_within_def event_times_def row_count_def filter_map comp_def conj_ac)
qed

text \<open>A delivery checked two microseconds after its transaction began.\<close>

definition slow_ingest :: "instant \<Rightarrow> ingest_draw" where
  "slow_ingest now = (sample_ingest now)\<lparr>ig_clock := now + 2\<rparr>"

theorem webhook_rate_limit_holds_witness:
  "\<exists>s. reachable (\<lambda>s. s = empty_db) (webhook_step sample_hmac 2) s \<and> length (webhook_events s) = 1 \<and>
    int (row_count (\<lambda>e. we_tenant_id e = ''t1'' \<and> we_trigger_id e = ''g1'' \<and>
      0 \<le> we_created_at e \<and> we_created_at e \<le> seconds 60 - 2) (webhook_events s)) \<le> 1"
proof -
  let ?c = "create_trigger sample_row_draw ''pub'' ''t1'' ''w1'' ''u1'' ''webhook'' signed_config (sample_db ExCompleted 0)"
  let ?i = "ingest_webhook sample_hmac (slow_ingest 5) ''pub'' sample_delivery (snd ?c)"
  have none: "webhook_events (snd ?c) = []" by code_simp
  have "reachable (\<lambda>s. s = empty_db) (webhook_step sample_hmac 2) empty_db"
    by (rule reachable.base) simp
  moreover have "webhook_step sample_hmac 2 empty_db (sample_db ExCompleted 0)"
    by (rule webhook_step.elsewhere) (simp_all add: sample_db_def empty_db_def)
  moreover have "webhook_step sample_hmac 2 (sample_db ExCompleted 0) (snd ?c)"
    by (rule webhook_step.new_trigger [OF prod.collapse [symmetric]]) (simp_all add: sample_db_def empty_db_def)
  moreover have "webhook_step sample_hmac 2 (snd ?c) (snd ?i)"
    by (rule webhook_step.deliver [OF prod.collapse [symmetric]]) (simp_all add: slow_ingest_def sample_ingest_def none)
  ultimately have r: "reachable (\<lambda>s. s = empty_db) (webhook_step sample_hmac 2) (snd ?i)"
    by (blast intro: reachable.more)
  have tg: "map tg_id (triggers (snd ?i)) = [''g1'']" "map tg_tenant_id (triggers (snd ?i)) = [''t1'']"
    "map (\<lambda>t. get_trigger_rate_limit (obj_or_empty (tg_config t))) (triggers (snd ?i)) = [Inr (Some (1, 60))]"
    "length (webhook_events (snd ?i)) = 1" by code_simp+
  then obtain t where t: "triggers (snd ?i) = [t]" "tg_id t = ''g1''" "tg_tenant_id t = ''t1''"
    "get_trigger_rate_limit (obj_or_empty (tg_config t)) = Inr (Some (1, 60))" by auto
  from webhook_rate_limit_holds [OF r _ t(4), of 0] t(1) have
    "int (row_count (\<lambda>e. we_tenant_id e = ''t1'' \<and> we_trigger_id e = ''g1'' \<and>
      0 \<le> we_created_at e \<and> we_created_at e \<le> 0 + (seconds 60 - 2)) (webhook_events (snd ?i))) \<le> 1"
    unfolding t(2,3) by simp
  then have "int (row_count (\<lambda>e. we_tenant_id e = ''t1'' \<and> we_trigger_id e = ''g1'' \<and>
      0 \<le> we_created_at e \<and> we_created_at e \<le> seconds 60 - 2) (webhook_events (snd ?i))) \<le> 1"
    by simp
  with r tg(4) show ?thesis by blast
qed

end
