(* ===== verification/Workflows.thy ===== *)
theory Workflows
  imports Connectors Auth PlanWorker
begin

text \<open>
  The editing of workflows and of their agents: \<open>app/services/workflow_service.py\<close>,
  \<open>app/services/agent_service.py\<close>, and the request schemas \<open>app/schemas/workflow.py\<close> and
  \<open>app/schemas/agent_config.py\<close> that every request passes first. The column \<open>updated_at\<close>, which
  only the listing of workflows reads, is an argument of it.
\<close>

section \<open>The values a row may hold\<close>

definition VALID_ROLES :: "string list" where
  "VALID_ROLES = [''analyzer'', ''custom'', ''escalator'', ''retriever'', ''validator'']"

definition VALID_MODELS :: "string list" where
  "VALID_MODELS = [''claude-opus'', ''claude-sonnet'', ''gpt-4o'', ''gpt-4o-mini'']"

definition VALID_MEMORY_TYPES :: "string list" where
  "VALID_MEMORY_TYPES = [''buffer'', ''summary'', ''vector'']"

definition EXECUTION_PATTERNS :: "string list" where
  "EXECUTION_PATTERNS = [''linear'', ''parallel'', ''cyclic'']"

text \<open>An optional value satisfies a limit when it is absent or within it.\<close>

definition if_given :: "('a \<Rightarrow> bool) \<Rightarrow> 'a option \<Rightarrow> bool" where
  "if_given p v = (case v of None \<Rightarrow> True | Some x \<Rightarrow> p x)"

definition valid_workflow_create :: "string \<Rightarrow> string \<Rightarrow> string \<Rightarrow> bool" where
  "valid_workflow_create name description pattern \<longleftrightarrow>
    length_within 1 255 name \<and> length description \<le> 2000 \<and> pattern \<in> set EXECUTION_PATTERNS"

definition valid_workflow_update :: "string option \<Rightarrow> string option \<Rightarrow> string option \<Rightarrow> bool" where
  "valid_workflow_update name description pattern \<longleftrightarrow>
    if_given (length_within 1 255) name \<and> if_given (\<lambda>d. length d \<le> 2000) description \<and>
    if_given (\<lambda>p. p \<in> set EXECUTION_PATTERNS) pattern"

record agent_fields =
  af_node_id :: string
  af_name :: string
  af_role :: string
  af_system_prompt :: string
  af_model :: string
  af_tools :: "json list"
  af_memory_type :: string
  af_max_tokens :: int
  af_temperature :: rat

record agent_change =
  ag_name :: "string option"
  ag_role :: "string option"
  ag_system_prompt :: "string option"
  ag_model :: "string option"
  ag_tools :: "json list option"
  ag_memory_type :: "string option"
  ag_max_tokens :: "int option"
  ag_temperature :: "rat option"

definition token_limit :: "int \<Rightarrow> bool" where
  "token_limit n \<longleftrightarrow> 256 \<le> n \<and> n \<le> 16384"

definition temperature_range :: "rat \<Rightarrow> bool" where
  "temperature_range x \<longleftrightarrow> 0 \<le> x \<and> x \<le> 2"

definition valid_agent_create :: "agent_fields \<Rightarrow> bool" where
  "valid_agent_create a \<longleftrightarrow> length_within 1 255 (af_node_id a) \<and> length_within 1 255 (af_name a) \<and>
    list_all is_obj (af_tools a) \<and> token_limit (af_max_tokens a) \<and> temperature_range (af_temperature a)"

definition valid_agent_update :: "agent_change \<Rightarrow> bool" where
  "valid_agent_update a \<longleftrightarrow> if_given (length_within 1 255) (ag_name a) \<and>
    if_given (list_all is_obj) (ag_tools a) \<and> if_given token_limit (ag_max_tokens a) \<and>
    if_given temperature_range (ag_temperature a)"

section \<open>Workflows\<close>

definition active_workflow :: "uuid \<Rightarrow> workflow \<Rightarrow> bool" where
  "active_workflow tid w \<longleftrightarrow> wf_tenant_id w = tid \<and> wf_is_active w"

definition limit_reached :: http_error where
  "limit_reached = HTTPException 422 ''Workflow limit reached. Upgrade your plan.''"

definition no_row :: http_error where
  "no_row = internal_error ''No row was found when one was required''"

text \<open>\<open>None\<close>: the tenant has room for one more workflow.\<close>

definition workflow_limit :: "uuid \<Rightarrow> db \<Rightarrow> http_error option" where
  "workflow_limit tid s =
    (case find_tenant tid s of
      None \<Rightarrow> Some no_row
    | Some t \<Rightarrow> if int (row_count (active_workflow tid) (workflows s)) \<ge> tn_max_workflows t
        then Some limit_reached else None)"

definition new_workflow ::
  "uuid \<Rightarrow> instant \<Rightarrow> uuid \<Rightarrow> uuid \<Rightarrow> string \<Rightarrow> string \<Rightarrow> graph_def \<Rightarrow> string \<Rightarrow> workflow" where
  "new_workflow new_id now tid uid name description d pattern =
    \<lparr>wf_id = new_id, wf_tenant_id = tid, wf_name = name, wf_description = description, wf_definition = d,
     wf_execution_pattern = pattern, wf_is_active = True, wf_dispatch_paused = False,
     wf_dispatch_paused_at = None, wf_dispatch_paused_by = None, wf_created_by = Some uid, wf_created_at = now\<rparr>"

definition add_workflow :: "workflow \<Rightarrow> (workflow, db) svc" where
  "add_workflow w s = (Inr w, s\<lparr>workflows := workflows s @ [w]\<rparr>)"

definition create_workflow ::
  "uuid \<Rightarrow> instant \<Rightarrow> uuid \<Rightarrow> uuid \<Rightarrow> string \<Rightarrow> string \<Rightarrow> string \<Rightarrow> (workflow, db) svc" where
  "create_workflow new_id now tid uid name description pattern s =
    (case workflow_limit tid s of
      Some err \<Rightarrow> (Inl err, s)
    | None \<Rightarrow> add_workflow (new_workflow new_id now tid uid name description
        \<lparr>df_nodes = [], df_edges = []\<rparr> pattern) s)"

text \<open>\<open>ILIKE\<close> over lower-case text: \<open>%\<close>, \<open>_\<close> and the escape character of PostgreSQL.\<close>

fun like :: "string \<Rightarrow> string \<Rightarrow> bool" where
  "like [] x = (x = [])"
| "like (p # ps) x =
    (if p = CHR ''%'' then list_ex (like ps) (suffixes x)
     else if p = CHR 0x5C then
       (case (ps, x) of (q # qs, c # y) \<Rightarrow> c = q \<and> like qs y | _ \<Rightarrow> False)
     else (case x of [] \<Rightarrow> False | c # y \<Rightarrow> (p = CHR ''_'' \<or> c = p) \<and> like ps y))"

definition ilike :: "string \<Rightarrow> string \<Rightarrow> bool" where
  "ilike pattern x = like (py_lower pattern) (py_lower x)"

definition workflow_matches :: "uuid \<Rightarrow> string option \<Rightarrow> workflow \<Rightarrow> bool" where
  "workflow_matches tid search w \<longleftrightarrow> active_workflow tid w \<and>
    (case search of None \<Rightarrow> True | Some x \<Rightarrow> x = [] \<or> ilike (''%'' @ x @ ''%'') (wf_name w))"

definition list_workflows ::
  "(uuid \<Rightarrow> instant) \<Rightarrow> uuid \<Rightarrow> nat \<Rightarrow> nat \<Rightarrow> string option \<Rightarrow> db \<Rightarrow> workflow list \<times> nat" where
  "list_workflows updated_at tid page per_page search s =
    (take per_page (drop ((page - 1) * per_page)
       (sort_key (\<lambda>w. - updated_at (wf_id w)) (filter (workflow_matches tid search) (workflows s)))),
     row_count (workflow_matches tid search) (workflows s))"

text \<open>\<open>get_workflow\<close> is the look-up of the execution service; the three copies are alike.\<close>

definition update_workflow_row :: "uuid \<Rightarrow> (workflow \<Rightarrow> workflow) \<Rightarrow> db \<Rightarrow> db" where
  "update_workflow_row wid f s = s\<lparr>workflows := row_update (\<lambda>w. wf_id w = wid) f (workflows s)\<rparr>"

definition change_workflow :: "uuid \<Rightarrow> uuid \<Rightarrow> (workflow \<Rightarrow> workflow) \<Rightarrow> (workflow, db) svc" where
  "change_workflow tid wid f s =
    (case get_workflow tid wid s of
      Inl err \<Rightarrow> (Inl err, s)
    | Inr w \<Rightarrow> (Inr (f w), update_workflow_row wid f s))"

definition definition_error :: "graph_def option \<Rightarrow> http_error option" where
  "definition_error d =
    (case d of
      None \<Rightarrow> None
    | Some g \<Rightarrow>
       if df_nodes g = [] \<and> df_edges g = [] then None
       else case validate_definition g of
         None \<Rightarrow> None
       | Some e \<Rightarrow> Some (HTTPException 400 (''Invalid workflow graph: '' @ compilation_message e)))"

definition given_or :: "'a \<Rightarrow> 'a option \<Rightarrow> 'a" where
  "given_or old v = (case v of None \<Rightarrow> old | Some x \<Rightarrow> x)"

definition update_workflow ::
  "uuid \<Rightarrow> uuid \<Rightarrow> string option \<Rightarrow> string option \<Rightarrow> graph_def option \<Rightarrow> string option \<Rightarrow> (workflow, db) svc" where
  "update_workflow tid wid name description d pattern s =
    (case get_workflow tid wid s of
      Inl err \<Rightarrow> (Inl err, s)
    | Inr w \<Rightarrow>
       (case definition_error d of
         Some err \<Rightarrow> (Inl err, s)
       | None \<Rightarrow> change_workflow tid wid (\<lambda>x. x\<lparr>wf_name := given_or (wf_name x) name,
           wf_description := given_or (wf_description x) description,
           wf_definition := given_or (wf_definition x) d,
           wf_execution_pattern := given_or (wf_execution_pattern x) pattern\<rparr>) s))"

definition pause_workflow_dispatch :: "instant \<Rightarrow> uuid \<Rightarrow> uuid \<Rightarrow> uuid \<Rightarrow> (workflow, db) svc" where
  "pause_workflow_dispatch now tid wid uid = change_workflow tid wid
    (\<lambda>w. w\<lparr>wf_dispatch_paused := True, wf_dispatch_paused_at := Some now, wf_dispatch_paused_by := Some uid\<rparr>)"

definition resume_workflow_dispatch :: "uuid \<Rightarrow> uuid \<Rightarrow> (workflow, db) svc" where
  "resume_workflow_dispatch tid wid = change_workflow tid wid
    (\<lambda>w. w\<lparr>wf_dispatch_paused := False, wf_dispatch_paused_at := None, wf_dispatch_paused_by := None\<rparr>)"

definition duplicate_workflow :: "uuid \<Rightarrow> instant \<Rightarrow> uuid \<Rightarrow> uuid \<Rightarrow> uuid \<Rightarrow> (workflow, db) svc" where
  "duplicate_workflow new_id now tid uid wid s =
    (case get_workflow tid wid s of
      Inl err \<Rightarrow> (Inl err, s)
    | Inr w \<Rightarrow>
       (case workflow_limit tid s of
         Some err \<Rightarrow> (Inl err, s)
       | None \<Rightarrow> add_workflow (new_workflow new_id now tid uid (wf_name w @ '' (Copy)'') (wf_description w)
           (wf_definition w) (wf_execution_pattern w)) s))"

definition delete_workflow :: "uuid \<Rightarrow> uuid \<Rightarrow> (unit, db) svc" where
  "delete_workflow tid wid s =
    (case get_workflow tid wid s of
      Inl err \<Rightarrow> (Inl err, s)
    | Inr w \<Rightarrow>
       if row_count (\<lambda>e. active tid e \<and> ex_workflow_id e = wid) (executions s) > 0
       then (Inl (HTTPException 409 ''Cannot delete workflow with pending or running executions.''), s)
       else (Inr (), update_workflow_row wid (\<lambda>x. x\<lparr>wf_is_active := False\<rparr>) s))"

section \<open>Agents\<close>

definition one_of :: "string \<Rightarrow> string list \<Rightarrow> string \<Rightarrow> http_error option" where
  "one_of what allowed x =
    (if x \<in> set allowed then None
     else Some (HTTPException 400 (''Invalid '' @ what @ '' '' @ quoted x @ ''. Must be one of: '' @ join '', '' allowed)))"

text \<open>The first of the three checks that fails.\<close>

definition validate_fields :: "string option \<Rightarrow> string option \<Rightarrow> string option \<Rightarrow> http_error option" where
  "validate_fields role model memory_type =
    (case Option.bind role (one_of ''role'' VALID_ROLES) of
      Some err \<Rightarrow> Some err
    | None \<Rightarrow>
       (case Option.bind model (one_of ''model'' VALID_MODELS) of
         Some err \<Rightarrow> Some err
       | None \<Rightarrow> Option.bind memory_type (one_of ''memory_type'' VALID_MEMORY_TYPES)))"

definition agent_of :: "uuid \<Rightarrow> uuid \<Rightarrow> agent_config \<Rightarrow> bool" where
  "agent_of tid wid a \<longleftrightarrow> ac_workflow_id a = wid \<and> ac_tenant_id a = tid"

definition list_agents :: "uuid \<Rightarrow> uuid \<Rightarrow> db \<Rightarrow> http_error + agent_config list" where
  "list_agents tid wid s =
    (case get_workflow tid wid s of
      Inl err \<Rightarrow> Inl err
    | Inr w \<Rightarrow> Inr (sort_key ac_created_at (filter (agent_of tid wid) (agent_configs s))))"

definition new_agent :: "uuid \<Rightarrow> instant \<Rightarrow> uuid \<Rightarrow> uuid \<Rightarrow> agent_fields \<Rightarrow> agent_config" where
  "new_agent new_id now tid wid a =
    \<lparr>ac_id = new_id, ac_tenant_id = tid, ac_workflow_id = wid, ac_node_id = af_node_id a, ac_name = af_name a,
     ac_role = af_role a, ac_system_prompt = af_system_prompt a, ac_model = af_model a, ac_tools = af_tools a,
     ac_memory_type = af_memory_type a, ac_max_tokens = af_max_tokens a, ac_temperature = af_temperature a,
     ac_created_at = now\<rparr>"

definition create_agent :: "uuid \<Rightarrow> instant \<Rightarrow> uuid \<Rightarrow> uuid \<Rightarrow> agent_fields \<Rightarrow> (agent_config, db) svc" where
  "create_agent new_id now tid wid a s =
    (case get_workflow tid wid s of
      Inl err \<Rightarrow> (Inl err, s)
    | Inr w \<Rightarrow>
       (case validate_fields (Some (af_role a)) (Some (af_model a)) (Some (af_memory_type a)) of
         Some err \<Rightarrow> (Inl err, s)
       | None \<Rightarrow>
          (case find_tenant tid s of
            None \<Rightarrow> (Inl (HTTPException 404 ''Tenant not found''), s)
          | Some t \<Rightarrow>
             if int (row_count (agent_of tid wid) (agent_configs s)) \<ge> tn_max_agents_per_workflow t then
               (Inl (HTTPException 422 (''Agent limit reached ('' @ show_int (tn_max_agents_per_workflow t) @
                 '' per workflow)'')), s)
             else if list_ex (\<lambda>x. ac_workflow_id x = wid \<and> ac_node_id x = af_node_id a) (agent_configs s) then
               (Inl (HTTPException 409 (''Agent config for node '' @ quoted (af_node_id a) @
                 '' already exists in this workflow'')), s)
             else (let row = new_agent new_id now tid wid a in
               (Inr row, s\<lparr>agent_configs := agent_configs s @ [row]\<rparr>)))))"

definition find_agent :: "uuid \<Rightarrow> uuid \<Rightarrow> uuid \<Rightarrow> db \<Rightarrow> http_error + agent_config" where
  "find_agent tid wid aid s =
    (case row_find (\<lambda>a. ac_id a = aid \<and> agent_of tid wid a) (agent_configs s) of
      None \<Rightarrow> Inl (HTTPException 404 ''Agent config not found'')
    | Some a \<Rightarrow> Inr a)"

definition change_agent :: "agent_change \<Rightarrow> agent_config \<Rightarrow> agent_config" where
  "change_agent c a = a\<lparr>ac_name := given_or (ac_name a) (ag_name c), ac_role := given_or (ac_role a) (ag_role c),
    ac_system_prompt := given_or (ac_system_prompt a) (ag_system_prompt c),
    ac_model := given_or (ac_model a) (ag_model c), ac_tools := given_or (ac_tools a) (ag_tools c),
    ac_memory_type := given_or (ac_memory_type a) (ag_memory_type c),
    ac_max_tokens := given_or (ac_max_tokens a) (ag_max_tokens c),
    ac_temperature := given_or (ac_temperature a) (ag_temperature c)\<rparr>"

definition update_agent_row :: "uuid \<Rightarrow> (agent_config \<Rightarrow> agent_config) \<Rightarrow> db \<Rightarrow> db" where
  "update_agent_row aid f s = s\<lparr>agent_configs := row_update (\<lambda>a. ac_id a = aid) f (agent_configs s)\<rparr>"

definition update_agent :: "uuid \<Rightarrow> uuid \<Rightarrow> uuid \<Rightarrow> agent_change \<Rightarrow> (agent_config, db) svc" where
  "update_agent tid wid aid c s =
    (case get_workflow tid wid s of
      Inl err \<Rightarrow> (Inl err, s)
    | Inr w \<Rightarrow>
       (case validate_fields (ag_role c) (ag_model c) (ag_memory_type c) of
         Some err \<Rightarrow> (Inl err, s)
       | None \<Rightarrow>
          (case find_agent tid wid aid s of
            Inl err \<Rightarrow> (Inl err, s)
          | Inr a \<Rightarrow> (Inr (change_agent c a), update_agent_row aid (change_agent c) s))))"

text \<open>
  The rows that refer to a deleted agent, its log rows and its suggestions, have a nullable column:
  the session sets it to null first.
\<close>

definition delete_agent :: "uuid \<Rightarrow> uuid \<Rightarrow> uuid \<Rightarrow> (unit, db) svc" where
  "delete_agent tid wid aid s =
    (case get_workflow tid wid s of
      Inl err \<Rightarrow> (Inl err, s)
    | Inr w \<Rightarrow>
       (case find_agent tid wid aid s of
         Inl err \<Rightarrow> (Inl err, s)
       | Inr a \<Rightarrow> (Inr (), s\<lparr>agent_configs := filter (\<lambda>x. ac_id x \<noteq> aid) (agent_configs s),
           execution_logs := map (\<lambda>l. l\<lparr>lg_agent_config_id := unlink aid (lg_agent_config_id l)\<rparr>) (execution_logs s),
           suggestions := map (\<lambda>r. r\<lparr>fs_agent_config_id := unlink aid (fs_agent_config_id r)\<rparr>) (suggestions s)\<rparr>)))"

section \<open>Searching\<close>

lemma like_literal:
  assumes "\<forall>c \<in> set ps. c \<notin> {CHR ''%'', CHR ''_'', CHR 0x5C}"
  shows "like (ps @ qs) x \<longleftrightarrow> prefix ps x \<and> like qs (drop (length ps) x)"
  using assms by (induction ps arbitrary: x) (auto split: list.splits)

lemma like_any: "like ''%'' x"
  by (auto simp: list_ex_iff)

lemma lower_char_wild: "lower_char c \<in> {CHR ''%'', CHR ''_'', CHR 0x5C} \<longleftrightarrow> c \<in> {CHR ''%'', CHR ''_'', CHR 0x5C}"
proof (cases c)
  case (Char b0 b1 b2 b3 b4 b5 b6 b7)
  show ?thesis unfolding Char
    by (cases b0; cases b1; cases b2; cases b3; cases b4; cases b5; cases b6; cases b7;
        simp add: lower_char_def char_of_eq_iff)
qed

text \<open>A search text without the three special characters is found wherever it occurs, case ignored.\<close>

lemma ilike_occurs:
  assumes "\<forall>c \<in> set x. c \<notin> {CHR ''%'', CHR ''_'', CHR 0x5C}"
  shows "ilike (''%'' @ x @ ''%'') name \<longleftrightarrow> occurs_in (py_lower x) (py_lower name)"
proof -
  have w: "\<forall>c \<in> set (py_lower x). c \<notin> {CHR ''%'', CHR ''_'', CHR 0x5C}"
    using assms lower_char_wild by (auto simp: py_lower_def)
  have pct: "py_lower (''%'' @ x @ ''%'') = CHR ''%'' # py_lower x @ ''%''"
    by (simp add: py_lower_def lower_char_def)
  have "like (CHR ''%'' # py_lower x @ ''%'') n \<longleftrightarrow> (\<exists>y. suffix y n \<and> prefix (py_lower x) y)" for n
    by (subst like.simps) (auto simp: like_literal [OF w] like_any list_ex_iff simp del: like.simps)
  also have "(\<exists>y. suffix y n \<and> prefix (py_lower x) y) \<longleftrightarrow> occurs_in (py_lower x) n" for n
    by (auto simp: occurs_in_sublist sublist_altdef')
  finally show ?thesis unfolding ilike_def pct .
qed

text \<open>The special characters are not escaped: a search for an underscore finds every name.\<close>

lemma underscore_matches_all: "x \<noteq> [] \<Longrightarrow> ilike ''%_%'' x"
  by (cases x) (auto simp: ilike_def py_lower_def lower_char_def list_ex_iff intro!: exI [of _ "map lower_char x"])


section \<open>What the tables hold\<close>

definition well_typed_workflow :: "workflow \<Rightarrow> bool" where
  "well_typed_workflow w \<longleftrightarrow> wf_name w \<noteq> [] \<and> wf_execution_pattern w \<in> set EXECUTION_PATTERNS \<and>
    (df_nodes (wf_definition w) = [] \<and> df_edges (wf_definition w) = [] \<or> well_formed_graph (wf_definition w)) \<and>
    (wf_dispatch_paused w \<longrightarrow> wf_dispatch_paused_at w \<noteq> None) \<and>
    (wf_dispatch_paused_at w = None \<longleftrightarrow> wf_dispatch_paused_by w = None)"

definition well_typed_agent :: "agent_config \<Rightarrow> bool" where
  "well_typed_agent a \<longleftrightarrow> ac_node_id a \<noteq> [] \<and> ac_name a \<noteq> [] \<and> ac_role a \<in> set VALID_ROLES \<and>
    ac_model a \<in> set VALID_MODELS \<and> ac_memory_type a \<in> set VALID_MEMORY_TYPES \<and> list_all is_obj (ac_tools a) \<and>
    token_limit (ac_max_tokens a) \<and> temperature_range (ac_temperature a)"

definition tables_typed :: "db \<Rightarrow> bool" where
  "tables_typed s \<longleftrightarrow> list_all well_typed_workflow (workflows s) \<and> list_all well_typed_agent (agent_configs s)"

definition node_key :: "agent_config \<Rightarrow> uuid \<times> string" where
  "node_key a = (ac_workflow_id a, ac_node_id a)"

definition tenant_within :: "db \<Rightarrow> tenant \<Rightarrow> bool" where
  "tenant_within s t \<longleftrightarrow> int (row_count (active_workflow (tn_id t)) (workflows s)) \<le> tn_max_workflows t \<and>
    (\<forall>wid. int (row_count (agent_of (tn_id t) wid) (agent_configs s)) \<le> tn_max_agents_per_workflow t)"

definition plans_kept :: "db \<Rightarrow> bool" where
  "plans_kept s \<longleftrightarrow> distinct (map tn_id (tenants s)) \<and> (\<forall>t \<in> set (tenants s). tenant_within s t) \<and>
    distinct (map node_key (agent_configs s))"

definition catalog_ok :: "db \<Rightarrow> bool" where
  "catalog_ok s \<longleftrightarrow> tables_typed s \<and> plans_kept s"

definition limits_of :: "tenant \<Rightarrow> uuid \<times> int \<times> int" where
  "limits_of t = (tn_id t, tn_max_workflows t, tn_max_agents_per_workflow t)"

text \<open>
  The system as the catalogue sees it: requests that passed their schema, registrations with a fresh
  tenant, the repair of an agent's model, the resumption of a tenant's workflows by the plan worker,
  which clears the flag and not the time and the user; everything else leaves the catalogue alone, up
  to the creator of a workflow, which the removal of a user clears.
\<close>

inductive catalog_step :: "db \<Rightarrow> db \<Rightarrow> bool" where
  create_workflow: "create_workflow i now tid uid name description pattern s = (r, s') \<Longrightarrow>
    valid_workflow_create name description pattern \<Longrightarrow> catalog_step s s'"
| update_workflow: "update_workflow tid wid name description d pattern s = (r, s') \<Longrightarrow>
    valid_workflow_update name description pattern \<Longrightarrow> catalog_step s s'"
| pause: "pause_workflow_dispatch now tid wid uid s = (r, s') \<Longrightarrow> catalog_step s s'"
| resume: "resume_workflow_dispatch tid wid s = (r, s') \<Longrightarrow> catalog_step s s'"
| duplicate: "duplicate_workflow i now tid uid wid s = (r, s') \<Longrightarrow> catalog_step s s'"
| delete_workflow: "delete_workflow tid wid s = (u, s') \<Longrightarrow> catalog_step s s'"
| create_agent: "create_agent i now tid wid a s = (q, s') \<Longrightarrow> valid_agent_create a \<Longrightarrow> catalog_step s s'"
| update_agent: "update_agent tid wid aid c s = (q, s') \<Longrightarrow> valid_agent_update c \<Longrightarrow> catalog_step s s'"
| delete_agent: "delete_agent tid wid aid s = (u, s') \<Longrightarrow> catalog_step s s'"
| register: "register cy dw email password full_name tenant_name s = (g, s') \<Longrightarrow>
    dw_tenant_id dw \<notin> tn_id ` set (tenants s) \<union> wf_tenant_id ` set (workflows s) \<union> ac_tenant_id ` set (agent_configs s) \<Longrightarrow>
    catalog_step s s'"
| repair: "m \<in> set VALID_MODELS \<Longrightarrow> catalog_step s (update_agent_row aid (\<lambda>a. a\<lparr>ac_model := m\<rparr>) s)"
| automation: "catalog_step s (resume_workflows tid s)"
| elsewhere: "map (\<lambda>w. w\<lparr>wf_created_by := None\<rparr>) (workflows s') = map (\<lambda>w. w\<lparr>wf_created_by := None\<rparr>) (workflows s) \<Longrightarrow>
    agent_configs s' = agent_configs s \<Longrightarrow> map limits_of (tenants s') = map limits_of (tenants s) \<Longrightarrow> catalog_step s s'"

lemma find_tenant_SomeD: "find_tenant tid s = Some t \<Longrightarrow> t \<in> set (tenants s) \<and> tn_id t = tid"
  by (auto simp: find_tenant_def dest: row_find_SomeD)

lemma find_tenant_unique:
  assumes "plans_kept s" "find_tenant tid s = Some t" "u \<in> set (tenants s)" "tn_id u = tid"
  shows "u = t"
  using assms find_tenant_SomeD [OF assms(2)] by (auto simp: plans_kept_def distinct_map dest: inj_onD)

lemma catalog_ok_add_workflow:
  assumes "catalog_ok s" "workflow_limit tid s = None" "well_typed_workflow w" "wf_tenant_id w = tid"
  shows "catalog_ok (s\<lparr>workflows := workflows s @ [w]\<rparr>)"
proof -
  obtain t where t: "find_tenant tid s = Some t" "int (row_count (active_workflow tid) (workflows s)) < tn_max_workflows t"
    using assms(2) by (auto simp: workflow_limit_def split: option.splits if_splits)
  have pk: "plans_kept s" using assms(1) by (simp add: catalog_ok_def)
  have "tenant_within (s\<lparr>workflows := workflows s @ [w]\<rparr>) u" if u: "u \<in> set (tenants s)" for u
  proof (cases "tn_id u = tid")
    case True
    with find_tenant_unique [OF pk t(1) u] have "u = t" by simp
    with pk u t True show ?thesis by (auto simp: plans_kept_def tenant_within_def)
  next
    case False
    then have "\<not> active_workflow (tn_id u) w" using assms(4) by (simp add: active_workflow_def)
    with pk u show ?thesis by (simp add: plans_kept_def tenant_within_def)
  qed
  with pk assms(1,3) show ?thesis by (simp add: catalog_ok_def plans_kept_def tables_typed_def)
qed

lemma catalog_ok_update_workflows:
  assumes "catalog_ok s" "\<And>w. w \<in> set (workflows s) \<Longrightarrow> well_typed_workflow w \<Longrightarrow> p w \<Longrightarrow> well_typed_workflow (f w)"
    and "\<And>w tid. active_workflow tid (f w) \<Longrightarrow> active_workflow tid w"
  shows "catalog_ok (s\<lparr>workflows := row_update p f (workflows s)\<rparr>)"
proof -
  have "tenant_within (s\<lparr>workflows := row_update p f (workflows s)\<rparr>) t" if "tenant_within s t" for t
    using that row_count_mono [of "workflows s" "active_workflow (tn_id t)" f p] assms(3)
    by (fastforce simp: tenant_within_def)
  moreover have "list_all well_typed_workflow (row_update p f (workflows s))"
    using assms(1,2) by (auto simp: catalog_ok_def tables_typed_def list_all_iff dest: row_update_memD)
  ultimately show ?thesis using assms(1) by (simp add: catalog_ok_def plans_kept_def tables_typed_def)
qed

lemma catalog_ok_change_workflow:
  assumes "catalog_ok s" "change_workflow tid wid f s = (r, s')"
    and "\<And>w. well_typed_workflow w \<Longrightarrow> well_typed_workflow (f w)"
    and "\<And>w. wf_tenant_id (f w) = wf_tenant_id w" "\<And>w. wf_is_active (f w) \<Longrightarrow> wf_is_active w"
  shows "catalog_ok s'"
  using assms catalog_ok_update_workflows [OF assms(1), of _ f]
  by (auto simp: change_workflow_def update_workflow_row_def active_workflow_def split: sum.splits)

lemma validate_fields_None:
  "validate_fields role model memory_type = None \<longleftrightarrow> if_given (\<lambda>x. x \<in> set VALID_ROLES) role \<and>
    if_given (\<lambda>x. x \<in> set VALID_MODELS) model \<and> if_given (\<lambda>x. x \<in> set VALID_MEMORY_TYPES) memory_type"
  by (auto simp: validate_fields_def if_given_def one_of_def split: option.splits if_splits)

lemma given_or_simps [simp]: "given_or x None = x" "given_or x (Some y) = y"
  by (simp_all add: given_or_def)

lemma given_or_keeps: "if_given p v \<Longrightarrow> p x \<Longrightarrow> p (given_or x v)"
  by (cases v) (simp_all add: if_given_def)

lemmas given_or_in = given_or_keeps [where p = "\<lambda>x. x \<in> A" for A]


lemma catalog_ok_update_workflow:
  assumes "catalog_ok s" "update_workflow tid wid name description d pattern s = (r, s')"
    and "valid_workflow_update name description pattern"
  shows "catalog_ok s'"
proof (cases "definition_error d")
  case None
  let ?f = "\<lambda>x. x\<lparr>wf_name := given_or (wf_name x) name,
    wf_description := given_or (wf_description x) description, wf_definition := given_or (wf_definition x) d,
    wf_execution_pattern := given_or (wf_execution_pattern x) pattern\<rparr>"
  have name: "given_or x name \<noteq> []" if "x \<noteq> []" for x
    using assms(3) that by (cases name) (auto simp: valid_workflow_update_def if_given_def length_within_def)
  have pat: "given_or x pattern \<in> set EXECUTION_PATTERNS" if "x \<in> set EXECUTION_PATTERNS" for x
    using assms(3) that by (simp add: valid_workflow_update_def given_or_in)
  have def: "df_nodes (given_or g d) = [] \<and> df_edges (given_or g d) = [] \<or> well_formed_graph (given_or g d)"
    if "df_nodes g = [] \<and> df_edges g = [] \<or> well_formed_graph g" for g
    using None that validate_None_iff by (cases d) (auto simp: definition_error_def split: if_splits option.splits)
  have f: "well_typed_workflow (?f w)" if "well_typed_workflow w" for w
    using that name pat def by (auto simp: well_typed_workflow_def)
  show ?thesis
  proof (cases "get_workflow tid wid s")
    case (Inr w)
    with assms(2) None have "change_workflow tid wid ?f s = (r, s')" by (simp add: update_workflow_def)
    then show ?thesis by (rule catalog_ok_change_workflow [OF assms(1)]) (use f in auto)
  qed (use assms in \<open>simp add: update_workflow_def\<close>)
qed (use assms in \<open>auto simp: update_workflow_def split: sum.splits\<close>)

lemma catalog_ok_new_workflow:
  assumes "catalog_ok s" "workflow_limit tid s = None" "name \<noteq> []" "pattern \<in> set EXECUTION_PATTERNS"
    and "df_nodes d = [] \<and> df_edges d = [] \<or> well_formed_graph d"
    and "add_workflow (new_workflow i now tid uid name description d pattern) s = (r, s')"
  shows "catalog_ok s'"
  using catalog_ok_add_workflow [OF assms(1,2)] assms(3-6)
  by (auto simp: add_workflow_def new_workflow_def well_typed_workflow_def)

lemma catalog_ok_create_agent:
  assumes "catalog_ok s" "create_agent i now tid wid a s = (q, s')" "valid_agent_create a"
  shows "catalog_ok s'"
proof (cases q)
  case (Inl err)
  with assms show ?thesis by (auto simp: create_agent_def Let_def split: sum.splits option.splits if_splits)
next
  case (Inr row)
  from assms(2) [unfolded Inr] obtain t where
    v: "validate_fields (Some (af_role a)) (Some (af_model a)) (Some (af_memory_type a)) = None"
    and t: "find_tenant tid s = Some t"
      "int (row_count (agent_of tid wid) (agent_configs s)) < tn_max_agents_per_workflow t"
    and new: "\<forall>x \<in> set (agent_configs s). ac_workflow_id x = wid \<longrightarrow> ac_node_id x \<noteq> af_node_id a"
    and s': "s' = s\<lparr>agent_configs := agent_configs s @ [new_agent i now tid wid a]\<rparr>"
    by (auto simp: create_agent_def Let_def list_ex_iff split: sum.splits option.splits if_splits)
  have pk: "plans_kept s" using assms(1) by (simp add: catalog_ok_def)
  have "tenant_within s' u" if u: "u \<in> set (tenants s)" for u
    unfolding tenant_within_def
  proof (intro conjI allI)
    from pk u have old: "tenant_within s u" by (simp add: plans_kept_def)
    then show "int (row_count (active_workflow (tn_id u)) (workflows s')) \<le> tn_max_workflows u"
      by (simp add: tenant_within_def s')
    fix x
    show "int (row_count (agent_of (tn_id u) x) (agent_configs s')) \<le> tn_max_agents_per_workflow u"
    proof (cases "agent_of (tn_id u) x (new_agent i now tid wid a)")
      case False
      with old show ?thesis by (simp add: tenant_within_def s')
    next
      case True
      then have "tn_id u = tid" "x = wid" by (auto simp: agent_of_def new_agent_def)
      with find_tenant_unique [OF pk t(1) u] t(2) True show ?thesis by (simp add: s')
    qed
  qed
  moreover have "well_typed_agent (new_agent i now tid wid a)"
    using v assms(3) by (auto simp: validate_fields_None if_given_def well_typed_agent_def new_agent_def
        valid_agent_create_def length_within_def)
  moreover have "distinct (map node_key (agent_configs s'))"
    using pk new by (auto simp: s' plans_kept_def node_key_def new_agent_def)
  ultimately show ?thesis using assms(1) by (simp add: catalog_ok_def plans_kept_def tables_typed_def s')
qed

lemma catalog_ok_agents:
  assumes "catalog_ok s" "list_all well_typed_agent as" "distinct (map node_key as)"
    and "\<And>tid wid. row_count (agent_of tid wid) as \<le> row_count (agent_of tid wid) (agent_configs s)"
    and "workflows s' = workflows s" "tenants s' = tenants s" "agent_configs s' = as"
  shows "catalog_ok s'"
proof -
  have "tenant_within s' t" if "tenant_within s t" for t
    unfolding tenant_within_def assms(5,7)
    using that by (auto simp: tenant_within_def intro: order_trans [OF of_nat_mono [OF assms(4)]])
  with assms(1,2,3,5,6,7) show ?thesis by (simp add: catalog_ok_def plans_kept_def tables_typed_def)
qed

lemma catalog_ok_update_agent_row:
  assumes "catalog_ok s" "\<And>a. well_typed_agent a \<Longrightarrow> well_typed_agent (f a)"
    and "\<And>a. node_key (f a) = node_key a" "\<And>a. ac_tenant_id (f a) = ac_tenant_id a"
  shows "catalog_ok (update_agent_row aid f s)"
proof (rule catalog_ok_agents [OF assms(1)])
  let ?as = "row_update (\<lambda>a. ac_id a = aid) f (agent_configs s)"
  show "list_all well_typed_agent ?as"
    using assms(1,2) by (auto simp: catalog_ok_def tables_typed_def list_all_iff dest: row_update_memD)
  show "distinct (map node_key ?as)"
    using assms(1,3) by (simp add: catalog_ok_def plans_kept_def map_row_update)
  show "row_count (agent_of tid wid) ?as \<le> row_count (agent_of tid wid) (agent_configs s)" for tid wid
    using assms(3,4) by (intro row_count_mono) (auto simp: agent_of_def node_key_def)
qed (simp_all add: update_agent_row_def)

lemma well_typed_change_agent:
  assumes "well_typed_agent a" "valid_agent_update c" "validate_fields (ag_role c) (ag_model c) (ag_memory_type c) = None"
  shows "well_typed_agent (change_agent c a)"
proof -
  have "if_given (\<lambda>x. x \<noteq> []) (ag_name c)"
    using assms(2) by (auto simp: valid_agent_update_def if_given_def length_within_def split: option.splits)
  from given_or_keeps [OF this] assms show ?thesis
    by (simp add: well_typed_agent_def change_agent_def validate_fields_None valid_agent_update_def given_or_keeps given_or_in)
qed

lemma row_count_filter_le: "row_count q (filter p rows) \<le> row_count q rows"
  by (induction rows) (auto simp: le_SucI)

lemma row_count_none: "\<forall>r \<in> set rows. \<not> p r \<Longrightarrow> row_count p rows = 0"
  by (simp add: row_count_def filter_empty_iff)

lemma catalog_ok_register:
  assumes "catalog_ok s" "register cy dw email password full_name tenant_name s = (g, s')"
    and "dw_tenant_id dw \<notin> tn_id ` set (tenants s) \<union> wf_tenant_id ` set (workflows s) \<union> ac_tenant_id ` set (agent_configs s)"
  shows "catalog_ok s'"
proof (cases g)
  case (Inl err)
  then have "s' = s" using assms(2)
    by (auto simp: register_def Let_def split: sum.splits option.splits if_splits prod.splits)
  with assms(1) show ?thesis by simp
next
  case (Inr v)
  then obtain slug where ten: "tenants s' = tenants s @ [new_tenant dw tenant_name slug]"
    and rest: "workflows s' = workflows s" "agent_configs s' = agent_configs s"
    using assms(2) by (auto simp: register_def Let_def issue_token_pair_def split: sum.splits option.splits if_splits)
  have "tenant_within s' (new_tenant dw tenant_name slug)"
    using assms(3) by (auto simp: tenant_within_def new_tenant_def rest active_workflow_def agent_of_def
        row_count_none image_iff intro!: order_trans [OF eq_refl [OF row_count_none]])
  moreover have "tenant_within s' t" if "tenant_within s t" for t
    using that by (simp add: tenant_within_def rest)
  ultimately show ?thesis
    using assms(1,3) by (auto simp: catalog_ok_def plans_kept_def tables_typed_def rest ten new_tenant_def)
qed


lemma well_typed_resumed: "well_typed_workflow w \<Longrightarrow> well_typed_workflow (w\<lparr>wf_dispatch_paused := False,
    wf_dispatch_paused_at := None, wf_dispatch_paused_by := None\<rparr>)"
  by (simp add: well_typed_workflow_def)

lemma well_typed_flag_cleared: "well_typed_workflow w \<Longrightarrow> well_typed_workflow (w\<lparr>wf_dispatch_paused := False\<rparr>)"
  by (auto simp: well_typed_workflow_def)

lemma well_typed_inactive: "well_typed_workflow w \<Longrightarrow> well_typed_workflow (w\<lparr>wf_is_active := False\<rparr>)"
  by (auto simp: well_typed_workflow_def)

text \<open>The plan worker leaves the record of the pause behind.\<close>

lemma resume_keeps_pause_record:
  "map (\<lambda>w. (wf_dispatch_paused_at w, wf_dispatch_paused_by w)) (workflows (resume_workflows tid s)) =
    map (\<lambda>w. (wf_dispatch_paused_at w, wf_dispatch_paused_by w)) (workflows s)"
  by (simp add: resume_workflows_def row_update_def)

lemma catalog_ok_elsewhere:
  assumes "catalog_ok s" "map (\<lambda>w. w\<lparr>wf_created_by := None\<rparr>) (workflows s') = map (\<lambda>w. w\<lparr>wf_created_by := None\<rparr>) (workflows s)"
    and "agent_configs s' = agent_configs s" "map limits_of (tenants s') = map limits_of (tenants s)"
  shows "catalog_ok s'"
proof -
  let ?strip = "\<lambda>w :: workflow. w\<lparr>wf_created_by := None\<rparr>"
  have typed: "list_all well_typed_workflow ws \<longleftrightarrow> list_all well_typed_workflow (map ?strip ws)" for ws
    by (induction ws) (simp_all add: well_typed_workflow_def)
  have count: "row_count (active_workflow tid) ws = row_count (active_workflow tid) (map ?strip ws)" for tid ws
    by (induction ws) (simp_all add: active_workflow_def)
  have "row_count (active_workflow tid) (workflows s') = row_count (active_workflow tid) (workflows s)" for tid
    unfolding count [of tid "workflows s'"] count [of tid "workflows s"] assms(2) ..
  then have within: "tenant_within s' t \<longleftrightarrow> tenant_within s t" for t
    by (simp add: tenant_within_def assms(3))
  have limits: "tenant_within s t \<longleftrightarrow> tenant_within s u" if "limits_of t = limits_of u" for t u
    using that by (simp add: tenant_within_def limits_of_def)
  have "\<exists>u \<in> set (tenants s). limits_of t = limits_of u" if "t \<in> set (tenants s')" for t
  proof -
    have "limits_of t \<in> set (map limits_of (tenants s))" unfolding assms(4) [symmetric] using that by simp
    then show ?thesis by auto
  qed
  with assms(1) limits within have "\<forall>t \<in> set (tenants s'). tenant_within s' t"
    unfolding catalog_ok_def plans_kept_def by blast
  moreover have "map tn_id (tenants s') = map tn_id (tenants s)"
    using arg_cong [OF assms(4), of "map fst"] by (simp add: comp_def limits_of_def)
  ultimately show ?thesis
    using assms(1,2,3) typed [of "workflows s"] typed [of "workflows s'"]
    by (simp add: catalog_ok_def plans_kept_def tables_typed_def)
qed

lemma catalog_ok_step: "catalog_step s s' \<Longrightarrow> catalog_ok s \<Longrightarrow> catalog_ok s'"
proof (induction rule: catalog_step.induct)
  case (create_workflow i now tid uid name description pattern s r s')
  then have "name \<noteq> []" "pattern \<in> set EXECUTION_PATTERNS"
    by (auto simp: valid_workflow_create_def length_within_def)
  with create_workflow catalog_ok_new_workflow [of s tid name pattern "\<lparr>df_nodes = [], df_edges = []\<rparr>"] show ?case
    by (auto simp: create_workflow_def split: option.splits)
next
  case (update_workflow tid wid name description d pattern s r s')
  from catalog_ok_update_workflow [OF update_workflow.prems update_workflow.hyps] show ?case .
next
  case (pause now tid wid uid s r s')
  from pause.hyps [unfolded pause_workflow_dispatch_def] show ?case
    by (rule catalog_ok_change_workflow [OF pause.prems]) (simp_all add: well_typed_workflow_def)
next
  case (resume tid wid s r s')
  from resume.hyps [unfolded resume_workflow_dispatch_def] show ?case
    by (rule catalog_ok_change_workflow [OF resume.prems]) (simp_all add: well_typed_resumed)
next
  case (duplicate i now tid uid wid s r s')
  show ?case
  proof (cases "get_workflow tid wid s")
    case (Inl err)
    with duplicate show ?thesis by (simp add: duplicate_workflow_def)
  next
    case (Inr w)
    then have "w \<in> set (workflows s)" by (auto simp: get_workflow_def dest: row_find_SomeD split: option.splits)
    with duplicate.prems have "well_typed_workflow w" by (simp add: catalog_ok_def tables_typed_def list_all_iff)
    with duplicate Inr catalog_ok_new_workflow [of s tid "wf_name w @ '' (Copy)''" "wf_execution_pattern w" "wf_definition w"]
    show ?thesis by (auto simp: duplicate_workflow_def well_typed_workflow_def split: option.splits)
  qed
next
  case (delete_workflow tid wid s u s')
  then show ?case
    using catalog_ok_update_workflows [of s "\<lambda>w. wf_id w = wid" "\<lambda>x. x\<lparr>wf_is_active := False\<rparr>"] well_typed_inactive
    by (auto simp: delete_workflow_def update_workflow_row_def active_workflow_def split: sum.splits if_splits)
next
  case (create_agent i now tid wid a s q s')
  from catalog_ok_create_agent [OF create_agent.prems create_agent.hyps] show ?case .
next
  case (update_agent tid wid aid c s q s')
  show ?case
  proof (cases q)
    case (Inl err)
    with update_agent show ?thesis by (auto simp: update_agent_def split: sum.splits option.splits)
  next
    case (Inr a)
    with update_agent.hyps(1) have v: "validate_fields (ag_role c) (ag_model c) (ag_memory_type c) = None"
      and s': "s' = update_agent_row aid (change_agent c) s"
      by (auto simp: update_agent_def split: sum.splits option.splits)
    show ?thesis unfolding s'
      by (rule catalog_ok_update_agent_row [OF update_agent.prems])
        (simp_all add: well_typed_change_agent update_agent.hyps(2) v, simp_all add: node_key_def change_agent_def)
  qed
next
  case (delete_agent tid wid aid s u s')
  have "catalog_ok (s\<lparr>agent_configs := filter (\<lambda>x. ac_id x \<noteq> aid) (agent_configs s), execution_logs := l, suggestions := g\<rparr>)" for l g
    using delete_agent.prems
    by (intro catalog_ok_agents [OF delete_agent.prems])
      (auto simp: catalog_ok_def tables_typed_def plans_kept_def list_all_iff row_count_filter_le distinct_map_filter)
  with delete_agent show ?case by (auto simp: delete_agent_def split: sum.splits)
next
  case (register cy dw email password full_name tenant_name s g s')
  from catalog_ok_register [OF register.prems register.hyps] show ?case .
next
  case (repair m s aid)
  from repair.prems show ?case
    by (rule catalog_ok_update_agent_row) (use repair.hyps in \<open>auto simp: well_typed_agent_def node_key_def\<close>)
next
  case (automation s tid)
  from automation show ?case
    unfolding resume_workflows_def
    by (rule catalog_ok_update_workflows) (simp_all add: well_typed_flag_cleared active_workflow_def)
next
  case (elsewhere s' s)
  from catalog_ok_elsewhere [OF elsewhere.prems elsewhere.hyps] show ?case .
qed

interpretation catalogue: invariant_system "\<lambda>s. s = empty_db" catalog_step catalog_ok
  by unfold_locales (simp add: catalog_ok_def tables_typed_def plans_kept_def empty_db_def, rule catalog_ok_step)

section \<open>Properties\<close>

text \<open>
  C27: the catalogue stays well typed. In every state the system reaches from the empty database each
  workflow has a name, one of the three patterns, a definition that is empty or that the compiler
  accepts, and, while it is paused, the time of the pause and the user who paused it, which are set and
  cleared together; each agent has a role, a model, a memory type, a token limit and a temperature that
  the runtime knows.
\<close>

theorem catalogue_well_typed:
  assumes "reachable (\<lambda>s. s = empty_db) catalog_step s"
  shows "(\<forall>w \<in> set (workflows s). well_typed_workflow w) \<and> (\<forall>a \<in> set (agent_configs s). well_typed_agent a)"
  using catalogue.reachable_inv [OF assms] by (simp add: catalog_ok_def tables_typed_def list_all_iff)

text \<open>
  C30: no tenant outgrows its plan. In every reachable state a tenant has at most as many active
  workflows as its plan allows, copies included, no workflow has more agents of the tenant than
  allowed, and no node of a workflow has two agents.
\<close>

theorem catalogue_within_plan:
  assumes "reachable (\<lambda>s. s = empty_db) catalog_step s" "t \<in> set (tenants s)"
  shows "int (length (filter (active_workflow (tn_id t)) (workflows s))) \<le> tn_max_workflows t \<and>
    int (length (filter (agent_of (tn_id t) wid) (agent_configs s))) \<le> tn_max_agents_per_workflow t \<and>
    distinct (map (\<lambda>a. (ac_workflow_id a, ac_node_id a)) (agent_configs s))"
  using catalogue.reachable_inv [OF assms(1)] assms(2)
  by (auto simp: catalog_ok_def plans_kept_def tenant_within_def row_count_def node_key_def [abs_def])


text \<open>The witness: a registration, a workflow, a copy of it and an agent; the third workflow is refused.\<close>

definition acme_id :: uuid where
  "acme_id = dw_tenant_id (sample_draw 5 0)"

definition acme_db :: db where
  "acme_db = snd (register plain_crypto (sample_draw 5 0) ''a@b.c'' ''password'' ''Ann'' ''Acme'' empty_db)"

definition acme_first :: db where
  "acme_first = snd (create_workflow ''w1'' 6 acme_id ''u1'' ''Orders'' [] ''linear'' acme_db)"

definition acme_copied :: db where
  "acme_copied = snd (duplicate_workflow ''w2'' 7 acme_id ''u1'' ''w1'' acme_first)"

definition acme_agent :: agent_fields where
  "acme_agent = \<lparr>af_node_id = ''n1'', af_name = ''Reader'', af_role = ''retriever'', af_system_prompt = [],
    af_model = ''gpt-4o'', af_tools = [], af_memory_type = ''buffer'', af_max_tokens = 4096, af_temperature = 0\<rparr>"

definition acme_full :: db where
  "acme_full = snd (create_agent ''a1'' 8 acme_id ''w1'' acme_agent acme_copied)"

lemmas acme_defs = acme_full_def acme_copied_def acme_first_def acme_db_def

lemma acme_reachable: "reachable (\<lambda>s. s = empty_db) catalog_step acme_full"
proof -
  note [intro] = reachable.more
  have "reachable (\<lambda>s. s = empty_db) catalog_step empty_db" by (rule reachable.base) simp
  moreover have "catalog_step empty_db acme_db"
    unfolding acme_db_def by (rule catalog_step.register [OF prod.collapse [symmetric]]) (simp add: empty_db_def)
  moreover have "catalog_step acme_db acme_first"
    unfolding acme_first_def
    by (rule catalog_step.create_workflow [OF prod.collapse [symmetric]])
      (simp add: valid_workflow_create_def length_within_def EXECUTION_PATTERNS_def)
  moreover have "catalog_step acme_first acme_copied"
    unfolding acme_copied_def by (rule catalog_step.duplicate [OF prod.collapse [symmetric]])
  moreover have "catalog_step acme_copied acme_full"
    unfolding acme_full_def
    by (rule catalog_step.create_agent [OF prod.collapse [symmetric]])
      (simp add: valid_agent_create_def acme_agent_def length_within_def token_limit_def temperature_range_def)
  ultimately show ?thesis by blast
qed

theorem catalogue_well_typed_witness:
  "list_all well_typed_workflow (workflows acme_full) \<and> list_all well_typed_agent (agent_configs acme_full) \<and>
    map wf_name (workflows acme_full) = [''Orders'', ''Orders (Copy)''] \<and> length (agent_configs acme_full) = 1"
proof -
  have "map wf_name (workflows acme_full) = [''Orders'', ''Orders (Copy)''] \<and> length (agent_configs acme_full) = 1"
    by code_simp
  with catalogue_well_typed [OF acme_reachable] show ?thesis by (simp add: list_all_iff)
qed

theorem catalogue_within_plan_witness:
  "\<exists>t. tenants acme_full = [t] \<and> int (length (filter (active_workflow (tn_id t)) (workflows acme_full))) \<le> tn_max_workflows t \<and>
    fst (duplicate_workflow ''w3'' 9 acme_id ''u1'' ''w2'' acme_full) = Inl limit_reached"
proof -
  have "fst (duplicate_workflow ''w3'' 9 acme_id ''u1'' ''w2'' acme_full) = Inl limit_reached" by code_simp
  moreover have "length (tenants acme_full) = 1" by code_simp
  then obtain t where t: "tenants acme_full = [t]" by (auto simp: length_Suc_conv)
  ultimately show ?thesis using catalogue_within_plan [OF acme_reachable, of t] by simp
qed

end
