(* ===== verification/Doctor.thy ===== *)
theory Doctor
  imports Workflows
begin

text \<open>
  The workflow doctor, \<open>app/services/workflow_doctor_service.py\<close>: diagnosis of a failed execution
  from its logs, the suggestion with its patch, the replay that validates a patch without running
  anything, applying and dismissing. An exception that no handler names is a 500, as elsewhere.
\<close>

section \<open>Constants\<close>

definition DEFAULT_SAFE_MODEL :: string where
  "DEFAULT_SAFE_MODEL = ''gpt-4o-mini''"

definition diagnosable :: "exec_status \<Rightarrow> bool" where
  "diagnosable st \<longleftrightarrow> st = ExFailed \<or> st = ExCancelled"

definition patchable :: "fix_status \<Rightarrow> bool" where
  "patchable st \<longleftrightarrow> st = FxProposed \<or> st = FxReplayPassed \<or> st = FxReplayFailed"

definition SECRET_PATH_PARTS :: "string list" where
  "SECRET_PATH_PARTS = [''authorization'', ''cookie'', ''password'', ''secret'', ''token'', ''api_key'',
    ''apikey'', ''access_key'', ''private_key'']"

definition ALLOWED_PATCH_TARGETS :: "(json \<times> json) list" where
  "ALLOWED_PATCH_TARGETS = [(JStr ''agent_config'', JStr ''/model''), (JStr ''tool'', JStr ''/config/url''),
    (JStr ''tool'', JStr ''/config/method'')]"

definition VALID_REPLAY_MODES :: "string list" where
  "VALID_REPLAY_MODES = [''validation_only'']"

fun fix_status_text :: "fix_status \<Rightarrow> string" where
  "fix_status_text FxProposed = ''proposed''"
| "fix_status_text FxReplayPassed = ''replay_passed''"
| "fix_status_text FxReplayFailed = ''replay_failed''"
| "fix_status_text FxApplied = ''applied''"
| "fix_status_text FxDismissed = ''dismissed''"

section \<open>The text of a failure\<close>

text \<open>\<open>text.split()\<close>: the words between white space.\<close>

function py_words :: "string \<Rightarrow> string list" where
  "py_words x =
    (let y = dropWhile is_space x in
     if y = [] then [] else takeWhile (\<lambda>c. \<not> is_space c) y # py_words (dropWhile (\<lambda>c. \<not> is_space c) y))"
  by pat_completeness auto
termination
proof (relation "measure length", goal_cases)
  case (2 x y)
  then have "y = hd y # tl y" "\<not> is_space (hd y)" using hd_dropWhile by (auto simp: hd_dropWhile)
  then have "dropWhile (\<lambda>c. \<not> is_space c) y = dropWhile (\<lambda>c. \<not> is_space c) (tl y)"
    by (metis dropWhile.simps(2))
  then have "length (dropWhile (\<lambda>c. \<not> is_space c) y) \<le> length (tl y)" by (metis length_dropWhile_le)
  also have "\<dots> < length y" using 2 by simp
  also have "length y \<le> length x" using 2 by (simp add: length_dropWhile_le)
  finally show ?case by simp
qed simp

declare py_words.simps [simp del]

definition trim_public_error :: "string \<Rightarrow> string" where
  "trim_public_error x = take 500 (join '' '' (py_words x))"

definition public_json :: "json \<Rightarrow> string" where
  "public_json v = (if v = JNull then [] else json_dumps v)"

definition text_or_empty :: "string option \<Rightarrow> string" where
  "text_or_empty v = (case v of None \<Rightarrow> [] | Some x \<Rightarrow> x)"

definition log_pieces :: "execution_log \<Rightarrow> string list" where
  "log_pieces lg = [lg_agent_name lg, lg_action lg, public_json (lg_input_data lg), public_json (lg_output_data lg),
    text_or_empty (lg_decision_reasoning lg), text_or_empty (lg_sanitized_error lg)]"

definition collect_error_text :: "execution \<Rightarrow> execution_log list \<Rightarrow> string" where
  "collect_error_text e logs =
    join [CHR 0x0A] (filter (\<lambda>p. p \<noteq> []) (text_or_empty (ex_error_message e) # concat (map log_pieces logs)))"

definition model_char :: "char \<Rightarrow> bool" where
  "model_char c \<longleftrightarrow> (let n = of_char c :: nat in
    48 \<le> n \<and> n \<le> 57 \<or> 65 \<le> n \<and> n \<le> 90 \<or> 97 \<le> n \<and> n \<le> 122 \<or> n = 95 \<or> n = 46 \<or> n = 45)"

text \<open>\<open>re.search(r"unsupported model:\s*([\w.-]+)", text, re.IGNORECASE)\<close>, its group.\<close>

fun extract_unsupported_model :: "string \<Rightarrow> string option" where
  "extract_unsupported_model [] = None"
| "extract_unsupported_model (c # x) =
    (let m = takeWhile model_char (dropWhile is_space (drop 18 (c # x))) in
     if prefix ''unsupported model:'' (py_lower (c # x)) \<and> m \<noteq> [] then Some m
     else extract_unsupported_model x)"

definition is_secret_path :: "json \<Rightarrow> bool" where
  "is_secret_path path =
    (case path of JStr x \<Rightarrow> list_ex (\<lambda>part. occurs_in part (py_lower x)) SECRET_PATH_PARTS | _ \<Rightarrow> False)"

section \<open>Look-ups\<close>

definition get_suggestion :: "uuid \<Rightarrow> uuid \<Rightarrow> db \<Rightarrow> http_error + fix_suggestion" where
  "get_suggestion tid sid s =
    (case row_find (\<lambda>r. fs_id r = sid \<and> fs_tenant_id r = tid) (suggestions s) of
      None \<Rightarrow> Inl (HTTPException 404 ''Fix suggestion not found'')
    | Some r \<Rightarrow> Inr r)"

definition open_suggestion :: "uuid \<Rightarrow> uuid \<Rightarrow> fix_suggestion \<Rightarrow> bool" where
  "open_suggestion tid eid r \<longleftrightarrow> fs_execution_id r = eid \<and> fs_tenant_id r = tid \<and> fs_status r \<noteq> FxDismissed"

definition list_suggestions_for_execution :: "uuid \<Rightarrow> uuid \<Rightarrow> db \<Rightarrow> fix_suggestion list" where
  "list_suggestions_for_execution tid eid s =
    sort_key (\<lambda>r. - fs_created_at r) (filter (open_suggestion tid eid) (suggestions s))"

definition doctor_logs :: "uuid \<Rightarrow> db \<Rightarrow> execution_log list" where
  "doctor_logs eid s = sort_key lg_step_number (filter (\<lambda>lg. lg_execution_id lg = eid) (execution_logs s))"

definition unsupported_agent :: "uuid \<Rightarrow> uuid \<Rightarrow> agent_config \<Rightarrow> bool" where
  "unsupported_agent tid wid a \<longleftrightarrow> agent_of tid wid a \<and> ac_model a \<notin> set VALID_MODELS"

definition workflow_has_unsupported_model :: "uuid \<Rightarrow> uuid \<Rightarrow> db \<Rightarrow> bool" where
  "workflow_has_unsupported_model tid wid s \<longleftrightarrow> list_ex (unsupported_agent tid wid) (agent_configs s)"

definition first_agent_config_id :: "execution_log list \<Rightarrow> uuid option" where
  "first_agent_config_id logs = Option.bind (row_find (\<lambda>lg. lg_agent_config_id lg \<noteq> None) logs) lg_agent_config_id"

text \<open>The agent the logs name, whatever its workflow; else the one agent with an unsupported model.\<close>

definition find_agent_for_suggestion ::
  "uuid \<Rightarrow> uuid \<Rightarrow> execution_log list \<Rightarrow> db \<Rightarrow> http_error + agent_config option" where
  "find_agent_for_suggestion tid wid logs s =
    (case Option.bind (first_agent_config_id logs)
        (\<lambda>i. row_find (\<lambda>a. ac_id a = i \<and> ac_tenant_id a = tid) (agent_configs s)) of
      Some a \<Rightarrow> Inr (Some a)
    | None \<Rightarrow> one_or_none (filter (unsupported_agent tid wid) (agent_configs s)))"

section \<open>Diagnosis\<close>

definition empty_patch :: json where
  "empty_patch = JObj [(''operations'', JList [])]"

definition model_patch :: "uuid \<Rightarrow> string \<Rightarrow> json" where
  "model_patch aid model = JObj [(''operations'', JList [JObj
    [(''op'', JStr ''replace''), (''target_type'', JStr ''agent_config''), (''target_id'', JStr aid),
     (''path'', JStr ''/model''), (''value'', JStr DEFAULT_SAFE_MODEL), (''current_value'', JStr model)]])]"

text \<open>What a diagnosis says of a failure; the row it is stored in adds the keys.\<close>

record finding =
  fd_agent :: "uuid option"
  fd_code :: string
  fd_title :: string
  fd_root_cause :: string
  fd_recommendation :: string
  fd_severity :: string
  fd_confidence :: rat
  fd_patch :: json

definition provider_finding :: "string \<Rightarrow> execution_log list \<Rightarrow> finding" where
  "provider_finding provider logs =
    \<lparr>fd_agent = first_agent_config_id logs, fd_code = ''missing_provider_key'',
     fd_title = provider @ '' provider key is not configured'',
     fd_root_cause = ''The execution failed before model invocation because the '' @ provider @
       '' provider key is missing from the server environment.'',
     fd_recommendation = ''Configure the provider API key in the backend environment and restart '' @
       ''the worker before retrying this execution.'',
     fd_severity = ''high'', fd_confidence = 95 / 100, fd_patch = empty_patch\<rparr>"

definition agent_finding :: "string \<Rightarrow> finding" where
  "agent_finding error_text =
    \<lparr>fd_agent = None, fd_code = ''missing_agent_config'', fd_title = ''Workflow node is missing an agent config'',
     fd_root_cause = trim_public_error error_text,
     fd_recommendation = ''Open the workflow builder, configure agents for every node, then run '' @
       ''the execution again.'',
     fd_severity = ''critical'', fd_confidence = 9 / 10, fd_patch = empty_patch\<rparr>"

definition credential_finding :: "string \<Rightarrow> finding" where
  "credential_finding error_text =
    \<lparr>fd_agent = None, fd_code = ''missing_connector_credential'',
     fd_title = ''Connector credential is missing or inactive'', fd_root_cause = trim_public_error error_text,
     fd_recommendation = ''Create or re-enable the connector credential, attach it to the '' @
       ''connector node, then retry the execution.'',
     fd_severity = ''high'', fd_confidence = 9 / 10, fd_patch = empty_patch\<rparr>"

definition model_finding :: "string \<Rightarrow> agent_config option \<Rightarrow> finding" where
  "model_finding error_text agent =
    (let model = (case extract_unsupported_model error_text of
           Some m \<Rightarrow> m | None \<Rightarrow> (case agent of Some a \<Rightarrow> ac_model a | None \<Rightarrow> ''unknown'')) in
     \<lparr>fd_agent = map_option ac_id agent, fd_code = ''unsupported_model'',
      fd_title = ''Agent model is not supported by this workspace'',
      fd_root_cause = ''Agent execution referenced unsupported model '' @ quoted model @ ''.'',
      fd_recommendation = ''Replace the model with '' @ quoted DEFAULT_SAFE_MODEL @ '', validate the workflow '' @
        ''without external calls, then retry.'',
      fd_severity = ''high'', fd_confidence = (if agent = None then 65 / 100 else 9 / 10),
      fd_patch = (case agent of None \<Rightarrow> empty_patch | Some a \<Rightarrow> model_patch (ac_id a) model)\<rparr>)"

definition unknown_finding :: "string \<Rightarrow> execution_log list \<Rightarrow> finding" where
  "unknown_finding error_text logs =
    \<lparr>fd_agent = first_agent_config_id logs, fd_code = ''no_diagnosis_available'',
     fd_title = ''No known fix pattern matched this failure'',
     fd_root_cause = (if trim_public_error error_text = [] then ''The execution failed without a recognized error pattern.''
       else trim_public_error error_text),
     fd_recommendation = ''Review the execution logs and adjust the workflow manually.'',
     fd_severity = ''medium'', fd_confidence = 2 / 10, fd_patch = empty_patch\<rparr>"

definition find_cause :: "uuid \<Rightarrow> uuid \<Rightarrow> execution_log list \<Rightarrow> string \<Rightarrow> db \<Rightarrow> http_error + finding" where
  "find_cause tid wid logs error_text s =
    (let lowered = py_lower error_text in
     if occurs_in ''api_key not configured'' lowered then
       Inr (provider_finding (if occurs_in ''openai'' lowered then ''OpenAI'' else ''Anthropic'') logs)
     else if occurs_in ''agent configs missing'' lowered then Inr (agent_finding error_text)
     else if occurs_in ''missing_connector_credential'' lowered \<or>
       occurs_in ''connector credential'' lowered \<and> occurs_in ''missing'' lowered
     then Inr (credential_finding error_text)
     else if occurs_in ''unsupported model'' lowered \<or> workflow_has_unsupported_model tid wid s then
       (case find_agent_for_suggestion tid wid logs s of
         Inl err \<Rightarrow> Inl err
       | Inr agent \<Rightarrow> Inr (model_finding error_text agent))
     else Inr (unknown_finding error_text logs))"

text \<open>The clock, and the identifier and time of the row that is added.\<close>

record diagnosis_draw =
  dg_now :: instant
  dg_id :: uuid
  dg_created :: instant

definition suggestion_row :: "diagnosis_draw \<Rightarrow> execution \<Rightarrow> uuid \<Rightarrow> finding \<Rightarrow> fix_suggestion" where
  "suggestion_row dw e wid f =
    \<lparr>fs_id = dg_id dw, fs_tenant_id = ex_tenant_id e, fs_workflow_id = wid, fs_execution_id = ex_id e,
     fs_agent_config_id = fd_agent f, fs_tool_id = None, fs_detector_code = fd_code f, fs_title = fd_title f,
     fs_root_cause = fd_root_cause f, fs_recommendation = fd_recommendation f, fs_severity = fd_severity f,
     fs_confidence = fd_confidence f, fs_patch = fd_patch f, fs_replay_result = JNull, fs_status = FxProposed,
     fs_applied_by = None, fs_applied_at = None, fs_dismissed_at = None, fs_created_at = dg_created dw\<rparr>"

definition dismiss :: "instant \<Rightarrow> fix_suggestion \<Rightarrow> fix_suggestion" where
  "dismiss now r = r\<lparr>fs_status := FxDismissed, fs_dismissed_at := Some now\<rparr>"

definition diagnose_execution :: "diagnosis_draw \<Rightarrow> uuid \<Rightarrow> uuid \<Rightarrow> bool \<Rightarrow> (fix_suggestion list, db) svc" where
  "diagnose_execution dw tid eid force s =
    (case get_execution tid eid s of
      Inl err \<Rightarrow> (Inl err, s)
    | Inr e \<Rightarrow>
       if \<not> diagnosable (ex_status e) then
         (Inl (HTTPException 409 (''Cannot diagnose execution with status '' @ quoted (status_text (ex_status e)) @
           ''. Only failed or cancelled executions can be diagnosed.'')), s)
       else if list_suggestions_for_execution tid eid s \<noteq> [] \<and> \<not> force then
         (Inr (list_suggestions_for_execution tid eid s), s)
       else case get_workflow tid (ex_workflow_id e) s of
         Inl err \<Rightarrow> (Inl err, s)
       | Inr w \<Rightarrow>
          (let logs = doctor_logs eid s in
           case find_cause tid (wf_id w) logs (collect_error_text e logs) s of
             Inl err \<Rightarrow> (Inl err, s)
           | Inr f \<Rightarrow>
              (let r = suggestion_row dw e (wf_id w) f in
               (Inr [r], s\<lparr>suggestions := row_update (\<lambda>x. open_suggestion tid eid x \<and> patchable (fs_status x))
                  (dismiss (dg_now dw)) (suggestions s) @ [r]\<rparr>))))"

definition list_suggestions :: "uuid \<Rightarrow> uuid \<Rightarrow> db \<Rightarrow> http_error + fix_suggestion list" where
  "list_suggestions tid eid s =
    (case get_execution tid eid s of
      Inl err \<Rightarrow> Inl err | Inr _ \<Rightarrow> Inr (list_suggestions_for_execution tid eid s))"


section \<open>Checking a patch\<close>

definition unhashable :: "json \<Rightarrow> http_error option" where
  "unhashable v =
    (case v of
      JList _ \<Rightarrow> Some (internal_error (''unhashable type: '' @ quoted (type_name v)))
    | JObj _ \<Rightarrow> Some (internal_error (''unhashable type: '' @ quoted (type_name v)))
    | _ \<Rightarrow> None)"

fun first_error :: "('a \<Rightarrow> http_error option) \<Rightarrow> 'a list \<Rightarrow> http_error option" where
  "first_error f [] = None"
| "first_error f (x # xs) = (case f x of Some err \<Rightarrow> Some err | None \<Rightarrow> first_error f xs)"

definition check_operation :: "json \<Rightarrow> http_error option" where
  "check_operation operation =
    (if \<not> is_obj operation then Some (HTTPException 422 ''Patch operation must be an object.'')
     else let d = obj_or_empty operation; path = jget ''path'' d; target_type = jget ''target_type'' d in
     if truthy (jget ''secret'' d) \<or> is_secret_path path then
       Some (HTTPException 422 (''Patch path '' @ quoted (py_str path) @ '' is blocked because it may contain secrets.''))
     else if jget ''op'' d \<noteq> JStr ''replace'' then
       Some (HTTPException 422 ''Only replace patch operations are supported.'')
     else case jget ''target_id'' d of
       JStr x \<Rightarrow>
         if parse_uuid x = None then Some (HTTPException 422 ''Patch operation target_id must be a valid UUID.'')
         else (case first_error unhashable [target_type, path] of
           Some err \<Rightarrow> Some err
         | None \<Rightarrow>
            if (target_type, path) \<in> set ALLOWED_PATCH_TARGETS then None
            else Some (HTTPException 422 (''Patch target '' @ quoted (py_str target_type @ '':'' @ py_str path) @
              '' is not allowed.'')))
     | _ \<Rightarrow> Some (HTTPException 422 ''Patch operation target_id must be a string UUID.''))"

definition operations_of :: "json \<Rightarrow> json" where
  "operations_of patch = jget_or ''operations'' (JList []) (obj_or_empty patch)"

definition operation_list :: "json \<Rightarrow> (string, json) dict list" where
  "operation_list patch = map obj_or_empty (list_or_empty (operations_of patch))"

definition validate_patch_operations :: "json \<Rightarrow> http_error option" where
  "validate_patch_operations patch =
    (if \<not> is_obj patch then Some (HTTPException 422 ''Patch must be an object.'')
     else case operations_of patch of
       JList ops \<Rightarrow> first_error check_operation ops
     | _ \<Rightarrow> Some (HTTPException 422 ''Patch operations must be a list.''))"

text \<open>\<open>operation["value"]\<close>.\<close>

definition operation_value :: "(string, json) dict \<Rightarrow> http_error + json" where
  "operation_value op = (case dget ''value'' op of None \<Rightarrow> Inl (internal_error (quoted ''value'')) | Some v \<Rightarrow> Inr v)"

section \<open>Replay\<close>

record agent_snapshot =
  sn_node_id :: string
  sn_model :: json

definition target_missing :: http_error where
  "target_missing = HTTPException 404 ''Agent config targeted by patch was not found.''"

definition agent_snapshots :: "uuid \<Rightarrow> uuid \<Rightarrow> db \<Rightarrow> (string, agent_snapshot) dict" where
  "agent_snapshots tid wid s = dupdate []
    (map (\<lambda>a. (ac_id a, \<lparr>sn_node_id = ac_node_id a, sn_model = JStr (ac_model a)\<rparr>))
      (filter (agent_of tid wid) (agent_configs s)))"

text \<open>The operations have been checked: an agent operation has the path of the model.\<close>

fun patch_snapshots ::
  "(string, json) dict list \<Rightarrow> (string, agent_snapshot) dict \<Rightarrow> http_error + (string, agent_snapshot) dict" where
  "patch_snapshots [] agents = Inr agents"
| "patch_snapshots (op # ops) agents =
    (if jget ''target_type'' op \<noteq> JStr ''agent_config'' then patch_snapshots ops agents
     else case dget (py_str (jget ''target_id'' op)) agents of
       None \<Rightarrow> Inl target_missing
     | Some a \<Rightarrow>
        if jget ''path'' op \<noteq> JStr ''/model'' then patch_snapshots ops agents
        else (case operation_value op of
          Inl err \<Rightarrow> Inl err
        | Inr v \<Rightarrow> patch_snapshots ops (dset (py_str (jget ''target_id'' op)) (a\<lparr>sn_model := v\<rparr>) agents)))"

text \<open>
  \<open>sorted\<close> of a set of node identifiers; the text of the \<open>TypeError\<close> when an absent one is among
  others depends on the order of the set.
\<close>

definition missing_nodes_error :: "string option list \<Rightarrow> http_error" where
  "missing_nodes_error missing =
    (let text_of = (\<lambda>vs. HTTPException 422 (''Agent configs still missing for nodes: '' @ py_repr (JList vs))) in
     if missing = [None] then text_of [JNull]
     else if None \<in> set missing then internal_error ''not supported between instances of NoneType and str''
     else text_of (map JStr (sort (map the missing))))"

definition check_snapshots :: "graph_def \<Rightarrow> (string, agent_snapshot) dict \<Rightarrow> http_error option" where
  "check_snapshots d agents =
    (case validate_definition d of
      Some e \<Rightarrow> Some (HTTPException 422 (''Invalid workflow graph after patch: '' @ compilation_message e))
    | None \<Rightarrow>
       (let missing = remdups (filter (\<lambda>i. i \<notin> set (map (\<lambda>p. Some (sn_node_id (snd p))) agents)) (agent_node_ids d));
            models = map (\<lambda>p. sn_model (snd p)) agents;
            unsupported = filter (\<lambda>v. v \<notin> set (map JStr VALID_MODELS)) models in
        if missing \<noteq> [] then Some (missing_nodes_error missing)
        else case first_error unhashable models of
          Some err \<Rightarrow> Some err
        | None \<Rightarrow>
           if unsupported \<noteq> [] then Some (HTTPException 422 (''Unsupported models remain after patch: '' @
             py_repr (JList (map JStr (sort (remdups (map py_str unsupported)))))))
           else None))"

definition replay_checks :: json where
  "replay_checks = JObj [(''external_calls_executed'', JBool False),
    (''checks'', JList [JStr ''patch_paths_allowed'', JStr ''workflow_definition_valid'',
      JStr ''agent_configs_present'', JStr ''agent_models_supported'']),
    (''message'', JStr ''Patch validated without executing tools or model calls.'')]"

definition validate_replay_patch :: "uuid \<Rightarrow> fix_suggestion \<Rightarrow> db \<Rightarrow> http_error option" where
  "validate_replay_patch tid r s =
    (case get_workflow tid (fs_workflow_id r) s of
      Inl err \<Rightarrow> Some err
    | Inr w \<Rightarrow>
       (case patch_snapshots (operation_list (fs_patch r)) (agent_snapshots tid (wf_id w) s) of
         Inl err \<Rightarrow> Some err
       | Inr agents \<Rightarrow> check_snapshots (wf_definition w) agents))"

text \<open>Every exception of the checks is caught: its text is the result.\<close>

definition replay_error :: "uuid \<Rightarrow> fix_suggestion \<Rightarrow> db \<Rightarrow> http_error option" where
  "replay_error tid r s =
    (case validate_patch_operations (fs_patch r) of Some err \<Rightarrow> Some err | None \<Rightarrow> validate_replay_patch tid r s)"

fun error_detail :: "http_error \<Rightarrow> string" where
  "error_detail (HTTPException _ detail) = detail"

definition replay_result :: "http_error option \<Rightarrow> json" where
  "replay_result v =
    (case v of
      None \<Rightarrow> replay_checks
    | Some err \<Rightarrow> JObj [(''external_calls_executed'', JBool False), (''error'', JStr (error_detail err))])"

record replay_draw =
  rd_id :: uuid
  rd_started :: instant
  rd_completed :: instant

definition update_suggestion :: "uuid \<Rightarrow> (fix_suggestion \<Rightarrow> fix_suggestion) \<Rightarrow> db \<Rightarrow> db" where
  "update_suggestion sid f s = s\<lparr>suggestions := row_update (\<lambda>r. fs_id r = sid) f (suggestions s)\<rparr>"

definition closed :: "fix_suggestion \<Rightarrow> bool" where
  "closed r \<longleftrightarrow> fs_status r = FxApplied \<or> fs_status r = FxDismissed"

definition record_replay :: "http_error option \<Rightarrow> fix_suggestion \<Rightarrow> fix_suggestion" where
  "record_replay v r = r\<lparr>fs_status := (if v = None then FxReplayPassed else FxReplayFailed),
    fs_replay_result := replay_result v\<rparr>"

definition replay_suggestion :: "replay_draw \<Rightarrow> uuid \<Rightarrow> uuid \<Rightarrow> string \<Rightarrow> (replay_run, db) svc" where
  "replay_suggestion dw tid sid mode s =
    (if mode \<notin> set VALID_REPLAY_MODES then
       (Inl (HTTPException 422 (''Invalid replay mode. Must be one of: '' @ join '', '' VALID_REPLAY_MODES)), s)
     else case get_suggestion tid sid s of
       Inl err \<Rightarrow> (Inl err, s)
     | Inr r \<Rightarrow>
        if closed r then
          (Inl (HTTPException 409 (''Cannot replay a suggestion with status '' @
            quoted (fix_status_text (fs_status r)) @ ''.'')), s)
        else
          (let v = replay_error tid r s;
               run = \<lparr>rr_id = rd_id dw, rr_tenant_id = tid, rr_workflow_id = fs_workflow_id r,
                 rr_execution_id = fs_execution_id r, rr_suggestion_id = fs_id r, rr_mode = mode,
                 rr_status = (if v = None then RpPassed else RpFailed), rr_result = replay_result v,
                 rr_started_at = rd_started dw, rr_completed_at = Some (rd_completed dw)\<rparr> in
           (Inr run, update_suggestion sid (record_replay v) (s\<lparr>replay_runs := replay_runs s @ [run]\<rparr>))))"

section \<open>Applying and dismissing\<close>

definition apply_agent_operation :: "uuid \<Rightarrow> (string, json) dict \<Rightarrow> db \<Rightarrow> http_error + db" where
  "apply_agent_operation tid op s =
    (case Option.bind (parse_uuid (py_str (jget ''target_id'' op)))
        (\<lambda>i. row_find (\<lambda>a. ac_id a = i \<and> ac_tenant_id a = tid) (agent_configs s)) of
      None \<Rightarrow> Inl target_missing
    | Some a \<Rightarrow>
       if jget ''path'' op \<noteq> JStr ''/model'' then Inr s
       else case operation_value op of
         Inl err \<Rightarrow> Inl err
       | Inr v \<Rightarrow>
          (case unhashable v of
            Some err \<Rightarrow> Inl err
          | None \<Rightarrow>
             if v \<notin> set (map JStr VALID_MODELS) then
               Inl (HTTPException 422 (''Patch model '' @ quoted (py_str v) @ '' is not supported.''))
             else Inr (update_agent_row (ac_id a) (\<lambda>x. x\<lparr>ac_model := py_str v\<rparr>) s)))"

definition apply_tool_operation :: "uuid \<Rightarrow> (string, json) dict \<Rightarrow> db \<Rightarrow> http_error + db" where
  "apply_tool_operation tid op s =
    (case Option.bind (parse_uuid (py_str (jget ''target_id'' op)))
        (\<lambda>i. row_find (\<lambda>t. tl_id t = i \<and> tl_tenant_id t = tid \<and> tl_is_active t) (tools s)) of
      None \<Rightarrow> Inl (HTTPException 404 ''Tool targeted by patch was not found.'')
    | Some t \<Rightarrow>
       (case (if jget ''path'' op = JStr ''/config/url'' then map_sum (\<lambda>err. err) (\<lambda>v. [(''url'', v)]) (operation_value op)
              else if jget ''path'' op = JStr ''/config/method''
              then map_sum (\<lambda>err. err) (\<lambda>v. [(''method'', v)]) (operation_value op)
              else Inr []) of
         Inl err \<Rightarrow> Inl err
       | Inr new \<Rightarrow> Inr (s\<lparr>tools := row_update (\<lambda>x. tl_id x = tl_id t)
           (\<lambda>x. x\<lparr>tl_config := JObj (dupdate (obj_or_empty (tl_config t)) new)\<rparr>) (tools s)\<rparr>)))"

fun apply_patch_operations :: "uuid \<Rightarrow> (string, json) dict list \<Rightarrow> db \<Rightarrow> http_error + db" where
  "apply_patch_operations tid [] s = Inr s"
| "apply_patch_operations tid (op # ops) s =
    (case (if jget ''target_type'' op = JStr ''agent_config'' then apply_agent_operation tid op s
           else if jget ''target_type'' op = JStr ''tool'' then apply_tool_operation tid op s
           else Inr s) of
      Inl err \<Rightarrow> Inl err
    | Inr s1 \<Rightarrow> apply_patch_operations tid ops s1)"

record apply_draw =
  ad_now :: instant
  ad_execution_id :: uuid
  ad_created :: instant

record apply_answer =
  aa_suggestion_id :: uuid
  aa_status :: fix_status
  aa_retry_execution_id :: "uuid option"

text \<open>The retry of the failed execution, a new pending row with the same input.\<close>

definition retry_failed :: "apply_draw \<Rightarrow> uuid \<Rightarrow> fix_suggestion \<Rightarrow> bool \<Rightarrow> db \<Rightarrow> http_error + uuid option \<times> db" where
  "retry_failed dw tid r retry s =
    (if \<not> retry then Inr (None, s)
     else case get_execution tid (fs_execution_id r) s of
       Inl err \<Rightarrow> Inl err
     | Inr e \<Rightarrow> Inr (Some (ad_execution_id dw),
         add_execution (new_execution (ad_execution_id dw) (ad_created dw) tid (fs_workflow_id r) (ex_input_data e)) s))"

definition mark_applied :: "apply_draw \<Rightarrow> uuid \<Rightarrow> fix_suggestion \<Rightarrow> fix_suggestion" where
  "mark_applied dw uid r = r\<lparr>fs_status := FxApplied, fs_applied_by := Some uid, fs_applied_at := Some (ad_now dw)\<rparr>"

definition apply_suggestion :: "apply_draw \<Rightarrow> uuid \<Rightarrow> uuid \<Rightarrow> uuid \<Rightarrow> bool \<Rightarrow> (apply_answer, db) svc" where
  "apply_suggestion dw tid sid uid retry s =
    (case get_suggestion tid sid s of
      Inl err \<Rightarrow> (Inl err, s)
    | Inr r \<Rightarrow>
       if closed r then
         (Inl (HTTPException 409 (''Cannot apply a suggestion with status '' @
           quoted (fix_status_text (fs_status r)) @ ''.'')), s)
       else case validate_patch_operations (fs_patch r) of
         Some err \<Rightarrow> (Inl err, s)
       | None \<Rightarrow>
          (case apply_patch_operations tid (operation_list (fs_patch r)) s of
            Inl err \<Rightarrow> (Inl err, s)
          | Inr s1 \<Rightarrow>
             (case retry_failed dw tid r retry s1 of
               Inl err \<Rightarrow> (Inl err, s)
             | Inr (new, s2) \<Rightarrow>
                (Inr \<lparr>aa_suggestion_id = fs_id r, aa_status = FxApplied, aa_retry_execution_id = new\<rparr>,
                 update_suggestion sid (mark_applied dw uid) s2))))"

definition dismiss_suggestion :: "instant \<Rightarrow> uuid \<Rightarrow> uuid \<Rightarrow> (uuid \<times> fix_status, db) svc" where
  "dismiss_suggestion now tid sid s =
    (case get_suggestion tid sid s of
      Inl err \<Rightarrow> (Inl err, s)
    | Inr r \<Rightarrow>
       if fs_status r = FxApplied then (Inl (HTTPException 409 ''Applied suggestions cannot be dismissed.''), s)
       else (Inr (fs_id r, FxDismissed), update_suggestion sid (dismiss now) s))"


section \<open>The patches of the doctor\<close>

definition patch_form :: "json \<Rightarrow> bool" where
  "patch_form patch \<longleftrightarrow> patch = empty_patch \<or> (\<exists>aid model. patch = model_patch aid model)"

lemma patch_forms [simp]: "patch_form empty_patch" "patch_form (model_patch aid model)"
  by (auto simp: patch_form_def)

lemma finding_patches [simp]:
  "patch_form (fd_patch (provider_finding p logs))" "patch_form (fd_patch (agent_finding x))"
  "patch_form (fd_patch (credential_finding x))" "patch_form (fd_patch (model_finding x agent))"
  "patch_form (fd_patch (unknown_finding x logs))"
  by (simp_all add: provider_finding_def agent_finding_def credential_finding_def model_finding_def
      unknown_finding_def Let_def split: option.split)

lemma find_cause_patch: "find_cause tid wid logs x s = Inr f \<Longrightarrow> patch_form (fd_patch f)"
  unfolding find_cause_def Let_def by (auto split: if_splits sum.splits)

definition model_operation :: "uuid \<Rightarrow> string \<Rightarrow> (string, json) dict" where
  "model_operation aid model =
    [(''op'', JStr ''replace''), (''target_type'', JStr ''agent_config''), (''target_id'', JStr aid),
     (''path'', JStr ''/model''), (''value'', JStr DEFAULT_SAFE_MODEL), (''current_value'', JStr model)]"

lemma model_patch_def': "model_patch aid model = JObj [(''operations'', JList [JObj (model_operation aid model)])]"
  by (simp add: model_patch_def model_operation_def)

lemma model_operation_gets [simp]:
  "jget ''op'' (model_operation aid model) = JStr ''replace''"
  "jget ''target_type'' (model_operation aid model) = JStr ''agent_config''"
  "jget ''target_id'' (model_operation aid model) = JStr aid"
  "jget ''path'' (model_operation aid model) = JStr ''/model''"
  "jget ''secret'' (model_operation aid model) = JNull"
  "operation_value (model_operation aid model) = Inr (JStr DEFAULT_SAFE_MODEL)"
  by (simp_all add: model_operation_def jget_def dget_def operation_value_def)

lemma operation_list_forms [simp]:
  "operation_list empty_patch = []" "operation_list (model_patch aid model) = [model_operation aid model]"
  by (simp_all add: operation_list_def operations_of_def empty_patch_def model_patch_def' jget_or_def dget_def)

lemma model_path_public: "\<not> is_secret_path (JStr ''/model'')"
  by code_simp

lemma validate_forms:
  "validate_patch_operations empty_patch = None"
  "validate_patch_operations (model_patch aid model) = None \<longleftrightarrow> parse_uuid aid \<noteq> None"
  by (auto simp: validate_patch_operations_def empty_patch_def model_patch_def' operations_of_def jget_or_def dget_def
      check_operation_def Let_def model_path_public unhashable_def ALLOWED_PATCH_TARGETS_def)

lemma safe_model_valid [simp]: "DEFAULT_SAFE_MODEL \<in> set VALID_MODELS"
  by (simp add: DEFAULT_SAFE_MODEL_def VALID_MODELS_def)

lemma safe_model_valid' [simp]: "JStr DEFAULT_SAFE_MODEL \<in> JStr ` set VALID_MODELS"
  by simp

text \<open>Applying a patch of the doctor sets the model of at most one agent of the tenant.\<close>

lemma apply_agent_operation_model:
  "apply_agent_operation tid (model_operation aid model) s =
    (case Option.bind (parse_uuid aid) (\<lambda>i. row_find (\<lambda>a. ac_id a = i \<and> ac_tenant_id a = tid) (agent_configs s)) of
      None \<Rightarrow> Inl target_missing
    | Some a \<Rightarrow> Inr (update_agent_row (ac_id a) (\<lambda>x. x\<lparr>ac_model := DEFAULT_SAFE_MODEL\<rparr>) s))"
  unfolding apply_agent_operation_def by (simp add: unhashable_def split: option.split)

section \<open>The life of a suggestion\<close>

definition suggestion_ok :: "fix_suggestion \<Rightarrow> bool" where
  "suggestion_ok r \<longleftrightarrow> patch_form (fs_patch r) \<and>
    (fs_status r = FxApplied \<longleftrightarrow> fs_applied_at r \<noteq> None) \<and>
    (fs_status r = FxDismissed \<longleftrightarrow> fs_dismissed_at r \<noteq> None) \<and>
    (fs_status r = FxReplayPassed \<longrightarrow> fs_replay_result r = replay_checks)"

text \<open>
  The system as the doctor sees it. Elsewhere in the backend the deletion of an agent or of a user
  clears the references of suggestions to it.
\<close>

definition unreferenced :: "fix_suggestion \<Rightarrow> fix_suggestion" where
  "unreferenced r = r\<lparr>fs_agent_config_id := None, fs_applied_by := None\<rparr>"

inductive doctor_step :: "db \<Rightarrow> db \<Rightarrow> bool" where
  diagnose: "diagnose_execution dw tid eid force s = (v, s') \<Longrightarrow> dg_id dw \<notin> fs_id ` set (suggestions s) \<Longrightarrow> doctor_step s s'"
| replay: "replay_suggestion rd tid sid mode s = (run, s') \<Longrightarrow> doctor_step s s'"
| apply_fix: "apply_suggestion ad tid sid uid retry s = (a, s') \<Longrightarrow> doctor_step s s'"
| dismiss_fix: "dismiss_suggestion now tid sid s = (d, s') \<Longrightarrow> doctor_step s s'"
| elsewhere: "map unreferenced (suggestions s') = map unreferenced (suggestions s) \<Longrightarrow> doctor_step s s'"

definition suggestions_ok :: "db \<Rightarrow> bool" where
  "suggestions_ok s \<longleftrightarrow> distinct (map fs_id (suggestions s)) \<and> list_all suggestion_ok (suggestions s)"


lemma suggestions_ok_update:
  assumes "suggestions_ok s" "\<And>r. r \<in> set (suggestions s) \<Longrightarrow> p r \<Longrightarrow> suggestion_ok r \<Longrightarrow> suggestion_ok (f r)"
    and "\<And>r. fs_id (f r) = fs_id r" "suggestions s' = row_update p f (suggestions s)"
  shows "suggestions_ok s'"
  using assms unfolding suggestions_ok_def list_all_iff by (auto simp: map_row_update dest: row_update_memD)

lemma get_suggestion_InrD:
  assumes "get_suggestion tid sid s = Inr r" "suggestions_ok s" "x \<in> set (suggestions s)" "fs_id x = sid"
  shows "x = r"
  using assms by (auto simp: get_suggestion_def suggestions_ok_def distinct_map dest!: row_find_SomeD dest: inj_onD
      split: option.splits)

lemma apply_operations_suggestions:
  "apply_patch_operations tid ops s = Inr s1 \<Longrightarrow> suggestions s1 = suggestions s"
  by (induction ops arbitrary: s)
    (auto simp: apply_agent_operation_def apply_tool_operation_def update_agent_row_def split: sum.splits option.splits if_splits)

lemma retry_failed_suggestions: "retry_failed dw tid r retry s = Inr (new, s1) \<Longrightarrow> suggestions s1 = suggestions s"
  by (auto simp: retry_failed_def add_execution_def split: if_splits sum.splits)

lemma suggestions_ok_step: "doctor_step s s' \<Longrightarrow> suggestions_ok s \<Longrightarrow> suggestions_ok s'"
proof (induction rule: doctor_step.induct)
  case (diagnose dw tid eid force s v s')
  show ?case
  proof (cases "s' = s")
    case False
    with diagnose.hyps(1) obtain e wid f logs x where f: "find_cause tid wid logs x s = Inr f"
      and s': "s' = s\<lparr>suggestions := row_update (\<lambda>x. open_suggestion tid eid x \<and> patchable (fs_status x))
        (dismiss (dg_now dw)) (suggestions s) @ [suggestion_row dw e wid f]\<rparr>"
      by (auto simp: diagnose_execution_def Let_def split: sum.splits if_splits)
    have "suggestions_ok (s\<lparr>suggestions := row_update (\<lambda>x. open_suggestion tid eid x \<and> patchable (fs_status x))
        (dismiss (dg_now dw)) (suggestions s)\<rparr>)"
      by (rule suggestions_ok_update [OF diagnose.prems])
        (auto simp: suggestion_ok_def dismiss_def patchable_def)
    moreover have "suggestion_ok (suggestion_row dw e wid f)"
      using find_cause_patch [OF f] by (simp add: suggestion_ok_def suggestion_row_def)
    ultimately show ?thesis using diagnose.hyps(2)
      by (simp add: suggestions_ok_def s' suggestion_row_def map_row_update dismiss_def)
  qed (use diagnose.prems in simp)
next
  case (replay rd tid sid mode s run s')
  show ?case
  proof (cases "s' = s")
    case False
    with replay.hyps obtain r v where r: "get_suggestion tid sid s = Inr r" "\<not> closed r"
      and s': "suggestions s' = row_update (\<lambda>r. fs_id r = sid) (record_replay v) (suggestions s)"
      by (auto simp: replay_suggestion_def update_suggestion_def Let_def split: sum.splits if_splits)
    show ?thesis
      by (rule suggestions_ok_update [OF replay.prems _ _ s'])
        (use r get_suggestion_InrD [OF r(1) replay.prems] in
          \<open>auto simp: suggestion_ok_def record_replay_def replay_result_def closed_def\<close>)
  qed (use replay.prems in simp)
next
  case (apply_fix ad tid sid uid retry s a s')
  show ?case
  proof (cases "s' = s")
    case False
    with apply_fix.hyps obtain r where r: "get_suggestion tid sid s = Inr r" "\<not> closed r"
      and s': "suggestions s' = row_update (\<lambda>r. fs_id r = sid) (mark_applied ad uid) (suggestions s)"
      by (auto simp: apply_suggestion_def update_suggestion_def
          dest!: apply_operations_suggestions retry_failed_suggestions split: sum.splits option.splits if_splits)
    show ?thesis
      by (rule suggestions_ok_update [OF apply_fix.prems _ _ s'])
        (use r get_suggestion_InrD [OF r(1) apply_fix.prems] in
          \<open>auto simp: suggestion_ok_def mark_applied_def closed_def\<close>)
  qed (use apply_fix.prems in simp)
next
  case (dismiss_fix now tid sid s d s')
  show ?case
  proof (cases "s' = s")
    case False
    with dismiss_fix.hyps obtain r where r: "get_suggestion tid sid s = Inr r" "fs_status r \<noteq> FxApplied"
      and s': "suggestions s' = row_update (\<lambda>r. fs_id r = sid) (dismiss now) (suggestions s)"
      by (auto simp: dismiss_suggestion_def update_suggestion_def split: sum.splits if_splits)
    show ?thesis
      by (rule suggestions_ok_update [OF dismiss_fix.prems _ _ s'])
        (use r get_suggestion_InrD [OF r(1) dismiss_fix.prems] in \<open>auto simp: suggestion_ok_def dismiss_def\<close>)
  qed (use dismiss_fix.prems in simp)
next
  case (elsewhere s' s)
  have ok: "list_all suggestion_ok rs \<longleftrightarrow> list_all suggestion_ok (map unreferenced rs)" for rs
    by (induction rs) (simp_all add: suggestion_ok_def unreferenced_def)
  have ids: "map fs_id rs = map fs_id (map unreferenced rs)" for rs
    by (simp add: unreferenced_def)
  from elsewhere show ?case
    unfolding suggestions_ok_def ok [of "suggestions s'"] ok [of "suggestions s"] ids [of "suggestions s'"]
      ids [of "suggestions s"] by (simp only:)
qed

interpretation doctor: invariant_system "\<lambda>s. s = empty_db" doctor_step suggestions_ok
  by unfold_locales (simp add: suggestions_ok_def empty_db_def, rule suggestions_ok_step)


section \<open>What a passed replay shows\<close>

lemma dupdate_fresh:
  "distinct (map fst xs) \<Longrightarrow> fst ` set xs \<inter> fst ` set d = {} \<Longrightarrow> dupdate d xs = d @ xs"
proof (induction xs arbitrary: d)
  case (Cons p xs)
  have "dset (fst p) (snd p) d = d @ [p]"
    using Cons.prems(2) by (induction d) auto
  moreover have "dupdate (d @ [p]) xs = (d @ [p]) @ xs"
    using Cons.prems by (intro Cons.IH) auto
  ultimately show ?case by (simp add: dupdate_def)
qed (simp add: dupdate_def)

definition snapshot_of :: "agent_config \<Rightarrow> string \<times> agent_snapshot" where
  "snapshot_of a = (ac_id a, \<lparr>sn_node_id = ac_node_id a, sn_model = JStr (ac_model a)\<rparr>)"

lemma agent_snapshots_map:
  assumes "distinct (map ac_id (agent_configs s))"
  shows "agent_snapshots tid wid s = map snapshot_of (filter (agent_of tid wid) (agent_configs s))"
proof -
  have "distinct (map fst (map snapshot_of (filter (agent_of tid wid) (agent_configs s))))"
    using assms by (simp add: comp_def snapshot_of_def distinct_map_filter)
  from dupdate_fresh [OF this, of "[]"] show ?thesis
    unfolding agent_snapshots_def snapshot_of_def [symmetric] by simp
qed

lemma dset_keeps: "p \<in> set d \<Longrightarrow> fst p \<noteq> k \<Longrightarrow> p \<in> set (dset k v d)"
  by (induction k v d rule: dset.induct) auto

lemma dset_map_snapshots:
  assumes "\<And>x. ac_id (f x) = ac_id x" "distinct (map ac_id as)" "a \<in> set as"
  shows "dset (ac_id a) (snd (snapshot_of (f a))) (map snapshot_of as) =
    map snapshot_of (map (\<lambda>x. if ac_id x = ac_id a then f a else x) as)"
  using assms(2,3)
proof (induction as)
  case (Cons x as)
  show ?case
  proof (cases "x = a")
    case True
    with Cons.prems have "map (\<lambda>x. if ac_id x = ac_id a then f a else x) as = as"
      by (intro map_idI) (auto simp: image_iff)
    with True assms(1) show ?thesis by (simp add: snapshot_of_def)
  next
    case False
    with Cons.prems have "a \<in> set as" "ac_id x \<noteq> ac_id a" by (auto simp: image_iff)
    with Cons show ?thesis by (simp add: snapshot_of_def)
  qed
qed simp

lemma check_snapshots_map:
  assumes "check_snapshots d (map snapshot_of as) = None"
  shows "validate_definition d = None" "\<forall>a \<in> set as. ac_model a \<in> set VALID_MODELS"
    "set (agent_node_ids d) \<subseteq> (\<lambda>a. Some (ac_node_id a)) ` set as"
  using assms
  by (auto simp: check_snapshots_def Let_def snapshot_of_def filter_empty_iff split: option.splits if_splits)

lemma configured_not_rejected:
  assumes "validate_definition d = None"
    and "set (agent_node_ids d) \<subseteq> (\<lambda>a. Some (ac_node_id a)) ` set (filter (agent_of tid wid) (agent_configs s))"
  shows "compile_graph lg d wid tid s \<noteq> Rejected err"
proof -
  have "missing_configs (agent_node_ids d) (agent_config_map s wid tid (agent_node_ids d)) = []"
    unfolding missing_configs_Nil_iff
  proof
    fix i
    assume i: "i \<in> set (agent_node_ids d)"
    with assms(2) obtain a where a: "i = Some (ac_node_id a)" "agent_of tid wid a" "a \<in> set (agent_configs s)" by auto
    have "ac_node_id a \<in> fst ` set (agent_config_map s wid tid (agent_node_ids d))"
    proof -
      have "dget (ac_node_id a) (agent_config_map s wid tid (agent_node_ids d)) \<noteq> None"
        using a i by (auto simp: agent_config_map_def dget_dupdate select_agent_configs_def agent_of_def
            map_of_eq_None_iff image_iff split: option.splits)
      then show ?thesis by (simp add: dget_None_iff)
    qed
    with a(1) show "\<exists>k. i = Some k \<and> dget k (agent_config_map s wid tid (agent_node_ids d)) \<noteq> None"
      by (auto simp: dget_None_iff)
  qed
  with assms(1) show ?thesis by (auto simp: compile_graph_def Let_def split: option.splits)
qed


definition set_safe_model :: "agent_config \<Rightarrow> agent_config" where
  "set_safe_model a = a\<lparr>ac_model := DEFAULT_SAFE_MODEL\<rparr>"

lemma apply_form:
  assumes "patch_form (fs_patch r)" "apply_patch_operations tid (operation_list (fs_patch r)) s = Inr s1"
  shows "s1 = s \<or> (\<exists>a \<in> set (agent_configs s). ac_tenant_id a = tid \<and> s1 = update_agent_row (ac_id a) set_safe_model s)"
  using assms unfolding patch_form_def
  by (auto simp: apply_agent_operation_model set_safe_model_def [abs_def] dest!: row_find_SomeD
      split: option.splits Option.bind_splits)

lemma replay_passed_agents:
  assumes "patch_form (fs_patch r)" "replay_error tid r s = None" "get_workflow tid (fs_workflow_id r) s = Inr w"
    and "distinct (map ac_id (agent_configs s))" "\<forall>a \<in> set (agent_configs s). parse_uuid (ac_id a) = Some (ac_id a)"
  shows "\<exists>s1. apply_patch_operations tid (operation_list (fs_patch r)) s = Inr s1 \<and>
    validate_patch_operations (fs_patch r) = None \<and>
    check_snapshots (wf_definition w) (map snapshot_of (filter (agent_of tid (wf_id w)) (agent_configs s1))) = None"
proof -
  let ?as = "filter (agent_of tid (wf_id w)) (agent_configs s)"
  have val: "validate_patch_operations (fs_patch r) = None"
    and rep: "validate_replay_patch tid r s = None"
    using assms(2) by (auto simp: replay_error_def split: option.splits)
  obtain snaps where snaps: "patch_snapshots (operation_list (fs_patch r)) (map snapshot_of ?as) = Inr snaps"
      "check_snapshots (wf_definition w) snaps = None"
    using rep assms(3) by (auto simp: validate_replay_patch_def agent_snapshots_map [OF assms(4)] split: sum.splits)
  from assms(1) show ?thesis unfolding patch_form_def
  proof (elim disjE exE)
    assume "fs_patch r = empty_patch"
    with snaps val show ?thesis by simp
  next
    fix aid model
    assume p: "fs_patch r = model_patch aid model"
    with snaps(1) obtain q where q: "dget aid (map snapshot_of ?as) = Some q"
      and sn: "snaps = dset aid (q\<lparr>sn_model := JStr DEFAULT_SAFE_MODEL\<rparr>) (map snapshot_of ?as)"
      by (auto split: option.splits)
    from dget_SomeD [OF q] obtain a where a: "a \<in> set ?as" "snapshot_of a = (aid, q)" by auto
    then have id: "ac_id a = aid" and mem: "a \<in> set (agent_configs s)" "agent_of tid (wf_id w) a"
      by (auto simp: snapshot_of_def)
    have "row_find (\<lambda>x. ac_id x = aid \<and> ac_tenant_id x = tid) (agent_configs s) = Some a"
    proof -
      obtain b where b: "row_find (\<lambda>x. ac_id x = aid \<and> ac_tenant_id x = tid) (agent_configs s) = Some b"
        using mem id by (cases "row_find (\<lambda>x. ac_id x = aid \<and> ac_tenant_id x = tid) (agent_configs s)")
          (auto simp: row_find_None_iff agent_of_def)
      with row_find_SomeD [OF b] mem id assms(4) have "b = a" by (auto simp: distinct_map dest: inj_onD)
      with b show ?thesis by simp
    qed
    moreover have "parse_uuid aid = Some aid" using assms(5) mem id by blast
    ultimately have app: "apply_patch_operations tid (operation_list (fs_patch r)) s = Inr (update_agent_row aid set_safe_model s)"
      using p id by (simp add: apply_agent_operation_model set_safe_model_def [abs_def])
    have "q\<lparr>sn_model := JStr DEFAULT_SAFE_MODEL\<rparr> = snd (snapshot_of (set_safe_model a))"
      using a(2) by (auto simp: snapshot_of_def set_safe_model_def)
    moreover have "distinct (map ac_id ?as)" using assms(4) by (rule distinct_map_filter)
    ultimately have "snaps = map snapshot_of (map (\<lambda>x. if ac_id x = aid then set_safe_model a else x) ?as)"
      using sn id dset_map_snapshots [of set_safe_model ?as a] a(1) by (simp add: set_safe_model_def)
    also have "map (\<lambda>x. if ac_id x = aid then set_safe_model a else x) ?as =
        map (\<lambda>x. if ac_id x = aid then set_safe_model x else x) ?as"
      using mem id assms(4) by (auto simp: distinct_map dest: inj_onD)
    also have "\<dots> = row_update (\<lambda>x. ac_id x = aid) set_safe_model ?as" by (simp add: row_update_def)
    also have "\<dots> = filter (agent_of tid (wf_id w)) (agent_configs (update_agent_row aid set_safe_model s))"
      unfolding update_agent_row_def
      by (simp add: filter_row_update_commute set_safe_model_def agent_of_def)
    finally show ?thesis using app val snaps(2) by auto
  qed
qed

section \<open>Properties\<close>

text \<open>
  C28: the doctor only repairs models. In every reachable state an accepted suggestion, whatever the
  logs of the failed run said, sets the model of at most one agent of the tenant, to the safe one;
  it closes the suggestion, which was open, adds at most one pending execution of the tenant, and
  leaves every tool, workflow, credential and other row as it was.
\<close>

theorem applied_fix_sets_one_model:
  assumes "reachable (\<lambda>s. s = empty_db) doctor_step s" "apply_suggestion dw tid sid uid retry s = (Inr ans, s')"
  shows "\<exists>r agents new. get_suggestion tid sid s = Inr r \<and> fs_status r \<noteq> FxApplied \<and> fs_status r \<noteq> FxDismissed \<and>
    s' = s\<lparr>agent_configs := agents, executions := executions s @ new,
      suggestions := row_update (\<lambda>x. fs_id x = sid) (mark_applied dw uid) (suggestions s)\<rparr> \<and>
    (agents = agent_configs s \<or> (\<exists>a \<in> set (agent_configs s). ac_tenant_id a = tid \<and>
      agents = row_update (\<lambda>x. ac_id x = ac_id a) (\<lambda>x. x\<lparr>ac_model := ''gpt-4o-mini''\<rparr>) (agent_configs s))) \<and>
    length new \<le> 1 \<and> (\<forall>e \<in> set new. ex_status e = ExPending \<and> ex_tenant_id e = tid)"
proof -
  from assms(2) obtain r s1 i s2 where r: "get_suggestion tid sid s = Inr r" "\<not> closed r"
    and s1: "apply_patch_operations tid (operation_list (fs_patch r)) s = Inr s1"
    and s2: "retry_failed dw tid r retry s1 = Inr (i, s2)"
    and s': "s' = update_suggestion sid (mark_applied dw uid) s2"
    by (auto simp: apply_suggestion_def split: sum.splits option.splits if_splits)
  have "suggestions_ok s" by (rule doctor.reachable_inv [OF assms(1)])
  then have "patch_form (fs_patch r)"
    using r(1) by (auto simp: suggestions_ok_def suggestion_ok_def get_suggestion_def list_all_iff
        dest!: row_find_SomeD split: option.splits)
  from apply_form [OF this s1] have "s1 = s\<lparr>agent_configs := agent_configs s1\<rparr> \<and>
    (agent_configs s1 = agent_configs s \<or> (\<exists>a \<in> set (agent_configs s). ac_tenant_id a = tid \<and>
      agent_configs s1 = row_update (\<lambda>x. ac_id x = ac_id a) set_safe_model (agent_configs s)))"
    unfolding update_agent_row_def by auto
  then obtain agents where agents: "s1 = s\<lparr>agent_configs := agents\<rparr>"
    "agents = agent_configs s \<or> (\<exists>a \<in> set (agent_configs s). ac_tenant_id a = tid \<and>
      agents = row_update (\<lambda>x. ac_id x = ac_id a) set_safe_model (agent_configs s))" by blast
  from s2 obtain new where "s2 = s1\<lparr>executions := executions s1 @ new\<rparr>" "length new \<le> 1"
    "\<forall>e \<in> set new. ex_status e = ExPending \<and> ex_tenant_id e = tid"
    by (fastforce simp: retry_failed_def add_execution_def new_execution_def split: if_splits sum.splits
        intro: that [of "[]"])
  with r agents s' show ?thesis
    by (auto simp: closed_def update_suggestion_def set_safe_model_def [abs_def] DEFAULT_SAFE_MODEL_def)
qed


lemma replay_error_cong:
  assumes "fs_patch r' = fs_patch r" "fs_workflow_id r' = fs_workflow_id r" "workflows s' = workflows s"
    and "agent_configs s' = agent_configs s"
  shows "replay_error tid r' s' = replay_error tid r s"
  unfolding replay_error_def validate_replay_patch_def agent_snapshots_def get_workflow_def assms ..

lemma get_suggestion_update:
  assumes "\<And>r. fs_id (f r) = fs_id r" "\<And>r. fs_tenant_id (f r) = fs_tenant_id r" "get_suggestion tid sid s = Inr r"
    and "suggestions s' = row_update (\<lambda>r. fs_id r = sid) f (suggestions s)"
  shows "get_suggestion tid sid s' = Inr (f r)"
proof -
  from assms(3) have r: "row_find (\<lambda>r. fs_id r = sid \<and> fs_tenant_id r = tid) (suggestions s) = Some r"
    by (auto simp: get_suggestion_def split: option.splits)
  have "row_find (\<lambda>r. fs_id r = sid \<and> fs_tenant_id r = tid) (suggestions s') = Some (f r)"
    unfolding assms(4) using row_find_SomeD [OF r] r assms(1,2) by (subst row_find_row_update_same) auto
  then show ?thesis by (simp add: get_suggestion_def)
qed

text \<open>
  C29: a passed replay keeps its promise. When a suggestion of a reachable state passes its replay,
  which calls nothing, applying it right after is accepted, every agent of its workflow has a model the
  workspace supports, and the compiler no longer rejects the workflow. The identifiers of agents
  are keys in canonical form.
\<close>

theorem passed_replay_repairs:
  assumes "reachable (\<lambda>s. s = empty_db) doctor_step s" "replay_suggestion rd tid sid mode s = (Inr run, s1)"
    and "rr_status run = RpPassed" "distinct (map ac_id (agent_configs s))"
    and "\<forall>a \<in> set (agent_configs s). parse_uuid (ac_id a) = Some (ac_id a)"
  shows "\<exists>w ans s2. get_workflow tid (rr_workflow_id run) s1 = Inr w \<and>
    apply_suggestion ad tid sid uid False s1 = (Inr ans, s2) \<and>
    (\<forall>a \<in> set (agent_configs s2). agent_of tid (wf_id w) a \<longrightarrow> ac_model a \<in> set VALID_MODELS) \<and>
    (\<forall>lg err. compile_graph lg (wf_definition w) (wf_id w) tid s2 \<noteq> Rejected err)"
proof -
  from assms(2,3) obtain r where r: "get_suggestion tid sid s = Inr r" "\<not> closed r" "replay_error tid r s = None"
    and run: "rr_workflow_id run = fs_workflow_id r"
    and s1: "s1 = update_suggestion sid (record_replay None) (s\<lparr>replay_runs := replay_runs s @ [run]\<rparr>)"
    by (auto simp: replay_suggestion_def Let_def split: sum.splits if_splits)
  let ?r = "record_replay None r"
  have form: "patch_form (fs_patch ?r)"
    using doctor.reachable_inv [OF assms(1)] r(1)
    by (auto simp: record_replay_def suggestions_ok_def suggestion_ok_def get_suggestion_def list_all_iff
        dest!: row_find_SomeD split: option.splits)
  have g: "get_suggestion tid sid s1 = Inr ?r"
    by (rule get_suggestion_update [OF _ _ r(1), of "record_replay None"])
      (simp_all add: s1 update_suggestion_def, simp_all add: record_replay_def)
  have e: "replay_error tid ?r s1 = None"
    using r(3) replay_error_cong [of ?r r s1 s] by (simp add: record_replay_def s1 update_suggestion_def)
  then obtain w where w: "get_workflow tid (fs_workflow_id ?r) s1 = Inr w"
    by (auto simp: replay_error_def validate_replay_patch_def split: option.splits sum.splits)
  have ids: "distinct (map ac_id (agent_configs s1))" "\<forall>a \<in> set (agent_configs s1). parse_uuid (ac_id a) = Some (ac_id a)"
    using assms(4,5) by (simp_all add: s1 update_suggestion_def)
  from replay_passed_agents [OF form e w ids] obtain s2 where
    s2: "apply_patch_operations tid (operation_list (fs_patch ?r)) s1 = Inr s2" "validate_patch_operations (fs_patch ?r) = None"
      "check_snapshots (wf_definition w) (map snapshot_of (filter (agent_of tid (wf_id w)) (agent_configs s2))) = None" by blast
  let ?s3 = "update_suggestion sid (mark_applied ad uid) s2"
  have "\<exists>ans. apply_suggestion ad tid sid uid False s1 = (Inr ans, ?s3)"
    using g s2(1,2) by (auto simp: apply_suggestion_def closed_def retry_failed_def) (simp_all add: record_replay_def)
  then obtain ans where ans: "apply_suggestion ad tid sid uid False s1 = (Inr ans, ?s3)" by blast
  have same: "agent_configs ?s3 = agent_configs s2" by (simp add: update_suggestion_def)
  note ok = check_snapshots_map [OF s2(3)]
  have "compile_graph lg (wf_definition w) (wf_id w) tid ?s3 \<noteq> Rejected err" for lg err
    by (rule configured_not_rejected [OF ok(1)]) (use ok(3) same in simp)
  moreover have "\<forall>a \<in> set (agent_configs ?s3). agent_of tid (wf_id w) a \<longrightarrow> ac_model a \<in> set VALID_MODELS"
    unfolding same using ok(2) by simp
  moreover have "get_workflow tid (rr_workflow_id run) s1 = Inr w" using w run by (simp add: record_replay_def)
  ultimately show ?thesis using ans by blast
qed

text \<open>
  The retry of an applied suggestion is not admitted like other executions: neither the budget nor
  the limit of concurrent executions is looked at.
\<close>

lemma retry_ignores_limits:
  assumes "get_execution tid (fs_execution_id r) s = Inr e"
  shows "\<exists>x. retry_failed dw tid r True s = Inr (Some (ad_execution_id dw), s\<lparr>executions := executions s @ [x]\<rparr>) \<and>
    ex_status x = ExPending \<and> ex_tenant_id x = tid"
  using assms by (intro exI conjI) (auto simp: retry_failed_def add_execution_def new_execution_def)


text \<open>The witness: a run of one agent with a model nobody supports.\<close>

definition broken_agent :: agent_config where
  "broken_agent = \<lparr>ac_id = ''00000000-0000-4000-8000-000000000001'', ac_tenant_id = ''t1'', ac_workflow_id = ''w1'',
    ac_node_id = ''n1'', ac_name = ''Reader'', ac_role = ''retriever'', ac_system_prompt = [], ac_model = ''gpt-3'',
    ac_tools = [], ac_memory_type = ''buffer'', ac_max_tokens = 4096, ac_temperature = 0, ac_created_at = 0\<rparr>"

definition broken_db :: db where
  "broken_db = empty_db\<lparr>
    workflows := [sample_workflow ''w1'' \<lparr>df_nodes = [\<lparr>nd_id = Some ''n1'', nd_type = None, nd_data = JNull\<rparr>], df_edges = []\<rparr> ''linear''],
    agent_configs := [broken_agent],
    executions := [(sample_execution ''e1'' ''w1'' ExFailed)\<lparr>ex_error_message := Some ''Unsupported model: gpt-3''\<rparr>]\<rparr>"

definition diagnosed_db :: db where
  "diagnosed_db = snd (diagnose_execution \<lparr>dg_now = 1, dg_id = ''f1'', dg_created = 1\<rparr> ''t1'' ''e1'' False broken_db)"

definition replayed :: "(http_error + replay_run) \<times> db" where
  "replayed = replay_suggestion \<lparr>rd_id = ''p1'', rd_started = 2, rd_completed = 2\<rparr> ''t1'' ''f1'' ''validation_only'' diagnosed_db"

definition sample_apply :: apply_draw where
  "sample_apply = \<lparr>ad_now = 3, ad_execution_id = ''e2'', ad_created = 3\<rparr>"

lemma diagnosed_reachable: "reachable (\<lambda>s. s = empty_db) doctor_step diagnosed_db"
proof -
  have "reachable (\<lambda>s. s = empty_db) doctor_step empty_db" by (rule reachable.base) simp
  moreover have "doctor_step empty_db broken_db"
    by (rule doctor_step.elsewhere) (simp add: broken_db_def empty_db_def)
  moreover have "doctor_step broken_db diagnosed_db"
    unfolding diagnosed_db_def
    by (rule doctor_step.diagnose [OF prod.collapse [symmetric]]) (simp add: broken_db_def empty_db_def)
  ultimately show ?thesis by (blast intro: reachable.more)
qed

theorem applied_fix_sets_one_model_witness:
  "\<exists>ans s'. apply_suggestion sample_apply ''t1'' ''f1'' ''u1'' True diagnosed_db = (Inr ans, s') \<and>
    tools s' = tools diagnosed_db \<and> map ac_model (agent_configs s') = [''gpt-4o-mini''] \<and>
    map ex_id (executions s') = [''e1'', ''e2'']"
proof -
  let ?a = "apply_suggestion sample_apply ''t1'' ''f1'' ''u1'' True diagnosed_db"
  have "\<not> isl (fst ?a)" by code_simp
  then obtain ans where a: "?a = (Inr ans, snd ?a)" by (metis isl_def prod.collapse sum.collapse(2))
  have "map ac_model (agent_configs (snd ?a)) = [''gpt-4o-mini'']" "map ex_id (executions (snd ?a)) = [''e1'', ''e2'']"
    by code_simp+
  moreover have "tools (snd ?a) = tools diagnosed_db"
    using applied_fix_sets_one_model [OF diagnosed_reachable a] by auto
  ultimately show ?thesis by (intro exI conjI) (rule a)
qed

theorem passed_replay_repairs_witness:
  "\<exists>run s1 ans s2. replayed = (Inr run, s1) \<and> rr_status run = RpPassed \<and>
    apply_suggestion sample_apply ''t1'' ''f1'' ''u1'' False s1 = (Inr ans, s2) \<and>
    list_all (\<lambda>a. agent_of ''t1'' ''w1'' a \<longrightarrow> ac_model a \<in> set VALID_MODELS) (agent_configs s2)"
proof -
  have "case fst replayed of Inr run \<Rightarrow> rr_status run = RpPassed \<and> rr_workflow_id run = ''w1'' | Inl _ \<Rightarrow> False" by code_simp
  then obtain run where run: "fst replayed = Inr run" "rr_status run = RpPassed" "rr_workflow_id run = ''w1''"
    by (auto split: sum.splits)
  then have r: "replay_suggestion \<lparr>rd_id = ''p1'', rd_started = 2, rd_completed = 2\<rparr> ''t1'' ''f1'' ''validation_only'' diagnosed_db
      = (Inr run, snd replayed)"
    by (metis replayed_def prod.collapse)
  have "map ac_id (agent_configs diagnosed_db) = [''00000000-0000-4000-8000-000000000001'']" by code_simp
  moreover have "parse_uuid ''00000000-0000-4000-8000-000000000001'' = Some ''00000000-0000-4000-8000-000000000001''"
    by code_simp
  ultimately have ids: "distinct (map ac_id (agent_configs diagnosed_db))"
      "\<forall>a \<in> set (agent_configs diagnosed_db). parse_uuid (ac_id a) = Some (ac_id a)"
    by (auto simp: map_eq_Cons_conv)
  have wid: "wf_id w = ''w1''" if "get_workflow ''t1'' (rr_workflow_id run) s = Inr w" for w s
    using that run(3) by (auto simp: get_workflow_def dest: row_find_SomeD split: option.splits)
  from passed_replay_repairs [OF diagnosed_reachable r run(2) ids, of sample_apply "''u1''"] obtain w ans s2 where "get_workflow ''t1'' (rr_workflow_id run) (snd replayed) = Inr w"
    "apply_suggestion sample_apply ''t1'' ''f1'' ''u1'' False (snd replayed) = (Inr ans, s2)"
    "\<forall>a \<in> set (agent_configs s2). agent_of ''t1'' (wf_id w) a \<longrightarrow> ac_model a \<in> set VALID_MODELS" by auto
  moreover from this(1) have "wf_id w = ''w1''" by (rule wid)
  moreover have "replayed = (Inr run, snd replayed)" by (rule prod_eqI) (simp_all add: run(1))
  ultimately show ?thesis using run(2) by (auto simp: list_all_iff)
qed

end
