(* ===== verification/SafeHttp.thy ===== *)
theory SafeHttp
  imports Connectors
begin

text \<open>
  Outgoing HTTP: \<open>app/engine/tools/safe_http.py\<close> and the connector runtime,
  \<open>app/services/connector_runtime_service.py\<close>, over a model of \<open>urllib.parse.urlparse\<close> for ASCII
  texts. Name resolution, the address tables of \<open>ipaddress\<close> and the exchange on an open connection
  are the record \<open>net\<close>; every look-up of a name may answer differently. The state \<open>traffic\<close>
  counts the look-ups and records the connections.
\<close>

section \<open>URLs\<close>

record parsed_url =
  pu_scheme :: string
  pu_netloc :: string
  pu_path :: string
  pu_params :: string
  pu_query :: string

definition newline_or_tab :: "char \<Rightarrow> bool" where
  "newline_or_tab c \<longleftrightarrow> c \<in> {CHR 0x09, CHR 0x0A, CHR 0x0D}"

definition alpha :: "char \<Rightarrow> bool" where
  "alpha c \<longleftrightarrow> alnum c \<and> \<not> is_digit c"

definition scheme_char :: "char \<Rightarrow> bool" where
  "scheme_char c \<longleftrightarrow> alnum c \<or> c \<in> set ''+-.''"

definition uses_params :: "string list" where
  "uses_params = [[], ''ftp'', ''hdl'', ''prospero'', ''http'', ''imap'', ''https'', ''shttp'', ''rtsp'',
    ''rtsps'', ''rtspu'', ''sip'', ''sips'', ''mms'', ''sftp'', ''tel'']"

definition split_scheme :: "string \<Rightarrow> string \<times> string" where
  "split_scheme u =
    (let s = takeWhile (\<lambda>c. c \<noteq> CHR '':'') u in
     if length s < length u \<and> s \<noteq> [] \<and> alpha (hd s) \<and> list_all scheme_char s
     then (py_lower s, drop (Suc (length s)) u) else ([], u))"

definition split_netloc :: "string \<Rightarrow> string \<times> string" where
  "split_netloc u =
    (if prefix ''//'' u then
       (let n = takeWhile (\<lambda>c. c \<notin> {CHR ''/'', CHR ''?'', CHR ''#''}) (drop 2 u) in (n, drop (length n + 2) u))
     else ([], u))"

text \<open>The text before the first \<open>c\<close>, and after it.\<close>

definition partition_at :: "char \<Rightarrow> string \<Rightarrow> string \<times> string" where
  "partition_at c x = (let a = takeWhile (\<lambda>d. d \<noteq> c) x in (a, drop (Suc (length a)) x))"

definition split_params :: "string \<Rightarrow> string \<times> string" where
  "split_params u =
    (let tail = rev (takeWhile (\<lambda>c. c \<noteq> CHR ''/'') (rev u)); before = take (length u - length tail) u;
         p = partition_at (CHR '';'') tail in
     (before @ fst p, snd p))"

text \<open>
  \<open>urlparse\<close>: \<open>None\<close> is a \<open>ValueError\<close>; \<open>bracketed\<close> decides the host between brackets.
\<close>

definition urlparse :: "(string \<Rightarrow> bool) \<Rightarrow> string \<Rightarrow> parsed_url option" where
  "urlparse bracketed url =
    (let u = filter (\<lambda>c. \<not> newline_or_tab c) (dropWhile (\<lambda>c. (of_char c :: nat) \<le> 32) url);
         (scheme, u1) = split_scheme u; (netloc, u2) = split_netloc u1;
         u3 = fst (partition_at (CHR ''#'') u2); (path, query) = partition_at (CHR ''?'') u3;
         (path', params) = (if scheme \<in> set uses_params then split_params path else (path, [])) in
     if (CHR ''['' \<in> set netloc) \<noteq> (CHR '']'' \<in> set netloc) then None
     else if CHR ''['' \<in> set netloc \<and>
       \<not> bracketed (fst (partition_at (CHR '']'') (snd (partition_at (CHR ''['') netloc)))) then None
     else Some \<lparr>pu_scheme = scheme, pu_netloc = netloc, pu_path = path', pu_params = params, pu_query = query\<rparr>)"

definition host_info :: "parsed_url \<Rightarrow> string" where
  "host_info p = rev (takeWhile (\<lambda>c. c \<noteq> CHR ''@'') (rev (pu_netloc p)))"

definition has_credentials :: "parsed_url \<Rightarrow> bool" where
  "has_credentials p \<longleftrightarrow> CHR ''@'' \<in> set (pu_netloc p) \<and>
    (let u = partition_at (CHR '':'') (take (length (pu_netloc p) - length (host_info p) - 1) (pu_netloc p)) in
     fst u \<noteq> [] \<or> snd u \<noteq> [])"

definition host_and_port :: "parsed_url \<Rightarrow> string \<times> string" where
  "host_and_port p =
    (let h = host_info p in
     if CHR ''['' \<in> set h then
       (let b = partition_at (CHR '']'') (snd (partition_at (CHR ''['') h)) in
        (fst b, snd (partition_at (CHR '':'') (snd b))))
     else partition_at (CHR '':'') h)"

text \<open>The empty text stands for an absent host.\<close>

definition hostname :: "parsed_url \<Rightarrow> string" where
  "hostname p =
    (let h = fst (host_and_port p); name = takeWhile (\<lambda>c. c \<noteq> CHR ''%'') h in
     py_lower name @ drop (length name) h)"

text \<open>\<open>Inl\<close>: the \<open>ValueError\<close> of a port that is no number, or out of range.\<close>

definition port_of :: "parsed_url \<Rightarrow> string + int option" where
  "port_of p =
    (let t = snd (host_and_port p) in
     if t = [] then Inr None
     else if \<not> list_all is_digit t then Inl ''Port could not be cast to integer value''
     else if digits_value t > 65535 then Inl ''Port out of range 0-65535''
     else Inr (Some (int (digits_value t))))"

text \<open>\<open>urlencode(params, doseq=True)\<close>.\<close>

definition upper_char :: "char \<Rightarrow> char" where
  "upper_char c = (case map_of (zip ''abcdefghijklmnopqrstuvwxyz'' ''ABCDEFGHIJKLMNOPQRSTUVWXYZ'') c of
    Some d \<Rightarrow> d | None \<Rightarrow> c)"

definition py_upper :: "string \<Rightarrow> string" where
  "py_upper x = map upper_char x"

definition quote_plus :: "string \<Rightarrow> string" where
  "quote_plus x = concat (map (\<lambda>c.
    if alnum c \<or> c \<in> set ''_.-~'' then [c]
    else if c = CHR '' '' then ''+''
    else CHR ''%'' # py_upper (hex2 c)) x)"

definition urlencode_values :: "json \<Rightarrow> json list" where
  "urlencode_values v = (case v of JList xs \<Rightarrow> xs | JObj d \<Rightarrow> map (\<lambda>p. JStr (fst p)) d | _ \<Rightarrow> [v])"

definition urlencode :: "(string, json) dict \<Rightarrow> string" where
  "urlencode params = join ''&'' (concat (map (\<lambda>p.
    map (\<lambda>v. quote_plus (fst p) @ ''='' @ quote_plus (py_str v)) (urlencode_values (snd p))) params))"

section \<open>Addresses and connections\<close>

record ip_flags =
  ip_text :: string
  ip_is_private :: bool
  ip_is_loopback :: bool
  ip_is_link_local :: bool
  ip_is_multicast :: bool
  ip_is_reserved :: bool
  ip_is_unspecified :: bool

record connection =
  cx_address :: string
  cx_port :: int
  cx_server_hostname :: "string option"
  cx_request :: string

text \<open>An exception: a \<open>ValueError\<close> with its text, a time-out, or another one with its text.\<close>

datatype net_error = ValueErr string | TimeoutErr | OtherErr string

fun error_text :: "net_error \<Rightarrow> string" where
  "error_text (ValueErr x) = x"
| "error_text TimeoutErr = []"
| "error_text (OtherErr x) = x"

record net =
  ne_ip_address :: "string \<Rightarrow> ip_flags option"
  ne_bracketed_host :: "string \<Rightarrow> bool"
  ne_getaddrinfo :: "nat \<Rightarrow> string \<Rightarrow> int option \<Rightarrow> string list option"
  ne_exchange :: "connection \<Rightarrow> net_error + string list"
  ne_float_text :: "string \<Rightarrow> bool"

record traffic =
  tf_lookups :: nat
  tf_connections :: "connection list"

type_synonym 'a netio = "traffic \<Rightarrow> (net_error + 'a) \<times> traffic"

definition is_disallowed_ip :: "net \<Rightarrow> string \<Rightarrow> bool" where
  "is_disallowed_ip net v =
    (case ne_ip_address net v of
      None \<Rightarrow> True
    | Some ip \<Rightarrow> ip_is_private ip \<or> ip_is_loopback ip \<or> ip_is_link_local ip \<or> ip_is_multicast ip \<or>
        ip_is_reserved ip \<or> ip_is_unspecified ip)"

definition resolve_public_addresses :: "net \<Rightarrow> string \<Rightarrow> int option \<Rightarrow> string list netio" where
  "resolve_public_addresses net host port tf =
    (let tf1 = tf\<lparr>tf_lookups := Suc (tf_lookups tf)\<rparr> in
     case ne_getaddrinfo net (tf_lookups tf) host port of
       None \<Rightarrow> (Inl (ValueErr ''Unable to resolve API URL host''), tf1)
     | Some addresses \<Rightarrow>
        if addresses = [] \<or> list_ex (is_disallowed_ip net) addresses
        then (Inl (ValueErr ''API URL resolves to a restricted network''), tf1)
        else (Inr addresses, tf1))"

text \<open>\<open>sorted(addresses)[0]\<close> of a set that is not empty.\<close>

definition first_address :: "string list \<Rightarrow> string" where
  "first_address addresses = hd (sort addresses)"

definition assert_safe_api_url :: "net \<Rightarrow> string \<Rightarrow> unit netio" where
  "assert_safe_api_url net url tf =
    (case urlparse (ne_bracketed_host net) url of
      None \<Rightarrow> (Inl (ValueErr ''Invalid IPv6 URL''), tf)
    | Some p \<Rightarrow>
       if hostname p = [] then (Inl (ValueErr ''Invalid API URL''), tf)
       else if py_lower (hostname p) = ''localhost'' then (Inl (ValueErr ''API URL host is not allowed''), tf)
       else if py_lower (pu_scheme p) \<noteq> ''https'' then (Inl (ValueErr ''Only https API URLs are allowed''), tf)
       else if has_credentials p then (Inl (ValueErr ''Credentials in API URL are not allowed''), tf)
       else if ne_ip_address net (hostname p) \<noteq> None then
         (if is_disallowed_ip net (hostname p) then (Inl (ValueErr ''API URL resolves to a restricted network''), tf)
          else (Inr (), tf))
       else case port_of p of
         Inl msg \<Rightarrow> (Inl (ValueErr msg), tf)
       | Inr port \<Rightarrow>
          (case resolve_public_addresses net (hostname p) port tf of
            (Inl err, tf1) \<Rightarrow> (Inl err, tf1)
          | (Inr _, tf1) \<Rightarrow> (Inr (), tf1)))"

section \<open>Writing a request\<close>

definition CRLF :: string where
  "CRLF = [CHR 0x0D, CHR 0x0A]"

definition has_newline :: "string \<Rightarrow> bool" where
  "has_newline x \<longleftrightarrow> CHR 0x0D \<in> set x \<or> CHR 0x0A \<in> set x"

definition clean_header_value :: "json \<Rightarrow> string + string" where
  "clean_header_value v =
    (if has_newline (py_str v) then Inl ''HTTP header values cannot contain newlines'' else Inr (py_str v))"

fun add_headers :: "(string, json) dict \<Rightarrow> (string, string) dict \<Rightarrow> string + (string, string) dict" where
  "add_headers [] acc = Inr acc"
| "add_headers ((key, v) # hs) acc =
    (if py_lower key \<in> {''host'', ''connection'', ''content-length''} then add_headers hs acc
     else if has_newline key \<or> CHR '':'' \<in> set key then Inl ''Invalid HTTP header name''
     else case clean_header_value v of
       Inl msg \<Rightarrow> Inl msg
     | Inr text \<Rightarrow> add_headers hs (dset key text acc))"

text \<open>\<open>(headers or {}).items()\<close>, for headers of any kind.\<close>

definition add_any_headers :: "json \<Rightarrow> (string, string) dict \<Rightarrow> net_error + (string, string) dict" where
  "add_any_headers headers acc =
    (case py_or headers (JObj []) of
      JObj hs \<Rightarrow> (case add_headers hs acc of Inl msg \<Rightarrow> Inl (ValueErr msg) | Inr r \<Rightarrow> Inr r)
    | v \<Rightarrow> Inl (OtherErr (quoted (type_name v) @ '' object has no attribute '' @ quoted ''items'')))"

definition header_line :: "string \<times> string \<Rightarrow> string" where
  "header_line h = fst h @ '': '' @ snd h"

definition render_request :: "string \<Rightarrow> string \<Rightarrow> (string, string) dict \<Rightarrow> string \<Rightarrow> string" where
  "render_request verb path headers body =
    verb @ '' '' @ path @ '' HTTP/1.1'' @ CRLF @ concat (map (\<lambda>h. header_line h @ CRLF) headers) @ CRLF @ body"

definition with_length :: "string \<Rightarrow> (string, string) dict \<Rightarrow> (string, string) dict" where
  "with_length body headers =
    (if body = [] then headers else dset ''Content-Length'' (show_nat (length body)) headers)"

definition host_header :: "string \<Rightarrow> int \<Rightarrow> int \<Rightarrow> string" where
  "host_header host port dflt = (if port = dflt then host else host @ '':'' @ show_int port)"

section \<open>Reading a response\<close>

definition MAX_RESPONSE_BYTES :: nat where
  "MAX_RESPONSE_BYTES = 1000000"

text \<open>The loop over the chunks, up to the first empty one; \<open>None\<close> when they exceed the limit.\<close>

fun read_chunks :: "nat \<Rightarrow> string \<Rightarrow> string list \<Rightarrow> string option" where
  "read_chunks limit raw [] = Some raw"
| "read_chunks limit raw (c # cs) =
    (if c = [] then Some raw
     else if length raw + length c > limit then None
     else read_chunks limit (raw @ c) cs)"

text \<open>\<open>x.partition(sep)\<close> for a longer separator.\<close>

fun split_at :: "string \<Rightarrow> string \<Rightarrow> string \<times> string" where
  "split_at sep [] = ([], [])"
| "split_at sep (c # x) =
    (if prefix sep (c # x) then ([], drop (length sep) (c # x))
     else (case split_at sep x of (a, b) \<Rightarrow> (c # a, b)))"

fun split_lines :: "string \<Rightarrow> string list" where
  "split_lines [] = [[]]"
| "split_lines (c # x) =
    (if prefix CRLF (c # x) then [] # split_lines (tl x)
     else (case split_lines x of [] \<Rightarrow> [[c]] | y # ys \<Rightarrow> (c # y) # ys))"

record response =
  rp_status_code :: int
  rp_headers :: "(string, string) dict"
  rp_body_text :: string
  rp_body_json :: "json option"

definition parse_response_headers :: "string \<Rightarrow> (string, string) dict" where
  "parse_response_headers text = dupdate [] (map (\<lambda>line. case partition_at (CHR '':'') line of
      (name, v) \<Rightarrow> (py_strip name, py_strip v))
    (filter (\<lambda>line. CHR '':'' \<in> set line) (tl (split_lines text))))"

definition parse_response :: "string \<Rightarrow> net_error + response" where
  "parse_response raw =
    (let (head, body) = split_at (CRLF @ CRLF) raw;
         parts = py_split (CHR '' '') (hd (split_lines head)) in
     if length parts < 2 \<or> parts ! 1 = [] \<or> \<not> list_all is_digit (parts ! 1) then Inl (ValueErr ''Invalid HTTP response'')
     else Inr \<lparr>rp_status_code = int (digits_value (parts ! 1)), rp_headers = parse_response_headers head,
       rp_body_text = body, rp_body_json = loads body\<rparr>)"

definition exchange :: "net \<Rightarrow> nat \<Rightarrow> connection \<Rightarrow> response netio" where
  "exchange net limit c tf =
    (let tf1 = tf\<lparr>tf_connections := tf_connections tf @ [c]\<rparr> in
     case ne_exchange net c of
       Inl err \<Rightarrow> (Inl err, tf1)
     | Inr chunks \<Rightarrow>
        (case read_chunks limit [] chunks of
          None \<Rightarrow> (Inl (ValueErr ''HTTP response exceeds maximum size''), tf1)
        | Some raw \<Rightarrow> (parse_response raw, tf1)))"

section \<open>The two requests\<close>

text \<open>\<open>port or dflt\<close>: port 0 counts as absent.\<close>

definition port_or :: "int option \<Rightarrow> int \<Rightarrow> int" where
  "port_or port dflt = (case port of None \<Rightarrow> dflt | Some n \<Rightarrow> if n = 0 then dflt else n)"

definition path_and_query :: "parsed_url \<Rightarrow> string \<Rightarrow> string" where
  "path_and_query p query =
    (let path = (if pu_path p = [] then ''/'' else pu_path p) in
     if query = [] then path else path @ ''?'' @ query)"

definition safe_http_request ::
  "net \<Rightarrow> string \<Rightarrow> string \<Rightarrow> json \<Rightarrow> string \<Rightarrow> response netio" where
  "safe_http_request net verb url headers body tf =
    (case urlparse (ne_bracketed_host net) url of
      None \<Rightarrow> (Inl (ValueErr ''Invalid IPv6 URL''), tf)
    | Some p \<Rightarrow>
       (case assert_safe_api_url net url tf of
         (Inl err, tf1) \<Rightarrow> (Inl err, tf1)
       | (Inr _, tf1) \<Rightarrow>
          (case port_of p of
            Inl msg \<Rightarrow> (Inl (ValueErr msg), tf1)
          | Inr port0 \<Rightarrow>
             (let host = hostname p; port = port_or port0 443 in
              case resolve_public_addresses net host (Some port) tf1 of
                (Inl err, tf2) \<Rightarrow> (Inl err, tf2)
              | (Inr addresses, tf2) \<Rightarrow>
                 if py_upper verb \<notin> {''GET'', ''POST'', ''PUT'', ''DELETE''} then
                   (Inl (ValueErr ''Unsupported HTTP method''), tf2)
                 else case add_any_headers headers [(''Host'', host_header host port 443),
                     (''User-Agent'', ''GraphPilot/1.0''), (''Connection'', ''close'')] of
                   Inl err \<Rightarrow> (Inl err, tf2)
                 | Inr hs \<Rightarrow> exchange net MAX_RESPONSE_BYTES
                     \<lparr>cx_address = first_address addresses, cx_port = port, cx_server_hostname = Some host,
                      cx_request = render_request (py_upper verb) (path_and_query p (pu_query p)) (with_length body hs) body\<rparr>
                     tf2))))"

text \<open>
  The addresses a pinned request may use: a literal address that is allowed, or what the name
  resolves to. The text of the exception for a name that is no literal quotes the name, so a name
  that contains the words of the refusal is refused too.
\<close>

definition quotes_refusal :: "string \<Rightarrow> bool" where
  "quotes_refusal host \<longleftrightarrow> occurs_in ''restricted network'' (repr_string host)"

definition pinned_addresses :: "net \<Rightarrow> string \<Rightarrow> int \<Rightarrow> string list netio" where
  "pinned_addresses net host port tf =
    (if ne_ip_address net host \<noteq> None then
       (if is_disallowed_ip net host then (Inl (ValueErr ''URL resolves to a restricted network''), tf)
        else (Inr [host], tf))
     else if quotes_refusal host then
       (Inl (ValueErr (repr_string host @ '' does not appear to be an IPv4 or IPv6 address'')), tf)
     else resolve_public_addresses net host (Some port) tf)"

text \<open>The body of a pinned request: \<open>json_body\<close> when it is not None, or else \<open>body\<close>.\<close>

definition pinned_body :: "json \<Rightarrow> string \<Rightarrow> string" where
  "pinned_body json_body body = (if json_body = JNull then body else dumps_compact json_body)"

definition pinned_base_headers :: "string \<Rightarrow> json \<Rightarrow> (string, string) dict" where
  "pinned_base_headers host json_body =
    [(''Host'', host), (''User-Agent'', ''GraphPilot/1.0''), (''Accept'', ''*/*''), (''Connection'', ''close'')] @
    (if json_body = JNull then [] else [(''Content-Type'', ''application/json'')])"

definition pinned_query :: "parsed_url \<Rightarrow> (string, json) dict \<Rightarrow> string" where
  "pinned_query p params =
    (if params = [] then pu_query p
     else if pu_query p = [] then urlencode params else pu_query p @ ''&'' @ urlencode params)"

definition pinned_send ::
  "net \<Rightarrow> parsed_url \<Rightarrow> int \<Rightarrow> int \<Rightarrow> string \<Rightarrow> (string, json) dict \<Rightarrow> (string, json) dict \<Rightarrow> json \<Rightarrow> string \<Rightarrow> nat \<Rightarrow>
    response netio" where
  "pinned_send net p port dflt verb headers params json_body body max_bytes tf =
    (let text = pinned_body json_body body in
     case pinned_addresses net (hostname p) port tf of
       (Inl err, tf1) \<Rightarrow> (Inl err, tf1)
     | (Inr addresses, tf1) \<Rightarrow>
        if verb \<notin> {''GET'', ''POST'', ''PUT'', ''PATCH'', ''DELETE''} then
          (Inl (ValueErr ''Unsupported HTTP method''), tf1)
        else case add_headers headers (pinned_base_headers (host_header (hostname p) port dflt) json_body) of
          Inl msg \<Rightarrow> (Inl (ValueErr msg), tf1)
        | Inr hs \<Rightarrow> exchange net max_bytes
            \<lparr>cx_address = first_address addresses, cx_port = port,
             cx_server_hostname = (if dflt = 443 then Some (hostname p) else None),
             cx_request = render_request verb (path_and_query p (pinned_query p params))
               (with_length text hs) text\<rparr> tf1)"

definition pinned_http_request ::
  "net \<Rightarrow> string \<Rightarrow> string \<Rightarrow> (string, json) dict \<Rightarrow> (string, json) dict \<Rightarrow> json \<Rightarrow> string \<Rightarrow> bool \<Rightarrow> nat \<Rightarrow>
    response netio" where
  "pinned_http_request net verb url headers params json_body body allow_http max_bytes tf =
    (case urlparse (ne_bracketed_host net) url of
      None \<Rightarrow> (Inl (ValueErr ''Invalid IPv6 URL''), tf)
    | Some p \<Rightarrow>
       (let scheme = py_lower (pu_scheme p); dflt = (if scheme = ''https'' then 443 else 80) in
        if scheme \<notin> {''http'', ''https''} \<or> (scheme = ''http'' \<and> \<not> allow_http) then
          (Inl (ValueErr ''Only https URLs are allowed''), tf)
        else if hostname p = [] then (Inl (ValueErr ''Invalid URL''), tf)
        else if has_credentials p then (Inl (ValueErr ''Credentials in URL are not allowed''), tf)
        else case port_of p of
          Inl msg \<Rightarrow> (Inl (ValueErr msg), tf)
        | Inr port0 \<Rightarrow>
            pinned_send net p (port_or port0 dflt) dflt (py_upper verb) headers params json_body body max_bytes tf))"

section \<open>Connector nodes\<close>

text \<open>
  \<open>ConnectorRuntimeError\<close>, with the values it falls back to: an empty input reads as absent, an
  absent output is the sanitized message.
\<close>

definition runtime_error :: "string \<Rightarrow> string \<Rightarrow> bool \<Rightarrow> json \<Rightarrow> json \<Rightarrow> connector_error" where
  "runtime_error msg code retryable input output =
    \<lparr>ce_detector_code = code, ce_retryable = retryable, ce_input_data = py_or input (JObj []),
     ce_output_data = py_or output (JObj [(''error'', JStr (sanitize_text msg))]),
     ce_sanitized_error = sanitize_text msg\<rparr>"

definition plain_error :: "string \<Rightarrow> connector_error" where
  "plain_error msg = runtime_error msg ''connector_runtime_error'' False JNull JNull"

definition node_data :: "node \<Rightarrow> (string, json) dict" where
  "node_data n = obj_or_empty (py_or (nd_data n) (JObj []))"

definition get_action :: "string \<Rightarrow> string \<Rightarrow> connector_error + (string, json) dict" where
  "get_action connector_key action_key =
    (case dget connector_key BUILT_IN_CONNECTORS of
      None \<Rightarrow> Inl (runtime_error (''Connector '' @ quoted connector_key @ '' is not available.'')
        ''connector_not_found'' False JNull JNull)
    | Some m \<Rightarrow>
       (case find (\<lambda>a. jget ''key'' (obj_or_empty a) = JStr action_key)
           (list_or_empty (jget_or ''actions'' (JList []) m)) of
         None \<Rightarrow> Inl (runtime_error (''Connector action '' @ quoted action_key @ '' is not available for connector '' @
           quoted connector_key @ ''.'') ''connector_action_not_found'' False JNull JNull)
       | Some a \<Rightarrow> Inr (obj_or_empty a)))"

text \<open>What the body of the request function raises: a \<open>ConnectorRuntimeError\<close>, or another exception.\<close>

datatype conn_exc = RuntimeErr connector_error | OtherExc string

definition restricted_network :: conn_exc where
  "restricted_network = RuntimeErr (plain_error ''HTTP connector URL targets a private or restricted network.'')"

definition assert_public_http_url :: "net \<Rightarrow> string \<Rightarrow> traffic \<Rightarrow> (conn_exc + unit) \<times> traffic" where
  "assert_public_http_url net url tf =
    (case urlparse (ne_bracketed_host net) url of
      None \<Rightarrow> (Inl (OtherExc ''Invalid IPv6 URL''), tf)
    | Some p \<Rightarrow>
       if hostname p = [] then (Inl (RuntimeErr (plain_error ''Invalid HTTP connector URL.'')), tf)
       else if py_lower (pu_scheme p) \<notin> {''http'', ''https''} then
         (Inl (RuntimeErr (plain_error ''HTTP connector supports only http or https URLs.'')), tf)
       else if has_credentials p then
         (Inl (RuntimeErr (plain_error ''Credentials in connector URL are not allowed.'')), tf)
       else if py_lower (hostname p) = ''localhost'' then (Inl restricted_network, tf)
       else case ne_ip_address net (hostname p) of
         Some ip \<Rightarrow>
           if is_disallowed_ip net (ip_text ip) then (Inl restricted_network, tf) else (Inr (), tf)
       | None \<Rightarrow>
          (case port_of p of
            Inl msg \<Rightarrow> (Inl (RuntimeErr (plain_error msg)), tf)
          | Inr port \<Rightarrow>
             (case resolve_public_addresses net (hostname p) port tf of
               (Inl (ValueErr msg), tf1) \<Rightarrow> (Inl (RuntimeErr (plain_error msg)), tf1)
             | (Inl err, tf1) \<Rightarrow> (Inl (OtherExc (error_text err)), tf1)
             | (Inr addresses, tf1) \<Rightarrow>
                if list_ex (is_disallowed_ip net) addresses then (Inl restricted_network, tf1) else (Inr (), tf1))))"

definition http_verb :: "(string, json) dict \<Rightarrow> string" where
  "http_verb input = py_upper (py_str (jget_or ''method'' (JStr ''GET'') input))"

definition validate_http_input :: "net \<Rightarrow> (string, json) dict \<Rightarrow> traffic \<Rightarrow> (conn_exc + string) \<times> traffic" where
  "validate_http_input net input tf =
    (case jget ''url'' input of
      JStr url \<Rightarrow>
        if url = [] then (Inl (RuntimeErr (plain_error ''HTTP connector input requires url.'')), tf)
        else if http_verb input \<notin> {''GET'', ''POST'', ''PUT'', ''PATCH'', ''DELETE''} then
          (Inl (RuntimeErr (plain_error ''HTTP connector method is not supported.'')), tf)
        else (case assert_public_http_url net url tf of
           (Inl exc, tf1) \<Rightarrow> (Inl exc, tf1)
         | (Inr _, tf1) \<Rightarrow> (Inr url, tf1))
    | _ \<Rightarrow> (Inl (RuntimeErr (plain_error ''HTTP connector input requires url.'')), tf))"

definition with_credential :: "(string, json) dict \<Rightarrow> (string, json) dict \<Rightarrow> (string, json) dict" where
  "with_credential config headers =
    (let name = jget ''header_name'' config; v = jget ''header_value'' config in
     if truthy name \<and> truthy v then dset (py_str name) (JStr (py_str v)) headers else headers)"

text \<open>\<open>float(x)\<close> of the time-out: \<open>None\<close> when it is accepted.\<close>

definition timeout_error :: "net \<Rightarrow> json \<Rightarrow> string option" where
  "timeout_error net v =
    (case py_or v (JInt 20) of
      JStr x \<Rightarrow> if ne_float_text net x then None else Some (''could not convert string to float: '' @ repr_string x)
    | JInt _ \<Rightarrow> None | JBool _ \<Rightarrow> None
    | x \<Rightarrow> Some (''float() argument must be a string or a real number, not '' @ quoted (type_name x)))"

definition retryable_status :: "(string, json) dict \<Rightarrow> int \<Rightarrow> bool" where
  "retryable_status action status \<longleftrightarrow>
    JInt status \<in> set (list_or_empty (jget_or ''retryable_statuses'' (JList [])
      (obj_or_empty (jget_or ''retry'' (JObj []) action))))"

definition response_output :: "response \<Rightarrow> json" where
  "response_output r = JObj
    [(''status_code'', JInt (rp_status_code r)),
     (''headers'', redact_secret_values (JObj (map (\<lambda>p. (fst p, JStr (snd p))) (rp_headers r)))),
     (''body'', redact_secret_values (case rp_body_json r of None \<Rightarrow> JNull | Some v \<Rightarrow> v)),
     (''text_preview'', JStr (sanitize_text (take 2048 (rp_body_text r))))]"

text \<open>The body of the \<open>try\<close>; a \<open>headers\<close> entry that is neither empty nor an object raises.\<close>

definition http_request_body ::
  "net \<Rightarrow> nat \<Rightarrow> (string, json) dict \<Rightarrow> (string, json) dict \<Rightarrow> (string, json) dict \<Rightarrow> traffic \<Rightarrow>
    (conn_exc + connector_result) \<times> traffic" where
  "http_request_body net duration action input credential tf =
    (case validate_http_input net input tf of
      (Inl exc, tf1) \<Rightarrow> (Inl exc, tf1)
    | (Inr url, tf1) \<Rightarrow>
       (case py_or (jget ''headers'' input) (JObj []) of
         JObj headers0 \<Rightarrow>
           (case timeout_error net (jget ''timeout_seconds'' input) of
             Some msg \<Rightarrow> (Inl (OtherExc msg), tf1)
           | None \<Rightarrow>
              (case pinned_http_request net (http_verb input) url (with_credential credential headers0)
                  (obj_or_empty (jget ''query'' input)) (jget ''body'' input) [] True MAX_RESPONSE_BYTES tf1 of
                (Inl err, tf2) \<Rightarrow> (Inl (OtherExc (error_text err)), tf2)
              | (Inr r, tf2) \<Rightarrow>
                 (let safe_input = redact_secret_values (JObj input); output = response_output r;
                      retryable = retryable_status action (rp_status_code r) in
                  if rp_status_code r \<ge> 400 then
                    (Inl (RuntimeErr (runtime_error
                      (''HTTP connector returned status '' @ show_int (rp_status_code r) @ ''.'')
                      ''connector_http_error'' retryable safe_input output)), tf2)
                  else (Inr \<lparr>cn_connector_key = ''http'', cn_action_key = ''request'', cn_input_data = safe_input,
                    cn_output_data = output, cn_duration_ms = duration, cn_retryable = retryable\<rparr>, tf2))))
       | v \<Rightarrow> (Inl (OtherExc (quoted (type_name v) @ '' object is not iterable'')), tf1)))"

text \<open>\<open>_execute_http_request\<close>: the two exception handlers around it.\<close>

definition execute_http_request ::
  "net \<Rightarrow> nat \<Rightarrow> (string, json) dict \<Rightarrow> (string, json) dict \<Rightarrow> (string, json) dict \<Rightarrow> traffic \<Rightarrow>
    connector_outcome \<times> traffic" where
  "execute_http_request net duration action input credential tf =
    (let safe_input = redact_secret_values (JObj input) in
     case http_request_body net duration action input credential tf of
       (Inr r, tf1) \<Rightarrow> (ConnectorOk r, tf1)
     | (Inl (RuntimeErr e), tf1) \<Rightarrow>
         (ConnectorFailed (e\<lparr>ce_input_data := py_or (ce_input_data e) safe_input,
            ce_output_data := py_or (ce_output_data e) (JObj [(''error'', JStr (ce_sanitized_error e))])\<rparr>), tf1)
     | (Inl (OtherExc msg), tf1) \<Rightarrow>
         (ConnectorFailed (runtime_error (sanitize_text msg) ''connector_runtime_error'' False safe_input
            (JObj [(''error'', JStr (sanitize_text msg))])), tf1))"

text \<open>The configuration of the node's credential; an absent one reads as empty.\<close>

definition credential_config ::
  "fernet \<Rightarrow> settings \<Rightarrow> uuid \<Rightarrow> (string, json) dict \<Rightarrow> (string, json) dict \<Rightarrow> db \<Rightarrow>
    connector_outcome + (string, json) dict" where
  "credential_config fn st tid data input s =
    (let cid = jget ''credential_id'' data in
     if \<not> truthy cid then Inr []
     else case (case parse_uuid (py_str cid) of None \<Rightarrow> None | Some i \<Rightarrow>
         (case get_credential tid i s of Inl _ \<Rightarrow> None | Inr c \<Rightarrow> Some c)) of
       None \<Rightarrow> Inl (ConnectorFailed (runtime_error ''Connector credential is missing or inactive.''
         ''missing_connector_credential'' False (redact_secret_values (JObj input)) JNull))
     | Some c \<Rightarrow>
        (case decrypt_config fn st (obj_or_empty (cr_encrypted_config c)) of
          Inl msg \<Rightarrow> Inl (ConnectorRaised msg)
        | Inr v \<Rightarrow> Inr (obj_or_empty v)))"

definition execute_connector_node ::
  "net \<Rightarrow> fernet \<Rightarrow> settings \<Rightarrow> nat \<Rightarrow> db \<Rightarrow> uuid \<Rightarrow> node \<Rightarrow> traffic \<Rightarrow> connector_outcome \<times> traffic" where
  "execute_connector_node net fn st duration s tid n tf =
    (let data = node_data n; connector_key = py_str (py_or (jget ''connector_key'' data) (JStr []));
         action_key = py_str (py_or (jget ''action_key'' data) (JStr []));
         input = obj_or_empty (py_or (jget ''input'' data) (JObj [])) in
     case get_action connector_key action_key of
       Inl e \<Rightarrow> (ConnectorFailed e, tf)
     | Inr action \<Rightarrow>
        (case credential_config fn st tid data input s of
          Inl outcome \<Rightarrow> (outcome, tf)
        | Inr credential \<Rightarrow>
           if connector_key = ''http'' \<and> action_key = ''request''
           then execute_http_request net duration action input credential tf
           else (ConnectorFailed (runtime_error (''Connector action '' @
             quoted (connector_key @ ''.'' @ action_key) @ '' is not implemented.'')
             ''connector_action_not_found'' False (redact_secret_values (JObj input)) JNull), tf)))"

section \<open>Texts without line breaks\<close>

named_theorems line_simps \<open>texts that hold no line break\<close>

lemma has_newline_Nil [line_simps]: "\<not> has_newline []"
  by (simp add: has_newline_def)

lemma has_newline_append [line_simps]: "has_newline (x @ y) \<longleftrightarrow> has_newline x \<or> has_newline y"
  by (auto simp: has_newline_def)

lemma has_newline_Cons: "has_newline (c # x) \<longleftrightarrow> c = CHR 0x0D \<or> c = CHR 0x0A \<or> has_newline x"
  by (auto simp: has_newline_def)

lemma has_newline_subset: "set x \<subseteq> set y \<Longrightarrow> has_newline x \<Longrightarrow> has_newline y"
  by (auto simp: has_newline_def)

lemma no_newline_drop [line_simps]: "\<not> has_newline x \<Longrightarrow> \<not> has_newline (drop n x)"
  using has_newline_subset [OF set_drop_subset] by blast

lemma no_newline_takeWhile [line_simps]: "\<not> has_newline x \<Longrightarrow> \<not> has_newline (takeWhile p x)"
  by (auto simp: has_newline_def dest: set_takeWhileD)

lemma lower_char_newline: "lower_char c = CHR 0x0D \<longleftrightarrow> c = CHR 0x0D" "lower_char c = CHR 0x0A \<longleftrightarrow> c = CHR 0x0A"
  by (auto simp: lower_char_def Let_def char_of_eq_iff take_bit_eq_mod)

lemma has_newline_lower [line_simps]: "has_newline (py_lower x) \<longleftrightarrow> has_newline x"
  by (induction x) (simp_all add: py_lower_def has_newline_Cons lower_char_newline has_newline_Nil)

lemma no_newline_show_nat [line_simps]: "\<not> has_newline (show_nat n)"
  using set_show_nat [of n] by (auto simp: has_newline_def)

lemma no_newline_show_int [line_simps]: "\<not> has_newline (show_int i)"
  by (simp add: show_int_def line_simps has_newline_Cons)

lemma no_newline_join: "\<not> has_newline sep \<Longrightarrow> \<forall>x \<in> set xs. \<not> has_newline x \<Longrightarrow> \<not> has_newline (join sep xs)"
  by (induction sep xs rule: join.induct) (auto simp: line_simps)

lemma no_newline_quote_plus [line_simps]: "\<not> has_newline (quote_plus x)"
proof -
  have hex: "\<forall>d \<in> set ''0123456789abcdef''. upper_char d \<notin> {CHR 0x0D, CHR 0x0A}" by code_simp
  have mem: "hex_digit n \<in> set ''0123456789abcdef''" for n
    unfolding hex_digit_def by (rule nth_mem) simp
  have up: "upper_char (hex_digit n) \<noteq> CHR 0x0D" "upper_char (hex_digit n) \<noteq> CHR 0x0A" for n
    using bspec [OF hex mem] by simp_all
  have "\<not> has_newline (py_upper (hex2 c))" for c
    by (simp only: hex2_def Let_def py_upper_def list.map has_newline_Cons up has_newline_Nil) simp
  moreover have "\<not> has_newline [c]" if "alnum c \<or> c \<in> set ''_.-~''" for c
  proof -
    have "\<not> alnum (CHR 0x0D) \<and> \<not> alnum (CHR 0x0A) \<and> CHR 0x0D \<notin> set ''_.-~'' \<and> CHR 0x0A \<notin> set ''_.-~''" by code_simp
    with that show ?thesis by (auto simp only: has_newline_def list.set)
  qed
  moreover have "\<not> has_newline ''+''" by (simp add: has_newline_def)
  moreover have "has_newline (CHR ''%'' # y) = has_newline y" for y by (simp add: has_newline_def)
  ultimately have "\<not> has_newline (if alnum c \<or> c \<in> set ''_.-~'' then [c] else if c = CHR '' '' then ''+''
      else CHR ''%'' # py_upper (hex2 c))" for c
    by presburger
  then have "\<forall>y \<in> set (map (\<lambda>c. if alnum c \<or> c \<in> set ''_.-~'' then [c] else if c = CHR '' '' then ''+''
      else CHR ''%'' # py_upper (hex2 c)) x). \<not> has_newline y"
    by (simp only: list.set_map ball_simps) blast
  then show ?thesis unfolding quote_plus_def has_newline_def by (simp only: set_concat) blast
qed

lemma no_newline_urlencode [line_simps]: "\<not> has_newline (urlencode params)"
  unfolding urlencode_def by (rule no_newline_join) (auto simp: line_simps has_newline_Cons)

lemma urlparse_lines:
  assumes "urlparse b url = Some p"
  shows "\<not> has_newline (pu_netloc p)" "\<not> has_newline (pu_path p)" "\<not> has_newline (pu_query p)"
proof -
  define u where "u = filter (\<lambda>c. \<not> newline_or_tab c) (dropWhile (\<lambda>c. (of_char c :: nat) \<le> 32) url)"
  have u: "\<not> has_newline u" by (auto simp: u_def has_newline_def newline_or_tab_def)
  obtain scheme u1 where s1: "split_scheme u = (scheme, u1)" by fastforce
  then have u1: "\<not> has_newline u1" using u by (auto simp: split_scheme_def Let_def line_simps split: if_splits)
  obtain netloc u2 where s2: "split_netloc u1 = (netloc, u2)" by fastforce
  then have u2: "\<not> has_newline netloc" "\<not> has_newline u2"
    using u1 by (auto simp: split_netloc_def Let_def line_simps split: if_splits)
  have part: "\<not> has_newline (fst (partition_at c x)) \<and> \<not> has_newline (snd (partition_at c x))" if "\<not> has_newline x" for c x
    using that by (simp add: partition_at_def Let_def line_simps)
  obtain path query where s3: "partition_at (CHR ''?'') (fst (partition_at (CHR ''#'') u2)) = (path, query)" by fastforce
  then have u3: "\<not> has_newline path" "\<not> has_newline query"
    using part [of "fst (partition_at (CHR ''#'') u2)" "CHR ''?''"] part [OF u2(2), of "CHR ''#''"] by auto
  have "\<not> has_newline (fst (split_params path))"
  proof -
    have "set (fst (split_params path)) \<subseteq> set path"
      by (auto simp: split_params_def Let_def partition_at_def dest!: set_takeWhileD in_set_takeD)
    then show ?thesis using u3(1) has_newline_subset by blast
  qed
  with assms u2 u3 show "\<not> has_newline (pu_netloc p)" "\<not> has_newline (pu_path p)" "\<not> has_newline (pu_query p)"
    by (auto simp: urlparse_def u_def [symmetric] s1 s2 s3 Let_def split: if_splits prod.splits)
qed

lemma hostname_lines: "\<not> has_newline (pu_netloc p) \<Longrightarrow> \<not> has_newline (hostname p)"
proof -
  assume n: "\<not> has_newline (pu_netloc p)"
  have "set (fst (host_and_port p)) \<subseteq> set (host_info p)"
    by (auto simp: host_and_port_def Let_def partition_at_def dest!: set_takeWhileD in_set_dropD)
  moreover have "set (host_info p) \<subseteq> set (pu_netloc p)"
    by (auto simp: host_info_def dest!: set_takeWhileD)
  ultimately have h: "\<not> has_newline (fst (host_and_port p))" using n has_newline_subset by blast
  then show ?thesis by (simp add: hostname_def Let_def line_simps)
qed

section \<open>Requests are what they say\<close>

text \<open>
  What a server reads of the bytes it gets: the request line, the headers, and the body. The head ends
  at the first empty line and is split at the line ends, the name of a header ends at the first colon.
\<close>

definition read_request :: "string \<Rightarrow> string \<times> (string \<times> string) list \<times> string" where
  "read_request r =
    (let (head, body) = split_at (CRLF @ CRLF) r; lines = split_lines head in
     (hd lines, map (\<lambda>l. case partition_at (CHR '':'') l of (k, v) \<Rightarrow> (k, drop 1 v)) (tl lines), body))"

text \<open>Headers as the caller names them, and the names of those the functions add.\<close>

definition given_headers :: "(string, json) dict \<Rightarrow> (string \<times> string) set" where
  "given_headers hs = (\<lambda>h. (fst h, py_str (snd h))) ` set hs"

definition own_headers :: "string list" where
  "own_headers = [''Host'', ''User-Agent'', ''Accept'', ''Connection'', ''Content-Type'', ''Content-Length'']"

text \<open>
  A connection carries the request it was opened for: a server reads the given method, the given body,
  and headers each of which is one of the given, with its value, or one of our own; the only header
  named host is that of the given URL.
\<close>

definition request_as_given :: "net \<Rightarrow> string \<Rightarrow> string \<Rightarrow> (string \<times> string) set \<Rightarrow> string \<Rightarrow> connection \<Rightarrow> bool" where
  "request_as_given net verb url given body c \<longleftrightarrow> (\<exists>p path hs host.
    urlparse (ne_bracketed_host net) url = Some p \<and>
    read_request (cx_request c) = (verb @ '' '' @ path @ '' HTTP/1.1'', hs, body) \<and> \<not> has_newline path \<and>
    (\<forall>h \<in> set hs. \<not> has_newline (fst h) \<and> \<not> has_newline (snd h) \<and> (h \<in> given \<or> fst h \<in> set own_headers)) \<and>
    filter (\<lambda>h. py_lower (fst h) = ''host'') hs = [(''Host'', host)] \<and>
    (host = hostname p \<or> host = hostname p @ '':'' @ show_int (cx_port c)))"

definition clean_headers :: "(string, string) dict \<Rightarrow> bool" where
  "clean_headers hs \<longleftrightarrow> (\<forall>h \<in> set hs. \<not> has_newline (fst h) \<and> CHR '':'' \<notin> set (fst h) \<and> \<not> has_newline (snd h))"

lemma set_dset: "set (dset k v d) \<subseteq> insert (k, v) (set d)"
  by (induction k v d rule: dset.induct) auto

lemma filter_dset: "\<not> P k \<Longrightarrow> filter (\<lambda>h. P (fst h)) (dset k v d) = filter (\<lambda>h. P (fst h)) d"
  by (induction k v d rule: dset.induct) auto

lemma clean_headers_dset:
  "clean_headers d \<Longrightarrow> \<not> has_newline k \<Longrightarrow> CHR '':'' \<notin> set k \<Longrightarrow> \<not> has_newline v \<Longrightarrow> clean_headers (dset k v d)"
  using set_dset [of k v d] unfolding clean_headers_def by fastforce

text \<open>What \<open>add_headers\<close> keeps of the headers it starts from, and what it adds.\<close>

lemma add_headers_effect:
  "add_headers hs acc = Inr r \<Longrightarrow> clean_headers acc \<Longrightarrow>
    clean_headers r \<and> set r \<subseteq> set acc \<union> given_headers hs \<and>
    filter (\<lambda>h. py_lower (fst h) = ''host'') r = filter (\<lambda>h. py_lower (fst h) = ''host'') acc"
proof (induction hs acc rule: add_headers.induct)
  case (2 key v hs acc)
  show ?case
  proof (cases "py_lower key \<in> {''host'', ''connection'', ''content-length''}")
    case True
    with 2 show ?thesis by (auto simp: given_headers_def)
  next
    case False
    with 2(3) have ok: "\<not> has_newline key" "CHR '':'' \<notin> set key" "\<not> has_newline (py_str v)"
        "add_headers hs (dset key (py_str v) acc) = Inr r"
      by (auto simp: clean_header_value_def split: if_splits)
    have "clean_headers r \<and> set r \<subseteq> set (dset key (py_str v) acc) \<union> given_headers hs \<and>
        filter (\<lambda>h. py_lower (fst h) = ''host'') r = filter (\<lambda>h. py_lower (fst h) = ''host'') (dset key (py_str v) acc)"
      using 2(2) False ok clean_headers_dset [OF 2(4) ok(1-3)] by (simp add: clean_header_value_def)
    moreover have "filter (\<lambda>h. py_lower (fst h) = ''host'') (dset key (py_str v) acc) =
        filter (\<lambda>h. py_lower (fst h) = ''host'') acc"
      using False by (intro filter_dset) simp
    ultimately show ?thesis using set_dset [of key "py_str v" acc] by (auto simp: given_headers_def)
  qed
qed simp

lemma add_any_headers_effect:
  assumes "add_any_headers h acc = Inr r" "clean_headers acc"
  shows "clean_headers r \<and> set r \<subseteq> set acc \<union> given_headers (obj_or_empty h) \<and>
    filter (\<lambda>h. py_lower (fst h) = ''host'') r = filter (\<lambda>h. py_lower (fst h) = ''host'') acc"
proof -
  obtain hs where hs: "py_or h (JObj []) = JObj hs" "add_headers hs acc = Inr r"
    using assms(1) by (auto simp: add_any_headers_def split: json.splits sum.splits)
  from hs(1) have "given_headers hs = given_headers (obj_or_empty h)"
    by (cases h) (auto simp: py_or_def given_headers_def split: if_splits)
  with add_headers_effect [OF hs(2) assms(2)] show ?thesis by simp
qed

text \<open>Reading back what was written: line by line.\<close>

lemma prefix_CRLF: "prefix CRLF (c # x) \<longleftrightarrow> c = CHR 0x0D \<and> x \<noteq> [] \<and> hd x = CHR 0x0A"
  by (cases x) (auto simp: CRLF_def)

lemma split_at_line:
  "\<not> has_newline l \<Longrightarrow> split_at (CRLF @ CRLF) x = (a, b) \<Longrightarrow> split_at (CRLF @ CRLF) (l @ x) = (l @ a, b)"
  by (induction l) (auto simp: CRLF_def has_newline_Cons)

lemma split_at_more:
  assumes "c \<noteq> CHR 0x0D" "split_at (CRLF @ CRLF) (c # x) = (a, b)"
  shows "split_at (CRLF @ CRLF) (CRLF @ c # x) = (CRLF @ a, b)"
  using assms by (simp add: CRLF_def del: split_at.simps(2)) (simp add: split_at.simps(2) [of _ _ "_ # _"])

lemma split_at_head:
  assumes "lines \<noteq> []" "\<forall>l \<in> set lines. l \<noteq> [] \<and> \<not> has_newline l"
  shows "split_at (CRLF @ CRLF) (concat (map (\<lambda>l. l @ CRLF) lines) @ CRLF @ body) = (join CRLF lines, body)"
  using assms
proof (induction CRLF lines rule: join.induct)
  case (2 l)
  have "split_at (CRLF @ CRLF) (CRLF @ CRLF @ body) = ([], body)" by (simp add: CRLF_def)
  from split_at_line [OF _ this] 2 show ?case by simp
next
  case (3 l k ls)
  let ?rest = "concat (map (\<lambda>l. l @ CRLF) (k # ls)) @ CRLF @ body"
  from 3 obtain c k' where k: "k = c # k'" "c \<noteq> CHR 0x0D" by (cases k) (auto simp: has_newline_Cons)
  from 3 have "split_at (CRLF @ CRLF) ?rest = (join CRLF (k # ls), body)" by simp
  with k have "split_at (CRLF @ CRLF) (CRLF @ ?rest) = (CRLF @ join CRLF (k # ls), body)"
    using split_at_more [of c "k' @ CRLF @ concat (map (\<lambda>l. l @ CRLF) ls) @ CRLF @ body"] by simp
  from split_at_line [OF _ this] 3(3) show ?case by simp
qed simp

lemma split_lines_line: "\<not> has_newline l \<Longrightarrow> split_lines l = [l]"
  by (induction l) (auto simp: prefix_CRLF has_newline_Cons)

lemma split_lines_more: "\<not> has_newline l \<Longrightarrow> split_lines (l @ CRLF @ x) = l # split_lines x"
proof (induction l)
  case Nil
  then show ?case by (simp add: CRLF_def)
next
  case (Cons c l)
  then show ?case by (simp add: prefix_CRLF has_newline_Cons)
qed

lemma split_lines_join:
  "lines \<noteq> [] \<Longrightarrow> \<forall>l \<in> set lines. \<not> has_newline l \<Longrightarrow> split_lines (join CRLF lines) = lines"
  by (induction CRLF lines rule: join.induct) (simp_all add: split_lines_line split_lines_more)

lemma read_header_line:
  "CHR '':'' \<notin> set (fst h) \<Longrightarrow> (case partition_at (CHR '':'') (header_line h) of (k, v) \<Rightarrow> (k, drop 1 v)) = h"
proof -
  assume "CHR '':'' \<notin> set (fst h)"
  then have "takeWhile (\<lambda>d. d \<noteq> CHR '':'') (header_line h) = fst h"
    by (simp add: header_line_def takeWhile_tail) (metis (mono_tags, lifting) takeWhile_eq_all_conv)
  then show ?thesis by (simp add: partition_at_def Let_def header_line_def)
qed

lemma read_render_request:
  assumes "clean_headers hs" "\<not> has_newline verb" "\<not> has_newline path"
  shows "read_request (render_request verb path hs body) = (verb @ '' '' @ path @ '' HTTP/1.1'', hs, body)"
proof -
  let ?lines = "(verb @ '' '' @ path @ '' HTTP/1.1'') # map header_line hs"
  have lines: "?lines \<noteq> []" "\<forall>l \<in> set ?lines. l \<noteq> [] \<and> \<not> has_newline l"
    using assms by (auto simp: clean_headers_def header_line_def line_simps has_newline_Cons)
  have "render_request verb path hs body = concat (map (\<lambda>l. l @ CRLF) ?lines) @ CRLF @ body"
    by (simp add: render_request_def comp_def)
  moreover have "map (\<lambda>l. case partition_at (CHR '':'') l of (k, v) \<Rightarrow> (k, drop 1 v)) (map header_line hs) = hs"
  proof (simp only: map_map, rule map_idI, simp only: comp_apply)
    show "(case partition_at (CHR '':'') (header_line h) of (k, v) \<Rightarrow> (k, drop 1 v)) = h" if "h \<in> set hs" for h
      using that assms(1) by (intro read_header_line) (simp add: clean_headers_def)
  qed
  ultimately show ?thesis
    using split_at_head [OF lines, of body] split_lines_join [OF lines(1)] lines(2) by (simp add: read_request_def)
qed

lemma with_length_effect:
  assumes "clean_headers hs"
  shows "clean_headers (with_length body hs)"
    and "h \<in> set (with_length body hs) \<Longrightarrow> h \<in> set hs \<or> fst h \<in> set own_headers"
    and "filter (\<lambda>h. py_lower (fst h) = ''host'') (with_length body hs) = filter (\<lambda>h. py_lower (fst h) = ''host'') hs"
proof -
  have low: "py_lower ''Content-Length'' \<noteq> ''host''" by code_simp
  show "clean_headers (with_length body hs)"
    using assms by (simp add: with_length_def clean_headers_dset line_simps has_newline_Cons)
  show "h \<in> set hs \<or> fst h \<in> set own_headers" if "h \<in> set (with_length body hs)"
    using that set_dset [of "''Content-Length''" "show_nat (length body)" hs]
    by (auto simp: with_length_def own_headers_def split: if_splits)
  show "filter (\<lambda>h. py_lower (fst h) = ''host'') (with_length body hs) = filter (\<lambda>h. py_lower (fst h) = ''host'') hs"
    by (simp add: with_length_def filter_dset [of "\<lambda>k. py_lower k = ''host''", OF low])
qed

lemma rendered_as_given:
  assumes "urlparse (ne_bracketed_host net) url = Some p" "\<forall>h \<in> set base. fst h \<in> set own_headers"
    and "filter (\<lambda>h. py_lower (fst h) = ''host'') base = [(''Host'', host_header (hostname p) port dflt)]"
    and "clean_headers hs \<and> set hs \<subseteq> set base \<union> given \<and>
      filter (\<lambda>h. py_lower (fst h) = ''host'') hs = filter (\<lambda>h. py_lower (fst h) = ''host'') base"
    and "\<not> has_newline verb" "\<not> has_newline path"
  shows "request_as_given net verb url given body \<lparr>cx_address = a, cx_port = port, cx_server_hostname = sni,
    cx_request = render_request verb path (with_length body hs) body\<rparr>"
proof -
  from assms(4) have clean: "clean_headers hs" by blast
  note len = with_length_effect [OF clean, where body = body]
  have "read_request (render_request verb path (with_length body hs) body) =
      (verb @ '' '' @ path @ '' HTTP/1.1'', with_length body hs, body)"
    by (rule read_render_request [OF len(1) assms(5,6)])
  moreover have "\<forall>h \<in> set (with_length body hs). \<not> has_newline (fst h) \<and> \<not> has_newline (snd h) \<and>
      (h \<in> given \<or> fst h \<in> set own_headers)"
    using len(1) [unfolded clean_headers_def] len(2) assms(2,4) by blast
  moreover have "filter (\<lambda>h. py_lower (fst h) = ''host'') (with_length body hs) =
      [(''Host'', host_header (hostname p) port dflt)]"
    using len(3) assms(3,4) by simp
  ultimately show ?thesis
    using assms(1,6) unfolding request_as_given_def by (auto simp: host_header_def)
qed

lemma no_newline_host_header: "\<not> has_newline host \<Longrightarrow> \<not> has_newline (host_header host port dflt)"
  by (simp add: host_header_def line_simps has_newline_Cons)

lemma no_newline_path:
  "\<not> has_newline (pu_path p) \<Longrightarrow> \<not> has_newline query \<Longrightarrow> \<not> has_newline (path_and_query p query)"
  by (simp add: path_and_query_def Let_def line_simps has_newline_Cons)

section \<open>Where requests go\<close>

lemma first_address_mem: "addresses \<noteq> [] \<Longrightarrow> first_address addresses \<in> set addresses"
  unfolding first_address_def by (metis hd_in_set set_sort sort_key_simps(1) set_empty)

lemma resolve_traffic:
  "tf_connections (snd (resolve_public_addresses net host port tf)) = tf_connections tf"
  by (simp add: resolve_public_addresses_def Let_def split: option.split)

lemma resolve_InrD:
  "resolve_public_addresses net host port tf = (Inr addresses, tf') \<Longrightarrow>
    \<not> is_disallowed_ip net (first_address addresses)"
  by (auto simp: resolve_public_addresses_def Let_def list_ex_iff split: option.splits if_splits
      dest: first_address_mem)

lemma assert_safe_traffic: "tf_connections (snd (assert_safe_api_url net url tf)) = tf_connections tf"
  using resolve_traffic
  by (auto simp: assert_safe_api_url_def split: option.split sum.split prod.split) (metis snd_conv)+

text \<open>
  A request opens at most one connection, to an address that is allowed, and it carries the request
  that was given; \<open>opens_safely\<close> forgets which one that is.
\<close>

definition opens_as_given :: "net \<Rightarrow> string \<Rightarrow> string \<Rightarrow> (string \<times> string) set \<Rightarrow> string \<Rightarrow> traffic \<Rightarrow> traffic \<Rightarrow> bool" where
  "opens_as_given net verb url given body tf tf' \<longleftrightarrow>
    (\<exists>cs. tf_connections tf' = tf_connections tf @ cs \<and> length cs \<le> 1 \<and>
      (\<forall>c \<in> set cs. \<not> is_disallowed_ip net (cx_address c) \<and> request_as_given net verb url given body c))"

definition safe_connection :: "net \<Rightarrow> connection \<Rightarrow> bool" where
  "safe_connection net c \<longleftrightarrow> \<not> is_disallowed_ip net (cx_address c) \<and>
    (\<exists>verb url given body. request_as_given net verb url given body c)"

definition opens_safely :: "net \<Rightarrow> traffic \<Rightarrow> traffic \<Rightarrow> bool" where
  "opens_safely net tf tf' \<longleftrightarrow> (\<exists>cs. tf_connections tf' = tf_connections tf @ cs \<and> length cs \<le> 1 \<and>
    (\<forall>c \<in> set cs. safe_connection net c))"

lemma opens_safelyI: "opens_as_given net verb url given body tf tf' \<Longrightarrow> opens_safely net tf tf'"
  unfolding opens_as_given_def opens_safely_def safe_connection_def by blast

lemma opens_safely_none: "tf_connections tf' = tf_connections tf \<Longrightarrow> opens_safely net tf tf'"
  by (simp add: opens_safely_def)

lemma opens_none: "tf_connections tf' = tf_connections tf \<Longrightarrow> opens_as_given net verb url given body tf tf'"
  by (simp add: opens_as_given_def)

lemma opens_after:
  "tf_connections tf1 = tf_connections tf \<Longrightarrow> opens_as_given net verb url given body tf1 tf2 \<Longrightarrow>
    opens_as_given net verb url given body tf tf2"
  by (simp add: opens_as_given_def)

lemma exchange_opens:
  assumes "\<not> is_disallowed_ip net (cx_address c)" "request_as_given net verb url given body c"
    and "tf_connections tf1 = tf_connections tf"
  shows "opens_as_given net verb url given body tf (snd (exchange net limit c tf1))"
proof -
  have "tf_connections (snd (exchange net limit c tf1)) = tf_connections tf @ [c]"
    using assms(3) by (simp add: exchange_def Let_def split: sum.split option.split)
  with assms(1,2) show ?thesis unfolding opens_as_given_def by auto
qed

lemma verb_lines: "v \<in> {''GET'', ''POST'', ''PUT'', ''PATCH'', ''DELETE''} \<Longrightarrow> \<not> has_newline v"
  by (auto simp: has_newline_def)

lemma base_headers:
  assumes "\<not> has_newline host"
    and "base \<in> {[(''Host'', host), (''User-Agent'', ''GraphPilot/1.0''), (''Connection'', ''close'')],
      pinned_base_headers host json_body}"
  shows "clean_headers base" "\<forall>h \<in> set base. fst h \<in> set own_headers"
    "filter (\<lambda>h. py_lower (fst h) = ''host'') base = [(''Host'', host)]"
proof -
  show "clean_headers base"
    using assms by (auto simp: clean_headers_def pinned_base_headers_def has_newline_def split: if_splits)
  show "\<forall>h \<in> set base. fst h \<in> set own_headers"
    using assms by (auto simp: own_headers_def pinned_base_headers_def split: if_splits)
  have "map (\<lambda>k. py_lower k = ''host'') [''Host'', ''User-Agent'', ''Accept'', ''Connection'', ''Content-Type''] =
      [True, False, False, False, False]" by code_simp
  then show "filter (\<lambda>h. py_lower (fst h) = ''host'') base = [(''Host'', host)]"
    using assms(2) by (auto simp: pinned_base_headers_def)
qed

lemma safe_http_request_opens:
  "opens_as_given net (py_upper verb) url (given_headers (obj_or_empty headers)) body tf
    (snd (safe_http_request net verb url headers body tf))"
proof (cases "urlparse (ne_bracketed_host net) url")
  case None
  then show ?thesis by (simp add: safe_http_request_def opens_none)
next
  case (Some p)
  note lines = urlparse_lines [OF Some]
  obtain r tf1 where a: "assert_safe_api_url net url tf = (r, tf1)" by fastforce
  then have tf1: "tf_connections tf1 = tf_connections tf" using assert_safe_traffic [of net url tf] by simp
  show ?thesis
  proof (cases "\<exists>u port. r = Inr u \<and> port_of p = Inr port")
    case False
    then show ?thesis using tf1
      by (auto simp: safe_http_request_def Some a opens_none split: sum.split)
  next
    case True
    then obtain u port where ok: "r = Inr u" "port_of p = Inr port" by blast
    obtain q tf2 where res: "resolve_public_addresses net (hostname p) (Some (port_or port 443)) tf1 = (q, tf2)" by fastforce
    then have tf2: "tf_connections tf2 = tf_connections tf"
      using resolve_traffic [of net "hostname p" "Some (port_or port 443)" tf1] tf1 by simp
    show ?thesis
    proof (cases q)
      case (Inl err)
      then show ?thesis using tf2 by (simp add: safe_http_request_def Some a ok res opens_none Let_def)
    next
      case (Inr addresses)
      let ?base = "[(''Host'', host_header (hostname p) (port_or port 443) 443), (''User-Agent'', ''GraphPilot/1.0''),
        (''Connection'', ''close'')]"
      note base = base_headers [OF no_newline_host_header [OF hostname_lines [OF lines(1)]],
          where base = ?base, OF insertI1]
      have "opens_as_given net (py_upper verb) url (given_headers (obj_or_empty headers)) body tf
          (snd (exchange net MAX_RESPONSE_BYTES \<lparr>cx_address = first_address addresses,
            cx_port = port_or port 443, cx_server_hostname = Some (hostname p), cx_request =
            render_request (py_upper verb) (path_and_query p (pu_query p)) (with_length body hs) body\<rparr> tf2))"
        if v: "py_upper verb \<in> {''GET'', ''POST'', ''PUT'', ''DELETE''}" and h: "add_any_headers headers ?base = Inr hs" for hs
      proof (rule exchange_opens [OF _ rendered_as_given [OF Some base(2,3) add_any_headers_effect [OF h base(1)]] tf2])
        show "\<not> has_newline (py_upper verb)" using v by (intro verb_lines) blast
        show "\<not> has_newline (path_and_query p (pu_query p))" using lines by (intro no_newline_path)
      qed (use resolve_InrD [OF res [unfolded Inr]] in simp)
      then show ?thesis using tf2
        by (simp add: safe_http_request_def Some a ok res Inr opens_none Let_def del: insert_iff split: sum.split)
    qed
  qed
qed

lemma pinned_addresses_safe:
  assumes "pinned_addresses net host port tf = (r, tf')"
  shows "tf_connections tf' = tf_connections tf \<and>
    (\<forall>addresses. r = Inr addresses \<longrightarrow> \<not> is_disallowed_ip net (first_address addresses))"
proof -
  have "first_address [host] = host" by (simp add: first_address_def)
  with assms resolve_traffic [of net host "Some port" tf] resolve_InrD [of net host "Some port" tf]
  show ?thesis by (auto simp: pinned_addresses_def split: if_splits)
qed

lemma pinned_send_opens:
  assumes "urlparse (ne_bracketed_host net) url = Some p"
  shows "opens_as_given net verb url (given_headers headers) (pinned_body json_body body) tf
    (snd (pinned_send net p port dflt verb headers params json_body body limit tf))"
proof -
  note lines = urlparse_lines [OF assms]
  let ?base = "pinned_base_headers (host_header (hostname p) port dflt) json_body"
  let ?text = "pinned_body json_body body"
  obtain r tf1 where a: "pinned_addresses net (hostname p) port tf = (r, tf1)" by fastforce
  note addr = pinned_addresses_safe [OF a]
  note base = base_headers [OF no_newline_host_header [OF hostname_lines [OF lines(1)]],
      where base = ?base, OF insertI2 [OF insertI1]]
  have path: "\<not> has_newline (path_and_query p (pinned_query p params))"
    using lines by (intro no_newline_path) (simp_all add: pinned_query_def line_simps has_newline_Cons)
  have "opens_as_given net verb url (given_headers headers) ?text tf (snd (exchange net limit
      \<lparr>cx_address = first_address addresses, cx_port = port, cx_server_hostname = sni,
       cx_request = render_request verb (path_and_query p (pinned_query p params)) (with_length ?text hs) ?text\<rparr> tf1))"
    if "r = Inr addresses" "verb \<in> {''GET'', ''POST'', ''PUT'', ''PATCH'', ''DELETE''}" "add_headers headers ?base = Inr hs"
    for addresses hs sni
    by (rule exchange_opens [OF _ rendered_as_given [OF assms base(2,3) add_headers_effect [OF that(3) base(1)]
          verb_lines [OF that(2)] path]]) (use addr that(1) in simp_all)
  then show ?thesis
    using addr by (simp add: pinned_send_def a Let_def opens_none del: insert_iff split: sum.split)
qed

lemma pinned_http_request_given:
  "opens_as_given net (py_upper verb) url (given_headers headers) (pinned_body json_body body) tf
    (snd (pinned_http_request net verb url headers params json_body body allow_http limit tf))"
  by (auto simp: pinned_http_request_def Let_def opens_none split: option.split sum.split
      intro: pinned_send_opens)

lemma pinned_http_request_opens:
  "opens_safely net tf (snd (pinned_http_request net verb url headers params json_body body allow_http limit tf))"
  by (rule opens_safelyI [OF pinned_http_request_given])

lemma validate_traffic: "tf_connections (snd (validate_http_input net input tf)) = tf_connections tf"
proof -
  have "tf_connections (snd (assert_public_http_url net url tf)) = tf_connections tf" for url
    using resolve_traffic
    by (auto simp: assert_public_http_url_def split: option.split sum.split prod.split net_error.split) (metis snd_conv)+
  then show ?thesis
    by (auto simp: validate_http_input_def split: json.split sum.split prod.split) (metis snd_conv)+
qed

text \<open>What a connector node asks for: its input, and the headers with those of its credential.\<close>

definition node_input :: "node \<Rightarrow> (string, json) dict" where
  "node_input n = obj_or_empty (py_or (jget ''input'' (node_data n)) (JObj []))"

definition node_headers :: "node \<Rightarrow> (string, json) dict \<Rightarrow> (string, json) dict" where
  "node_headers n credential = with_credential credential (obj_or_empty (jget ''headers'' (node_input n)))"

lemma py_upper_idem: "py_upper (py_upper x) = py_upper x"
proof -
  have fixed: "\<forall>d \<in> set ''ABCDEFGHIJKLMNOPQRSTUVWXYZ''. upper_char d = d" by code_simp
  have "upper_char (upper_char c) = upper_char c" for c
  proof (cases "map_of (zip ''abcdefghijklmnopqrstuvwxyz'' ''ABCDEFGHIJKLMNOPQRSTUVWXYZ'') c")
    case None
    then show ?thesis by (simp add: upper_char_def)
  next
    case (Some d)
    then have "d \<in> set ''ABCDEFGHIJKLMNOPQRSTUVWXYZ''" by (blast dest: map_of_SomeD set_zip_rightD)
    with fixed have "upper_char d = d" by blast
    with Some show ?thesis by (simp add: upper_char_def)
  qed
  then show ?thesis by (simp add: py_upper_def)
qed

lemma http_request_body_opens:
  "opens_as_given net (http_verb input) (py_str (jget ''url'' input))
    (given_headers (with_credential credential (obj_or_empty (jget ''headers'' input))))
    (pinned_body (jget ''body'' input) []) tf (snd (http_request_body net duration action input credential tf))"
proof -
  obtain r tf1 where v: "validate_http_input net input tf = (r, tf1)" by fastforce
  then have tf1: "tf_connections tf1 = tf_connections tf" using validate_traffic [of net input tf] by simp
  show ?thesis
  proof (cases "\<exists>url headers0. r = Inr url \<and> py_or (jget ''headers'' input) (JObj []) = JObj headers0 \<and>
      timeout_error net (jget ''timeout_seconds'' input) = None")
    case False
    then show ?thesis using tf1
      by (auto simp: http_request_body_def v opens_none split: sum.split json.split option.split)
  next
    case True
    then obtain url headers0 where ok: "r = Inr url" "py_or (jget ''headers'' input) (JObj []) = JObj headers0"
      "timeout_error net (jget ''timeout_seconds'' input) = None" by blast
    have url: "py_str (jget ''url'' input) = url"
      using v ok(1) by (auto simp: validate_http_input_def split: json.splits if_splits prod.splits sum.splits)
    have hd: "obj_or_empty (jget ''headers'' input) = headers0"
      using ok(2) by (cases "jget ''headers'' input") (auto simp: py_or_def split: if_splits)
    obtain q tf2 where p: "pinned_http_request net (http_verb input) url (with_credential credential headers0)
        (obj_or_empty (jget ''query'' input)) (jget ''body'' input) [] True MAX_RESPONSE_BYTES tf1 = (q, tf2)" by fastforce
    have "opens_as_given net (http_verb input) url (given_headers (with_credential credential headers0))
        (pinned_body (jget ''body'' input) []) tf tf2"
      using opens_after [OF tf1 pinned_http_request_given] p
      by (metis (no_types) http_verb_def py_upper_idem snd_conv)
    moreover have "snd (http_request_body net duration action input credential tf) = tf2"
      by (simp add: http_request_body_def v ok p Let_def split: sum.split)
    ultimately show ?thesis by (simp add: url hd)
  qed
qed

section \<open>Properties\<close>

text \<open>
  C18: no HTTP request leaves for a restricted address, and none says more than it was given. A
  connector node of a workflow and an API tool open at most one connection; whatever the names resolve
  to, also when every look-up answers differently, the address of the connection is one that
  \<open>_is_disallowed_ip\<close> accepts at that time, not the name. What a server reads from it is the method
  and the body that were given, one Host header, that of the given URL, and otherwise only
  given headers with their values and our own: a line break in a header, the URL, the
  query or the credential smuggles nothing in. A credential that cannot be read opens nothing.
\<close>

theorem outgoing_requests_safe:
  "opens_as_given net (py_upper verb) url (given_headers (obj_or_empty headers)) body tf
      (snd (safe_http_request net verb url headers body tf)) \<and>
    (case credential_config fn st tid (node_data n) (node_input n) s of
      Inl _ \<Rightarrow> tf_connections (snd (execute_connector_node net fn st duration s tid n tf)) = tf_connections tf
    | Inr credential \<Rightarrow> opens_as_given net (http_verb (node_input n)) (py_str (jget ''url'' (node_input n)))
        (given_headers (node_headers n credential)) (pinned_body (jget ''body'' (node_input n)) []) tf
        (snd (execute_connector_node net fn st duration s tid n tf)))"
proof -
  have "opens_as_given net (http_verb (node_input n)) (py_str (jget ''url'' (node_input n)))
      (given_headers (node_headers n credential)) (pinned_body (jget ''body'' (node_input n)) []) tf
      (snd (execute_http_request net duration action (node_input n) credential tf))" for action credential
    using http_request_body_opens [of net "node_input n" credential tf duration action]
    by (cases "http_request_body net duration action (node_input n) credential tf")
      (auto simp: execute_http_request_def node_headers_def Let_def split: sum.split conn_exc.split)
  then have "case credential_config fn st tid (node_data n) (node_input n) s of
      Inl _ \<Rightarrow> tf_connections (snd (execute_connector_node net fn st duration s tid n tf)) = tf_connections tf
    | Inr credential \<Rightarrow> opens_as_given net (http_verb (node_input n)) (py_str (jget ''url'' (node_input n)))
        (given_headers (node_headers n credential)) (pinned_body (jget ''body'' (node_input n)) []) tf
        (snd (execute_connector_node net fn st duration s tid n tf))"
    by (auto simp: execute_connector_node_def node_input_def [symmetric] Let_def opens_none split: sum.split)
  then show ?thesis using safe_http_request_opens by blast
qed

end
