(* ===== verification/Tools.thy ===== *)
theory Tools
  imports SafeHttp
begin

text \<open>
  Tools: their execution for agents, \<open>app/engine/tools/executor.py\<close>, and the registry of a tenant's
  tools, \<open>app/services/tool_service.py\<close>, with the masking of secrets and the merge of masked
  configurations. Databases and the file system are the records \<open>sql\<close> and \<open>file_system\<close>.
\<close>

section \<open>Running a tool\<close>

record tool_answer =
  ta_success :: bool
  ta_output :: string

definition MAX_DB_ROWS :: nat where
  "MAX_DB_ROWS = 100"

definition MAX_FILE_BYTES :: nat where
  "MAX_FILE_BYTES = 100000"

definition failure :: "string \<Rightarrow> tool_answer" where
  "failure msg = \<lparr>ta_success = False, ta_output = msg\<rparr>"

text \<open>A string method of a value: \<open>Inl\<close> is the \<open>AttributeError\<close> of another type.\<close>

definition str_or_error :: "string \<Rightarrow> json \<Rightarrow> string + string" where
  "str_or_error attribute v =
    (case v of JStr x \<Rightarrow> Inr x
     | _ \<Rightarrow> Inl (quoted (type_name v) @ '' object has no attribute '' @ quoted attribute))"

text \<open>The value at a dotted path, as far as the path leads.\<close>

fun follow_path :: "string list \<Rightarrow> json \<Rightarrow> json" where
  "follow_path [] v = v"
| "follow_path (k # ks) v =
    (case v of
      JObj d \<Rightarrow> (case dget k d of Some w \<Rightarrow> follow_path ks w | None \<Rightarrow> v)
    | _ \<Rightarrow> v)"

definition response_value :: "json \<Rightarrow> response \<Rightarrow> string + json" where
  "response_value path r =
    (let v = (case rp_body_json r of None \<Rightarrow> JStr (rp_body_text r) | Some JNull \<Rightarrow> JStr (rp_body_text r) | Some w \<Rightarrow> w) in
     if truthy path \<and> is_obj v then
       (case str_or_error ''split'' path of Inl msg \<Rightarrow> Inl msg | Inr x \<Rightarrow> Inr (follow_path (py_split (CHR ''.'') x) v))
     else Inr v)"

text \<open>The body of a request: the template with the input in place, when there is an input.\<close>

definition render_body :: "json \<Rightarrow> string \<Rightarrow> string + string" where
  "render_body template input =
    (if truthy template \<and> input \<noteq> [] then
       (case str_or_error ''replace'' template of Inl msg \<Rightarrow> Inl msg | Inr x \<Rightarrow> Inr (replace_all ''{input}'' input x))
     else Inr [])"

definition api_answer :: "json \<Rightarrow> net_error + response \<Rightarrow> tool_answer" where
  "api_answer path answer =
    (case answer of
      Inl TimeoutErr \<Rightarrow> failure ''Tool API unreachable (timeout)''
    | Inl err \<Rightarrow> failure (''API tool error: '' @ error_text err)
    | Inr r \<Rightarrow>
       (case response_value path r of
         Inl msg \<Rightarrow> failure (''API tool error: '' @ msg)
       | Inr v \<Rightarrow> \<lparr>ta_success = (200 \<le> rp_status_code r \<and> rp_status_code r < 400), ta_output = py_str v\<rparr>))"

text \<open>\<open>_execute_api_tool\<close>: \<open>Inl\<close> is an exception that leaves the function.\<close>

definition execute_api_tool ::
  "net \<Rightarrow> (string, json) dict \<Rightarrow> string \<Rightarrow> traffic \<Rightarrow> (string + tool_answer) \<times> traffic" where
  "execute_api_tool net config input tf =
    (case str_or_error ''upper'' (jget_or ''method'' (JStr ''GET'') config) of
      Inl msg \<Rightarrow> (Inl msg, tf)
    | Inr verb \<Rightarrow>
       (case str_or_error ''decode'' (jget_or ''url'' (JStr []) config) of
         Inl msg \<Rightarrow> (Inl msg, tf)
       | Inr url \<Rightarrow>
          (case assert_safe_api_url net url tf of
            (Inl err, tf1) \<Rightarrow> (Inl (error_text err), tf1)
          | (Inr _, tf1) \<Rightarrow>
             (case render_body (jget_or ''body_template'' (JStr []) config) input of
               Inl msg \<Rightarrow> (Inl msg, tf1)
             | Inr body \<Rightarrow>
                (case safe_http_request net (py_upper verb) url (jget_or ''headers'' (JObj []) config) body tf1 of
                  (answer, tf2) \<Rightarrow>
                    (Inr (api_answer (jget_or ''response_path'' (JStr []) config) answer), tf2))))))"

text \<open>\<open>_render_read_only_query\<close>: the query and its parameters, or the \<open>ValueError\<close>.\<close>

definition rstrip_semicolons :: "string \<Rightarrow> string" where
  "rstrip_semicolons x = rev (dropWhile (\<lambda>c. c = CHR '';'') (rev x))"

definition READ_ONLY_KEYWORDS :: "string list" where
  "READ_ONLY_KEYWORDS = [''select'', ''with'', ''show'', ''pragma'']"

definition render_read_only_query :: "string \<Rightarrow> string \<Rightarrow> string \<Rightarrow> string + string \<times> string list" where
  "render_read_only_query template input placeholder =
    (let query0 = py_strip template; bound = occurs_in ''{input}'' query0;
         query = (if bound then replace_all ''{input}'' placeholder query0 else query0);
         params = (if bound then [input] else []) in
     if \<not> list_ex (\<lambda>k. prefix k (py_lower (dropWhile is_space query))) READ_ONLY_KEYWORDS then
       Inl ''Only read-only database queries are allowed''
     else if CHR '';'' \<in> set (rstrip_semicolons query) then Inl ''Multiple SQL statements are not allowed''
     else Inr (query, params))"

text \<open>The rows a database answers to a query with its parameters, or the text of an exception.\<close>

record sql =
  sq_postgres :: "string \<Rightarrow> string \<Rightarrow> string list \<Rightarrow> string + json list"
  sq_sqlite :: "string \<Rightarrow> string \<Rightarrow> string list \<Rightarrow> string + json list"

definition database_answer :: "string + json list \<Rightarrow> tool_answer" where
  "database_answer rows =
    (case rows of
      Inl msg \<Rightarrow> failure (''Database tool error: '' @ msg)
    | Inr rs \<Rightarrow> \<lparr>ta_success = True, ta_output = json_dumps (JList (take MAX_DB_ROWS rs))\<rparr>)"

definition execute_database_tool ::
  "net \<Rightarrow> sql \<Rightarrow> (string, json) dict \<Rightarrow> string \<Rightarrow> string + tool_answer" where
  "execute_database_tool net db config input =
    (let conn = jget_or ''connection_string'' (JStr []) config; template = jget_or ''query_template'' (JStr []) config in
     if \<not> truthy conn then Inr (failure ''No connection string configured'')
     else if \<not> truthy template then Inr (failure ''No query template configured'')
     else case str_or_error ''decode'' conn of
       Inl msg \<Rightarrow> Inl msg
     | Inr url \<Rightarrow>
        (case urlparse (ne_bracketed_host net) url of
          None \<Rightarrow> Inl ''Invalid IPv6 URL''
        | Some p \<Rightarrow>
           if prefix ''postgres'' (pu_scheme p) then
             Inr (database_answer (case str_or_error ''strip'' template of
               Inl msg \<Rightarrow> Inl msg
             | Inr t \<Rightarrow> (case render_read_only_query t input ''$1'' of
                 Inl msg \<Rightarrow> Inl msg | Inr (query, params) \<Rightarrow> sq_postgres db url query params)))
           else if pu_scheme p \<in> {''sqlite'', ''sqlite3''} then
             Inr (database_answer (case str_or_error ''strip'' template of
               Inl msg \<Rightarrow> Inl msg
             | Inr t \<Rightarrow> (case render_read_only_query t input ''?'' of
                 Inl msg \<Rightarrow> Inl msg
               | Inr (query, params) \<Rightarrow> sq_sqlite db (if pu_path p = [] then '':memory:'' else pu_path p) query params)))
           else Inr (failure ''Unsupported database connection string'')))"

text \<open>
  The file system: an absolute path is the list of its components. \<open>fs_base\<close> is
  \<open>Path(x).expanduser().resolve()\<close>, \<open>fs_resolve base x\<close> is \<open>(base / x).resolve()\<close>, links followed.
\<close>

record file_system =
  fs_base :: "string \<Rightarrow> string + string list"
  fs_resolve :: "string list \<Rightarrow> string \<Rightarrow> string + string list"
  fs_exists :: "string list \<Rightarrow> bool"
  fs_is_file :: "string list \<Rightarrow> bool"
  fs_is_dir :: "string list \<Rightarrow> bool"
  fs_entries :: "string list \<Rightarrow> string + (string \<times> bool) list"
  fs_read :: "string list \<Rightarrow> string + string"

text \<open>\<open>path.suffix\<close>: the last dot of the name, neither first nor last in it.\<close>

definition path_suffix :: "string list \<Rightarrow> string" where
  "path_suffix path =
    (let name = (if path = [] then [] else last path);
         ext = rev (takeWhile (\<lambda>c. c \<noteq> CHR ''.'') (rev name)) in
     if CHR ''.'' \<in> set name \<and> ext \<noteq> [] \<and> length ext + 1 < length name then CHR ''.'' # ext else [])"

definition allowed_suffixes :: "json \<Rightarrow> string + string list" where
  "allowed_suffixes v =
    (case v of
      JList xs \<Rightarrow> Inr (map (\<lambda>x. py_lower (py_str x)) xs)
    | JStr x \<Rightarrow> Inr (map (\<lambda>c. py_lower [c]) x)
    | JObj d \<Rightarrow> Inr (map (\<lambda>p. py_lower (fst p)) d)
    | _ \<Rightarrow> Inl (quoted (type_name v) @ '' object is not iterable''))"

definition read_target :: "file_system \<Rightarrow> string list \<Rightarrow> string list \<Rightarrow> string + tool_answer" where
  "read_target fs exts target =
    (if fs_is_file fs target \<and> exts \<noteq> [] \<and> py_lower (path_suffix target) \<notin> set exts then
       Inr (failure ''File extension is not allowed'')
     else if fs_is_dir fs target then
       (case fs_entries fs target of
         Inl msg \<Rightarrow> Inl msg
       | Inr entries \<Rightarrow> Inr \<lparr>ta_success = True, ta_output = json_dumps (JList (map
           (\<lambda>e. JObj [(''name'', JStr (fst e)), (''type'', JStr (if snd e then ''directory'' else ''file''))])
           (take MAX_DB_ROWS (sort_key fst entries))))\<rparr>)
     else
       (case fs_read fs target of
         Inl msg \<Rightarrow> Inl msg
       | Inr content \<Rightarrow> Inr \<lparr>ta_success = True, ta_output = take MAX_FILE_BYTES content\<rparr>))"

definition find_target :: "file_system \<Rightarrow> json \<Rightarrow> string \<Rightarrow> string + (tool_answer + string list)" where
  "find_target fs base_path input =
    (case str_or_error ''__fspath__'' base_path of
      Inl msg \<Rightarrow> Inl msg
    | Inr text \<Rightarrow>
       (case fs_base fs text of
         Inl msg \<Rightarrow> Inl msg
       | Inr base \<Rightarrow>
          (let stripped = py_strip (if input = [] then ''.'' else input);
               requested = (if stripped = [] then ''.'' else stripped) in
           if prefix ''/'' requested then Inr (Inl (failure ''Absolute paths are not allowed''))
           else case fs_resolve fs base requested of
             Inl msg \<Rightarrow> Inl msg
           | Inr target \<Rightarrow>
              if \<not> prefix base target then Inr (Inl (failure ''Path escapes configured base_path''))
              else if \<not> fs_exists fs target then Inr (Inl (failure ''Path does not exist''))
              else Inr (Inr target))))"

definition execute_file_system_tool :: "file_system \<Rightarrow> (string, json) dict \<Rightarrow> string \<Rightarrow> tool_answer" where
  "execute_file_system_tool fs config input =
    (let base_path = jget_or ''base_path'' (JStr []) config in
     if \<not> truthy base_path then failure ''No base path configured''
     else case (case find_target fs base_path input of
         Inl msg \<Rightarrow> Inl msg
       | Inr (Inl r) \<Rightarrow> Inr r
       | Inr (Inr target) \<Rightarrow>
          (case allowed_suffixes (jget_or ''allowed_extensions'' (JList []) config) of
            Inl msg \<Rightarrow> Inl msg
          | Inr exts \<Rightarrow> read_target fs exts target)) of
       Inl msg \<Rightarrow> failure (''File system tool error: '' @ msg)
     | Inr r \<Rightarrow> r)"

definition execute_tool ::
  "net \<Rightarrow> sql \<Rightarrow> file_system \<Rightarrow> string \<Rightarrow> (string, json) dict \<Rightarrow> string \<Rightarrow> traffic \<Rightarrow> tool_answer \<times> traffic" where
  "execute_tool net db fs tool_type config input tf =
    (let (r, tf1) =
       (if tool_type = ''api'' then execute_api_tool net config input tf
        else if tool_type = ''database'' then (execute_database_tool net db config input, tf)
        else if tool_type = ''file_system'' then (Inr (execute_file_system_tool fs config input), tf)
        else (Inr (failure (''Unknown tool type: '' @ tool_type)), tf)) in
     ((case r of Inl msg \<Rightarrow> failure (''Tool execution error: '' @ msg) | Inr x \<Rightarrow> x), tf1))"

section \<open>Masked configurations\<close>

text \<open>
  \<open>(://[^:]+:)([^@]+)(@)\<close> at the front of the text: the user part up to its colon, and what
  follows the first at sign after it. Neither part can hold the character that ends it, so the
  match is unique.
\<close>

definition match_userinfo :: "string \<Rightarrow> (string \<times> string) option" where
  "match_userinfo x =
    (if \<not> prefix ''://'' x then None
     else let u = takeWhile (\<lambda>c. c \<noteq> CHR '':'') (drop 3 x); r = drop (length u + 4) x;
              p = takeWhile (\<lambda>c. c \<noteq> CHR ''@'') r in
       if u = [] \<or> length u + 3 = length x \<or> p = [] \<or> length p = length r then None
       else Some (''://'' @ u @ '':'', drop (Suc (length p)) r))"

lemma match_userinfo_shorter: "match_userinfo x = Some (a, r) \<Longrightarrow> length r < length x"
  by (cases x) (auto simp: match_userinfo_def Let_def split: if_splits)

text \<open>\<open>_CONNECTION_STRING_RE.sub(r"\1****\3", x)\<close>.\<close>

function mask_connection :: "string \<Rightarrow> string" where
  "mask_connection [] = []"
| "mask_connection (c # x) =
    (case match_userinfo (c # x) of
      Some (a, r) \<Rightarrow> a @ ''****@'' @ mask_connection r
    | None \<Rightarrow> c # mask_connection x)"
  by pat_completeness auto
termination
  by (relation "measure length") (auto dest: match_userinfo_shorter)

definition SENSITIVE_HEADERS :: "string list" where
  "SENSITIVE_HEADERS = [''authorization'', ''api-key'', ''x-api-key'', ''apikey'']"

definition is_masked_placeholder :: "json \<Rightarrow> bool" where
  "is_masked_placeholder v = (case v of JStr x \<Rightarrow> occurs_in ''****'' x | _ \<Rightarrow> False)"

definition mask_headers :: "(string, json) dict \<Rightarrow> (string, json) dict" where
  "mask_headers hs = map (\<lambda>h. (fst h, if py_lower (fst h) \<in> set SENSITIVE_HEADERS then JStr ''****'' else snd h)) hs"

text \<open>\<open>Inl\<close>: the \<open>TypeError\<close> of a connection string that is no string.\<close>

definition mask_config :: "(string, json) dict \<Rightarrow> string \<Rightarrow> string + (string, json) dict" where
  "mask_config config tool_type =
    (if tool_type = ''database'' then
       (case dget ''connection_string'' config of
         None \<Rightarrow> Inr config
       | Some (JStr x) \<Rightarrow> Inr (dset ''connection_string'' (JStr (mask_connection x)) config)
       | Some _ \<Rightarrow> Inl ''expected string or bytes-like object'')
     else if tool_type = ''api'' then
       (case dget ''headers'' config of
         Some (JObj hs) \<Rightarrow> Inr (dset ''headers'' (JObj (mask_headers hs)) config)
       | _ \<Rightarrow> Inr config)
     else Inr config)"

text \<open>The service's response: the row with its configuration masked.\<close>

definition tool_response :: "tool_row \<Rightarrow> http_error + tool_row" where
  "tool_response t =
    (case mask_config (obj_or_empty (tl_config t)) (tl_tool_type t) of
      Inl msg \<Rightarrow> Inl (internal_error msg)
    | Inr m \<Rightarrow> Inr (t\<lparr>tl_config := JObj m\<rparr>))"

text \<open>A \<open>ValueError\<close> of the URL check is answered 400, any other exception 500.\<close>

definition assert_safe_url :: "net \<Rightarrow> string \<Rightarrow> traffic \<Rightarrow> (http_error + unit) \<times> traffic" where
  "assert_safe_url net url tf =
    (case assert_safe_api_url net url tf of
      (Inl (ValueErr msg), tf1) \<Rightarrow> (Inl (HTTPException 400 msg), tf1)
    | (Inl err, tf1) \<Rightarrow> (Inl (internal_error (error_text err)), tf1)
    | (Inr u, tf1) \<Rightarrow> (Inr u, tf1))"

definition stored_header :: "json \<Rightarrow> string \<Rightarrow> string + json option" where
  "stored_header existing k =
    (case existing of
      JObj old \<Rightarrow> Inr (dget k old)
    | JList xs \<Rightarrow> if JStr k \<in> set xs then Inl ''list indices must be integers or slices, not str'' else Inr None
    | JStr x \<Rightarrow> if occurs_in k x then Inl ''string indices must be integers'' else Inr None
    | v \<Rightarrow> Inl (''argument of type '' @ quoted (type_name v) @ '' is not iterable''))"

fun unmask_headers :: "json \<Rightarrow> (string, json) dict \<Rightarrow> string + (string, json) dict" where
  "unmask_headers existing [] = Inr []"
| "unmask_headers existing ((k, v) # hs) =
    (case (if is_masked_placeholder v then stored_header existing k else Inr None) of
      Inl msg \<Rightarrow> Inl msg
    | Inr stored \<Rightarrow>
       (case unmask_headers existing hs of
         Inl msg \<Rightarrow> Inl msg
       | Inr r \<Rightarrow> Inr ((k, case stored of None \<Rightarrow> v | Some w \<Rightarrow> w) # r)))"

text \<open>
  \<open>_merge_api_config\<close>, one incoming entry after the other: masked headers take the stored value,
  a new URL is checked.
\<close>

fun merge_api_items ::
  "net \<Rightarrow> (string, json) dict \<Rightarrow> (string, json) dict \<Rightarrow> traffic \<Rightarrow> (http_error + (string, json) dict) \<times> traffic" where
  "merge_api_items net merged [] tf = (Inr merged, tf)"
| "merge_api_items net merged ((key, v) # items) tf =
    (if key = ''headers'' \<and> is_obj v then
       (case unmask_headers (jget_or ''headers'' (JObj []) merged) (obj_or_empty v) of
         Inl msg \<Rightarrow> (Inl (internal_error msg), tf)
       | Inr hs \<Rightarrow> merge_api_items net (dset ''headers'' (JObj hs) merged) items tf)
     else
       (case (case v of JStr url \<Rightarrow> if key = ''url'' then assert_safe_url net url tf else (Inr (), tf) | _ \<Rightarrow> (Inr (), tf)) of
         (Inl err, tf1) \<Rightarrow> (Inl err, tf1)
       | (Inr _, tf1) \<Rightarrow> merge_api_items net (dset key v merged) items tf1))"

definition merge_database_config :: "(string, json) dict \<Rightarrow> (string, json) dict \<Rightarrow> (string, json) dict" where
  "merge_database_config existing incoming =
    foldl (\<lambda>acc p. if fst p = ''connection_string'' \<and> is_masked_placeholder (snd p) then acc
      else dset (fst p) (snd p) acc) existing incoming"

section \<open>The registry\<close>

definition validate_config ::
  "net \<Rightarrow> string \<Rightarrow> (string, json) dict \<Rightarrow> traffic \<Rightarrow> (http_error + unit) \<times> traffic" where
  "validate_config net tool_type config tf =
    (if tool_type = ''api'' then
       (case jget ''url'' config of
         JStr url \<Rightarrow>
           if url = [] then (Inl (HTTPException 400 (''Config '' @ quoted ''url'' @ '' is required for API tools'')), tf)
           else if \<not> (prefix ''http://'' url \<or> prefix ''https://'' url) then
             (Inl (HTTPException 400 ''Invalid URL format''), tf)
           else (case str_or_error ''upper'' (jget_or ''method'' (JStr ''GET'') config) of
             Inl msg \<Rightarrow> (Inl (internal_error msg), tf)
           | Inr verb \<Rightarrow>
              if py_upper verb \<notin> {''GET'', ''POST'', ''PUT'', ''DELETE''} then
                (Inl (HTTPException 400 ''Method must be GET, POST, PUT, or DELETE''), tf)
              else assert_safe_url net url tf)
       | _ \<Rightarrow> (Inl (HTTPException 400 (''Config '' @ quoted ''url'' @ '' is required for API tools'')), tf))
     else if tool_type = ''database'' then
       (if truthy (jget ''connection_string'' config) then (Inr (), tf)
        else (Inl (HTTPException 400 (''Config '' @ quoted ''connection_string'' @ '' is required for database tools'')), tf))
     else if tool_type = ''file_system'' then
       (if truthy (jget ''base_path'' config) then (Inr (), tf)
        else (Inl (HTTPException 400 (''Config '' @ quoted ''base_path'' @ '' is required for file_system tools'')), tf))
     else (Inr (), tf))"

definition name_taken :: "string \<Rightarrow> http_error" where
  "name_taken name = HTTPException 409 (''Tool with name '' @ quoted name @ '' already exists'')"

definition active_tool :: "uuid \<Rightarrow> string \<Rightarrow> tool_row \<Rightarrow> bool" where
  "active_tool tid name t \<longleftrightarrow> tl_tenant_id t = tid \<and> tl_name t = name \<and> tl_is_active t"

text \<open>
  A response that cannot be built is a 500 after the commit: the row stays. The traffic of a
  request ends with it.
\<close>

definition create_tool ::
  "net \<Rightarrow> traffic \<Rightarrow> uuid \<Rightarrow> instant \<Rightarrow> uuid \<Rightarrow> string \<Rightarrow> string \<Rightarrow> string \<Rightarrow> (string, json) dict \<Rightarrow>
    (tool_row, db) svc" where
  "create_tool net tf new_id now tid name description tool_type config s =
    (case validate_config net tool_type config tf of
      (Inl err, _) \<Rightarrow> (Inl err, s)
    | (Inr _, _) \<Rightarrow>
       if list_ex (active_tool tid name) (tools s) then (Inl (name_taken name), s)
       else (let t = \<lparr>tl_id = new_id, tl_tenant_id = tid, tl_name = name, tl_description = description,
               tl_tool_type = tool_type, tl_config = JObj config, tl_is_active = True, tl_created_at = now\<rparr> in
         (tool_response t, s\<lparr>tools := tools s @ [t]\<rparr>)))"

fun tool_responses :: "tool_row list \<Rightarrow> http_error + tool_row list" where
  "tool_responses [] = Inr []"
| "tool_responses (t # ts) =
    (case tool_response t of
      Inl err \<Rightarrow> Inl err
    | Inr v \<Rightarrow> (case tool_responses ts of Inl err \<Rightarrow> Inl err | Inr vs \<Rightarrow> Inr (v # vs)))"

definition list_tools :: "uuid \<Rightarrow> db \<Rightarrow> http_error + tool_row list" where
  "list_tools tid s = tool_responses (sort_key tl_created_at (filter (\<lambda>t. tl_tenant_id t = tid \<and> tl_is_active t) (tools s)))"

definition get_tool :: "uuid \<Rightarrow> uuid \<Rightarrow> db \<Rightarrow> http_error + tool_row" where
  "get_tool tid tool_id s =
    (case row_find (\<lambda>t. tl_id t = tool_id \<and> tl_tenant_id t = tid \<and> tl_is_active t) (tools s) of
      None \<Rightarrow> Inl (HTTPException 404 ''Tool not found'')
    | Some t \<Rightarrow> Inr t)"

text \<open>The configuration an update stores, before it is validated.\<close>

definition merged_config ::
  "net \<Rightarrow> tool_row \<Rightarrow> string \<Rightarrow> (string, json) dict \<Rightarrow> traffic \<Rightarrow> (http_error + (string, json) dict) \<times> traffic" where
  "merged_config net t effective_type config tf =
    (if tl_tool_type t = ''api'' \<and> effective_type = ''api'' then
       merge_api_items net (obj_or_empty (tl_config t)) config tf
     else if tl_tool_type t = ''database'' \<and> effective_type = ''database'' then
       (Inr (merge_database_config (obj_or_empty (tl_config t)) config), tf)
     else (Inr config, tf))"

definition updated_config ::
  "net \<Rightarrow> tool_row \<Rightarrow> string option \<Rightarrow> (string, json) dict option \<Rightarrow> traffic \<Rightarrow> http_error + json" where
  "updated_config net t tool_type config tf =
    (let effective = (case tool_type of None \<Rightarrow> tl_tool_type t | Some x \<Rightarrow> x) in
     case config of
       Some c \<Rightarrow>
         (case merged_config net t effective c tf of
           (Inl err, _) \<Rightarrow> Inl err
         | (Inr m, tf1) \<Rightarrow> (case validate_config net effective m tf1 of
             (Inl err, _) \<Rightarrow> Inl err | (Inr _, _) \<Rightarrow> Inr (JObj m)))
     | None \<Rightarrow>
         (case tool_type of
           None \<Rightarrow> Inr (tl_config t)
         | Some x \<Rightarrow> (case validate_config net x (obj_or_empty (tl_config t)) tf of
             (Inl err, _) \<Rightarrow> Inl err | (Inr _, _) \<Rightarrow> Inr (tl_config t))))"

definition update_tool ::
  "net \<Rightarrow> traffic \<Rightarrow> uuid \<Rightarrow> uuid \<Rightarrow> string option \<Rightarrow> string option \<Rightarrow> string option \<Rightarrow>
    (string, json) dict option \<Rightarrow> (tool_row, db) svc" where
  "update_tool net tf tid tool_id name description tool_type config s =
    (case get_tool tid tool_id s of
      Inl err \<Rightarrow> (Inl err, s)
    | Inr t \<Rightarrow>
       if name \<noteq> None \<and> the name \<noteq> tl_name t \<and> list_ex (\<lambda>x. active_tool tid (the name) x \<and> tl_id x \<noteq> tool_id) (tools s)
       then (Inl (name_taken (the name)), s)
       else (case updated_config net t tool_type config tf of
         Inl err \<Rightarrow> (Inl err, s)
       | Inr c \<Rightarrow>
          (let f = (\<lambda>x. x\<lparr>tl_name := (case name of None \<Rightarrow> tl_name x | Some n \<Rightarrow> n),
                tl_description := (case description of None \<Rightarrow> tl_description x | Some d \<Rightarrow> d),
                tl_tool_type := (case tool_type of None \<Rightarrow> tl_tool_type x | Some y \<Rightarrow> y), tl_config := c\<rparr>) in
           (tool_response (f t), s\<lparr>tools := row_update (\<lambda>x. tl_id x = tool_id) f (tools s)\<rparr>))))"

definition delete_tool :: "uuid \<Rightarrow> uuid \<Rightarrow> (unit, db) svc" where
  "delete_tool tid tool_id s =
    (case get_tool tid tool_id s of
      Inl err \<Rightarrow> (Inl err, s)
    | Inr t \<Rightarrow> (Inr (), s\<lparr>tools := row_update (\<lambda>x. tl_id x = tool_id) (\<lambda>x. x\<lparr>tl_is_active := False\<rparr>) (tools s)\<rparr>))"

definition test_tool ::
  "net \<Rightarrow> sql \<Rightarrow> file_system \<Rightarrow> traffic \<Rightarrow> uuid \<Rightarrow> uuid \<Rightarrow> string option \<Rightarrow> db \<Rightarrow> http_error + tool_answer" where
  "test_tool net db fs tf tid tool_id input s =
    (case get_tool tid tool_id s of
      Inl err \<Rightarrow> Inl err
    | Inr t \<Rightarrow> Inr (fst (execute_tool net db fs (tl_tool_type t) (obj_or_empty (tl_config t))
        (case input of None \<Rightarrow> [] | Some x \<Rightarrow> x) tf)))"

section \<open>What a masked configuration leads back to\<close>

lemma occurs_in_append: "occurs_in n (x @ n @ y)"
  by (simp add: occurs_in_sublist sublist_appendI)

lemma mask_connection_cases: "mask_connection x = x \<or> occurs_in ''****'' (mask_connection x)"
proof (induction x rule: mask_connection.induct)
  case (2 c x)
  show ?case
  proof (cases "match_userinfo (c # x)")
    case None
    then show ?thesis using 2(1) [OF None] by (auto simp: occurs_in_sublist sublist_Cons_right)
  next
    case (Some ar)
    obtain a r where "ar = (a, r)" by fastforce
    with Some have "mask_connection (c # x) = a @ ''****'' @ (''@'' @ mask_connection r)" by simp
    then show ?thesis using occurs_in_append by metis
  qed
qed simp

lemma masked_placeholder [simp]: "is_masked_placeholder (JStr ''****'')"
  by code_simp

lemma unmask_masked:
  assumes "distinct (map fst old)" "set hs \<subseteq> set old" "unmask_headers (JObj old) (mask_headers hs) = Inr r"
  shows "r = hs"
  using assms(2,3)
proof (induction hs arbitrary: r)
  case (Cons h hs)
  obtain k v where h: "h = (k, v)" by (cases h)
  have v: "dget k old = Some v"
    using assms(1) Cons.prems(1) h by (auto simp: dget_def map_of_eq_Some_iff)
  from Cons.prems(2) obtain r' where "unmask_headers (JObj old) (mask_headers hs) = Inr r'" and r: "r = (k, v) # r'"
    by (auto simp: mask_headers_def h stored_header_def v split: sum.splits if_splits)
  with Cons.IH [of r'] Cons.prems(1) h show ?case by simp
qed (simp add: mask_headers_def)

text \<open>The entries of the masked form of a configuration \<open>c\<close>.\<close>

definition masked_entry :: "(string, json) dict \<Rightarrow> string \<times> json \<Rightarrow> bool" where
  "masked_entry c p \<longleftrightarrow> p \<in> set c \<and> \<not> (fst p = ''headers'' \<and> is_obj (snd p)) \<or>
    (\<exists>hs. p = (''headers'', JObj (mask_headers hs)) \<and> distinct (map fst hs) \<and> (''headers'', JObj hs) \<in> set c)"

lemma merge_api_same:
  assumes "distinct (map fst c)" "\<forall>p \<in> set items. masked_entry c p" "merge_api_items net c items tf = (Inr m, tf')"
  shows "m = c"
  using assms(2,3)
proof (induction items arbitrary: tf)
  case (Cons p items)
  obtain k v where p: "p = (k, v)" by (cases p)
  have get: "dget i c = Some w" if "(i, w) \<in> set c" for i w
    using that assms(1) by (simp add: dget_def map_of_eq_Some_iff)
  show ?case
  proof (cases "k = ''headers'' \<and> is_obj v")
    case True
    with Cons.prems(1) p obtain hs where hs: "v = JObj (mask_headers hs)" "distinct (map fst hs)"
        "(''headers'', JObj hs) \<in> set c" by (auto simp: masked_entry_def)
    with get have stored: "dget ''headers'' c = Some (JObj hs)" by blast
    then have "jget_or ''headers'' (JObj []) c = JObj hs" by (simp add: jget_or_def)
    with Cons.prems(2) True p hs(1) obtain r where
        "unmask_headers (JObj hs) (mask_headers hs) = Inr r"
        "merge_api_items net (dset ''headers'' (JObj r) c) items tf = (Inr m, tf')"
      by (auto split: sum.splits)
    with unmask_masked [OF hs(2) order_refl] dset_same [OF stored] have "merge_api_items net c items tf = (Inr m, tf')" by simp
    from Cons.IH [OF _ this] Cons.prems(1) show ?thesis by simp
  next
    case False
    with Cons.prems(1) p have "(k, v) \<in> set c" by (auto simp: masked_entry_def)
    then have "dset k v c = c" by (intro dset_same get)
    with Cons.prems(2) False p obtain tf1 where "merge_api_items net c items tf1 = (Inr m, tf')"
      by (auto split: prod.splits sum.splits)
    from Cons.IH [OF _ this] Cons.prems(1) show ?thesis by simp
  qed
qed simp

lemma merge_database_same:
  assumes "distinct (map fst c)"
    and "\<forall>p \<in> set items. p \<in> set c \<or> fst p = ''connection_string'' \<and> is_masked_placeholder (snd p)"
  shows "merge_database_config c items = c"
  using assms(2)
proof (induction items)
  case (Cons p items)
  have "dset (fst p) (snd p) c = c" if "p \<in> set c"
    using that assms(1) by (intro dset_same) (simp add: dget_def map_of_eq_Some_iff)
  with Cons show ?case by (auto simp: merge_database_config_def)
qed (simp add: merge_database_config_def)

lemma set_dset_distinct: "distinct (map fst d) \<Longrightarrow> p \<in> set (dset k v d) \<Longrightarrow> p = (k, v) \<or> p \<in> set d \<and> fst p \<noteq> k"
  by (induction k v d rule: dset.induct) (auto split: if_splits)

lemma merge_mask_same:
  assumes "proper (JObj c)" "mask_config c (tl_tool_type t) = Inr m" "tl_config t = JObj c"
    and "merged_config net t (tl_tool_type t) m tf = (Inr r, tf')"
  shows "r = c"
proof -
  have dist: "distinct (map fst c)" using assms(1) by simp
  consider (api) "tl_tool_type t = ''api''" | (database) "tl_tool_type t = ''database''"
    | (other) "tl_tool_type t \<noteq> ''api''" "tl_tool_type t \<noteq> ''database''" by blast
  then show ?thesis
  proof cases
    case api
    have "\<forall>p \<in> set m. masked_entry c p"
    proof (cases "\<exists>hs. dget ''headers'' c = Some (JObj hs)")
      case True
      then obtain hs where hs: "dget ''headers'' c = Some (JObj hs)" by blast
      then have mem: "(''headers'', JObj hs) \<in> set c" by (rule dget_SomeD)
      moreover have "distinct (map fst hs)" using assms(1) mem by fastforce
      moreover have "m = dset ''headers'' (JObj (mask_headers hs)) c"
        using assms(2) api hs by (simp add: mask_config_def)
      ultimately show ?thesis using set_dset_distinct [OF dist] unfolding masked_entry_def by blast
    next
      case False
      then have "m = c" using assms(2) api by (auto simp: mask_config_def split: option.splits json.splits)
      moreover have "\<not> (fst p = ''headers'' \<and> is_obj (snd p))" if p: "p \<in> set c" for p
      proof
        assume h: "fst p = ''headers'' \<and> is_obj (snd p)"
        then obtain hs where "snd p = JObj hs" by (cases "snd p") auto
        with h p have "(''headers'', JObj hs) \<in> set c" by (cases p) simp
        with dist have "dget ''headers'' c = Some (JObj hs)" by (simp add: dget_def map_of_eq_Some_iff)
        with False show False by blast
      qed
      ultimately show ?thesis unfolding masked_entry_def by blast
    qed
    with merge_api_same [OF dist] assms(3,4) api show ?thesis by (auto simp: merged_config_def)
  next
    case database
    have "\<forall>p \<in> set m. p \<in> set c \<or> fst p = ''connection_string'' \<and> is_masked_placeholder (snd p)"
    proof (cases "\<exists>x. dget ''connection_string'' c = Some (JStr x)")
      case True
      then obtain x where x: "dget ''connection_string'' c = Some (JStr x)" by blast
      then have "m = dset ''connection_string'' (JStr (mask_connection x)) c"
        using assms(2) database by (simp add: mask_config_def)
      then have "p = (''connection_string'', JStr (mask_connection x)) \<or> p \<in> set c" if "p \<in> set m" for p
        using set_dset_distinct [OF dist, of p] that by blast
      moreover have "(''connection_string'', JStr (mask_connection x)) \<in> set c \<or>
          is_masked_placeholder (JStr (mask_connection x))"
        using mask_connection_cases [of x] dget_SomeD [OF x] by (auto simp: is_masked_placeholder_def)
      ultimately show ?thesis by (metis fst_conv snd_conv)
    next
      case False
      then have "m = c" using assms(2) database by (auto simp: mask_config_def split: option.splits json.splits)
      then show ?thesis by blast
    qed
    with merge_database_same [OF dist] assms(3,4) database show ?thesis by (auto simp: merged_config_def)
  next
    case other
    with assms show ?thesis by (auto simp: mask_config_def merged_config_def)
  qed
qed

section \<open>Properties\<close>

text \<open>
  C20: masked secrets survive an edit. A client that reads a tool, where passwords and API keys are
  masked, and sends the configuration it was shown back, leaves the stored configuration as it was,
  secrets included: the merge puts every stored value back in the place of its mask.
\<close>

theorem masked_update_keeps_secrets:
  assumes "get_tool tid tool_id s = Inr t" "distinct (map tl_id (tools s))"
    and "tl_config t = JObj c" "proper (JObj c)" "tool_response t = Inr (t\<lparr>tl_config := JObj shown\<rparr>)"
    and "update_tool net tf tid tool_id None None None (Some shown) s = (Inr v, s')"
  shows "s' = s \<and> v = t\<lparr>tl_config := JObj shown\<rparr>"
proof -
  have m: "mask_config c (tl_tool_type t) = Inr shown"
    using assms(3,5) by (auto simp: tool_response_def split: sum.splits) (metis json.inject(5) tool_row.ext_inject tool_row.surjective tool_row.update_convs(6))
  from assms(6) obtain r where r: "updated_config net t None (Some shown) tf = Inr (JObj r)"
    and s': "s' = s\<lparr>tools := row_update (\<lambda>x. tl_id x = tool_id) (\<lambda>x. x\<lparr>tl_config := JObj r\<rparr>) (tools s)\<rparr>"
    and v: "tool_response (t\<lparr>tl_config := JObj r\<rparr>) = Inr v"
    by (auto simp: update_tool_def assms(1) Let_def updated_config_def split: sum.splits prod.splits)
  have "r = c"
    using r merge_mask_same [OF assms(4) m assms(3), of net tf]
    by (auto simp: updated_config_def Let_def split: sum.splits prod.splits)
  then have same: "t\<lparr>tl_config := JObj r\<rparr> = t" using assms(3) by simp
  have t: "t \<in> set (tools s)" "tl_id t = tool_id"
    using assms(1) by (auto simp: get_tool_def dest: row_find_SomeD split: option.splits)
  have "x\<lparr>tl_config := JObj r\<rparr> = x" if "x \<in> set (tools s)" "tl_id x = tool_id" for x
  proof -
    have "x = t" using that t assms(2) by (auto simp: distinct_map dest: inj_onD)
    with same show ?thesis by simp
  qed
  then have "row_update (\<lambda>x. tl_id x = tool_id) (\<lambda>x. x\<lparr>tl_config := JObj r\<rparr>) (tools s) = tools s"
    unfolding row_update_def by (intro map_idI) auto
  with s' v same assms(5) show ?thesis by simp
qed


text \<open>The witness: a database tool whose password the client sees as \<open>****\<close>.\<close>

definition sample_tool :: tool_row where
  "sample_tool = \<lparr>tl_id = ''k1'', tl_tenant_id = ''t1'', tl_name = ''orders'', tl_description = [],
    tl_tool_type = ''database'', tl_config = JObj [(''connection_string'', JStr ''postgres://u:pw@h/db''),
      (''query_template'', JStr ''select 1'')], tl_is_active = True, tl_created_at = 0\<rparr>"

definition sample_shown :: "(string, json) dict" where
  "sample_shown = [(''connection_string'', JStr ''postgres://u:****@h/db''), (''query_template'', JStr ''select 1'')]"

definition offline :: net where
  "offline = \<lparr>ne_ip_address = (\<lambda>_. None), ne_bracketed_host = (\<lambda>_. False), ne_getaddrinfo = (\<lambda>_ _ _. None),
    ne_exchange = (\<lambda>_. Inl TimeoutErr), ne_float_text = (\<lambda>_. False)\<rparr>"

lemma sample_tool_shown: "tool_response sample_tool = Inr (sample_tool\<lparr>tl_config := JObj sample_shown\<rparr>)"
  by code_simp

theorem masked_update_keeps_secrets_witness:
  "snd (update_tool offline \<lparr>tf_lookups = 0, tf_connections = []\<rparr> ''t1'' ''k1'' None None None (Some sample_shown)
    (empty_db\<lparr>tools := [sample_tool]\<rparr>)) = empty_db\<lparr>tools := [sample_tool]\<rparr>"
proof -
  let ?s = "empty_db\<lparr>tools := [sample_tool]\<rparr>"
  let ?u = "update_tool offline \<lparr>tf_lookups = 0, tf_connections = []\<rparr> ''t1'' ''k1'' None None None (Some sample_shown) ?s"
  have "get_tool ''t1'' ''k1'' ?s = Inr sample_tool" by code_simp
  moreover have "distinct (map tl_id (tools ?s))" by (simp add: empty_db_def)
  moreover have "tl_config sample_tool = JObj [(''connection_string'', JStr ''postgres://u:pw@h/db''),
      (''query_template'', JStr ''select 1'')]" by (simp add: sample_tool_def)
  moreover have "proper (JObj [(''connection_string'', JStr ''postgres://u:pw@h/db''),
      (''query_template'', JStr ''select 1'')])" by code_simp
  moreover have "?u = (Inr (sample_tool\<lparr>tl_config := JObj sample_shown\<rparr>), snd ?u)"
  proof -
    have "fst ?u = Inr (sample_tool\<lparr>tl_config := JObj sample_shown\<rparr>)" by code_simp
    then show ?thesis by (metis prod.collapse)
  qed
  ultimately have "snd ?u = ?s \<and> sample_tool\<lparr>tl_config := JObj sample_shown\<rparr> = sample_tool\<lparr>tl_config := JObj sample_shown\<rparr>"
    using sample_tool_shown by (intro masked_update_keeps_secrets)
  then show ?thesis by simp
qed

text \<open>
  C21: the file tool stays under its base path. Two file systems that give the same base and resolve
  paths alike, and agree on everything under the base, give the tool the same answer: whatever path
  the agent asks for, dots and links included, nothing outside the base shows.
\<close>

theorem file_tool_stays_under_base:
  assumes "fs_base fs = fs_base gs" "fs_resolve fs = fs_resolve gs"
    and "\<forall>root base path. dget ''base_path'' config = Some (JStr root) \<and> fs_base fs root = Inr base \<and>
      prefix base path \<longrightarrow>
        fs_exists fs path = fs_exists gs path \<and> fs_is_file fs path = fs_is_file gs path \<and>
        fs_is_dir fs path = fs_is_dir gs path \<and> fs_entries fs path = fs_entries gs path \<and>
        fs_read fs path = fs_read gs path"
  shows "execute_file_system_tool fs config input = execute_file_system_tool gs config input"
proof (cases "\<exists>root base. dget ''base_path'' config = Some (JStr root) \<and> fs_base fs root = Inr base")
  case False
  then have "find_target fs (jget_or ''base_path'' (JStr []) config) input = find_target gs (jget_or ''base_path'' (JStr []) config) input
      \<and> (\<nexists>t. find_target fs (jget_or ''base_path'' (JStr []) config) input = Inr (Inr t)) \<or>
      \<not> truthy (jget_or ''base_path'' (JStr []) config)"
    using assms(1) by (auto simp: find_target_def jget_or_def str_or_error_def split: json.splits option.splits sum.splits)
  then show ?thesis
    by (auto simp: execute_file_system_tool_def Let_def split: sum.splits)
next
  case True
  then obtain root base where b: "dget ''base_path'' config = Some (JStr root)" "fs_base fs root = Inr base" by blast
  have same: "find_target fs (JStr root) input = find_target gs (JStr root) input"
    using b assms by (auto simp: find_target_def str_or_error_def Let_def split: sum.splits)
  have "prefix base t" if "find_target fs (JStr root) input = Inr (Inr t)" for t
    using that b by (auto simp: find_target_def str_or_error_def Let_def split: sum.splits if_splits)
  then have "read_target fs exts t = read_target gs exts t" if "find_target fs (JStr root) input = Inr (Inr t)" for t exts
    using that b assms(3) by (simp add: read_target_def)
  with same b show ?thesis
    by (auto simp: execute_file_system_tool_def jget_or_def Let_def split: sum.splits)
qed


text \<open>Two file systems that differ outside \<open>/srv\<close>.\<close>

definition sample_fs :: "string \<Rightarrow> file_system" where
  "sample_fs outside = \<lparr>fs_base = (\<lambda>_. Inr [''srv'']),
    fs_resolve = (\<lambda>base x. Inr (if x = ''../etc'' then [''etc''] else base @ [x])),
    fs_exists = (\<lambda>_. True), fs_is_file = (\<lambda>_. True), fs_is_dir = (\<lambda>_. False),
    fs_entries = (\<lambda>_. Inl ''not a directory''),
    fs_read = (\<lambda>p. Inr (if prefix [''srv''] p then ''notes'' else outside))\<rparr>"

theorem file_tool_stays_under_base_witness:
  "execute_file_system_tool (sample_fs ''secret'') [(''base_path'', JStr ''/srv'')] ''../etc'' =
    execute_file_system_tool (sample_fs ''public'') [(''base_path'', JStr ''/srv'')] ''../etc'' \<and>
    fs_read (sample_fs ''secret'') [''etc''] \<noteq> fs_read (sample_fs ''public'') [''etc''] \<and>
    execute_file_system_tool (sample_fs ''secret'') [(''base_path'', JStr ''/srv'')] ''a'' =
      \<lparr>ta_success = True, ta_output = ''notes''\<rparr>"
proof (intro conjI)
  show "execute_file_system_tool (sample_fs ''secret'') [(''base_path'', JStr ''/srv'')] ''../etc'' =
      execute_file_system_tool (sample_fs ''public'') [(''base_path'', JStr ''/srv'')] ''../etc''"
    by (rule file_tool_stays_under_base) (auto simp: sample_fs_def)
  show "fs_read (sample_fs ''secret'') [''etc''] \<noteq> fs_read (sample_fs ''public'') [''etc'']"
    by (simp add: sample_fs_def)
  have "find_target (sample_fs ''secret'') (JStr ''/srv'') ''a'' = Inr (Inr [''srv'', ''a''])"
    by (simp add: find_target_def str_or_error_def sample_fs_def py_strip_def is_space_def prefix_def)
  then show "execute_file_system_tool (sample_fs ''secret'') [(''base_path'', JStr ''/srv'')] ''a'' =
      \<lparr>ta_success = True, ta_output = ''notes''\<rparr>"
    by (simp add: execute_file_system_tool_def jget_or_def dget_def allowed_suffixes_def read_target_def
      sample_fs_def MAX_FILE_BYTES_def prefix_def)
qed

text \<open>
  The text of a query depends on the template alone: the input of the agent goes to the driver as
  a parameter.
\<close>

lemma query_text_fixed:
  assumes "render_read_only_query template input placeholder = Inr (query, params)"
  shows "\<exists>params'. render_read_only_query template input' placeholder = Inr (query, params')" "set params \<subseteq> {input}"
  using assms by (auto simp: render_read_only_query_def Let_def split: if_splits)

text \<open>
  Read-only by its first word: a \<open>WITH\<close> statement that deletes rows passes, and PostgreSQL runs it.
\<close>

lemma deleting_query_passes:
  "render_read_only_query ''with x as (delete from t returning *) select 1'' [] ''$1'' =
    Inr (''with x as (delete from t returning *) select 1'', [])"
  by code_simp

text \<open>A password with an at sign is shown from that sign on.\<close>

lemma password_tail_shown: "mask_connection ''postgres://u:p@ss@h/db'' = ''postgres://u:****@ss@h/db''"
  by code_simp

end
