(* ===== verification/Alerts.thy ===== *)
theory Alerts
  imports Health SafeHttp PyTime Connectors Auth Samples
begin

text \<open>
  Alerting on the health of webhook dispatch, \<open>app/services/analytics_service.py\<close>: the tenant's alert
  policy and its preview, the channels with their encrypted configuration, the delivery of alerts
  with its cooldown, and one evaluation over the tenants, from
  \<open>app/services/dispatch_alert_evaluator_worker.py\<close>.
\<close>

section \<open>The policy\<close>

fun severity_text :: "severity \<Rightarrow> string" where
  "severity_text Info = ''info''"
| "severity_text Warning = ''warning''"
| "severity_text Critical = ''critical''"

fun parse_severity :: "json \<Rightarrow> severity option" where
  "parse_severity (JStr x) =
    (if x = ''info'' then Some Info else if x = ''warning'' then Some Warning
     else if x = ''critical'' then Some Critical else None)"
| "parse_severity _ = None"

definition ALERT_CODES :: "string list" where
  "ALERT_CODES = [''dispatch_paused'', ''trigger_throttled'', ''deferred_retries'', ''dead_lettered'']"

definition CHANNEL_TYPES :: "string list" where
  "CHANNEL_TYPES = [''email'', ''slack'', ''webhook'']"

record alert_route =
  rt_type :: string
  rt_target :: string
  rt_credential_id :: "uuid option"
  rt_enabled :: bool

record alert_policy =
  ap_enabled :: bool
  ap_channels :: "alert_route list"
  ap_severities :: "severity list"
  ap_alert_codes :: "string list"
  ap_cooldown_minutes :: int

definition default_alert_policy :: alert_policy where
  "default_alert_policy = \<lparr>ap_enabled = False, ap_channels = [], ap_severities = [Critical, Warning],
    ap_alert_codes = [''dispatch_paused'', ''trigger_throttled'', ''dead_lettered''], ap_cooldown_minutes = 30\<rparr>"

definition valid_route :: "alert_route \<Rightarrow> bool" where
  "valid_route r \<longleftrightarrow> rt_type r \<in> set CHANNEL_TYPES \<and> length_within 3 500 (rt_target r)"

definition valid_policy :: "alert_policy \<Rightarrow> bool" where
  "valid_policy p \<longleftrightarrow> list_all valid_route (ap_channels p) \<and> length (ap_channels p) \<le> 10 \<and>
    ap_severities p \<noteq> [] \<and> ap_alert_codes p \<noteq> [] \<and> set (ap_alert_codes p) \<subseteq> set ALERT_CODES \<and>
    5 \<le> ap_cooldown_minutes p \<and> ap_cooldown_minutes p \<le> 1440"

text \<open>\<open>model_dump(mode="json")\<close>.\<close>

definition dump_route :: "alert_route \<Rightarrow> json" where
  "dump_route r = JObj [(''type'', JStr (rt_type r)), (''target'', JStr (rt_target r)),
    (''credential_id'', case rt_credential_id r of None \<Rightarrow> JNull | Some i \<Rightarrow> JStr i), (''enabled'', JBool (rt_enabled r))]"

definition dump_policy :: "alert_policy \<Rightarrow> json" where
  "dump_policy p = JObj [(''enabled'', JBool (ap_enabled p)), (''channels'', JList (map dump_route (ap_channels p))),
    (''severities'', JList (map (\<lambda>v. JStr (severity_text v)) (ap_severities p))),
    (''alert_codes'', JList (map JStr (ap_alert_codes p))), (''cooldown_minutes'', JInt (ap_cooldown_minutes p))]"

text \<open>
  \<open>model_validate\<close>: \<open>None\<close> is a validation error; the conversions that the schema library makes of
  values \<open>model_dump\<close> never stores count as errors.
\<close>

definition parse_credential :: "json \<Rightarrow> uuid option option" where
  "parse_credential v =
    (case v of
      JNull \<Rightarrow> Some None
    | JStr x \<Rightarrow> map_option Some (parse_uuid x)
    | _ \<Rightarrow> None)"

definition parse_route :: "json \<Rightarrow> alert_route option" where
  "parse_route v =
    (case v of
      JObj d \<Rightarrow>
        (case (jget ''type'' d, jget ''target'' d, parse_credential (jget ''credential_id'' d), jget_or ''enabled'' (JBool True) d) of
          (JStr ty, JStr target, Some cred, JBool b) \<Rightarrow>
            (let r = \<lparr>rt_type = ty, rt_target = target, rt_credential_id = cred, rt_enabled = b\<rparr> in
             if valid_route r then Some r else None)
        | _ \<Rightarrow> None)
    | _ \<Rightarrow> None)"

fun parse_text :: "json \<Rightarrow> string option" where
  "parse_text (JStr x) = Some x"
| "parse_text _ = None"

fun parse_all :: "('a \<Rightarrow> 'b option) \<Rightarrow> 'a list \<Rightarrow> 'b list option" where
  "parse_all f [] = Some []"
| "parse_all f (x # xs) =
    (case (f x, parse_all f xs) of (Some y, Some ys) \<Rightarrow> Some (y # ys) | _ \<Rightarrow> None)"

definition parse_policy :: "(string, json) dict \<Rightarrow> alert_policy option" where
  "parse_policy d =
    (case (jget ''enabled'' d, jget ''channels'' d, jget ''severities'' d, jget ''alert_codes'' d, jget ''cooldown_minutes'' d) of
      (JBool b, JList routes, JList sevs, JList codes, JInt cooldown) \<Rightarrow>
        (case (parse_all parse_route routes, parse_all parse_severity sevs, parse_all parse_text codes) of
          (Some rs, Some vs, Some cs) \<Rightarrow>
            (let p = \<lparr>ap_enabled = b, ap_channels = rs, ap_severities = vs, ap_alert_codes = cs,
                ap_cooldown_minutes = cooldown\<rparr> in
             if valid_policy p then Some p else None)
        | _ \<Rightarrow> None)
    | _ \<Rightarrow> None)"

definition normalize_alert_policy :: "json \<Rightarrow> alert_policy option" where
  "normalize_alert_policy raw =
    (if \<not> truthy raw then Some default_alert_policy
     else case raw of
       JObj d \<Rightarrow> parse_policy (dupdate (obj_or_empty (dump_policy default_alert_policy)) d)
     | _ \<Rightarrow> None)"

definition get_alert_policy :: "uuid \<Rightarrow> db \<Rightarrow> http_error + alert_policy" where
  "get_alert_policy tid s =
    (case tenant_by_id tid s of
      Inl err \<Rightarrow> Inl err
    | Inr t \<Rightarrow> (case normalize_alert_policy (tn_dispatch_alert_policy t) of
        None \<Rightarrow> Inl (internal_error ''ValidationError'') | Some p \<Rightarrow> Inr p))"

definition update_alert_policy :: "uuid \<Rightarrow> alert_policy \<Rightarrow> (alert_policy, db) svc" where
  "update_alert_policy tid p s =
    (case tenant_by_id tid s of
      Inl err \<Rightarrow> (Inl err, s)
    | Inr t \<Rightarrow>
       (let s' = s\<lparr>tenants := row_update (\<lambda>t. tn_id t = tid)
            (\<lambda>t. t\<lparr>tn_dispatch_alert_policy := dump_policy p\<rparr>) (tenants s)\<rparr> in
        (get_alert_policy tid s', s')))"

record policy_preview =
  pp_policy_enabled :: bool
  pp_alerts :: "health_alert list"
  pp_routes :: "(string \<times> string \<times> string list) list"

definition matched_alerts :: "alert_policy \<Rightarrow> health_alert list \<Rightarrow> health_alert list" where
  "matched_alerts p = filter (\<lambda>a. al_severity a \<in> set (ap_severities p) \<and> al_code a \<in> set (ap_alert_codes p))"

definition preview_alert_policy :: "uuid \<Rightarrow> int \<Rightarrow> instant \<Rightarrow> db \<Rightarrow> http_error + policy_preview" where
  "preview_alert_policy tid window now s =
    (case get_alert_policy tid s of
      Inl err \<Rightarrow> Inl err
    | Inr p \<Rightarrow>
       (case get_dispatch_health tid window now s of
         Inl msg \<Rightarrow> Inl (internal_error msg)
       | Inr h \<Rightarrow>
          (let matched = matched_alerts p (dh_alerts h); codes = map al_code matched in
           Inr \<lparr>pp_policy_enabled = ap_enabled p, pp_alerts = matched,
             pp_routes = (if ap_enabled p \<and> codes \<noteq> []
               then map (\<lambda>r. (rt_type r, rt_target r, codes)) (filter rt_enabled (ap_channels p)) else [])\<rparr>)))"


section \<open>Channels\<close>

definition webhook_target_preview :: "net \<Rightarrow> string \<Rightarrow> string option" where
  "webhook_target_preview net url =
    map_option (\<lambda>p. pu_scheme p @ ''://'' @ pu_netloc p @ pu_path p) (urlparse (ne_bracketed_host net) url)"

text \<open>\<open>None\<close> is a \<open>ValueError\<close> of \<open>urlparse\<close>.\<close>

definition channel_config_preview :: "net \<Rightarrow> string \<Rightarrow> (string, json) dict \<Rightarrow> json option" where
  "channel_config_preview net channel_type config =
    (if channel_type = ''webhook'' then
       map_option (\<lambda>u. JObj [(''url'', JStr u), (''headers'', redact_secret_values (py_or (jget ''headers'' config) (JObj [])))])
         (webhook_target_preview net (py_str (py_or (jget ''url'' config) (JStr []))))
     else Some (redact_secret_values (JObj config)))"

definition check_channel_headers :: "(string, json) dict \<Rightarrow> http_error option" where
  "check_channel_headers config =
    (case jget ''headers'' config of
      JNull \<Rightarrow> None
    | JObj _ \<Rightarrow> None
    | _ \<Rightarrow> Some (HTTPException 422 ''Webhook alert channel headers must be an object.''))"

definition validate_channel_config ::
  "net \<Rightarrow> string \<Rightarrow> (string, json) dict \<Rightarrow> traffic \<Rightarrow> http_error option \<times> traffic" where
  "validate_channel_config net channel_type config tf =
    (if channel_type \<noteq> ''webhook'' then
       (Some (HTTPException 422 ''Slice 7 supports only webhook dispatch alert channels.''), tf)
     else
       (let missing = (Some (HTTPException 422 ''Webhook alert channel requires url.''), tf) in
        case jget ''url'' config of
          JStr url \<Rightarrow>
            if url = [] then missing
            else (case assert_public_http_url net url tf of
              (Inl (RuntimeErr e), tf1) \<Rightarrow> (Some (HTTPException 422 (ce_sanitized_error e)), tf1)
            | (Inl (OtherExc msg), tf1) \<Rightarrow> (Some (internal_error msg), tf1)
            | (Inr _, tf1) \<Rightarrow> (check_channel_headers config, tf1))
        | _ \<Rightarrow> missing))"

text \<open>What the schema checks of a new channel.\<close>

definition valid_channel_create :: "string \<Rightarrow> string \<Rightarrow> bool" where
  "valid_channel_create name channel_type \<longleftrightarrow> length_within 1 120 name \<and> channel_type = ''webhook''"

definition create_alert_channel ::
  "net \<Rightarrow> fernet \<Rightarrow> settings \<Rightarrow> row_draw \<Rightarrow> uuid \<Rightarrow> uuid \<Rightarrow> string \<Rightarrow> string \<Rightarrow> (string, json) dict \<Rightarrow>
    db \<Rightarrow> traffic \<Rightarrow> (http_error + alert_channel) \<times> db \<times> traffic" where
  "create_alert_channel net fn st dw tid uid name channel_type config s tf =
    (case validate_channel_config net channel_type config tf of
      (Some err, tf1) \<Rightarrow> (Inl err, s, tf1)
    | (None, tf1) \<Rightarrow>
       (case encrypt_config fn st (rw_nonce dw) config of
         Inl msg \<Rightarrow> (Inl (internal_error msg), s, tf1)
       | Inr encrypted \<Rightarrow>
          (case channel_config_preview net channel_type config of
            None \<Rightarrow> (Inl (internal_error ''Invalid IPv6 URL''), s, tf1)
          | Some preview \<Rightarrow>
             (let c = \<lparr>ch_id = rw_id dw, ch_tenant_id = tid, ch_name = name, ch_channel_type = channel_type,
                  ch_encrypted_config = encrypted, ch_config_preview = preview, ch_is_active = True,
                  ch_created_by = Some uid, ch_created_at = rw_created dw\<rparr> in
              (Inr c, s\<lparr>channels := channels s @ [c]\<rparr>, tf1)))))"

definition list_alert_channels :: "uuid \<Rightarrow> db \<Rightarrow> alert_channel list" where
  "list_alert_channels tid s =
    sort_key (\<lambda>c. - ch_created_at c) (filter (\<lambda>c. ch_tenant_id c = tid \<and> ch_is_active c) (channels s))"

definition get_alert_channel :: "uuid \<Rightarrow> uuid \<Rightarrow> db \<Rightarrow> alert_channel option" where
  "get_alert_channel tid cid s = row_find (\<lambda>c. ch_id c = cid \<and> ch_tenant_id c = tid \<and> ch_is_active c) (channels s)"

section \<open>One notification\<close>

definition alert_is_in_cooldown :: "uuid \<Rightarrow> uuid \<Rightarrow> string \<Rightarrow> int \<Rightarrow> instant \<Rightarrow> db \<Rightarrow> bool" where
  "alert_is_in_cooldown tid cid code cooldown now s \<longleftrightarrow>
    row_count (\<lambda>d. dl_tenant_id d = tid \<and> dl_channel_id d = Some cid \<and> dl_alert_code d = code \<and>
      now - minutes cooldown \<le> dl_created_at d) (deliveries s) > 0"

definition dump_alert :: "health_alert \<Rightarrow> json" where
  "dump_alert a = JObj [(''code'', JStr (al_code a)), (''severity'', JStr (severity_text (al_severity a))),
    (''title'', JStr (al_title a)), (''message'', JStr (al_message a)), (''count'', JInt (int (al_count a)))]"

record notice =
  no_status :: string
  no_status_code :: "int option"
  no_error_message :: "string option"

definition failed_notice :: "int option \<Rightarrow> string \<Rightarrow> notice" where
  "failed_notice code msg = \<lparr>no_status = ''failed'', no_status_code = code, no_error_message = Some msg\<rparr>"

definition notice_of :: "response \<Rightarrow> notice" where
  "notice_of r =
    (if rp_status_code r \<ge> 400 then
       failed_notice (Some (rp_status_code r))
         (sanitize_text (if rp_body_text r = [] then ''Webhook delivery failed.'' else take 500 (rp_body_text r)))
     else \<lparr>no_status = ''delivered'', no_status_code = Some (rp_status_code r), no_error_message = None\<rparr>)"

text \<open>
  What the code does with the configuration before its \<open>try\<close> may raise: \<open>Inl\<close>. The headers of a stored
  configuration are an object or absent; anything else counts as the error of \<open>dict(...)\<close>. The default of
  the time-out is another than the connector's, but a number as well, so the same values are refused.
\<close>

definition deliver_webhook_notification ::
  "net \<Rightarrow> instant \<Rightarrow> json \<Rightarrow> health_alert list \<Rightarrow> traffic \<Rightarrow> (http_error + notice) \<times> traffic" where
  "deliver_webhook_notification net generated config alerts tf =
    (case get_of config of
      Inl msg \<Rightarrow> (Inl (internal_error msg), tf)
    | Inr d \<Rightarrow>
       (case py_or (jget ''headers'' d) (JObj []) of
         JObj headers \<Rightarrow>
          (case timeout_error net (jget ''timeout_seconds'' d) of
            Some msg \<Rightarrow> (Inl (internal_error msg), tf)
          | None \<Rightarrow>
             (let payload = JObj [(''event'', JStr ''dispatch_alert''), (''generated_at'', JStr (isoformat generated)),
                  (''alerts'', JList (map dump_alert alerts))] in
              case pinned_http_request net ''POST'' (py_str (py_or (jget ''url'' d) (JStr []))) headers [] payload [] True
                  MAX_RESPONSE_BYTES tf of
                (Inr r, tf1) \<Rightarrow> (Inr (notice_of r), tf1)
              | (Inl err, tf1) \<Rightarrow> (Inr (failed_notice None (sanitize_text (error_text err))), tf1)))
       | _ \<Rightarrow> (Inl (internal_error ''dictionary update sequence''), tf)))"


section \<open>Delivery\<close>

record delivery_report =
  vr_attempted :: nat
  vr_delivered :: nat
  vr_failed :: nat
  vr_skipped :: nat
  vr_items :: "alert_delivery list"

definition no_delivery :: delivery_report where
  "no_delivery = \<lparr>vr_attempted = 0, vr_delivered = 0, vr_failed = 0, vr_skipped = 0, vr_items = []\<rparr>"

text \<open>
  What one delivery draws: the clock of the health counts, the clock of the cooldown, the start of the
  transaction, which the database writes into \<open>created_at\<close>, and per row of the delivery the time in
  the payload and the identifier.
\<close>

record delivery_draw =
  dv_health_now :: instant
  dv_now :: instant
  dv_started :: instant
  dv_generated :: "nat \<Rightarrow> instant"
  dv_id :: "nat \<Rightarrow> uuid"

definition delivery_row ::
  "delivery_draw \<Rightarrow> uuid \<Rightarrow> alert_channel \<Rightarrow> string \<Rightarrow> notice \<Rightarrow> nat \<Rightarrow> health_alert \<Rightarrow> alert_delivery" where
  "delivery_row dw tid c target n i a =
    \<lparr>dl_id = dv_id dw i, dl_tenant_id = tid, dl_channel_id = Some (ch_id c), dl_alert_code = al_code a,
     dl_channel_type = ch_channel_type c, dl_target_preview = target, dl_status = no_status n,
     dl_status_code = no_status_code n,
     dl_error_message = (case no_error_message n of
       None \<Rightarrow> None | Some m \<Rightarrow> if m = [] then None else Some (sanitize_text m)),
     dl_created_at = dv_started dw\<rparr>"

definition delivery_rows ::
  "delivery_draw \<Rightarrow> uuid \<Rightarrow> alert_channel \<Rightarrow> string \<Rightarrow> notice \<Rightarrow> nat \<Rightarrow> health_alert list \<Rightarrow> alert_delivery list" where
  "delivery_rows dw tid c target n i due = map (\<lambda>(j, a). delivery_row dw tid c target n j a) (enumerate i due)"

definition record_deliveries ::
  "delivery_draw \<Rightarrow> uuid \<Rightarrow> alert_channel \<Rightarrow> string \<Rightarrow> notice \<Rightarrow> health_alert list \<Rightarrow> delivery_report \<Rightarrow> db \<Rightarrow>
    delivery_report \<times> db" where
  "record_deliveries dw tid c target n due rep s =
    (let rows = delivery_rows dw tid c target n (length (vr_items rep)) due in
     (rep\<lparr>vr_attempted := vr_attempted rep + length due,
          vr_delivered := vr_delivered rep + (if no_status n = ''delivered'' then length due else 0),
          vr_failed := vr_failed rep + (if no_status n = ''delivered'' then 0 else length due),
          vr_items := vr_items rep @ rows\<rparr>,
      s\<lparr>deliveries := deliveries s @ rows\<rparr>))"

text \<open>\<open>str(channel.config_preview.get("url") or route.target)\<close>.\<close>

definition target_preview :: "alert_channel \<Rightarrow> alert_route \<Rightarrow> string + string" where
  "target_preview c r =
    (case get_of (ch_config_preview c) of
      Inl msg \<Rightarrow> Inl msg
    | Inr d \<Rightarrow> Inr (py_str (py_or (jget ''url'' d) (JStr (rt_target r)))))"

definition notify_channel ::
  "net \<Rightarrow> fernet \<Rightarrow> settings \<Rightarrow> instant \<Rightarrow> alert_channel \<Rightarrow> health_alert list \<Rightarrow> traffic \<Rightarrow>
    (http_error + notice) \<times> traffic" where
  "notify_channel net fn st generated c due tf =
    (case decrypt_config fn st (obj_or_empty (ch_encrypted_config c)) of
      Inl msg \<Rightarrow> (Inl (internal_error msg), tf)
    | Inr config \<Rightarrow>
       if ch_channel_type c = ''webhook'' then deliver_webhook_notification net generated config due tf
       else (Inr (failed_notice None ''Unsupported dispatch alert channel.''), tf))"

definition skip_alerts :: "nat \<Rightarrow> delivery_report \<Rightarrow> delivery_report" where
  "skip_alerts n rep = rep\<lparr>vr_skipped := vr_skipped rep + n\<rparr>"

definition due_alerts ::
  "bool \<Rightarrow> instant \<Rightarrow> uuid \<Rightarrow> alert_policy \<Rightarrow> uuid \<Rightarrow> health_alert list \<Rightarrow> db \<Rightarrow> health_alert list" where
  "due_alerts enforce now tid p cid alerts s = filter (\<lambda>a. \<not> (enforce \<and>
    alert_is_in_cooldown tid cid (al_code a) (ap_cooldown_minutes p) now s)) alerts"

text \<open>One turn of the loop over the policy's channels, for a route that is enabled.\<close>

definition deliver_route ::
  "net \<Rightarrow> fernet \<Rightarrow> settings \<Rightarrow> delivery_draw \<Rightarrow> uuid \<Rightarrow> bool \<Rightarrow> alert_policy \<Rightarrow> health_alert list \<Rightarrow> alert_route \<Rightarrow>
    delivery_report \<Rightarrow> db \<Rightarrow> traffic \<Rightarrow> (http_error + delivery_report \<times> db) \<times> traffic" where
  "deliver_route net fn st dw tid enforce p alerts r rep s tf =
    (case Option.bind (rt_credential_id r) (\<lambda>i. get_alert_channel tid i s) of
      None \<Rightarrow> (Inr (skip_alerts (length alerts) rep, s), tf)
    | Some c \<Rightarrow>
       (let due = due_alerts enforce (dv_now dw) tid p (ch_id c) alerts s;
            rep1 = skip_alerts (length alerts - length due) rep in
        if due = [] then (Inr (rep1, s), tf)
        else case notify_channel net fn st (dv_generated dw (length (vr_items rep))) c due tf of
          (Inl err, tf1) \<Rightarrow> (Inl err, tf1)
        | (Inr n, tf1) \<Rightarrow>
           (case target_preview c r of
             Inl msg \<Rightarrow> (Inl (internal_error msg), tf1)
           | Inr target \<Rightarrow> (Inr (record_deliveries dw tid c target n due rep1 s), tf1))))"

fun deliver_routes ::
  "net \<Rightarrow> fernet \<Rightarrow> settings \<Rightarrow> delivery_draw \<Rightarrow> uuid \<Rightarrow> bool \<Rightarrow> alert_policy \<Rightarrow> health_alert list \<Rightarrow> alert_route list \<Rightarrow>
    delivery_report \<Rightarrow> db \<Rightarrow> traffic \<Rightarrow> (http_error + delivery_report \<times> db) \<times> traffic" where
  "deliver_routes net fn st dw tid enforce p alerts [] rep s tf = (Inr (rep, s), tf)"
| "deliver_routes net fn st dw tid enforce p alerts (r # rs) rep s tf =
    (if \<not> rt_enabled r then deliver_routes net fn st dw tid enforce p alerts rs rep s tf
     else case deliver_route net fn st dw tid enforce p alerts r rep s tf of
       (Inl err, tf1) \<Rightarrow> (Inl err, tf1)
     | (Inr (rep1, s1), tf1) \<Rightarrow> deliver_routes net fn st dw tid enforce p alerts rs rep1 s1 tf1)"

text \<open>The rows are committed at the end: an exception leaves the table as it was.\<close>

definition deliver_dispatch_alerts ::
  "net \<Rightarrow> fernet \<Rightarrow> settings \<Rightarrow> delivery_draw \<Rightarrow> uuid \<Rightarrow> int \<Rightarrow> bool \<Rightarrow> db \<Rightarrow> traffic \<Rightarrow>
    (http_error + delivery_report) \<times> db \<times> traffic" where
  "deliver_dispatch_alerts net fn st dw tid window enforce s tf =
    (case preview_alert_policy tid window (dv_health_now dw) s of
      Inl err \<Rightarrow> (Inl err, s, tf)
    | Inr pv \<Rightarrow>
       if \<not> pp_policy_enabled pv \<or> pp_alerts pv = [] then (Inr no_delivery, s, tf)
       else case get_alert_policy tid s of
         Inl err \<Rightarrow> (Inl err, s, tf)
       | Inr p \<Rightarrow>
          (case deliver_routes net fn st dw tid enforce p (pp_alerts pv) (ap_channels p) no_delivery s tf of
            (Inl err, tf1) \<Rightarrow> (Inl err, s, tf1)
          | (Inr (rep, s1), tf1) \<Rightarrow> (Inr rep, s1, tf1)))"

definition list_alert_deliveries :: "uuid \<Rightarrow> nat \<Rightarrow> db \<Rightarrow> alert_delivery list" where
  "list_alert_deliveries tid limit s =
    take limit (sort_key (\<lambda>d. - dl_created_at d) (filter (\<lambda>d. dl_tenant_id d = tid) (deliveries s)))"

section \<open>The evaluation over the tenants\<close>

record evaluation_report =
  er_tenants_scanned :: nat
  er_tenants_evaluated :: nat
  er_attempted :: nat
  er_delivered :: nat
  er_failed :: nat
  er_skipped :: nat
  er_tenant_ids :: "uuid list"

definition add_delivery :: "uuid \<Rightarrow> delivery_report \<Rightarrow> evaluation_report \<Rightarrow> evaluation_report" where
  "add_delivery tid d r = r\<lparr>er_tenants_evaluated := er_tenants_evaluated r + 1, er_tenant_ids := er_tenant_ids r @ [tid],
    er_attempted := er_attempted r + vr_attempted d, er_delivered := er_delivered r + vr_delivered d,
    er_failed := er_failed r + vr_failed d, er_skipped := er_skipped r + vr_skipped d\<rparr>"

text \<open>
  The loop: each tenant's delivery commits on its own, an exception ends the evaluation. Every
  tenant draws its own clocks and identifiers.
\<close>

fun evaluate_tenant_alerts ::
  "net \<Rightarrow> fernet \<Rightarrow> settings \<Rightarrow> (uuid \<Rightarrow> delivery_draw) \<Rightarrow> int \<Rightarrow> uuid list \<Rightarrow> evaluation_report \<Rightarrow> db \<Rightarrow> traffic \<Rightarrow>
    (http_error + evaluation_report) \<times> db \<times> traffic" where
  "evaluate_tenant_alerts net fn st dw window [] rep s tf = (Inr rep, s, tf)"
| "evaluate_tenant_alerts net fn st dw window (tid # tids) rep s tf =
    (case get_alert_policy tid s of
      Inl err \<Rightarrow> (Inl err, s, tf)
    | Inr p \<Rightarrow>
       if \<not> ap_enabled p \<or> ap_channels p = [] then evaluate_tenant_alerts net fn st dw window tids rep s tf
       else case deliver_dispatch_alerts net fn st (dw tid) tid window True s tf of
         (Inl err, s1, tf1) \<Rightarrow> (Inl err, s1, tf1)
       | (Inr d, s1, tf1) \<Rightarrow> evaluate_tenant_alerts net fn st dw window tids (add_delivery tid d rep) s1 tf1)"

definition scanned_tenants :: "int \<Rightarrow> db \<Rightarrow> uuid list" where
  "scanned_tenants limit s = map tn_id (take (nat (max limit 1)) (sort_key tn_created_at (tenants s)))"

definition evaluate_dispatch_alerts ::
  "net \<Rightarrow> fernet \<Rightarrow> settings \<Rightarrow> (uuid \<Rightarrow> delivery_draw) \<Rightarrow> int \<Rightarrow> int \<Rightarrow> db \<Rightarrow> traffic \<Rightarrow>
    (http_error + evaluation_report) \<times> db \<times> traffic" where
  "evaluate_dispatch_alerts net fn st dw limit window s tf =
    (let tids = scanned_tenants limit s in
     evaluate_tenant_alerts net fn st dw window tids
       \<lparr>er_tenants_scanned = length tids, er_tenants_evaluated = 0, er_attempted = 0, er_delivered = 0,
        er_failed = 0, er_skipped = 0, er_tenant_ids = []\<rparr> s tf)"


section \<open>Lemmas\<close>

lemma parse_all_map: "(\<And>x. x \<in> set xs \<Longrightarrow> f (g x) = Some x) \<Longrightarrow> parse_all f (map g xs) = Some xs"
  by (induction xs) auto

lemma parse_severity_text: "parse_severity (JStr (severity_text v)) = Some v"
  by (cases v) auto

lemma parse_dump_route:
  assumes "valid_route r" "\<forall>i. rt_credential_id r = Some i \<longrightarrow> parse_uuid i = Some i"
  shows "parse_route (dump_route r) = Some r"
  using assms
  by (cases r) (auto simp: parse_route_def dump_route_def parse_credential_def jget_def jget_or_def dget_def Let_def
      split: option.splits)

lemma normalize_dump_policy:
  assumes "valid_policy p" "\<forall>r \<in> set (ap_channels p). \<forall>i. rt_credential_id r = Some i \<longrightarrow> parse_uuid i = Some i"
  shows "normalize_alert_policy (dump_policy p) = Some p"
proof -
  have "parse_all parse_route (map dump_route (ap_channels p)) = Some (ap_channels p)"
    using assms by (intro parse_all_map parse_dump_route) (auto simp: valid_policy_def list_all_iff)
  moreover have "parse_all parse_severity (map (\<lambda>v. JStr (severity_text v)) (ap_severities p)) = Some (ap_severities p)"
    by (intro parse_all_map parse_severity_text)
  moreover have "parse_all parse_text (map JStr (ap_alert_codes p)) = Some (ap_alert_codes p)"
    by (intro parse_all_map) simp
  ultimately show ?thesis
    using assms(1) by (cases p) (simp add: normalize_alert_policy_def dump_policy_def parse_policy_def default_alert_policy_def
        dupdate_def jget_def dget_def Let_def)
qed

lemma normalized_policy_valid: "normalize_alert_policy raw = Some p \<Longrightarrow> valid_policy p"
  by (auto simp: normalize_alert_policy_def parse_policy_def Let_def default_alert_policy_def valid_policy_def
      ALERT_CODES_def split: if_splits json.splits option.splits)

lemma distinct_alert_codes:
  assumes "preview_alert_policy tid window now s = Inr pv"
  shows "distinct (map al_code (pp_alerts pv))"
proof -
  from assms obtain p h where h: "get_dispatch_health tid window now s = Inr h"
    and pv: "pp_alerts pv = matched_alerts p (dh_alerts h)"
    by (auto simp: preview_alert_policy_def Let_def split: sum.splits)
  from h have "distinct (map al_code (dh_alerts h))"
    by (auto simp: get_dispatch_health_def dispatch_alerts_def alert_if_def split: sum.splits)
  then show ?thesis unfolding pv matched_alerts_def by (rule distinct_map_filter)
qed

lemma notify_channel_opens: "opens_safely net tf (snd (notify_channel net fn st generated c due tf))"
  using pinned_http_request_opens
  by (auto simp: notify_channel_def deliver_webhook_notification_def Let_def opens_safely_none
      split: sum.split json.split option.split prod.split) (metis snd_conv)+

text \<open>Rows that do not repeat an alert of the table within the cooldown, nor one another.\<close>

definition spaced_key :: "alert_delivery \<Rightarrow> uuid option \<times> string" where
  "spaced_key d = (dl_channel_id d, dl_alert_code d)"

definition spaced :: "delivery_draw \<Rightarrow> uuid \<Rightarrow> int \<Rightarrow> alert_delivery list \<Rightarrow> alert_delivery list \<Rightarrow> bool" where
  "spaced dw tid cooldown old new \<longleftrightarrow> distinct (map spaced_key new) \<and>
    (\<forall>d \<in> set new. dl_tenant_id d = tid \<and> dl_created_at d = dv_started dw \<and>
      (\<forall>d' \<in> set old. dl_tenant_id d' = tid \<and> spaced_key d' = spaced_key d \<longrightarrow>
        dl_created_at d' < dv_now dw - minutes cooldown))"

lemma spaced_append:
  assumes "spaced dw tid cooldown old a" "spaced dw tid cooldown (old @ a) b"
    and "dv_now dw - minutes cooldown \<le> dv_started dw"
  shows "spaced dw tid cooldown old (a @ b)"
  using assms unfolding spaced_def by (fastforce simp: image_iff)

lemma map_enumerate: "map (\<lambda>(i, a). f a) (enumerate n xs) = map f xs"
  by (metis (no_types, lifting) comp_apply list.map_comp map_snd_enumerate case_prod_beta map_cong)

lemma delivery_rows_memD:
  "d \<in> set (delivery_rows dw tid c target n i due) \<Longrightarrow> \<exists>a \<in> set due. \<exists>j. d = delivery_row dw tid c target n j a"
  by (auto simp: delivery_rows_def enumerate_eq_zip) (blast dest: set_zip_rightD)

lemma length_delivery_rows [simp]: "length (delivery_rows dw tid c target n i due) = length due"
  by (simp add: delivery_rows_def)

lemma spaced_record:
  assumes "distinct (map al_code alerts)" "due = due_alerts True (dv_now dw) tid p (ch_id c) alerts s"
  shows "spaced dw tid (ap_cooldown_minutes p) (deliveries s) (delivery_rows dw tid c target n i due)"
proof -
  have "map spaced_key (delivery_rows dw tid c target n i due) = map (\<lambda>a. (Some (ch_id c), al_code a)) due"
    unfolding map_enumerate [of "\<lambda>a. (Some (ch_id c), al_code a)" i, symmetric]
    by (simp add: delivery_rows_def spaced_key_def delivery_row_def comp_def case_prod_beta)
  moreover have "distinct (map (\<lambda>a. (Some (ch_id c), al_code a)) due)"
    using distinct_map_filter [OF assms(1)] unfolding assms(2) due_alerts_def distinct_map inj_on_def by blast
  moreover have "dl_created_at d' < dv_now dw - minutes (ap_cooldown_minutes p)"
    if "a \<in> set due" "d' \<in> set (deliveries s)" "dl_tenant_id d' = tid" "spaced_key d' = (Some (ch_id c), al_code a)" for a d'
    using that unfolding assms(2) due_alerts_def alert_is_in_cooldown_def row_count_def spaced_key_def
    by (auto simp: filter_empty_conv not_le)
  moreover have "\<exists>a \<in> set due. dl_tenant_id d = tid \<and> dl_created_at d = dv_started dw \<and>
      spaced_key d = (Some (ch_id c), al_code a)" if "d \<in> set (delivery_rows dw tid c target n i due)" for d
    using delivery_rows_memD [OF that] by (auto simp: delivery_row_def spaced_key_def)
  ultimately show ?thesis unfolding spaced_def by metis
qed

text \<open>What one turn of the loop does to the table, the report and the network.\<close>

lemma deliver_route_InrD:
  assumes "deliver_route net fn st dw tid enforce p alerts r rep s tf = (Inr (rep', s'), tf')"
  obtains (skipped) "s' = s" "rep' = skip_alerts (length alerts) rep"
  | (sent) c n target due where "get_alert_channel tid (the (rt_credential_id r)) s = Some c"
      "due = due_alerts enforce (dv_now dw) tid p (ch_id c) alerts s"
      "record_deliveries dw tid c target n due (skip_alerts (length alerts - length due) rep) s = (rep', s')"
proof (cases "Option.bind (rt_credential_id r) (\<lambda>i. get_alert_channel tid i s)")
  case None
  with assms show ?thesis by (intro skipped) (simp_all add: deliver_route_def)
next
  case (Some c)
  show ?thesis
  proof (cases "due_alerts enforce (dv_now dw) tid p (ch_id c) alerts s = []")
    case True
    with Some assms show ?thesis by (intro skipped) (simp_all add: deliver_route_def)
  next
    case False
    from Some have "get_alert_channel tid (the (rt_credential_id r)) s = Some c" by (auto split: bind_splits)
    moreover from Some False assms obtain n target where "record_deliveries dw tid c target n
        (due_alerts enforce (dv_now dw) tid p (ch_id c) alerts s)
        (skip_alerts (length alerts - length (due_alerts enforce (dv_now dw) tid p (ch_id c) alerts s)) rep) s = (rep', s')"
      by (auto simp: deliver_route_def Let_def split: prod.splits sum.splits)
    ultimately show ?thesis by (rule sent [OF _ refl])
  qed
qed

lemma deliver_route_spaced:
  assumes "deliver_route net fn st dw tid True p alerts r rep s tf = (Inr (rep', s'), tf')" "distinct (map al_code alerts)"
  shows "\<exists>new. s' = s\<lparr>deliveries := deliveries s @ new\<rparr> \<and> spaced dw tid (ap_cooldown_minutes p) (deliveries s) new"
  using assms(1)
proof (cases rule: deliver_route_InrD)
  case skipped
  then show ?thesis by (intro exI [of _ "[]"]) (simp add: spaced_def)
next
  case sent
  then show ?thesis using spaced_record [OF assms(2) sent(2)] by (auto simp: record_deliveries_def Let_def)
qed

lemma deliver_routes_spaced:
  assumes "deliver_routes net fn st dw tid True p alerts rs rep s tf = (Inr (rep', s'), tf')"
    and "distinct (map al_code alerts)" "dv_now dw - minutes (ap_cooldown_minutes p) \<le> dv_started dw"
  shows "\<exists>new. s' = s\<lparr>deliveries := deliveries s @ new\<rparr> \<and> spaced dw tid (ap_cooldown_minutes p) (deliveries s) new"
  using assms(1)
proof (induction rs arbitrary: rep s tf)
  case Nil
  then show ?case by (intro exI [of _ "[]"]) (simp add: spaced_def)
next
  case (Cons r rs)
  show ?case
  proof (cases "rt_enabled r")
    case False
    with Cons show ?thesis by simp
  next
    case True
    with Cons.prems obtain rep1 s1 tf1 where
      one: "deliver_route net fn st dw tid True p alerts r rep s tf = (Inr (rep1, s1), tf1)"
      and more: "deliver_routes net fn st dw tid True p alerts rs rep1 s1 tf1 = (Inr (rep', s'), tf')"
      by (auto split: prod.splits sum.splits)
    from deliver_route_spaced [OF one assms(2)] obtain a where
      a: "s1 = s\<lparr>deliveries := deliveries s @ a\<rparr>" "spaced dw tid (ap_cooldown_minutes p) (deliveries s) a" by blast
    from Cons.IH [OF more] obtain b where
      b: "s' = s1\<lparr>deliveries := deliveries s1 @ b\<rparr>" "spaced dw tid (ap_cooldown_minutes p) (deliveries s1) b" by blast
    have "spaced dw tid (ap_cooldown_minutes p) (deliveries s) (a @ b)"
      using spaced_append [OF a(2) _ assms(3)] b(2) a(1) by simp
    with a(1) b(1) show ?thesis by (intro exI [of _ "a @ b"]) simp
  qed
qed

lemma deliver_dispatch_alerts_InrD:
  assumes "deliver_dispatch_alerts net fn st dw tid window enforce s tf = (Inr rep, s', tf')"
  obtains (silent) "rep = no_delivery" "s' = s" "tf' = tf"
  | (sent) pv p where "preview_alert_policy tid window (dv_health_now dw) s = Inr pv" "pp_policy_enabled pv"
      "get_alert_policy tid s = Inr p"
      "deliver_routes net fn st dw tid enforce p (pp_alerts pv) (ap_channels p) no_delivery s tf = (Inr (rep, s'), tf')"
  using assms by (auto simp: deliver_dispatch_alerts_def split: sum.splits prod.splits if_splits)

definition accounted :: "delivery_report \<Rightarrow> bool" where
  "accounted rep \<longleftrightarrow> vr_attempted rep = vr_delivered rep + vr_failed rep \<and> vr_attempted rep = length (vr_items rep)"

lemma deliver_route_accounted:
  assumes "deliver_route net fn st dw tid enforce p alerts r rep s tf = (Inr (rep', s'), tf')" "accounted rep"
  shows "accounted rep' \<and> vr_attempted rep' + vr_skipped rep' = vr_attempted rep + vr_skipped rep + length alerts"
  using assms(1)
proof (cases rule: deliver_route_InrD)
  case skipped
  with assms(2) show ?thesis by (simp add: skip_alerts_def accounted_def)
next
  case (sent c n target due)
  then have "length due \<le> length alerts" by (simp add: due_alerts_def)
  with assms(2) sent(3) show ?thesis by (auto simp: record_deliveries_def Let_def skip_alerts_def accounted_def)
qed

lemma deliver_route_items:
  assumes "deliver_route net fn st dw tid enforce p alerts r rep s tf = (Inr (rep', s'), tf')"
  shows "\<exists>new. s' = s\<lparr>deliveries := deliveries s @ new\<rparr> \<and> vr_items rep' = vr_items rep @ new \<and>
    (\<forall>d \<in> set new. dl_tenant_id d = tid \<and> (\<exists>c \<in> set (channels s). ch_tenant_id c = tid \<and> ch_is_active c \<and>
      dl_channel_id d = Some (ch_id c)))"
  using assms
proof (cases rule: deliver_route_InrD)
  case skipped
  then show ?thesis by (intro exI [of _ "[]"]) (simp add: skip_alerts_def)
next
  case (sent c n target due)
  then have "c \<in> set (channels s)" "ch_tenant_id c = tid" "ch_is_active c"
    by (auto simp: get_alert_channel_def dest: row_find_SomeD)
  moreover have "dl_tenant_id d = tid \<and> dl_channel_id d = Some (ch_id c)"
    if "d \<in> set (delivery_rows dw tid c target n (length (vr_items rep)) due)" for d
    using delivery_rows_memD [OF that] by (auto simp: delivery_row_def)
  ultimately show ?thesis using sent(3)
    by (intro exI [of _ "delivery_rows dw tid c target n (length (vr_items rep)) due"])
      (auto simp: record_deliveries_def Let_def skip_alerts_def)
qed

lemma deliver_route_opens:
  "opens_safely net tf (snd (deliver_route net fn st dw tid enforce p alerts r rep s tf))"
  using notify_channel_opens
  by (auto simp: deliver_route_def Let_def opens_safely_none split: option.split sum.split prod.split) (metis snd_conv)+

lemma deliver_routes_step:
  assumes "deliver_routes net fn st dw tid enforce p alerts (r # rs) rep s tf = (Inr (rep', s'), tf')"
  obtains (disabled) "\<not> rt_enabled r" "deliver_routes net fn st dw tid enforce p alerts rs rep s tf = (Inr (rep', s'), tf')"
  | (turn) rep1 s1 tf1 where "rt_enabled r" "deliver_route net fn st dw tid enforce p alerts r rep s tf = (Inr (rep1, s1), tf1)"
      "deliver_routes net fn st dw tid enforce p alerts rs rep1 s1 tf1 = (Inr (rep', s'), tf')"
  using assms by (auto split: if_splits prod.splits sum.splits)

lemma deliver_routes_accounted:
  assumes "deliver_routes net fn st dw tid enforce p alerts rs rep s tf = (Inr (rep', s'), tf')" "accounted rep"
  shows "accounted rep' \<and> vr_attempted rep' + vr_skipped rep' =
    vr_attempted rep + vr_skipped rep + length (filter rt_enabled rs) * length alerts"
  using assms
proof (induction rs arbitrary: rep s tf)
  case (Cons r rs)
  from Cons.prems(1) show ?case
  proof (cases rule: deliver_routes_step)
    case disabled
    with Cons show ?thesis by simp
  next
    case (turn rep1 s1 tf1)
    from deliver_route_accounted [OF turn(2) Cons.prems(2)] Cons.IH [OF turn(3)] turn(1) show ?thesis by simp
  qed
qed simp

definition rows_of_tenant :: "uuid \<Rightarrow> alert_channel list \<Rightarrow> alert_delivery list \<Rightarrow> bool" where
  "rows_of_tenant tid chans new \<longleftrightarrow> (\<forall>d \<in> set new. dl_tenant_id d = tid \<and>
    (\<exists>c \<in> set chans. ch_tenant_id c = tid \<and> ch_is_active c \<and> dl_channel_id d = Some (ch_id c)))"

lemma deliver_routes_items:
  assumes "deliver_routes net fn st dw tid enforce p alerts rs rep s tf = (Inr (rep', s'), tf')"
  shows "\<exists>new. s' = s\<lparr>deliveries := deliveries s @ new\<rparr> \<and> vr_items rep' = vr_items rep @ new \<and>
    rows_of_tenant tid (channels s) new"
  using assms
proof (induction rs arbitrary: rep s tf)
  case Nil
  then show ?case by (intro exI [of _ "[]"]) (simp add: rows_of_tenant_def)
next
  case (Cons r rs)
  from Cons.prems(1) show ?case
  proof (cases rule: deliver_routes_step)
    case disabled
    with Cons show ?thesis by blast
  next
    case (turn rep1 s1 tf1)
    from deliver_route_items [OF turn(2)] obtain a where a: "s1 = s\<lparr>deliveries := deliveries s @ a\<rparr>"
        "vr_items rep1 = vr_items rep @ a" "rows_of_tenant tid (channels s) a"
      unfolding rows_of_tenant_def by blast
    from Cons.IH [OF turn(3)] obtain b where b: "s' = s1\<lparr>deliveries := deliveries s1 @ b\<rparr>"
        "vr_items rep' = vr_items rep1 @ b" "rows_of_tenant tid (channels s1) b" by blast
    from a b show ?thesis
      by (intro exI [of _ "a @ b"]) (auto simp: rows_of_tenant_def)
  qed
qed

definition only_safe :: "net \<Rightarrow> nat \<Rightarrow> traffic \<Rightarrow> traffic \<Rightarrow> bool" where
  "only_safe net n tf tf' \<longleftrightarrow> (\<exists>cs. tf_connections tf' = tf_connections tf @ cs \<and> length cs \<le> n \<and>
    (\<forall>c \<in> set cs. safe_connection net c))"

lemma only_safe_add: "opens_safely net tf tf1 \<Longrightarrow> only_safe net n tf1 tf2 \<Longrightarrow> only_safe net (Suc n) tf tf2"
  by (fastforce simp: only_safe_def opens_safely_def)

lemma only_safe_more: "only_safe net m tf tf1 \<Longrightarrow> m \<le> n \<Longrightarrow> only_safe net n tf tf1"
  by (auto simp: only_safe_def)

lemma only_safe_none: "only_safe net n tf tf"
  by (simp add: only_safe_def)

lemma deliver_routes_opens:
  "only_safe net (length (filter rt_enabled rs)) tf (snd (deliver_routes net fn st dw tid enforce p alerts rs rep s tf))"
proof (induction rs arbitrary: rep s tf)
  case (Cons r rs)
  show ?case
  proof (cases "deliver_route net fn st dw tid enforce p alerts r rep s tf")
    case (Pair res tf1)
    then have "opens_safely net tf tf1" by (metis deliver_route_opens snd_conv)
    with Cons.IH Pair show ?thesis
      by (auto split: sum.split intro: only_safe_add only_safe_more [OF only_safe_add [OF _ only_safe_none [where n = 0]]])
  qed
qed (simp add: only_safe_none)

text \<open>
  The evaluation serves the oldest tenants only, and the first exception ends it for all of them: one
  execution with a foreign trigger in one tenant is enough.
\<close>

lemma deliver_keeps_others:
  assumes "deliver_dispatch_alerts net fn st dw tid window enforce s tf = (r, s', tf')" "t \<noteq> tid"
  shows "filter (\<lambda>d. dl_tenant_id d = t) (deliveries s') = filter (\<lambda>d. dl_tenant_id d = t) (deliveries s)"
proof (cases r)
  case (Inl err)
  with assms have "s' = s" by (auto simp: deliver_dispatch_alerts_def split: sum.splits prod.splits if_splits)
  then show ?thesis by simp
next
  case (Inr rep)
  with assms have "deliver_dispatch_alerts net fn st dw tid window enforce s tf = (Inr rep, s', tf')" by simp
  then show ?thesis
  proof (cases rule: deliver_dispatch_alerts_InrD)
    case (sent pv p)
    from deliver_routes_items [OF sent(4)] assms(2) show ?thesis by (auto simp: rows_of_tenant_def filter_empty_conv)
  qed simp
qed

lemma late_tenants_never_alerted:
  assumes "evaluate_dispatch_alerts net fn st dw limit window s tf = (r, s', tf')" "tid \<notin> set (scanned_tenants limit s)"
  shows "filter (\<lambda>d. dl_tenant_id d = tid) (deliveries s') = filter (\<lambda>d. dl_tenant_id d = tid) (deliveries s)"
proof -
  have "filter (\<lambda>d. dl_tenant_id d = tid) (deliveries s') = filter (\<lambda>d. dl_tenant_id d = tid) (deliveries s)"
    if "evaluate_tenant_alerts net fn st dw window tids rep s tf = (r, s', tf')" "tid \<notin> set tids" for tids rep s tf
    using that
  proof (induction tids arbitrary: rep s tf)
    case (Cons t tids)
    from Cons.prems(1) consider "s' = s" | rep1 where "evaluate_tenant_alerts net fn st dw window tids rep1 s tf = (r, s', tf')"
      | q s1 tf1 where "deliver_dispatch_alerts net fn st (dw t) t window True s tf = (q, s1, tf1)"
        "s' = s1 \<or> (\<exists>rep1. evaluate_tenant_alerts net fn st dw window tids rep1 s1 tf1 = (r, s', tf'))"
      by (auto split: sum.splits prod.splits if_splits)
    then show ?case
    proof cases
      case 2
      with Cons show ?thesis by simp
    next
      case 3
      from deliver_keeps_others [OF 3(1)] Cons.prems(2) 3(2) Cons.IH show ?thesis by auto
    qed simp
  qed simp
  with assms show ?thesis by (simp add: evaluate_dispatch_alerts_def Let_def)
qed

lemma evaluation_stops_at_failure:
  assumes "get_alert_policy tid s = Inr p" "ap_enabled p" "ap_channels p \<noteq> []"
    and "get_dispatch_health tid window (dv_health_now (dw tid)) s = Inl msg"
  shows "evaluate_tenant_alerts net fn st dw window (tid # tids) rep s tf = (Inl (internal_error msg), s, tf)"
  using assms by (simp add: deliver_dispatch_alerts_def preview_alert_policy_def)


section \<open>Properties\<close>

text \<open>
  C24: no delivery row is repeated within the cooldown. A call that respects the cooldown and returns
  adds delivery rows that name each channel and alert code at most once, also when the policy lists a
  channel twice, and every row the tenant already has for the same channel and code, failed ones
  included, is from before the cooldown of the policy, which is at least five minutes. Assumed is that
  the call's transaction started no longer than the cooldown before its clock is read, since the rows
  are stamped with that start. The rows are what the cooldown knows: a call that raises at a
  later channel stores none for the notifications it has already sent, and about those this says nothing.
\<close>

theorem no_alert_within_cooldown:
  assumes "deliver_dispatch_alerts net fn st dw tid window True s tf = (Inr rep, s', tf')"
    and "get_alert_policy tid s = Inr p" "dv_now dw - minutes (ap_cooldown_minutes p) \<le> dv_started dw"
  shows "5 \<le> ap_cooldown_minutes p \<and> (\<exists>new. s' = s\<lparr>deliveries := deliveries s @ new\<rparr> \<and>
    distinct (map (\<lambda>d. (dl_channel_id d, dl_alert_code d)) new) \<and>
    (\<forall>d \<in> set new. \<forall>d' \<in> set (deliveries s). dl_tenant_id d' = tid \<and> dl_channel_id d' = dl_channel_id d \<and>
      dl_alert_code d' = dl_alert_code d \<longrightarrow> dl_created_at d' < dv_now dw - minutes (ap_cooldown_minutes p)))"
proof
  show "5 \<le> ap_cooldown_minutes p"
    using assms(2) by (auto simp: get_alert_policy_def valid_policy_def dest!: normalized_policy_valid split: sum.splits option.splits)
  have "\<exists>new. s' = s\<lparr>deliveries := deliveries s @ new\<rparr> \<and> spaced dw tid (ap_cooldown_minutes p) (deliveries s) new"
    using assms(1)
  proof (cases rule: deliver_dispatch_alerts_InrD)
    case silent
    then show ?thesis by (intro exI [of _ "[]"]) (simp add: spaced_def)
  next
    case (sent pv p')
    with assms(2) have "p' = p" by simp
    with deliver_routes_spaced [OF sent(4) distinct_alert_codes [OF sent(1)]] assms(3) show ?thesis by simp
  qed
  then show "\<exists>new. s' = s\<lparr>deliveries := deliveries s @ new\<rparr> \<and>
    distinct (map (\<lambda>d. (dl_channel_id d, dl_alert_code d)) new) \<and>
    (\<forall>d \<in> set new. \<forall>d' \<in> set (deliveries s). dl_tenant_id d' = tid \<and> dl_channel_id d' = dl_channel_id d \<and>
      dl_alert_code d' = dl_alert_code d \<longrightarrow> dl_created_at d' < dv_now dw - minutes (ap_cooldown_minutes p))"
    unfolding spaced_def by (fastforce simp: spaced_key_def [abs_def])
qed

text \<open>
  Every alert of a delivery is accounted for. What is attempted is delivered or failed and has
  its row, and each alert that matches the policy is attempted or skipped once per enabled channel of
  it. The rows belong to the tenant and to active channels of the tenant, nothing else of the
  database changes, and each connection, at most one per enabled channel, goes to a public address.
\<close>

theorem alert_delivery_accounted:
  assumes "deliver_dispatch_alerts net fn st dw tid window enforce s tf = (Inr rep, s', tf')"
  shows "vr_attempted rep = vr_delivered rep + vr_failed rep \<and> vr_attempted rep = length (vr_items rep) \<and>
    (rep = no_delivery \<and> tf' = tf \<or> (\<exists>pv p. preview_alert_policy tid window (dv_health_now dw) s = Inr pv \<and>
      get_alert_policy tid s = Inr p \<and>
      vr_attempted rep + vr_skipped rep = length (filter rt_enabled (ap_channels p)) * length (pp_alerts pv) \<and>
      only_safe net (length (filter rt_enabled (ap_channels p))) tf tf')) \<and>
    s' = s\<lparr>deliveries := deliveries s @ vr_items rep\<rparr> \<and> rows_of_tenant tid (channels s) (vr_items rep)"
  using assms
proof (cases rule: deliver_dispatch_alerts_InrD)
  case silent
  then show ?thesis by (simp add: no_delivery_def rows_of_tenant_def)
next
  case (sent pv p)
  have "accounted no_delivery" by (simp add: accounted_def no_delivery_def)
  from deliver_routes_accounted [OF sent(4) this] deliver_routes_items [OF sent(4)]
    deliver_routes_opens [of net "ap_channels p" tf fn st dw tid enforce p "pp_alerts pv" no_delivery s] sent
  show ?thesis by (auto simp: accounted_def no_delivery_def)
qed

text \<open>The witnesses: one channel, listed twice in the policy, with an alert already sent, and a paused workflow.\<close>

definition sample_net :: net where
  "sample_net = \<lparr>ne_ip_address = (\<lambda>_. None), ne_bracketed_host = (\<lambda>_. False), ne_getaddrinfo = (\<lambda>_ _ _. None),
    ne_exchange = (\<lambda>_. Inl TimeoutErr), ne_float_text = (\<lambda>_. False)\<rparr>"

definition no_traffic :: traffic where
  "no_traffic = \<lparr>tf_lookups = 0, tf_connections = []\<rparr>"

definition channel_one :: uuid where
  "channel_one = ''00000000-0000-4000-8000-000000000001''"

definition sample_policy :: alert_policy where
  "sample_policy = default_alert_policy\<lparr>ap_enabled := True, ap_channels := replicate 2
    \<lparr>rt_type = ''slack'', rt_target = ''ops'', rt_credential_id = Some channel_one, rt_enabled = True\<rparr>\<rparr>"

definition sample_channel :: alert_channel where
  "sample_channel = \<lparr>ch_id = channel_one, ch_tenant_id = ''t1'', ch_name = ''Ops'', ch_channel_type = ''slack'',
    ch_encrypted_config = JObj [], ch_config_preview = JObj [], ch_is_active = True, ch_created_by = None,
    ch_created_at = 0\<rparr>"

definition sent_before :: alert_delivery where
  "sent_before = \<lparr>dl_id = ''d0'', dl_tenant_id = ''t1'', dl_channel_id = Some channel_one,
    dl_alert_code = ''dispatch_paused'', dl_channel_type = ''slack'', dl_target_preview = ''ops'', dl_status = ''failed'',
    dl_status_code = None, dl_error_message = None, dl_created_at = 0\<rparr>"

definition alert_db :: db where
  "alert_db = empty_db\<lparr>
    tenants := [(sample_tenant ''t1'' 1000 0)\<lparr>tn_dispatch_alert_policy := dump_policy sample_policy\<rparr>],
    workflows := [(sample_workflow ''w1'' diamond ''linear'')\<lparr>wf_dispatch_paused := True\<rparr>],
    channels := [sample_channel], deliveries := [sent_before]\<rparr>"

definition delivery_at :: "instant \<Rightarrow> (http_error + delivery_report) \<times> db \<times> traffic" where
  "delivery_at now = deliver_dispatch_alerts sample_net sample_fernet (sample_settings ''s'')
    \<lparr>dv_health_now = now, dv_now = now, dv_started = now, dv_generated = (\<lambda>_. now), dv_id = show_nat\<rparr>
    ''t1'' 24 True alert_db no_traffic"

definition outcome_of :: "(http_error + delivery_report) \<times> db \<times> traffic \<Rightarrow> (nat \<times> nat \<times> instant list) option" where
  "outcome_of r = (case fst r of Inl _ \<Rightarrow> None
    | Inr rep \<Rightarrow> Some (vr_attempted rep, vr_skipped rep, map dl_created_at (deliveries (fst (snd r)))))"


theorem no_alert_within_cooldown_witness:
  "\<exists>rep s' tf'. delivery_at (minutes 31) = (Inr rep, s', tf') \<and>
    map dl_created_at (deliveries s') = [0, minutes 31] \<and> distinct (map dl_channel_id (drop 1 (deliveries s')))"
proof -
  have o: "outcome_of (delivery_at (minutes 31)) = Some (1, 1, [0, minutes 31])" by code_simp
  then obtain rep s' tf' where r: "delivery_at (minutes 31) = (Inr rep, s', tf')"
    by (cases "delivery_at (minutes 31)") (auto simp: outcome_of_def split: sum.splits)
  have p: "get_alert_policy ''t1'' alert_db = Inr sample_policy" by code_simp
  have "minutes 31 - minutes (ap_cooldown_minutes sample_policy) \<le> minutes 31"
    by (simp add: sample_policy_def default_alert_policy_def minutes_def seconds_def)
  with no_alert_within_cooldown [OF r [unfolded delivery_at_def] p]
  obtain new where n: "s' = alert_db\<lparr>deliveries := deliveries alert_db @ new\<rparr>"
      "distinct (map (\<lambda>d. (dl_channel_id d, dl_alert_code d)) new)" by auto
  from o r have d: "map dl_created_at (deliveries s') = [0, minutes 31]" by (simp add: outcome_of_def)
  with n have "length new = 1" by (auto simp: alert_db_def map_eq_Cons_conv)
  then have "distinct (map dl_channel_id new)" by (auto simp: length_Suc_conv)
  with n(1) r d show ?thesis by (intro exI conjI) (auto simp: alert_db_def)
qed

theorem alert_delivery_accounted_witness:
  "\<exists>rep s' tf'. delivery_at (minutes 31) = (Inr rep, s', tf') \<and> vr_attempted rep = 1 \<and> vr_skipped rep = 1 \<and>
    length (vr_items rep) = 1 \<and> vr_delivered rep + vr_failed rep = 1"
proof -
  have "outcome_of (delivery_at (minutes 31)) = Some (1, 1, [0, minutes 31])" by code_simp
  then obtain rep s' tf' where r: "delivery_at (minutes 31) = (Inr rep, s', tf')" "vr_attempted rep = 1" "vr_skipped rep = 1"
    by (cases "delivery_at (minutes 31)") (auto simp: outcome_of_def split: sum.splits)
  from alert_delivery_accounted [OF r(1) [unfolded delivery_at_def]] r(2)
  have "length (vr_items rep) = 1" "vr_delivered rep + vr_failed rep = 1" by linarith+
  with r show ?thesis by (intro exI conjI)
qed

end
