(* ===== verification/Incidents.thy ===== *)
theory Incidents
  imports Alerts PlanWorker
begin

text \<open>
  Incidents of webhook dispatch, \<open>app/services/analytics_service.py\<close>: the runbook with its severity and
  actions, the acknowledgement and resolution of incidents, their statistics with the service level
  for resolving them, the recommendations of automation, and the creation of approval-gated plans.
\<close>

section \<open>The current incident\<close>

definition runbook_severity :: "health_alert list \<Rightarrow> severity" where
  "runbook_severity alerts =
    (if Critical \<in> set (map al_severity alerts) then Critical
     else if Warning \<in> set (map al_severity alerts) then Warning else Info)"

text \<open>\<open>sorted\<close> of the set of codes.\<close>

definition sorted_codes :: "health_alert list \<Rightarrow> string list" where
  "sorted_codes alerts = sort (remdups (map al_code alerts))"

definition incident_key :: "health_alert list \<Rightarrow> string option" where
  "incident_key alerts = (if alerts = [] then None else Some (''dispatch:'' @ join '','' (sorted_codes alerts)))"

definition runbook_context ::
  "uuid \<Rightarrow> int \<Rightarrow> instant \<Rightarrow> db \<Rightarrow> http_error + dispatch_health \<times> alert_policy \<times> health_alert list" where
  "runbook_context tid window now s =
    (case get_dispatch_health tid window now s of
      Inl msg \<Rightarrow> Inl (internal_error msg)
    | Inr h \<Rightarrow>
       (case get_alert_policy tid s of
         Inl err \<Rightarrow> Inl err
       | Inr p \<Rightarrow> Inr (h, p, matched_alerts p (dh_alerts h))))"

record runbook_action =
  ra_title :: string
  ra_detail :: string
  ra_priority :: severity

definition action_if :: "bool \<Rightarrow> string \<Rightarrow> string \<Rightarrow> severity \<Rightarrow> runbook_action list" where
  "action_if b title detail priority =
    (if b then [\<lparr>ra_title = title, ra_detail = detail, ra_priority = priority\<rparr>] else [])"

definition runbook_actions :: "health_alert list \<Rightarrow> alert_policy \<Rightarrow> runbook_action list" where
  "runbook_actions alerts p =
    (if alerts = [] then
       action_if True ''Continue monitoring dispatch health'' ''No active dispatch incident needs handoff.'' Info
     else
       (let codes = map al_code alerts in
        action_if (''dead_lettered'' \<in> set codes) ''Dead-letter queue needs review''
          ''Inspect failed webhook dispatches, fix the root cause, then retry only eligible dead-lettered executions.'' Critical @
        action_if (''dispatch_paused'' \<in> set codes) ''Confirm paused workflow ownership''
          ''Identify why webhook dispatch is paused and resume only after downstream dependencies are healthy.'' Warning @
        action_if (''trigger_throttled'' \<in> set codes) ''Review webhook trigger rate limits''
          ''Check whether incoming volume is expected before raising trigger limits or extending the cooldown window.'' Warning @
        action_if (''deferred_retries'' \<in> set codes) ''Watch deferred retry backlog''
          ''Confirm retry scheduling is draining and investigate if deferred retries keep growing.'' Info @
        action_if (\<not> ap_enabled p) ''Enable dispatch alert routing''
          ''Alert routing is disabled; enable the policy before relying on automated incident notifications.'' Warning))"

definition text_or_none :: "string option \<Rightarrow> string option" where
  "text_or_none v = (case v of None \<Rightarrow> None | Some m \<Rightarrow> if m = [] then None else Some (sanitize_text m))"

definition sanitize_delivery :: "alert_delivery \<Rightarrow> alert_delivery" where
  "sanitize_delivery d = d\<lparr>dl_target_preview := sanitize_text (dl_target_preview d),
    dl_error_message := text_or_none (dl_error_message d)\<rparr>"

section \<open>Acknowledgement and resolution\<close>

definition open_ack :: "uuid \<Rightarrow> string \<Rightarrow> incident_ack \<Rightarrow> bool" where
  "open_ack tid key a \<longleftrightarrow> ak_tenant_id a = tid \<and> ak_incident_key a = key \<and> ak_status a = ''acknowledged''"

definition open_acknowledgement :: "uuid \<Rightarrow> string option \<Rightarrow> db \<Rightarrow> http_error + incident_ack option" where
  "open_acknowledgement tid key s =
    (case key of None \<Rightarrow> Inr None | Some k \<Rightarrow> one_or_none (filter (open_ack tid k) (acks s)))"

text \<open>The order of the history is \<open>updated_at\<close>, which is not in the model's rows: an argument.\<close>

definition incident_history :: "(uuid \<Rightarrow> instant) \<Rightarrow> uuid \<Rightarrow> nat \<Rightarrow> db \<Rightarrow> incident_ack list" where
  "incident_history updated_at tid limit s =
    take limit (sort_key (\<lambda>a. - updated_at (ak_id a)) (filter (\<lambda>a. ak_tenant_id a = tid) (acks s)))"

definition get_acknowledgement :: "uuid \<Rightarrow> int \<Rightarrow> instant \<Rightarrow> db \<Rightarrow> http_error + incident_ack option" where
  "get_acknowledgement tid window now s =
    (case runbook_context tid window now s of
      Inl err \<Rightarrow> Inl err
    | Inr (h, p, alerts) \<Rightarrow> open_acknowledgement tid (incident_key alerts) s)"

definition blank_ack :: "uuid \<Rightarrow> instant \<Rightarrow> uuid \<Rightarrow> string \<Rightarrow> incident_ack" where
  "blank_ack i created tid key = \<lparr>ak_id = i, ak_tenant_id = tid, ak_incident_key = key, ak_status = ''acknowledged'',
    ak_severity = [], ak_summary = [], ak_alert_codes = [], ak_acknowledged_by = None, ak_acknowledged_by_email = [],
    ak_acknowledged_by_name = None, ak_note = None, ak_resolved_by = None, ak_resolved_by_email = None,
    ak_resolved_by_name = None, ak_resolution_note = None, ak_resolved_at = None, ak_created_at = created\<rparr>"

definition acknowledged_by :: "user \<Rightarrow> health_alert list \<Rightarrow> string option \<Rightarrow> incident_ack \<Rightarrow> incident_ack" where
  "acknowledged_by u alerts note a = a\<lparr>ak_status := ''acknowledged'', ak_severity := severity_text (runbook_severity alerts),
    ak_summary := ''Dispatch incident handoff required'', ak_alert_codes := sorted_codes alerts,
    ak_acknowledged_by := Some (us_id u), ak_acknowledged_by_email := us_email u,
    ak_acknowledged_by_name := us_full_name u, ak_note := text_or_none note\<rparr>"

definition resolved_by :: "user \<Rightarrow> string option \<Rightarrow> instant \<Rightarrow> incident_ack \<Rightarrow> incident_ack" where
  "resolved_by u note now a = a\<lparr>ak_status := ''resolved'', ak_resolved_by := Some (us_id u),
    ak_resolved_by_email := Some (us_email u), ak_resolved_by_name := us_full_name u,
    ak_resolution_note := text_or_none note, ak_resolved_at := Some now\<rparr>"

definition update_ack :: "uuid \<Rightarrow> (incident_ack \<Rightarrow> incident_ack) \<Rightarrow> db \<Rightarrow> db" where
  "update_ack i f s = s\<lparr>acks := row_update (\<lambda>a. ak_id a = i) f (acks s)\<rparr>"

definition acknowledge_incident ::
  "row_draw \<Rightarrow> instant \<Rightarrow> uuid \<Rightarrow> user \<Rightarrow> string option \<Rightarrow> int \<Rightarrow> (incident_ack, db) svc" where
  "acknowledge_incident dw now tid u note window s =
    (case runbook_context tid window now s of
      Inl err \<Rightarrow> (Inl err, s)
    | Inr (h, p, alerts) \<Rightarrow>
       (case incident_key alerts of
         None \<Rightarrow> (Inl (HTTPException 409 ''No active dispatch incident to acknowledge.''), s)
       | Some key \<Rightarrow>
          (case open_acknowledgement tid (Some key) s of
            Inl err \<Rightarrow> (Inl err, s)
          | Inr None \<Rightarrow>
             (let a = acknowledged_by u alerts note (blank_ack (rw_id dw) (rw_created dw) tid key) in
              (Inr a, s\<lparr>acks := acks s @ [a]\<rparr>))
          | Inr (Some a) \<Rightarrow>
             (Inr (acknowledged_by u alerts note a), update_ack (ak_id a) (acknowledged_by u alerts note) s))))"

text \<open>The clock is read twice: for the alerts, and for the resolution.\<close>

definition resolve_incident ::
  "instant \<Rightarrow> instant \<Rightarrow> uuid \<Rightarrow> user \<Rightarrow> string option \<Rightarrow> int \<Rightarrow> (incident_ack, db) svc" where
  "resolve_incident now resolved tid u note window s =
    (case runbook_context tid window now s of
      Inl err \<Rightarrow> (Inl err, s)
    | Inr (h, p, alerts) \<Rightarrow>
       (case open_acknowledgement tid (incident_key alerts) s of
         Inl err \<Rightarrow> (Inl err, s)
       | Inr None \<Rightarrow> (Inl (HTTPException 409 ''No acknowledged dispatch incident to resolve.''), s)
       | Inr (Some a) \<Rightarrow> (Inr (resolved_by u note resolved a), update_ack (ak_id a) (resolved_by u note resolved) s)))"


section \<open>Statistics\<close>

text \<open>
  Durations and rates are exact numbers; \<open>round(x, 1)\<close> rounds halves to even.
\<close>

definition round_half_even :: "rat \<Rightarrow> int" where
  "round_half_even y =
    (let f = floor y; r = y - of_int f in
     if r < 1 / 2 then f else if r > 1 / 2 then f + 1 else if even f then f else f + 1)"

definition round1 :: "rat \<Rightarrow> rat" where
  "round1 x = of_int (round_half_even (x * 10)) / 10"

definition duration_minutes :: "instant \<Rightarrow> instant \<Rightarrow> rat" where
  "duration_minutes start stop = max (of_int (stop - start) / 60000000) 0"

definition resolution_minutes :: "incident_ack \<Rightarrow> rat option" where
  "resolution_minutes a = map_option (duration_minutes (ak_created_at a)) (ak_resolved_at a)"

definition sla_breached :: "instant \<Rightarrow> int \<Rightarrow> incident_ack \<Rightarrow> bool" where
  "sla_breached now sla a \<longleftrightarrow>
    duration_minutes (ak_created_at a) (case ak_resolved_at a of Some t \<Rightarrow> t | None \<Rightarrow> now) > of_int sla"

definition avg_minutes :: "rat list \<Rightarrow> rat option" where
  "avg_minutes xs = (if xs = [] then None else Some (round1 (sum_list xs / of_nat (length xs))))"

text \<open>Days, and \<open>strftime("%Y-%m-%d")\<close>; the years of the program have four digits.\<close>

definition start_of_day :: "instant \<Rightarrow> instant" where
  "start_of_day t = t div us_per_day * us_per_day"

definition day_text :: "instant \<Rightarrow> string" where
  "day_text t = (case civil (nat (t div us_per_day)) of (y, m, d) \<Rightarrow> pad 4 y @ ''-'' @ pad 2 m @ ''-'' @ pad 2 d)"

definition window_start :: "nat \<Rightarrow> instant \<Rightarrow> instant" where
  "window_start days now = start_of_day (now - (int days - 1) * us_per_day)"

definition window_days :: "nat \<Rightarrow> instant \<Rightarrow> string list" where
  "window_days days now = map (\<lambda>i. day_text (window_start days now + int i * us_per_day)) [0..<days]"

record trend =
  td_acknowledged :: nat
  td_resolved :: nat
  td_open :: nat
  td_sla_breaches :: nat

definition no_trend :: trend where
  "no_trend = \<lparr>td_acknowledged = 0, td_resolved = 0, td_open = 0, td_sla_breaches = 0\<rparr>"

record severity_stats =
  sv_total :: nat
  sv_resolved :: nat
  sv_open :: nat
  sv_breaches :: nat
  sv_durations :: "rat list"

definition no_stats :: severity_stats where
  "no_stats = \<lparr>sv_total = 0, sv_resolved = 0, sv_open = 0, sv_breaches = 0, sv_durations = []\<rparr>"

record tally =
  ty_resolved :: nat
  ty_open :: nat
  ty_breaches :: nat
  ty_durations :: "rat list"
  ty_trends :: "(string, trend) dict"
  ty_severities :: "(string, severity_stats) dict"

definition empty_tally :: "string list \<Rightarrow> tally" where
  "empty_tally days = \<lparr>ty_resolved = 0, ty_open = 0, ty_breaches = 0, ty_durations = [],
    ty_trends = dupdate [] (map (\<lambda>d. (d, no_trend)) days), ty_severities = []\<rparr>"

text \<open>\<open>setdefault\<close> followed by the changes of the entry.\<close>

definition dchange :: "'k \<Rightarrow> 'v \<Rightarrow> ('v \<Rightarrow> 'v) \<Rightarrow> ('k, 'v) dict \<Rightarrow> ('k, 'v) dict" where
  "dchange k d f m = dset k (f (case dget k m of None \<Rightarrow> d | Some v \<Rightarrow> v)) m"

definition counted_trend :: "bool \<Rightarrow> bool \<Rightarrow> trend \<Rightarrow> trend" where
  "counted_trend resolved breached t = t\<lparr>td_acknowledged := td_acknowledged t + 1,
    td_resolved := td_resolved t + (if resolved then 1 else 0), td_open := td_open t + (if resolved then 0 else 1),
    td_sla_breaches := td_sla_breaches t + (if breached then 1 else 0)\<rparr>"

definition counted_stats :: "bool \<Rightarrow> bool \<Rightarrow> rat list \<Rightarrow> severity_stats \<Rightarrow> severity_stats" where
  "counted_stats resolved breached durations v = v\<lparr>sv_total := sv_total v + 1,
    sv_resolved := sv_resolved v + (if resolved then 1 else 0), sv_open := sv_open v + (if resolved then 0 else 1),
    sv_breaches := sv_breaches v + (if breached then 1 else 0), sv_durations := sv_durations v @ durations\<rparr>"

definition tally_row :: "instant \<Rightarrow> int \<Rightarrow> tally \<Rightarrow> incident_ack \<Rightarrow> tally" where
  "tally_row now sla t a =
    (let resolved = (ak_status a = ''resolved'' \<and> resolution_minutes a \<noteq> None);
         durations = (if resolved then [the (resolution_minutes a)] else []);
         breached = sla_breached now sla a;
         severity = (if ak_severity a = [] then ''info'' else ak_severity a) in
     \<lparr>ty_resolved = ty_resolved t + (if resolved then 1 else 0), ty_open = ty_open t + (if resolved then 0 else 1),
      ty_breaches = ty_breaches t + (if breached then 1 else 0), ty_durations = ty_durations t @ durations,
      ty_trends = dchange (day_text (ak_created_at a)) no_trend (counted_trend resolved breached) (ty_trends t),
      ty_severities = dchange severity no_stats (counted_stats resolved breached durations) (ty_severities t)\<rparr>)"

record severity_item =
  si_severity :: string
  si_total :: nat
  si_resolved :: nat
  si_open :: nat
  si_sla_breaches :: nat
  si_avg_resolution_minutes :: "rat option"

record incident_analytics =
  ia_generated_at :: instant
  ia_window_days :: nat
  ia_sla_minutes :: int
  ia_total :: nat
  ia_resolved :: nat
  ia_open :: nat
  ia_sla_breaches :: nat
  ia_sla_breach_rate :: rat
  ia_avg_resolution_minutes :: "rat option"
  ia_trends :: "(string \<times> trend) list"
  ia_by_severity :: "severity_item list"

definition severity_order :: "string \<Rightarrow> nat" where
  "severity_order v = (if v = ''critical'' then 0 else if v = ''warning'' then 1 else if v = ''info'' then 2 else 99)"

definition severity_item_of :: "string \<times> severity_stats \<Rightarrow> severity_item" where
  "severity_item_of p = \<lparr>si_severity = fst p, si_total = sv_total (snd p), si_resolved = sv_resolved (snd p),
    si_open = sv_open (snd p), si_sla_breaches = sv_breaches (snd p),
    si_avg_resolution_minutes = avg_minutes (sv_durations (snd p))\<rparr>"

definition incident_rows :: "uuid \<Rightarrow> nat \<Rightarrow> instant \<Rightarrow> db \<Rightarrow> incident_ack list" where
  "incident_rows tid days now s = sort_key ak_created_at
    (filter (\<lambda>a. ak_tenant_id a = tid \<and> window_start days now \<le> ak_created_at a) (acks s))"

definition get_incident_analytics :: "uuid \<Rightarrow> nat \<Rightarrow> int \<Rightarrow> instant \<Rightarrow> db \<Rightarrow> incident_analytics" where
  "get_incident_analytics tid days sla now s =
    (let rows = incident_rows tid days now s;
         t = foldl (tally_row now sla) (empty_tally (window_days days now)) rows in
     \<lparr>ia_generated_at = now, ia_window_days = days, ia_sla_minutes = sla, ia_total = length rows,
      ia_resolved = ty_resolved t, ia_open = ty_open t, ia_sla_breaches = ty_breaches t,
      ia_sla_breach_rate = (if rows = [] then 0
        else round1 (of_nat (ty_breaches t) / of_nat (length rows) * 100)),
      ia_avg_resolution_minutes = avg_minutes (ty_durations t),
      ia_trends = sort_key fst (ty_trends t),
      ia_by_severity = map severity_item_of (sort_key (\<lambda>p. (severity_order (fst p), fst p)) (ty_severities t))\<rparr>)"


section \<open>Recommendations and plans\<close>

record recommendation =
  rc_code :: string
  rc_priority :: severity
  rc_title :: string
  rc_rationale :: string
  rc_suggested_action :: string
  rc_automation_type :: string
  rc_confidence :: rat
  rc_evidence :: "string list"
  rc_blocked_by :: "string list"

definition automation_recommendation ::
  "string \<Rightarrow> severity \<Rightarrow> string \<Rightarrow> string \<Rightarrow> string \<Rightarrow> string \<Rightarrow> rat \<Rightarrow> string list \<Rightarrow> string list \<Rightarrow> recommendation" where
  "automation_recommendation code priority title rationale action kind confidence evidence blocked =
    \<lparr>rc_code = code, rc_priority = priority, rc_title = title, rc_rationale = rationale, rc_suggested_action = action,
     rc_automation_type = kind, rc_confidence = confidence, rc_evidence = evidence, rc_blocked_by = blocked\<rparr>"

text \<open>The text of a rate between 0 and 100 with one decimal, as \<open>str\<close> of the number writes it.\<close>

definition show_rate :: "rat \<Rightarrow> string" where
  "show_rate r = (let n = nat (floor (r * 10)) in show_nat (n div 10) @ ''.'' @ [digit_char (n mod 10)])"

definition retry_recommendation :: "nat \<Rightarrow> int \<Rightarrow> recommendation" where
  "retry_recommendation n window = automation_recommendation ''auto_retry_dead_letters'' Critical
    ''Automate eligible dead-letter retry triage''
    ''Dead-lettered webhook dispatches are waiting for operator review.''
    ''Create an approval-gated retry plan for eligible dead-lettered dispatches after root-cause review.''
    ''approval_gated_retry'' (92 / 100)
    [show_nat n @ '' dead-lettered webhook dispatch in the last '' @ show_int window @ '' hours''] []"

definition resume_recommendation :: "nat \<Rightarrow> int \<Rightarrow> recommendation" where
  "resume_recommendation n window = automation_recommendation ''auto_resume_guard'' Warning
    ''Add a guarded dispatch resume workflow''
    ''Paused workflow dispatch can linger after downstream systems recover.''
    ''Create a resume checklist that verifies downstream health before proposing workflow dispatch resume.''
    ''resume_guard'' (82 / 100)
    [show_nat n @ '' paused workflow dispatch queue in the last '' @ show_int window @ '' hours''] []"

definition throttle_recommendation :: "nat \<Rightarrow> recommendation" where
  "throttle_recommendation n = automation_recommendation ''auto_rate_limit_tuning'' Warning
    ''Recommend webhook rate-limit tuning''
    ''Webhook trigger rate-limit windows are exhausted.''
    ''Generate a rate-limit tuning proposal from recent volume before operators change trigger thresholds.''
    ''rate_limit_tuning'' (78 / 100) [show_nat n @ '' webhook trigger rate-limit window exhausted''] []"

definition backlog_recommendation :: "nat \<Rightarrow> int \<Rightarrow> recommendation" where
  "backlog_recommendation n window = automation_recommendation ''auto_retry_backlog_watch'' Info
    ''Watch deferred retry backlog''
    ''Deferred retries can hide a slow-draining dispatch queue.''
    ''Create a backlog watcher that escalates only when deferred retries keep growing across windows.''
    ''backlog_monitor'' (7 / 10)
    [show_nat n @ '' deferred retry waiting in the last '' @ show_int window @ '' hours''] []"

definition sla_recommendation :: "incident_analytics \<Rightarrow> int \<Rightarrow> bool \<Rightarrow> recommendation" where
  "sla_recommendation ia sla policy_enabled = automation_recommendation ''auto_sla_escalation''
    (if ia_sla_breach_rate ia \<ge> 50 then Critical else Warning)
    ''Add incident SLA escalation automation''
    ''Recent dispatch incidents breached the configured resolution SLA.''
    ''Create a dry-run escalation plan that pages owners only after alert routing credentials are configured.''
    ''sla_escalation'' (87 / 100)
    [show_nat (ia_sla_breaches ia) @ '' SLA breach in the last 30 days'',
     show_rate (ia_sla_breach_rate ia) @ ''% breach rate at '' @ show_int sla @ '' minute SLA'']
    (if policy_enabled then [] else [''No active alert routing policy''])"

definition routing_recommendation :: recommendation where
  "routing_recommendation = automation_recommendation ''setup_alert_routing'' Warning
    ''Enable automated alert routing''
    ''Alert routing is disabled, so automated escalation has no safe delivery path.''
    ''Configure a credential-backed alert route before enabling automated incident escalation.''
    ''alert_routing_setup'' (74 / 100) [''Dispatch alert policy is disabled''] [''No active alert routing policy'']"

definition recommend_if :: "bool \<Rightarrow> recommendation \<Rightarrow> recommendation list" where
  "recommend_if b r = (if b then [r] else [])"

record recommendations_response =
  rn_generated_at :: instant
  rn_window_hours :: int
  rn_sla_minutes :: int
  rn_recommendation_count :: nat
  rn_automation_ready_count :: nat
  rn_recommendations :: "recommendation list"

text \<open>The clocks of the health counts, of the incident statistics and of the answer.\<close>

record control_clock =
  cc_health :: instant
  cc_incidents :: instant
  cc_generated :: instant

definition recommendations_for ::
  "dispatch_health \<Rightarrow> alert_policy \<Rightarrow> incident_analytics \<Rightarrow> int \<Rightarrow> int \<Rightarrow> recommendation list" where
  "recommendations_for h p ia window sla =
    recommend_if (dh_dead_lettered_executions h \<noteq> 0) (retry_recommendation (dh_dead_lettered_executions h) window) @
    recommend_if (dh_paused_workflows h \<noteq> 0) (resume_recommendation (dh_paused_workflows h) window) @
    recommend_if (dh_throttled_triggers h \<noteq> 0) (throttle_recommendation (dh_throttled_triggers h)) @
    recommend_if (dh_deferred_retries h \<noteq> 0) (backlog_recommendation (dh_deferred_retries h) window) @
    recommend_if (ia_sla_breaches ia \<noteq> 0) (sla_recommendation ia sla (ap_enabled p)) @
    recommend_if (\<not> ap_enabled p) routing_recommendation"

definition get_recommendations ::
  "control_clock \<Rightarrow> uuid \<Rightarrow> int \<Rightarrow> int \<Rightarrow> db \<Rightarrow> http_error + recommendations_response" where
  "get_recommendations ck tid window sla s =
    (case get_dispatch_health tid window (cc_health ck) s of
      Inl msg \<Rightarrow> Inl (internal_error msg)
    | Inr h \<Rightarrow>
       (case get_alert_policy tid s of
         Inl err \<Rightarrow> Inl err
       | Inr p \<Rightarrow>
          (let rs = recommendations_for h p (get_incident_analytics tid 30 sla (cc_incidents ck) s) window sla in
           Inr \<lparr>rn_generated_at = cc_generated ck, rn_window_hours = window, rn_sla_minutes = sla,
             rn_recommendation_count = length rs,
             rn_automation_ready_count = length (filter (\<lambda>r. rc_blocked_by r = []) rs),
             rn_recommendations = rs\<rparr>)))"

definition find_recommendation ::
  "control_clock \<Rightarrow> uuid \<Rightarrow> string \<Rightarrow> int \<Rightarrow> int \<Rightarrow> db \<Rightarrow> http_error + recommendation option" where
  "find_recommendation ck tid code window sla s =
    (case get_recommendations ck tid window sla s of
      Inl err \<Rightarrow> Inl err
    | Inr r \<Rightarrow> Inr (find (\<lambda>x. rc_code x = code) (rn_recommendations r)))"

definition pending_plan :: "uuid \<Rightarrow> string \<Rightarrow> automation_plan \<Rightarrow> bool" where
  "pending_plan tid code p \<longleftrightarrow> pl_tenant_id p = tid \<and> pl_recommendation_code p = code \<and> pl_status p = PlPendingApproval"

definition new_plan :: "uuid \<Rightarrow> instant \<Rightarrow> uuid \<Rightarrow> user \<Rightarrow> recommendation \<Rightarrow> automation_plan" where
  "new_plan i created tid u r = \<lparr>pl_id = i, pl_tenant_id = tid, pl_recommendation_code = rc_code r,
    pl_automation_type = rc_automation_type r, pl_status = PlPendingApproval,
    pl_priority = severity_text (rc_priority r), pl_title = rc_title r, pl_rationale = rc_rationale r,
    pl_suggested_action = rc_suggested_action r, pl_confidence = rc_confidence r,
    pl_evidence = JList (map JStr (rc_evidence r)), pl_blocked_by = JList (map JStr (rc_blocked_by r)),
    pl_requested_by = Some (us_id u), pl_requested_by_email = us_email u, pl_requested_by_name = us_full_name u,
    pl_approved_by = None, pl_approved_by_email = None, pl_approved_by_name = None, pl_approved_at = None,
    pl_rejected_by = None, pl_rejected_by_email = None, pl_rejected_by_name = None, pl_rejection_note = None,
    pl_rejected_at = None, pl_execution_result = JObj [], pl_executed_at = None, pl_execution_error = None,
    pl_created_at = created\<rparr>"

definition create_plan ::
  "control_clock \<Rightarrow> row_draw \<Rightarrow> uuid \<Rightarrow> user \<Rightarrow> string \<Rightarrow> int \<Rightarrow> int \<Rightarrow> (automation_plan, db) svc" where
  "create_plan ck dw tid u code window sla s =
    (case find_recommendation ck tid code window sla s of
      Inl err \<Rightarrow> (Inl err, s)
    | Inr None \<Rightarrow> (Inl (HTTPException 409 ''Recommendation is not current for this tenant.''), s)
    | Inr (Some r) \<Rightarrow>
       if row_count (pending_plan tid code) (plans s) > 0 then
         (Inl (HTTPException 409 ''A pending automation plan already exists for this recommendation.''), s)
       else
         (let p = new_plan (rw_id dw) (rw_created dw) tid u r in (Inr p, s\<lparr>plans := plans s @ [p]\<rparr>)))"

section \<open>The runbook\<close>

record runbook =
  rb_tenant_id :: uuid
  rb_generated_at :: instant
  rb_window_hours :: int
  rb_severity :: severity
  rb_summary :: string
  rb_health :: dispatch_health
  rb_policy_enabled :: bool
  rb_configured_channels :: nat
  rb_cooldown_minutes :: int
  rb_alerts :: "health_alert list"
  rb_recent_deliveries :: "alert_delivery list"
  rb_recommended_actions :: "runbook_action list"
  rb_acknowledgement :: "incident_ack option"
  rb_incident_history :: "incident_ack list"

definition get_runbook ::
  "instant \<Rightarrow> instant \<Rightarrow> (uuid \<Rightarrow> instant) \<Rightarrow> uuid \<Rightarrow> int \<Rightarrow> nat \<Rightarrow> db \<Rightarrow> http_error + runbook" where
  "get_runbook now generated updated_at tid window delivery_limit s =
    (case runbook_context tid window now s of
      Inl err \<Rightarrow> Inl err
    | Inr (h, p, alerts) \<Rightarrow>
       (case open_acknowledgement tid (incident_key alerts) s of
         Inl err \<Rightarrow> Inl err
       | Inr ack \<Rightarrow> Inr \<lparr>rb_tenant_id = tid, rb_generated_at = generated, rb_window_hours = window,
           rb_severity = runbook_severity alerts,
           rb_summary = (if alerts = [] then ''No active dispatch incident'' else ''Dispatch incident handoff required''),
           rb_health = h, rb_policy_enabled = ap_enabled p,
           rb_configured_channels = length (filter rt_enabled (ap_channels p)),
           rb_cooldown_minutes = ap_cooldown_minutes p, rb_alerts = alerts,
           rb_recent_deliveries = map sanitize_delivery (list_alert_deliveries tid delivery_limit s),
           rb_recommended_actions = runbook_actions alerts p, rb_acknowledgement = ack,
           rb_incident_history = incident_history updated_at tid 5 s\<rparr>))"

definition alert_line :: "health_alert \<Rightarrow> string" where
  "alert_line a = ''- ['' @ severity_text (al_severity a) @ ''] '' @ sanitize_text (al_title a) @ '' ('' @ al_code a @
    ''): '' @ sanitize_text (al_message a)"

definition action_line :: "runbook_action \<Rightarrow> string" where
  "action_line a = ''- ['' @ severity_text (ra_priority a) @ ''] '' @ sanitize_text (ra_title a) @ '': '' @
    sanitize_text (ra_detail a)"

definition ownership_lines :: "incident_ack option \<Rightarrow> string list" where
  "ownership_lines ack =
    (case ack of
      None \<Rightarrow> [''- Not acknowledged.'']
    | Some a \<Rightarrow>
       (let note = sanitize_text (case ak_note a of None \<Rightarrow> [] | Some m \<Rightarrow> m) in
        (''- Acknowledged by: '' @ sanitize_text (ak_acknowledged_by_email a)) #
        (if note = [] then [] else [''- Note: '' @ note])))"

definition delivery_line :: "alert_delivery \<Rightarrow> string" where
  "delivery_line d = ''- '' @ dl_alert_code d @ '' -> '' @ dl_status d @
    (case dl_status_code d of None \<Rightarrow> [] | Some c \<Rightarrow> if c = 0 then [] else '' HTTP '' @ show_int c) @
    '' ('' @ sanitize_text (dl_target_preview d) @ '')''"

definition render_runbook_markdown :: "runbook \<Rightarrow> string" where
  "render_runbook_markdown r =
    (let h = rb_health r;
         lines = [''# Dispatch Incident Runbook'', [],
           ''- Generated at: '' @ isoformat (rb_generated_at r),
           ''- Severity: '' @ severity_text (rb_severity r),
           ''- Summary: '' @ sanitize_text (rb_summary r),
           ''- Window: '' @ show_int (rb_window_hours r) @ '' hours'', [], ''## Health'', [],
           ''- Paused workflows: '' @ show_nat (dh_paused_workflows h),
           ''- Throttled triggers: '' @ show_nat (dh_throttled_triggers h),
           ''- Pending dispatches: '' @ show_nat (dh_pending_dispatches h),
           ''- Deferred retries: '' @ show_nat (dh_deferred_retries h),
           ''- Dead-lettered executions: '' @ show_nat (dh_dead_lettered_executions h),
           ''- Manual retries: '' @ show_nat (dh_manual_retries h), [], ''## Alerts'', []] @
           (if rb_alerts r = [] then [''- No active dispatch alerts.''] else map alert_line (rb_alerts r)) @
           [[], ''## Recommended Actions'', []] @ map action_line (rb_recommended_actions r) @
           [[], ''## Ownership'', []] @ ownership_lines (rb_acknowledgement r) @
           [[], ''## Recent Delivery Audit'', []] @
           (if rb_recent_deliveries r = [] then [''- No recent delivery attempts.'']
            else map delivery_line (rb_recent_deliveries r)) in
     join [CHR 0x0A] lines @ [CHR 0x0A])"


section \<open>One open incident, one pending plan\<close>

lemma row_count_update:
  "(\<And>r. r \<in> set rows \<Longrightarrow> p r \<Longrightarrow> q (f r) \<Longrightarrow> q r) \<Longrightarrow> row_count q (row_update p f rows) \<le> row_count q rows"
  by (induction rows) (auto simp: le_SucI)

lemma row_count_le_1: "row_count q rows \<le> n \<Longrightarrow> row_count q (rows @ [r]) \<le> (if q r then Suc n else n)"
  by simp

text \<open>What a pass of the plan worker leaves alone.\<close>

lemma acks_retry: "retry_dead_letter_execution i now tid eid uid s = (r, s') \<Longrightarrow> acks s' = acks s"
proof -
  have "acks (snd (retry_dead_letter_execution i now tid eid uid s)) = acks s"
    by (auto simp: retry_dead_letter_execution_def create_execution_snd add_execution_def split: sum.splits bool.splits)
  then show "retry_dead_letter_execution i now tid eid uid s = (r, s') \<Longrightarrow> ?thesis" by simp
qed

lemma acks_execute_plan: "acks (snd (execute_plan env p s)) = acks s"
  by (auto simp: execute_plan_def execute_resume_guard_def execute_approval_gated_retry_def resume_workflows_def
      update_execution_def dest: acks_retry split: sum.split option.split prod.split http_error.split)

lemma acks_worker_loop: "acks (snd (worker_loop env ps r s)) = acks s"
proof (induction ps arbitrary: r s)
  case (Cons p ps)
  have "acks (update_plan i f s) = acks s" for i f s by (simp add: update_plan_def)
  with Cons acks_execute_plan [of env p] show ?case by (auto split: prod.split) (metis snd_conv)+
qed simp

definition controls_ok :: "db \<Rightarrow> bool" where
  "controls_ok s \<longleftrightarrow> distinct (map ak_id (acks s)) \<and> distinct (map pl_id (plans s)) \<and>
    (\<forall>tid key. row_count (open_ack tid key) (acks s) \<le> 1) \<and>
    (\<forall>tid code. row_count (pending_plan tid code) (plans s) \<le> 1)"

text \<open>
  The requests on incidents and plans, a pass of the worker, and everything that touches neither
  table. Identifiers of new rows are fresh.
\<close>

inductive control_step :: "db \<Rightarrow> db \<Rightarrow> bool" where
  acknowledge: "acknowledge_incident dw now tid u note window s = (r, t) \<Longrightarrow> rw_id dw \<notin> ak_id ` set (acks s) \<Longrightarrow> control_step s t"
| resolve: "resolve_incident now resolved tid u note window s = (r, t) \<Longrightarrow> control_step s t"
| create: "create_plan ck dw tid u code window sla s = (r, t) \<Longrightarrow> rw_id dw \<notin> pl_id ` set (plans s) \<Longrightarrow> control_step s t"
| approve: "approve_plan now tid u pid s = (r, t) \<Longrightarrow> control_step s t"
| reject: "reject_plan now tid u pid note s = (r, t) \<Longrightarrow> control_step s t"
| worker: "run_plan_worker_once env limit tids s = (w, t) \<Longrightarrow> control_step s t"
| elsewhere: "acks t = acks s \<Longrightarrow> plans t = plans s \<Longrightarrow> control_step s t"

lemma open_ack_unique:
  assumes "controls_ok s"
  shows "open_acknowledgement tid key s \<noteq> Inl err"
    "open_acknowledgement tid key s = Inr (Some a) \<Longrightarrow>
      \<exists>k. key = Some k \<and> open_ack tid k a \<and> a \<in> set (acks s) \<and> (\<forall>x \<in> set (acks s). ak_id x = ak_id a \<longrightarrow> x = a)"
    "open_acknowledgement tid (Some k) s = Inr None \<Longrightarrow> row_count (open_ack tid k) (acks s) = 0"
proof -
  have len: "length (filter (open_ack tid k) (acks s)) \<le> 1" for k
    using assms by (simp add: controls_ok_def row_count_def)
  then have cases: "filter (open_ack tid k) (acks s) = [] \<or> (\<exists>a. filter (open_ack tid k) (acks s) = [a])" for k
    using len [of k] by (cases "filter (open_ack tid k) (acks s)") auto
  show "open_acknowledgement tid key s \<noteq> Inl err"
  proof (cases key)
    case (Some k)
    with cases [of k] show ?thesis by (auto simp: open_acknowledgement_def)
  qed (simp add: open_acknowledgement_def)
  show "open_acknowledgement tid (Some k) s = Inr None \<Longrightarrow> row_count (open_ack tid k) (acks s) = 0"
    using cases [of k] by (auto simp: open_acknowledgement_def row_count_def)
  assume "open_acknowledgement tid key s = Inr (Some a)"
  then obtain k where k: "key = Some k" "one_or_none (filter (open_ack tid k) (acks s)) = Inr (Some a)"
    by (auto simp: open_acknowledgement_def split: option.splits)
  with cases [of k] have "filter (open_ack tid k) (acks s) = [a]" by auto
  then have "a \<in> set (acks s)" "open_ack tid k a" by (auto simp: filter_eq_Cons_iff)
  with k(1) assms show "\<exists>k. key = Some k \<and> open_ack tid k a \<and> a \<in> set (acks s) \<and>
      (\<forall>x \<in> set (acks s). ak_id x = ak_id a \<longrightarrow> x = a)"
    by (auto simp: controls_ok_def distinct_map inj_on_def)
qed

lemma controls_ok_update_ack:
  assumes "controls_ok s" "a \<in> set (acks s)" "\<And>x. ak_id (f x) = ak_id x"
    and "\<And>t k. open_ack t k (f a) \<Longrightarrow> open_ack t k a"
  shows "controls_ok (update_ack (ak_id a) f s)"
proof -
  have same: "x = a" if "x \<in> set (acks s)" "ak_id x = ak_id a" for x
    using that assms(1,2) by (auto simp: controls_ok_def distinct_map inj_on_def)
  have "row_count (open_ack t k) (row_update (\<lambda>x. ak_id x = ak_id a) f (acks s)) \<le> row_count (open_ack t k) (acks s)" for t k
    by (rule row_count_update) (use same assms(4) in blast)
  moreover have "row_count (open_ack t k) (acks s) \<le> 1" for t k using assms(1) by (simp add: controls_ok_def)
  ultimately have "row_count (open_ack t k) (row_update (\<lambda>x. ak_id x = ak_id a) f (acks s)) \<le> 1" for t k
    by (rule le_trans)
  with assms(1,3) show ?thesis by (auto simp: controls_ok_def update_ack_def map_row_update)
qed

lemma controls_ok_update_plans:
  assumes "controls_ok s" "\<And>x. pl_id (f x) = pl_id x" "\<And>x. pl_status (f x) \<noteq> PlPendingApproval"
    and "plans t = row_update q f (plans s)" "acks t = acks s"
  shows "controls_ok t"
proof -
  have "row_count (pending_plan i c) (plans t) \<le> row_count (pending_plan i c) (plans s)" for i c
    unfolding assms(4) by (rule row_count_update) (simp add: pending_plan_def assms(3))
  moreover have "row_count (pending_plan i c) (plans s) \<le> 1" for i c using assms(1) by (simp add: controls_ok_def)
  ultimately have "row_count (pending_plan i c) (plans t) \<le> 1" for i c by (rule le_trans)
  moreover have "map pl_id (plans t) = map pl_id (plans s)" unfolding assms(4) by (simp add: map_row_update assms(2))
  ultimately show ?thesis using assms(1,5) by (simp add: controls_ok_def)
qed


lemma controls_ok_update_plan:
  assumes "controls_ok s" "\<And>x. pl_id (f x) = pl_id x" "\<And>x. pl_status (f x) \<noteq> PlPendingApproval"
  shows "controls_ok (update_plan i f s)"
  by (rule controls_ok_update_plans [OF assms, of _ "\<lambda>p. pl_id p = i"]) (simp_all add: update_plan_def)

lemma resolved_not_open: "\<not> open_ack t k (resolved_by u note now a)"
  by (simp add: open_ack_def resolved_by_def)

lemma find_recommendation_code: "find_recommendation ck tid code window sla s = Inr (Some r) \<Longrightarrow> rc_code r = code"
  by (auto simp: find_recommendation_def find_Some_iff split: sum.splits)

lemma acknowledge_incident_cases:
  assumes "acknowledge_incident dw now tid u nt window s = (r, t)"
  obtains (refused) "isl r" "t = s"
  | (first) h p alerts key where "runbook_context tid window now s = Inr (h, p, alerts)" "incident_key alerts = Some key"
      "open_acknowledgement tid (Some key) s = Inr None"
      "r = Inr (acknowledged_by u alerts nt (blank_ack (rw_id dw) (rw_created dw) tid key))"
      "t = s\<lparr>acks := acks s @ [acknowledged_by u alerts nt (blank_ack (rw_id dw) (rw_created dw) tid key)]\<rparr>"
  | (again) h p alerts key a where "runbook_context tid window now s = Inr (h, p, alerts)" "incident_key alerts = Some key"
      "open_acknowledgement tid (Some key) s = Inr (Some a)"
      "r = Inr (acknowledged_by u alerts nt a)" "t = update_ack (ak_id a) (acknowledged_by u alerts nt) s"
proof (cases "runbook_context tid window now s")
  case (Inl err)
  with assms show ?thesis by (intro refused) (auto simp: acknowledge_incident_def)
next
  case (Inr ctx)
  obtain h p alerts where ctx: "ctx = (h, p, alerts)" by (cases ctx)
  show ?thesis
  proof (cases "incident_key alerts")
    case None
    with Inr ctx assms show ?thesis by (intro refused) (auto simp: acknowledge_incident_def)
  next
    case (Some key)
    note step = assms [unfolded acknowledge_incident_def Inr ctx, simplified, unfolded Some, simplified]
    show ?thesis
    proof (cases "open_acknowledgement tid (Some key) s")
      case (Inl err)
      with step show ?thesis by (intro refused) auto
    next
      case o: (Inr found)
      show ?thesis
      proof (cases found)
        case None
        with step o first Inr ctx Some show ?thesis by (simp add: Let_def)
      next
        case (Some a)
        with step o again Inr ctx \<open>incident_key alerts = Some key\<close> show ?thesis by simp
      qed
    qed
  qed
qed

lemma resolve_incident_cases:
  assumes "resolve_incident now resolved tid u nt window s = (r, t)"
  obtains (refused) "isl r" "t = s"
  | (closed) h p alerts a where "runbook_context tid window now s = Inr (h, p, alerts)"
      "open_acknowledgement tid (incident_key alerts) s = Inr (Some a)"
      "r = Inr (resolved_by u nt resolved a)" "t = update_ack (ak_id a) (resolved_by u nt resolved) s"
proof (cases "runbook_context tid window now s")
  case (Inl err)
  with assms show ?thesis by (intro refused) (auto simp: resolve_incident_def)
next
  case (Inr ctx)
  obtain h p alerts where ctx: "ctx = (h, p, alerts)" by (cases ctx)
  note step = assms [unfolded resolve_incident_def Inr ctx, simplified]
  show ?thesis
  proof (cases "open_acknowledgement tid (incident_key alerts) s")
    case (Inl err)
    with step show ?thesis by (intro refused) auto
  next
    case o: (Inr found)
    show ?thesis
    proof (cases found)
      case None
      with step o show ?thesis by (intro refused) auto
    next
      case (Some a)
      with step o closed Inr ctx show ?thesis by simp
    qed
  qed
qed

lemma create_plan_cases:
  assumes "create_plan ck dw tid u code window sla s = (r, t)"
  obtains (refused) "isl r" "t = s"
  | (created) x where "find_recommendation ck tid code window sla s = Inr (Some x)"
      "row_count (pending_plan tid code) (plans s) = 0" "r = Inr (new_plan (rw_id dw) (rw_created dw) tid u x)"
      "t = s\<lparr>plans := plans s @ [new_plan (rw_id dw) (rw_created dw) tid u x]\<rparr>"
proof (cases "find_recommendation ck tid code window sla s")
  case (Inl err)
  with assms show ?thesis by (intro refused) (auto simp: create_plan_def)
next
  case f: (Inr found)
  note step = assms [unfolded create_plan_def f, simplified]
  show ?thesis
  proof (cases found)
    case None
    with step show ?thesis by (intro refused) auto
  next
    case (Some x)
    show ?thesis
    proof (cases "row_count (pending_plan tid code) (plans s) = 0")
      case True
      with step f Some created show ?thesis by (simp add: Let_def)
    next
      case False
      with step Some show ?thesis by (intro refused) auto
    qed
  qed
qed

lemma controls_ok_step:
  assumes "controls_ok s" "control_step s t"
  shows "controls_ok t"
  using assms(2)
proof cases
  case (acknowledge dw now tid u nt window r)
  from acknowledge(1) show ?thesis
  proof (cases rule: acknowledge_incident_cases)
    case (first h p alerts key)
    from open_ack_unique(3) [OF assms(1) first(3)] have none: "row_count (open_ack tid key) (acks s) = 0" .
    have "open_ack t' k (acknowledged_by u alerts nt (blank_ack (rw_id dw) (rw_created dw) tid key)) \<longleftrightarrow> t' = tid \<and> k = key" for t' k
      by (auto simp: open_ack_def acknowledged_by_def blank_ack_def)
    with assms(1) none acknowledge(2) show ?thesis
      unfolding first(5) by (auto simp: controls_ok_def acknowledged_by_def blank_ack_def)
  next
    case (again h p alerts key a)
    from open_ack_unique(2) [OF assms(1) again(3)] have a: "a \<in> set (acks s)" "open_ack tid key a" by auto
    have "open_ack t k (acknowledged_by u alerts nt a) \<Longrightarrow> open_ack t k a" for t k
      using a(2) by (simp add: open_ack_def acknowledged_by_def)
    show ?thesis unfolding again(5)
      by (rule controls_ok_update_ack [OF assms(1) a(1)]) (simp add: acknowledged_by_def, fact)
  qed (use assms(1) in simp)
next
  case (resolve now resolved tid u nt window r)
  from resolve show ?thesis
  proof (cases rule: resolve_incident_cases)
    case (closed h p alerts a)
    from open_ack_unique(2) [OF assms(1) closed(2)] have "a \<in> set (acks s)" by auto
    then show ?thesis unfolding closed(4)
      by (rule controls_ok_update_ack [OF assms(1)]) (simp add: resolved_by_def, simp add: resolved_not_open)
  qed (use assms(1) in simp)
next
  case (create ck dw tid u code window sla r)
  from create(1) show ?thesis
  proof (cases rule: create_plan_cases)
    case (created x)
    have "pending_plan t' c (new_plan (rw_id dw) (rw_created dw) tid u x) \<longleftrightarrow> t' = tid \<and> c = code" for t' c
      using find_recommendation_code [OF created(1)] by (auto simp: pending_plan_def new_plan_def)
    with assms(1) created(2) create(2) show ?thesis unfolding created(4) by (auto simp: controls_ok_def new_plan_def)
  qed (use assms(1) in simp)
next
  case (approve now tid u pid r)
  then show ?thesis using assms(1)
    by (auto simp: approve_plan_def Let_def intro: controls_ok_update_plan split: sum.splits if_splits)
next
  case (reject now tid u pid nt r)
  then show ?thesis using assms(1)
    by (auto simp: reject_plan_def Let_def intro: controls_ok_update_plan split: sum.splits if_splits)
next
  case (worker env limit tids w)
  let ?q = "approved_queue tids limit s"
  have keys: "distinct (map pl_id ?q)" using assms(1) by (intro distinct_approved_queue) (simp add: controls_ok_def)
  have waiting: "\<forall>p \<in> set ?q. \<not> terminal_plan_status (pl_status p)"
    by (auto simp: terminal_plan_status_def dest: set_approved_queue)
  have t: "t = snd (worker_loop env ?q idle_result s)" using worker by (simp add: run_plan_worker_once_def)
  from worker_loop_plans [OF keys waiting] obtain out where out: "\<forall>i. outcome_ok (out i)"
      "plans t = row_update (\<lambda>p. pl_id p \<in> pl_id ` set ?q) (\<lambda>p. close_plan (pw_now env) (out (pl_id p)) p) (plans s)"
    unfolding t by blast
  have "pl_status (close_plan (pw_now env) (out i) p) \<noteq> PlPendingApproval" for i p
    using out(1) by (auto simp: close_plan_def outcome_ok_def split: sum.splits prod.splits dest!: spec [of _ i])
  moreover have "acks t = acks s" unfolding t by (rule acks_worker_loop)
  ultimately show ?thesis using controls_ok_update_plans [OF assms(1) _ _ out(2)] by simp
next
  case elsewhere
  with assms(1) show ?thesis by (simp add: controls_ok_def)
qed

interpretation controls: invariant_system "\<lambda>s. s = empty_db" control_step controls_ok
proof
  show "s = empty_db \<Longrightarrow> controls_ok s" for s by (simp add: controls_ok_def empty_db_def)
qed (rule controls_ok_step)


section \<open>An acknowledgement and its resolution\<close>

text \<open>The rows of incidents play no part in the alerts.\<close>

lemma throttled_among_acks: "throttled_among tid now (s\<lparr>acks := x\<rparr>) ts = throttled_among tid now s ts"
  by (induction ts) (auto simp: events_since_def split: sum.split option.split)

lemma runbook_context_acks: "runbook_context tid window now (s\<lparr>acks := x\<rparr>) = runbook_context tid window now s"
  by (simp add: runbook_context_def get_dispatch_health_def get_alert_policy_def tenant_by_id_def recent_executions_def
      count_throttled_triggers_def throttled_among_acks paused_workflows_def cong: sum.case_cong option.case_cong)

lemma open_acknowledgement_found:
  assumes "controls_ok s" "a \<in> set (acks s)" "open_ack tid key a"
  shows "open_acknowledgement tid (Some key) s = Inr (Some a)"
proof -
  have "a \<in> set (filter (open_ack tid key) (acks s))" using assms(2,3) by simp
  moreover have "length (filter (open_ack tid key) (acks s)) \<le> 1" using assms(1) by (simp add: controls_ok_def row_count_def)
  ultimately have "filter (open_ack tid key) (acks s) = [a]"
    by (cases "filter (open_ack tid key) (acks s)") auto
  then show ?thesis by (simp add: open_acknowledgement_def)
qed

lemma open_acknowledgement_resolved:
  assumes "controls_ok s" "a \<in> set (acks s)" "open_ack tid key a"
  shows "open_acknowledgement tid (Some key) (update_ack (ak_id a) (resolved_by u note now) s) = Inr None"
proof -
  have "x = a" if "x \<in> set (acks s)" "open_ack tid key x" for x
    using open_acknowledgement_found [OF assms(1) that] open_acknowledgement_found [OF assms] by simp
  then have "\<not> open_ack tid key x" if "x \<in> set (row_update (\<lambda>r. ak_id r = ak_id a) (resolved_by u note now) (acks s))" for x
    using row_update_memD [OF that] resolved_not_open by blast
  then have "filter (open_ack tid key) (row_update (\<lambda>r. ak_id r = ak_id a) (resolved_by u note now) (acks s)) = []"
    by (simp add: filter_empty_conv)
  then show ?thesis by (simp add: open_acknowledgement_def update_ack_def)
qed

lemma row_count_once: "distinct rows \<Longrightarrow> a \<in> set rows \<Longrightarrow> row_count (\<lambda>x. x = a) rows = 1"
proof (induction rows)
  case (Cons x rows)
  then have "x = a \<Longrightarrow> filter (\<lambda>y. y = a) rows = []" by (auto simp: filter_empty_conv)
  with Cons show ?case by (auto simp: row_count_def)
qed simp

section \<open>The statistics add up\<close>

definition dsum :: "('v \<Rightarrow> nat) \<Rightarrow> ('k, 'v) dict \<Rightarrow> nat" where
  "dsum f m = (\<Sum>p\<leftarrow>m. f (snd p))"

lemma dsum_dset: "dsum f (dset k v m) + (case dget k m of None \<Rightarrow> 0 | Some w \<Rightarrow> f w) = dsum f m + f v"
  by (induction m) (auto simp: dsum_def dget_def)

lemma dsum_dchange:
  assumes "f d = 0" "\<And>v. f (g v) = f v + c"
  shows "dsum f (dchange k d g m) = dsum f m + c"
  using dsum_dset [of f k "g (case dget k m of None \<Rightarrow> d | Some v \<Rightarrow> v)" m] assms
  by (auto simp: dchange_def split: option.splits)

lemma dsum_zeros: "(\<And>p. p \<in> set m \<Longrightarrow> f (snd p) = 0) \<Longrightarrow> dsum f m = 0"
  by (induction m) (auto simp: dsum_def)

lemma dsum_sort_key: "dsum f (sort_key g m) = dsum f m"
proof -
  have "mset (map (\<lambda>p. f (snd p)) (sort_key g m)) = mset (map (\<lambda>p. f (snd p)) m)" by simp
  then show ?thesis unfolding dsum_def by (metis sum_mset_sum_list)
qed

text \<open>What the totals of a tally are, once \<open>n\<close> rows are counted.\<close>

definition tally_adds_up :: "nat \<Rightarrow> tally \<Rightarrow> bool" where
  "tally_adds_up n t \<longleftrightarrow> ty_resolved t + ty_open t = n \<and> ty_breaches t \<le> n \<and>
    dsum td_acknowledged (ty_trends t) = n \<and> dsum td_resolved (ty_trends t) = ty_resolved t \<and>
    dsum td_open (ty_trends t) = ty_open t \<and> dsum td_sla_breaches (ty_trends t) = ty_breaches t \<and>
    dsum sv_total (ty_severities t) = n \<and> dsum sv_resolved (ty_severities t) = ty_resolved t \<and>
    dsum sv_open (ty_severities t) = ty_open t \<and> dsum sv_breaches (ty_severities t) = ty_breaches t"

lemma dsum_counted:
  "dsum td_acknowledged (dchange k no_trend (counted_trend r b) m) = dsum td_acknowledged m + 1"
  "dsum td_resolved (dchange k no_trend (counted_trend r b) m) = dsum td_resolved m + (if r then 1 else 0)"
  "dsum td_open (dchange k no_trend (counted_trend r b) m) = dsum td_open m + (if r then 0 else 1)"
  "dsum td_sla_breaches (dchange k no_trend (counted_trend r b) m) = dsum td_sla_breaches m + (if b then 1 else 0)"
  "dsum sv_total (dchange k no_stats (counted_stats r b ds) m') = dsum sv_total m' + 1"
  "dsum sv_resolved (dchange k no_stats (counted_stats r b ds) m') = dsum sv_resolved m' + (if r then 1 else 0)"
  "dsum sv_open (dchange k no_stats (counted_stats r b ds) m') = dsum sv_open m' + (if r then 0 else 1)"
  "dsum sv_breaches (dchange k no_stats (counted_stats r b ds) m') = dsum sv_breaches m' + (if b then 1 else 0)"
  by (intro dsum_dchange; simp add: no_trend_def counted_trend_def no_stats_def counted_stats_def)+

lemma tally_row_adds_up:
  assumes "tally_adds_up n t"
  shows "tally_adds_up (Suc n) (tally_row now sla t a)"
  using assms unfolding tally_row_def Let_def tally_adds_up_def by (simp add: dsum_counted)

lemma tally_fold_adds_up:
  "tally_adds_up n t \<Longrightarrow> tally_adds_up (n + length rows) (foldl (tally_row now sla) t rows)"
proof (induction rows arbitrary: n t)
  case (Cons a rows)
  from Cons.IH [OF tally_row_adds_up [OF Cons.prems]] show ?case by simp
qed simp


text \<open>Days that a \<open>datetime\<close> can hold have distinct texts.\<close>

definition datetime_range :: "instant \<Rightarrow> bool" where
  "datetime_range t \<longleftrightarrow> 0 \<le> t \<and> t div us_per_day < 3652059"

lemma days_before_year_mono: "1 \<le> y \<Longrightarrow> days_before_year y \<le> days_before_year (y + k)"
  by (induction k) (auto simp: days_before_year_Suc intro: le_trans)

lemma civil_bounds:
  assumes "civil n = (y, m, d)" "n < 3652059"
  shows "y < 10000 \<and> m < 100 \<and> d < 100"
proof -
  note c = civil_correct [OF assms(1)]
  have "month_lengths y ! (m - 1) \<in> set (month_lengths y)" using c(3,4) by (intro nth_mem) (simp add: month_lengths_def)
  then have "month_lengths y ! (m - 1) \<le> 31" by (auto simp: month_lengths_def split: if_splits)
  moreover have "y < 10000"
  proof (rule ccontr)
    assume "\<not> y < 10000"
    then have "days_before_year 10000 \<le> days_before_year y"
      using days_before_year_mono [of 10000 "y - 10000"] by simp
    moreover have "days_before_year 10000 = 3652059" by (simp add: days_before_year.simps)
    ultimately show False using c(1) assms(2) by (simp add: day_number_def)
  qed
  ultimately show ?thesis using c(4,6) by simp
qed

lemma pad_append_eq: "pad k n @ x = pad k m @ y \<Longrightarrow> n mod 10 ^ k = m mod 10 ^ k \<and> x = y"
  using read_digits_pad [of k 0 n x] read_digits_pad [of k 0 m y] by simp

lemma day_text_eq:
  assumes "datetime_range a" "datetime_range b" "day_text a = day_text b"
  shows "a div us_per_day = b div us_per_day"
proof -
  obtain y m d where a: "civil (nat (a div us_per_day)) = (y, m, d)" by (metis prod_cases3)
  obtain y' m' d' where b: "civil (nat (b div us_per_day)) = (y', m', d')" by (metis prod_cases3)
  have nonneg: "0 \<le> a div us_per_day" "0 \<le> b div us_per_day"
    using assms(1,2) by (simp_all add: datetime_range_def us_per_day_def pos_imp_zdiv_nonneg_iff)
  from assms(1,2) nonneg have "nat (a div us_per_day) < 3652059" "nat (b div us_per_day) < 3652059"
    by (simp_all add: datetime_range_def nat_less_iff)
  note bounds = civil_bounds [OF a this(1)] civil_bounds [OF b this(2)]
  from assms(3) a b have "pad 4 y @ ''-'' @ pad 2 m @ ''-'' @ pad 2 d = pad 4 y' @ ''-'' @ pad 2 m' @ ''-'' @ pad 2 d'"
    by (simp add: day_text_def)
  from pad_append_eq [OF this] have "y mod 10000 = y' mod 10000" "pad 2 m @ ''-'' @ pad 2 d = pad 2 m' @ ''-'' @ pad 2 d'"
    by simp_all
  moreover from pad_append_eq [OF this(2)] pad_append_eq [of 2 d "[]" d' "[]"]
  have "m mod 100 = m' mod 100" "d mod 100 = d' mod 100" by simp_all
  ultimately have "(y, m, d) = (y', m', d')" using bounds by simp
  with civil_correct(1) [OF a] civil_correct(1) [OF b] have "nat (a div us_per_day) = nat (b div us_per_day)" by simp
  with nonneg show ?thesis by simp
qed

lemma window_start_div: "window_start days now div us_per_day = now div us_per_day - (int days - 1)"
proof -
  have "(now - (int days - 1) * us_per_day) div us_per_day = now div us_per_day - (int days - 1)"
    using div_mult_self1 [of us_per_day now "- (int days - 1)"] by (simp add: us_per_day_def algebra_simps)
  then show ?thesis by (simp add: window_start_def start_of_day_def us_per_day_def)
qed

lemma distinct_window_days:
  assumes "0 \<le> window_start days now" "datetime_range now"
  shows "distinct (window_days days now)"
proof -
  let ?t = "\<lambda>i. window_start days now + int i * us_per_day"
  have day: "?t i div us_per_day = now div us_per_day - (int days - 1) + int i" for i
    using window_start_div [of days now] by (simp add: us_per_day_def)
  have "datetime_range (?t i)" if "i < days" for i
    using assms that day [of i] by (auto simp: datetime_range_def us_per_day_def)
  then have "i = j" if "i < days" "j < days" "day_text (?t i) = day_text (?t j)" for i j
    using day_text_eq [of "?t i" "?t j"] that day by simp
  then show ?thesis by (auto simp: window_days_def distinct_map inj_on_def)
qed

lemma day_in_window:
  assumes "window_start days now \<le> t" "t \<le> now"
  shows "day_text t \<in> set (window_days days now)"
proof -
  define i where "i = t div us_per_day - (now div us_per_day - (int days - 1))"
  have "window_start days now div us_per_day \<le> t div us_per_day" "t div us_per_day \<le> now div us_per_day"
    using assms by (auto intro!: zdiv_mono1 simp: us_per_day_def)
  then have i: "0 \<le> i" "i < int days" unfolding window_start_div i_def by simp_all
  have "(window_start days now + i * us_per_day) div us_per_day = t div us_per_day"
    using window_start_div [of days now] by (simp add: us_per_day_def i_def)
  then have "day_text t = day_text (window_start days now + int (nat i) * us_per_day)"
    using i(1) by (simp add: day_text_def)
  then show ?thesis using i by (auto simp: window_days_def intro!: image_eqI [of _ _ "nat i"])
qed


lemma dupdate_keys:
  "distinct (map fst d) \<Longrightarrow> distinct (map fst (dupdate d xs)) \<and> fst ` set (dupdate d xs) = fst ` set d \<union> fst ` set xs"
proof (induction xs arbitrary: d)
  case (Cons x xs)
  from Cons.IH [OF distinct_keys_dset [OF Cons.prems]] show ?case
    by (auto simp: dupdate_def set_keys_dset)
qed (simp add: dupdate_def)

lemma dupdate_values: "\<forall>p \<in> set d. snd p = v \<Longrightarrow> \<forall>p \<in> set xs. snd p = v \<Longrightarrow> \<forall>p \<in> set (dupdate d xs). snd p = v"
proof (induction xs arbitrary: d)
  case (Cons x xs)
  have "\<forall>p \<in> set (dset k v d). snd p = v" if "\<forall>p \<in> set d. snd p = v" for k d
    using that set_dset [of k v d] by auto
  from Cons.IH [OF this [OF Cons.prems(1)], of "fst x"] Cons.prems(2) show ?case by (simp add: dupdate_def)
qed (simp add: dupdate_def)

lemma empty_tally_adds_up: "tally_adds_up 0 (empty_tally days)"
proof -
  have "\<forall>p \<in> set (dupdate [] (map (\<lambda>d. (d, no_trend)) days)). snd p = no_trend"
    by (rule dupdate_values) auto
  then show ?thesis by (auto simp: tally_adds_up_def empty_tally_def no_trend_def dsum_def intro!: dsum_zeros [unfolded dsum_def])
qed

lemma tally_fold_days:
  assumes "distinct (map fst (ty_trends t))"
  shows "distinct (map fst (ty_trends (foldl (tally_row now sla) t rows))) \<and>
    fst ` set (ty_trends (foldl (tally_row now sla) t rows)) =
      fst ` set (ty_trends t) \<union> (\<lambda>a. day_text (ak_created_at a)) ` set rows"
  using assms
proof (induction rows arbitrary: t)
  case (Cons a rows)
  have "ty_trends (tally_row now sla t a) = dset (day_text (ak_created_at a)) x (ty_trends t)" if
    "x = counted_trend (ak_status a = ''resolved'' \<and> resolution_minutes a \<noteq> None) (sla_breached now sla a)
      (case dget (day_text (ak_created_at a)) (ty_trends t) of None \<Rightarrow> no_trend | Some v \<Rightarrow> v)" for x
    using that by (simp add: tally_row_def Let_def dchange_def)
  with Cons.IH [of "tally_row now sla t a"] distinct_keys_dset [OF Cons.prems] show ?case
    by (auto simp: set_keys_dset)
qed simp

text \<open>
  An acknowledgement outlives its incident: once no alert matches the policy, there is no incident to
  resolve, the row stays open, and from then on it counts as a breach of the service level.
\<close>

lemma cleared_incident_not_resolvable:
  assumes "runbook_context tid window now s = Inr (h, p, [])"
  shows "resolve_incident now resolved tid u nt window s =
    (Inl (HTTPException 409 ''No acknowledged dispatch incident to resolve.''), s)"
  using assms by (simp add: resolve_incident_def incident_key_def open_acknowledgement_def)

lemma old_open_row_breaches:
  assumes "ak_resolved_at a = None" "ak_created_at a + minutes sla < now" "0 \<le> sla"
  shows "sla_breached now sla a"
proof -
  have "sla * 60000000 < now - ak_created_at a" using assms(2) by (simp add: minutes_def seconds_def)
  then have "(of_int (sla * 60000000) :: rat) < of_int (now - ak_created_at a)" by (simp only: of_int_less_iff)
  with assms(1) show ?thesis by (simp add: sla_breached_def duration_minutes_def field_simps less_max_iff_disj)
qed

section \<open>Properties\<close>

text \<open>
  C25: an incident and a proposal are held once. In every state reached by requests, decisions and
  passes of the worker, a tenant has at most one open acknowledgement per incident and at most one
  plan awaiting approval per recommendation; the look-up of the open acknowledgement never fails.
\<close>

theorem one_open_incident_and_plan:
  assumes "reachable (\<lambda>s. s = empty_db) control_step s"
  shows "length (filter (\<lambda>a. ak_tenant_id a = tid \<and> ak_incident_key a = key \<and> ak_status a = ''acknowledged'') (acks s)) \<le> 1 \<and>
    length (filter (\<lambda>p. pl_tenant_id p = tid \<and> pl_recommendation_code p = code \<and> pl_status p = PlPendingApproval) (plans s)) \<le> 1 \<and>
    (\<forall>err. open_acknowledgement tid k s \<noteq> Inl err)"
  using controls.reachable_inv [OF assms] open_ack_unique(1) [OF controls.reachable_inv [OF assms]]
  by (auto simp: controls_ok_def row_count_def open_ack_def [abs_def] pending_plan_def [abs_def])

text \<open>
  C38: acknowledging and resolving fit together. In a reachable state an accepted acknowledgement is
  what the tenant is shown as long as the alerts are the same, under the name of the user; resolving
  it then succeeds for any user and closes exactly this row, which the table holds once, with the user
  and the time; no other row of the database changes, no acknowledgement of the incident is left open,
  so none is shown, and a second resolution is refused. The alerts may well stand: then a new
  acknowledgement is accepted and opens a new row.
\<close>

theorem acknowledge_resolve_roundtrip:
  assumes "reachable (\<lambda>s. s = empty_db) control_step s" "rw_id dw \<notin> ak_id ` set (acks s)"
    and "acknowledge_incident dw now tid u note1 window s = (Inr a, s1)"
  shows "get_acknowledgement tid window now s1 = Inr (Some a) \<and> ak_acknowledged_by a = Some (us_id u) \<and>
    (\<exists>s2. resolve_incident now resolved tid v note2 window s1 = (Inr (resolved_by v note2 resolved a), s2) \<and>
      row_count (\<lambda>x. x = a) (acks s1) = 1 \<and>
      s2 = s1\<lparr>acks := map (\<lambda>x. if x = a then resolved_by v note2 resolved a else x) (acks s1)\<rparr> \<and>
      get_acknowledgement tid window now s2 = Inr None \<and>
      fst (resolve_incident now later tid w note3 window s2) =
        Inl (HTTPException 409 ''No acknowledged dispatch incident to resolve.''))"
proof -
  have ok: "controls_ok s" by (rule controls.reachable_inv [OF assms(1)])
  have ok1: "controls_ok s1" by (rule controls_ok_step [OF ok control_step.acknowledge [OF assms(3,2)]])
  obtain h p alerts key where ctx: "runbook_context tid window now s = Inr (h, p, alerts)" "incident_key alerts = Some key"
    and a: "a \<in> set (acks s1)" "open_ack tid key a" "ak_acknowledged_by a = Some (us_id u)"
    and s1: "\<exists>x. s1 = s\<lparr>acks := x\<rparr>"
    using assms(3)
  proof (cases rule: acknowledge_incident_cases)
    case (first h p alerts key)
    then show ?thesis by (intro that) (auto simp: open_ack_def acknowledged_by_def blank_ack_def)
  next
    case (again h p alerts key b)
    from open_ack_unique(2) [OF ok again(3)] have "b \<in> set (acks s)" "open_ack tid key b" by auto
    with again show ?thesis
      by (intro that) (auto simp: open_ack_def acknowledged_by_def update_ack_def row_update_def intro!: image_eqI [of _ _ b])
  qed auto
  from s1 ctx(1) have ctx1: "runbook_context tid window now s1 = Inr (h, p, alerts)" by (auto simp: runbook_context_acks)
  let ?s2 = "update_ack (ak_id a) (resolved_by v note2 resolved) s1"
  have found: "open_acknowledgement tid (Some key) s1 = Inr (Some a)" by (rule open_acknowledgement_found [OF ok1 a(1,2)])
  have "runbook_context tid window now ?s2 = Inr (h, p, alerts)" using ctx1 by (simp add: update_ack_def runbook_context_acks)
  with open_acknowledgement_resolved [OF ok1 a(1,2)] ctx(2) have "get_acknowledgement tid window now ?s2 = Inr None"
    "fst (resolve_incident now later tid w note3 window ?s2) =
      Inl (HTTPException 409 ''No acknowledged dispatch incident to resolve.'')"
    by (simp_all add: get_acknowledgement_def resolve_incident_def)
  moreover have "resolve_incident now resolved tid v note2 window s1 = (Inr (resolved_by v note2 resolved a), ?s2)"
    using ctx1 ctx(2) found by (simp add: resolve_incident_def)
  moreover have ids: "distinct (map ak_id (acks s1))" using ok1 by (simp add: controls_ok_def)
  then have same: "ak_id x = ak_id a \<longleftrightarrow> x = a" if "x \<in> set (acks s1)" for x
    using that a(1) by (auto simp: distinct_map inj_on_def)
  moreover have "?s2 = s1\<lparr>acks := map (\<lambda>x. if x = a then resolved_by v note2 resolved a else x) (acks s1)\<rparr>"
    using same by (auto simp: update_ack_def row_update_def intro!: arg_cong [where f = "\<lambda>x. s1\<lparr>acks := x\<rparr>"])
  moreover have "row_count (\<lambda>x. x = a) (acks s1) = 1"
    using a(1) ids by (simp add: row_count_once distinct_map)
  moreover have "get_acknowledgement tid window now s1 = Inr (Some a)"
    using ctx1 ctx(2) found by (simp add: get_acknowledgement_def)
  ultimately show ?thesis using a(3) by blast
qed

text \<open>
  The statistics of incidents add up. Resolved and open incidents make up the total, the days
  and the severities each distribute the total, the resolved, the open and the breaches completely,
  and the trend has exactly the days of the window, each once and in the order of their texts,
  whether anything happened on them or not.
\<close>

theorem incident_analytics_adds_up:
  fixes tid :: uuid and days :: nat and sla :: int and now :: instant and s :: db
  defines "r \<equiv> get_incident_analytics tid days sla now s"
  assumes "\<forall>a \<in> set (acks s). ak_tenant_id a = tid \<longrightarrow> ak_created_at a \<le> now"
    and "0 \<le> window_start days now" "datetime_range now"
  shows "ia_total r = ia_resolved r + ia_open r \<and> ia_sla_breaches r \<le> ia_total r \<and>
    set (map fst (ia_trends r)) = set (window_days days now) \<and> length (ia_trends r) = days \<and>
    distinct (map fst (ia_trends r)) \<and> sorted (map fst (ia_trends r)) \<and>
    (\<Sum>d\<leftarrow>ia_trends r. td_acknowledged (snd d)) = ia_total r \<and> (\<Sum>d\<leftarrow>ia_trends r. td_resolved (snd d)) = ia_resolved r \<and>
    (\<Sum>d\<leftarrow>ia_trends r. td_open (snd d)) = ia_open r \<and> (\<Sum>d\<leftarrow>ia_trends r. td_sla_breaches (snd d)) = ia_sla_breaches r \<and>
    (\<Sum>v\<leftarrow>ia_by_severity r. si_total v) = ia_total r \<and> (\<Sum>v\<leftarrow>ia_by_severity r. si_resolved v) = ia_resolved r \<and>
    (\<Sum>v\<leftarrow>ia_by_severity r. si_open v) = ia_open r \<and> (\<Sum>v\<leftarrow>ia_by_severity r. si_sla_breaches v) = ia_sla_breaches r"
proof -
  let ?rows = "incident_rows tid days now s" and ?start = "empty_tally (window_days days now)"
  let ?t = "foldl (tally_row now sla) ?start ?rows"
  have up: "tally_adds_up (length ?rows) ?t" using tally_fold_adds_up [OF empty_tally_adds_up] by simp
  have t0: "distinct (map fst (ty_trends ?start))" "fst ` set (ty_trends ?start) = set (window_days days now)"
    using dupdate_keys [of "[]" "map (\<lambda>d. (d, no_trend)) (window_days days now)"]
    by (auto simp: empty_tally_def image_image)
  have "day_text (ak_created_at a) \<in> set (window_days days now)" if "a \<in> set ?rows" for a
    using that assms(2) by (intro day_in_window) (auto simp: incident_rows_def)
  then have "(\<lambda>a. day_text (ak_created_at a)) ` set ?rows \<subseteq> set (window_days days now)" by (rule image_subsetI)
  then have keys: "distinct (map fst (ty_trends ?t))" "fst ` set (ty_trends ?t) = set (window_days days now)"
    using tally_fold_days [OF t0(1), of now sla ?rows] by (simp_all add: t0(2) Un_absorb2)
  then have "length (ty_trends ?t) = card (set (window_days days now))"
    by (metis distinct_card length_map list.set_map)
  also have "\<dots> = days" unfolding distinct_card [OF distinct_window_days [OF assms(3,4)]] by (simp add: window_days_def)
  finally have len: "length (ty_trends ?t) = days" .
  have "mset (map fst (sort_key fst (ty_trends ?t))) = mset (map fst (ty_trends ?t))" by simp
  with keys(1) have dist: "distinct (map fst (sort_key fst (ty_trends ?t)))" by (metis mset_eq_imp_distinct_iff)
  have sums: "(\<Sum>d\<leftarrow>sort_key fst (ty_trends ?t). f (snd d)) = dsum f (ty_trends ?t)" for f :: "trend \<Rightarrow> nat"
    using dsum_sort_key [of f fst "ty_trends ?t"] by (simp add: dsum_def)
  have sevs: "(\<Sum>d\<leftarrow>sort_key g (ty_severities ?t). f (snd d)) = dsum f (ty_severities ?t)"
    for f :: "severity_stats \<Rightarrow> nat" and g :: "string \<times> severity_stats \<Rightarrow> nat \<times> string"
    using dsum_sort_key [of f g "ty_severities ?t"] by (simp add: dsum_def)
  from up show ?thesis
    unfolding r_def get_incident_analytics_def Let_def
    using keys len dist by (simp add: tally_adds_up_def sums sevs severity_item_of_def comp_def)
qed


text \<open>The witnesses: a paused workflow, acknowledged and resolved; one incident in a window of three days.\<close>

definition incident_db :: db where
  "incident_db = empty_db\<lparr>tenants := [sample_tenant ''t1'' 1000 0],
    workflows := [(sample_workflow ''w1'' diamond ''linear'')\<lparr>wf_dispatch_paused := True\<rparr>]\<rparr>"

definition sample_user :: "uuid \<Rightarrow> user" where
  "sample_user i = \<lparr>us_id = i, us_tenant_id = ''t1'', us_email = i @ ''@example.org'', us_password_hash = [],
    us_full_name = None, us_role = ''owner'', us_is_active = True, us_must_change_password = False, us_created_at = 0\<rparr>"

definition acknowledged :: "(http_error + incident_ack) \<times> db" where
  "acknowledged = acknowledge_incident \<lparr>rw_id = ''i1'', rw_created = 1, rw_nonce = []\<rparr> 1 ''t1'' (sample_user ''ann'') None 24 incident_db"

lemma incident_db_reachable: "reachable (\<lambda>s. s = empty_db) control_step incident_db"
proof -
  have "reachable (\<lambda>s. s = empty_db) control_step empty_db" by (rule reachable.base) simp
  moreover have "control_step empty_db incident_db" by (rule control_step.elsewhere) (simp_all add: incident_db_def)
  ultimately show ?thesis by (rule reachable.more)
qed

lemma acknowledged_row: "\<exists>a s1. acknowledged = (Inr a, s1)"
proof -
  have "\<not> isl (fst acknowledged)" by code_simp
  then show ?thesis by (metis isl_def prod.collapse sum.exhaust_sel)
qed

theorem one_open_incident_and_plan_witness:
  "length (filter (\<lambda>a. ak_tenant_id a = ''t1'' \<and> ak_incident_key a = ''dispatch:dispatch_paused'' \<and>
      ak_status a = ''acknowledged'') (acks (snd acknowledged))) = 1"
proof -
  have "control_step incident_db (snd acknowledged)"
    unfolding acknowledged_def by (rule control_step.acknowledge [OF prod.collapse [symmetric]]) (simp add: incident_db_def empty_db_def)
  then have "reachable (\<lambda>s. s = empty_db) control_step (snd acknowledged)" by (rule reachable.more [OF incident_db_reachable])
  from one_open_incident_and_plan [OF this, of "''t1''" "''dispatch:dispatch_paused''"]
  have "length (filter (\<lambda>a. ak_tenant_id a = ''t1'' \<and> ak_incident_key a = ''dispatch:dispatch_paused'' \<and>
      ak_status a = ''acknowledged'') (acks (snd acknowledged))) \<le> 1" by blast
  moreover have "map (open_ack ''t1'' ''dispatch:dispatch_paused'') (acks (snd acknowledged)) = [True]" by code_simp
  then have "0 < length (filter (open_ack ''t1'' ''dispatch:dispatch_paused'') (acks (snd acknowledged)))"
    by (auto simp: map_eq_Cons_conv)
  ultimately show ?thesis unfolding open_ack_def [abs_def] by linarith
qed

theorem acknowledge_resolve_roundtrip_witness:
  "\<exists>a s1 s2. acknowledged = (Inr a, s1) \<and> get_acknowledgement ''t1'' 24 1 s1 = Inr (Some a) \<and>
    fst (resolve_incident 1 9 ''t1'' (sample_user ''bob'') None 24 s1) = Inr (resolved_by (sample_user ''bob'') None 9 a) \<and>
    snd (resolve_incident 1 9 ''t1'' (sample_user ''bob'') None 24 s1) = s2 \<and> get_acknowledgement ''t1'' 24 1 s2 = Inr None"
proof -
  obtain a s1 where a: "acknowledged = (Inr a, s1)" using acknowledged_row by blast
  have "\<not> (rw_id \<lparr>rw_id = ''i1'', rw_created = 1, rw_nonce = []\<rparr> \<in> ak_id ` set (acks incident_db))"
    by (simp add: incident_db_def empty_db_def)
  from acknowledge_resolve_roundtrip [OF incident_db_reachable this a [unfolded acknowledged_def],
      of 9 "sample_user ''bob''" None] obtain s2 where "get_acknowledgement ''t1'' 24 1 s1 = Inr (Some a)"
    "resolve_incident 1 9 ''t1'' (sample_user ''bob'') None 24 s1 = (Inr (resolved_by (sample_user ''bob'') None 9 a), s2)"
    "get_acknowledgement ''t1'' 24 1 s2 = Inr None" by blast
  with a show ?thesis by (intro exI [of _ a] exI [of _ s1] exI [of _ s2]) simp
qed

definition one_ack :: incident_ack where
  "one_ack = (acknowledged_by (sample_user ''ann'') [] None (blank_ack ''i1'' (5 * us_per_day) ''t1'' ''k''))"

theorem incident_analytics_adds_up_witness:
  "(let r = get_incident_analytics ''t1'' 3 60 (6 * us_per_day) (empty_db\<lparr>acks := [one_ack]\<rparr>) in
    ia_total r = 1 \<and> length (ia_trends r) = 3 \<and> ia_open r + ia_resolved r = 1)"
proof -
  have a: "\<forall>a \<in> set (acks (empty_db\<lparr>acks := [one_ack]\<rparr>)). ak_tenant_id a = ''t1'' \<longrightarrow> ak_created_at a \<le> 6 * us_per_day"
    by (simp add: one_ack_def acknowledged_by_def blank_ack_def us_per_day_def)
  have b: "0 \<le> window_start 3 (6 * us_per_day)" by (simp add: window_start_def start_of_day_def us_per_day_def)
  have c: "datetime_range (6 * us_per_day)" by (simp add: datetime_range_def us_per_day_def)
  have "ia_total (get_incident_analytics ''t1'' 3 60 (6 * us_per_day) (empty_db\<lparr>acks := [one_ack]\<rparr>)) = 1"
    by (simp add: get_incident_analytics_def Let_def incident_rows_def one_ack_def acknowledged_by_def blank_ack_def
        window_start_def start_of_day_def us_per_day_def)
  with incident_analytics_adds_up [OF a b c, of 60] show ?thesis by (simp add: Let_def)
qed

end
