(* ===== verification/Dashboards.thy ===== *)
theory Dashboards
  imports Incidents
begin

text \<open>
  The dashboard, \<open>app/services/analytics_service.py\<close>: the overview of a period, the daily costs, the
  costs per workflow, the cache in front of them, and the export of executions as CSV or JSON.
  Costs are exact numbers; \<open>round\<close> rounds halves to even.
\<close>

section \<open>The cache\<close>

record overview =
  ov_total_executions :: nat
  ov_successful :: nat
  ov_failed :: nat
  ov_tokens_used :: int
  ov_total_cost :: rat
  ov_success_rate :: "rat option"

record timeline_item =
  ti_day :: string
  ti_daily_cost :: rat
  ti_executions_count :: nat

record breakdown_item =
  bi_workflow_id :: uuid
  bi_workflow_name :: string
  bi_runs :: nat
  bi_cost :: rat
  bi_avg_duration_sec :: "rat option"
  bi_cost_percentage :: rat

datatype dash_value = Overview overview | Timeline "timeline_item list" | Breakdown "breakdown_item list"

type_synonym cache = "(string, instant \<times> dash_value) dict"

definition CACHE_TTL :: int where
  "CACHE_TTL = 60"

text \<open>Every caller passes one further argument, so there is nothing to sort.\<close>

definition cache_key :: "uuid \<Rightarrow> string \<Rightarrow> string \<Rightarrow> string \<Rightarrow> string" where
  "cache_key tid pre name v = join '':'' [pre, tid, name @ ''='' @ v]"

definition get_cached :: "string \<Rightarrow> instant \<Rightarrow> cache \<Rightarrow> dash_value option \<times> cache" where
  "get_cached key now c =
    (case dget key c of
      None \<Rightarrow> (None, c)
    | Some (ts, v) \<Rightarrow> if now - ts < seconds CACHE_TTL then (Some v, c) else (None, dpop key c))"

definition set_cached :: "string \<Rightarrow> instant \<Rightarrow> dash_value \<Rightarrow> cache \<Rightarrow> cache" where
  "set_cached key now v c = dset key (now, v) c"

text \<open>\<open>k.split(":")[1] == tenant_key\<close>, for keys of more than one part.\<close>

definition invalidate_tenant_cache :: "uuid \<Rightarrow> cache \<Rightarrow> cache" where
  "invalidate_tenant_cache tid c = filter (\<lambda>p. case py_split (CHR '':'') (fst p) of
    _ # t # _ \<Rightarrow> t \<noteq> tid | _ \<Rightarrow> True) c"

text \<open>The clock is read for the look-up, for the computation, and for the new entry.\<close>

record dash_clock =
  dk_read :: instant
  dk_now :: instant
  dk_set :: instant

definition through_cache :: "string \<Rightarrow> dash_clock \<Rightarrow> (instant \<Rightarrow> dash_value) \<Rightarrow> cache \<Rightarrow> dash_value \<times> cache" where
  "through_cache key ck compute c =
    (case get_cached key (dk_read ck) c of
      (Some v, c1) \<Rightarrow> (v, c1)
    | (None, c1) \<Rightarrow> (let v = compute (dk_now ck) in (v, set_cached key (dk_set ck) v c1)))"

section \<open>The period\<close>

definition round4 :: "rat \<Rightarrow> rat" where
  "round4 x = of_int (round_half_even (x * 10000)) / 10000"

definition round2 :: "rat \<Rightarrow> rat" where
  "round2 x = of_int (round_half_even (x * 100)) / 100"

definition month_start :: "instant \<Rightarrow> instant" where
  "month_start now = (case civil (nat (now div us_per_day)) of (y, m, d) \<Rightarrow> int (day_number y m 1) * us_per_day)"

text \<open>\<open>weekday()\<close>: day 0 of the calendar is a Monday.\<close>

definition weekday :: "instant \<Rightarrow> int" where
  "weekday now = now div us_per_day mod 7"

definition period_start :: "string \<Rightarrow> instant \<Rightarrow> instant" where
  "period_start period now =
    (if period = ''week'' then start_of_day (now - weekday now * us_per_day) else month_start now)"

section \<open>Overview\<close>

definition period_rows :: "uuid \<Rightarrow> instant \<Rightarrow> db \<Rightarrow> execution list" where
  "period_rows tid start s = filter (\<lambda>e. ex_tenant_id e = tid \<and> start \<le> ex_created_at e) (executions s)"

definition cost_of :: "execution list \<Rightarrow> rat" where
  "cost_of es = sum_list (map ex_total_cost es)"

definition compute_overview :: "uuid \<Rightarrow> string \<Rightarrow> db \<Rightarrow> instant \<Rightarrow> overview" where
  "compute_overview tid period s now =
    (let rows = period_rows tid (period_start period now) s;
         successful = row_count (\<lambda>e. ex_status e = ExCompleted) rows in
     \<lparr>ov_total_executions = length rows, ov_successful = successful,
      ov_failed = row_count (\<lambda>e. ex_status e = ExFailed) rows,
      ov_tokens_used = sum_list (map ex_total_tokens rows), ov_total_cost = round4 (cost_of rows),
      ov_success_rate = (if rows = [] then None
        else Some (round1 (of_nat successful / of_nat (length rows) * 100)))\<rparr>)"

definition get_overview :: "uuid \<Rightarrow> string \<Rightarrow> dash_clock \<Rightarrow> db \<Rightarrow> cache \<Rightarrow> dash_value \<times> cache" where
  "get_overview tid period ck s =
    through_cache (cache_key tid ''overview'' ''period'' period) ck (\<lambda>now. Overview (compute_overview tid period s now))"

section \<open>Cost timeline\<close>

text \<open>The query's groups by day, with the sum of the costs and the count.\<close>

definition day_groups :: "execution list \<Rightarrow> (string, rat \<times> nat) dict" where
  "day_groups rows = map (\<lambda>d. (d, (cost_of (filter (\<lambda>e. day_text (ex_created_at e) = d) rows),
      row_count (\<lambda>e. day_text (ex_created_at e) = d) rows)))
    (sort (remdups (map (\<lambda>e. day_text (ex_created_at e)) rows)))"

definition end_of_day :: "instant \<Rightarrow> instant" where
  "end_of_day now = start_of_day now + us_per_day - 1"

text \<open>The loop over the days, \<open>while current <= end\<close>.\<close>

function timeline_days :: "instant \<Rightarrow> instant \<Rightarrow> instant list" where
  "timeline_days current stop =
    (if current \<le> stop then current # timeline_days (current + us_per_day) stop else [])"
  by pat_completeness auto
termination
  by (relation "measure (\<lambda>(current, stop). nat (stop + 1 - current))") (auto simp: us_per_day_def)

declare timeline_days.simps [simp del]

definition timeline_item_of :: "(string, rat \<times> nat) dict \<Rightarrow> instant \<Rightarrow> timeline_item" where
  "timeline_item_of groups t =
    (let (cost, count) = (case dget (day_text t) groups of None \<Rightarrow> (0, 0) | Some p \<Rightarrow> p) in
     \<lparr>ti_day = day_text t, ti_daily_cost = round4 cost, ti_executions_count = count\<rparr>)"

definition compute_timeline :: "uuid \<Rightarrow> nat \<Rightarrow> db \<Rightarrow> instant \<Rightarrow> timeline_item list" where
  "compute_timeline tid days s now =
    (let start = window_start days now; groups = day_groups (period_rows tid start s) in
     map (timeline_item_of groups) (timeline_days start (end_of_day now)))"

definition get_cost_timeline :: "uuid \<Rightarrow> nat \<Rightarrow> dash_clock \<Rightarrow> db \<Rightarrow> cache \<Rightarrow> dash_value \<times> cache" where
  "get_cost_timeline tid days ck s =
    through_cache (cache_key tid ''cost_timeline'' ''days'' (show_nat days)) ck (\<lambda>now. Timeline (compute_timeline tid days s now))"

section \<open>Workflow breakdown\<close>

text \<open>The inner join with the workflows, grouped by workflow, by descending cost.\<close>

definition breakdown_groups :: "execution list \<Rightarrow> db \<Rightarrow> (workflow \<times> execution list) list" where
  "breakdown_groups rows s =
    sort_key (\<lambda>g. - cost_of (snd g))
      (filter (\<lambda>g. snd g \<noteq> []) (map (\<lambda>w. (w, filter (\<lambda>e. ex_workflow_id e = wf_id w) rows)) (workflows s)))"

definition durations_of :: "execution list \<Rightarrow> rat list" where
  "durations_of es = concat (map (\<lambda>e. case (ex_started_at e, ex_completed_at e) of
    (Some a, Some b) \<Rightarrow> [of_int (b - a) / 1000000] | _ \<Rightarrow> []) es)"

definition breakdown_item_of :: "rat \<Rightarrow> workflow \<times> execution list \<Rightarrow> breakdown_item" where
  "breakdown_item_of whole g =
    (let cost = cost_of (snd g); durations = durations_of (snd g) in
     \<lparr>bi_workflow_id = wf_id (fst g), bi_workflow_name = wf_name (fst g), bi_runs = length (snd g),
      bi_cost = round4 cost,
      bi_avg_duration_sec = (if durations = [] then None
        else Some (round2 (sum_list durations / of_nat (length durations)))),
      bi_cost_percentage = (if whole > 0 then round1 (cost / whole * 100) else 0)\<rparr>)"

definition compute_breakdown :: "uuid \<Rightarrow> string \<Rightarrow> db \<Rightarrow> instant \<Rightarrow> breakdown_item list" where
  "compute_breakdown tid period s now =
    (let groups = breakdown_groups (period_rows tid (period_start period now) s) s in
     map (breakdown_item_of (sum_list (map (\<lambda>g. cost_of (snd g)) groups))) groups)"

definition get_workflow_breakdown :: "uuid \<Rightarrow> string \<Rightarrow> dash_clock \<Rightarrow> db \<Rightarrow> cache \<Rightarrow> dash_value \<times> cache" where
  "get_workflow_breakdown tid period ck s =
    through_cache (cache_key tid ''workflow_breakdown'' ''period'' period) ck
      (\<lambda>now. Breakdown (compute_breakdown tid period s now))"

section \<open>Export\<close>

record export_row =
  xr_execution_id :: uuid
  xr_workflow_name :: string
  xr_status :: string
  xr_tokens :: int
  xr_cost :: rat
  xr_started_at :: "string option"
  xr_completed_at :: "string option"

definition EXPORT_LIMIT :: nat where
  "EXPORT_LIMIT = 50000"

definition exported :: "uuid \<Rightarrow> instant option \<Rightarrow> instant option \<Rightarrow> execution \<Rightarrow> bool" where
  "exported tid from_date to_date e \<longleftrightarrow> ex_tenant_id e = tid \<and>
    (case from_date of None \<Rightarrow> True | Some t \<Rightarrow> t \<le> ex_created_at e) \<and>
    (case to_date of None \<Rightarrow> True | Some t \<Rightarrow> ex_created_at e \<le> t)"

definition export_row_of :: "execution \<times> workflow \<Rightarrow> export_row" where
  "export_row_of p = \<lparr>xr_execution_id = ex_id (fst p), xr_workflow_name = wf_name (snd p),
    xr_status = status_text (ex_status (fst p)), xr_tokens = ex_total_tokens (fst p),
    xr_cost = round4 (ex_total_cost (fst p)), xr_started_at = map_option isoformat (ex_started_at (fst p)),
    xr_completed_at = map_option isoformat (ex_completed_at (fst p))\<rparr>"

text \<open>The inner join: executions with their workflow.\<close>

definition joined :: "execution list \<Rightarrow> db \<Rightarrow> (execution \<times> workflow) list" where
  "joined es s = concat (map (\<lambda>e. map (\<lambda>w. (e, w)) (filter (\<lambda>w. wf_id w = ex_workflow_id e) (workflows s))) es)"

definition get_export_data :: "uuid \<Rightarrow> instant option \<Rightarrow> instant option \<Rightarrow> nat \<Rightarrow> db \<Rightarrow> export_row list" where
  "get_export_data tid from_date to_date limit s =
    map export_row_of (take limit (joined (sort_key (\<lambda>e. - ex_created_at e)
      (filter (exported tid from_date to_date) (executions s))) s))"

text \<open>
  \<open>csv.writer\<close> with its defaults: a field is quoted when it contains the separator, the quote or a
  character of the line end, and quotes in it are doubled. \<open>None\<close> is an empty field.
\<close>

definition QUOTE :: char where
  "QUOTE = CHR 0x22"

definition needs_quotes :: "string \<Rightarrow> bool" where
  "needs_quotes x \<longleftrightarrow> list_ex (\<lambda>c. c \<in> {CHR '','', QUOTE, CHR 0x0D, CHR 0x0A}) x"

definition double_quotes :: "string \<Rightarrow> string" where
  "double_quotes x = concat (map (\<lambda>c. if c = QUOTE then [QUOTE, QUOTE] else [c]) x)"

definition csv_field :: "string \<Rightarrow> string" where
  "csv_field x = (if needs_quotes x then QUOTE # double_quotes x @ [QUOTE] else x)"

definition csv_line :: "string list \<Rightarrow> string" where
  "csv_line cells = join '','' (map csv_field cells) @ CRLF"

text \<open>
  The text of a number with at most four decimals, below \<open>10 ^ 16\<close>: at least one decimal is written.
\<close>

fun drop_zeros :: "string \<Rightarrow> string" where
  "drop_zeros [] = []"
| "drop_zeros [c] = [c]"
| "drop_zeros (c # d # x) = (if c = CHR ''0'' then drop_zeros (d # x) else c # d # x)"

definition show_cost :: "rat \<Rightarrow> string" where
  "show_cost x =
    (let n = nat (floor (\<bar>x\<bar> * 10000)) in
     (if x < 0 then ''-'' else []) @ show_nat (n div 10000) @ ''.'' @ rev (drop_zeros (rev (pad 4 (n mod 10000)))))"

definition csv_header :: "string list" where
  "csv_header = [''execution_id'', ''workflow_name'', ''status'', ''tokens'', ''cost'', ''started_at'', ''completed_at'']"

definition csv_fields :: "export_row \<Rightarrow> string list" where
  "csv_fields r = [xr_execution_id r, xr_workflow_name r, xr_status r, show_int (xr_tokens r), show_cost (xr_cost r),
    (case xr_started_at r of None \<Rightarrow> [] | Some t \<Rightarrow> t), (case xr_completed_at r of None \<Rightarrow> [] | Some t \<Rightarrow> t)]"

definition export_rows_to_csv :: "export_row list \<Rightarrow> string" where
  "export_rows_to_csv rows = csv_line csv_header @ concat (map (\<lambda>r. csv_line (csv_fields r)) rows)"


text \<open>The endpoint \<open>GET /analytics/export\<close>: the dates, then the rows in one of two formats.\<close>

definition parse_iso_datetime :: "string \<Rightarrow> string \<Rightarrow> http_error + instant" where
  "parse_iso_datetime v label =
    (case fromisoformat v of
      None \<Rightarrow> Inl (HTTPException 400 (''Invalid '' @ quoted label @ '' date format. Use ISO format: YYYY-MM-DD''))
    | Some (Naive t) \<Rightarrow> Inr t
    | Some (Aware t) \<Rightarrow> Inr t)"

text \<open>An absent or empty parameter is no bound.\<close>

definition parse_bound :: "string option \<Rightarrow> string \<Rightarrow> http_error + instant option" where
  "parse_bound v label =
    (case v of
      None \<Rightarrow> Inr None
    | Some x \<Rightarrow> if x = [] then Inr None else (case parse_iso_datetime x label of Inl err \<Rightarrow> Inl err | Inr t \<Rightarrow> Inr (Some t)))"

datatype export_answer = CsvFile string | JsonRows "export_row list"

definition export_data :: "uuid \<Rightarrow> string \<Rightarrow> string option \<Rightarrow> string option \<Rightarrow> db \<Rightarrow> http_error + export_answer" where
  "export_data tid format from_date to_date s =
    (case parse_bound from_date ''from'' of
      Inl err \<Rightarrow> Inl err
    | Inr a \<Rightarrow>
       (case parse_bound to_date ''to'' of
         Inl err \<Rightarrow> Inl err
       | Inr b \<Rightarrow>
          if (case (a, b) of (Some x, Some y) \<Rightarrow> y < x | _ \<Rightarrow> False) then
            Inl (HTTPException 400 (quoted ''from'' @ '' date must be less than or equal to '' @ quoted ''to'' @ '' date''))
          else
            (let rows = get_export_data tid a b EXPORT_LIMIT s in
             if format = ''csv'' then Inr (CsvFile (export_rows_to_csv rows)) else Inr (JsonRows rows))))"

section \<open>Requests\<close>

datatype dash_query = OverviewQ string | TimelineQ nat | BreakdownQ string

fun dash_compute :: "uuid \<Rightarrow> dash_query \<Rightarrow> db \<Rightarrow> instant \<Rightarrow> dash_value" where
  "dash_compute tid (OverviewQ period) s now = Overview (compute_overview tid period s now)"
| "dash_compute tid (TimelineQ days) s now = Timeline (compute_timeline tid days s now)"
| "dash_compute tid (BreakdownQ period) s now = Breakdown (compute_breakdown tid period s now)"

fun dash_key :: "uuid \<Rightarrow> dash_query \<Rightarrow> string" where
  "dash_key tid (OverviewQ period) = cache_key tid ''overview'' ''period'' period"
| "dash_key tid (TimelineQ days) = cache_key tid ''cost_timeline'' ''days'' (show_nat days)"
| "dash_key tid (BreakdownQ period) = cache_key tid ''workflow_breakdown'' ''period'' period"

fun dash_serve :: "uuid \<Rightarrow> dash_query \<Rightarrow> dash_clock \<Rightarrow> db \<Rightarrow> cache \<Rightarrow> dash_value \<times> cache" where
  "dash_serve tid (OverviewQ period) ck s c = get_overview tid period ck s c"
| "dash_serve tid (TimelineQ days) ck s c = get_cost_timeline tid days ck s c"
| "dash_serve tid (BreakdownQ period) ck s c = get_workflow_breakdown tid period ck s c"

lemma dash_serve_alt: "dash_serve tid q ck s = through_cache (dash_key tid q) ck (dash_compute tid q s)"
proof (rule ext)
  fix c
  have "dash_compute tid (OverviewQ period) s = (\<lambda>now. Overview (compute_overview tid period s now))"
    "dash_compute tid (TimelineQ days) s = (\<lambda>now. Timeline (compute_timeline tid days s now))"
    "dash_compute tid (BreakdownQ period) s = (\<lambda>now. Breakdown (compute_breakdown tid period s now))" for period days
    by auto
  then show "dash_serve tid q ck s c = through_cache (dash_key tid q) ck (dash_compute tid q s) c"
    by (cases q) (simp_all add: get_overview_def get_cost_timeline_def get_workflow_breakdown_def)
qed

text \<open>What the router accepts: the two periods, and at least one day.\<close>

fun valid_query :: "dash_query \<Rightarrow> bool" where
  "valid_query (OverviewQ period) = (period \<in> {''month'', ''week''})"
| "valid_query (TimelineQ days) = (1 \<le> days \<and> days \<le> 365)"
| "valid_query (BreakdownQ period) = (period \<in> {''month'', ''week''})"

text \<open>
  The process: the database changes in any way, requests of tenants go through the cache, a new
  execution clears the entries of its tenant. The history holds each request's clock with the
  database it was served on.
\<close>

record dash_state =
  ds_db :: db
  ds_cache :: cache
  ds_history :: "(dash_clock \<times> db) list"

inductive dash_step :: "dash_state \<Rightarrow> dash_state \<Rightarrow> bool" where
  work: "dash_step x (x\<lparr>ds_db := s\<rparr>)"
| invalidate: "dash_step x (x\<lparr>ds_cache := invalidate_tenant_cache tid (ds_cache x)\<rparr>)"
| request: "dash_serve tid q ck (ds_db x) (ds_cache x) = (v, c) \<Longrightarrow> valid_query q \<Longrightarrow> CHR '':'' \<notin> set tid \<Longrightarrow>
    dash_step x (x\<lparr>ds_cache := c, ds_history := ds_history x @ [(ck, ds_db x)]\<rparr>)"

definition dash_start :: "dash_state \<Rightarrow> bool" where
  "dash_start x \<longleftrightarrow> ds_cache x = [] \<and> ds_history x = []"

text \<open>Each entry was computed for the query of its key, on a database of the history.\<close>

definition entry_ok :: "(dash_clock \<times> db) list \<Rightarrow> string \<times> instant \<times> dash_value \<Rightarrow> bool" where
  "entry_ok hist e \<longleftrightarrow> (\<exists>tid q ck s. fst e = dash_key tid q \<and> valid_query q \<and> CHR '':'' \<notin> set tid \<and>
    (ck, s) \<in> set hist \<and> snd e = (dk_set ck, dash_compute tid q s (dk_now ck)))"

definition cache_ok :: "dash_state \<Rightarrow> bool" where
  "cache_ok x \<longleftrightarrow> (\<forall>e \<in> set (ds_cache x). entry_ok (ds_history x) e)"


section \<open>The keys of the cache\<close>

lemma split_at_unique: "c \<notin> set x \<Longrightarrow> c \<notin> set x' \<Longrightarrow> x @ c # y = x' @ c # y' \<Longrightarrow> x = x' \<and> y = y'"
  by (induction x arbitrary: x') (auto simp: Cons_eq_append_conv)

lemma cache_key_eq:
  assumes "cache_key tid pre name v = cache_key tid' pre' name' v'" "CHR '':'' \<notin> set tid \<union> set tid' \<union> set pre \<union> set pre'"
  shows "pre = pre' \<and> tid = tid' \<and> name @ ''='' @ v = name' @ ''='' @ v'"
proof -
  from assms(1) have "pre @ CHR '':'' # tid @ CHR '':'' # name @ ''='' @ v = pre' @ CHR '':'' # tid' @ CHR '':'' # name' @ ''='' @ v'"
    by (simp add: cache_key_def)
  from split_at_unique [OF _ _ this] assms(2)
  have "pre = pre'" "tid @ CHR '':'' # name @ ''='' @ v = tid' @ CHR '':'' # name' @ ''='' @ v'" by auto
  with split_at_unique [OF _ _ this(2)] assms(2) show ?thesis by auto
qed

lemma dash_key_eq:
  assumes "dash_key tid q = dash_key tid' q'" "CHR '':'' \<notin> set tid" "CHR '':'' \<notin> set tid'"
  shows "tid = tid' \<and> q = q'"
proof -
  have nat_eq: "n = m" if "show_nat n = show_nat m" for n m
    using arg_cong [OF that, of digits_value] by (simp only: digits_value_show)
  define shape where "shape r = (case r of OverviewQ p \<Rightarrow> (''overview'', ''period'', p)
    | TimelineQ n \<Rightarrow> (''cost_timeline'', ''days'', show_nat n) | BreakdownQ p \<Rightarrow> (''workflow_breakdown'', ''period'', p))" for r
  have key: "dash_key t r = (case shape r of (pre, name, v) \<Rightarrow> cache_key t pre name v)" for t r
    by (cases r) (simp_all add: shape_def)
  obtain pre name v where r: "shape q = (pre, name, v)" by (cases "shape q")
  obtain pre' name' v' where r': "shape q' = (pre', name', v')" by (cases "shape q'")
  have no: "CHR '':'' \<notin> set (fst (shape r))" for r by (cases r) (simp_all add: shape_def)
  have "CHR '':'' \<notin> set tid \<union> set tid' \<union> set pre \<union> set pre'"
    using assms(2,3) no [of q] no [of q'] r r' by simp
  from cache_key_eq [OF _ this] assms(1) key [of tid q] key [of tid' q'] r r'
  have "pre = pre'" and tid: "tid = tid'" and nv: "name @ ''='' @ v = name' @ ''='' @ v'" by simp_all
  then show ?thesis using r r' nat_eq
    by (cases q; cases q'; simp add: shape_def; elim conjE; hypsubst; simp)
qed

lemma py_split_first: "c \<notin> set x \<Longrightarrow> py_split c (x @ c # y) = x # py_split c y"
  by (induction x) auto

lemma py_split_nonempty: "py_split c x \<noteq> []"
  by (induction x) (auto split: list.split)

lemma dash_key_invalidated:
  assumes "CHR '':'' \<notin> set tid"
  shows "dget (dash_key tid q) (invalidate_tenant_cache tid c) = None"
proof -
  have split: "\<exists>x xs. py_split (CHR '':'') (cache_key tid pre name v) = pre # tid # x # xs" if "CHR '':'' \<notin> set pre" for pre name v
  proof -
    have "cache_key tid pre name v = pre @ CHR '':'' # tid @ CHR '':'' # name @ ''='' @ v" by (simp add: cache_key_def)
    with py_split_first [OF that] py_split_first [OF assms] py_split_nonempty [of "CHR '':''" "name @ ''='' @ v"]
    show ?thesis by (cases "py_split (CHR '':'') (name @ ''='' @ v)") auto
  qed
  obtain pre name v where "CHR '':'' \<notin> set pre" "dash_key tid q = cache_key tid pre name v"
  proof (cases q)
    case (OverviewQ period)
    then show ?thesis by (intro that [of "''overview''"]) simp_all
  next
    case (TimelineQ days)
    then show ?thesis by (intro that [of "''cost_timeline''"]) simp_all
  next
    case (BreakdownQ period)
    then show ?thesis by (intro that [of "''workflow_breakdown''"]) simp_all
  qed
  with split obtain x xs where "py_split (CHR '':'') (dash_key tid q) = pre # tid # x # xs" by fastforce
  then show ?thesis by (auto simp: dget_None_iff invalidate_tenant_cache_def)
qed

lemma cache_ok_step:
  assumes "cache_ok x" "dash_step x y"
  shows "cache_ok y"
  using assms(2)
proof cases
  case (request tid q ck v c)
  let ?h = "ds_history x @ [(ck, ds_db x)]"
  have grow: "entry_ok ?h e" if "entry_ok (ds_history x) e" for e
    using that by (fastforce simp: entry_ok_def)
  have new: "entry_ok ?h (dash_key tid q, dk_set ck, dash_compute tid q (ds_db x) (dk_now ck))"
    using request(3,4) by (auto simp: entry_ok_def)
  have pop: "set (dpop k d) \<subseteq> set d" for k and d :: cache by (auto simp: dpop_def)
  have "set c \<subseteq> insert (dash_key tid q, dk_set ck, dash_compute tid q (ds_db x) (dk_now ck)) (set (ds_cache x))"
    using request(2) pop set_dset unfolding dash_serve_alt
    by (fastforce simp: through_cache_def get_cached_def set_cached_def Let_def split: option.splits prod.splits if_splits)
  with assms(1) grow new show ?thesis unfolding request(1) cache_ok_def by auto
qed (use assms(1) in \<open>auto simp: cache_ok_def invalidate_tenant_cache_def\<close>)

interpretation dashboard: invariant_system dash_start dash_step cache_ok
proof
  show "dash_start s \<Longrightarrow> cache_ok s" for s by (simp add: dash_start_def cache_ok_def)
qed (rule cache_ok_step)


section \<open>Lemmas on the timeline\<close>

lemma timeline_days_eq: "timeline_days t (t + int n * us_per_day - 1) = map (\<lambda>i. t + int i * us_per_day) [0..<n]"
proof (induction n arbitrary: t)
  case 0
  then show ?case by (simp add: timeline_days.simps)
next
  case (Suc n)
  have "timeline_days t (t + int (Suc n) * us_per_day - 1) = t # timeline_days (t + us_per_day) (t + us_per_day + int n * us_per_day - 1)"
    by (subst timeline_days.simps) (simp add: us_per_day_def algebra_simps)
  also have "\<dots> = map (\<lambda>i. t + int i * us_per_day) (0 # map Suc [0..<n])"
    unfolding Suc.IH by (simp add: algebra_simps)
  also have "0 # map Suc [0..<n] = [0..<Suc n]" unfolding map_Suc_upt by (simp add: upt_conv_Cons del: upt_Suc)
  finally show ?case .
qed

lemma end_of_day_eq: "end_of_day now = window_start days now + int days * us_per_day - 1"
proof -
  have "window_start days now = (now div us_per_day - (int days - 1)) * us_per_day"
    using window_start_div [of days now] by (simp add: window_start_def start_of_day_def us_per_day_def)
  then show ?thesis by (simp add: end_of_day_def start_of_day_def algebra_simps)
qed

lemma dget_map_key: "dget k (map (\<lambda>d. (d, f d)) ks) = (if k \<in> set ks then Some (f k) else None)"
  by (induction ks) (auto simp: dget_def)

lemma timeline_item_of_groups:
  "timeline_item_of (day_groups rows) t = \<lparr>ti_day = day_text t,
    ti_daily_cost = round4 (cost_of (filter (\<lambda>e. day_text (ex_created_at e) = day_text t) rows)),
    ti_executions_count = row_count (\<lambda>e. day_text (ex_created_at e) = day_text t) rows\<rparr>"
proof (cases "day_text t \<in> (\<lambda>e. day_text (ex_created_at e)) ` set rows")
  case False
  then have "filter (\<lambda>e. day_text (ex_created_at e) = day_text t) rows = []" by (fastforce simp: filter_empty_conv image_iff)
  with False show ?thesis by (simp add: timeline_item_of_def day_groups_def dget_map_key cost_of_def row_count_def)
qed (simp add: timeline_item_of_def day_groups_def dget_map_key)

lemma sum_of_groups:
  assumes "distinct ds" "f ` set xs \<subseteq> set ds"
  shows "(\<Sum>d\<leftarrow>ds. row_count (\<lambda>x. f x = d) xs) = length xs"
  using assms(2)
proof (induction xs)
  case (Cons x xs)
  have "(\<Sum>d\<leftarrow>ds. if f x = d then (1::nat) else 0) = (\<Sum>d\<in>set ds. if f x = d then 1 else 0)"
    by (rule sum_list_distinct_conv_sum_set [OF assms(1)])
  also have "\<dots> = 1" using Cons.prems by simp
  finally have one: "(\<Sum>d\<leftarrow>ds. if f x = d then (1::nat) else 0) = 1" .
  have "row_count (\<lambda>x. f x = d) (x # xs) = (if f x = d then 1 else 0) + row_count (\<lambda>x. f x = d) xs" for d
    by (simp add: row_count_def)
  with one Cons show ?case by (simp add: sum_list_addf)
qed (simp add: row_count_def)

lemma timeline_rows:
  "compute_timeline tid days s now = map (timeline_item_of (day_groups (period_rows tid (window_start days now) s)))
     (map (\<lambda>i. window_start days now + int i * us_per_day) [0..<days])"
  unfolding compute_timeline_def Let_def end_of_day_eq [of now days] timeline_days_eq ..

section \<open>Reading CSV\<close>

text \<open>
  A reader of the format, as RFC 4180 has it: within quotes two quotes are one, after them or
  outside them a comma ends the cell and a line end the row.
\<close>

fun csv_go :: "bool \<Rightarrow> string \<Rightarrow> string list \<Rightarrow> string \<Rightarrow> string list list" where
  "csv_go q cell row [] = (if q \<or> cell \<noteq> [] \<or> row \<noteq> [] then [row @ [cell]] else [])"
| "csv_go False cell row (c # x) =
    (if c = CHR '','' then csv_go False [] (row @ [cell]) x
     else if c = QUOTE \<and> cell = [] then csv_go True [] row x
     else if c = CHR 0x0A then (row @ [cell]) # csv_go False [] [] x
     else if c = CHR 0x0D then (row @ [cell]) # (case x of d # y \<Rightarrow> csv_go False [] [] (if d = CHR 0x0A then y else x) | [] \<Rightarrow> [])
     else csv_go False (cell @ [c]) row x)"
| "csv_go True cell row (c # x) =
    (if c \<noteq> QUOTE then csv_go True (cell @ [c]) row x
     else (case x of d # y \<Rightarrow> if d = QUOTE then csv_go True (cell @ [QUOTE]) row y else csv_go False cell row x
       | [] \<Rightarrow> [row @ [cell]]))"

definition csv_read :: "string \<Rightarrow> string list list" where
  "csv_read x = csv_go False [] [] x"

lemma csv_go_plain:
  "\<not> needs_quotes x \<Longrightarrow> csv_go False cell row (x @ y) = csv_go False (cell @ x) row y"
  by (induction x arbitrary: cell) (auto simp: needs_quotes_def)

lemma csv_go_quoted:
  "d \<noteq> QUOTE \<Longrightarrow> csv_go True cell row (double_quotes x @ QUOTE # d # y) = csv_go False (cell @ x) row (d # y)"
  by (induction x arbitrary: cell) (auto simp: double_quotes_def)

lemma csv_go_field:
  assumes "d \<noteq> QUOTE"
  shows "csv_go False [] row (csv_field x @ d # y) = csv_go False x row (d # y)"
proof (cases "needs_quotes x")
  case True
  then show ?thesis using csv_go_quoted [OF assms, of "[]" row x y] by (simp add: csv_field_def QUOTE_def)
next
  case False
  then show ?thesis using csv_go_plain [OF False, of "[]" row "d # y"] by (simp add: csv_field_def)
qed

lemma csv_go_line: "cells \<noteq> [] \<Longrightarrow> csv_go False [] row (csv_line cells @ y) = (row @ cells) # csv_go False [] [] y"
proof (induction cells arbitrary: row)
  case (Cons x cells)
  have sep: "CHR '','' \<noteq> QUOTE" and cr: "CHR 0x0D \<noteq> QUOTE" by (simp_all add: QUOTE_def)
  show ?case
  proof (cases cells)
    case Nil
    then show ?thesis using csv_go_field [OF cr, of row x "CHR 0x0A # y"] by (simp add: csv_line_def CRLF_def QUOTE_def)
  next
    case (Cons z zs)
    then have "csv_line (x # cells) @ y = csv_field x @ CHR '','' # csv_line cells @ y" by (simp add: csv_line_def)
    then have "csv_go False [] row (csv_line (x # cells) @ y) = csv_go False [] (row @ [x]) (csv_line cells @ y)"
      using csv_go_field [OF sep, of row x "csv_line cells @ y"] by simp
    with Cons.IH [of "row @ [x]"] Cons show ?thesis by simp
  qed
qed simp

lemma csv_go_rows: "\<forall>cells \<in> set rows. cells \<noteq> [] \<Longrightarrow> csv_go False [] [] (concat (map csv_line rows)) = rows"
  by (induction rows) (simp_all add: csv_go_line)


section \<open>Properties\<close>

text \<open>
  C23: the cache serves a tenant its own answer. In every reachable state the answer to an accepted
  query is either computed now or the result of the same query of the same tenant on a database it
  was served on less than a minute ago; after the tenant's entries are invalidated it is computed now.
\<close>

theorem cache_serves_own_tenant:
  assumes "reachable dash_start dash_step x" "valid_query q" "CHR '':'' \<notin> set tid"
  shows "(fst (dash_serve tid q ck (ds_db x) (ds_cache x)) = dash_compute tid q (ds_db x) (dk_now ck) \<or>
      (\<exists>ck' s. (ck', s) \<in> set (ds_history x) \<and> dk_read ck - dk_set ck' < seconds 60 \<and>
        fst (dash_serve tid q ck (ds_db x) (ds_cache x)) = dash_compute tid q s (dk_now ck'))) \<and>
    fst (dash_serve tid q ck (ds_db x) (invalidate_tenant_cache tid (ds_cache x))) = dash_compute tid q (ds_db x) (dk_now ck)"
proof
  have ok: "cache_ok x" by (rule dashboard.reachable_inv [OF assms(1)])
  show "fst (dash_serve tid q ck (ds_db x) (ds_cache x)) = dash_compute tid q (ds_db x) (dk_now ck) \<or>
      (\<exists>ck' s. (ck', s) \<in> set (ds_history x) \<and> dk_read ck - dk_set ck' < seconds 60 \<and>
        fst (dash_serve tid q ck (ds_db x) (ds_cache x)) = dash_compute tid q s (dk_now ck'))"
  proof (cases "get_cached (dash_key tid q) (dk_read ck) (ds_cache x)")
    case (Pair r c)
    show ?thesis
    proof (cases r)
      case None
      with Pair show ?thesis by (simp add: dash_serve_alt through_cache_def Let_def)
    next
      case (Some v)
      with Pair obtain ts where ts: "dget (dash_key tid q) (ds_cache x) = Some (ts, v)" "dk_read ck - ts < seconds CACHE_TTL"
        by (auto simp: get_cached_def split: option.splits if_splits)
      from dget_SomeD [OF ts(1)] ok have "entry_ok (ds_history x) (dash_key tid q, ts, v)" by (auto simp: cache_ok_def)
      then obtain tid' q' ck' s where e: "dash_key tid q = dash_key tid' q'" "CHR '':'' \<notin> set tid'" "(ck', s) \<in> set (ds_history x)"
        "ts = dk_set ck'" "v = dash_compute tid' q' s (dk_now ck')" by (auto simp: entry_ok_def)
      with dash_key_eq [OF e(1) assms(3) e(2)] ts(2) Pair Some show ?thesis
        by (auto simp: dash_serve_alt through_cache_def CACHE_TTL_def)
    qed
  qed
  show "fst (dash_serve tid q ck (ds_db x) (invalidate_tenant_cache tid (ds_cache x))) = dash_compute tid q (ds_db x) (dk_now ck)"
    using dash_key_invalidated [OF assms(3)] by (simp add: dash_serve_alt through_cache_def get_cached_def Let_def)
qed

text \<open>
  C39: the timeline of the last \<open>days\<close> days ends after exactly that many items, one for each day from
  the first to today, in order; an item carries the number of the tenant's executions of its day and
  the rounded sum of their costs, zero where there were none, and the counts add up to the number of
  executions of the window.
\<close>

theorem cost_timeline_correct:
  assumes "0 \<le> window_start days now" "datetime_range now" "\<forall>e \<in> set (executions s). ex_created_at e \<le> now"
  shows "let rows = period_rows tid (window_start days now) s; items = compute_timeline tid days s now in
    length items = days \<and> map ti_day items = window_days days now \<and>
    (\<forall>x \<in> set items. \<exists>day. day = filter (\<lambda>e. day_text (ex_created_at e) = ti_day x) rows \<and>
      ti_executions_count x = length day \<and> ti_daily_cost x = round4 (cost_of day)) \<and>
    sum_list (map ti_executions_count items) = length rows"
proof -
  let ?rows = "period_rows tid (window_start days now) s"
  have days: "map ti_day (compute_timeline tid days s now) = window_days days now"
    by (simp add: timeline_rows timeline_item_of_groups window_days_def)
  have "(\<lambda>e. day_text (ex_created_at e)) ` set ?rows \<subseteq> set (window_days days now)"
    by (rule image_subsetI, rule day_in_window) (use assms(3) in \<open>auto simp: period_rows_def\<close>)
  from sum_of_groups [OF distinct_window_days [OF assms(1,2)] this]
  have "sum_list (map ti_executions_count (compute_timeline tid days s now)) = length ?rows"
    by (simp add: timeline_rows timeline_item_of_groups window_days_def o_def)
  then show ?thesis using days unfolding Let_def
    by (auto simp: timeline_rows timeline_item_of_groups row_count_def)
qed

text \<open>
  C40: the CSV export is read back: whatever commas, quotes and line ends the names of the workflows
  hold, a reader of the format gets the header and then exactly the cells of each row.
\<close>

theorem csv_export_reads_back: "csv_read (export_rows_to_csv rows) = csv_header # map csv_fields rows"
proof -
  have "export_rows_to_csv rows = concat (map csv_line (csv_header # map csv_fields rows))"
    by (simp add: export_rows_to_csv_def o_def)
  moreover have "\<forall>cells \<in> set (csv_header # map csv_fields rows). cells \<noteq> []"
    by (auto simp: csv_header_def csv_fields_def)
  ultimately show ?thesis unfolding csv_read_def by (simp only: csv_go_rows)
qed

text \<open>
  Where the export differs from what a caller may expect: a bound given as a date is midnight, so
  the day of the bound itself is left out; and a cell is written as it is, a formula included.
\<close>

lemma export_to_date_excludes_day:
  assumes "start_of_day (ex_created_at e) = t" "t < ex_created_at e"
  shows "\<not> exported tid a (Some t) e"
  using assms by (simp add: exported_def)

lemma export_keeps_formulas: "\<not> needs_quotes (''='' @ x) \<Longrightarrow> csv_field (''='' @ x) = ''='' @ x"
  by (simp add: csv_field_def)

section \<open>Witnesses\<close>

definition tick :: "instant \<Rightarrow> dash_clock" where
  "tick t = \<lparr>dk_read = t, dk_now = t, dk_set = t\<rparr>"

definition served_state :: dash_state where
  "served_state = \<lparr>ds_db = empty_db, ds_cache = snd (dash_serve ''t1'' (TimelineQ 1) (tick 0) empty_db []),
    ds_history = [(tick 0, empty_db)]\<rparr>"

lemma served_state_reachable: "reachable dash_start dash_step served_state"
proof -
  let ?x = "\<lparr>ds_db = empty_db, ds_cache = [], ds_history = []\<rparr>"
  have "reachable dash_start dash_step ?x" by (rule reachable.base) (simp add: dash_start_def)
  moreover have "dash_step ?x (?x\<lparr>ds_cache := snd (dash_serve ''t1'' (TimelineQ 1) (tick 0) empty_db []),
      ds_history := ds_history ?x @ [(tick 0, ds_db ?x)]\<rparr>)"
    by (rule dash_step.request [where q = "TimelineQ 1" and tid = "''t1''"
        and v = "fst (dash_serve ''t1'' (TimelineQ 1) (tick 0) empty_db [])"]) simp_all
  ultimately show ?thesis unfolding served_state_def by (auto intro: reachable.more)
qed

theorem cache_serves_own_tenant_witness:
  "fst (dash_serve ''t1'' (TimelineQ 1) (tick 0) empty_db (invalidate_tenant_cache ''t1'' (ds_cache served_state))) =
    dash_compute ''t1'' (TimelineQ 1) empty_db 0"
  using cache_serves_own_tenant [OF served_state_reachable, of "TimelineQ 1" "''t1''" "tick 0"]
  by (simp add: served_state_def tick_def)

theorem cost_timeline_correct_witness:
  "map ti_day (compute_timeline ''t1'' 2 (sample_db ExCompleted 0) (6 * us_per_day)) = window_days 2 (6 * us_per_day)"
proof -
  have "0 \<le> window_start 2 (6 * us_per_day)" by (simp add: window_start_def start_of_day_def us_per_day_def)
  moreover have "datetime_range (6 * us_per_day)" by (simp add: datetime_range_def us_per_day_def)
  moreover have "\<forall>e \<in> set (executions (sample_db ExCompleted 0)). ex_created_at e \<le> 6 * us_per_day"
    by (simp add: sample_db_def sample_execution_def us_per_day_def)
  ultimately show ?thesis using cost_timeline_correct [of 2 "6 * us_per_day" "sample_db ExCompleted 0" "''t1''"]
    by (simp add: Let_def)
qed

end
