(* ===== verification/Api.thy ===== *)
theory Api
  imports Auth Scheduler Workflows Doctor Tools Dashboards
begin

text \<open>
  The routers of \<open>app/api/v1\<close> around the services: each endpoint authenticates, checks the role and
  the fields of the request, and calls one service with the tenant of the user. The analytics router
  is in the theory of its own; the endpoints on accounts are in \<open>Auth\<close>.
\<close>

section \<open>The application\<close>

text \<open>
  What a request may read beside the database: the settings and the libraries. Everything it draws
  is in \<open>api_draw\<close>: the clocks, the identifiers and times of the rows it adds, and the outside world
  at its start. A path or body identifier has been parsed.
\<close>

record api_env =
  ae_crypto :: crypto
  ae_net :: net
  ae_fernet :: fernet
  ae_settings :: settings
  ae_sql :: sql
  ae_files :: file_system
  ae_hmac :: hmac_hex
  ae_scheduler_enabled :: bool
  ae_scheduler_interval :: rat
  ae_scheduler_limit :: int

record api_draw =
  aq_login :: instant
  aq_now :: instant
  aq_later :: instant
  aq_row :: row_draw
  aq_diagnosis :: diagnosis_draw
  aq_replay :: replay_draw
  aq_apply :: apply_draw
  aq_delivery :: delivery_draw
  aq_control :: control_clock
  aq_dash :: dash_clock
  aq_worker :: worker_env
  aq_ingest :: ingest_draw
  aq_updated :: "uuid \<Rightarrow> instant"
  aq_traffic :: traffic

text \<open>A background task, started after the response, that runs an execution.\<close>

record background =
  bg_execution_id :: uuid
  bg_workflow_id :: uuid
  bg_tenant_id :: uuid
  bg_input :: json

record api_state =
  as_db :: db
  as_registry :: registry
  as_cache :: cache
  as_tasks :: "background list"

type_synonym 'a handler = "user \<Rightarrow> api_state \<Rightarrow> (http_error + 'a) \<times> api_state"

text \<open>The dependencies \<open>get_current_user\<close> and \<open>require_role\<close> of an endpoint.\<close>

definition authorize :: "crypto \<Rightarrow> instant \<Rightarrow> string \<Rightarrow> string \<Rightarrow> string list option \<Rightarrow> db \<Rightarrow> http_error + user" where
  "authorize cy now path token roles s =
    (case get_current_user cy now path token s of
      Inl err \<Rightarrow> Inl err
    | Inr u \<Rightarrow>
       (case roles of
         None \<Rightarrow> Inr u
       | Some allowed \<Rightarrow> (case require_role allowed u of Some err \<Rightarrow> Inl err | None \<Rightarrow> Inr u)))"

definition guarded ::
  "api_env \<Rightarrow> api_draw \<Rightarrow> string \<Rightarrow> string \<Rightarrow> string list option \<Rightarrow> 'a handler \<Rightarrow> api_state \<Rightarrow> (http_error + 'a) \<times> api_state" where
  "guarded e dw path token roles body x =
    (case authorize (ae_crypto e) (aq_login dw) path token roles (as_db x) of
      Inl err \<Rightarrow> (Inl err, x)
    | Inr u \<Rightarrow> body u x)"

definition anyone :: "string list option" where
  "anyone = None"

definition editors :: "string list option" where
  "editors = Some [''owner'', ''editor'']"

definition owners :: "string list option" where
  "owners = Some [''owner'']"

text \<open>A service that reads, one that works on the database, and a request the schema refuses.\<close>

definition reading :: "('v \<Rightarrow> 'a) \<Rightarrow> (db \<Rightarrow> http_error + 'v) \<Rightarrow> api_state \<Rightarrow> (http_error + 'a) \<times> api_state" where
  "reading f g x = (map_sum (\<lambda>err. err) f (g (as_db x)), x)"

definition writing :: "('v \<Rightarrow> 'a) \<Rightarrow> ('v, db) svc \<Rightarrow> api_state \<Rightarrow> (http_error + 'a) \<times> api_state" where
  "writing f g x = (case g (as_db x) of (r, s) \<Rightarrow> (map_sum (\<lambda>err. err) f r, x\<lparr>as_db := s\<rparr>))"

definition checked :: "bool \<Rightarrow> (api_state \<Rightarrow> (http_error + 'a) \<times> api_state) \<Rightarrow> api_state \<Rightarrow> (http_error + 'a) \<times> api_state" where
  "checked ok body x = (if ok then body x else (Inl unprocessable, x))"

text \<open>\<open>invalidate_tenant_cache\<close>, when the service comes to it.\<close>

definition invalidating :: "uuid \<Rightarrow> bool \<Rightarrow> api_state \<Rightarrow> api_state" where
  "invalidating tid b x = (if b then x\<lparr>as_cache := invalidate_tenant_cache tid (as_cache x)\<rparr> else x)"

definition between :: "nat \<Rightarrow> nat \<Rightarrow> nat \<Rightarrow> bool" where
  "between lo hi n \<longleftrightarrow> lo \<le> n \<and> n \<le> hi"

definition paged :: "nat \<Rightarrow> nat \<Rightarrow> bool" where
  "paged page per_page \<longleftrightarrow> 1 \<le> page \<and> 1 \<le> per_page \<and> per_page \<le> 100"

section \<open>Executions\<close>

datatype execution_request =
  StartExecution uuid json
| ListExecutions "uuid option" "string option" nat nat
| GetExecution uuid
| GetLogs uuid
| CancelExecution uuid
| RetryExecution uuid

datatype execution_answer =
  Started uuid exec_status
| Executions execution_page
| OneExecution execution
| Logs "execution_log list"
| Retried uuid uuid exec_status

text \<open>\<open>input_data\<close> is an object or absent.\<close>

definition valid_input :: "json \<Rightarrow> bool" where
  "valid_input v \<longleftrightarrow> v = JNull \<or> is_obj v"

definition start_execution :: "api_draw \<Rightarrow> uuid \<Rightarrow> json \<Rightarrow> execution_answer handler" where
  "start_execution dw wid input u x =
    (case create_execution (rw_id (aq_row dw)) (rw_created (aq_row dw)) (us_tenant_id u) wid input (as_db x) of
      (Inl err, s) \<Rightarrow> (Inl err, x\<lparr>as_db := s\<rparr>)
    | (Inr ex, s) \<Rightarrow> (Inr (Started (ex_id ex) (ex_status ex)),
        invalidating (us_tenant_id u) True (x\<lparr>as_db := s, as_tasks := as_tasks x @
          [\<lparr>bg_execution_id = ex_id ex, bg_workflow_id = wid, bg_tenant_id = us_tenant_id u, bg_input = input\<rparr>]\<rparr>)))"

text \<open>Only a pending execution is closed at once, and only then the cache is touched.\<close>

definition cancel_endpoint :: "api_draw \<Rightarrow> uuid \<Rightarrow> execution_answer handler" where
  "cancel_endpoint dw eid u x =
    (case cancel_execution (aq_now dw) (us_tenant_id u) eid (as_registry x, as_db x) of
      (r, (reg, s)) \<Rightarrow> (map_sum (\<lambda>err. err) OneExecution r,
        invalidating (us_tenant_id u) (case r of Inr ex \<Rightarrow> ex_status ex = ExCancelled | Inl _ \<Rightarrow> False)
          (x\<lparr>as_db := s, as_registry := reg\<rparr>)))"

definition retry_endpoint :: "api_draw \<Rightarrow> uuid \<Rightarrow> execution_answer handler" where
  "retry_endpoint dw eid u x =
    (case retry_dead_letter_execution (rw_id (aq_row dw)) (rw_created (aq_row dw)) (us_tenant_id u) eid (us_id u) (as_db x) of
      (Inl err, s) \<Rightarrow> (Inl err, x\<lparr>as_db := s\<rparr>)
    | (Inr ex, s) \<Rightarrow> (Inr (Retried (ex_id ex) eid (ex_status ex)), invalidating (us_tenant_id u) True (x\<lparr>as_db := s\<rparr>)))"

fun serve_execution ::
  "api_env \<Rightarrow> api_draw \<Rightarrow> string \<Rightarrow> execution_request \<Rightarrow> api_state \<Rightarrow> (http_error + execution_answer) \<times> api_state" where
  "serve_execution e dw token (StartExecution wid input) =
    guarded e dw ''/api/v1/workflows/{wf_id}/execute'' token editors (\<lambda>u.
      checked (valid_input input) (start_execution dw wid input u))"
| "serve_execution e dw token (ListExecutions wid st page per_page) =
    guarded e dw ''/api/v1/executions'' token anyone (\<lambda>u.
      checked (paged page per_page) (reading Executions (list_executions (us_tenant_id u) wid st page per_page)))"
| "serve_execution e dw token (GetExecution eid) =
    guarded e dw ''/api/v1/executions/{execution_id}'' token anyone (\<lambda>u.
      reading OneExecution (get_execution (us_tenant_id u) eid))"
| "serve_execution e dw token (GetLogs eid) =
    guarded e dw ''/api/v1/executions/{execution_id}/logs'' token anyone (\<lambda>u.
      reading Logs (get_execution_logs (us_tenant_id u) eid))"
| "serve_execution e dw token (CancelExecution eid) =
    guarded e dw ''/api/v1/executions/{execution_id}/cancel'' token editors (cancel_endpoint dw eid)"
| "serve_execution e dw token (RetryExecution eid) =
    guarded e dw ''/api/v1/executions/{execution_id}/retry'' token editors (retry_endpoint dw eid)"


section \<open>Connectors\<close>

datatype connector_request =
  ListConnectors
| GetConnector string
| CreateCredential string string string "(string, json) dict"
| ListCredentials "string option"
| DeleteCredential uuid
| CreateTrigger uuid string "(string, json) dict"
| ListTriggers uuid

text \<open>The response models: a credential without its encrypted configuration and creator, a trigger with its address.\<close>

record credential_body =
  qc_id :: uuid
  qc_tenant_id :: uuid
  qc_connector_key :: string
  qc_name :: string
  qc_auth_type :: string
  qc_config_preview :: json
  qc_is_active :: bool
  qc_created_at :: instant

definition credential_response :: "connector_credential \<Rightarrow> credential_body" where
  "credential_response c = \<lparr>qc_id = cr_id c, qc_tenant_id = cr_tenant_id c, qc_connector_key = cr_connector_key c,
    qc_name = cr_name c, qc_auth_type = cr_auth_type c, qc_config_preview = cr_config_preview c,
    qc_is_active = cr_is_active c, qc_created_at = cr_created_at c\<rparr>"

record trigger_body =
  qt_id :: uuid
  qt_tenant_id :: uuid
  qt_workflow_id :: uuid
  qt_trigger_type :: string
  qt_public_id :: string
  qt_webhook_url :: string
  qt_config :: json
  qt_is_active :: bool
  qt_created_at :: instant

text \<open>\<open>str(request.base_url).rstrip("/")\<close>.\<close>

definition webhook_url :: "string \<Rightarrow> string \<Rightarrow> string" where
  "webhook_url base public_id = rev (dropWhile (\<lambda>c. c = CHR ''/'') (rev base)) @ ''/api/v1/webhooks/'' @ public_id"

definition trigger_response :: "string \<Rightarrow> workflow_trigger \<Rightarrow> trigger_body" where
  "trigger_response base t = \<lparr>qt_id = tg_id t, qt_tenant_id = tg_tenant_id t, qt_workflow_id = tg_workflow_id t,
    qt_trigger_type = tg_trigger_type t, qt_public_id = tg_public_id t, qt_webhook_url = webhook_url base (tg_public_id t),
    qt_config = tg_config t, qt_is_active = tg_is_active t, qt_created_at = tg_created_at t\<rparr>"

datatype connector_answer =
  Catalogue "json list"
| Connector json
| Credential credential_body
| Credentials "credential_body list"
| Trigger trigger_body
| Triggers "trigger_body list"
| Deleted

definition valid_credential_create :: "string \<Rightarrow> string \<Rightarrow> string \<Rightarrow> bool" where
  "valid_credential_create key name auth_type \<longleftrightarrow>
    length_within 1 120 key \<and> length_within 1 255 name \<and> length_within 1 120 auth_type"

definition valid_trigger_create :: "string \<Rightarrow> bool" where
  "valid_trigger_create trigger_type \<longleftrightarrow> trigger_type \<in> {''webhook'', ''manual''}"

text \<open>\<open>rw_nonce\<close> is the random part of the new trigger's public identifier, and of an encryption.\<close>

fun serve_connector ::
  "api_env \<Rightarrow> api_draw \<Rightarrow> string \<Rightarrow> string \<Rightarrow> connector_request \<Rightarrow> api_state \<Rightarrow> (http_error + connector_answer) \<times> api_state" where
  "serve_connector e dw base token ListConnectors =
    guarded e dw ''/api/v1/connectors'' token anyone (\<lambda>_. reading Catalogue (\<lambda>_. Inr list_connectors))"
| "serve_connector e dw base token (GetConnector key) =
    guarded e dw ''/api/v1/connectors/{connector_key}'' token anyone (\<lambda>_. reading Connector (\<lambda>_. get_connector key))"
| "serve_connector e dw base token (CreateCredential key name auth_type config) =
    guarded e dw ''/api/v1/connector-credentials'' token editors (\<lambda>u.
      checked (valid_credential_create key name auth_type)
        (writing (\<lambda>c. Credential (credential_response c))
          (create_credential (ae_fernet e) (ae_settings e) (aq_row dw) (us_tenant_id u) (us_id u) key name auth_type config)))"
| "serve_connector e dw base token (ListCredentials key) =
    guarded e dw ''/api/v1/connector-credentials'' token anyone (\<lambda>u.
      reading (\<lambda>cs. Credentials (map credential_response cs)) (\<lambda>s. Inr (list_credentials (us_tenant_id u) key s)))"
| "serve_connector e dw base token (DeleteCredential cid) =
    guarded e dw ''/api/v1/connector-credentials/{credential_id}'' token editors (\<lambda>u.
      writing (\<lambda>_. Deleted) (delete_credential (us_tenant_id u) cid))"
| "serve_connector e dw base token (CreateTrigger wid trigger_type config) =
    guarded e dw ''/api/v1/workflows/{workflow_id}/triggers'' token editors (\<lambda>u.
      checked (valid_trigger_create trigger_type)
        (writing (\<lambda>t. Trigger (trigger_response base t))
          (create_trigger (aq_row dw) (rw_nonce (aq_row dw)) (us_tenant_id u) wid (us_id u) trigger_type config)))"
| "serve_connector e dw base token (ListTriggers wid) =
    guarded e dw ''/api/v1/workflows/{workflow_id}/triggers'' token anyone (\<lambda>u.
      reading (\<lambda>ts. Triggers (map (trigger_response base) ts)) (list_triggers (us_tenant_id u) wid))"

text \<open>The public endpoint: an unreadable body is an empty payload, a body that is no object is wrapped.\<close>

definition webhook_payload :: "string \<Rightarrow> (string, json) dict" where
  "webhook_payload raw =
    (if raw = [] then []
     else case loads raw of None \<Rightarrow> [] | Some (JObj d) \<Rightarrow> d | Some v \<Rightarrow> [(''data'', v)])"

definition serve_webhook ::
  "api_env \<Rightarrow> api_draw \<Rightarrow> string \<Rightarrow> (string, string) dict \<Rightarrow> string \<Rightarrow> api_state \<Rightarrow> (http_error + uuid \<times> exec_status) \<times> api_state" where
  "serve_webhook e dw public_id headers raw x =
    (case ingest_webhook (ae_hmac e) (aq_ingest dw) public_id
        \<lparr>dv_headers = headers, dv_raw_body = raw, dv_payload = webhook_payload raw\<rparr> (as_db x) of
      (r, s) \<Rightarrow> (r, (case find_trigger public_id s of
          None \<Rightarrow> x | Some t \<Rightarrow> invalidating (tg_tenant_id t) (\<not> isl r) x)\<lparr>as_db := s\<rparr>))"

section \<open>Workflows and their agents\<close>

datatype workflow_request =
  CreateWorkflow string string string
| ListWorkflows nat nat "string option"
| GetWorkflow uuid
| UpdateWorkflow uuid "string option" "string option" "graph_def option" "string option"
| DuplicateWorkflow uuid
| PauseDispatch uuid
| ResumeDispatch uuid
| DeleteWorkflow uuid

datatype workflow_answer =
  OneWorkflow workflow
| WorkflowPage "workflow list" nat nat nat
| Gone

fun serve_workflow ::
  "api_env \<Rightarrow> api_draw \<Rightarrow> string \<Rightarrow> workflow_request \<Rightarrow> api_state \<Rightarrow> (http_error + workflow_answer) \<times> api_state" where
  "serve_workflow e dw token (CreateWorkflow name description pattern) =
    guarded e dw ''/api/v1/workflows/'' token editors (\<lambda>u.
      checked (valid_workflow_create name description pattern)
        (writing OneWorkflow (create_workflow (rw_id (aq_row dw)) (rw_created (aq_row dw)) (us_tenant_id u) (us_id u)
          name description pattern)))"
| "serve_workflow e dw token (ListWorkflows page per_page search) =
    guarded e dw ''/api/v1/workflows/'' token anyone (\<lambda>u.
      checked (paged page per_page)
        (reading (\<lambda>(items, n). WorkflowPage items n page per_page)
          (\<lambda>s. Inr (list_workflows (aq_updated dw) (us_tenant_id u) page per_page search s))))"
| "serve_workflow e dw token (GetWorkflow wid) =
    guarded e dw ''/api/v1/workflows/{workflow_id}'' token anyone (\<lambda>u. reading OneWorkflow (get_workflow (us_tenant_id u) wid))"
| "serve_workflow e dw token (UpdateWorkflow wid name description d pattern) =
    guarded e dw ''/api/v1/workflows/{workflow_id}'' token editors (\<lambda>u.
      checked (valid_workflow_update name description pattern)
        (writing OneWorkflow (update_workflow (us_tenant_id u) wid name description d pattern)))"
| "serve_workflow e dw token (DuplicateWorkflow wid) =
    guarded e dw ''/api/v1/workflows/{workflow_id}/duplicate'' token editors (\<lambda>u.
      writing OneWorkflow (duplicate_workflow (rw_id (aq_row dw)) (rw_created (aq_row dw)) (us_tenant_id u) (us_id u) wid))"
| "serve_workflow e dw token (PauseDispatch wid) =
    guarded e dw ''/api/v1/workflows/{workflow_id}/dispatch/pause'' token editors (\<lambda>u.
      writing OneWorkflow (pause_workflow_dispatch (aq_now dw) (us_tenant_id u) wid (us_id u)))"
| "serve_workflow e dw token (ResumeDispatch wid) =
    guarded e dw ''/api/v1/workflows/{workflow_id}/dispatch/resume'' token editors (\<lambda>u.
      writing OneWorkflow (resume_workflow_dispatch (us_tenant_id u) wid))"
| "serve_workflow e dw token (DeleteWorkflow wid) =
    guarded e dw ''/api/v1/workflows/{workflow_id}'' token editors (\<lambda>u.
      writing (\<lambda>_. Gone) (delete_workflow (us_tenant_id u) wid))"

datatype agent_request =
  ListAgents uuid
| CreateAgent uuid agent_fields
| UpdateAgent uuid uuid agent_change
| DeleteAgent uuid uuid

datatype agent_answer = Agents "agent_config list" | OneAgent agent_config | AgentGone

fun serve_agent ::
  "api_env \<Rightarrow> api_draw \<Rightarrow> string \<Rightarrow> agent_request \<Rightarrow> api_state \<Rightarrow> (http_error + agent_answer) \<times> api_state" where
  "serve_agent e dw token (ListAgents wid) =
    guarded e dw ''/api/v1/workflows/{wf_id}/agents/'' token anyone (\<lambda>u. reading Agents (list_agents (us_tenant_id u) wid))"
| "serve_agent e dw token (CreateAgent wid a) =
    guarded e dw ''/api/v1/workflows/{wf_id}/agents/'' token editors (\<lambda>u.
      checked (valid_agent_create a)
        (writing OneAgent (create_agent (rw_id (aq_row dw)) (rw_created (aq_row dw)) (us_tenant_id u) wid a)))"
| "serve_agent e dw token (UpdateAgent wid aid c) =
    guarded e dw ''/api/v1/workflows/{wf_id}/agents/{agent_id}'' token editors (\<lambda>u.
      checked (valid_agent_update c) (writing OneAgent (update_agent (us_tenant_id u) wid aid c)))"
| "serve_agent e dw token (DeleteAgent wid aid) =
    guarded e dw ''/api/v1/workflows/{wf_id}/agents/{agent_id}'' token editors (\<lambda>u.
      writing (\<lambda>_. AgentGone) (delete_agent (us_tenant_id u) wid aid))"

section \<open>Tools and the doctor\<close>

datatype tool_request =
  CreateTool string string string "(string, json) dict"
| ListTools
| UpdateTool uuid "string option" "string option" "string option" "(string, json) dict option"
| DeleteTool uuid
| TestTool uuid "string option"

datatype tool_response_body = Tool tool_row | ToolList "tool_row list" | Tested tool_answer | ToolGone

definition TOOL_TYPES :: "string list" where
  "TOOL_TYPES = [''api'', ''database'', ''file_system'']"

definition valid_tool_create :: "string \<Rightarrow> string \<Rightarrow> string \<Rightarrow> bool" where
  "valid_tool_create name description tool_type \<longleftrightarrow>
    length_within 1 255 name \<and> length description \<le> 2000 \<and> tool_type \<in> set TOOL_TYPES"

definition valid_tool_update :: "string option \<Rightarrow> string option \<Rightarrow> string option \<Rightarrow> bool" where
  "valid_tool_update name description tool_type \<longleftrightarrow> if_given (length_within 1 255) name \<and>
    if_given (\<lambda>d. length d \<le> 2000) description \<and> if_given (\<lambda>t. t \<in> set TOOL_TYPES) tool_type"

fun serve_tool ::
  "api_env \<Rightarrow> api_draw \<Rightarrow> string \<Rightarrow> tool_request \<Rightarrow> api_state \<Rightarrow> (http_error + tool_response_body) \<times> api_state" where
  "serve_tool e dw token (CreateTool name description tool_type config) =
    guarded e dw ''/api/v1/tools/'' token editors (\<lambda>u.
      checked (valid_tool_create name description tool_type)
        (writing Tool (create_tool (ae_net e) (aq_traffic dw) (rw_id (aq_row dw)) (rw_created (aq_row dw)) (us_tenant_id u)
          name description tool_type config)))"
| "serve_tool e dw token ListTools =
    guarded e dw ''/api/v1/tools/'' token anyone (\<lambda>u. reading ToolList (list_tools (us_tenant_id u)))"
| "serve_tool e dw token (UpdateTool tool_id name description tool_type config) =
    guarded e dw ''/api/v1/tools/{tool_id}'' token editors (\<lambda>u.
      checked (valid_tool_update name description tool_type)
        (writing Tool (update_tool (ae_net e) (aq_traffic dw) (us_tenant_id u) tool_id name description tool_type config)))"
| "serve_tool e dw token (DeleteTool tool_id) =
    guarded e dw ''/api/v1/tools/{tool_id}'' token editors (\<lambda>u. writing (\<lambda>_. ToolGone) (delete_tool (us_tenant_id u) tool_id))"
| "serve_tool e dw token (TestTool tool_id input) =
    guarded e dw ''/api/v1/tools/{tool_id}/test'' token editors (\<lambda>u.
      reading Tested (test_tool (ae_net e) (ae_sql e) (ae_files e) (aq_traffic dw) (us_tenant_id u) tool_id input))"

datatype doctor_request =
  Diagnose uuid bool
| ListSuggestions uuid
| ReplayFix uuid string
| ApplyFix uuid bool
| DismissFix uuid

datatype doctor_answer =
  Suggestions "fix_suggestion list" nat
| Replayed replay_run
| FixApplied apply_answer
| FixDismissed uuid fix_status

text \<open>The cache is touched when the fix is retried.\<close>

definition apply_fix :: "api_draw \<Rightarrow> uuid \<Rightarrow> bool \<Rightarrow> doctor_answer handler" where
  "apply_fix dw sid again u x =
    (case apply_suggestion (aq_apply dw) (us_tenant_id u) sid (us_id u) again (as_db x) of
      (r, s) \<Rightarrow> (map_sum (\<lambda>err. err) FixApplied r,
        invalidating (us_tenant_id u) (case r of Inr a \<Rightarrow> aa_retry_execution_id a \<noteq> None | Inl _ \<Rightarrow> False) (x\<lparr>as_db := s\<rparr>)))"

fun serve_doctor ::
  "api_env \<Rightarrow> api_draw \<Rightarrow> string \<Rightarrow> doctor_request \<Rightarrow> api_state \<Rightarrow> (http_error + doctor_answer) \<times> api_state" where
  "serve_doctor e dw token (Diagnose eid force) =
    guarded e dw ''/api/v1/executions/{execution_id}/diagnose'' token anyone (\<lambda>u.
      writing (\<lambda>rs. Suggestions rs (length rs)) (diagnose_execution (aq_diagnosis dw) (us_tenant_id u) eid force))"
| "serve_doctor e dw token (ListSuggestions eid) =
    guarded e dw ''/api/v1/executions/{execution_id}/fix-suggestions'' token anyone (\<lambda>u.
      reading (\<lambda>rs. Suggestions rs (length rs)) (list_suggestions (us_tenant_id u) eid))"
| "serve_doctor e dw token (ReplayFix sid mode) =
    guarded e dw ''/api/v1/fix-suggestions/{suggestion_id}/replay'' token editors (\<lambda>u.
      writing Replayed (replay_suggestion (aq_replay dw) (us_tenant_id u) sid mode))"
| "serve_doctor e dw token (ApplyFix sid again) =
    guarded e dw ''/api/v1/fix-suggestions/{suggestion_id}/apply'' token editors (apply_fix dw sid again)"
| "serve_doctor e dw token (DismissFix sid) =
    guarded e dw ''/api/v1/fix-suggestions/{suggestion_id}/dismiss'' token editors (\<lambda>u.
      writing (\<lambda>(i, st). FixDismissed i st) (dismiss_suggestion (aq_now dw) (us_tenant_id u) sid))"

end
