(* ===== verification/ApiAnalytics.thy ===== *)
theory ApiAnalytics
  imports Api
begin

text \<open>
  The router of \<open>app/api/v1/analytics.py\<close>: dashboards through the cache, dispatch health, alerts,
  incidents, plans and the automation worker, the export and the fleet of the platform administrator.
\<close>

section \<open>Dashboards, health and export\<close>

datatype dashboard_request =
  Dashboard dash_query
| Health nat
| Export string "string option" "string option"

datatype dashboard_answer = Shown dash_value | HealthShown dispatch_health | Exported export_answer

definition window_ok :: "nat \<Rightarrow> bool" where
  "window_ok hours \<longleftrightarrow> between 1 720 hours"

definition show_dashboard :: "api_draw \<Rightarrow> dash_query \<Rightarrow> dashboard_answer handler" where
  "show_dashboard dw q u x =
    (case dash_serve (us_tenant_id u) q (aq_dash dw) (as_db x) (as_cache x) of
      (v, c) \<Rightarrow> (Inr (Shown v), x\<lparr>as_cache := c\<rparr>))"

definition health_of :: "uuid \<Rightarrow> nat \<Rightarrow> instant \<Rightarrow> db \<Rightarrow> http_error + dispatch_health" where
  "health_of tid hours now s = map_sum internal_error (\<lambda>h. h) (get_dispatch_health tid (int hours) now s)"

fun dash_path :: "dash_query \<Rightarrow> string" where
  "dash_path (OverviewQ _) = ''/api/v1/analytics/overview''"
| "dash_path (TimelineQ _) = ''/api/v1/analytics/cost-timeline''"
| "dash_path (BreakdownQ _) = ''/api/v1/analytics/workflow-breakdown''"

fun serve_dashboard ::
  "api_env \<Rightarrow> api_draw \<Rightarrow> string \<Rightarrow> dashboard_request \<Rightarrow> api_state \<Rightarrow> (http_error + dashboard_answer) \<times> api_state" where
  "serve_dashboard e dw token (Dashboard q) =
    guarded e dw (dash_path q) token anyone (\<lambda>u. checked (valid_query q) (show_dashboard dw q u))"
| "serve_dashboard e dw token (Health hours) =
    guarded e dw ''/api/v1/analytics/dispatch-health'' token anyone (\<lambda>u.
      checked (window_ok hours) (reading HealthShown (health_of (us_tenant_id u) hours (aq_now dw))))"
| "serve_dashboard e dw token (Export format from_date to_date) =
    guarded e dw ''/api/v1/analytics/export'' token anyone (\<lambda>u.
      checked (format \<in> {''csv'', ''json''}) (reading Exported (export_data (us_tenant_id u) format from_date to_date)))"

section \<open>Alerts\<close>

datatype alert_request =
  GetPolicy
| SetPolicy alert_policy
| PreviewPolicy nat
| CreateChannel string string "(string, json) dict"
| ListChannels
| Deliver nat
| ListDeliveries nat

record channel_body =
  hc_id :: uuid
  hc_name :: string
  hc_channel_type :: string
  hc_config_preview :: json
  hc_is_active :: bool
  hc_created_at :: instant

definition channel_response :: "alert_channel \<Rightarrow> channel_body" where
  "channel_response c = \<lparr>hc_id = ch_id c, hc_name = ch_name c, hc_channel_type = ch_channel_type c,
    hc_config_preview = ch_config_preview c, hc_is_active = ch_is_active c, hc_created_at = ch_created_at c\<rparr>"

datatype alert_answer =
  Policy alert_policy
| Preview policy_preview
| Channel channel_body
| Channels "channel_body list"
| DeliveryReport delivery_report
| DeliveryList "alert_delivery list"

text \<open>The traffic of a request ends with it.\<close>

definition without_traffic :: "(db \<Rightarrow> traffic \<Rightarrow> (http_error + 'v) \<times> db \<times> traffic) \<Rightarrow> traffic \<Rightarrow> ('v, db) svc" where
  "without_traffic f tf s = (case f s tf of (r, s', _) \<Rightarrow> (r, s'))"

fun serve_alert ::
  "api_env \<Rightarrow> api_draw \<Rightarrow> string \<Rightarrow> alert_request \<Rightarrow> api_state \<Rightarrow> (http_error + alert_answer) \<times> api_state" where
  "serve_alert e dw token GetPolicy =
    guarded e dw ''/api/v1/analytics/dispatch-alert-policy'' token anyone (\<lambda>u. reading Policy (get_alert_policy (us_tenant_id u)))"
| "serve_alert e dw token (SetPolicy p) =
    guarded e dw ''/api/v1/analytics/dispatch-alert-policy'' token editors (\<lambda>u.
      checked (valid_policy p) (writing Policy (update_alert_policy (us_tenant_id u) p)))"
| "serve_alert e dw token (PreviewPolicy hours) =
    guarded e dw ''/api/v1/analytics/dispatch-alert-policy/preview'' token anyone (\<lambda>u.
      checked (window_ok hours) (reading Preview (preview_alert_policy (us_tenant_id u) (int hours) (aq_now dw))))"
| "serve_alert e dw token (CreateChannel name channel_type config) =
    guarded e dw ''/api/v1/analytics/dispatch-alert-channels'' token editors (\<lambda>u.
      checked (valid_channel_create name channel_type)
        (writing (\<lambda>c. Channel (channel_response c))
          (without_traffic (create_alert_channel (ae_net e) (ae_fernet e) (ae_settings e) (aq_row dw) (us_tenant_id u)
            (us_id u) name channel_type config) (aq_traffic dw))))"
| "serve_alert e dw token ListChannels =
    guarded e dw ''/api/v1/analytics/dispatch-alert-channels'' token anyone (\<lambda>u.
      reading (\<lambda>cs. Channels (map channel_response cs)) (\<lambda>s. Inr (list_alert_channels (us_tenant_id u) s)))"
| "serve_alert e dw token (Deliver hours) =
    guarded e dw ''/api/v1/analytics/dispatch-alert-deliveries'' token editors (\<lambda>u.
      checked (window_ok hours)
        (writing DeliveryReport (without_traffic (deliver_dispatch_alerts (ae_net e) (ae_fernet e) (ae_settings e)
          (aq_delivery dw) (us_tenant_id u) (int hours) True) (aq_traffic dw))))"
| "serve_alert e dw token (ListDeliveries limit) =
    guarded e dw ''/api/v1/analytics/dispatch-alert-deliveries'' token anyone (\<lambda>u.
      checked (between 1 100 limit) (reading DeliveryList (\<lambda>s. Inr (list_alert_deliveries (us_tenant_id u) limit s))))"

section \<open>Incidents\<close>

datatype incident_request =
  GetRunbook string nat nat
| GetAcknowledgement nat
| Acknowledge "string option" nat
| Resolve "string option" nat

datatype incident_answer =
  RunbookText string
| Runbook runbook
| AckState "incident_ack option"
| Acked incident_ack

definition note_within :: "nat \<Rightarrow> string option \<Rightarrow> bool" where
  "note_within n note = if_given (\<lambda>x. length x \<le> n) note"

definition sla_ok :: "nat \<Rightarrow> bool" where
  "sla_ok sla \<longleftrightarrow> between 1 10080 sla"

definition runbook_answer :: "string \<Rightarrow> runbook \<Rightarrow> incident_answer" where
  "runbook_answer format r = (if format = ''markdown'' then RunbookText (render_runbook_markdown r) else Runbook r)"

fun serve_incident ::
  "api_env \<Rightarrow> api_draw \<Rightarrow> string \<Rightarrow> incident_request \<Rightarrow> api_state \<Rightarrow> (http_error + incident_answer) \<times> api_state" where
  "serve_incident e dw token (GetRunbook format hours limit) =
    guarded e dw ''/api/v1/analytics/dispatch-runbook'' token anyone (\<lambda>u.
      checked (format \<in> {''json'', ''markdown''} \<and> window_ok hours \<and> between 1 100 limit)
        (reading (runbook_answer format)
          (get_runbook (aq_now dw) (aq_later dw) (aq_updated dw) (us_tenant_id u) (int hours) limit)))"
| "serve_incident e dw token (GetAcknowledgement hours) =
    guarded e dw ''/api/v1/analytics/dispatch-incident-acknowledgement'' token anyone (\<lambda>u.
      checked (window_ok hours) (reading AckState (get_acknowledgement (us_tenant_id u) (int hours) (aq_now dw))))"
| "serve_incident e dw token (Acknowledge note hours) =
    guarded e dw ''/api/v1/analytics/dispatch-incident-acknowledgement'' token editors (\<lambda>u.
      checked (note_within 1000 note \<and> window_ok hours)
        (writing Acked (acknowledge_incident (aq_row dw) (aq_now dw) (us_tenant_id u) u note (int hours))))"
| "serve_incident e dw token (Resolve note hours) =
    guarded e dw ''/api/v1/analytics/dispatch-incident-acknowledgement/resolve'' token editors (\<lambda>u.
      checked (note_within 2000 note \<and> window_ok hours)
        (writing Acked (resolve_incident (aq_now dw) (aq_later dw) (us_tenant_id u) u note (int hours))))"

datatype insight_request = Recommendations nat nat | IncidentAnalytics nat nat | IncidentHistory nat

datatype insight_answer =
  Recommended recommendations_response
| Analytics incident_analytics
| History "incident_ack list"

fun serve_insight ::
  "api_env \<Rightarrow> api_draw \<Rightarrow> string \<Rightarrow> insight_request \<Rightarrow> api_state \<Rightarrow> (http_error + insight_answer) \<times> api_state" where
  "serve_insight e dw token (Recommendations hours sla) =
    guarded e dw ''/api/v1/analytics/dispatch-control-recommendations'' token anyone (\<lambda>u.
      checked (window_ok hours \<and> sla_ok sla)
        (reading Recommended (get_recommendations (aq_control dw) (us_tenant_id u) (int hours) (int sla))))"
| "serve_insight e dw token (IncidentAnalytics days sla) =
    guarded e dw ''/api/v1/analytics/dispatch-incident-analytics'' token anyone (\<lambda>u.
      checked (between 1 365 days \<and> sla_ok sla)
        (reading Analytics (\<lambda>s. Inr (get_incident_analytics (us_tenant_id u) days (int sla) (aq_now dw) s))))"
| "serve_insight e dw token (IncidentHistory limit) =
    guarded e dw ''/api/v1/analytics/dispatch-incident-history'' token anyone (\<lambda>u.
      checked (between 1 100 limit)
        (reading History (\<lambda>s. Inr (incident_history (aq_updated dw) (us_tenant_id u) limit s))))"

section \<open>Plans and the worker\<close>

datatype plan_request =
  ListPlans nat
| CreatePlan string nat nat
| ApprovePlan uuid
| RejectPlan uuid "string option"

datatype plan_answer = Plans "automation_plan list" | Plan automation_plan

fun serve_plan ::
  "api_env \<Rightarrow> api_draw \<Rightarrow> string \<Rightarrow> plan_request \<Rightarrow> api_state \<Rightarrow> (http_error + plan_answer) \<times> api_state" where
  "serve_plan e dw token (ListPlans limit) =
    guarded e dw ''/api/v1/analytics/dispatch-automation-plans'' token anyone (\<lambda>u.
      checked (between 1 100 limit) (reading Plans (\<lambda>s. Inr (list_plans (us_tenant_id u) limit s))))"
| "serve_plan e dw token (CreatePlan code hours sla) =
    guarded e dw ''/api/v1/analytics/dispatch-automation-plans'' token editors (\<lambda>u.
      checked (length_within 1 120 code \<and> window_ok hours \<and> sla_ok sla)
        (writing Plan (create_plan (aq_control dw) (aq_row dw) (us_tenant_id u) u code (int hours) (int sla))))"
| "serve_plan e dw token (ApprovePlan pid) =
    guarded e dw ''/api/v1/analytics/dispatch-automation-plans/{plan_id}/approve'' token owners (\<lambda>u.
      writing Plan (approve_plan (aq_now dw) (us_tenant_id u) u pid))"
| "serve_plan e dw token (RejectPlan pid note) =
    guarded e dw ''/api/v1/analytics/dispatch-automation-plans/{plan_id}/reject'' token owners (\<lambda>u.
      checked (note_within 2000 note) (writing Plan (reject_plan (aq_now dw) (us_tenant_id u) u pid note)))"

datatype worker_request =
  GetWorkerConfig
| SetWorkerConfig worker_config
| WorkerDiagnostics
| ListWorkerRuns nat
| RunWorker nat

datatype worker_answer =
  WorkerConfig worker_config
| Diagnostics worker_diagnostics
| WorkerRuns "worker_run list"
| WorkerRan uuid worker_result

text \<open>
  One pass of the worker for the tenant, then its audit row. A retry it makes goes through
  \<open>create_execution\<close>, which drops the tenant's entries of the cache.
\<close>

definition run_worker :: "api_draw \<Rightarrow> nat \<Rightarrow> worker_answer handler" where
  "run_worker dw limit u x =
    (case run_plan_worker_once (aq_worker dw) limit (Some (us_tenant_id u)) (as_db x) of
      (r, s) \<Rightarrow>
        (let run = new_worker_run (rw_id (aq_row dw)) (rw_created (aq_row dw)) (us_tenant_id u) ''manual'' (int limit)
             (wk_claimed r) (wk_executed r) (wk_blocked r) (wk_failed r) (Some (us_id u)) ''completed'' None in
         (Inr (WorkerRan (wr_id run) r),
          invalidating (us_tenant_id u) (length (executions s) \<noteq> length (executions (as_db x)))
            (x\<lparr>as_db := record_worker_run run s\<rparr>))))"

fun serve_worker ::
  "api_env \<Rightarrow> api_draw \<Rightarrow> string \<Rightarrow> worker_request \<Rightarrow> api_state \<Rightarrow> (http_error + worker_answer) \<times> api_state" where
  "serve_worker e dw token GetWorkerConfig =
    guarded e dw ''/api/v1/analytics/dispatch-automation-worker/config'' token anyone (\<lambda>u.
      reading WorkerConfig (get_worker_config (us_tenant_id u)))"
| "serve_worker e dw token (SetWorkerConfig c) =
    guarded e dw ''/api/v1/analytics/dispatch-automation-worker/config'' token owners (\<lambda>u.
      checked (valid_worker_config c) (writing WorkerConfig (update_worker_config (us_tenant_id u) c)))"
| "serve_worker e dw token WorkerDiagnostics =
    guarded e dw ''/api/v1/analytics/dispatch-automation-worker/diagnostics'' token owners (\<lambda>u.
      reading Diagnostics (get_worker_diagnostics (us_tenant_id u) (ae_scheduler_enabled e) (ae_scheduler_interval e)
        (ae_scheduler_limit e) (aq_now dw)))"
| "serve_worker e dw token (ListWorkerRuns limit) =
    guarded e dw ''/api/v1/analytics/dispatch-automation-worker/runs'' token anyone (\<lambda>u.
      checked (between 1 100 limit) (reading WorkerRuns (\<lambda>s. Inr (list_worker_runs (us_tenant_id u) limit s))))"
| "serve_worker e dw token (RunWorker limit) =
    guarded e dw ''/api/v1/analytics/dispatch-automation-worker/run'' token owners (\<lambda>u.
      checked (between 1 50 limit) (run_worker dw limit u))"

text \<open>The fleet, across tenants, for the platform administrator.\<close>

definition serve_fleet ::
  "api_env \<Rightarrow> api_draw \<Rightarrow> string \<Rightarrow> bool \<Rightarrow> db \<Rightarrow> http_error + fleet_snapshot" where
  "serve_fleet e dw token include_tenants s =
    (case get_current_user (ae_crypto e) (aq_login dw) ''/api/v1/analytics/dispatch-automation-worker/fleet'' token s of
      Inl err \<Rightarrow> Inl err
    | Inr u \<Rightarrow>
       (case require_platform_admin u of
         Some err \<Rightarrow> Inl err
       | None \<Rightarrow> inspect_fleet (ae_scheduler_enabled e) (ae_scheduler_interval e) (ae_scheduler_limit e) (aq_now dw)
           include_tenants s))"

end
