(* ===== verification/Tenancy.thy ===== *)
theory Tenancy
  imports ApiAnalytics
begin

text \<open>
  The tenants of the shared database. The slice of a tenant is the database with its rows alone; a
  service that is scoped to a tenant gives on the slice the answer it gives on the whole database,
  changes the slice the same way, and leaves the slices of all others as they were.
\<close>

section \<open>Slices\<close>

definition logs_of :: "uuid \<Rightarrow> db \<Rightarrow> execution_log list" where
  "logs_of tid s = filter (\<lambda>l. list_ex (\<lambda>e. ex_id e = lg_execution_id l \<and> ex_tenant_id e = tid) (executions s)) (execution_logs s)"

definition slice :: "uuid \<Rightarrow> db \<Rightarrow> db" where
  "slice tid s = \<lparr>tenants = filter (\<lambda>r. tn_id r = tid) (tenants s), users = filter (\<lambda>r. us_tenant_id r = tid) (users s),
    refresh_tokens = filter (\<lambda>r. rt_tenant_id r = tid) (refresh_tokens s),
    workflows = filter (\<lambda>r. wf_tenant_id r = tid) (workflows s),
    agent_configs = filter (\<lambda>r. ac_tenant_id r = tid) (agent_configs s),
    tools = filter (\<lambda>r. tl_tenant_id r = tid) (tools s), executions = filter (\<lambda>r. ex_tenant_id r = tid) (executions s),
    execution_logs = logs_of tid s, suggestions = filter (\<lambda>r. fs_tenant_id r = tid) (suggestions s),
    replay_runs = filter (\<lambda>r. rr_tenant_id r = tid) (replay_runs s),
    credentials = filter (\<lambda>r. cr_tenant_id r = tid) (credentials s),
    triggers = filter (\<lambda>r. tg_tenant_id r = tid) (triggers s),
    webhook_events = filter (\<lambda>r. we_tenant_id r = tid) (webhook_events s),
    channels = filter (\<lambda>r. ch_tenant_id r = tid) (channels s),
    deliveries = filter (\<lambda>r. dl_tenant_id r = tid) (deliveries s), acks = filter (\<lambda>r. ak_tenant_id r = tid) (acks s),
    plans = filter (\<lambda>r. pl_tenant_id r = tid) (plans s), worker_runs = filter (\<lambda>r. wr_tenant_id r = tid) (worker_runs s)\<rparr>"

lemma slice_sel [simp]:
  "tenants (slice tid s) = filter (\<lambda>r. tn_id r = tid) (tenants s)"
  "users (slice tid s) = filter (\<lambda>r. us_tenant_id r = tid) (users s)"
  "refresh_tokens (slice tid s) = filter (\<lambda>r. rt_tenant_id r = tid) (refresh_tokens s)"
  "workflows (slice tid s) = filter (\<lambda>r. wf_tenant_id r = tid) (workflows s)"
  "agent_configs (slice tid s) = filter (\<lambda>r. ac_tenant_id r = tid) (agent_configs s)"
  "tools (slice tid s) = filter (\<lambda>r. tl_tenant_id r = tid) (tools s)"
  "executions (slice tid s) = filter (\<lambda>r. ex_tenant_id r = tid) (executions s)"
  "execution_logs (slice tid s) = logs_of tid s"
  "suggestions (slice tid s) = filter (\<lambda>r. fs_tenant_id r = tid) (suggestions s)"
  "replay_runs (slice tid s) = filter (\<lambda>r. rr_tenant_id r = tid) (replay_runs s)"
  "credentials (slice tid s) = filter (\<lambda>r. cr_tenant_id r = tid) (credentials s)"
  "triggers (slice tid s) = filter (\<lambda>r. tg_tenant_id r = tid) (triggers s)"
  "webhook_events (slice tid s) = filter (\<lambda>r. we_tenant_id r = tid) (webhook_events s)"
  "channels (slice tid s) = filter (\<lambda>r. ch_tenant_id r = tid) (channels s)"
  "deliveries (slice tid s) = filter (\<lambda>r. dl_tenant_id r = tid) (deliveries s)"
  "acks (slice tid s) = filter (\<lambda>r. ak_tenant_id r = tid) (acks s)"
  "plans (slice tid s) = filter (\<lambda>r. pl_tenant_id r = tid) (plans s)"
  "worker_runs (slice tid s) = filter (\<lambda>r. wr_tenant_id r = tid) (worker_runs s)"
  by (simp_all add: slice_def)

text \<open>
  What the keys of the database guarantee: identifiers are unique, and references stay in the tenant
  of the row that holds them.
\<close>

definition keys_unique :: "db \<Rightarrow> bool" where
  "keys_unique s \<longleftrightarrow> distinct (map wf_id (workflows s)) \<and> distinct (map ac_id (agent_configs s)) \<and>
    distinct (map tl_id (tools s)) \<and> distinct (map ex_id (executions s)) \<and> distinct (map fs_id (suggestions s)) \<and>
    distinct (map cr_id (credentials s)) \<and> distinct (map pl_id (plans s)) \<and> distinct (map ak_id (acks s))"

definition refs_ok :: "db \<Rightarrow> bool" where
  "refs_ok s \<longleftrightarrow>
    (\<forall>l \<in> set (execution_logs s). \<exists>e \<in> set (executions s). ex_id e = lg_execution_id l) \<and>
    (\<forall>l \<in> set (execution_logs s). \<forall>e \<in> set (executions s). \<forall>a \<in> set (agent_configs s).
      ex_id e = lg_execution_id l \<and> lg_agent_config_id l = Some (ac_id a) \<longrightarrow> ac_tenant_id a = ex_tenant_id e) \<and>
    (\<forall>r \<in> set (suggestions s). \<forall>a \<in> set (agent_configs s).
      fs_agent_config_id r = Some (ac_id a) \<longrightarrow> ac_tenant_id a = fs_tenant_id r) \<and>
    (\<forall>e \<in> set (executions s). \<forall>w \<in> set (workflows s). ex_workflow_id e = wf_id w \<longrightarrow> wf_tenant_id w = ex_tenant_id e) \<and>
    (\<forall>a \<in> set (agent_configs s). \<forall>w \<in> set (workflows s). ac_workflow_id a = wf_id w \<longrightarrow> wf_tenant_id w = ac_tenant_id a)"

definition tenancy :: "db \<Rightarrow> bool" where
  "tenancy s \<longleftrightarrow> keys_unique s \<and> refs_ok s"

definition scoped :: "uuid \<Rightarrow> (db \<Rightarrow> 'r \<times> db) \<Rightarrow> db \<Rightarrow> bool" where
  "scoped tid f s \<longleftrightarrow> f (slice tid s) = (fst (f s), slice tid (snd (f s))) \<and>
    (\<forall>t. t \<noteq> tid \<longrightarrow> slice t (snd (f s)) = slice t s)"

section \<open>Reading a slice\<close>

lemma filter_in_slice: "(\<And>x. x \<in> set xs \<Longrightarrow> p x \<Longrightarrow> q x) \<Longrightarrow> filter p (filter q xs) = filter p xs"
  by (induction xs) auto

lemma row_find_in_slice: "(\<And>x. x \<in> set xs \<Longrightarrow> p x \<Longrightarrow> q x) \<Longrightarrow> row_find p (filter q xs) = row_find p xs"
  by (induction xs) auto

lemma row_count_in_slice: "(\<And>x. x \<in> set xs \<Longrightarrow> p x \<Longrightarrow> q x) \<Longrightarrow> row_count p (filter q xs) = row_count p xs"
  by (simp only: row_count_def filter_in_slice)

lemma list_ex_in_slice: "(\<And>x. x \<in> set xs \<Longrightarrow> p x \<Longrightarrow> q x) \<Longrightarrow> list_ex p (filter q xs) = list_ex p xs"
  by (induction xs) auto

lemma find_tenant_slice [simp]: "find_tenant tid (slice tid s) = find_tenant tid s"
  by (simp only: find_tenant_def slice_sel, rule row_find_in_slice)

lemma tenant_by_id_slice [simp]: "tenant_by_id tid (slice tid s) = tenant_by_id tid s"
  by (simp only: tenant_by_id_def slice_sel, subst row_find_in_slice) auto

lemma get_workflow_slice [simp]: "get_workflow tid wid (slice tid s) = get_workflow tid wid s"
  by (simp only: get_workflow_def slice_sel, subst row_find_in_slice) auto

lemma get_execution_slice [simp]: "get_execution tid eid (slice tid s) = get_execution tid eid s"
  by (simp only: get_execution_def slice_sel, subst row_find_in_slice) auto

lemma count_active_executions_slice [simp]: "count_active_executions tid (slice tid s) = count_active_executions tid s"
  by (simp only: count_active_executions_def slice_sel, rule row_count_in_slice) (simp add: active_def)

lemma list_executions_slice [simp]: "list_executions tid wid st page per_page (slice tid s) = list_executions tid wid st page per_page s"
proof -
  have "filter (selected tid wid x) (executions (slice tid s)) = filter (selected tid wid x) (executions s)" for x
    by (simp only: slice_sel, rule filter_in_slice) (simp add: selected_def)
  then show ?thesis by (simp only: list_executions_def row_count_def)
qed

lemma logs_of_execution:
  assumes "get_execution tid eid s = Inr e"
  shows "filter (\<lambda>l. lg_execution_id l = eid) (logs_of tid s) = filter (\<lambda>l. lg_execution_id l = eid) (execution_logs s)"
  unfolding logs_of_def
proof (rule filter_in_slice)
  fix l assume "lg_execution_id l = eid"
  then show "list_ex (\<lambda>x. ex_id x = lg_execution_id l \<and> ex_tenant_id x = tid) (executions s)"
    using get_execution_InrD [OF assms] by (auto simp: list_ex_iff)
qed

lemma get_execution_logs_slice [simp]: "get_execution_logs tid eid (slice tid s) = get_execution_logs tid eid s"
  using logs_of_execution [of tid eid s] by (auto simp: get_execution_logs_def split: sum.split)

lemma list_credentials_slice [simp]: "list_credentials tid key (slice tid s) = list_credentials tid key s"
  by (simp only: list_credentials_def slice_sel, subst filter_in_slice) auto

lemma get_credential_slice [simp]: "get_credential tid cid (slice tid s) = get_credential tid cid s"
  by (simp only: get_credential_def slice_sel, subst row_find_in_slice) auto

lemma list_triggers_slice [simp]: "list_triggers tid wid (slice tid s) = list_triggers tid wid s"
  by (simp only: list_triggers_def slice_sel get_workflow_slice, subst filter_in_slice) auto

lemma list_workflows_slice [simp]:
  "list_workflows upd tid page per_page search (slice tid s) = list_workflows upd tid page per_page search s"
proof -
  have "filter (workflow_matches tid search) (workflows (slice tid s)) = filter (workflow_matches tid search) (workflows s)"
    by (simp only: slice_sel, rule filter_in_slice) (simp add: workflow_matches_def active_workflow_def)
  then show ?thesis by (simp only: list_workflows_def row_count_def)
qed

lemma agents_slice [simp]: "filter (agent_of tid wid) (agent_configs (slice tid s)) = filter (agent_of tid wid) (agent_configs s)"
  by (simp only: slice_sel, rule filter_in_slice) (simp add: agent_of_def)

lemma list_agents_slice [simp]: "list_agents tid wid (slice tid s) = list_agents tid wid s"
  by (simp only: list_agents_def agents_slice get_workflow_slice)

lemma find_agent_slice [simp]: "find_agent tid wid aid (slice tid s) = find_agent tid wid aid s"
  by (simp only: find_agent_def slice_sel, subst row_find_in_slice) (auto simp: agent_of_def)

lemma list_tools_slice [simp]: "list_tools tid (slice tid s) = list_tools tid s"
  by (simp only: list_tools_def slice_sel, subst filter_in_slice) auto

lemma get_tool_slice [simp]: "get_tool tid i (slice tid s) = get_tool tid i s"
  by (simp only: get_tool_def slice_sel, subst row_find_in_slice) auto

lemma list_suggestions_for_execution_slice [simp]:
  "list_suggestions_for_execution tid eid (slice tid s) = list_suggestions_for_execution tid eid s"
  by (simp only: list_suggestions_for_execution_def slice_sel, subst filter_in_slice) (auto simp: open_suggestion_def)

lemma list_suggestions_slice [simp]: "list_suggestions tid eid (slice tid s) = list_suggestions tid eid s"
  by (simp only: list_suggestions_def get_execution_slice list_suggestions_for_execution_slice)

lemma get_suggestion_slice [simp]: "get_suggestion tid sid (slice tid s) = get_suggestion tid sid s"
  by (simp only: get_suggestion_def slice_sel, subst row_find_in_slice) auto

lemma get_plan_slice [simp]: "get_plan tid pid (slice tid s) = get_plan tid pid s"
  by (simp only: get_plan_def slice_sel, subst row_find_in_slice) auto

lemma list_plans_slice [simp]: "list_plans tid n (slice tid s) = list_plans tid n s"
  by (simp only: list_plans_def slice_sel, subst filter_in_slice) auto

lemma get_alert_channel_slice [simp]: "get_alert_channel tid cid (slice tid s) = get_alert_channel tid cid s"
  by (simp only: get_alert_channel_def slice_sel, subst row_find_in_slice) auto

lemma list_alert_channels_slice [simp]: "list_alert_channels tid (slice tid s) = list_alert_channels tid s"
  by (simp only: list_alert_channels_def slice_sel, subst filter_in_slice) auto

lemma list_alert_deliveries_slice [simp]: "list_alert_deliveries tid n (slice tid s) = list_alert_deliveries tid n s"
  by (simp only: list_alert_deliveries_def slice_sel, subst filter_in_slice) auto

lemma alert_is_in_cooldown_slice [simp]:
  "alert_is_in_cooldown tid cid code cooldown now (slice tid s) = alert_is_in_cooldown tid cid code cooldown now s"
  by (simp only: alert_is_in_cooldown_def slice_sel, subst row_count_in_slice) auto

lemma list_worker_runs_slice [simp]: "list_worker_runs tid n (slice tid s) = list_worker_runs tid n s"
  by (simp only: list_worker_runs_def slice_sel, subst filter_in_slice) auto

lemma latest_scheduled_slice [simp]:
  "latest_scheduled_automation_worker_run tid (slice tid s) = latest_scheduled_automation_worker_run tid s"
  by (simp only: latest_scheduled_automation_worker_run_def slice_sel, subst filter_in_slice) auto

lemma approved_plans_slice [simp]: "approved_plans tid (slice tid s) = approved_plans tid s"
  by (simp only: approved_plans_def slice_sel, subst row_count_in_slice) auto

lemma get_worker_config_slice [simp]: "get_worker_config tid (slice tid s) = get_worker_config tid s"
  by (simp only: get_worker_config_def tenant_by_id_slice)

lemma get_worker_diagnostics_slice [simp]:
  "get_worker_diagnostics tid b i n now (slice tid s) = get_worker_diagnostics tid b i n now s"
  by (simp only: get_worker_diagnostics_def get_worker_config_slice latest_scheduled_slice approved_plans_slice)

section \<open>Health, incidents and dashboards of a slice\<close>

lemma events_since_slice [simp]: "events_since tid t cutoff (slice tid s) = events_since tid t cutoff s"
  by (simp only: events_since_def slice_sel, subst row_count_in_slice) auto

lemma throttled_among_slice [simp]: "throttled_among tid now (slice tid s) ts = throttled_among tid now s ts"
  by (induction ts) (simp_all del: slice_sel split: sum.split option.split prod.split)

lemma count_throttled_triggers_slice [simp]: "count_throttled_triggers tid now (slice tid s) = count_throttled_triggers tid now s"
  by (simp only: count_throttled_triggers_def throttled_among_slice slice_sel, subst filter_in_slice) auto

lemma recent_executions_slice [simp]: "recent_executions tid start (slice tid s) = recent_executions tid start s"
  by (simp only: recent_executions_def slice_sel, subst filter_in_slice) auto

lemma paused_workflows_slice [simp]: "paused_workflows tid (slice tid s) = paused_workflows tid s"
  by (simp only: paused_workflows_def slice_sel, subst row_count_in_slice) auto

lemma get_dispatch_health_slice [simp]: "get_dispatch_health tid h now (slice tid s) = get_dispatch_health tid h now s"
  by (simp only: get_dispatch_health_def recent_executions_slice count_throttled_triggers_slice paused_workflows_slice)

lemma get_alert_policy_slice [simp]: "get_alert_policy tid (slice tid s) = get_alert_policy tid s"
  by (simp only: get_alert_policy_def tenant_by_id_slice)

lemma preview_alert_policy_slice [simp]: "preview_alert_policy tid h now (slice tid s) = preview_alert_policy tid h now s"
  by (simp only: preview_alert_policy_def get_alert_policy_slice get_dispatch_health_slice)

lemma runbook_context_slice [simp]: "runbook_context tid h now (slice tid s) = runbook_context tid h now s"
  by (simp only: runbook_context_def get_alert_policy_slice get_dispatch_health_slice)

lemma open_acknowledgement_slice [simp]: "open_acknowledgement tid key (slice tid s) = open_acknowledgement tid key s"
proof -
  have "filter (open_ack tid k) (acks (slice tid s)) = filter (open_ack tid k) (acks s)" for k
    by (simp only: slice_sel, rule filter_in_slice) (simp add: open_ack_def)
  then show ?thesis by (simp only: open_acknowledgement_def)
qed

lemma incident_history_slice [simp]: "incident_history upd tid n (slice tid s) = incident_history upd tid n s"
  by (simp only: incident_history_def slice_sel, subst filter_in_slice) auto

lemma get_acknowledgement_slice [simp]: "get_acknowledgement tid h now (slice tid s) = get_acknowledgement tid h now s"
  by (simp only: get_acknowledgement_def runbook_context_slice open_acknowledgement_slice)

lemma get_incident_analytics_slice [simp]:
  "get_incident_analytics tid days sla now (slice tid s) = get_incident_analytics tid days sla now s"
proof -
  have "incident_rows tid days now (slice tid s) = incident_rows tid days now s"
    by (simp only: incident_rows_def slice_sel, subst filter_in_slice) auto
  then show ?thesis by (simp only: get_incident_analytics_def)
qed

lemma get_recommendations_slice [simp]: "get_recommendations ck tid h sla (slice tid s) = get_recommendations ck tid h sla s"
  by (simp only: get_recommendations_def get_dispatch_health_slice get_alert_policy_slice get_incident_analytics_slice)

lemma get_runbook_slice [simp]: "get_runbook now g upd tid h n (slice tid s) = get_runbook now g upd tid h n s"
  by (simp only: get_runbook_def runbook_context_slice open_acknowledgement_slice list_alert_deliveries_slice incident_history_slice)

lemma period_rows_slice [simp]: "period_rows tid start (slice tid s) = period_rows tid start s"
  by (simp only: period_rows_def slice_sel, subst filter_in_slice) auto


lemma refs_workflow:
  "refs_ok s \<Longrightarrow> e \<in> set (executions s) \<Longrightarrow> w \<in> set (workflows s) \<Longrightarrow> ex_workflow_id e = wf_id w \<Longrightarrow> wf_tenant_id w = ex_tenant_id e"
  unfolding refs_ok_def by blast

lemma breakdown_groups_slice:
  assumes "refs_ok s"
  shows "breakdown_groups (period_rows tid start s) (slice tid s) = breakdown_groups (period_rows tid start s) s"
proof -
  let ?g = "\<lambda>w. (w, filter (\<lambda>e. ex_workflow_id e = wf_id w) (period_rows tid start s))"
  have in_slice: "filter p (map f (filter q ws)) = filter p (map f ws)" if "\<And>w. w \<in> set ws \<Longrightarrow> p (f w) \<Longrightarrow> q w"
    for p :: "workflow \<times> execution list \<Rightarrow> bool" and f q and ws :: "workflow list"
    using that by (induction ws) auto
  have "filter (\<lambda>g. snd g \<noteq> []) (map ?g (filter (\<lambda>r. wf_tenant_id r = tid) (workflows s))) =
      filter (\<lambda>g. snd g \<noteq> []) (map ?g (workflows s))"
  proof (rule in_slice)
    fix w assume w: "w \<in> set (workflows s)" "snd (?g w) \<noteq> []"
    then obtain e where "e \<in> set (period_rows tid start s)" "ex_workflow_id e = wf_id w"
      by (auto simp: filter_empty_conv)
    with refs_workflow [OF assms _ w(1)] show "wf_tenant_id w = tid" by (auto simp: period_rows_def)
  qed
  then show ?thesis by (simp only: breakdown_groups_def slice_sel)
qed

lemma joined_slice:
  assumes "refs_ok s" "\<forall>e \<in> set es. e \<in> set (executions s) \<and> ex_tenant_id e = tid"
  shows "joined es (slice tid s) = joined es s"
proof -
  have "filter (\<lambda>w. wf_id w = ex_workflow_id e) (filter (\<lambda>r. wf_tenant_id r = tid) (workflows s)) =
      filter (\<lambda>w. wf_id w = ex_workflow_id e) (workflows s)" if "e \<in> set es" for e
    by (rule filter_in_slice) (use that assms(2) refs_workflow [OF assms(1)] in auto)
  then show ?thesis unfolding joined_def slice_sel by (metis (mono_tags, lifting) map_eq_conv)
qed

lemma get_export_data_slice:
  assumes "refs_ok s"
  shows "get_export_data tid a b n (slice tid s) = get_export_data tid a b n s"
proof -
  have "filter (exported tid a b) (executions (slice tid s)) = filter (exported tid a b) (executions s)"
    by (simp only: slice_sel, rule filter_in_slice) (simp add: exported_def)
  moreover have "joined (sort_key (\<lambda>e. - ex_created_at e) (filter (exported tid a b) (executions s))) (slice tid s) =
      joined (sort_key (\<lambda>e. - ex_created_at e) (filter (exported tid a b) (executions s))) s"
    by (rule joined_slice [OF assms]) (auto simp: exported_def)
  ultimately show ?thesis by (simp only: get_export_data_def)
qed

lemma export_data_slice:
  assumes "refs_ok s"
  shows "export_data tid format a b (slice tid s) = export_data tid format a b s"
  by (simp only: export_data_def get_export_data_slice [OF assms])

lemma dash_compute_slice:
  assumes "refs_ok s"
  shows "dash_compute tid q (slice tid s) = dash_compute tid q s"
proof (rule ext)
  fix now
  show "dash_compute tid q (slice tid s) now = dash_compute tid q s now"
    by (cases q) (simp_all only: dash_compute.simps compute_overview_def compute_timeline_def compute_breakdown_def
      period_rows_slice breakdown_groups_slice [OF assms])
qed

section \<open>The shapes of a write\<close>

lemma scoped_same: "scoped tid (\<lambda>s. (r, s)) s"
  by (simp add: scoped_def)

lemma slice_logs_append:
  "slice tid (s\<lparr>executions := executions s @ [e]\<rparr>) = (slice tid s)\<lparr>executions := executions (slice tid s) @ (if ex_tenant_id e = tid then [e] else [])\<rparr>"
  if "ex_id e \<notin> lg_execution_id ` set (execution_logs s)"
proof -
  have "logs_of tid (s\<lparr>executions := executions s @ [e]\<rparr>) = logs_of tid s"
    using that unfolding logs_of_def by (intro filter_cong) auto
  then show ?thesis by (simp add: slice_def)
qed

text \<open>An update of the row with a key, where the row belongs to a tenant and stays with it.\<close>

lemma filter_owned_update:
  assumes "\<forall>x \<in> set rows. key x = k \<longrightarrow> tenant x = tid" "\<And>x. tenant (f x) = tenant x"
  shows "filter (\<lambda>x. tenant x = t) (row_update (\<lambda>x. key x = k) f rows) =
    (if t = tid then row_update (\<lambda>x. key x = k) f (filter (\<lambda>x. tenant x = t) rows) else filter (\<lambda>x. tenant x = t) rows)"
proof (cases "t = tid")
  case True
  then show ?thesis using filter_row_update_commute [of "\<lambda>x. key x = k" "\<lambda>x. tenant x = t" f rows] assms(2) by simp
next
  case False
  then have "filter (\<lambda>x. tenant x = t) (row_update (\<lambda>x. key x = k) f rows) = filter (\<lambda>x. tenant x = t) rows"
    using assms by (induction rows) auto
  with False show ?thesis by simp
qed

lemma filter_keyed_update:
  assumes "distinct (map key rows)" "r \<in> set rows" "key r = k" "tenant r = tid" "\<And>x. tenant (f x) = tenant x"
  shows "filter (\<lambda>x. tenant x = t) (row_update (\<lambda>x. key x = k) f rows) =
    (if t = tid then row_update (\<lambda>x. key x = k) f (filter (\<lambda>x. tenant x = t) rows) else filter (\<lambda>x. tenant x = t) rows)"
  by (rule filter_owned_update) (use assms in \<open>auto simp: distinct_map dest: inj_onD\<close>)

lemma logs_of_upd [simp]:
  "logs_of t (s\<lparr>tenants := a1\<rparr>) = logs_of t s" "logs_of t (s\<lparr>users := a2\<rparr>) = logs_of t s"
  "logs_of t (s\<lparr>workflows := a3\<rparr>) = logs_of t s" "logs_of t (s\<lparr>agent_configs := a4\<rparr>) = logs_of t s"
  "logs_of t (s\<lparr>tools := a5\<rparr>) = logs_of t s" "logs_of t (s\<lparr>suggestions := a6\<rparr>) = logs_of t s"
  "logs_of t (s\<lparr>replay_runs := a7\<rparr>) = logs_of t s" "logs_of t (s\<lparr>credentials := a8\<rparr>) = logs_of t s"
  "logs_of t (s\<lparr>triggers := a9\<rparr>) = logs_of t s" "logs_of t (s\<lparr>webhook_events := b1\<rparr>) = logs_of t s"
  "logs_of t (s\<lparr>channels := b2\<rparr>) = logs_of t s" "logs_of t (s\<lparr>deliveries := b3\<rparr>) = logs_of t s"
  "logs_of t (s\<lparr>acks := b4\<rparr>) = logs_of t s" "logs_of t (s\<lparr>plans := b5\<rparr>) = logs_of t s"
  "logs_of t (s\<lparr>worker_runs := b6\<rparr>) = logs_of t s"
  by (simp_all add: logs_of_def)

lemma slice_upd [simp]:
  "slice t (s\<lparr>tenants := a1\<rparr>) = (slice t s)\<lparr>tenants := filter (\<lambda>r. tn_id r = t) a1\<rparr>"
  "slice t (s\<lparr>workflows := a3\<rparr>) = (slice t s)\<lparr>workflows := filter (\<lambda>r. wf_tenant_id r = t) a3\<rparr>"
  "slice t (s\<lparr>agent_configs := a4\<rparr>) = (slice t s)\<lparr>agent_configs := filter (\<lambda>r. ac_tenant_id r = t) a4\<rparr>"
  "slice t (s\<lparr>tools := a5\<rparr>) = (slice t s)\<lparr>tools := filter (\<lambda>r. tl_tenant_id r = t) a5\<rparr>"
  "slice t (s\<lparr>suggestions := a6\<rparr>) = (slice t s)\<lparr>suggestions := filter (\<lambda>r. fs_tenant_id r = t) a6\<rparr>"
  "slice t (s\<lparr>replay_runs := a7\<rparr>) = (slice t s)\<lparr>replay_runs := filter (\<lambda>r. rr_tenant_id r = t) a7\<rparr>"
  "slice t (s\<lparr>credentials := a8\<rparr>) = (slice t s)\<lparr>credentials := filter (\<lambda>r. cr_tenant_id r = t) a8\<rparr>"
  "slice t (s\<lparr>triggers := a9\<rparr>) = (slice t s)\<lparr>triggers := filter (\<lambda>r. tg_tenant_id r = t) a9\<rparr>"
  "slice t (s\<lparr>webhook_events := b1\<rparr>) = (slice t s)\<lparr>webhook_events := filter (\<lambda>r. we_tenant_id r = t) b1\<rparr>"
  "slice t (s\<lparr>channels := b2\<rparr>) = (slice t s)\<lparr>channels := filter (\<lambda>r. ch_tenant_id r = t) b2\<rparr>"
  "slice t (s\<lparr>deliveries := b3\<rparr>) = (slice t s)\<lparr>deliveries := filter (\<lambda>r. dl_tenant_id r = t) b3\<rparr>"
  "slice t (s\<lparr>acks := b4\<rparr>) = (slice t s)\<lparr>acks := filter (\<lambda>r. ak_tenant_id r = t) b4\<rparr>"
  "slice t (s\<lparr>plans := b5\<rparr>) = (slice t s)\<lparr>plans := filter (\<lambda>r. pl_tenant_id r = t) b5\<rparr>"
  "slice t (s\<lparr>worker_runs := b6\<rparr>) = (slice t s)\<lparr>worker_runs := filter (\<lambda>r. wr_tenant_id r = t) b6\<rparr>"
  by (simp_all add: slice_def)

lemma slice_same_upd [simp]:
  "(slice t s)\<lparr>tenants := filter (\<lambda>r. tn_id r = t) (tenants s)\<rparr> = slice t s"
  "(slice t s)\<lparr>workflows := filter (\<lambda>r. wf_tenant_id r = t) (workflows s)\<rparr> = slice t s"
  "(slice t s)\<lparr>agent_configs := filter (\<lambda>r. ac_tenant_id r = t) (agent_configs s)\<rparr> = slice t s"
  "(slice t s)\<lparr>tools := filter (\<lambda>r. tl_tenant_id r = t) (tools s)\<rparr> = slice t s"
  "(slice t s)\<lparr>executions := filter (\<lambda>r. ex_tenant_id r = t) (executions s)\<rparr> = slice t s"
  "(slice t s)\<lparr>suggestions := filter (\<lambda>r. fs_tenant_id r = t) (suggestions s)\<rparr> = slice t s"
  "(slice t s)\<lparr>replay_runs := filter (\<lambda>r. rr_tenant_id r = t) (replay_runs s)\<rparr> = slice t s"
  "(slice t s)\<lparr>credentials := filter (\<lambda>r. cr_tenant_id r = t) (credentials s)\<rparr> = slice t s"
  "(slice t s)\<lparr>triggers := filter (\<lambda>r. tg_tenant_id r = t) (triggers s)\<rparr> = slice t s"
  "(slice t s)\<lparr>channels := filter (\<lambda>r. ch_tenant_id r = t) (channels s)\<rparr> = slice t s"
  "(slice t s)\<lparr>deliveries := filter (\<lambda>r. dl_tenant_id r = t) (deliveries s)\<rparr> = slice t s"
  "(slice t s)\<lparr>acks := filter (\<lambda>r. ak_tenant_id r = t) (acks s)\<rparr> = slice t s"
  "(slice t s)\<lparr>plans := filter (\<lambda>r. pl_tenant_id r = t) (plans s)\<rparr> = slice t s"
  "(slice t s)\<lparr>worker_runs := filter (\<lambda>r. wr_tenant_id r = t) (worker_runs s)\<rparr> = slice t s"
  by (simp_all add: slice_def)

text \<open>The row updates of the services: on the slice of the row's tenant the same update, elsewhere none.\<close>

lemma slice_update_workflow:
  assumes "keys_unique s" "get_workflow tid wid s = Inr w" "\<And>x. wf_tenant_id (f x) = wf_tenant_id x"
  shows "slice t (update_workflow_row wid f s) = (if t = tid then update_workflow_row wid f (slice t s) else slice t s)"
proof -
  have "w \<in> set (workflows s)" "wf_id w = wid" "wf_tenant_id w = tid"
    using assms(2) by (auto simp: get_workflow_def dest: row_find_SomeD split: option.splits)
  from filter_keyed_update [where key = wf_id and tenant = wf_tenant_id and f = f and t = t, OF _ this assms(3)] assms(1)
  show ?thesis by (simp add: update_workflow_row_def keys_unique_def)
qed

lemma slice_update_agent:
  assumes "keys_unique s" "a \<in> set (agent_configs s)" "ac_tenant_id a = tid" "\<And>x. ac_tenant_id (f x) = ac_tenant_id x"
  shows "slice t (update_agent_row (ac_id a) f s) = (if t = tid then update_agent_row (ac_id a) f (slice t s) else slice t s)"
  using filter_keyed_update [where key = ac_id and tenant = ac_tenant_id and f = f and t = t, OF _ assms(2) refl assms(3,4)] assms(1)
  by (simp add: update_agent_row_def keys_unique_def)

lemma slice_update_suggestion:
  assumes "keys_unique s" "get_suggestion tid sid s = Inr r" "\<And>x. fs_tenant_id (f x) = fs_tenant_id x"
  shows "slice t (update_suggestion sid f s) = (if t = tid then update_suggestion sid f (slice t s) else slice t s)"
proof -
  have "r \<in> set (suggestions s)" "fs_id r = sid" "fs_tenant_id r = tid"
    using assms(2) by (auto simp: get_suggestion_def dest: row_find_SomeD split: option.splits)
  from filter_keyed_update [where key = fs_id and tenant = fs_tenant_id and f = f and t = t, OF _ this assms(3)] assms(1)
  show ?thesis by (simp add: update_suggestion_def keys_unique_def)
qed

lemma slice_update_plan:
  assumes "keys_unique s" "p \<in> set (plans s)" "pl_tenant_id p = tid" "\<And>x. pl_tenant_id (f x) = pl_tenant_id x"
  shows "slice t (update_plan (pl_id p) f s) = (if t = tid then update_plan (pl_id p) f (slice t s) else slice t s)"
  using filter_keyed_update [where key = pl_id and tenant = pl_tenant_id and f = f and t = t, OF _ assms(2) refl assms(3,4)] assms(1)
  by (simp add: update_plan_def keys_unique_def)

lemma slice_update_ack:
  assumes "keys_unique s" "a \<in> set (acks s)" "ak_tenant_id a = tid" "\<And>x. ak_tenant_id (f x) = ak_tenant_id x"
  shows "slice t (update_ack (ak_id a) f s) = (if t = tid then update_ack (ak_id a) f (slice t s) else slice t s)"
  using filter_keyed_update [where key = ak_id and tenant = ak_tenant_id and f = f and t = t, OF _ assms(2) refl assms(3,4)] assms(1)
  by (simp add: update_ack_def keys_unique_def)

lemma logs_of_row_update:
  assumes "\<And>x. ex_id (f x) = ex_id x" "\<And>x. ex_tenant_id (f x) = ex_tenant_id x"
  shows "logs_of t (s\<lparr>executions := row_update p f (executions s)\<rparr>) = logs_of t s"
proof -
  have "list_ex (\<lambda>e. ex_id e = i \<and> ex_tenant_id e = t) (row_update p f es) = list_ex (\<lambda>e. ex_id e = i \<and> ex_tenant_id e = t) es"
    for i es by (induction es) (auto simp: assms)
  then show ?thesis by (simp add: logs_of_def)
qed

lemma slice_update_execution:
  assumes "keys_unique s" "get_execution tid eid s = Inr e"
    and f: "\<And>x. ex_id (f x) = ex_id x" "\<And>x. ex_tenant_id (f x) = ex_tenant_id x"
  shows "slice t (update_execution eid f s) = (if t = tid then update_execution eid f (slice t s) else slice t s)"
proof -
  have e: "e \<in> set (executions s)" "ex_id e = eid" "ex_tenant_id e = tid" using get_execution_InrD [OF assms(2)] by auto
  have "slice t (s\<lparr>executions := row_update (\<lambda>e. ex_id e = eid) f (executions s)\<rparr>) =
      (slice t s)\<lparr>executions := filter (\<lambda>r. ex_tenant_id r = t) (row_update (\<lambda>e. ex_id e = eid) f (executions s))\<rparr>"
    using logs_of_row_update [OF f] by (simp add: slice_def)
  with filter_keyed_update [where key = ex_id and tenant = ex_tenant_id and f = f and t = t, OF _ e f(2)] assms(1)
  show ?thesis by (simp add: update_execution_def keys_unique_def)
qed

lemma slice_add_execution:
  assumes "ex_id e \<notin> lg_execution_id ` set (execution_logs s)"
  shows "slice t (add_execution e s) = (if t = ex_tenant_id e then add_execution e (slice t s) else slice t s)"
  using slice_logs_append [OF assms, of t] by (auto simp: add_execution_def)

end
