(* ===== verification/Separation.thy ===== *)
theory Separation
  imports Tenancy
begin

text \<open>
  Every endpoint of the tenants keeps the tenants apart: on the slice of its tenant it answers as on
  the whole database and changes the slice the same way, and no other slice changes.
\<close>

section \<open>Services that work on the database\<close>

lemma scopedI:
  "f (slice tid s) = (fst (f s), slice tid (snd (f s))) \<Longrightarrow> (\<And>t. t \<noteq> tid \<Longrightarrow> slice t (snd (f s)) = slice t s) \<Longrightarrow> scoped tid f s"
  by (simp add: scoped_def)

text \<open>A look-up first: an error ends the service, a row is worked with.\<close>

lemma scoped_lookup:
  assumes "g (slice tid s) = g s" "\<And>v. g s = Inr v \<Longrightarrow> scoped tid (h v) s"
  shows "scoped tid (\<lambda>s. case g s of Inl err \<Rightarrow> (Inl err, s) | Inr v \<Rightarrow> h v s) s"
  using assms by (cases "g s") (simp_all add: scoped_def)

lemma scoped_checked:
  assumes "g (slice tid s) = g s" "g s = None \<Longrightarrow> scoped tid h s"
  shows "scoped tid (\<lambda>s. case g s of Some err \<Rightarrow> (Inl err, s) | None \<Rightarrow> h s) s"
  using assms by (cases "g s") (simp_all add: scoped_def)

lemma scoped_found:
  assumes "g (slice tid s) = g s" "\<And>v. g s = Some v \<Longrightarrow> scoped tid (h v) s"
  shows "scoped tid (\<lambda>s. case g s of None \<Rightarrow> (r, s) | Some v \<Rightarrow> h v s) s"
  using assms by (cases "g s") (simp_all add: scoped_def)

lemma scoped_guard:
  assumes "b (slice tid s) = b s" "b s \<Longrightarrow> scoped tid f s" "\<not> b s \<Longrightarrow> scoped tid g s"
  shows "scoped tid (\<lambda>s. if b s then f s else g s) s"
  using assms by (simp add: scoped_def)

lemma scoped_refused: "scoped tid (\<lambda>s. (Inl err, s)) s"
  by (simp add: scoped_def)

lemma scoped_if: "(b \<Longrightarrow> scoped tid f s) \<Longrightarrow> (\<not> b \<Longrightarrow> scoped tid g s) \<Longrightarrow> scoped tid (\<lambda>s. if b then f s else g s) s"
  by (simp add: scoped_def)

text \<open>A row that is added for the tenant.\<close>

lemma scoped_added:
  assumes "\<And>t. slice t (add s) = (if t = tid then add (slice t s) else slice t s)"
  shows "scoped tid (\<lambda>s. (r, add s)) s"
  using assms by (simp add: scoped_def)

lemma create_execution_scoped:
  assumes "eid \<notin> lg_execution_id ` set (execution_logs s)"
  shows "scoped tid (create_execution eid now tid wid input) s"
proof -
  have "slice t (add_execution (new_execution eid now tid wid input) s) =
      (if t = tid then add_execution (new_execution eid now tid wid input) (slice t s) else slice t s)" for t
    using slice_add_execution [of "new_execution eid now tid wid input" s t] assms by (simp add: new_execution_def)
  then show ?thesis
    by (auto simp: scoped_def create_execution_def Let_def simp del: slice_sel split: sum.splits option.splits)
qed

lemma retry_dead_letter_scoped:
  assumes "new_id \<notin> lg_execution_id ` set (execution_logs s)"
  shows "scoped tid (retry_dead_letter_execution new_id now tid eid uid) s"
proof -
  have "scoped tid (create_execution new_id now tid w input) s" for w input by (rule create_execution_scoped [OF assms])
  then show ?thesis
    by (auto simp: scoped_def retry_dead_letter_execution_def simp del: slice_sel split: sum.splits bool.splits)
qed

lemma workflow_limit_slice [simp]: "workflow_limit tid (slice tid s) = workflow_limit tid s"
proof -
  have "row_count (active_workflow tid) (workflows (slice tid s)) = row_count (active_workflow tid) (workflows s)"
    by (simp only: slice_sel, rule row_count_in_slice) (simp add: active_workflow_def)
  then show ?thesis by (simp add: workflow_limit_def del: slice_sel split: option.split)
qed

lemma add_workflow_scoped: "wf_tenant_id w = tid \<Longrightarrow> scoped tid (add_workflow w) s"
  by (simp add: scoped_def add_workflow_def slice_def logs_of_def)

lemma create_workflow_scoped: "scoped tid (create_workflow i now tid uid name description pattern) s"
  unfolding create_workflow_def by (intro scoped_checked add_workflow_scoped) (simp_all add: new_workflow_def)

lemma change_workflow_scoped:
  assumes "keys_unique s" "\<And>x. wf_tenant_id (f x) = wf_tenant_id x"
  shows "scoped tid (change_workflow tid wid f) s"
  unfolding change_workflow_def using slice_update_workflow [OF assms(1) _ assms(2)]
  by (intro scoped_lookup) (auto intro: scoped_added)

lemma update_workflow_scoped:
  assumes "keys_unique s"
  shows "scoped tid (update_workflow tid wid name description d pattern) s"
  unfolding update_workflow_def
  by (intro scoped_lookup)
    (auto split: option.split intro!: change_workflow_scoped scoped_refused scoped_checked assms)

lemma pause_workflow_dispatch_scoped:
  "keys_unique s \<Longrightarrow> scoped tid (pause_workflow_dispatch now tid wid uid) s"
  unfolding pause_workflow_dispatch_def by (rule change_workflow_scoped) simp_all

lemma resume_workflow_dispatch_scoped:
  "keys_unique s \<Longrightarrow> scoped tid (resume_workflow_dispatch tid wid) s"
  unfolding resume_workflow_dispatch_def by (rule change_workflow_scoped) simp_all

lemma duplicate_workflow_scoped: "scoped tid (duplicate_workflow i now tid uid wid) s"
  unfolding duplicate_workflow_def
  by (intro scoped_lookup scoped_checked add_workflow_scoped) (simp_all add: new_workflow_def)

lemma delete_workflow_scoped:
  assumes "keys_unique s"
  shows "scoped tid (delete_workflow tid wid) s"
proof -
  have "row_count (\<lambda>e. active tid e \<and> ex_workflow_id e = wid) (executions (slice tid s)) =
      row_count (\<lambda>e. active tid e \<and> ex_workflow_id e = wid) (executions s)"
    by (simp only: slice_sel, rule row_count_in_slice) (simp add: active_def)
  then show ?thesis unfolding delete_workflow_def using slice_update_workflow [OF assms]
    by (intro scoped_lookup) (auto simp: scoped_def simp del: slice_sel)
qed

text \<open>Agents. The check of the node reads the agents of all tenants with the workflow.\<close>

lemma node_taken_slice:
  assumes "refs_ok s" "get_workflow tid wid s = Inr w"
  shows "list_ex (\<lambda>x. ac_workflow_id x = wid \<and> ac_node_id x = n) (agent_configs (slice tid s)) =
    list_ex (\<lambda>x. ac_workflow_id x = wid \<and> ac_node_id x = n) (agent_configs s)"
proof -
  have "w \<in> set (workflows s)" "wf_id w = wid" "wf_tenant_id w = tid"
    using assms(2) by (auto simp: get_workflow_def dest: row_find_SomeD split: option.splits)
  then have "ac_tenant_id a = tid" if "a \<in> set (agent_configs s)" "ac_workflow_id a = wid" for a
    using assms(1) that unfolding refs_ok_def by auto
  then show ?thesis by (simp only: slice_sel, intro list_ex_in_slice) auto
qed

lemma create_agent_scoped:
  assumes "refs_ok s"
  shows "scoped tid (create_agent i now tid wid a) s"
  unfolding create_agent_def Let_def
proof (intro scoped_lookup scoped_checked scoped_found scoped_guard scoped_refused)
  show "(tn_max_agents_per_workflow v \<le> int (row_count (agent_of tid wid) (agent_configs (slice tid s)))) =
      (tn_max_agents_per_workflow v \<le> int (row_count (agent_of tid wid) (agent_configs s)))" for v
    by (simp only: row_count_def agents_slice)
  show "scoped tid (\<lambda>s. (Inr (new_agent i now tid wid a), s\<lparr>agent_configs := agent_configs s @ [new_agent i now tid wid a]\<rparr>)) s"
    by (simp add: scoped_def new_agent_def)
qed (simp_all only: node_taken_slice [OF assms] get_workflow_slice find_tenant_slice)

lemma update_agent_scoped:
  assumes "keys_unique s"
  shows "scoped tid (update_agent tid wid aid c) s"
  unfolding update_agent_def
proof (intro scoped_lookup scoped_checked scoped_added)
  fix a t assume "find_agent tid wid aid s = Inr a"
  then have a: "a \<in> set (agent_configs s)" "ac_id a = aid" "ac_tenant_id a = tid"
    by (auto simp: find_agent_def agent_of_def dest: row_find_SomeD split: option.splits)
  show "slice t (update_agent_row aid (change_agent c) s) =
      (if t = tid then update_agent_row aid (change_agent c) (slice t s) else slice t s)"
    using slice_update_agent [OF assms a(1,3), of "change_agent c" t] a(2) by (simp add: change_agent_def)
qed simp_all

lemma refs_log:
  "refs_ok s \<Longrightarrow> l \<in> set (execution_logs s) \<Longrightarrow> e \<in> set (executions s) \<Longrightarrow> a \<in> set (agent_configs s) \<Longrightarrow>
    ex_id e = lg_execution_id l \<Longrightarrow> lg_agent_config_id l = Some (ac_id a) \<Longrightarrow> ac_tenant_id a = ex_tenant_id e"
  unfolding refs_ok_def by blast

lemma refs_suggestion:
  "refs_ok s \<Longrightarrow> r \<in> set (suggestions s) \<Longrightarrow> a \<in> set (agent_configs s) \<Longrightarrow> fs_agent_config_id r = Some (ac_id a) \<Longrightarrow>
    ac_tenant_id a = fs_tenant_id r"
  unfolding refs_ok_def by blast

lemma slice_delete_agent:
  assumes "tenancy s" "a \<in> set (agent_configs s)" "ac_tenant_id a = tid"
  defines "del \<equiv> \<lambda>s. s\<lparr>agent_configs := filter (\<lambda>x. ac_id x \<noteq> ac_id a) (agent_configs s),
      execution_logs := map (\<lambda>l. l\<lparr>lg_agent_config_id := unlink (ac_id a) (lg_agent_config_id l)\<rparr>) (execution_logs s),
      suggestions := map (\<lambda>r. r\<lparr>fs_agent_config_id := unlink (ac_id a) (fs_agent_config_id r)\<rparr>) (suggestions s)\<rparr>"
  shows "slice t (del s) = (if t = tid then del (slice t s) else slice t s)"
proof -
  have refs: "refs_ok s" and ids: "distinct (map ac_id (agent_configs s))"
    using assms(1) by (simp_all add: tenancy_def keys_unique_def)
  let ?g = "\<lambda>l. l\<lparr>lg_agent_config_id := unlink (ac_id a) (lg_agent_config_id l)\<rparr>"
  let ?h = "\<lambda>r. r\<lparr>fs_agent_config_id := unlink (ac_id a) (fs_agent_config_id r)\<rparr>"
  have logs: "logs_of t (del s) = map ?g (logs_of t s)" by (simp add: del_def logs_of_def filter_map comp_def)
  have sugg: "filter (\<lambda>r. fs_tenant_id r = t) (map ?h (suggestions s)) = map ?h (filter (\<lambda>r. fs_tenant_id r = t) (suggestions s))"
    by (simp add: filter_map comp_def)
  show ?thesis
  proof (cases "t = tid")
    case True
    then show ?thesis using logs sugg by (simp add: del_def slice_def conj_commute)
  next
    case False
    have "ac_id x \<noteq> ac_id a" if "x \<in> set (agent_configs s)" "ac_tenant_id x = t" for x
      using ids assms(2,3) that False by (auto simp: distinct_map dest: inj_onD)
    then have "filter (\<lambda>x. ac_id x \<noteq> ac_id a \<and> ac_tenant_id x = t) (agent_configs s) = filter (\<lambda>x. ac_tenant_id x = t) (agent_configs s)"
      by (intro filter_cong) auto
    moreover have "map ?g (logs_of t s) = logs_of t s"
    proof (rule map_idI)
      fix l assume "l \<in> set (logs_of t s)"
      then obtain e where "l \<in> set (execution_logs s)" "e \<in> set (executions s)" "ex_id e = lg_execution_id l" "ex_tenant_id e = t"
        by (auto simp: logs_of_def list_ex_iff)
      with refs_log [OF refs] assms(2,3) False have "lg_agent_config_id l \<noteq> Some (ac_id a)" by metis
      then show "?g l = l" by (simp add: unlink_def)
    qed
    moreover have "map ?h (filter (\<lambda>r. fs_tenant_id r = t) (suggestions s)) = filter (\<lambda>r. fs_tenant_id r = t) (suggestions s)"
    proof (rule map_idI)
      fix r assume "r \<in> set (filter (\<lambda>r. fs_tenant_id r = t) (suggestions s))"
      with refs_suggestion [OF refs _ assms(2)] assms(3) False have "fs_agent_config_id r \<noteq> Some (ac_id a)" by auto
      then show "?h r = r" by (simp add: unlink_def)
    qed
    ultimately show ?thesis using False logs sugg by (simp add: del_def slice_def)
  qed
qed

lemma delete_agent_scoped:
  assumes "tenancy s"
  shows "scoped tid (delete_agent tid wid aid) s"
  unfolding delete_agent_def
proof (intro scoped_lookup scoped_added)
  fix a t assume "find_agent tid wid aid s = Inr a"
  then have a: "a \<in> set (agent_configs s)" "ac_id a = aid" "ac_tenant_id a = tid"
    by (auto simp: find_agent_def agent_of_def dest: row_find_SomeD split: option.splits)
  show "slice t (s\<lparr>agent_configs := filter (\<lambda>x. ac_id x \<noteq> aid) (agent_configs s),
      execution_logs := map (\<lambda>l. l\<lparr>lg_agent_config_id := unlink aid (lg_agent_config_id l)\<rparr>) (execution_logs s),
      suggestions := map (\<lambda>r. r\<lparr>fs_agent_config_id := unlink aid (fs_agent_config_id r)\<rparr>) (suggestions s)\<rparr>) =
    (if t = tid then (slice t s)\<lparr>agent_configs := filter (\<lambda>x. ac_id x \<noteq> aid) (agent_configs (slice t s)),
      execution_logs := map (\<lambda>l. l\<lparr>lg_agent_config_id := unlink aid (lg_agent_config_id l)\<rparr>) (execution_logs (slice t s)),
      suggestions := map (\<lambda>r. r\<lparr>fs_agent_config_id := unlink aid (fs_agent_config_id r)\<rparr>) (suggestions (slice t s))\<rparr> else slice t s)"
    using slice_delete_agent [OF assms a(1,3), of t] a(2) by simp
qed simp_all

section \<open>Credentials, triggers and tools\<close>

lemma credential_name_slice [simp]:
  "list_ex (\<lambda>x. cr_tenant_id x = tid \<and> cr_name x = n \<and> cr_is_active x) (filter (\<lambda>r. cr_tenant_id r = tid) rows) =
    list_ex (\<lambda>x. cr_tenant_id x = tid \<and> cr_name x = n \<and> cr_is_active x) rows"
  by (rule list_ex_in_slice) simp

lemma create_credential_scoped: "scoped tid (create_credential fn st dw tid uid key name auth_type config) s"
  by (auto simp: scoped_def create_credential_def Let_def split: option.splits sum.splits)

lemma delete_credential_scoped:
  assumes "keys_unique s"
  shows "scoped tid (delete_credential tid cid) s"
  unfolding delete_credential_def
proof (intro scoped_lookup scoped_added)
  fix c t assume "get_credential tid cid s = Inr c"
  then have c: "c \<in> set (credentials s)" "cr_tenant_id c = tid"
    by (auto simp: get_credential_def dest: row_find_SomeD split: option.splits)
  let ?f = "\<lambda>s. s\<lparr>credentials := row_update (\<lambda>x. cr_id x = cr_id c) (\<lambda>x. x\<lparr>cr_is_active := False\<rparr>) (credentials s)\<rparr>"
  show "slice t (?f s) = (if t = tid then ?f (slice t s) else slice t s)"
    using filter_keyed_update [where key = cr_id and tenant = cr_tenant_id and t = t, OF _ c(1) refl c(2)] assms
    by (simp add: keys_unique_def)
qed simp_all

lemma create_trigger_scoped:
  assumes "public_id \<notin> tg_public_id ` set (triggers s)"
  shows "scoped tid (create_trigger dw public_id tid wid uid trigger_type config) s"
proof -
  have "\<not> list_ex (\<lambda>x. tg_public_id x = public_id) (triggers s)"
    "\<not> list_ex (\<lambda>x. tg_public_id x = public_id) (filter (\<lambda>r. tg_tenant_id r = tid) (triggers s))"
    using assms by (auto simp: list_ex_iff)
  then show ?thesis unfolding create_trigger_def Let_def
    by (intro scoped_lookup scoped_checked scoped_guard scoped_refused)
      (auto simp: scoped_def split: sum.split option.split)
qed

lemma tool_name_slice [simp]:
  "list_ex (active_tool tid n) (filter (\<lambda>r. tl_tenant_id r = tid) rows) = list_ex (active_tool tid n) rows"
  "list_ex (\<lambda>x. active_tool tid n x \<and> tl_id x \<noteq> i) (filter (\<lambda>r. tl_tenant_id r = tid) rows) =
    list_ex (\<lambda>x. active_tool tid n x \<and> tl_id x \<noteq> i) rows"
  by (rule list_ex_in_slice, simp add: active_tool_def)+

lemma create_tool_scoped: "scoped tid (create_tool net tf i now tid name description tool_type config) s"
  by (auto simp: scoped_def create_tool_def Let_def split: prod.splits sum.splits)

lemma slice_update_tool:
  assumes "keys_unique s" "x \<in> set (tools s)" "tl_tenant_id x = tid" "\<And>x. tl_tenant_id (f x) = tl_tenant_id x"
  shows "slice t (s\<lparr>tools := row_update (\<lambda>y. tl_id y = tl_id x) f (tools s)\<rparr>) =
    (if t = tid then (slice t s)\<lparr>tools := row_update (\<lambda>y. tl_id y = tl_id x) f (tools (slice t s))\<rparr> else slice t s)"
  using filter_keyed_update [where key = tl_id and tenant = tl_tenant_id and f = f and t = t, OF _ assms(2) refl assms(3,4)] assms(1)
  by (simp add: keys_unique_def)

lemma get_tool_InrD: "get_tool tid i s = Inr t \<Longrightarrow> t \<in> set (tools s) \<and> tl_id t = i \<and> tl_tenant_id t = tid"
  by (auto simp: get_tool_def dest: row_find_SomeD split: option.splits)

lemma update_tool_scoped:
  assumes "keys_unique s"
  shows "scoped tid (update_tool net tf tid i name description tool_type config) s"
  unfolding update_tool_def Let_def
proof (intro scoped_lookup scoped_guard scoped_refused scoped_added)
  fix x c t assume "get_tool tid i s = Inr x"
  from get_tool_InrD [OF this] have x: "x \<in> set (tools s)" "tl_tenant_id x = tid" "tl_id x = i" by auto
  let ?f = "\<lambda>x. x\<lparr>tl_name := (case name of None \<Rightarrow> tl_name x | Some n \<Rightarrow> n),
      tl_description := (case description of None \<Rightarrow> tl_description x | Some d \<Rightarrow> d),
      tl_tool_type := (case tool_type of None \<Rightarrow> tl_tool_type x | Some y \<Rightarrow> y), tl_config := c\<rparr>"
  let ?u = "\<lambda>s. s\<lparr>tools := row_update (\<lambda>x. tl_id x = i) ?f (tools s)\<rparr>"
  show "slice t (?u s) = (if t = tid then ?u (slice t s) else slice t s)"
    using slice_update_tool [OF assms x(1,2), of ?f t] x(3) by simp
qed simp_all

lemma delete_tool_scoped:
  assumes "keys_unique s"
  shows "scoped tid (delete_tool tid i) s"
  unfolding delete_tool_def
proof (intro scoped_lookup scoped_added)
  fix x t assume "get_tool tid i s = Inr x"
  from get_tool_InrD [OF this] have x: "x \<in> set (tools s)" "tl_tenant_id x = tid" "tl_id x = i" by auto
  let ?u = "\<lambda>s. s\<lparr>tools := row_update (\<lambda>x. tl_id x = i) (\<lambda>x. x\<lparr>tl_is_active := False\<rparr>) (tools s)\<rparr>"
  show "slice t (?u s) = (if t = tid then ?u (slice t s) else slice t s)"
    using slice_update_tool [OF assms x(1,2), of "\<lambda>x. x\<lparr>tl_is_active := False\<rparr>" t] x(3) by simp
qed simp_all

end
