(* ===== verification/SeparationOps.thy ===== *)
theory SeparationOps
  imports Separation
begin

text \<open>
  The services of the doctor, the alerts, the incidents and the automation keep the tenants apart.
\<close>

section \<open>The doctor\<close>

lemma filter_tenant_update:
  assumes "\<And>x. x \<in> set rows \<Longrightarrow> P x \<Longrightarrow> tenant x = tid" "\<And>x. tenant (f x) = tenant x"
  shows "filter (\<lambda>x. tenant x = t) (row_update P f rows) =
    (if t = tid then row_update P f (filter (\<lambda>x. tenant x = t) rows) else filter (\<lambda>x. tenant x = t) rows)"
proof (cases "t = tid")
  case True
  then show ?thesis using filter_row_update_commute [of P "\<lambda>x. tenant x = t" f rows] assms(2) by simp
next
  case False
  then have "filter (\<lambda>x. tenant x = t) (row_update P f rows) = filter (\<lambda>x. tenant x = t) rows"
    using assms by (induction rows) auto
  with False show ?thesis by simp
qed

lemma doctor_logs_slice:
  "get_execution tid eid s = Inr e \<Longrightarrow> doctor_logs eid (slice tid s) = doctor_logs eid s"
  by (simp add: doctor_logs_def logs_of_execution)

lemma find_agent_for_suggestion_slice [simp]:
  "find_agent_for_suggestion tid wid logs (slice tid s) = find_agent_for_suggestion tid wid logs s"
proof -
  have "filter (unsupported_agent tid wid) (agent_configs (slice tid s)) = filter (unsupported_agent tid wid) (agent_configs s)"
    by (simp only: slice_sel, rule filter_in_slice) (simp add: unsupported_agent_def agent_of_def)
  moreover have "row_find (\<lambda>a. ac_id a = i \<and> ac_tenant_id a = tid) (agent_configs (slice tid s)) =
      row_find (\<lambda>a. ac_id a = i \<and> ac_tenant_id a = tid) (agent_configs s)" for i
    by (simp only: slice_sel, rule row_find_in_slice) simp
  ultimately show ?thesis by (simp only: find_agent_for_suggestion_def)
qed

lemma find_cause_slice [simp]: "find_cause tid wid logs text1 (slice tid s) = find_cause tid wid logs text1 s"
proof -
  have "workflow_has_unsupported_model tid wid (slice tid s) = workflow_has_unsupported_model tid wid s"
    by (simp only: workflow_has_unsupported_model_def slice_sel, rule list_ex_in_slice)
      (simp add: unsupported_agent_def agent_of_def)
  then show ?thesis by (simp only: find_cause_def find_agent_for_suggestion_slice)
qed

lemma slice_add_suggestion:
  assumes "fs_tenant_id r = tid"
  shows "slice t (s\<lparr>suggestions := row_update (\<lambda>x. open_suggestion tid eid x \<and> b x) (dismiss now) (suggestions s) @ [r]\<rparr>) =
    (if t = tid then (slice t s)\<lparr>suggestions := row_update (\<lambda>x. open_suggestion tid eid x \<and> b x) (dismiss now)
        (suggestions (slice t s)) @ [r]\<rparr> else slice t s)"
  using filter_tenant_update [where tenant = fs_tenant_id and tid = tid and t = t and f = "dismiss now" and
      P = "\<lambda>x. open_suggestion tid eid x \<and> b x" and rows = "suggestions s"] assms
  by (auto simp: open_suggestion_def dismiss_def)

lemma diagnose_execution_scoped: "scoped tid (diagnose_execution dw tid eid force) s"
proof (cases "get_execution tid eid s")
  case (Inl err)
  then show ?thesis by (simp add: scoped_def diagnose_execution_def)
next
  case (Inr e)
  then have "ex_tenant_id e = tid" by (auto dest: get_execution_InrD)
  then show ?thesis using Inr doctor_logs_slice [OF Inr]
    by (auto simp: scoped_def diagnose_execution_def Let_def slice_add_suggestion suggestion_row_def
        simp del: slice_sel slice_upd split: sum.split)
qed

lemma agent_snapshots_slice [simp]: "agent_snapshots tid wid (slice tid s) = agent_snapshots tid wid s"
  by (simp only: agent_snapshots_def agents_slice)

lemma replay_error_slice [simp]: "replay_error tid r (slice tid s) = replay_error tid r s"
  by (simp only: replay_error_def validate_replay_patch_def get_workflow_slice agent_snapshots_slice)

text \<open>A look-up by key and tenant decides the tenant of every row with the key.\<close>

lemma slice_mark_suggestion:
  assumes "distinct (map fs_id (suggestions s))" "get_suggestion tid sid s = Inr r" "\<And>x. fs_tenant_id (f x) = fs_tenant_id x"
  shows "slice t (update_suggestion sid f s) = (if t = tid then update_suggestion sid f (slice t s) else slice t s)"
proof -
  have "r \<in> set (suggestions s)" "fs_id r = sid" "fs_tenant_id r = tid"
    using assms(2) by (auto simp: get_suggestion_def dest: row_find_SomeD split: option.splits)
  from filter_keyed_update [where key = fs_id and tenant = fs_tenant_id and f = f and t = t, OF assms(1) this assms(3)]
  show ?thesis by (simp add: update_suggestion_def)
qed

lemma replay_suggestion_scoped:
  assumes "keys_unique s"
  shows "scoped tid (replay_suggestion dw tid sid mode) s"
proof -
  have "slice t (update_suggestion sid (record_replay v) (s\<lparr>replay_runs := replay_runs s @ [run]\<rparr>)) =
      (if t = tid then update_suggestion sid (record_replay v) ((slice t s)\<lparr>replay_runs := replay_runs (slice t s) @ [run]\<rparr>)
       else slice t s)"
    if "get_suggestion tid sid s = Inr r" "rr_tenant_id run = tid" for t v run r
    using slice_mark_suggestion [of "s\<lparr>replay_runs := replay_runs s @ [run]\<rparr>" tid sid r "record_replay v" t] assms that
    by (simp add: get_suggestion_def record_replay_def keys_unique_def)
  then show ?thesis
    by (auto simp: scoped_def replay_suggestion_def Let_def simp del: slice_sel slice_upd split: sum.split)
qed

lemma dismiss_suggestion_scoped:
  assumes "keys_unique s"
  shows "scoped tid (dismiss_suggestion now tid sid) s"
  using slice_mark_suggestion [of s tid sid _ "dismiss now"] assms
  by (auto simp: scoped_def dismiss_suggestion_def keys_unique_def dismiss_def simp del: slice_sel split: sum.split)

text \<open>The patch, operation by operation: each changes one row of the tenant.\<close>

definition patched :: "uuid \<Rightarrow> db \<Rightarrow> http_error + db \<Rightarrow> http_error + db \<Rightarrow> bool" where
  "patched tid s r r' \<longleftrightarrow> r' = map_sum (\<lambda>err. err) (slice tid) r \<and>
    (\<forall>s1. r = Inr s1 \<longrightarrow> (\<forall>t. t \<noteq> tid \<longrightarrow> slice t s1 = slice t s) \<and> keys_unique s1 \<and>
      suggestions s1 = suggestions s \<and> execution_logs s1 = execution_logs s \<and> executions s1 = executions s)"

lemma map_key_row_update: "(\<And>x. key (f x) = key x) \<Longrightarrow> map key (row_update p f xs) = map key xs"
  by (induction xs) auto

lemma apply_agent_operation_slice:
  assumes "keys_unique s"
  shows "patched tid s (apply_agent_operation tid op s) (apply_agent_operation tid op (slice tid s))"
proof -
  let ?find = "\<lambda>s. Option.bind (parse_uuid (py_str (jget ''target_id'' op)))
      (\<lambda>i. row_find (\<lambda>a. ac_id a = i \<and> ac_tenant_id a = tid) (agent_configs s))"
  have "row_find (\<lambda>a. ac_id a = i \<and> ac_tenant_id a = tid) (agent_configs (slice tid s)) =
      row_find (\<lambda>a. ac_id a = i \<and> ac_tenant_id a = tid) (agent_configs s)" for i
    by (simp only: slice_sel, rule row_find_in_slice) simp
  then have found: "?find (slice tid s) = ?find s" by simp
  have other: "suggestions (update_agent_row i f s) = suggestions s" "execution_logs (update_agent_row i f s) = execution_logs s"
    "executions (update_agent_row i f s) = executions s" for i f by (simp_all add: update_agent_row_def)
  have ids: "keys_unique (update_agent_row i (\<lambda>x. x\<lparr>ac_model := v\<rparr>) s)" for i v
    using assms by (simp add: keys_unique_def update_agent_row_def map_key_row_update)
  show ?thesis
  proof (cases "?find s")
    case None
    then show ?thesis using found by (simp add: patched_def apply_agent_operation_def)
  next
    case (Some a)
    then have "a \<in> set (agent_configs s)" "ac_tenant_id a = tid"
      by (auto simp: bind_eq_Some_conv dest: row_find_SomeD)
    from slice_update_agent [OF assms this]
    have row: "slice t (update_agent_row (ac_id a) (\<lambda>x. x\<lparr>ac_model := v\<rparr>) s) =
        (if t = tid then update_agent_row (ac_id a) (\<lambda>x. x\<lparr>ac_model := v\<rparr>) (slice t s) else slice t s)" for v t by simp
    show ?thesis using Some found assms
      by (auto simp: patched_def apply_agent_operation_def row ids other simp del: slice_sel slice_upd split: option.split sum.split)
  qed
qed

lemma apply_tool_operation_slice:
  assumes "keys_unique s"
  shows "patched tid s (apply_tool_operation tid op s) (apply_tool_operation tid op (slice tid s))"
proof -
  let ?find = "\<lambda>s. Option.bind (parse_uuid (py_str (jget ''target_id'' op)))
      (\<lambda>i. row_find (\<lambda>t. tl_id t = i \<and> tl_tenant_id t = tid \<and> tl_is_active t) (tools s))"
  have "row_find (\<lambda>t. tl_id t = i \<and> tl_tenant_id t = tid \<and> tl_is_active t) (tools (slice tid s)) =
      row_find (\<lambda>t. tl_id t = i \<and> tl_tenant_id t = tid \<and> tl_is_active t) (tools s)" for i
    by (simp only: slice_sel, rule row_find_in_slice) simp
  then have found: "?find (slice tid s) = ?find s" by simp
  show ?thesis
  proof (cases "?find s")
    case None
    then show ?thesis using found by (simp add: patched_def apply_tool_operation_def)
  next
    case (Some a)
    let ?new = "(if jget ''path'' op = JStr ''/config/url'' then map_sum (\<lambda>err. err) (\<lambda>v. [(''url'', v)]) (operation_value op)
        else if jget ''path'' op = JStr ''/config/method''
        then map_sum (\<lambda>err. err) (\<lambda>v. [(''method'', v)]) (operation_value op) else Inr [])"
    let ?u = "\<lambda>v s. s\<lparr>tools := row_update (\<lambda>x. tl_id x = tl_id a) (\<lambda>x. x\<lparr>tl_config := v\<rparr>) (tools s)\<rparr>"
    have "a \<in> set (tools s)" "tl_tenant_id a = tid"
      using Some by (auto simp: bind_eq_Some_conv dest: row_find_SomeD)
    from slice_update_tool [OF assms this]
    have row: "slice t (?u v s) = (if t = tid then ?u v (slice t s) else slice t s)" for v t by simp
    have ids: "keys_unique (?u v s)" for v using assms by (simp add: keys_unique_def map_key_row_update)
    show ?thesis
    proof (cases ?new)
      case (Inl err)
      then show ?thesis using Some found by (simp add: patched_def apply_tool_operation_def split del: if_split)
    next
      case (Inr new)
      let ?v = "JObj (dupdate (obj_or_empty (tl_config a)) new)"
      have "apply_tool_operation tid op s = Inr (?u ?v s)" "apply_tool_operation tid op (slice tid s) = Inr (?u ?v (slice tid s))"
        using Some found Inr by (simp_all add: apply_tool_operation_def split del: if_split)
      then show ?thesis using row [of tid ?v] row [of _ ?v] ids [of ?v]
        by (simp add: patched_def del: slice_upd slice_sel)
    qed
  qed
qed

lemma patched_trans:
  assumes "patched tid s (Inr s1) r" "patched tid s1 q q'"
  shows "patched tid s q q'"
  using assms by (auto simp: patched_def)

lemma apply_patch_operations_slice:
  assumes "keys_unique s"
  shows "patched tid s (apply_patch_operations tid ops s) (apply_patch_operations tid ops (slice tid s))"
  using assms
proof (induction ops arbitrary: s)
  case Nil
  then show ?case by (simp add: patched_def)
next
  case (Cons op ops)
  let ?step = "\<lambda>s. if jget ''target_type'' op = JStr ''agent_config'' then apply_agent_operation tid op s
      else if jget ''target_type'' op = JStr ''tool'' then apply_tool_operation tid op s else Inr s"
  have step: "patched tid s (?step s) (?step (slice tid s))"
    using apply_agent_operation_slice [OF Cons.prems] apply_tool_operation_slice [OF Cons.prems] Cons.prems
    by (auto simp: patched_def)
  show ?case
  proof (cases "?step s")
    case (Inl err)
    then show ?thesis using step by (simp add: patched_def split del: if_split)
  next
    case (Inr s1)
    with step have eq: "?step (slice tid s) = Inr (slice tid s1)" and s1: "keys_unique s1"
      by (simp_all add: patched_def split del: if_split)
    show ?thesis using patched_trans [OF step [unfolded Inr] Cons.IH [OF s1]] Inr eq
      by (simp split del: if_split)
  qed
qed

lemma retry_failed_slice:
  assumes "ad_execution_id dw \<notin> lg_execution_id ` set (execution_logs s)"
  shows "retry_failed dw tid r again (slice tid s) = map_sum (\<lambda>err. err) (map_prod (\<lambda>i. i) (slice tid)) (retry_failed dw tid r again s)"
    "retry_failed dw tid r again s = Inr (i, s1) \<Longrightarrow> t \<noteq> tid \<Longrightarrow> slice t s1 = slice t s"
    "retry_failed dw tid r again s = Inr (i, s1) \<Longrightarrow> suggestions s1 = suggestions s"
proof -
  have "slice t (add_execution (new_execution (ad_execution_id dw) (ad_created dw) tid w v) s) =
      (if t = tid then add_execution (new_execution (ad_execution_id dw) (ad_created dw) tid w v) (slice t s) else slice t s)" for t w v
    using slice_add_execution [of "new_execution (ad_execution_id dw) (ad_created dw) tid w v" s t] assms
    by (simp add: new_execution_def)
  then show "retry_failed dw tid r again (slice tid s) = map_sum (\<lambda>err. err) (map_prod (\<lambda>i. i) (slice tid)) (retry_failed dw tid r again s)"
    "retry_failed dw tid r again s = Inr (i, s1) \<Longrightarrow> t \<noteq> tid \<Longrightarrow> slice t s1 = slice t s"
    by (auto simp: retry_failed_def simp del: slice_sel split: sum.splits if_splits)
  show "retry_failed dw tid r again s = Inr (i, s1) \<Longrightarrow> suggestions s1 = suggestions s"
    by (auto simp: retry_failed_def add_execution_def split: sum.splits if_splits)
qed

lemma apply_suggestion_scoped:
  assumes "keys_unique s" "ad_execution_id dw \<notin> lg_execution_id ` set (execution_logs s)"
  shows "scoped tid (apply_suggestion dw tid sid uid again) s"
proof (cases "get_suggestion tid sid s")
  case (Inl err)
  then show ?thesis by (simp add: scoped_def apply_suggestion_def)
next
  case (Inr r)
  show ?thesis
  proof (cases "closed r \<or> validate_patch_operations (fs_patch r) \<noteq> None")
    case True
    then show ?thesis using Inr by (auto simp: scoped_def apply_suggestion_def split: option.split)
  next
    case False
    note pending = False
    note patch = apply_patch_operations_slice [OF assms(1), of tid "operation_list (fs_patch r)", unfolded patched_def]
    show ?thesis
    proof (cases "apply_patch_operations tid (operation_list (fs_patch r)) s")
      case (Inl err)
      then show ?thesis using patch \<open>get_suggestion tid sid s = Inr r\<close> pending by (simp add: scoped_def apply_suggestion_def)
    next
      case (Inr s1)
      then have fresh: "ad_execution_id dw \<notin> lg_execution_id ` set (execution_logs s1)" using patch assms(2) by simp
      show ?thesis
      proof (cases "retry_failed dw tid r again s1")
        case (Inl err)
        then show ?thesis using patch \<open>get_suggestion tid sid s = Inr r\<close> pending
          \<open>apply_patch_operations tid (operation_list (fs_patch r)) s = Inr s1\<close> retry_failed_slice(1) [OF fresh, of tid r again]
          by (simp add: scoped_def apply_suggestion_def)
      next
        case (Inr q)
        obtain i s2 where q: "q = (i, s2)" by fastforce
        note retried = retry_failed_slice [OF fresh, of tid r again, unfolded Inr q]
        have "suggestions s2 = suggestions s"
          using retried(3) patch \<open>apply_patch_operations tid (operation_list (fs_patch r)) s = Inr s1\<close> by simp
        then have "slice t (update_suggestion sid (mark_applied dw uid) s2) =
            (if t = tid then update_suggestion sid (mark_applied dw uid) (slice t s2) else slice t s2)" for t
          using slice_mark_suggestion [of s2 tid sid r "mark_applied dw uid" t] assms(1) \<open>get_suggestion tid sid s = Inr r\<close>
          by (simp add: keys_unique_def get_suggestion_def mark_applied_def)
        moreover have "\<forall>t. t \<noteq> tid \<longrightarrow> slice t s2 = slice t s"
          using retried(2) patch \<open>apply_patch_operations tid (operation_list (fs_patch r)) s = Inr s1\<close> by simp
        ultimately show ?thesis
          using patch retried(1) Inr q \<open>get_suggestion tid sid s = Inr r\<close> pending
            \<open>apply_patch_operations tid (operation_list (fs_patch r)) s = Inr s1\<close>
          by (simp add: scoped_def apply_suggestion_def)
      qed
    qed
  qed
qed

end
