(* ===== verification/SeparationWorker.thy ===== *)
theory SeparationWorker
  imports SeparationOps
begin

text \<open>
  Alerts, incidents, configurations, plans and the worker keep the tenants apart.
\<close>

section \<open>Configurations of the tenant\<close>

lemma slice_update_tenant:
  assumes "\<And>x. tn_id (f x) = tn_id x"
  shows "slice t (s\<lparr>tenants := row_update (\<lambda>x. tn_id x = tid) f (tenants s)\<rparr>) =
    (if t = tid then (slice t s)\<lparr>tenants := row_update (\<lambda>x. tn_id x = tid) f (tenants (slice t s))\<rparr> else slice t s)"
  using filter_tenant_update [where tenant = tn_id and P = "\<lambda>x. tn_id x = tid" and f = f and t = t and rows = "tenants s", OF _ assms]
  by simp

lemma scoped_read_back:
  assumes "g (slice tid (u s)) = g (u s)" "\<And>t. slice t (u s) = (if t = tid then u (slice t s) else slice t s)"
  shows "scoped tid (\<lambda>s. (g (u s), u s)) s"
proof -
  have "u (slice tid s) = slice tid (u s)" using assms(2) [of tid] by simp
  then show ?thesis using assms by (simp add: scoped_def)
qed

lemma update_worker_config_scoped: "scoped tid (update_worker_config tid c) s"
  unfolding update_worker_config_def Let_def
  by (intro scoped_lookup scoped_read_back slice_update_tenant) (simp_all del: slice_upd)

lemma update_alert_policy_scoped: "scoped tid (update_alert_policy tid p) s"
  unfolding update_alert_policy_def Let_def
  by (intro scoped_lookup scoped_read_back slice_update_tenant) (simp_all del: slice_upd)

section \<open>Alerts\<close>

lemma create_alert_channel_scoped:
  "scoped tid (without_traffic (create_alert_channel net fn st dw tid uid name channel_type config) tf) s"
  by (auto simp: scoped_def without_traffic_def create_alert_channel_def Let_def split: prod.splits option.splits sum.splits)

lemma due_alerts_slice [simp]: "due_alerts b now tid p cid alerts (slice tid s) = due_alerts b now tid p cid alerts s"
  by (simp add: due_alerts_def del: slice_sel)

lemma record_deliveries_slice:
  assumes "record_deliveries dw tid c target n due rep s = (rep1, s1)"
  shows "record_deliveries dw tid c target n due rep (slice tid s) = (rep1, slice tid s1)"
    "t \<noteq> tid \<Longrightarrow> slice t s1 = slice t s"
proof -
  have "\<forall>d \<in> set (delivery_rows dw tid c target n k due). dl_tenant_id d = tid" for k
    by (auto simp: delivery_rows_def delivery_row_def)
  then have "filter (\<lambda>d. dl_tenant_id d = t) (delivery_rows dw tid c target n k due) =
      (if t = tid then delivery_rows dw tid c target n k due else [])" for t k
    by (auto simp: filter_id_conv filter_empty_conv)
  then show "record_deliveries dw tid c target n due rep (slice tid s) = (rep1, slice tid s1)"
    "t \<noteq> tid \<Longrightarrow> slice t s1 = slice t s"
    using assms by (auto simp: record_deliveries_def Let_def)
qed

definition delivered ::
  "uuid \<Rightarrow> db \<Rightarrow> (http_error + delivery_report \<times> db) \<times> traffic \<Rightarrow> (http_error + delivery_report \<times> db) \<times> traffic \<Rightarrow> bool" where
  "delivered tid s r r' \<longleftrightarrow> r' = map_prod (map_sum (\<lambda>err. err) (map_prod (\<lambda>v. v) (slice tid))) (\<lambda>tf. tf) r \<and>
    (\<forall>rep s1. fst r = Inr (rep, s1) \<longrightarrow> (\<forall>t. t \<noteq> tid \<longrightarrow> slice t s1 = slice t s))"

lemma deliver_route_slice:
  "delivered tid s (deliver_route net fn st dw tid b p alerts r rep s tf) (deliver_route net fn st dw tid b p alerts r rep (slice tid s) tf)"
proof (cases "Option.bind (rt_credential_id r) (\<lambda>i. get_alert_channel tid i s)")
  case None
  then show ?thesis by (simp add: delivered_def deliver_route_def)
next
  case (Some c)
  let ?due = "due_alerts b (dv_now dw) tid p (ch_id c) alerts s"
  let ?rep = "skip_alerts (length alerts - length ?due) rep"
  obtain n tf1 where n: "notify_channel net fn st (dv_generated dw (length (vr_items rep))) c ?due tf = (n, tf1)" by fastforce
  show ?thesis
  proof (cases "?due = [] \<or> isl n")
    case True
    then show ?thesis using Some n by (auto simp: delivered_def deliver_route_def Let_def split: sum.split)
  next
    case False
    then obtain v where v: "n = Inr v" by (cases n) auto
    show ?thesis
    proof (cases "target_preview c r")
      case (Inl msg)
      then show ?thesis using False Some n v by (simp add: delivered_def deliver_route_def Let_def)
    next
      case (Inr target)
      obtain rep1 s1 where recorded: "record_deliveries dw tid c target v ?due ?rep s = (rep1, s1)" by fastforce
      show ?thesis using False Some n v Inr recorded record_deliveries_slice [OF recorded]
        by (simp add: delivered_def deliver_route_def Let_def)
    qed
  qed
qed

lemma deliver_routes_slice:
  "delivered tid s (deliver_routes net fn st dw tid b p alerts rs rep s tf) (deliver_routes net fn st dw tid b p alerts rs rep (slice tid s) tf)"
proof (induction rs arbitrary: rep s tf)
  case Nil
  then show ?case by (simp add: delivered_def)
next
  case (Cons r rs)
  show ?case
  proof (cases "rt_enabled r")
    case False
    then show ?thesis using Cons.IH by simp
  next
    case True
    obtain q tf1 where q: "deliver_route net fn st dw tid b p alerts r rep s tf = (q, tf1)" by fastforce
    note step = deliver_route_slice [of tid s net fn st dw b p alerts r rep tf, unfolded q]
    show ?thesis
    proof (cases q)
      case (Inl err)
      then show ?thesis using True q step by (simp add: delivered_def)
    next
      case (Inr v)
      obtain rep1 s1 where v: "v = (rep1, s1)" by fastforce
      then show ?thesis using True q step Inr Cons.IH [of s1 rep1 tf1] by (simp add: delivered_def)
    qed
  qed
qed

lemma deliver_dispatch_alerts_scoped:
  "scoped tid (without_traffic (deliver_dispatch_alerts net fn st dw tid w b) tf) s"
proof (cases "preview_alert_policy tid w (dv_health_now dw) s")
  case (Inl err)
  then show ?thesis by (simp add: scoped_def without_traffic_def deliver_dispatch_alerts_def)
next
  case (Inr pv)
  show ?thesis
  proof (cases "get_alert_policy tid s")
    case (Inl err)
    then show ?thesis using \<open>preview_alert_policy tid w (dv_health_now dw) s = Inr pv\<close>
      by (simp add: scoped_def without_traffic_def deliver_dispatch_alerts_def)
  next
    case (Inr p)
    obtain q tf1 where q: "deliver_routes net fn st dw tid b p (pp_alerts pv) (ap_channels p) no_delivery s tf = (q, tf1)"
      by fastforce
    from deliver_routes_slice [of tid s net fn st dw b p "pp_alerts pv" "ap_channels p" no_delivery tf, unfolded q]
    show ?thesis using \<open>preview_alert_policy tid w (dv_health_now dw) s = Inr pv\<close> Inr q
      by (cases q) (auto simp: delivered_def scoped_def without_traffic_def deliver_dispatch_alerts_def simp del: slice_sel)
  qed
qed

section \<open>Incidents and plans\<close>

lemma open_acknowledgement_InrD:
  "open_acknowledgement tid key s = Inr (Some a) \<Longrightarrow> a \<in> set (acks s) \<and> ak_tenant_id a = tid"
proof -
  assume "open_acknowledgement tid key s = Inr (Some a)"
  then obtain k where "filter (open_ack tid k) (acks s) = [a]"
    by (auto simp: open_acknowledgement_def one_or_none_Some split: option.splits)
  then have "a \<in> set (filter (open_ack tid k) (acks s))" by simp
  then show ?thesis by (simp add: open_ack_def)
qed

lemma acknowledge_incident_scoped:
  assumes "keys_unique s"
  shows "scoped tid (acknowledge_incident dw now tid u n w) s"
proof (cases "runbook_context tid w now s")
  case (Inl err)
  then show ?thesis by (simp add: scoped_def acknowledge_incident_def)
next
  case (Inr c)
  obtain h p alerts where c: "c = (h, p, alerts)" using prod_cases3 by blast
  show ?thesis
  proof (cases "incident_key alerts")
    case None
    then show ?thesis using Inr c by (simp add: scoped_def acknowledge_incident_def)
  next
    case (Some key)
    consider err where "open_acknowledgement tid (Some key) s = Inl err"
      | "open_acknowledgement tid (Some key) s = Inr None"
      | a where "open_acknowledgement tid (Some key) s = Inr (Some a)"
      by (cases "open_acknowledgement tid (Some key) s") auto
    then show ?thesis
    proof cases
      case 1
      then show ?thesis using Inr c Some by (simp add: scoped_def acknowledge_incident_def)
    next
      case 2
      then show ?thesis using Inr c Some
        by (simp add: scoped_def acknowledge_incident_def acknowledged_by_def blank_ack_def Let_def)
    next
      case 3
      from open_acknowledgement_InrD [OF this] slice_update_ack [OF assms, of a tid "acknowledged_by u alerts n"]
      show ?thesis using 3 Inr c Some
        by (simp add: scoped_def acknowledge_incident_def acknowledged_by_def del: slice_sel)
    qed
  qed
qed

lemma resolve_incident_scoped:
  assumes "keys_unique s"
  shows "scoped tid (resolve_incident now resolved tid u n w) s"
proof -
  have "slice t (update_ack (ak_id a) (resolved_by u n resolved) s) =
      (if t = tid then update_ack (ak_id a) (resolved_by u n resolved) (slice t s) else slice t s)"
    if "open_acknowledgement tid key s = Inr (Some a)" for a key t
    using slice_update_ack [OF assms, of a tid "resolved_by u n resolved" t] open_acknowledgement_InrD [OF that]
    by (simp add: resolved_by_def)
  then show ?thesis
    by (auto simp: scoped_def resolve_incident_def simp del: slice_sel split: sum.split option.split)
qed

lemma pl_tenant_new: "pl_tenant_id (new_plan i c tid u r) = tid"
  by (simp add: new_plan_def)

lemma create_plan_scoped: "scoped tid (create_plan ck dw tid u code w sla) s"
proof -
  have "row_count (pending_plan tid code) (plans (slice tid s)) = row_count (pending_plan tid code) (plans s)"
    by (simp only: slice_sel, rule row_count_in_slice) (simp add: pending_plan_def)
  moreover have "find_recommendation ck tid code w sla (slice tid s) = find_recommendation ck tid code w sla s"
    by (simp only: find_recommendation_def get_recommendations_slice)
  ultimately show ?thesis
    by (auto simp: scoped_def create_plan_def Let_def pl_tenant_new simp del: slice_sel split: sum.split option.split) simp
qed

lemma get_plan_InrD: "get_plan tid pid s = Inr p \<Longrightarrow> p \<in> set (plans s) \<and> pl_id p = pid \<and> pl_tenant_id p = tid"
  by (auto simp: get_plan_def dest: row_find_SomeD split: option.splits)

lemma decide_plan_scoped:
  assumes "keys_unique s" "\<And>x. pl_tenant_id (f x) = pl_tenant_id x"
  shows "scoped tid (\<lambda>s. case get_plan tid pid s of Inl err \<Rightarrow> (Inl err, s)
    | Inr p \<Rightarrow> if pl_status p \<noteq> PlPendingApproval then (Inl err', s) else (Inr (f p), update_plan pid f s)) s"
proof (intro scoped_lookup scoped_if scoped_refused scoped_added)
  fix p t assume "get_plan tid pid s = Inr p"
  from get_plan_InrD [OF this] slice_update_plan [OF assms(1) _ _ assms(2), of p tid t]
  show "slice t (update_plan pid f s) = (if t = tid then update_plan pid f (slice t s) else slice t s)" by simp
qed simp_all

lemma approve_plan_scoped: "keys_unique s \<Longrightarrow> scoped tid (approve_plan now tid u pid) s"
  unfolding approve_plan_def Let_def by (rule decide_plan_scoped) simp_all

lemma reject_plan_scoped: "keys_unique s \<Longrightarrow> scoped tid (reject_plan now tid u pid n) s"
  unfolding reject_plan_def Let_def by (rule decide_plan_scoped) simp_all

section \<open>The worker\<close>

lemma slice_update_owned_plan:
  assumes "\<forall>q \<in> set (plans s). pl_id q = pid \<longrightarrow> pl_tenant_id q = tid" "\<And>x. pl_tenant_id (f x) = pl_tenant_id x"
  shows "slice t (update_plan pid f s) = (if t = tid then update_plan pid f (slice t s) else slice t s)"
  using filter_owned_update [where key = pl_id and tenant = pl_tenant_id and f = f and t = t, OF assms]
  by (simp add: update_plan_def)

lemma slice_update_owned_execution:
  assumes "\<forall>e \<in> set (executions s). ex_id e = eid \<longrightarrow> ex_tenant_id e = tid"
    and f: "\<And>x. ex_id (f x) = ex_id x" "\<And>x. ex_tenant_id (f x) = ex_tenant_id x"
  shows "slice t (update_execution eid f s) = (if t = tid then update_execution eid f (slice t s) else slice t s)"
proof -
  have "slice t (s\<lparr>executions := row_update (\<lambda>e. ex_id e = eid) f (executions s)\<rparr>) =
      (slice t s)\<lparr>executions := filter (\<lambda>r. ex_tenant_id r = t) (row_update (\<lambda>e. ex_id e = eid) f (executions s))\<rparr>"
    using logs_of_row_update [OF f] by (simp add: slice_def)
  with filter_owned_update [where key = ex_id and tenant = ex_tenant_id and f = f and t = t, OF assms(1) f(2)]
  show ?thesis by (simp add: update_execution_def)
qed

lemma slice_resume_workflows:
  "slice t (resume_workflows tid s) = (if t = tid then resume_workflows tid (slice t s) else slice t s)"
  using filter_tenant_update [where tenant = wf_tenant_id and tid = tid and t = t and rows = "workflows s" and
      P = "\<lambda>w. wf_tenant_id w = tid \<and> wf_dispatch_paused w" and f = "\<lambda>w. w\<lparr>wf_dispatch_paused := False\<rparr>"]
  by (simp add: resume_workflows_def)

lemma execute_resume_guard_scoped: "scoped (pl_tenant_id p) (execute_resume_guard now p) s"
proof -
  have "row_count (\<lambda>w. wf_tenant_id w = pl_tenant_id p \<and> wf_dispatch_paused w) (workflows (slice (pl_tenant_id p) s)) =
      row_count (\<lambda>w. wf_tenant_id w = pl_tenant_id p \<and> wf_dispatch_paused w) (workflows s)"
    by (simp only: slice_sel, rule row_count_in_slice) simp
  then show ?thesis
    by (auto simp: scoped_def execute_resume_guard_def slice_resume_workflows simp del: slice_sel split: sum.split)
qed

lemma find_dead_letter_retry_source_slice [simp]:
  "find_dead_letter_retry_source tid (slice tid s) = find_dead_letter_retry_source tid s"
proof -
  have "scan_window tid (slice tid s) = scan_window tid s"
    by (simp only: scan_window_def slice_sel, subst filter_in_slice) auto
  then show ?thesis by (simp only: find_dead_letter_retry_source_def)
qed

lemma retry_dead_letter_rows:
  "snd (retry_dead_letter_execution i now tid eid uid s) =
    (case fst (retry_dead_letter_execution i now tid eid uid s) of Inl _ \<Rightarrow> s | Inr e \<Rightarrow> add_execution e s)"
  by (auto simp: retry_dead_letter_execution_def create_execution_snd split: sum.split bool.split)

lemma retry_dead_letter_InrD:
  assumes "retry_dead_letter_execution i now tid eid uid s = (Inr e, s1)"
  shows "s1 = add_execution e s" "ex_id e = i" "ex_tenant_id e = tid"
proof -
  obtain src where "get_execution tid eid s = Inr src"
    using assms by (auto simp: retry_dead_letter_execution_def split: sum.splits)
  from retry_dead_letter_input [OF this assms] obtain w input
    where "create_execution i now tid w input s = (Inr e, s1)" by blast
  with create_execution_row [of i now tid w input s e] create_execution_snd [of i now tid w input s]
  show "s1 = add_execution e s" "ex_id e = i" "ex_tenant_id e = tid" by (simp_all add: new_execution_def)
qed

text \<open>What a plan needs of the rows of others: the identifier it draws is in no other tenant's use.\<close>

definition plan_ready :: "worker_env \<Rightarrow> uuid \<Rightarrow> db \<Rightarrow> automation_plan \<Rightarrow> bool" where
  "plan_ready env tid s p \<longleftrightarrow> pl_tenant_id p = tid \<and> (\<forall>q \<in> set (plans s). pl_id q = pl_id p \<longrightarrow> pl_tenant_id q = tid) \<and>
    (\<forall>e \<in> set (executions s). ex_id e = pw_fresh env (pl_id p) \<longrightarrow> ex_tenant_id e = tid) \<and>
    pw_fresh env (pl_id p) \<notin> lg_execution_id ` set (execution_logs s)"

lemma execute_retry_scoped:
  assumes "plan_ready env tid s p"
  shows "scoped tid (execute_approval_gated_retry env p) s"
proof (cases "find_dead_letter_retry_source tid s")
  case None
  then show ?thesis using assms by (simp add: scoped_def execute_approval_gated_retry_def plan_ready_def)
next
  case (Some source)
  have tid: "pl_tenant_id p = tid" using assms by (simp add: plan_ready_def)
  let ?retry = "retry_dead_letter_execution (pw_fresh env (pl_id p)) (pw_created env (pl_id p)) tid (ex_id source) (retry_actor_id p)"
  have retry: "scoped tid ?retry s" by (rule retry_dead_letter_scoped) (use assms in \<open>simp add: plan_ready_def\<close>)
  obtain r s1 where r: "?retry s = (r, s1)" by fastforce
  show ?thesis
  proof (cases r)
    case (Inl err)
    then show ?thesis using retry r Some tid
      by (cases err) (auto simp: scoped_def execute_approval_gated_retry_def simp del: slice_sel)
  next
    case (Inr e)
    let ?f = "\<lambda>x. x\<lparr>ex_input_data := mark_automated (pl_id p) (ex_input_data x)\<rparr>"
    have "s1 = add_execution e s" "ex_id e = pw_fresh env (pl_id p)" "ex_tenant_id e = tid"
      using retry_dead_letter_InrD [OF r [unfolded Inr]] by simp_all
    then have "\<forall>x \<in> set (executions s1). ex_id x = ex_id e \<longrightarrow> ex_tenant_id x = tid"
      using assms by (auto simp: plan_ready_def add_execution_def)
    from slice_update_owned_execution [OF this, of ?f] retry r Inr Some tid
    show ?thesis by (simp add: scoped_def execute_approval_gated_retry_def del: slice_sel)
  qed
qed

lemma execute_plan_scoped:
  assumes "plan_ready env tid s p"
  shows "scoped tid (execute_plan env p) s"
  using execute_resume_guard_scoped [of p "pw_now env" s] execute_retry_scoped [OF assms] assms
  by (auto simp: scoped_def execute_plan_def plan_ready_def)

definition grown :: "uuid \<Rightarrow> db \<Rightarrow> db \<Rightarrow> bool" where
  "grown tid s s1 \<longleftrightarrow> execution_logs s1 = execution_logs s \<and> (\<forall>e \<in> set (executions s1). ex_tenant_id e = tid \<or>
    (\<exists>x \<in> set (executions s). ex_id x = ex_id e \<and> ex_tenant_id x = ex_tenant_id e))"

lemma grown_refl: "grown tid s s"
  by (auto simp: grown_def)

lemma grown_retry:
  assumes "retry_dead_letter_execution i now tid eid uid s = (r, s1)"
  shows "grown tid s s1"
  using retry_dead_letter_rows [of i now tid eid uid s] retry_dead_letter_InrD [of i now tid eid uid s] assms
  by (cases r) (auto simp: grown_def add_execution_def)

lemma grown_update_execution:
  assumes "grown tid s s1" "\<And>x. ex_id (f x) = ex_id x \<and> ex_tenant_id (f x) = ex_tenant_id x"
  shows "grown tid s (update_execution i f s1)"
  using assms by (auto simp: grown_def update_execution_def row_update_def)

lemma execute_plan_grows: "grown (pl_tenant_id p) s (snd (execute_plan env p s))"
proof -
  have "grown (pl_tenant_id p) s (snd (execute_approval_gated_retry env p s))"
    by (auto simp: execute_approval_gated_retry_def grown_refl intro: grown_retry grown_update_execution
        split: option.split prod.split sum.split http_error.split)
  moreover have "grown (pl_tenant_id p) s (snd (execute_resume_guard (pw_now env) p s))"
    by (auto simp: execute_resume_guard_def resume_workflows_def grown_def split: sum.split)
  ultimately show ?thesis by (simp add: execute_plan_def grown_refl)
qed

lemma execute_plan_rows:
  assumes "execute_plan env p s = (r, s1)"
  shows "plans s1 = plans s" "execution_logs s1 = execution_logs s"
    "e \<in> set (executions s1) \<Longrightarrow> ex_tenant_id e = pl_tenant_id p \<or>
      (\<exists>x \<in> set (executions s). ex_id x = ex_id e \<and> ex_tenant_id x = ex_tenant_id e)"
  using execute_plan_grows [of p s env] plans_execute [of env p s] assms by (auto simp: grown_def)

lemma plan_ready_step:
  assumes "plan_ready env tid s p" "plan_ready env tid s q"
    and "execute_plan env q (update_plan (pl_id q) f s) = (r, s1)"
    and f: "\<And>x. pl_id (f x) = pl_id x \<and> pl_tenant_id (f x) = pl_tenant_id x"
      "\<And>x. pl_id (g x) = pl_id x \<and> pl_tenant_id (g x) = pl_tenant_id x"
  shows "plan_ready env tid (update_plan (pl_id q) g s1) p"
proof -
  note rows = execute_plan_rows [OF assms(3)]
  have keep: "\<forall>x \<in> set (row_update P h rs). pl_id x = pl_id p \<longrightarrow> pl_tenant_id x = tid"
    if "\<forall>x \<in> set rs. pl_id x = pl_id p \<longrightarrow> pl_tenant_id x = tid" "\<And>x. pl_id (h x) = pl_id x \<and> pl_tenant_id (h x) = pl_tenant_id x"
    for h P rs using that by (auto simp: row_update_def)
  have "\<forall>x \<in> set (plans s). pl_id x = pl_id p \<longrightarrow> pl_tenant_id x = tid" using assms(1) by (simp add: plan_ready_def)
  from keep [OF keep [OF this f(1)] f(2)]
  have "\<forall>x \<in> set (plans (update_plan (pl_id q) g s1)). pl_id x = pl_id p \<longrightarrow> pl_tenant_id x = tid"
    using rows(1) by (simp add: update_plan_def)
  moreover have "\<forall>e \<in> set (executions s1). ex_id e = pw_fresh env (pl_id p) \<longrightarrow> ex_tenant_id e = tid"
  proof (intro ballI impI)
    fix e assume e: "e \<in> set (executions s1)" "ex_id e = pw_fresh env (pl_id p)"
    from rows(3) [OF e(1)] consider "ex_tenant_id e = pl_tenant_id q"
      | x where "x \<in> set (executions s)" "ex_id x = ex_id e" "ex_tenant_id x = ex_tenant_id e"
      by (auto simp: update_plan_def)
    then show "ex_tenant_id e = tid"
      by cases (use e(2) assms(1,2) in \<open>auto simp: plan_ready_def\<close>)
  qed
  ultimately show ?thesis using assms(1) rows(2) by (simp add: plan_ready_def update_plan_def)
qed

lemma worker_loop_scoped:
  assumes "\<forall>p \<in> set ps. plan_ready env tid s p"
  shows "scoped tid (worker_loop env ps r) s"
  using assms
proof (induction ps arbitrary: r s)
  case Nil
  then show ?case by (simp add: scoped_def)
next
  case (Cons p ps)
  show ?case
  proof (cases "terminal_plan_status (pl_status p)")
    case True
    then show ?thesis using Cons by simp
  next
    case False
    let ?f = "\<lambda>p. p\<lparr>pl_status := PlExecuting\<rparr>" and ?s = "update_plan (pl_id p) (\<lambda>p. p\<lparr>pl_status := PlExecuting\<rparr>) s"
    obtain q s1 where q: "execute_plan env p ?s = (q, s1)" by fastforce
    let ?g = "close_plan (pw_now env) q"
    have g: "pl_id (?g x) = pl_id x \<and> pl_tenant_id (?g x) = pl_tenant_id x" for x
      by (simp add: close_plan_def split: sum.split prod.split)
    have p: "plan_ready env tid s p" using Cons.prems by simp
    have own: "\<forall>x \<in> set (plans s). pl_id x = pl_id p \<longrightarrow> pl_tenant_id x = tid" using p by (simp add: plan_ready_def)
    note marked = slice_update_owned_plan [OF own, of ?f]
    have "plan_ready env tid ?s p" using p by (auto simp: plan_ready_def update_plan_def row_update_def)
    from execute_plan_scoped [OF this] have executed: "scoped tid (execute_plan env p) ?s" .
    have next1: "\<forall>x \<in> set (p # ps). plan_ready env tid (update_plan (pl_id p) ?g s1) x"
      using plan_ready_step [OF _ p q, of _ ?g] g Cons.prems by auto
    then have "\<forall>x \<in> set (plans s1). pl_id x = pl_id p \<longrightarrow> pl_tenant_id x = tid"
      using own execute_plan_rows(1) [OF q] by (auto simp: update_plan_def row_update_def)
    note closed1 = slice_update_owned_plan [OF this, of ?g] 
    have rest: "scoped tid (worker_loop env ps (count_outcome q (r\<lparr>wk_claimed := wk_claimed r + 1\<rparr>))) (update_plan (pl_id p) ?g s1)"
      using Cons.IH next1 by simp
    show ?thesis using False q marked executed closed1 rest g
      by (simp add: scoped_def del: slice_sel)
  qed
qed

lemma run_plan_worker_once_scoped:
  assumes "\<forall>p \<in> set (plans s). pl_tenant_id p = tid \<longrightarrow> plan_ready env tid s p"
  shows "scoped tid (run_plan_worker_once env limit (Some tid)) s"
proof -
  have "approved_queue (Some tid) limit (slice tid s) = approved_queue (Some tid) limit s"
    by (simp only: approved_queue_def slice_sel option.case, subst filter_in_slice) auto
  moreover have "\<forall>p \<in> set (approved_queue (Some tid) limit s). plan_ready env tid s p"
    using assms by (auto simp: approved_queue_def dest!: in_set_takeD)
  ultimately show ?thesis using worker_loop_scoped by (simp add: scoped_def run_plan_worker_once_def del: slice_sel)
qed

end
