(* ===== verification/Isolation.thy ===== *)
theory Isolation
  imports SeparationWorker
begin

text \<open>
  The isolation of the tenants at the boundary of the application: a request of a user sees and
  changes what belongs to the user's tenant and nothing else, in the database, in the registry of
  running executions, in the cache and among the background tasks.
\<close>

section \<open>All routers\<close>

datatype tenant_request =
  ExecutionRequest execution_request
| ConnectorRequest string connector_request
| WorkflowRequest workflow_request
| AgentRequest agent_request
| ToolRequest tool_request
| DoctorRequest doctor_request
| DashboardRequest dashboard_request
| AlertRequest alert_request
| IncidentRequest incident_request
| InsightRequest insight_request
| PlanRequest plan_request
| WorkerRequest worker_request

datatype tenant_answer =
  ExecutionAnswer execution_answer
| ConnectorAnswer connector_answer
| WorkflowAnswer workflow_answer
| AgentAnswer agent_answer
| ToolAnswer tool_response_body
| DoctorAnswer doctor_answer
| DashboardAnswer dashboard_answer
| AlertAnswer alert_answer
| IncidentAnswer incident_answer
| InsightAnswer insight_answer
| PlanAnswer plan_answer
| WorkerAnswer worker_answer

definition answering :: "('a \<Rightarrow> tenant_answer) \<Rightarrow> (http_error + 'a) \<times> api_state \<Rightarrow> (http_error + tenant_answer) \<times> api_state" where
  "answering f r = map_prod (map_sum (\<lambda>err. err) f) (\<lambda>x. x) r"

fun serve_request :: "api_env \<Rightarrow> api_draw \<Rightarrow> string \<Rightarrow> tenant_request \<Rightarrow> api_state \<Rightarrow> (http_error + tenant_answer) \<times> api_state" where
  "serve_request e dw token (ExecutionRequest q) = (\<lambda>x. answering ExecutionAnswer (serve_execution e dw token q x))"
| "serve_request e dw token (ConnectorRequest base q) = (\<lambda>x. answering ConnectorAnswer (serve_connector e dw base token q x))"
| "serve_request e dw token (WorkflowRequest q) = (\<lambda>x. answering WorkflowAnswer (serve_workflow e dw token q x))"
| "serve_request e dw token (AgentRequest q) = (\<lambda>x. answering AgentAnswer (serve_agent e dw token q x))"
| "serve_request e dw token (ToolRequest q) = (\<lambda>x. answering ToolAnswer (serve_tool e dw token q x))"
| "serve_request e dw token (DoctorRequest q) = (\<lambda>x. answering DoctorAnswer (serve_doctor e dw token q x))"
| "serve_request e dw token (DashboardRequest q) = (\<lambda>x. answering DashboardAnswer (serve_dashboard e dw token q x))"
| "serve_request e dw token (AlertRequest q) = (\<lambda>x. answering AlertAnswer (serve_alert e dw token q x))"
| "serve_request e dw token (IncidentRequest q) = (\<lambda>x. answering IncidentAnswer (serve_incident e dw token q x))"
| "serve_request e dw token (InsightRequest q) = (\<lambda>x. answering InsightAnswer (serve_insight e dw token q x))"
| "serve_request e dw token (PlanRequest q) = (\<lambda>x. answering PlanAnswer (serve_plan e dw token q x))"
| "serve_request e dw token (WorkerRequest q) = (\<lambda>x. answering WorkerAnswer (serve_worker e dw token q x))"

section \<open>The view of a tenant\<close>

definition key_of :: "uuid \<Rightarrow> string \<Rightarrow> bool" where
  "key_of tid k \<longleftrightarrow> (case py_split (CHR '':'') k of _ # t # _ \<Rightarrow> t = tid | _ \<Rightarrow> False)"

text \<open>The argument says which tenant the identifier of an execution belongs to.\<close>

definition view :: "(uuid \<Rightarrow> uuid) \<Rightarrow> uuid \<Rightarrow> api_state \<Rightarrow> api_state" where
  "view own tid x = \<lparr>as_db = slice tid (as_db x), as_registry = filter (\<lambda>p. own (fst p) = tid) (as_registry x),
    as_cache = filter (\<lambda>p. key_of tid (fst p)) (as_cache x), as_tasks = filter (\<lambda>b. bg_tenant_id b = tid) (as_tasks x)\<rparr>"

definition owned :: "(uuid \<Rightarrow> uuid) \<Rightarrow> api_state \<Rightarrow> bool" where
  "owned own x \<longleftrightarrow> (\<forall>e \<in> set (executions (as_db x)). own (ex_id e) = ex_tenant_id e)"

definition isolated :: "(uuid \<Rightarrow> uuid) \<Rightarrow> uuid \<Rightarrow> (api_state \<Rightarrow> 'r \<times> api_state) \<Rightarrow> api_state \<Rightarrow> bool" where
  "isolated own tid f x \<longleftrightarrow> f (view own tid x) = (fst (f x), view own tid (snd (f x))) \<and>
    (\<forall>t. t \<noteq> tid \<longrightarrow> view own t (snd (f x)) = view own t x)"

text \<open>The user a token names.\<close>

definition token_user :: "crypto \<Rightarrow> instant \<Rightarrow> string \<Rightarrow> db \<Rightarrow> user option" where
  "token_user cy now token s = Option.bind (cy_decode cy now token)
    (\<lambda>p. case claim_uuid (jget ''sub'' p) of Inl _ \<Rightarrow> None | Inr uid \<Rightarrow> user_by_id uid s)"

text \<open>What a request draws is new: no row, log or trigger uses it yet.\<close>

definition fresh_draw :: "api_draw \<Rightarrow> db \<Rightarrow> bool" where
  "fresh_draw dw s \<longleftrightarrow> rw_id (aq_row dw) \<notin> lg_execution_id ` set (execution_logs s) \<and>
    ad_execution_id (aq_apply dw) \<notin> lg_execution_id ` set (execution_logs s) \<and>
    rw_nonce (aq_row dw) \<notin> tg_public_id ` set (triggers s) \<and>
    (\<forall>p \<in> set (plans s). pw_fresh (aq_worker dw) (pl_id p) \<notin> lg_execution_id ` set (execution_logs s) \<union> ex_id ` set (executions s))"

section \<open>The shapes of an endpoint\<close>

lemma view_sel [simp]:
  "as_db (view own tid x) = slice tid (as_db x)"
  "as_registry (view own tid x) = filter (\<lambda>p. own (fst p) = tid) (as_registry x)"
  "as_cache (view own tid x) = filter (\<lambda>p. key_of tid (fst p)) (as_cache x)"
  "as_tasks (view own tid x) = filter (\<lambda>b. bg_tenant_id b = tid) (as_tasks x)"
  by (simp_all add: view_def)

lemma view_upd [simp]:
  "view own tid (x\<lparr>as_db := s\<rparr>) = (view own tid x)\<lparr>as_db := slice tid s\<rparr>"
  "view own tid (x\<lparr>as_registry := reg\<rparr>) = (view own tid x)\<lparr>as_registry := filter (\<lambda>p. own (fst p) = tid) reg\<rparr>"
  "view own tid (x\<lparr>as_cache := c\<rparr>) = (view own tid x)\<lparr>as_cache := filter (\<lambda>p. key_of tid (fst p)) c\<rparr>"
  "view own tid (x\<lparr>as_tasks := ts\<rparr>) = (view own tid x)\<lparr>as_tasks := filter (\<lambda>b. bg_tenant_id b = tid) ts\<rparr>"
  by (simp_all add: view_def)

lemma view_same [simp]: "(view own tid x)\<lparr>as_db := slice tid (as_db x)\<rparr> = view own tid x"
  "(view own tid x)\<lparr>as_cache := filter (\<lambda>p. key_of tid (fst p)) (as_cache x)\<rparr> = view own tid x"
  by (simp_all add: view_def)

lemma isolated_reading: "g (slice tid (as_db x)) = g (as_db x) \<Longrightarrow> isolated own tid (reading f g) x"
  by (simp add: isolated_def reading_def)

lemma isolated_writing: "scoped tid g (as_db x) \<Longrightarrow> isolated own tid (writing f g) x"
  by (simp add: isolated_def writing_def scoped_def split_beta)

lemma isolated_checked: "(ok \<Longrightarrow> isolated own tid body x) \<Longrightarrow> isolated own tid (checked ok body) x"
  by (simp add: isolated_def checked_def)

lemma isolated_answering: "isolated own tid f x \<Longrightarrow> isolated own tid (\<lambda>x. answering g (f x)) x"
  by (simp add: isolated_def answering_def)

lemma user_in_slice:
  assumes "user_by_id uid s = Some u" "us_tenant_id u = tid"
  shows "user_by_id uid (slice tid s) = Some u"
proof -
  have "row_find p (filter q xs) = Some u" if "row_find p xs = Some u" "q u" for p q and xs :: "user list"
    using that by (induction xs) (auto split: if_splits)
  then show ?thesis using assms by (simp add: user_by_id_def)
qed

lemma authorize_slice:
  assumes "token_user cy now token s = Some u" "us_tenant_id u = tid"
  shows "authorize cy now path token roles (slice tid s) = authorize cy now path token roles s"
    "authorize cy now path token roles s = Inr v \<Longrightarrow> v = u"
proof -
  obtain p where p: "cy_decode cy now token = Some p"
      "(case claim_uuid (jget ''sub'' p) of Inl _ \<Rightarrow> None | Inr uid \<Rightarrow> user_by_id uid s) = Some u"
    using assms(1) by (auto simp: token_user_def bind_eq_Some_conv)
  then obtain uid where "cy_decode cy now token = Some p" "claim_uuid (jget ''sub'' p) = Inr uid" "user_by_id uid s = Some u"
    by (cases "claim_uuid (jget ''sub'' p)") auto
  with user_in_slice [OF this(3) assms(2)]
  show "authorize cy now path token roles (slice tid s) = authorize cy now path token roles s"
    "authorize cy now path token roles s = Inr v \<Longrightarrow> v = u"
    by (auto simp: authorize_def get_current_user_def split: if_splits option.splits)
qed

lemma isolated_guarded:
  assumes "token_user (ae_crypto e) (aq_login dw) token (as_db x) = Some u" "us_tenant_id u = tid"
    and "isolated own tid (body u) x"
  shows "isolated own tid (guarded e dw path token roles body) x"
proof (cases "authorize (ae_crypto e) (aq_login dw) path token roles (as_db x)")
  case (Inl err)
  then show ?thesis using authorize_slice [OF assms(1,2)] by (simp add: isolated_def guarded_def)
next
  case (Inr v)
  with authorize_slice [OF assms(1,2)] assms(3) show ?thesis by (simp add: isolated_def guarded_def)
qed

section \<open>The cache and the registry\<close>

lemma dget_filter: "q k \<Longrightarrow> dget k (filter (\<lambda>p. q (fst p)) d) = dget k d"
  by (induction d) (auto simp: dget_def)

lemma dset_filter:
  "filter (\<lambda>p. q (fst p)) (dset k v d) = (if q k then dset k v (filter (\<lambda>p. q (fst p)) d) else filter (\<lambda>p. q (fst p)) d)"
  by (induction k v d rule: dset.induct) auto

lemma dpop_filter:
  "filter (\<lambda>p. q (fst p)) (dpop k d) = (if q k then dpop k (filter (\<lambda>p. q (fst p)) d) else filter (\<lambda>p. q (fst p)) d)"
  by (induction d) (auto simp: dpop_def)

lemma through_cache_filter:
  assumes "q key"
  shows "through_cache key ck f (filter (\<lambda>p. q (fst p)) c) =
      (fst (through_cache key ck f c), filter (\<lambda>p. q (fst p)) (snd (through_cache key ck f c)))"
    "\<not> r key \<Longrightarrow> filter (\<lambda>p. r (fst p)) (snd (through_cache key ck f c)) = filter (\<lambda>p. r (fst p)) c"
  using assms
  by (auto simp: through_cache_def get_cached_def set_cached_def dget_filter [where q = q] dset_filter dpop_filter Let_def
      split: option.splits)

lemma key_of_dash_key:
  assumes "CHR '':'' \<notin> set tid"
  shows "key_of t (dash_key tid q) \<longleftrightarrow> t = tid"
proof -
  have "key_of t (cache_key tid pre name v) \<longleftrightarrow> t = tid" if "CHR '':'' \<notin> set pre" for pre name v
  proof -
    have "cache_key tid pre name v = pre @ CHR '':'' # tid @ CHR '':'' # name @ ''='' @ v" by (simp add: cache_key_def)
    with py_split_first [OF that] py_split_first [OF assms] show ?thesis by (auto simp: key_of_def)
  qed
  then show ?thesis by (cases q) simp_all
qed

lemma show_dashboard_isolated:
  assumes "us_tenant_id u = tid" "CHR '':'' \<notin> set tid" "refs_ok (as_db x)"
  shows "isolated own tid (show_dashboard dw q u) x"
proof -
  let ?k = "dash_key tid q" and ?f = "dash_compute tid q (as_db x)"
  note own_key = through_cache_filter [where q = "key_of tid" and key = ?k and f = ?f and c = "as_cache x" and ck = "aq_dash dw"]
  have "key_of tid ?k" by (simp add: key_of_dash_key [OF assms(2)])
  note served = own_key(1) [OF this] own_key(2) [OF this]
  show ?thesis
    using served(1) served(2) [where r = "key_of t" for t] assms(1)
    by (simp add: isolated_def show_dashboard_def dash_serve_alt dash_compute_slice [OF assms(3)] key_of_dash_key [OF assms(2)] split_beta)
qed

lemma invalidate_filter:
  "filter (\<lambda>p. key_of t (fst p)) (invalidate_tenant_cache tid c) =
    (if t = tid then [] else filter (\<lambda>p. key_of t (fst p)) c)"
  "invalidate_tenant_cache tid (filter (\<lambda>p. key_of tid (fst p)) c) = []"
  by (induction c) (auto simp: invalidate_tenant_cache_def key_of_def split: list.splits)

text \<open>An endpoint that works on the database and then may drop the entries of the tenant.\<close>

lemma view_invalidating:
  "view own t (invalidating tid b x) = (if t = tid then invalidating tid b (view own t x) else view own t x)"
  by (auto simp: invalidating_def invalidate_filter)

lemma invalidating_db: "(invalidating tid b x)\<lparr>as_db := s\<rparr> = invalidating tid b (x\<lparr>as_db := s\<rparr>)"
  by (simp add: invalidating_def)

lemma start_execution_isolated:
  assumes "us_tenant_id u = tid" "scoped tid (create_execution (rw_id (aq_row dw)) (rw_created (aq_row dw)) tid wid input) (as_db x)"
  shows "isolated own tid (start_execution dw wid input u) x"
proof -
  obtain r s where r: "create_execution (rw_id (aq_row dw)) (rw_created (aq_row dw)) tid wid input (as_db x) = (r, s)" by fastforce
  with assms(2) have "create_execution (rw_id (aq_row dw)) (rw_created (aq_row dw)) tid wid input (slice tid (as_db x)) = (r, slice tid s)"
    "\<forall>t. t \<noteq> tid \<longrightarrow> slice t s = slice t (as_db x)" by (simp_all add: scoped_def)
  with r assms(1) show ?thesis
    by (cases r) (simp_all add: isolated_def start_execution_def view_invalidating del: slice_sel)
qed

lemma retry_endpoint_isolated:
  assumes "us_tenant_id u = tid"
    "scoped tid (retry_dead_letter_execution (rw_id (aq_row dw)) (rw_created (aq_row dw)) tid eid (us_id u)) (as_db x)"
  shows "isolated own tid (retry_endpoint dw eid u) x"
proof -
  obtain r s where r: "retry_dead_letter_execution (rw_id (aq_row dw)) (rw_created (aq_row dw)) tid eid (us_id u) (as_db x) = (r, s)"
    by fastforce
  with assms(2) have "retry_dead_letter_execution (rw_id (aq_row dw)) (rw_created (aq_row dw)) tid eid (us_id u) (slice tid (as_db x)) =
      (r, slice tid s)" "\<forall>t. t \<noteq> tid \<longrightarrow> slice t s = slice t (as_db x)" by (simp_all add: scoped_def)
  with r assms(1) show ?thesis
    by (cases r) (simp_all add: isolated_def retry_endpoint_def view_invalidating del: slice_sel)
qed

lemma apply_fix_isolated:
  assumes "us_tenant_id u = tid" "scoped tid (apply_suggestion (aq_apply dw) tid sid (us_id u) again) (as_db x)"
  shows "isolated own tid (apply_fix dw sid again u) x"
proof -
  obtain r s where r: "apply_suggestion (aq_apply dw) tid sid (us_id u) again (as_db x) = (r, s)" by fastforce
  with assms(2) have "apply_suggestion (aq_apply dw) tid sid (us_id u) again (slice tid (as_db x)) = (r, slice tid s)"
    "\<forall>t. t \<noteq> tid \<longrightarrow> slice t s = slice t (as_db x)" by (simp_all add: scoped_def)
  with r assms(1) show ?thesis
    by (simp add: isolated_def apply_fix_def view_invalidating del: slice_sel)
qed

text \<open>The rows of the other tenants are as many as before, so the whole table grows as the slice does.\<close>

lemma others_as_many:
  assumes "\<And>t. t \<noteq> tid \<Longrightarrow> filter (\<lambda>r. tenant r = t) ys = filter (\<lambda>r. tenant r = t) xs"
  shows "(length ys \<noteq> length xs) = (length (filter (\<lambda>r. tenant r = tid) ys) \<noteq> length (filter (\<lambda>r. tenant r = tid) xs))"
proof -
  have "mset (filter (\<lambda>r. tenant r \<noteq> tid) ys) = mset (filter (\<lambda>r. tenant r \<noteq> tid) xs)"
  proof (rule multiset_eqI)
    fix z
    have "count (mset ys) z = count (mset xs) z" if "tenant z \<noteq> tid"
      using arg_cong [OF assms [OF that], of "\<lambda>zs. count (mset zs) z"] by simp
    then show "count (mset (filter (\<lambda>r. tenant r \<noteq> tid) ys)) z = count (mset (filter (\<lambda>r. tenant r \<noteq> tid) xs)) z"
      by simp
  qed
  then have "length (filter (\<lambda>r. tenant r \<noteq> tid) ys) = length (filter (\<lambda>r. tenant r \<noteq> tid) xs)" by (metis size_mset)
  moreover have "length zs = length (filter (\<lambda>r. tenant r = tid) zs) + length (filter (\<lambda>r. tenant r \<noteq> tid) zs)" for zs
    by (simp add: sum_length_filter_compl)
  ultimately show ?thesis by (metis add_right_cancel)
qed

lemma slice_record_worker_run:
  "wr_tenant_id r = tid \<Longrightarrow> slice t (record_worker_run r s) = (if t = tid then record_worker_run r (slice t s) else slice t s)"
  by (simp add: record_worker_run_def)

lemma run_worker_isolated:
  assumes "us_tenant_id u = tid" "scoped tid (run_plan_worker_once (aq_worker dw) limit (Some tid)) (as_db x)"
  shows "isolated own tid (run_worker dw limit u) x"
proof -
  obtain r s where r: "run_plan_worker_once (aq_worker dw) limit (Some tid) (as_db x) = (r, s)" by fastforce
  with assms(2) have run: "run_plan_worker_once (aq_worker dw) limit (Some tid) (slice tid (as_db x)) = (r, slice tid s)"
    and others: "\<And>t. t \<noteq> tid \<Longrightarrow> slice t s = slice t (as_db x)" by (simp_all add: scoped_def)
  have "filter (\<lambda>e. ex_tenant_id e = t) (executions s) = filter (\<lambda>e. ex_tenant_id e = t) (executions (as_db x))" if "t \<noteq> tid" for t
    using arg_cong [OF others [OF that], of executions] by simp
  then have grown: "(length (executions (slice tid s)) \<noteq> length (executions (slice tid (as_db x)))) =
      (length (executions s) \<noteq> length (executions (as_db x)))"
    using others_as_many [where tenant = ex_tenant_id and tid = tid and ys = "executions s" and xs = "executions (as_db x)"] by simp
  have row: "wr_tenant_id (new_worker_run i c tid a n1 n2 n3 n4 n5 b st err) = tid" for i c a n1 n2 n3 n4 n5 b st err
    by (simp add: new_worker_run_def)
  show ?thesis using r run others grown assms(1)
    by (simp add: isolated_def run_worker_def Let_def view_invalidating slice_record_worker_run [OF row] del: slice_sel)
qed

lemma cancel_endpoint_isolated:
  assumes "us_tenant_id u = tid" "keys_unique (as_db x)" "owned own x"
  shows "isolated own tid (cancel_endpoint dw eid u) x"
proof (cases "get_execution tid eid (as_db x)")
  case (Inl err)
  then show ?thesis using assms(1) by (simp add: isolated_def cancel_endpoint_def cancel_execution_def invalidating_def view_def)
next
  case (Inr e)
  then have own: "own eid = tid" using assms(3) get_execution_InrD [OF Inr] by (auto simp: owned_def)
  let ?f = "\<lambda>x. x\<lparr>ex_status := ExCancelled, ex_error_message := Some ''Execution cancelled by user'', ex_completed_at := Some (aq_now dw)\<rparr>"
  have row: "slice t (update_execution eid ?f (as_db x)) =
      (if t = tid then update_execution eid ?f (slice t (as_db x)) else slice t (as_db x))" for t
    using slice_update_execution [OF assms(2) Inr, of ?f t] by simp
  have cancel: "\<And>reg. request_cancel eid (filter (\<lambda>p. own (fst p) = tid) reg) =
      (fst (request_cancel eid reg), filter (\<lambda>p. own (fst p) = tid) (snd (request_cancel eid reg)))"
    "\<And>t reg. t \<noteq> tid \<Longrightarrow> filter (\<lambda>p. own (fst p) = t) (snd (request_cancel eid reg)) = filter (\<lambda>p. own (fst p) = t) reg"
    using own by (auto simp: request_cancel_def dget_filter [where q = "\<lambda>k. own k = tid"]
        dset_filter [where q = "\<lambda>k. own k = t" for t])
  show ?thesis
  proof (cases "ex_status e")
    case ExPending
    then show ?thesis using Inr assms(1) row
      by (simp add: isolated_def cancel_endpoint_def cancel_execution_def Let_def view_invalidating del: slice_sel)
        (simp add: view_def)
  next
    case ExRunning
    obtain b reg where "request_cancel eid (as_registry x) = (b, reg)" by fastforce
    with cancel(1) [of "as_registry x"] cancel(2) [of _ "as_registry x"] Inr ExRunning assms(1) show ?thesis
      by (cases b) (simp_all add: isolated_def cancel_endpoint_def cancel_execution_def view_invalidating view_def invalidating_def
          del: slice_sel)
  qed (use Inr assms(1) in \<open>simp_all add: isolated_def cancel_endpoint_def cancel_execution_def view_def invalidating_def\<close>)
qed

section \<open>Each router\<close>

text \<open>A request of a user of the tenant, with fresh draws, on tables whose keys are keys.\<close>

definition request_of :: "(uuid \<Rightarrow> uuid) \<Rightarrow> api_env \<Rightarrow> api_draw \<Rightarrow> string \<Rightarrow> user \<Rightarrow> api_state \<Rightarrow> bool" where
  "request_of own e dw token u x \<longleftrightarrow> token_user (ae_crypto e) (aq_login dw) token (as_db x) = Some u \<and>
    CHR '':'' \<notin> set (us_tenant_id u) \<and> tenancy (as_db x) \<and> owned own x \<and> fresh_draw dw (as_db x)"

lemma test_tool_slice [simp]: "test_tool net sq fs tf tid i input (slice tid s) = test_tool net sq fs tf tid i input s"
  by (simp only: test_tool_def get_tool_slice)

lemma health_of_slice [simp]: "health_of tid h now (slice tid s) = health_of tid h now s"
  by (simp only: health_of_def get_dispatch_health_slice)

lemma plan_ready_fresh:
  assumes "tenancy s" "fresh_draw dw s" "p \<in> set (plans s)"
  shows "plan_ready (aq_worker dw) (pl_tenant_id p) s p"
proof -
  have inj: "inj_on pl_id (set (plans s))" using assms(1) by (simp add: tenancy_def keys_unique_def distinct_map)
  have same: "\<forall>q \<in> set (plans s). pl_id q = pl_id p \<longrightarrow> pl_tenant_id q = pl_tenant_id p"
    using inj_onD [OF inj] assms(3) by metis
  have "pw_fresh (aq_worker dw) (pl_id p) \<notin> lg_execution_id ` set (execution_logs s)"
    "pw_fresh (aq_worker dw) (pl_id p) \<notin> ex_id ` set (executions s)"
    using assms(2,3) by (simp_all add: fresh_draw_def)
  with same show ?thesis by (auto simp: plan_ready_def image_iff)
qed

lemma request_of_facts:
  assumes "request_of own e dw token u x"
  shows "keys_unique (as_db x)" "refs_ok (as_db x)"
    "rw_id (aq_row dw) \<notin> lg_execution_id ` set (execution_logs (as_db x))"
    "ad_execution_id (aq_apply dw) \<notin> lg_execution_id ` set (execution_logs (as_db x))"
    "rw_nonce (aq_row dw) \<notin> tg_public_id ` set (triggers (as_db x))"
  using assms by (auto simp: request_of_def tenancy_def fresh_draw_def)

lemma isolated_endpoint:
  assumes "request_of own e dw token u x" "isolated own (us_tenant_id u) (body u) x"
  shows "isolated own (us_tenant_id u) (guarded e dw path token roles body) x"
  using isolated_guarded [of e dw token x u "us_tenant_id u" own body] assms by (simp add: request_of_def)

lemmas endpoint_intros = isolated_endpoint isolated_checked isolated_reading isolated_writing

lemma serve_execution_isolated:
  assumes "request_of own e dw token u x"
  shows "isolated own (us_tenant_id u) (serve_execution e dw token q) x"
proof -
  note facts = request_of_facts [OF assms]
  show ?thesis
    by (cases q) (use assms facts in \<open>auto intro!: endpoint_intros start_execution_isolated retry_endpoint_isolated
      cancel_endpoint_isolated create_execution_scoped retry_dead_letter_scoped simp: request_of_def simp del: slice_sel\<close>)
qed

lemma serve_connector_isolated:
  assumes "request_of own e dw token u x"
  shows "isolated own (us_tenant_id u) (serve_connector e dw base token q) x"
  by (cases q) (use request_of_facts [OF assms] in \<open>auto intro!: endpoint_intros assms create_credential_scoped
    delete_credential_scoped create_trigger_scoped simp del: slice_sel\<close>)

lemma serve_workflow_isolated:
  assumes "request_of own e dw token u x"
  shows "isolated own (us_tenant_id u) (serve_workflow e dw token q) x"
  by (cases q) (use request_of_facts [OF assms] assms in \<open>auto intro!: endpoint_intros create_workflow_scoped update_workflow_scoped
    duplicate_workflow_scoped pause_workflow_dispatch_scoped resume_workflow_dispatch_scoped delete_workflow_scoped
    simp: request_of_def simp del: slice_sel\<close>)

lemma serve_agent_isolated:
  assumes "request_of own e dw token u x"
  shows "isolated own (us_tenant_id u) (serve_agent e dw token q) x"
  by (cases q) (use request_of_facts [OF assms] assms in \<open>auto intro!: endpoint_intros create_agent_scoped
    update_agent_scoped delete_agent_scoped simp: request_of_def simp del: slice_sel\<close>)

lemma serve_tool_isolated:
  assumes "request_of own e dw token u x"
  shows "isolated own (us_tenant_id u) (serve_tool e dw token q) x"
  by (cases q) (use request_of_facts [OF assms] in \<open>auto intro!: endpoint_intros assms create_tool_scoped
    update_tool_scoped delete_tool_scoped simp del: slice_sel\<close>)

lemma serve_doctor_isolated:
  assumes "request_of own e dw token u x"
  shows "isolated own (us_tenant_id u) (serve_doctor e dw token q) x"
  by (cases q) (use request_of_facts [OF assms] in \<open>auto intro!: endpoint_intros assms diagnose_execution_scoped
    replay_suggestion_scoped apply_fix_isolated apply_suggestion_scoped dismiss_suggestion_scoped simp del: slice_sel\<close>)

lemma serve_dashboard_isolated:
  assumes "request_of own e dw token u x"
  shows "isolated own (us_tenant_id u) (serve_dashboard e dw token q) x"
  by (cases q) (use request_of_facts [OF assms] assms in \<open>auto intro!: endpoint_intros show_dashboard_isolated
    simp: request_of_def export_data_slice simp del: slice_sel\<close>)

lemma serve_alert_isolated:
  assumes "request_of own e dw token u x"
  shows "isolated own (us_tenant_id u) (serve_alert e dw token q) x"
  by (cases q) (auto intro!: endpoint_intros assms update_alert_policy_scoped create_alert_channel_scoped
    deliver_dispatch_alerts_scoped simp del: slice_sel)

lemma serve_incident_isolated:
  assumes "request_of own e dw token u x"
  shows "isolated own (us_tenant_id u) (serve_incident e dw token q) x"
  by (cases q) (use request_of_facts [OF assms] in \<open>auto intro!: endpoint_intros assms acknowledge_incident_scoped
    resolve_incident_scoped simp del: slice_sel\<close>)

lemma serve_insight_isolated:
  assumes "request_of own e dw token u x"
  shows "isolated own (us_tenant_id u) (serve_insight e dw token q) x"
  by (cases q) (auto intro!: endpoint_intros assms simp del: slice_sel)

lemma serve_plan_isolated:
  assumes "request_of own e dw token u x"
  shows "isolated own (us_tenant_id u) (serve_plan e dw token q) x"
  by (cases q) (use request_of_facts [OF assms] in \<open>auto intro!: endpoint_intros assms create_plan_scoped
    approve_plan_scoped reject_plan_scoped simp del: slice_sel\<close>)

lemma serve_worker_isolated:
  assumes "request_of own e dw token u x"
  shows "isolated own (us_tenant_id u) (serve_worker e dw token q) x"
proof -
  have "\<forall>p \<in> set (plans (as_db x)). pl_tenant_id p = us_tenant_id u \<longrightarrow> plan_ready (aq_worker dw) (us_tenant_id u) (as_db x) p"
    using plan_ready_fresh [of "as_db x" dw] assms by (metis request_of_def)
  then show ?thesis
    by (cases q) (auto intro!: endpoint_intros assms update_worker_config_scoped run_worker_isolated
      run_plan_worker_once_scoped simp del: slice_sel)
qed

lemma serve_request_isolated:
  assumes "request_of own e dw token u x"
  shows "isolated own (us_tenant_id u) (serve_request e dw token q) x"
proof (cases q)
  case (ExecutionRequest r)
  then show ?thesis using isolated_answering [OF serve_execution_isolated [OF assms]] by simp
next
  case (ConnectorRequest base r)
  then show ?thesis using isolated_answering [OF serve_connector_isolated [OF assms]] by simp
next
  case (WorkflowRequest r)
  then show ?thesis using isolated_answering [OF serve_workflow_isolated [OF assms]] by simp
next
  case (AgentRequest r)
  then show ?thesis using isolated_answering [OF serve_agent_isolated [OF assms]] by simp
next
  case (ToolRequest r)
  then show ?thesis using isolated_answering [OF serve_tool_isolated [OF assms]] by simp
next
  case (DoctorRequest r)
  then show ?thesis using isolated_answering [OF serve_doctor_isolated [OF assms]] by simp
next
  case (DashboardRequest r)
  then show ?thesis using isolated_answering [OF serve_dashboard_isolated [OF assms]] by simp
next
  case (AlertRequest r)
  then show ?thesis using isolated_answering [OF serve_alert_isolated [OF assms]] by simp
next
  case (IncidentRequest r)
  then show ?thesis using isolated_answering [OF serve_incident_isolated [OF assms]] by simp
next
  case (InsightRequest r)
  then show ?thesis using isolated_answering [OF serve_insight_isolated [OF assms]] by simp
next
  case (PlanRequest r)
  then show ?thesis using isolated_answering [OF serve_plan_isolated [OF assms]] by simp
next
  case (WorkerRequest r)
  then show ?thesis using isolated_answering [OF serve_worker_isolated [OF assms]] by simp
qed

end
