(* ===== verification/Roles.thy ===== *)
theory Roles
  imports Isolation
begin

text \<open>
  What the application guarantees at its boundary: the isolation of the tenants, the roles a change
  needs, and the dashboard after a start.
\<close>

section \<open>Roles\<close>

text \<open>The requests that read: all the others change something.\<close>

fun reads :: "tenant_request \<Rightarrow> bool" where
  "reads (ExecutionRequest q) = (case q of StartExecution _ _ \<Rightarrow> False | CancelExecution _ \<Rightarrow> False | RetryExecution _ \<Rightarrow> False | _ \<Rightarrow> True)"
| "reads (ConnectorRequest _ q) =
    (case q of CreateCredential _ _ _ _ \<Rightarrow> False | DeleteCredential _ \<Rightarrow> False | CreateTrigger _ _ _ \<Rightarrow> False | _ \<Rightarrow> True)"
| "reads (WorkflowRequest q) = (case q of ListWorkflows _ _ _ \<Rightarrow> True | GetWorkflow _ \<Rightarrow> True | _ \<Rightarrow> False)"
| "reads (AgentRequest q) = (case q of ListAgents _ \<Rightarrow> True | _ \<Rightarrow> False)"
| "reads (ToolRequest q) = (case q of ListTools \<Rightarrow> True | TestTool _ _ \<Rightarrow> True | _ \<Rightarrow> False)"
| "reads (DoctorRequest q) = (case q of ListSuggestions _ \<Rightarrow> True | _ \<Rightarrow> False)"
| "reads (DashboardRequest q) = True"
| "reads (AlertRequest q) = (case q of SetPolicy _ \<Rightarrow> False | CreateChannel _ _ _ \<Rightarrow> False | Deliver _ \<Rightarrow> False | _ \<Rightarrow> True)"
| "reads (IncidentRequest q) = (case q of Acknowledge _ _ \<Rightarrow> False | Resolve _ _ \<Rightarrow> False | _ \<Rightarrow> True)"
| "reads (InsightRequest q) = True"
| "reads (PlanRequest q) = (case q of ListPlans _ \<Rightarrow> True | _ \<Rightarrow> False)"
| "reads (WorkerRequest q) = (case q of SetWorkerConfig _ \<Rightarrow> False | RunWorker _ \<Rightarrow> False | _ \<Rightarrow> True)"

text \<open>Who may change: the doctor's diagnosis anyone, plans and the worker's automation the owners.\<close>

fun changers :: "tenant_request \<Rightarrow> string list option" where
  "changers (DoctorRequest (Diagnose _ _)) = anyone"
| "changers (PlanRequest (ApprovePlan _)) = owners"
| "changers (PlanRequest (RejectPlan _ _)) = owners"
| "changers (WorkerRequest _) = owners"
| "changers _ = editors"

definition untouched :: "api_state \<Rightarrow> api_state \<Rightarrow> bool" where
  "untouched x x' \<longleftrightarrow> as_db x' = as_db x \<and> as_registry x' = as_registry x \<and> as_tasks x' = as_tasks x"

lemma untouched_refl [simp]: "untouched x x"
  by (simp add: untouched_def)

lemma untouched_checked: "untouched x (snd (body x)) \<Longrightarrow> untouched x (snd (checked ok body x))"
  by (simp add: checked_def)

lemma untouched_reading [simp]: "untouched x (snd (reading f g x))"
  by (simp add: reading_def)

lemma untouched_dashboard [simp]: "untouched x (snd (show_dashboard dw q u x))"
  by (simp add: show_dashboard_def untouched_def split_beta)

lemma untouched_guarded: "(\<And>u. untouched x (snd (body u x))) \<Longrightarrow> untouched x (snd (guarded e dw path token roles body x))"
  by (simp add: guarded_def split: sum.split)

lemma guarded_refused:
  assumes "token_user (ae_crypto e) (aq_login dw) token (as_db x) = Some u" "us_role u \<notin> set allowed"
  shows "\<exists>err. guarded e dw path token (Some allowed) body x = (Inl err, x)"
proof -
  obtain p where p: "cy_decode (ae_crypto e) (aq_login dw) token = Some p"
      "(case claim_uuid (jget ''sub'' p) of Inl _ \<Rightarrow> None | Inr uid \<Rightarrow> user_by_id uid (as_db x)) = Some u"
    using assms(1) by (auto simp: token_user_def bind_eq_Some_conv)
  then obtain uid where "claim_uuid (jget ''sub'' p) = Inr uid" "user_by_id uid (as_db x) = Some u"
    by (cases "claim_uuid (jget ''sub'' p)") auto
  with p(1) assms(2) show ?thesis by (auto simp: guarded_def authorize_def get_current_user_def require_role_def)
qed

lemma untouched_answering: "snd (answering f r) = snd r"
  by (simp add: answering_def)

lemma reads_keep: "reads q \<Longrightarrow> untouched x (snd (serve_request e dw token q x))"
proof (induction q rule: reads.induct)
  case (1 q)
  then show ?case by (cases q) (auto simp: untouched_answering intro!: untouched_guarded untouched_checked)
next
  case (2 b q)
  then show ?case by (cases q) (auto simp: untouched_answering intro!: untouched_guarded untouched_checked)
next
  case (3 q)
  then show ?case by (cases q) (auto simp: untouched_answering intro!: untouched_guarded untouched_checked)
next
  case (4 q)
  then show ?case by (cases q) (auto simp: untouched_answering intro!: untouched_guarded untouched_checked)
next
  case (5 q)
  then show ?case by (cases q) (auto simp: untouched_answering intro!: untouched_guarded untouched_checked)
next
  case (6 q)
  then show ?case by (cases q) (auto simp: untouched_answering intro!: untouched_guarded untouched_checked)
next
  case (7 q)
  then show ?case by (cases q) (auto simp: untouched_answering intro!: untouched_guarded untouched_checked)
next
  case (8 q)
  then show ?case by (cases q) (auto simp: untouched_answering intro!: untouched_guarded untouched_checked)
next
  case (9 q)
  then show ?case by (cases q) (auto simp: untouched_answering intro!: untouched_guarded untouched_checked)
next
  case (10 q)
  then show ?case by (cases q) (auto simp: untouched_answering intro!: untouched_guarded untouched_checked)
next
  case (11 q)
  then show ?case by (cases q) (auto simp: untouched_answering intro!: untouched_guarded untouched_checked)
next
  case (12 q)
  then show ?case by (cases q) (auto simp: untouched_answering intro!: untouched_guarded untouched_checked)
qed

definition refused :: "(http_error + 'a) \<times> api_state \<Rightarrow> api_state \<Rightarrow> bool" where
  "refused r x \<longleftrightarrow> isl (fst r) \<and> snd r = x"

lemma refused_answering [simp]: "refused (answering f r) x \<longleftrightarrow> refused r x"
  by (cases r; cases "fst r") (auto simp: refused_def answering_def)

lemma refused_guarded:
  "token_user (ae_crypto e) (aq_login dw) token (as_db x) = Some u \<Longrightarrow> us_role u \<notin> set allowed \<Longrightarrow>
    refused (guarded e dw path token (Some allowed) body x) x"
  using guarded_refused [of e dw token x u allowed path body] by (auto simp: refused_def)

lemma change_refused:
  assumes "token_user (ae_crypto e) (aq_login dw) token (as_db x) = Some u" "\<not> reads q"
    and "changers q = Some allowed" "us_role u \<notin> set allowed"
  shows "refused (serve_request e dw token q x) x"
  using assms(2-)
proof (induction q rule: reads.induct)
  case (1 q)
  then show ?case by (cases q) (auto simp: editors_def owners_def anyone_def intro!: refused_guarded [OF assms(1)])
next
  case (2 b q)
  then show ?case by (cases q) (auto simp: editors_def owners_def anyone_def intro!: refused_guarded [OF assms(1)])
next
  case (3 q)
  then show ?case by (cases q) (auto simp: editors_def owners_def anyone_def intro!: refused_guarded [OF assms(1)])
next
  case (4 q)
  then show ?case by (cases q) (auto simp: editors_def owners_def anyone_def intro!: refused_guarded [OF assms(1)])
next
  case (5 q)
  then show ?case by (cases q) (auto simp: editors_def owners_def anyone_def intro!: refused_guarded [OF assms(1)])
next
  case (6 q)
  then show ?case by (cases q) (auto simp: editors_def owners_def anyone_def intro!: refused_guarded [OF assms(1)])
next
  case (7 q)
  then show ?case by (cases q) (auto simp: editors_def owners_def anyone_def intro!: refused_guarded [OF assms(1)])
next
  case (8 q)
  then show ?case by (cases q) (auto simp: editors_def owners_def anyone_def intro!: refused_guarded [OF assms(1)])
next
  case (9 q)
  then show ?case by (cases q) (auto simp: editors_def owners_def anyone_def intro!: refused_guarded [OF assms(1)])
next
  case (10 q)
  then show ?case by (cases q) (auto simp: editors_def owners_def anyone_def intro!: refused_guarded [OF assms(1)])
next
  case (11 q)
  then show ?case by (cases q) (auto simp: editors_def owners_def anyone_def intro!: refused_guarded [OF assms(1)])
next
  case (12 q)
  then show ?case by (cases q) (auto simp: editors_def owners_def anyone_def intro!: refused_guarded [OF assms(1)])
qed

lemma stranger_refused:
  assumes "token_user (ae_crypto e) (aq_login dw) token (as_db x) = None"
  shows "refused (guarded e dw path token roles body x) x"
proof (cases "cy_decode (ae_crypto e) (aq_login dw) token")
  case None
  then show ?thesis by (simp add: refused_def guarded_def authorize_def get_current_user_def)
next
  case (Some p)
  show ?thesis
  proof (cases "claim_uuid (jget ''sub'' p)")
    case (Inl err)
    with Some show ?thesis by (simp add: refused_def guarded_def authorize_def get_current_user_def)
  next
    case (Inr uid)
    with Some assms have "user_by_id uid (as_db x) = None" by (simp add: token_user_def)
    with Some Inr show ?thesis by (simp add: refused_def guarded_def authorize_def get_current_user_def)
  qed
qed

lemma request_by_stranger:
  assumes "token_user (ae_crypto e) (aq_login dw) token (as_db x) = None"
  shows "refused (serve_request e dw token q x) x"
proof (induction q rule: reads.induct)
  case (1 q)
  then show ?case by (cases q) (auto simp: stranger_refused [OF assms])
next
  case (2 b q)
  then show ?case by (cases q) (auto simp: stranger_refused [OF assms])
next
  case (3 q)
  then show ?case by (cases q) (auto simp: stranger_refused [OF assms])
next
  case (4 q)
  then show ?case by (cases q) (auto simp: stranger_refused [OF assms])
next
  case (5 q)
  then show ?case by (cases q) (auto simp: stranger_refused [OF assms])
next
  case (6 q)
  then show ?case by (cases q) (auto simp: stranger_refused [OF assms])
next
  case (7 q)
  then show ?case by (cases q) (auto simp: stranger_refused [OF assms])
next
  case (8 q)
  then show ?case by (cases q) (auto simp: stranger_refused [OF assms])
next
  case (9 q)
  then show ?case by (cases q) (auto simp: stranger_refused [OF assms])
next
  case (10 q)
  then show ?case by (cases q) (auto simp: stranger_refused [OF assms])
next
  case (11 q)
  then show ?case by (cases q) (auto simp: stranger_refused [OF assms])
next
  case (12 q)
  then show ?case by (cases q) (auto simp: stranger_refused [OF assms])
qed

section \<open>An accepted start\<close>

lemma guarded_InrD:
  assumes "guarded e dw path token roles body x = (Inr a, x')" "token_user (ae_crypto e) (aq_login dw) token (as_db x) = Some u"
  shows "body u x = (Inr a, x')"
  using assms(1) authorize_slice(2) [OF assms(2) refl, of path roles] by (auto simp: guarded_def split: sum.splits)

lemma checked_InrD: "checked ok body x = (Inr a, x') \<Longrightarrow> ok \<and> body x = (Inr a, x')"
  by (simp add: checked_def split: if_splits)

lemma answering_InrD: "answering f r = (Inr a, x') \<Longrightarrow> \<exists>b. a = f b \<and> r = (Inr b, x')"
  by (cases r; cases "fst r") (auto simp: answering_def)

lemma served_fresh:
  assumes "CHR '':'' \<notin> set tid"
  shows "fst (dash_serve tid q ck s (invalidate_tenant_cache tid c)) = dash_compute tid q s (dk_now ck)"
  using dash_key_invalidated [OF assms] by (simp add: dash_serve_alt through_cache_def get_cached_def Let_def)

section \<open>Properties\<close>

text \<open>
  C9: the tenants are isolated. A request of a user, on any router of the tenants, gives on the rows,
  running executions, cache entries and background tasks of the user's tenant alone the answer it
  gives on the whole system and the same new state of that tenant; what any other tenant has does not
  change. The identifiers the request draws are new, the keys of the tables are unique and references
  stay in their tenant.
\<close>

theorem tenants_isolated:
  assumes "request_of own e dw token u x"
  shows "let r = serve_request e dw token q x; tid = us_tenant_id u in
    serve_request e dw token q (view own tid x) = (fst r, view own tid (snd r)) \<and>
    (\<forall>t. t \<noteq> tid \<longrightarrow> view own t (snd r) = view own t x)"
  using serve_request_isolated [OF assms, of q] by (simp add: isolated_def Let_def)

text \<open>
  C5: a change needs a role. Whoever is not authenticated is refused and nothing happens; a request
  that reads leaves the database, the registry and the tasks alone, whoever makes it; a request that
  changes something is refused without effect when the user's role is not among those that may:
  owners and editors, for plan decisions and the worker owners only, for a diagnosis everyone.
\<close>

theorem changes_need_role:
  "let r = serve_request e dw token q x; user = token_user (ae_crypto e) (aq_login dw) token (as_db x) in
    (user = None \<longrightarrow> isl (fst r) \<and> snd r = x) \<and>
    (reads q \<longrightarrow> as_db (snd r) = as_db x \<and> as_registry (snd r) = as_registry x \<and> as_tasks (snd r) = as_tasks x) \<and>
    (\<forall>u roles. user = Some u \<and> \<not> reads q \<and> changers q = Some roles \<and> us_role u \<notin> set roles \<longrightarrow> isl (fst r) \<and> snd r = x)"
  using request_by_stranger [of e dw token x q] reads_keep [of q x e dw token] change_refused [of e dw token x _ q]
  unfolding refused_def untouched_def Let_def by blast

text \<open>
  C13: a started execution is on the dashboard at once. After an accepted start the execution is a
  pending row of the tenant, its run is among the background tasks, and the next dashboard of any user
  of the tenant is computed on the database with the execution, whatever the cache held.
\<close>

theorem started_execution_shows:
  assumes "serve_request e dw token (ExecutionRequest (StartExecution wid input)) x = (Inr (ExecutionAnswer (Started eid st)), x')"
    and "token_user (ae_crypto e) (aq_login dw) token (as_db x) = Some u" "CHR '':'' \<notin> set (us_tenant_id u)"
    and "token_user (ae_crypto e) (aq_login dw') token' (as_db x') = Some u'" "us_tenant_id u' = us_tenant_id u"
    and "serve_request e dw' token' (DashboardRequest (Dashboard q)) x' = (Inr (DashboardAnswer (Shown v)), x'')"
  shows "st = ExPending \<and> new_execution eid (rw_created (aq_row dw)) (us_tenant_id u) wid input \<in> set (executions (as_db x')) \<and>
    \<lparr>bg_execution_id = eid, bg_workflow_id = wid, bg_tenant_id = us_tenant_id u, bg_input = input\<rparr> \<in> set (as_tasks x') \<and>
    v = dash_compute (us_tenant_id u) q (as_db x') (dk_now (aq_dash dw'))"
proof -
  from answering_InrD [OF assms(1) [unfolded serve_request.simps]]
  have "serve_execution e dw token (StartExecution wid input) x = (Inr (Started eid st), x')" by auto
  from checked_InrD [OF guarded_InrD [OF this [unfolded serve_execution.simps] assms(2)]]
  have "start_execution dw wid input u x = (Inr (Started eid st), x')" by simp
  then obtain ex s where new: "create_execution (rw_id (aq_row dw)) (rw_created (aq_row dw)) (us_tenant_id u) wid input (as_db x) = (Inr ex, s)"
    and ex: "eid = ex_id ex" "st = ex_status ex"
    and x': "x' = invalidating (us_tenant_id u) True (x\<lparr>as_db := s, as_tasks := as_tasks x @
      [\<lparr>bg_execution_id = ex_id ex, bg_workflow_id = wid, bg_tenant_id = us_tenant_id u, bg_input = input\<rparr>]\<rparr>)"
    by (auto simp: start_execution_def split: prod.splits sum.splits)
  have row: "ex = new_execution (rw_id (aq_row dw)) (rw_created (aq_row dw)) (us_tenant_id u) wid input" "s = add_execution ex (as_db x)"
    using create_execution_row [of "rw_id (aq_row dw)" "rw_created (aq_row dw)" "us_tenant_id u" wid input "as_db x" ex]
      create_execution_snd [of "rw_id (aq_row dw)" "rw_created (aq_row dw)" "us_tenant_id u" wid input "as_db x"] new
    by simp_all
  from answering_InrD [OF assms(6) [unfolded serve_request.simps]]
  have "serve_dashboard e dw' token' (Dashboard q) x' = (Inr (Shown v), x'')" by auto
  from checked_InrD [OF guarded_InrD [OF this [unfolded serve_dashboard.simps] assms(4)]]
  have "show_dashboard dw' q u' x' = (Inr (Shown v), x'')" by simp
  then have "v = fst (dash_serve (us_tenant_id u) q (aq_dash dw') (as_db x') (as_cache x'))"
    by (simp add: show_dashboard_def assms(5) split_beta)
  also have "\<dots> = dash_compute (us_tenant_id u) q (as_db x') (dk_now (aq_dash dw'))"
    using served_fresh [OF assms(3)] x' by (simp add: invalidating_def)
  finally show ?thesis using ex row x' by (simp add: invalidating_def new_execution_def add_execution_def)
qed

section \<open>Witnesses\<close>

definition first_user :: uuid where
  "first_user = ''00000000-0000-4000-8000-000000000001''"

definition second_user :: uuid where
  "second_user = ''00000000-0000-4000-8000-000000000002''"

definition sample_member :: "uuid \<Rightarrow> uuid \<Rightarrow> string \<Rightarrow> user" where
  "sample_member i tid role = \<lparr>us_id = i, us_tenant_id = tid, us_email = i, us_password_hash = [], us_full_name = None,
    us_role = role, us_is_active = True, us_must_change_password = False, us_created_at = 0\<rparr>"

text \<open>A deployment where a token is the identifier of its user.\<close>

definition sample_api :: api_env where
  "sample_api = \<lparr>ae_crypto = plain_crypto\<lparr>cy_decode := (\<lambda>_ token. Some [(''type'', JStr ''access''), (''sub'', JStr token)])\<rparr>,
    ae_net = offline, ae_fernet = sample_fernet, ae_settings = sample_settings ''secret'',
    ae_sql = \<lparr>sq_postgres = (\<lambda>_ _ _. Inr []), sq_sqlite = (\<lambda>_ _ _. Inr [])\<rparr>,
    ae_files = \<lparr>fs_base = (\<lambda>_. Inr []), fs_resolve = (\<lambda>_ _. Inr []), fs_exists = (\<lambda>_. False), fs_is_file = (\<lambda>_. False),
      fs_is_dir = (\<lambda>_. False), fs_entries = (\<lambda>_. Inr []), fs_read = (\<lambda>_. Inr [])\<rparr>,
    ae_hmac = (\<lambda>_ _ m. m), ae_scheduler_enabled = True, ae_scheduler_interval = 60, ae_scheduler_limit = 5\<rparr>"

definition sample_api_draw :: "string \<Rightarrow> api_draw" where
  "sample_api_draw i = \<lparr>aq_login = 1, aq_now = 1, aq_later = 2, aq_row = \<lparr>rw_id = i, rw_created = 1, rw_nonce = i\<rparr>,
    aq_diagnosis = \<lparr>dg_now = 1, dg_id = i, dg_created = 1\<rparr>, aq_replay = \<lparr>rd_id = i, rd_started = 1, rd_completed = 2\<rparr>,
    aq_apply = \<lparr>ad_now = 1, ad_execution_id = i, ad_created = 1\<rparr>,
    aq_delivery = \<lparr>dv_health_now = 1, dv_now = 1, dv_started = 1, dv_generated = (\<lambda>_. 1), dv_id = (\<lambda>n. i @ show_nat n)\<rparr>,
    aq_control = \<lparr>cc_health = 1, cc_incidents = 1, cc_generated = 1\<rparr>, aq_dash = tick 1,
    aq_worker = \<lparr>pw_now = 1, pw_fresh = (\<lambda>p. p @ i), pw_created = (\<lambda>_. 1)\<rparr>,
    aq_ingest = sample_ingest 1, aq_updated = (\<lambda>_. 0), aq_traffic = \<lparr>tf_lookups = 0, tf_connections = []\<rparr>\<rparr>"

definition two_tenants :: api_state where
  "two_tenants = \<lparr>as_db = (sample_db ExCompleted 0)\<lparr>
      users := [sample_member first_user ''t1'' ''owner'', sample_member second_user ''t2'' ''viewer''],
      workflows := workflows (sample_db ExCompleted 0) @ [(sample_workflow ''w2'' diamond ''linear'')\<lparr>wf_tenant_id := ''t2''\<rparr>]\<rparr>,
    as_registry = [], as_cache = [(dash_key ''t2'' (TimelineQ 1), (0, Timeline []))], as_tasks = []\<rparr>"

definition sample_owner :: "uuid \<Rightarrow> uuid" where
  "sample_owner i = ''t1''"

lemma sample_request:
  "request_of sample_owner sample_api (sample_api_draw ''e9'') first_user (sample_member first_user ''t1'' ''owner'') two_tenants"
proof -
  have "tenancy (as_db two_tenants)" by code_simp
  moreover have "fresh_draw (sample_api_draw ''e9'') (as_db two_tenants)" by code_simp
  moreover have "token_user (ae_crypto sample_api) (aq_login (sample_api_draw ''e9'')) first_user (as_db two_tenants) =
      Some (sample_member first_user ''t1'' ''owner'')" by code_simp
  moreover have "owned sample_owner two_tenants" by code_simp
  ultimately show ?thesis by (simp add: request_of_def sample_member_def)
qed

definition sample_start :: tenant_request where
  "sample_start = ExecutionRequest (StartExecution ''w1'' JNull)"

lemma sample_started:
  "fst (serve_request sample_api (sample_api_draw ''e9'') first_user sample_start two_tenants) =
    Inr (ExecutionAnswer (Started ''e9'' ExPending))"
  by code_simp

theorem tenants_isolated_witness:
  "fst (serve_request sample_api (sample_api_draw ''e9'') first_user sample_start (view sample_owner ''t1'' two_tenants)) =
      Inr (ExecutionAnswer (Started ''e9'' ExPending)) \<and>
    view sample_owner ''t2'' (snd (serve_request sample_api (sample_api_draw ''e9'') first_user sample_start two_tenants)) =
      view sample_owner ''t2'' two_tenants"
  using tenants_isolated [OF sample_request, of sample_start] sample_started by (simp add: Let_def sample_member_def)

theorem changes_need_role_witness:
  "isl (fst (serve_request sample_api (sample_api_draw ''e9'') second_user (ExecutionRequest (StartExecution ''w2'' JNull)) two_tenants)) \<and>
    snd (serve_request sample_api (sample_api_draw ''e9'') second_user (ExecutionRequest (StartExecution ''w2'' JNull)) two_tenants) =
      two_tenants"
proof -
  have "token_user (ae_crypto sample_api) (aq_login (sample_api_draw ''e9'')) second_user (as_db two_tenants) =
      Some (sample_member second_user ''t2'' ''viewer'')" by code_simp
  then show ?thesis
    using changes_need_role [of sample_api "sample_api_draw ''e9''" second_user "ExecutionRequest (StartExecution ''w2'' JNull)" two_tenants]
    by (simp add: Let_def editors_def sample_member_def)
qed

theorem started_execution_shows_witness:
  "fst (serve_request sample_api (sample_api_draw ''e10'') first_user (DashboardRequest (Dashboard (TimelineQ 1)))
      (snd (serve_request sample_api (sample_api_draw ''e9'') first_user sample_start two_tenants))) =
    Inr (DashboardAnswer (Shown (dash_compute ''t1'' (TimelineQ 1)
      (as_db (snd (serve_request sample_api (sample_api_draw ''e9'') first_user sample_start two_tenants))) 1)))"
proof -
  let ?x = "snd (serve_request sample_api (sample_api_draw ''e9'') first_user sample_start two_tenants)"
  let ?d = "serve_request sample_api (sample_api_draw ''e10'') first_user (DashboardRequest (Dashboard (TimelineQ 1))) ?x"
  have started: "serve_request sample_api (sample_api_draw ''e9'') first_user (ExecutionRequest (StartExecution ''w1'' JNull)) two_tenants =
      (Inr (ExecutionAnswer (Started ''e9'' ExPending)), ?x)"
    using sample_started unfolding sample_start_def by (metis prod.collapse)
  have u: "token_user (ae_crypto sample_api) (aq_login (sample_api_draw ''e9'')) first_user (as_db two_tenants) =
      Some (sample_member first_user ''t1'' ''owner'')"
    "token_user (ae_crypto sample_api) (aq_login (sample_api_draw ''e10'')) first_user (as_db ?x) =
      Some (sample_member first_user ''t1'' ''owner'')" by code_simp+
  have "authorize (ae_crypto sample_api) (aq_login (sample_api_draw ''e10'')) ''/api/v1/analytics/cost-timeline'' first_user anyone
      (as_db ?x) = Inr (sample_member first_user ''t1'' ''owner'')" by code_simp
  then obtain v where v: "fst ?d = Inr (DashboardAnswer (Shown v))"
    by (simp add: guarded_def checked_def show_dashboard_def answering_def split_beta del: dash_serve.simps)
  then have d: "?d = (Inr (DashboardAnswer (Shown v)), snd ?d)" by (metis prod.collapse)
  have "dk_now (aq_dash (sample_api_draw ''e10'')) = 1" by (simp add: sample_api_draw_def tick_def)
  with started_execution_shows [OF started u(1) _ u(2) _ d] v show ?thesis by (simp add: sample_member_def)
qed

end
