(* ===== verification/TenancyKept.thy ===== *)
theory TenancyKept
  imports Roles
begin

text \<open>
  Identifiers stay unique and references stay in their tenant: every request of a tenant keeps what
  the isolation of the tenants rests on, so the isolation holds along any run of requests.
\<close>

section \<open>What identifiers and references say\<close>

definition wired :: "db \<Rightarrow> bool" where
  "wired s \<longleftrightarrow> tenancy s \<and> (\<forall>r \<in> set (suggestions s). \<forall>w \<in> set (workflows s).
    fs_workflow_id r = wf_id w \<longrightarrow> wf_tenant_id w = fs_tenant_id r)"

text \<open>The columns this depends on: a change of any other column keeps it.\<close>

definition skeleton where
  "skeleton (s :: db) = (map (\<lambda>w. (wf_id w, wf_tenant_id w)) (workflows s),
    map (\<lambda>a. (ac_id a, ac_tenant_id a, ac_workflow_id a)) (agent_configs s), map tl_id (tools s),
    map (\<lambda>e. (ex_id e, ex_tenant_id e, ex_workflow_id e)) (executions s),
    map (\<lambda>l. (lg_execution_id l, lg_agent_config_id l)) (execution_logs s),
    map (\<lambda>r. (fs_id r, fs_tenant_id r, fs_workflow_id r, fs_agent_config_id r)) (suggestions s),
    map cr_id (credentials s), map pl_id (plans s), map ak_id (acks s))"

fun wired_skeleton where
  "wired_skeleton (ws, as, ts, es, ls, fs, cs, ps, ks) \<longleftrightarrow>
    distinct (map fst ws) \<and> distinct (map fst as) \<and> distinct ts \<and> distinct (map fst es) \<and> distinct (map fst fs) \<and>
    distinct cs \<and> distinct ps \<and> distinct ks \<and>
    (\<forall>l \<in> set ls. \<exists>e \<in> set es. fst e = fst l) \<and>
    (\<forall>l \<in> set ls. \<forall>e \<in> set es. \<forall>a \<in> set as. fst e = fst l \<and> snd l = Some (fst a) \<longrightarrow> fst (snd a) = fst (snd e)) \<and>
    (\<forall>r \<in> set fs. \<forall>a \<in> set as. snd (snd (snd r)) = Some (fst a) \<longrightarrow> fst (snd a) = fst (snd r)) \<and>
    (\<forall>e \<in> set es. \<forall>w \<in> set ws. snd (snd e) = fst w \<longrightarrow> snd w = fst (snd e)) \<and>
    (\<forall>a \<in> set as. \<forall>w \<in> set ws. snd (snd a) = fst w \<longrightarrow> snd w = fst (snd a)) \<and>
    (\<forall>r \<in> set fs. \<forall>w \<in> set ws. fst (snd (snd r)) = fst w \<longrightarrow> snd w = fst (snd r))"

lemma wired_alt: "wired s \<longleftrightarrow> wired_skeleton (skeleton s)"
  by (simp add: wired_def tenancy_def keys_unique_def refs_ok_def skeleton_def comp_def conj_assoc)

text \<open>All identifiers in use, as keys or as references.\<close>

definition used_ids :: "db \<Rightarrow> uuid set" where
  "used_ids s = wf_id ` set (workflows s) \<union> ac_id ` set (agent_configs s) \<union> ac_workflow_id ` set (agent_configs s) \<union>
    tl_id ` set (tools s) \<union> ex_id ` set (executions s) \<union> ex_workflow_id ` set (executions s) \<union>
    lg_execution_id ` set (execution_logs s) \<union> {i. \<exists>l \<in> set (execution_logs s). lg_agent_config_id l = Some i} \<union>
    fs_id ` set (suggestions s) \<union> fs_workflow_id ` set (suggestions s) \<union>
    {i. \<exists>r \<in> set (suggestions s). fs_agent_config_id r = Some i} \<union>
    cr_id ` set (credentials s) \<union> pl_id ` set (plans s) \<union> ak_id ` set (acks s)"

lemma used_idsD:
  assumes "i \<notin> used_ids s"
  shows "i \<notin> wf_id ` set (workflows s)" "i \<notin> ac_id ` set (agent_configs s)" "i \<notin> tl_id ` set (tools s)"
    "i \<notin> ex_id ` set (executions s)" "i \<notin> fs_id ` set (suggestions s)" "i \<notin> cr_id ` set (credentials s)"
    "i \<notin> pl_id ` set (plans s)" "i \<notin> ak_id ` set (acks s)" "i \<notin> lg_execution_id ` set (execution_logs s)"
    "a \<in> set (agent_configs s) \<Longrightarrow> ac_workflow_id a \<noteq> i" "e \<in> set (executions s) \<Longrightarrow> ex_workflow_id e \<noteq> i"
    "l \<in> set (execution_logs s) \<Longrightarrow> lg_execution_id l \<noteq> i" "l \<in> set (execution_logs s) \<Longrightarrow> lg_agent_config_id l \<noteq> Some i"
    "r \<in> set (suggestions s) \<Longrightarrow> fs_workflow_id r \<noteq> i" "r \<in> set (suggestions s) \<Longrightarrow> fs_agent_config_id r \<noteq> Some i"
  using assms unfolding used_ids_def by blast+

lemmas wiring = wired_def tenancy_def keys_unique_def refs_ok_def

lemma wired_add_workflow:
  assumes "wired s" "wf_id w \<notin> used_ids s"
  shows "wired (s\<lparr>workflows := workflows s @ [w]\<rparr>)"
  using assms(1) used_idsD(1) [OF assms(2)] used_idsD(10,11,14) [OF assms(2)] by (auto simp: wiring)

lemma wired_add_agent:
  assumes "wired s" "ac_id a \<notin> used_ids s"
    and "\<And>w. w \<in> set (workflows s) \<Longrightarrow> wf_id w = ac_workflow_id a \<Longrightarrow> wf_tenant_id w = ac_tenant_id a"
  shows "wired (s\<lparr>agent_configs := agent_configs s @ [a]\<rparr>)"
  using assms(1,3) used_idsD(2) [OF assms(2)] used_idsD(13,15) [OF assms(2)] by (auto simp: wiring)

lemma wired_add_tool: "wired s \<Longrightarrow> tl_id a \<notin> used_ids s \<Longrightarrow> wired (s\<lparr>tools := tools s @ [a]\<rparr>)"
  using used_idsD(3) [of "tl_id a" s] by (simp add: wiring)

lemma wired_add_credential: "wired s \<Longrightarrow> cr_id a \<notin> used_ids s \<Longrightarrow> wired (s\<lparr>credentials := credentials s @ [a]\<rparr>)"
  using used_idsD(6) [of "cr_id a" s] by (simp add: wiring)

lemma wired_add_plan: "wired s \<Longrightarrow> pl_id a \<notin> used_ids s \<Longrightarrow> wired (s\<lparr>plans := plans s @ [a]\<rparr>)"
  using used_idsD(7) [of "pl_id a" s] by (simp add: wiring)

lemma wired_add_ack: "wired s \<Longrightarrow> ak_id a \<notin> used_ids s \<Longrightarrow> wired (s\<lparr>acks := acks s @ [a]\<rparr>)"
  using used_idsD(8) [of "ak_id a" s] by (simp add: wiring)

lemma wired_add_execution:
  assumes "wired s" "ex_id e \<notin> used_ids s"
    and "\<And>w. w \<in> set (workflows s) \<Longrightarrow> wf_id w = ex_workflow_id e \<Longrightarrow> wf_tenant_id w = ex_tenant_id e"
  shows "wired (add_execution e s)"
  using assms(1,3) used_idsD(4) [OF assms(2)] used_idsD(12) [OF assms(2), THEN not_sym] by (auto simp: wiring add_execution_def)

lemma wired_add_suggestion:
  assumes "wired s" "fs_id r \<notin> used_ids s"
    and "\<And>w. w \<in> set (workflows s) \<Longrightarrow> wf_id w = fs_workflow_id r \<Longrightarrow> wf_tenant_id w = fs_tenant_id r"
    and "\<And>a. a \<in> set (agent_configs s) \<Longrightarrow> fs_agent_config_id r = Some (ac_id a) \<Longrightarrow> ac_tenant_id a = fs_tenant_id r"
  shows "wired (s\<lparr>suggestions := suggestions s @ [r]\<rparr>)"
  using assms(1,3,4) used_idsD(5) [OF assms(2)] by (auto simp: wiring)

text \<open>A change of the tenant that keeps all of it; the executions it adds have identifiers of \<open>new\<close>.\<close>

definition conserves :: "uuid \<Rightarrow> uuid set \<Rightarrow> db \<Rightarrow> db \<Rightarrow> bool" where
  "conserves tid new s s' \<longleftrightarrow> wired s' \<and> (\<forall>e \<in> set (executions s').
    (\<exists>x \<in> set (executions s). ex_id x = ex_id e \<and> ex_tenant_id x = ex_tenant_id e) \<or> ex_id e \<in> new \<and> ex_tenant_id e = tid)"

lemma conserves_refl: "wired s \<Longrightarrow> conserves tid new s s"
  by (auto simp: conserves_def)

lemma conserves_same_executions: "wired s' \<Longrightarrow> executions s' = executions s \<Longrightarrow> conserves tid new s s'"
  by (auto simp: conserves_def)

lemma conserves_skeleton:
  assumes "wired s" "skeleton s' = skeleton s"
  shows "conserves tid new s s'"
proof -
  let ?k = "\<lambda>e. (ex_id e, ex_tenant_id e, ex_workflow_id e)"
  have "?k ` set (executions s') = ?k ` set (executions s)"
    using assms(2) by (simp add: skeleton_def) (metis (no_types, lifting) list.set_map)
  then have "\<exists>x \<in> set (executions s). ex_id x = ex_id e \<and> ex_tenant_id x = ex_tenant_id e" if "e \<in> set (executions s')" for e
    using that by (smt (verit) image_iff prod.inject)
  moreover have "wired s'" using assms by (simp add: wired_alt)
  ultimately show ?thesis by (simp add: conserves_def)
qed

lemma conserves_trans:
  "conserves tid new s s1 \<Longrightarrow> conserves tid new s1 s2 \<Longrightarrow> conserves tid new s s2"
  by (fastforce simp: conserves_def)

lemma conserves_add_execution:
  assumes "wired s" "ex_id e \<notin> used_ids s" "ex_tenant_id e = tid" "ex_id e \<in> new"
    and "\<And>w. w \<in> set (workflows s) \<Longrightarrow> wf_id w = ex_workflow_id e \<Longrightarrow> wf_tenant_id w = ex_tenant_id e"
  shows "conserves tid new s (add_execution e s)"
  using wired_add_execution [OF assms(1,2,5)] assms(3,4) by (auto simp: conserves_def add_execution_def)

section \<open>Every service conserves\<close>

lemma skeleton_rows:
  "skeleton (s\<lparr>tenants := a1\<rparr>) = skeleton s" "skeleton (s\<lparr>users := a2\<rparr>) = skeleton s"
  "skeleton (s\<lparr>replay_runs := a3\<rparr>) = skeleton s" "skeleton (s\<lparr>triggers := a4\<rparr>) = skeleton s"
  "skeleton (s\<lparr>webhook_events := a5\<rparr>) = skeleton s" "skeleton (s\<lparr>channels := a6\<rparr>) = skeleton s"
  "skeleton (s\<lparr>deliveries := a7\<rparr>) = skeleton s" "skeleton (s\<lparr>worker_runs := a8\<rparr>) = skeleton s"
  by (simp_all add: skeleton_def)

lemma skeleton_updates:
  "(\<And>x. wf_id (fw x) = wf_id x \<and> wf_tenant_id (fw x) = wf_tenant_id x) \<Longrightarrow>
    skeleton (s\<lparr>workflows := row_update pw fw (workflows s)\<rparr>) = skeleton s"
  "(\<And>x. ac_id (fa x) = ac_id x \<and> ac_tenant_id (fa x) = ac_tenant_id x \<and> ac_workflow_id (fa x) = ac_workflow_id x) \<Longrightarrow>
    skeleton (s\<lparr>agent_configs := row_update pa fa (agent_configs s)\<rparr>) = skeleton s"
  "(\<And>x. tl_id (ft x) = tl_id x) \<Longrightarrow> skeleton (s\<lparr>tools := row_update pt ft (tools s)\<rparr>) = skeleton s"
  "(\<And>x. ex_id (fe x) = ex_id x \<and> ex_tenant_id (fe x) = ex_tenant_id x \<and> ex_workflow_id (fe x) = ex_workflow_id x) \<Longrightarrow>
    skeleton (s\<lparr>executions := row_update pe fe (executions s)\<rparr>) = skeleton s"
  "(\<And>x. fs_id (fs x) = fs_id x \<and> fs_tenant_id (fs x) = fs_tenant_id x \<and> fs_workflow_id (fs x) = fs_workflow_id x \<and>
      fs_agent_config_id (fs x) = fs_agent_config_id x) \<Longrightarrow>
    skeleton (s\<lparr>suggestions := row_update ps fs (suggestions s)\<rparr>) = skeleton s"
  "(\<And>x. cr_id (fc x) = cr_id x) \<Longrightarrow> skeleton (s\<lparr>credentials := row_update pc fc (credentials s)\<rparr>) = skeleton s"
  "(\<And>x. pl_id (fp x) = pl_id x) \<Longrightarrow> skeleton (s\<lparr>plans := row_update pp fp (plans s)\<rparr>) = skeleton s"
  "(\<And>x. ak_id (fk x) = ak_id x) \<Longrightarrow> skeleton (s\<lparr>acks := row_update pk fk (acks s)\<rparr>) = skeleton s"
  by (simp_all add: skeleton_def map_key_row_update)

lemma get_workflow_InrD: "get_workflow tid wid s = Inr w \<Longrightarrow> w \<in> set (workflows s) \<and> wf_id w = wid \<and> wf_tenant_id w = tid"
  by (auto simp: get_workflow_def dest: row_find_SomeD split: option.splits)

lemma workflow_owner:
  assumes "wired s" "get_workflow tid wid s = Inr w" "v \<in> set (workflows s)" "wf_id v = wid"
  shows "wf_tenant_id v = tid"
proof -
  have "inj_on wf_id (set (workflows s))" using assms(1) by (simp add: wiring distinct_map)
  from inj_onD [OF this, of v w] get_workflow_InrD [OF assms(2)] assms(3,4) show ?thesis by auto
qed

lemmas conserves_row = conserves_skeleton [OF _ skeleton_updates(1)] conserves_skeleton [OF _ skeleton_updates(2)]
  conserves_skeleton [OF _ skeleton_updates(3)] conserves_skeleton [OF _ skeleton_updates(4)]
  conserves_skeleton [OF _ skeleton_updates(5)] conserves_skeleton [OF _ skeleton_updates(6)]
  conserves_skeleton [OF _ skeleton_updates(7)] conserves_skeleton [OF _ skeleton_updates(8)]

lemmas conserves_added = conserves_same_executions [OF wired_add_workflow] conserves_same_executions [OF wired_add_agent]
  conserves_same_executions [OF wired_add_tool] conserves_same_executions [OF wired_add_credential]
  conserves_same_executions [OF wired_add_plan] conserves_same_executions [OF wired_add_ack]
  conserves_same_executions [OF wired_add_suggestion]

lemma create_execution_conserves:
  assumes "wired s" "i \<notin> used_ids s" "i \<in> new"
  shows "conserves tid new s (snd (create_execution i now tid wid input s))"
proof (cases "fst (create_execution i now tid wid input s)")
  case (Inl err)
  then show ?thesis using assms(1) by (simp add: create_execution_snd conserves_refl)
next
  case (Inr e)
  then obtain w where w: "get_workflow tid wid s = Inr w"
    by (auto simp: create_execution_def split: sum.splits)
  have e: "ex_id e = i" "ex_tenant_id e = tid" "ex_workflow_id e = wid"
    using create_execution_row [OF Inr] by (simp_all add: new_execution_def)
  show ?thesis unfolding create_execution_snd Inr sum.case
    by (rule conserves_add_execution) (use assms e workflow_owner [OF assms(1) w] in auto)
qed

lemma retry_dead_letter_conserves:
  assumes "wired s" "i \<notin> used_ids s" "i \<in> new"
  shows "conserves tid new s (snd (retry_dead_letter_execution i now tid eid uid s))"
  using create_execution_conserves [OF assms] conserves_refl [OF assms(1)]
  by (auto simp: retry_dead_letter_execution_def split: sum.split bool.split)

lemma workflows_conserve:
  assumes "wired s"
  shows "i \<notin> used_ids s \<Longrightarrow> conserves tid new s (snd (create_workflow i now tid uid name description pattern s))"
    "i \<notin> used_ids s \<Longrightarrow> conserves tid new s (snd (duplicate_workflow i now tid uid wid s))"
    "conserves tid new s (snd (update_workflow tid wid n d g p s))"
    "conserves tid new s (snd (pause_workflow_dispatch now tid wid uid s))"
    "conserves tid new s (snd (resume_workflow_dispatch tid wid s))"
    "conserves tid new s (snd (delete_workflow tid wid s))"
  using assms
  by (auto simp: create_workflow_def duplicate_workflow_def add_workflow_def update_workflow_def change_workflow_def
      pause_workflow_dispatch_def resume_workflow_dispatch_def delete_workflow_def update_workflow_row_def new_workflow_def
      intro!: conserves_refl conserves_row conserves_added split: option.split sum.split)

lemma create_agent_conserves:
  assumes "wired s" "i \<notin> used_ids s"
  shows "conserves tid new s (snd (create_agent i now tid wid a s))"
proof (cases "get_workflow tid wid s")
  case (Inl err)
  then show ?thesis using assms by (simp add: create_agent_def conserves_refl)
next
  case (Inr w)
  have "wired (s\<lparr>agent_configs := agent_configs s @ [new_agent i now tid wid a]\<rparr>)"
    by (rule wired_add_agent) (use assms workflow_owner [OF assms(1) Inr] in \<open>auto simp: new_agent_def\<close>)
  then show ?thesis using Inr assms(1)
    by (auto simp: create_agent_def Let_def intro!: conserves_refl conserves_same_executions split: option.split)
qed

lemma delete_agent_conserves:
  assumes "wired s"
  shows "conserves tid new s (snd (delete_agent tid wid aid s))"
proof -
  let ?s = "s\<lparr>agent_configs := filter (\<lambda>x. ac_id x \<noteq> aid) (agent_configs s),
      execution_logs := map (\<lambda>l. l\<lparr>lg_agent_config_id := unlink aid (lg_agent_config_id l)\<rparr>) (execution_logs s),
      suggestions := map (\<lambda>r. r\<lparr>fs_agent_config_id := unlink aid (fs_agent_config_id r)\<rparr>) (suggestions s)\<rparr>"
  have "wired ?s" using assms by (auto simp: wiring unlink_def comp_def distinct_map_filter split: if_splits)
  then show ?thesis using assms
    by (auto simp: delete_agent_def intro!: conserves_refl conserves_same_executions split: sum.split)
qed

lemma registries_conserve:
  assumes "wired s"
  shows "conserves tid new s (snd (update_agent tid wid aid c s))"
    "rw_id dw \<notin> used_ids s \<Longrightarrow> conserves tid new s (snd (create_credential fn st dw tid uid key name auth_type config s))"
    "conserves tid new s (snd (delete_credential tid cid s))"
    "conserves tid new s (snd (create_trigger dw public_id tid wid uid trigger_type config s))"
    "i \<notin> used_ids s \<Longrightarrow> conserves tid new s (snd (create_tool net tf i now tid name description tool_type config s))"
    "conserves tid new s (snd (update_tool net tf tid ti n d t c2 s))"
    "conserves tid new s (snd (delete_tool tid ti s))"
  using assms
  by (auto simp: update_agent_def update_agent_row_def change_agent_def create_credential_def delete_credential_def create_trigger_def
      create_tool_def update_tool_def delete_tool_def Let_def skeleton_rows
      intro!: conserves_refl conserves_row conserves_added intro: conserves_skeleton
      split: option.split sum.split prod.split)

section \<open>The doctor conserves\<close>

lemma agent_owner:
  assumes "wired s" "a \<in> set (agent_configs s)" "b \<in> set (agent_configs s)" "ac_id a = ac_id b"
  shows "ac_tenant_id a = ac_tenant_id b"
proof -
  have "inj_on ac_id (set (agent_configs s))" using assms(1) by (simp add: wiring distinct_map)
  from inj_onD [OF this, of a b] assms(2-4) show ?thesis by simp
qed

lemma first_agent_owner:
  assumes "wired s" "get_execution tid eid s = Inr e" "first_agent_config_id (doctor_logs eid s) = Some i"
    and "a \<in> set (agent_configs s)" "ac_id a = i"
  shows "ac_tenant_id a = tid"
proof -
  from assms(3) obtain l where "l \<in> set (doctor_logs eid s)" "lg_agent_config_id l = Some i"
    by (auto simp: first_agent_config_id_def bind_eq_Some_conv dest: row_find_SomeD)
  then have "l \<in> set (execution_logs s)" "lg_execution_id l = eid" by (auto simp: doctor_logs_def)
  with refs_log [of s l e a] get_execution_InrD [OF assms(2)] assms \<open>lg_agent_config_id l = Some i\<close> show ?thesis
    by (simp add: wired_def tenancy_def)
qed

lemma found_agent_owner:
  assumes "find_agent_for_suggestion tid wid logs s = Inr (Some a)"
  shows "a \<in> set (agent_configs s) \<and> ac_tenant_id a = tid"
proof -
  consider i where "row_find (\<lambda>a. ac_id a = i \<and> ac_tenant_id a = tid) (agent_configs s) = Some a"
    | "filter (unsupported_agent tid wid) (agent_configs s) = [a]"
    using assms by (auto simp: find_agent_for_suggestion_def bind_eq_Some_conv one_or_none_Some split: option.splits)
  then show ?thesis
  proof cases
    case 1
    then show ?thesis by (auto dest: row_find_SomeD)
  next
    case 2
    then have "a \<in> set (filter (unsupported_agent tid wid) (agent_configs s))" by simp
    then show ?thesis by (simp add: unsupported_agent_def agent_of_def)
  qed
qed

lemma cause_agent_owner:
  assumes "wired s" "get_execution tid eid s = Inr e" "find_cause tid wid (doctor_logs eid s) text1 s = Inr f"
    and "fd_agent f = Some (ac_id a)" "a \<in> set (agent_configs s)"
  shows "ac_tenant_id a = tid"
proof -
  consider "first_agent_config_id (doctor_logs eid s) = Some (ac_id a)"
    | b where "find_agent_for_suggestion tid wid (doctor_logs eid s) s = Inr (Some b)" "ac_id b = ac_id a"
    using assms(3,4) by (auto simp: find_cause_def Let_def provider_finding_def agent_finding_def credential_finding_def
        model_finding_def unknown_finding_def split: if_splits sum.splits option.splits)
  then show ?thesis
  proof cases
    case 1
    then show ?thesis using first_agent_owner [OF assms(1,2) _ assms(5)] by simp
  next
    case 2
    then show ?thesis using found_agent_owner [OF 2(1)] agent_owner [OF assms(1) _ assms(5)] by metis
  qed
qed

lemma diagnose_execution_conserves:
  assumes "wired s" "dg_id dw \<notin> used_ids s"
  shows "conserves tid new s (snd (diagnose_execution dw tid eid force s))"
proof -
  have "wired (s\<lparr>suggestions := row_update (\<lambda>x. open_suggestion tid eid x \<and> patchable (fs_status x)) (dismiss (dg_now dw))
      (suggestions s) @ [suggestion_row dw e (wf_id w) f]\<rparr>)"
    if e: "get_execution tid eid s = Inr e" and w: "get_workflow tid (ex_workflow_id e) s = Inr w"
      and f: "find_cause tid (wf_id w) (doctor_logs eid s) (collect_error_text e (doctor_logs eid s)) s = Inr f" for e w f
  proof -
    let ?r = "suggestion_row dw e (wf_id w) f"
    have tid: "ex_tenant_id e = tid" using get_execution_InrD [OF e] by simp
    have "wired (s\<lparr>suggestions := suggestions s @ [?r]\<rparr>)"
    proof (rule wired_add_suggestion)
      show "wf_tenant_id v = fs_tenant_id ?r" if "v \<in> set (workflows s)" "wf_id v = fs_workflow_id ?r" for v
        using workflow_owner [OF assms(1) w that(1)] get_workflow_InrD [OF w] that(2) tid by (simp add: suggestion_row_def)
      show "ac_tenant_id a = fs_tenant_id ?r" if "a \<in> set (agent_configs s)" "fs_agent_config_id ?r = Some (ac_id a)" for a
        using cause_agent_owner [OF assms(1) e f] that tid by (simp add: suggestion_row_def)
    qed (use assms in \<open>simp_all add: suggestion_row_def\<close>)
    moreover have "skeleton (s\<lparr>suggestions := row_update P (dismiss now) (suggestions s) @ [?r]\<rparr>) =
        skeleton (s\<lparr>suggestions := suggestions s @ [?r]\<rparr>)" for P now
      by (simp add: skeleton_def map_key_row_update dismiss_def)
    ultimately show ?thesis by (simp add: wired_alt)
  qed
  then show ?thesis using assms(1)
    by (auto simp: diagnose_execution_def Let_def intro!: conserves_refl conserves_same_executions split: sum.split)
qed

fun used_skeleton where
  "used_skeleton (ws, as, ts, es, ls, fs, cs, ps, ks) = fst ` set ws \<union> fst ` set as \<union> (\<lambda>x. snd (snd x)) ` set as \<union>
    set ts \<union> fst ` set es \<union> (\<lambda>x. snd (snd x)) ` set es \<union> fst ` set ls \<union> {i. \<exists>l \<in> set ls. snd l = Some i} \<union>
    fst ` set fs \<union> (\<lambda>x. fst (snd (snd x))) ` set fs \<union> {i. \<exists>r \<in> set fs. snd (snd (snd r)) = Some i} \<union> set cs \<union> set ps \<union> set ks"

lemma used_ids_alt: "used_ids s = used_skeleton (skeleton s)"
  by (simp add: used_ids_def skeleton_def image_image)

lemma skeleton_apply:
  "apply_patch_operations tid ops s = Inr s1 \<Longrightarrow> skeleton s1 = skeleton s"
proof (induction ops arbitrary: s)
  case (Cons op ops)
  have "skeleton s2 = skeleton s" if "apply_agent_operation tid op s = Inr s2" for s2
    using that by (auto simp: apply_agent_operation_def update_agent_row_def skeleton_updates
        split: option.splits sum.splits if_splits)
  moreover have "skeleton s2 = skeleton s" if "apply_tool_operation tid op s = Inr s2" for s2
    using that by (auto simp: apply_tool_operation_def skeleton_updates split: option.splits sum.splits)
  ultimately show ?case using Cons by (auto split: sum.splits if_splits)
qed simp

lemma apply_suggestion_conserves:
  assumes "wired s" "ad_execution_id dw \<notin> used_ids s" "ad_execution_id dw \<in> new"
  shows "conserves tid new s (snd (apply_suggestion dw tid sid uid again s))"
proof -
  have marked: "conserves tid new s (update_suggestion sid (mark_applied dw uid) s2)" if "conserves tid new s s2" for s2
  proof -
    have "wired s2" using that by (simp add: conserves_def)
    then have "conserves tid new s2 (update_suggestion sid (mark_applied dw uid) s2)"
      unfolding update_suggestion_def by (rule conserves_row) (simp add: mark_applied_def)
    with that show ?thesis by (rule conserves_trans)
  qed
  have retried: "conserves tid new s s2"
    if r: "get_suggestion tid sid s = Inr r" and s1: "apply_patch_operations tid (operation_list (fs_patch r)) s = Inr s1"
      and s2: "retry_failed dw tid r again s1 = Inr (i, s2)" for r s1 s2 i
  proof -
    have sk: "skeleton s1 = skeleton s" by (rule skeleton_apply [OF s1])
    then have c: "conserves tid new s s1" and w1: "wired s1" and u: "ad_execution_id dw \<notin> used_ids s1"
      using conserves_skeleton [OF assms(1) sk] assms(1,2) by (simp_all add: wired_alt used_ids_alt)
    have r: "r \<in> set (suggestions s)" "fs_tenant_id r = tid"
      using r by (auto simp: get_suggestion_def dest: row_find_SomeD split: option.splits)
    have own: "wf_tenant_id w = tid" if "w \<in> set (workflows s1)" "wf_id w = fs_workflow_id r" for w
    proof -
      have "suggestions s1 = suggestions s"
        using apply_patch_operations_slice [of s tid "operation_list (fs_patch r)"] assms(1) s1
        by (simp add: patched_def wired_def tenancy_def)
      then show ?thesis using w1 r that by (auto simp: wired_def)
    qed
    show ?thesis
    proof (cases again)
      case True
      then obtain e where "get_execution tid (fs_execution_id r) s1 = Inr e"
        and "s2 = add_execution (new_execution (ad_execution_id dw) (ad_created dw) tid (fs_workflow_id r) (ex_input_data e)) s1"
        using s2 by (auto simp: retry_failed_def split: sum.splits)
      moreover have "conserves tid new s1 (add_execution (new_execution (ad_execution_id dw) (ad_created dw) tid (fs_workflow_id r) v) s1)" for v
        by (rule conserves_add_execution) (use w1 u assms(3) own in \<open>simp_all add: new_execution_def\<close>)
      ultimately show ?thesis using conserves_trans [OF c] by simp
    next
      case False
      then show ?thesis using c s2 by (simp add: retry_failed_def)
    qed
  qed
  show ?thesis using conserves_refl [OF assms(1)] marked retried
    by (auto simp: apply_suggestion_def split: option.splits sum.splits)
qed

lemma doctor_conserves:
  assumes "wired s"
  shows "conserves tid new s (snd (replay_suggestion rd tid sid mode s))"
    "conserves tid new s (snd (dismiss_suggestion now tid sid s))"
proof -
  have "skeleton (update_suggestion sid (record_replay v) (s\<lparr>replay_runs := rs\<rparr>)) = skeleton s" for v rs
    by (simp add: skeleton_def update_suggestion_def map_key_row_update record_replay_def)
  then show "conserves tid new s (snd (replay_suggestion rd tid sid mode s))"
    using assms by (auto simp: replay_suggestion_def Let_def intro!: conserves_refl conserves_skeleton split: sum.split)
  have "skeleton (update_suggestion sid (dismiss now) s) = skeleton s"
    by (simp add: skeleton_def update_suggestion_def map_key_row_update dismiss_def)
  then show "conserves tid new s (snd (dismiss_suggestion now tid sid s))"
    using assms by (auto simp: dismiss_suggestion_def intro!: conserves_refl conserves_skeleton split: sum.split)
qed

section \<open>Operations and automation conserve\<close>

lemma conserves_rows:
  assumes "wired s"
  shows "conserves tid new s (s\<lparr>tenants := a1\<rparr>)" "conserves tid new s (s\<lparr>channels := a2\<rparr>)"
    "conserves tid new s (s\<lparr>deliveries := a3\<rparr>)" "conserves tid new s (s\<lparr>worker_runs := a4\<rparr>)"
  using assms by (simp_all add: conserves_skeleton skeleton_rows)

lemma deliver_routes_rows:
  "deliver_routes net fn st dw tid b p alerts rs rep s tf = (Inr (rep1, s1), tf1) \<Longrightarrow> skeleton s1 = skeleton s"
proof (induction rs arbitrary: rep s tf)
  case (Cons r rs)
  have "skeleton s2 = skeleton s" if "deliver_route net fn st dw tid b p alerts r rep s tf = (Inr (rep2, s2), tf2)" for rep2 s2 tf2
    using that by (auto simp: deliver_route_def record_deliveries_def Let_def skeleton_rows
        split: option.splits prod.splits sum.splits if_splits)
  with Cons show ?case by (auto split: if_splits prod.splits sum.splits)
qed simp

lemma operations_conserve:
  assumes "wired s"
  shows "conserves tid new s (snd (update_alert_policy tid p s))"
    "conserves tid new s (snd (update_worker_config tid c s))"
    "conserves tid new s (snd (without_traffic (create_alert_channel net fn st dw tid uid name channel_type config) tf s))"
    "conserves tid new s (snd (without_traffic (deliver_dispatch_alerts net fn st dd tid w b) tf s))"
    "rw_id dw \<notin> used_ids s \<Longrightarrow> conserves tid new s (snd (acknowledge_incident dw now tid u n w s))"
    "conserves tid new s (snd (resolve_incident now later tid u n w s))"
    "rw_id dw \<notin> used_ids s \<Longrightarrow> conserves tid new s (snd (create_plan ck dw tid u code w sla s))"
    "conserves tid new s (snd (approve_plan now tid u pid s))"
    "conserves tid new s (snd (reject_plan now tid u pid n s))"
proof -
  show "conserves tid new s (snd (update_alert_policy tid p s))" "conserves tid new s (snd (update_worker_config tid c s))"
    using assms by (simp_all add: update_alert_policy_def update_worker_config_def Let_def conserves_refl conserves_rows split: sum.split)
  show "conserves tid new s (snd (without_traffic (create_alert_channel net fn st dw tid uid name channel_type config) tf s))"
    using assms by (auto simp: without_traffic_def create_alert_channel_def Let_def conserves_refl conserves_rows
        split: sum.split option.split prod.split)
  show "conserves tid new s (snd (without_traffic (deliver_dispatch_alerts net fn st dd tid w b) tf s))"
    using assms deliver_routes_rows by (fastforce simp: without_traffic_def deliver_dispatch_alerts_def conserves_refl
        split: sum.splits prod.splits intro: conserves_skeleton)
  show "rw_id dw \<notin> used_ids s \<Longrightarrow> conserves tid new s (snd (acknowledge_incident dw now tid u n w s))"
    using assms by (auto simp: acknowledge_incident_def Let_def update_ack_def acknowledged_by_def blank_ack_def
        intro!: conserves_refl conserves_row conserves_added split: sum.split option.split)
  show "conserves tid new s (snd (resolve_incident now later tid u n w s))"
    using assms by (auto simp: resolve_incident_def update_ack_def resolved_by_def
        intro!: conserves_refl conserves_row split: sum.split option.split)
  show "rw_id dw \<notin> used_ids s \<Longrightarrow> conserves tid new s (snd (create_plan ck dw tid u code w sla s))"
    using assms by (auto simp: create_plan_def Let_def new_plan_def
        intro!: conserves_refl conserves_added split: sum.split option.split)
  show "conserves tid new s (snd (approve_plan now tid u pid s))" "conserves tid new s (snd (reject_plan now tid u pid n s))"
    using assms by (auto simp: approve_plan_def reject_plan_def Let_def update_plan_def
        intro!: conserves_refl conserves_row split: sum.split)
qed

text \<open>The identifiers a pass of the worker draws are new, one for each plan.\<close>

definition worker_draws :: "worker_env \<Rightarrow> uuid set \<Rightarrow> automation_plan list \<Rightarrow> db \<Rightarrow> bool" where
  "worker_draws env new ps s \<longleftrightarrow> inj_on (\<lambda>p. pw_fresh env (pl_id p)) (set ps) \<and> distinct ps \<and>
    (\<forall>p \<in> set ps. pw_fresh env (pl_id p) \<notin> used_ids s \<and> pw_fresh env (pl_id p) \<in> new)"

lemma skeleton_update_plan:
  "(\<And>x. pl_id (f x) = pl_id x) \<Longrightarrow> skeleton (update_plan i f s) = skeleton s"
  by (simp add: update_plan_def skeleton_updates)

lemma skeleton_update_execution:
  "(\<And>x. ex_id (f x) = ex_id x \<and> ex_tenant_id (f x) = ex_tenant_id x \<and> ex_workflow_id (f x) = ex_workflow_id x) \<Longrightarrow>
    skeleton (update_execution i f s) = skeleton s"
  by (simp add: update_execution_def skeleton_updates)

lemma used_ids_add_execution: "used_ids (add_execution e s) = used_ids s \<union> {ex_id e, ex_workflow_id e}"
  by (auto simp: used_ids_def add_execution_def)

lemma create_execution_used:
  "used_ids (snd (create_execution i now tid wid input s)) \<subseteq> used_ids s \<union> {i}"
proof (cases "fst (create_execution i now tid wid input s)")
  case (Inl err)
  then show ?thesis by (auto simp: create_execution_snd)
next
  case (Inr e)
  then obtain w where w: "get_workflow tid wid s = Inr w"
    by (auto simp: create_execution_def split: sum.splits)
  have "wid \<in> used_ids s" using get_workflow_InrD [OF w] by (auto simp: used_ids_def)
  then show ?thesis using Inr create_execution_row [OF Inr]
    by (auto simp: create_execution_snd used_ids_add_execution new_execution_def)
qed

lemma retry_dead_letter_used:
  "used_ids (snd (retry_dead_letter_execution i now tid eid uid s)) \<subseteq> used_ids s \<union> {i}"
  using create_execution_used by (auto simp: retry_dead_letter_execution_def split: sum.split bool.split)

lemma execute_plan_conserves:
  assumes "wired s" "pw_fresh env (pl_id p) \<notin> used_ids s" "pw_fresh env (pl_id p) \<in> new" "pl_tenant_id p = tid"
  shows "conserves tid new s (snd (execute_plan env p s)) \<and>
    used_ids (snd (execute_plan env p s)) \<subseteq> used_ids s \<union> {pw_fresh env (pl_id p)}"
proof -
  let ?i = "pw_fresh env (pl_id p)"
  have same: "conserves tid new s s' \<and> used_ids s' \<subseteq> used_ids s \<union> {?i}" if "skeleton s' = skeleton s" for s'
    using conserves_skeleton [OF assms(1) that] that by (auto simp: used_ids_alt)
  have guard: "skeleton (snd (execute_resume_guard (pw_now env) p s)) = skeleton s"
    by (auto simp: execute_resume_guard_def resume_workflows_def skeleton_updates split: sum.split)
  have retry: "conserves tid new s (snd (execute_approval_gated_retry env p s)) \<and>
      used_ids (snd (execute_approval_gated_retry env p s)) \<subseteq> used_ids s \<union> {?i}"
  proof (cases "find_dead_letter_retry_source (pl_tenant_id p) s")
    case None
    then show ?thesis using same [of s] by (simp add: execute_approval_gated_retry_def)
  next
    case (Some source)
    let ?retry = "retry_dead_letter_execution ?i (pw_created env (pl_id p)) (pl_tenant_id p) (ex_id source) (retry_actor_id p) s"
    obtain r s1 where r: "?retry = (r, s1)" by fastforce
    have c: "conserves tid new s s1" "used_ids s1 \<subseteq> used_ids s \<union> {?i}"
      using retry_dead_letter_conserves [OF assms(1-3)] retry_dead_letter_used assms(4) r by (metis snd_conv)+
    have "snd (execute_approval_gated_retry env p s) = s1 \<or>
        (\<exists>j. snd (execute_approval_gated_retry env p s) =
          update_execution j (\<lambda>x. x\<lparr>ex_input_data := mark_automated (pl_id p) (ex_input_data x)\<rparr>) s1)"
      using Some r by (auto simp: execute_approval_gated_retry_def split: sum.split http_error.split)
    then have "skeleton (snd (execute_approval_gated_retry env p s)) = skeleton s1"
      by (auto simp: skeleton_update_execution)
    then show ?thesis using c conserves_trans [OF c(1) conserves_skeleton] by (simp add: used_ids_alt conserves_def)
  qed
  show ?thesis using retry same [OF guard] same [of s] by (simp add: execute_plan_def)
qed

lemma worker_loop_conserves:
  assumes "wired s" "\<forall>p \<in> set ps. pl_tenant_id p = tid" "worker_draws env new ps s"
  shows "conserves tid new s (snd (worker_loop env ps r s))"
  using assms
proof (induction ps arbitrary: r s)
  case Nil
  then show ?case by (simp add: conserves_refl)
next
  case (Cons p ps)
  show ?case
  proof (cases "terminal_plan_status (pl_status p)")
    case True
    then show ?thesis using Cons by (simp add: worker_draws_def)
  next
    case False
    let ?s = "update_plan (pl_id p) (\<lambda>p. p\<lparr>pl_status := PlExecuting\<rparr>) s"
    obtain q s1 where q: "execute_plan env p ?s = (q, s1)" by fastforce
    let ?s2 = "update_plan (pl_id p) (close_plan (pw_now env) q) s1"
    have sk: "skeleton ?s = skeleton s" "skeleton ?s2 = skeleton s1"
      by (auto intro!: skeleton_update_plan simp: close_plan_def split: sum.split)
    have fresh: "pw_fresh env (pl_id p) \<notin> used_ids ?s" "pw_fresh env (pl_id p) \<in> new"
      using Cons.prems(3) sk(1) by (simp_all add: worker_draws_def used_ids_alt)
    have "wired ?s" using Cons.prems(1) sk(1) by (simp add: wired_alt)
    from execute_plan_conserves [OF this fresh, of tid] q Cons.prems(2)
    have s1: "conserves tid new ?s s1" "used_ids s1 \<subseteq> used_ids ?s \<union> {pw_fresh env (pl_id p)}" by simp_all
    have c: "conserves tid new s ?s2"
      using conserves_skeleton [OF Cons.prems(1) sk(1)] s1(1) conserves_skeleton [OF _ sk(2)]
      by (meson conserves_def conserves_trans)
    have used: "used_ids ?s2 \<subseteq> used_ids s \<union> {pw_fresh env (pl_id p)}" using s1(2) sk by (simp add: used_ids_alt)
    have "worker_draws env new ps ?s2"
      using Cons.prems(3) used by (auto simp: worker_draws_def inj_on_def)
    with Cons.IH [of ?s2] c Cons.prems(2) have "conserves tid new ?s2 (snd (worker_loop env ps
        (count_outcome q (r\<lparr>wk_claimed := wk_claimed r + 1\<rparr>)) ?s2))" by (simp add: conserves_def)
    from conserves_trans [OF c this] show ?thesis using False q by simp
  qed
qed

section \<open>Every request conserves\<close>

definition conserving :: "uuid \<Rightarrow> uuid set \<Rightarrow> (api_state \<Rightarrow> 'r \<times> api_state) \<Rightarrow> api_state \<Rightarrow> bool" where
  "conserving tid new f x \<longleftrightarrow> conserves tid new (as_db x) (as_db (snd (f x)))"

text \<open>The draws of a request: new identifiers that belong to the tenant.\<close>

definition new_draw :: "(uuid \<Rightarrow> uuid) \<Rightarrow> uuid \<Rightarrow> api_draw \<Rightarrow> db \<Rightarrow> bool" where
  "new_draw own tid dw s \<longleftrightarrow> rw_id (aq_row dw) \<notin> used_ids s \<and> ad_execution_id (aq_apply dw) \<notin> used_ids s \<and>
    dg_id (aq_diagnosis dw) \<notin> used_ids s \<and> rw_nonce (aq_row dw) \<notin> tg_public_id ` set (triggers s) \<and>
    inj_on (\<lambda>p. pw_fresh (aq_worker dw) (pl_id p)) (set (plans s)) \<and>
    (\<forall>p \<in> set (plans s). pw_fresh (aq_worker dw) (pl_id p) \<notin> used_ids s) \<and>
    own (rw_id (aq_row dw)) = tid \<and> own (ad_execution_id (aq_apply dw)) = tid \<and>
    (\<forall>p \<in> set (plans s). own (pw_fresh (aq_worker dw) (pl_id p)) = tid)"

definition proper_request :: "(uuid \<Rightarrow> uuid) \<Rightarrow> api_env \<Rightarrow> api_draw \<Rightarrow> string \<Rightarrow> user \<Rightarrow> api_state \<Rightarrow> bool" where
  "proper_request own e dw token u x \<longleftrightarrow> token_user (ae_crypto e) (aq_login dw) token (as_db x) = Some u \<and>
    CHR '':'' \<notin> set (us_tenant_id u) \<and> new_draw own (us_tenant_id u) dw (as_db x)"

lemma proper_request_of:
  assumes "proper_request own e dw token u x" "wired (as_db x)" "owned own x"
  shows "request_of own e dw token u x"
proof -
  have "fresh_draw dw (as_db x)"
    using assms(1) used_idsD(4,9) unfolding fresh_draw_def proper_request_def new_draw_def by blast
  with assms show ?thesis by (simp add: request_of_def proper_request_def wired_def)
qed

lemma conserving_reading: "wired (as_db x) \<Longrightarrow> conserving tid new (reading f g) x"
  by (simp add: conserving_def reading_def conserves_refl)

lemma conserving_writing: "conserves tid new (as_db x) (snd (g (as_db x))) \<Longrightarrow> conserving tid new (writing f g) x"
  by (simp add: conserving_def writing_def split_beta)

lemma conserving_checked: "wired (as_db x) \<Longrightarrow> conserving tid new body x \<Longrightarrow> conserving tid new (checked ok body) x"
  by (simp add: conserving_def checked_def conserves_refl)

lemma conserving_answering: "conserving tid new f x \<Longrightarrow> conserving tid new (\<lambda>x. answering g (f x)) x"
  by (simp add: conserving_def answering_def)

lemma conserving_guarded:
  assumes "token_user (ae_crypto e) (aq_login dw) token (as_db x) = Some u" "wired (as_db x)" "conserving tid new (body u) x"
  shows "conserving tid new (guarded e dw path token roles body) x"
  using assms authorize_slice(2) [OF assms(1) refl, of path roles]
  by (auto simp: conserving_def guarded_def conserves_refl split: sum.split)

lemma invalidating_as_db [simp]: "as_db (invalidating tid b x) = as_db x"
  by (simp add: invalidating_def)

lemma special_endpoints_conserve:
  assumes "wired (as_db x)"
  shows "rw_id (aq_row dw) \<notin> used_ids (as_db x) \<Longrightarrow> rw_id (aq_row dw) \<in> new \<Longrightarrow>
      conserving (us_tenant_id u) new (start_execution dw wid input u) x"
    "rw_id (aq_row dw) \<notin> used_ids (as_db x) \<Longrightarrow> rw_id (aq_row dw) \<in> new \<Longrightarrow>
      conserving (us_tenant_id u) new (retry_endpoint dw eid u) x"
    "ad_execution_id (aq_apply dw) \<notin> used_ids (as_db x) \<Longrightarrow> ad_execution_id (aq_apply dw) \<in> new \<Longrightarrow>
      conserving (us_tenant_id u) new (apply_fix dw sid again u) x"
    "conserving (us_tenant_id u) new (cancel_endpoint dw eid u) x"
    "conserving (us_tenant_id u) new (show_dashboard dw q u) x"
proof -
  show "rw_id (aq_row dw) \<notin> used_ids (as_db x) \<Longrightarrow> rw_id (aq_row dw) \<in> new \<Longrightarrow>
      conserving (us_tenant_id u) new (start_execution dw wid input u) x"
    using create_execution_conserves [OF assms, of "rw_id (aq_row dw)" new "us_tenant_id u" "rw_created (aq_row dw)" wid input]
    by (auto simp: conserving_def start_execution_def split: prod.split sum.split)
  show "rw_id (aq_row dw) \<notin> used_ids (as_db x) \<Longrightarrow> rw_id (aq_row dw) \<in> new \<Longrightarrow>
      conserving (us_tenant_id u) new (retry_endpoint dw eid u) x"
    using retry_dead_letter_conserves [OF assms, of "rw_id (aq_row dw)" new "us_tenant_id u" "rw_created (aq_row dw)" eid "us_id u"]
    by (auto simp: conserving_def retry_endpoint_def split: prod.split sum.split)
  show "ad_execution_id (aq_apply dw) \<notin> used_ids (as_db x) \<Longrightarrow> ad_execution_id (aq_apply dw) \<in> new \<Longrightarrow>
      conserving (us_tenant_id u) new (apply_fix dw sid again u) x"
    using apply_suggestion_conserves [OF assms, of "aq_apply dw" new "us_tenant_id u" sid "us_id u" again]
    by (auto simp: conserving_def apply_fix_def split: prod.split)
  show "conserving (us_tenant_id u) new (cancel_endpoint dw eid u) x"
    using assms by (auto simp: conserving_def cancel_endpoint_def cancel_execution_def Let_def update_execution_def
        intro!: conserves_refl conserves_row split: prod.split sum.split exec_status.split bool.split)
  show "conserving (us_tenant_id u) new (show_dashboard dw q u) x"
    using assms by (simp add: conserving_def show_dashboard_def conserves_refl split: prod.split)
qed

lemma approved_queue_draws:
  assumes "wired s" "new_draw own tid dw s" "\<forall>i. own i = tid \<longrightarrow> i \<in> new"
  shows "worker_draws (aq_worker dw) new (approved_queue (Some tid) limit s) s"
proof -
  have sub: "set (approved_queue (Some tid) limit s) \<subseteq> set (plans s)"
    by (auto simp: approved_queue_def dest!: in_set_takeD)
  have "distinct (map pl_id (plans s))" using assms(1) by (simp add: wiring)
  then have "distinct (plans s)" by (simp add: distinct_map)
  then have "distinct (approved_queue (Some tid) limit s)" by (simp add: approved_queue_def)
  with sub assms(2,3) show ?thesis by (auto simp: worker_draws_def new_draw_def intro: inj_on_subset)
qed

lemma run_worker_conserves:
  assumes "wired (as_db x)" "new_draw own (us_tenant_id u) dw (as_db x)" "\<forall>i. own i = us_tenant_id u \<longrightarrow> i \<in> new"
  shows "conserving (us_tenant_id u) new (run_worker dw limit u) x"
proof -
  let ?run = "run_plan_worker_once (aq_worker dw) limit (Some (us_tenant_id u)) (as_db x)"
  have "conserves (us_tenant_id u) new (as_db x) (snd ?run)" unfolding run_plan_worker_once_def
    by (rule worker_loop_conserves [OF assms(1) _ approved_queue_draws [OF assms]])
      (auto simp: approved_queue_def dest!: in_set_takeD)
  moreover have "conserves (us_tenant_id u) new (snd ?run) (record_worker_run r (snd ?run))" for r
    unfolding record_worker_run_def by (rule conserves_rows(4)) (use calculation in \<open>simp add: conserves_def\<close>)
  ultimately show ?thesis by (auto simp: conserving_def run_worker_def Let_def split_beta intro: conserves_trans)
qed

lemma serve_request_conserves:
  assumes "proper_request own e dw token u x" "wired (as_db x)" "\<forall>i. own i = us_tenant_id u \<longrightarrow> i \<in> new"
  shows "conserving (us_tenant_id u) new (serve_request e dw token q) x"
proof -
  note user = assms(1) [unfolded proper_request_def, THEN conjunct1]
  have ids: "rw_id (aq_row dw) \<notin> used_ids (as_db x)" "ad_execution_id (aq_apply dw) \<notin> used_ids (as_db x)"
    "dg_id (aq_diagnosis dw) \<notin> used_ids (as_db x)" "rw_id (aq_row dw) \<in> new" "ad_execution_id (aq_apply dw) \<in> new"
    and draw: "new_draw own (us_tenant_id u) dw (as_db x)"
    using assms(1,3) by (simp_all add: proper_request_def new_draw_def)
  note intros = conserving_answering conserving_guarded [OF user assms(2)] conserving_checked [OF assms(2)]
    conserving_reading [OF assms(2)] conserving_writing special_endpoints_conserve [OF assms(2)]
    workflows_conserve [OF assms(2)] create_agent_conserves [OF assms(2)] delete_agent_conserves [OF assms(2)]
    registries_conserve [OF assms(2)] diagnose_execution_conserves [OF assms(2)] doctor_conserves [OF assms(2)]
    operations_conserve [OF assms(2)] run_worker_conserves [OF assms(2) draw assms(3)] ids
  show ?thesis
  proof (induction q rule: reads.induct)
    case (1 q)
    then show ?case by (cases q) (auto intro!: intros)
  next
    case (2 b q)
    then show ?case by (cases q) (auto intro!: intros)
  next
    case (3 q)
    then show ?case by (cases q) (auto intro!: intros)
  next
    case (4 q)
    then show ?case by (cases q) (auto intro!: intros)
  next
    case (5 q)
    then show ?case by (cases q) (auto intro!: intros)
  next
    case (6 q)
    then show ?case by (cases q) (auto intro!: intros)
  next
    case (7 q)
    then show ?case by (cases q) (auto intro!: intros)
  next
    case (8 q)
    then show ?case by (cases q) (auto intro!: intros)
  next
    case (9 q)
    then show ?case by (cases q) (auto intro!: intros)
  next
    case (10 q)
    then show ?case by (cases q) (auto intro!: intros)
  next
    case (11 q)
    then show ?case by (cases q) (auto intro!: intros)
  next
    case (12 q)
    then show ?case by (cases q) (auto intro!: intros)
  qed
qed

section \<open>Runs\<close>

text \<open>
  A system of steps with outputs, shared by owners: the outputs of a run and its last state, and the
  part of a run that is an owner's.
\<close>

fun outputs :: "('r \<Rightarrow> 's \<Rightarrow> 'a \<times> 's) \<Rightarrow> 'r list \<Rightarrow> 's \<Rightarrow> 'a list \<times> 's" where
  "outputs step [] s = ([], s)"
| "outputs step (r # rs) s = (case step r s of (a, s1) \<Rightarrow> (case outputs step rs s1 of (as, s2) \<Rightarrow> (a # as, s2)))"

fun part_of :: "('r \<Rightarrow> 's \<Rightarrow> 'a \<times> 's) \<Rightarrow> ('r \<Rightarrow> 's \<Rightarrow> 't) \<Rightarrow> 't \<Rightarrow> 'r list \<Rightarrow> 's \<Rightarrow> 'r list \<times> 'a list" where
  "part_of step owner t [] s = ([], [])"
| "part_of step owner t (r # rs) s =
    (case step r s of (a, s1) \<Rightarrow> (case part_of step owner t rs s1 of (qs, as) \<Rightarrow>
      if owner r s = t then (r # qs, a # as) else (qs, as)))"

fun all_proper :: "('r \<Rightarrow> 's \<Rightarrow> 'a \<times> 's) \<Rightarrow> ('r \<Rightarrow> 's \<Rightarrow> bool) \<Rightarrow> 'r list \<Rightarrow> 's \<Rightarrow> bool" where
  "all_proper step fit [] s = True"
| "all_proper step fit (r # rs) s \<longleftrightarrow> fit r s \<and> all_proper step fit rs (snd (step r s))"

text \<open>
  Step by step: the owner's view determines the output and its own next view, and a step leaves the
  views of the others alone. Then no owner notices the others in a run.
\<close>

locale separation =
  fixes good :: "'s \<Rightarrow> bool"
    and fit :: "'r \<Rightarrow> 's \<Rightarrow> bool"
    and owner :: "'r \<Rightarrow> 's \<Rightarrow> 't"
    and step :: "'r \<Rightarrow> 's \<Rightarrow> 'a \<times> 's"
    and look :: "'t \<Rightarrow> 's \<Rightarrow> 's"
  assumes keeps: "good s \<Longrightarrow> fit r s \<Longrightarrow> good (snd (step r s))"
    and consistent: "good s \<Longrightarrow> fit r s \<Longrightarrow>
      step r (look (owner r s) s) = (fst (step r s), look (owner r s) (snd (step r s)))"
    and respects: "good s \<Longrightarrow> fit r s \<Longrightarrow> t \<noteq> owner r s \<Longrightarrow> look t (snd (step r s)) = look t s"
begin

lemma runs_keep: "good s \<Longrightarrow> all_proper step fit rs s \<Longrightarrow> good (snd (outputs step rs s))"
proof (induction rs arbitrary: s)
  case (Cons r rs)
  then show ?case using keeps [of s r] by (simp add: split_beta)
qed simp

lemma no_interference:
  assumes "good s" "all_proper step fit rs s"
  shows "case part_of step owner t rs s of (qs, as) \<Rightarrow> outputs step qs (look t s) = (as, look t (snd (outputs step rs s)))"
  using assms
proof (induction rs arbitrary: s)
  case Nil
  then show ?case by simp
next
  case (Cons r rs)
  obtain a s1 where step: "step r s = (a, s1)" by fastforce
  with Cons.prems keeps [of s r] Cons.IH [of s1] consistent [of s r] respects [of s r t]
  show ?case by (cases "owner r s = t") (auto split: prod.splits)
qed

end

type_synonym tenant_visit = "api_draw \<times> string \<times> tenant_request"

fun visit_step :: "api_env \<Rightarrow> tenant_visit \<Rightarrow> api_state \<Rightarrow> (http_error + tenant_answer) \<times> api_state" where
  "visit_step e (dw, token, q) x = serve_request e dw token q x"

fun visitor :: "api_env \<Rightarrow> tenant_visit \<Rightarrow> api_state \<Rightarrow> uuid option" where
  "visitor e (dw, token, q) x = map_option us_tenant_id (token_user (ae_crypto e) (aq_login dw) token (as_db x))"

fun proper_visit :: "(uuid \<Rightarrow> uuid) \<Rightarrow> api_env \<Rightarrow> tenant_visit \<Rightarrow> api_state \<Rightarrow> bool" where
  "proper_visit own e (dw, token, q) x \<longleftrightarrow>
    (case token_user (ae_crypto e) (aq_login dw) token (as_db x) of None \<Rightarrow> False | Some u \<Rightarrow> proper_request own e dw token u x)"

definition sound :: "(uuid \<Rightarrow> uuid) \<Rightarrow> api_state \<Rightarrow> bool" where
  "sound own x \<longleftrightarrow> wired (as_db x) \<and> owned own x"

text \<open>The view of one who is no user's tenant is never asked for.\<close>

definition view_of :: "(uuid \<Rightarrow> uuid) \<Rightarrow> uuid option \<Rightarrow> api_state \<Rightarrow> api_state" where
  "view_of own t x = (case t of None \<Rightarrow> x\<lparr>as_db := empty_db, as_registry := [], as_cache := [], as_tasks := []\<rparr> | Some tid \<Rightarrow> view own tid x)"

lemma request_keeps:
  assumes "proper_request own e dw token u x" "sound own x"
  shows "sound own (snd (serve_request e dw token q x))"
proof -
  have "conserves (us_tenant_id u) {i. own i = us_tenant_id u} (as_db x) (as_db (snd (serve_request e dw token q x)))"
    using serve_request_conserves [OF assms(1), of "{i. own i = us_tenant_id u}"] assms(2) by (simp add: conserving_def sound_def)
  with assms(2) show ?thesis unfolding conserves_def owned_def sound_def by fastforce
qed

interpretation tenants_run: separation "sound own" "proper_visit own e" "visitor e" "visit_step e" "view_of own" for own e
proof
  fix x :: api_state and r
  assume "sound own x" "proper_visit own e r x"
  moreover obtain dw token q where r: "r = (dw, token, q)" using prod_cases3 by blast
  ultimately obtain u where u: "proper_request own e dw token u x" and v: "visitor e r x = Some (us_tenant_id u)"
    by (auto split: option.splits)
  note own_request = proper_request_of [OF u] 
  show "sound own (snd (visit_step e r x))" using request_keeps [OF u \<open>sound own x\<close>] r by simp
  have step: "isolated own (us_tenant_id u) (serve_request e dw token q) x"
    using serve_request_isolated own_request \<open>sound own x\<close> by (simp add: sound_def)
  then show "visit_step e r (view_of own (visitor e r x) x) =
      (fst (visit_step e r x), view_of own (visitor e r x) (snd (visit_step e r x)))"
    unfolding v by (simp add: r view_of_def isolated_def)
  show "view_of own t (snd (visit_step e r x)) = view_of own t x" if "t \<noteq> visitor e r x" for t
    using that step unfolding v by (cases t) (simp_all add: r view_of_def isolated_def)
qed

section \<open>No interference\<close>

text \<open>
  C2: no tenant notices the others. Along any run of requests, by users of any tenants in any order,
  with new identifiers, a tenant's users get the answers, and the tenant is left the state, that its
  own requests alone give on its own rows alone; and along the run identifiers stay unique and
  references stay within their tenant.
\<close>

theorem tenants_do_not_interfere:
  assumes "sound own x" "all_proper (visit_step e) (proper_visit own e) rs x"
  shows "(case part_of (visit_step e) (visitor e) (Some tid) rs x of (qs, as) \<Rightarrow>
      outputs (visit_step e) qs (view own tid x) = (as, view own tid (snd (outputs (visit_step e) rs x)))) \<and>
    sound own (snd (outputs (visit_step e) rs x))"
  using tenants_run.no_interference [OF assms, of "Some tid"] tenants_run.runs_keep [OF assms] by (simp add: view_of_def)

definition two_owners :: "uuid \<Rightarrow> uuid" where
  "two_owners i = (if i = ''e8'' then ''t2'' else ''t1'')"

theorem tenants_do_not_interfere_witness:
  "fst (outputs (visit_step sample_api) [(sample_api_draw ''e9'', first_user, sample_start)] (view two_owners ''t1'' two_tenants)) =
    [Inr (ExecutionAnswer (Started ''e9'' ExPending))]"
proof -
  let ?other = "(sample_api_draw ''e8'', second_user, WorkflowRequest (ListWorkflows 1 10 None))"
  let ?start = "(sample_api_draw ''e9'', first_user, sample_start)"
  let ?x = "snd (serve_request sample_api (sample_api_draw ''e8'') second_user (WorkflowRequest (ListWorkflows 1 10 None)) two_tenants)"
  let ?step = "visit_step sample_api" and ?rs = "[?other, ?start]"
  have draws: "new_draw two_owners ''t2'' (sample_api_draw ''e8'') (as_db two_tenants)"
      "new_draw two_owners ''t1'' (sample_api_draw ''e9'') (as_db two_tenants)"
    by (simp_all add: new_draw_def used_ids_def two_tenants_def sample_db_def sample_workflow_def sample_execution_def
        sample_agent_def empty_db_def sample_api_draw_def two_owners_def)
  have users: "token_user (ae_crypto sample_api) (aq_login (sample_api_draw ''e8'')) second_user (as_db two_tenants) =
      Some (sample_member second_user ''t2'' ''viewer'')"
    "token_user (ae_crypto sample_api) (aq_login (sample_api_draw ''e9'')) first_user (as_db two_tenants) =
      Some (sample_member first_user ''t1'' ''owner'')" by code_simp+
  have x: "?x = two_tenants"
    by (simp add: answering_def guarded_def checked_def reading_def split: sum.split)
  have "wired (as_db two_tenants)" by code_simp
  moreover have "owned two_owners two_tenants" by code_simp
  ultimately have sound: "sound two_owners two_tenants" by (simp add: sound_def)
  have proper: "all_proper ?step (proper_visit two_owners sample_api) ?rs two_tenants"
    using draws users x by (simp add: proper_request_def sample_member_def)
  have "case part_of ?step (visitor sample_api) (Some ''t1'') ?rs two_tenants of (qs, as) \<Rightarrow>
      outputs ?step qs (view two_owners ''t1'' two_tenants) = (as, view two_owners ''t1'' (snd (outputs ?step ?rs two_tenants)))"
    by (rule tenants_do_not_interfere [OF sound proper, THEN conjunct1])
  moreover have "part_of ?step (visitor sample_api) (Some ''t1'') ?rs two_tenants =
      ([?start], [Inr (ExecutionAnswer (Started ''e9'' ExPending))])"
    using users x sample_started by (simp add: sample_member_def split_beta)
  ultimately show ?thesis by simp
qed

end
