(* ===== verification/Streams.thy ===== *)
theory Streams
  imports TenancyKept RunProperties Settings
begin

text \<open>
  The live events of an execution: the endpoint \<open>execution_stream\<close> of
  \<open>app/api/v1/executions.py\<close>, the subscriptions \<open>subscribe_ws\<close>, \<open>unsubscribe_ws\<close> and
  \<open>_broadcast_ws\<close> of \<open>app/engine/executor.py\<close>, and the token the browser puts into the
  sub-protocols of its WebSocket. The event loop interleaves the connections and the runs: the
  handler of a connection and the broadcasts are the steps of a transition system.
\<close>

section \<open>base64\<close>

text \<open>
  \<open>base64.urlsafe_b64decode\<close>: the characters \<open>-\<close> and \<open>_\<close> stand for \<open>+\<close> and \<open>/\<close>, which are
  still accepted; a character outside the alphabet is skipped; what follows a complete padding
  is ignored. The arguments of the loop are the position in the group of four, the bits left
  over and the padding seen. None is \<open>binascii.Error\<close>, or \<open>ValueError\<close> for text that is not ASCII.
\<close>

definition b64_alphabet :: string where
  "b64_alphabet = ''ABCDEFGHIJKLMNOPQRSTUVWXYZabcdefghijklmnopqrstuvwxyz0123456789-_''"

definition b64_value :: "char \<Rightarrow> nat option" where
  "b64_value c = map_of (zip (b64_alphabet @ ''+/'') ([0..<64] @ [62, 63])) c"

fun a2b_base64 :: "nat \<Rightarrow> nat \<Rightarrow> nat \<Rightarrow> string \<Rightarrow> string option" where
  "a2b_base64 quad left pads [] = (if quad = 0 then Some [] else None)"
| "a2b_base64 quad left pads (c # cs) =
    (if c = CHR ''='' then
       (if quad \<ge> 2 \<and> quad + Suc pads \<ge> 4 then Some []
        else a2b_base64 quad left (if quad \<ge> 2 then Suc pads else pads) cs)
     else case b64_value c of
       None \<Rightarrow> a2b_base64 quad left pads cs
     | Some v \<Rightarrow>
        if quad = 0 then a2b_base64 1 v 0 cs
        else if quad = 1 then map_option ((#) (char_of (left * 4 + v div 16))) (a2b_base64 2 (v mod 16) 0 cs)
        else if quad = 2 then map_option ((#) (char_of (left * 16 + v div 4))) (a2b_base64 3 (v mod 4) 0 cs)
        else map_option ((#) (char_of (left * 64 + v))) (a2b_base64 0 0 0 cs))"

definition ascii :: "string \<Rightarrow> bool" where
  "ascii s \<longleftrightarrow> list_all (\<lambda>c. \<not> digit7 c) s"

definition urlsafe_b64decode :: "string \<Rightarrow> string option" where
  "urlsafe_b64decode s = (if ascii s then a2b_base64 0 0 0 s else None)"

text \<open>What the browser does: \<open>encodeTokenForProtocol\<close>, for a token in ASCII.\<close>

definition b64_char :: "nat \<Rightarrow> char" where
  "b64_char n = b64_alphabet ! n"

fun b64_encode :: "string \<Rightarrow> string" where
  "b64_encode [] = []"
| "b64_encode [a] = (let x = of_char a in [b64_char (x div 4), b64_char (x mod 4 * 16)])"
| "b64_encode [a, b] = (let x = of_char a; y = of_char b in
    [b64_char (x div 4), b64_char (x mod 4 * 16 + y div 16), b64_char (y mod 16 * 4)])"
| "b64_encode (a # b # c # s) = (let x = of_char a; y = of_char b; z = of_char c in
    b64_char (x div 4) # b64_char (x mod 4 * 16 + y div 16) # b64_char (y mod 16 * 4 + z div 64) #
    b64_char (z mod 64) # b64_encode s)"

definition client_protocols :: "string \<Rightarrow> string" where
  "client_protocols token =
    ''graphpilot.v1'' @ (if token = [] then [] else '', bearer.'' @ b64_encode token)"

section \<open>Opening a stream\<close>

type_synonym headers = "(string, string) dict"

definition ws_header :: "string \<Rightarrow> headers \<Rightarrow> string" where
  "ws_header name hs = (case dget name hs of None \<Rightarrow> [] | Some v \<Rightarrow> v)"

definition stream_protocols :: "headers \<Rightarrow> string list" where
  "stream_protocols hs =
    filter (\<lambda>p. p \<noteq> []) (map py_strip (py_split (CHR '','') (ws_header ''sec-websocket-protocol'' hs)))"

text \<open>The padding \<open>"=" * (-len(encoded) % 4)\<close>; a token that is not ASCII is no token.\<close>

definition padding :: "string \<Rightarrow> string" where
  "padding encoded = replicate (nat ((- int (length encoded)) mod 4)) (CHR ''='')"

definition decode_bearer :: "string \<Rightarrow> string option" where
  "decode_bearer encoded =
    (case urlsafe_b64decode (encoded @ padding encoded) of
      None \<Rightarrow> None
    | Some token \<Rightarrow> if ascii token then Some token else None)"

definition stream_token :: "headers \<Rightarrow> string option" where
  "stream_token hs =
    (let auth = ws_header ''authorization'' hs;
         direct = (if starts_with ''Bearer '' auth then drop 7 auth else []) in
     if direct \<noteq> [] then Some direct
     else case row_find (starts_with ''bearer.'') (stream_protocols hs) of
       None \<Rightarrow> None
     | Some p \<Rightarrow> decode_bearer (drop 7 p))"

datatype stream_answer = Closed nat string | Crashed string | Accepted "string option"

definition unauthorized_stream :: stream_answer where
  "unauthorized_stream = Closed 1008 ''Unauthorized''"

text \<open>
  \<open>execution_stream\<close> up to \<open>websocket.accept\<close>. A \<open>sub\<close> claim that is no string leaves the
  handler as an \<open>AttributeError\<close>.
\<close>

definition execution_stream :: "crypto \<Rightarrow> instant \<Rightarrow> headers \<Rightarrow> uuid \<Rightarrow> db \<Rightarrow> stream_answer" where
  "execution_stream cy now hs eid s =
    (case (case stream_token hs of None \<Rightarrow> None | Some token \<Rightarrow> if token = [] then None else cy_decode cy now token) of
      None \<Rightarrow> unauthorized_stream
    | Some p \<Rightarrow>
       if jget ''type'' p \<noteq> JStr ''access'' then unauthorized_stream
       else if \<not> truthy (jget ''sub'' p) then unauthorized_stream
       else case jget ''sub'' p of
         JStr x \<Rightarrow>
           (case parse_uuid x of
             None \<Rightarrow> unauthorized_stream
           | Some uid \<Rightarrow>
              (case user_by_id uid s of
                None \<Rightarrow> unauthorized_stream
              | Some u \<Rightarrow>
                 if \<not> us_is_active u \<or> us_must_change_password u then unauthorized_stream
                 else if row_find (\<lambda>e. ex_id e = eid \<and> ex_tenant_id e = us_tenant_id u) (executions s) = None
                 then Closed 1008 ''Execution not found''
                 else Accepted (if ''graphpilot.v1'' \<in> set (stream_protocols hs)
                   then Some ''graphpilot.v1'' else None)))
       | _ \<Rightarrow> Crashed ''AttributeError'')"

section \<open>The token arrives\<close>

lemma b64_value_char: "n < 64 \<Longrightarrow> b64_value (b64_char n) = Some n \<and> b64_char n \<noteq> CHR ''='' \<and>
    b64_char n \<noteq> CHR '','' \<and> \<not> is_space (b64_char n) \<and> \<not> digit7 (b64_char n)"
proof -
  have "list_all (\<lambda>n. b64_value (b64_char n) = Some n \<and> b64_char n \<noteq> CHR ''='' \<and>
      b64_char n \<noteq> CHR '','' \<and> \<not> is_space (b64_char n) \<and> \<not> digit7 (b64_char n)) [0..<64]"
    by code_simp
  then show "n < 64 \<Longrightarrow> ?thesis" by (simp add: list_all_iff)
qed

lemma a2b_char:
  assumes "n < 64"
  shows "a2b_base64 0 left pads (b64_char n # cs) = a2b_base64 1 n 0 cs"
    "a2b_base64 (Suc 0) left pads (b64_char n # cs) =
      map_option ((#) (char_of (left * 4 + n div 16))) (a2b_base64 2 (n mod 16) 0 cs)"
    "a2b_base64 2 left pads (b64_char n # cs) =
      map_option ((#) (char_of (left * 16 + n div 4))) (a2b_base64 3 (n mod 4) 0 cs)"
    "a2b_base64 3 left pads (b64_char n # cs) =
      map_option ((#) (char_of (left * 64 + n))) (a2b_base64 0 0 0 cs)"
  using b64_value_char [OF assms] by simp_all

lemma a2b_padded:
  "a2b_base64 2 left 0 [CHR ''='', CHR ''=''] = Some []"
  "a2b_base64 3 left 0 [CHR ''=''] = Some []"
  by simp_all

declare a2b_base64.simps(2) [simp del]

fun pads_for :: "string \<Rightarrow> string" where
  "pads_for [] = []"
| "pads_for [a] = ''==''"
| "pads_for [a, b] = ''=''"
| "pads_for (a # b # c # s) = pads_for s"

lemma padding_drop4: "padding (a # b # c # d # s) = padding s"
proof -
  have "(- int (length (a # b # c # d # s))) mod 4 = (- int (length s)) mod 4"
    by simp presburger
  then show ?thesis by (simp only: padding_def)
qed

lemma padding_encode: "padding (b64_encode s) = pads_for s"
  by (induction s rule: pads_for.induct)
    (simp_all add: Let_def padding_drop4, simp_all add: padding_def numeral_2_eq_2)

lemma digit_below: "k < 2 ^ n \<Longrightarrow> m < 2 ^ i \<Longrightarrow> m * 2 ^ n + k < 2 ^ (i + n)" for k m n i :: nat
proof -
  assume "k < 2 ^ n" "m < 2 ^ i"
  then have "m * 2 ^ n + k < (m + 1) * 2 ^ n" "(m + 1) * 2 ^ n \<le> 2 ^ i * 2 ^ n"
    by (simp, intro mult_right_mono) simp_all
  then show ?thesis by (simp add: power_add)
qed

lemma digit_bounds: "x < 256 \<Longrightarrow> x div 4 < 64" "y < 256 \<Longrightarrow> x mod 4 * 16 + y div 16 < 64"
  "z < 256 \<Longrightarrow> y mod 16 * 4 + z div 64 < 64" "x mod 4 * 16 < 64" "y mod 16 * 4 < 64" "z mod 64 < 64"
  for x y z :: nat
  using digit_below [of "y div 16" 4 "x mod 4" 2] digit_below [of "z div 64" 2 "y mod 16" 4]
    digit_below [of 0 4 "x mod 4" 2] digit_below [of 0 2 "y mod 16" 4]
  by (simp_all add: less_mult_imp_div_less)

lemma decode_encode: "a2b_base64 0 0 0 (b64_encode s @ pads_for s) = Some s"
proof (induction s rule: b64_encode.induct)
  case (2 a)
  have "x div 4 * 4 + x mod 4 * 16 div 16 = x" for x :: nat by simp
  then show ?case
    using digit_bounds(1,4) [of "of_char a"] by (simp add: Let_def a2b_char a2b_padded)
next
  case (3 a b)
  have "(of_char b :: nat) div 16 < 16" by (simp add: less_mult_imp_div_less)
  then show ?case
    by (simp add: Let_def a2b_char a2b_padded digit_bounds)
next
  case (4 a b c s)
  moreover have "(of_char b :: nat) div 16 < 16" "(of_char c :: nat) div 64 < 4"
    by (simp_all add: less_mult_imp_div_less)
  ultimately show ?case
    by (simp add: Let_def a2b_char digit_bounds)
qed simp

lemma ascii_simps [simp]:
  "ascii []"
  "ascii (c # s) \<longleftrightarrow> \<not> digit7 c \<and> ascii s"
  "ascii (s @ t) \<longleftrightarrow> ascii s \<and> ascii t"
  by (simp_all add: ascii_def)

lemma encoded_chars:
  assumes "c \<in> set (b64_encode s)"
  shows "\<exists>n < 64. c = b64_char n"
proof -
  have "x < 256 \<Longrightarrow> x div 4 < 64 \<and> x mod 64 < 64 \<and> x mod 4 * 16 < 64 \<and> x mod 16 * 4 < 64 \<and>
      y mod 4 * 16 + x div 16 < 64 \<and> y mod 16 * 4 + x div 64 < 64" for x y :: nat
    using digit_bounds by simp
  then have "set (b64_encode s) \<subseteq> b64_char ` {..<64}"
    by (induction s rule: b64_encode.induct) (auto simp: Let_def)
  with assms show ?thesis by auto
qed

lemma encode_plain: "c \<in> set (b64_encode s) \<Longrightarrow> c \<noteq> CHR '','' \<and> \<not> is_space c \<and> \<not> digit7 c"
  using encoded_chars [of c s] b64_value_char by auto

lemma ascii_encoded: "ascii (b64_encode s)" "ascii (pads_for s)"
  using encode_plain [of _ s] by (simp add: ascii_def list_all_iff)
    (induction s rule: pads_for.induct, simp_all)

lemma decode_bearer_encode: "ascii s \<Longrightarrow> decode_bearer (b64_encode s) = Some s"
  by (simp add: decode_bearer_def urlsafe_b64decode_def padding_encode decode_encode ascii_encoded)

lemma py_split_one: "sep \<notin> set s \<Longrightarrow> py_split sep s = [s]"
  by (induction s) auto

lemma dropWhile_none: "\<forall>c \<in> set s. \<not> P c \<Longrightarrow> dropWhile P s = s"
  by (cases s) auto

lemma py_strip_plain: "\<forall>c \<in> set s. \<not> is_space c \<Longrightarrow> py_strip s = s"
  by (simp add: py_strip_def dropWhile_none)

lemma py_strip_space: "\<forall>c \<in> set s. \<not> is_space c \<Longrightarrow> py_strip (CHR '' '' # s) = s"
  by (simp add: py_strip_def dropWhile_none is_space_code)

lemma client_stream_protocols:
  assumes "dget ''sec-websocket-protocol'' hs = Some (client_protocols token)" "token \<noteq> []"
  shows "stream_protocols hs = [''graphpilot.v1'', ''bearer.'' @ b64_encode token]"
proof -
  have c: "CHR '','' \<notin> set (b64_encode token)" "\<forall>c \<in> set (b64_encode token). \<not> is_space c"
    using encode_plain by blast+
  have "py_split (CHR '','') (client_protocols token) = [''graphpilot.v1'', '' bearer.'' @ b64_encode token]"
    using assms(2) c(1) by (simp add: client_protocols_def py_split_one)
  moreover have "py_strip ''graphpilot.v1'' = ''graphpilot.v1''" by code_simp
  moreover have "py_strip ('' bearer.'' @ b64_encode token) = ''bearer.'' @ b64_encode token"
    using py_strip_space [of "''bearer.'' @ b64_encode token"] c(2) by (simp add: is_space_code)
  ultimately show ?thesis using assms(1) by (simp add: stream_protocols_def ws_header_def)
qed

text \<open>
  The token the browser sends arrives: decoding the sub-protocol it offers gives back the token,
  whatever its characters and its length.
\<close>

lemma client_stream_token:
  assumes "dget ''sec-websocket-protocol'' hs = Some (client_protocols token)" "dget ''authorization'' hs = None"
    "ascii token" "token \<noteq> []"
  shows "stream_token hs = Some token"
  using client_stream_protocols [OF assms(1,4)] assms(2,3)
  by (simp add: stream_token_def ws_header_def starts_with_def row_find_def decode_bearer_encode)


text \<open>
  C12: a stream is opened exactly for those who may read its execution. For every request header
  and every database, \<open>execution_stream\<close> accepts the connection if and only if a token arrives,
  in the \<open>authorization\<close> header or encoded in a sub-protocol, with which
  \<open>GET /executions/{id}\<close> answers the execution.
\<close>

theorem stream_access:
  "(\<exists>proto. execution_stream (ae_crypto e) (aq_login dw) hs eid (as_db x) = Accepted proto) \<longleftrightarrow>
    (\<exists>token ex. stream_token hs = Some token \<and> token \<noteq> [] \<and>
      fst (serve_execution e dw token (GetExecution eid) x) = Inr (OneExecution ex))"
proof (cases "stream_token hs")
  case None
  then show ?thesis by (simp add: execution_stream_def unauthorized_stream_def)
next
  case (Some token)
  show ?thesis
  proof (cases "token = [] \<or> cy_decode (ae_crypto e) (aq_login dw) token = None")
    case True
    with Some show ?thesis
      by (auto simp: execution_stream_def unauthorized_stream_def guarded_def authorize_def get_current_user_def)
  next
    case False
    then obtain p where p: "token \<noteq> []" "cy_decode (ae_crypto e) (aq_login dw) token = Some p" by blast
    have [simp]: "parse_uuid [] = None" by code_simp
    show ?thesis
      using Some p
      by (cases "jget ''sub'' p")
        (auto simp: execution_stream_def unauthorized_stream_def guarded_def authorize_def get_current_user_def
          anyone_def reading_def get_execution_def split: option.splits sum.splits if_splits)
  qed
qed


section \<open>The subscribers of an execution\<close>

text \<open>
  \<open>_ws_subscribers\<close>: the queues of each execution, a queue named by its identity, and what every
  queue holds. The queues are unbounded, so that \<open>queue.put\<close> does not wait.
\<close>

record hub =
  hb_subscribers :: "(uuid, nat list) dict"
  hb_queues :: "nat \<Rightarrow> ws_event list"

definition subscribers_of :: "uuid \<Rightarrow> hub \<Rightarrow> nat list" where
  "subscribers_of eid h = (case dget eid (hb_subscribers h) of None \<Rightarrow> [] | Some qs \<Rightarrow> qs)"

definition subscribe_ws :: "uuid \<Rightarrow> nat \<Rightarrow> hub \<Rightarrow> hub" where
  "subscribe_ws eid q h =
    h\<lparr>hb_subscribers := dset eid (subscribers_of eid h @ [q]) (hb_subscribers h),
      hb_queues := (hb_queues h)(q := [])\<rparr>"

definition unsubscribe_ws :: "uuid \<Rightarrow> nat \<Rightarrow> hub \<Rightarrow> hub" where
  "unsubscribe_ws eid q h =
    (case dget eid (hb_subscribers h) of
      None \<Rightarrow> h
    | Some qs \<Rightarrow>
       (let left = remove1 q qs in
        h\<lparr>hb_subscribers := (if left = [] then dpop eid (hb_subscribers h) else dset eid left (hb_subscribers h))\<rparr>))"

definition put_event :: "ws_event \<Rightarrow> nat \<Rightarrow> hub \<Rightarrow> hub" where
  "put_event ev q h = h\<lparr>hb_queues := (hb_queues h)(q := hb_queues h q @ [ev])\<rparr>"

definition broadcast_ws :: "uuid \<Rightarrow> ws_event \<Rightarrow> hub \<Rightarrow> hub" where
  "broadcast_ws eid ev h = fold (put_event ev) (subscribers_of eid h) h"

section \<open>The connections\<close>

text \<open>What a client is sent, and the handler of an accepted connection, with its queue.\<close>

datatype frame = EventFrame ws_event | PingFrame

record stream_conn =
  sc_execution :: uuid
  sc_open :: bool
  sc_sent :: "frame list"

record stream_state =
  ss_hub :: hub
  ss_conns :: "nat \<Rightarrow> stream_conn option"

definition no_streams :: stream_state where
  "no_streams = \<lparr>ss_hub = \<lparr>hb_subscribers = [], hb_queues = (\<lambda>q. [])\<rparr>, ss_conns = (\<lambda>q. None)\<rparr>"

text \<open>The connection is accepted and subscribed; the \<open>finally\<close> of the handler unsubscribes.\<close>

definition open_stream :: "uuid \<Rightarrow> nat \<Rightarrow> stream_state \<Rightarrow> stream_state" where
  "open_stream eid q st = st\<lparr>ss_hub := subscribe_ws eid q (ss_hub st),
    ss_conns := (ss_conns st)(q \<mapsto> \<lparr>sc_execution = eid, sc_open = True, sc_sent = []\<rparr>)\<rparr>"

definition close_stream :: "nat \<Rightarrow> stream_conn \<Rightarrow> stream_state \<Rightarrow> stream_state" where
  "close_stream q c st = st\<lparr>ss_hub := unsubscribe_ws (sc_execution c) q (ss_hub st),
    ss_conns := (ss_conns st)(q \<mapsto> c\<lparr>sc_open := False\<rparr>)\<rparr>"

text \<open>\<open>queue.get()\<close>, and \<open>send_json\<close> of what it returned: the last event ends the loop.\<close>

definition take_event :: "nat \<Rightarrow> stream_state \<Rightarrow> stream_state" where
  "take_event q st = st\<lparr>ss_hub := (ss_hub st)\<lparr>hb_queues := (hb_queues (ss_hub st))(q := tl (hb_queues (ss_hub st) q))\<rparr>\<rparr>"

definition send_frame :: "nat \<Rightarrow> stream_conn \<Rightarrow> frame \<Rightarrow> stream_state \<Rightarrow> stream_state" where
  "send_frame q c fr st =
    (let c' = c\<lparr>sc_sent := sc_sent c @ [fr]\<rparr> in
     if (case fr of EventFrame ev \<Rightarrow> is_final ev | PingFrame \<Rightarrow> False) then close_stream q c' st
     else st\<lparr>ss_conns := (ss_conns st)(q \<mapsto> c')\<rparr>)"

text \<open>
  The steps: a connection is opened with a queue of its own; a run broadcasts; the handler of an
  open connection sends the next event of its queue, or pings when nothing came for 30 seconds,
  or fails to send (the client has gone) and ends.
\<close>

datatype stream_label = Opened uuid nat | Broadcast uuid ws_event | Sent nat | Pinged nat | Broken nat

inductive stream_step :: "stream_label \<Rightarrow> stream_state \<Rightarrow> stream_state \<Rightarrow> bool" where
  opened: "ss_conns st q = None \<Longrightarrow> stream_step (Opened eid q) st (open_stream eid q st)"
| broadcast: "stream_step (Broadcast eid ev) st (st\<lparr>ss_hub := broadcast_ws eid ev (ss_hub st)\<rparr>)"
| sent: "ss_conns st q = Some c \<Longrightarrow> sc_open c \<Longrightarrow> hb_queues (ss_hub st) q = ev # evs \<Longrightarrow>
    stream_step (Sent q) st (send_frame q c (EventFrame ev) (take_event q st))"
| pinged: "ss_conns st q = Some c \<Longrightarrow> sc_open c \<Longrightarrow> hb_queues (ss_hub st) q = [] \<Longrightarrow>
    stream_step (Pinged q) st (send_frame q c PingFrame st)"
| broken: "ss_conns st q = Some c \<Longrightarrow> sc_open c \<Longrightarrow>
    stream_step (Broken q) st (close_stream q c (take_event q st))"

inductive stream_run :: "stream_label list \<Rightarrow> stream_state \<Rightarrow> bool" where
  quiet: "stream_run [] no_streams"
| then_step: "stream_run ls st \<Longrightarrow> stream_step l st st' \<Longrightarrow> stream_run (ls @ [l]) st'"

section \<open>What a subscriber hears\<close>

text \<open>The specification: the execution of a connection and every event broadcast for it since.\<close>

fun hear :: "stream_label \<Rightarrow> (nat \<Rightarrow> (uuid \<times> ws_event list) option) \<Rightarrow> nat \<Rightarrow> (uuid \<times> ws_event list) option" where
  "hear (Opened eid q) m = m(q \<mapsto> (eid, []))"
| "hear (Broadcast eid ev) m =
    (\<lambda>q. map_option (\<lambda>(x, evs). (x, if x = eid then evs @ [ev] else evs)) (m q))"
| "hear _ m = m"

definition heard :: "stream_label list \<Rightarrow> nat \<Rightarrow> (uuid \<times> ws_event list) option" where
  "heard ls = fold hear ls (\<lambda>q. None)"

lemma heard_simps [simp]:
  "heard [] q = None"
  "heard (ls @ [l]) = hear l (heard ls)"
  by (simp_all add: heard_def)

fun events :: "frame list \<Rightarrow> ws_event list" where
  "events [] = []"
| "events (EventFrame ev # frs) = ev # events frs"
| "events (PingFrame # frs) = events frs"

lemma events_append [simp]: "events (xs @ ys) = events xs @ events ys"
  by (induction xs rule: events.induct) auto

text \<open>
  The invariant: an open connection has sent, or still has in its queue, all it should hear, none
  of it final among the sent ones; a closed one has sent a beginning of that, up to a final event
  unless the client has gone. The open connections are the subscribers, and no list is empty.
\<close>

definition conn_ok :: "stream_label list \<Rightarrow> stream_state \<Rightarrow> nat \<Rightarrow> bool" where
  "conn_ok ls st q =
    (case ss_conns st q of
      None \<Rightarrow> heard ls q = None
    | Some c \<Rightarrow>
       (\<exists>evs. heard ls q = Some (sc_execution c, evs) \<and>
         (if sc_open c then evs = events (sc_sent c) @ hb_queues (ss_hub st) q \<and> no_final (events (sc_sent c))
          else prefix (events (sc_sent c)) evs \<and>
            (Broken q \<in> set ls \<and> no_final (events (sc_sent c)) \<or>
             (\<exists>pre ev. events (sc_sent c) = pre @ [ev] \<and> no_final pre \<and> is_final ev)))))"

definition hub_ok :: "stream_state \<Rightarrow> bool" where
  "hub_ok st \<longleftrightarrow>
    (\<forall>eid. distinct (subscribers_of eid (ss_hub st)) \<and>
      set (subscribers_of eid (ss_hub st)) =
        {q. \<exists>c. ss_conns st q = Some c \<and> sc_open c \<and> sc_execution c = eid} \<and>
      dget eid (hb_subscribers (ss_hub st)) \<noteq> Some [])"


lemma fold_put_event:
  "hb_subscribers (fold (put_event ev) qs h) = hb_subscribers h"
  "distinct qs \<Longrightarrow> hb_queues (fold (put_event ev) qs h) q = hb_queues h q @ (if q \<in> set qs then [ev] else [])"
  by (induction qs arbitrary: h) (auto simp: put_event_def)

lemma subscribers_of_broadcast [simp]:
  "hb_subscribers (broadcast_ws eid ev h) = hb_subscribers h"
  "subscribers_of x (broadcast_ws eid ev h) = subscribers_of x h"
  by (simp_all add: broadcast_ws_def subscribers_of_def fold_put_event)

lemma subscribers_of_subscribe:
  "subscribers_of x (subscribe_ws eid q h) = subscribers_of x h @ (if x = eid then [q] else [])"
  by (simp add: subscribers_of_def subscribe_ws_def dget_dset split: option.split)

lemma subscribers_of_unsubscribe:
  "subscribers_of x (unsubscribe_ws eid q h) = (if x = eid then remove1 q (subscribers_of x h) else subscribers_of x h)"
  by (auto simp: subscribers_of_def unsubscribe_ws_def Let_def dget_dset dget_dpop split: option.split)

lemma queues_unsubscribe [simp]: "hb_queues (unsubscribe_ws eid q h) = hb_queues h"
  by (simp add: unsubscribe_ws_def Let_def split: option.split)

lemma subscribers_of_queues [simp]: "subscribers_of x (h\<lparr>hb_queues := f\<rparr>) = subscribers_of x h"
  by (simp add: subscribers_of_def)

lemma no_empty_list:
  assumes "\<And>x. dget x (hb_subscribers h) \<noteq> Some []"
  shows "dget x (hb_subscribers (unsubscribe_ws eid q h)) \<noteq> Some []"
    "dget x (hb_subscribers (subscribe_ws eid q h)) \<noteq> Some []"
  using assms by (auto simp: unsubscribe_ws_def subscribe_ws_def Let_def dget_dset dget_dpop split: option.splits)

lemmas stream_defs = open_stream_def close_stream_def take_event_def send_frame_def Let_def

lemma hub_ok_close:
  assumes "hub_ok st" "ss_conns st q = Some c" "sc_open c" "sc_execution c' = sc_execution c"
    "ss_conns st' = ss_conns st" "hb_subscribers (ss_hub st') = hb_subscribers (ss_hub st)"
  shows "hub_ok (close_stream q c' st')"
proof -
  have subs: "subscribers_of x (ss_hub st') = subscribers_of x (ss_hub st)" for x
    using assms(6) by (simp add: subscribers_of_def)
  have "dget x (hb_subscribers (ss_hub st')) \<noteq> Some []" for x
    using assms(1,6) by (simp add: hub_ok_def)
  from no_empty_list(1) [OF this] show ?thesis
    using assms(1-5)
    by (auto simp: hub_ok_def close_stream_def subscribers_of_unsubscribe subs)
qed

lemma hub_ok_same:
  assumes "hub_ok st" "hb_subscribers (ss_hub st') = hb_subscribers (ss_hub st)"
    "\<And>q. map_option (\<lambda>c. (sc_open c, sc_execution c)) (ss_conns st' q) =
      map_option (\<lambda>c. (sc_open c, sc_execution c)) (ss_conns st q)"
  shows "hub_ok st'"
proof -
  have "(\<exists>c. ss_conns st' q = Some c \<and> sc_open c \<and> sc_execution c = x) \<longleftrightarrow>
      (\<exists>c. ss_conns st q = Some c \<and> sc_open c \<and> sc_execution c = x)" for q x
    using assms(3) [of q] by (cases "ss_conns st q"; cases "ss_conns st' q") auto
  moreover have "subscribers_of x (ss_hub st') = subscribers_of x (ss_hub st)" for x
    using assms(2) by (simp add: subscribers_of_def)
  ultimately show ?thesis using assms(1,2) by (simp add: hub_ok_def)
qed

lemma hub_ok_send:
  assumes "hub_ok st" "ss_conns st q = Some c" "sc_open c"
    "ss_conns st' = ss_conns st" "hb_subscribers (ss_hub st') = hb_subscribers (ss_hub st)"
  shows "hub_ok (send_frame q c fr st')"
proof (cases "case fr of EventFrame ev \<Rightarrow> is_final ev | PingFrame \<Rightarrow> False")
  case True
  then show ?thesis
    using hub_ok_close [OF assms(1-3) _ assms(4,5), of "c\<lparr>sc_sent := sc_sent c @ [fr]\<rparr>"]
    by (simp add: send_frame_def)
next
  case False
  then have "send_frame q c fr st' = st'\<lparr>ss_conns := (ss_conns st')(q \<mapsto> c\<lparr>sc_sent := sc_sent c @ [fr]\<rparr>)\<rparr>"
    by (simp add: send_frame_def Let_def)
  with assms show ?thesis by (intro hub_ok_same [OF assms(1)]) auto
qed

lemma hub_ok_step: "stream_step l st st' \<Longrightarrow> hub_ok st \<Longrightarrow> hub_ok st'"
proof (induction rule: stream_step.induct)
  case (opened st q eid)
  have "dget x (hb_subscribers (ss_hub st)) \<noteq> Some []" for x
    using opened(2) by (simp add: hub_ok_def)
  from no_empty_list(2) [OF this] opened show ?case
    by (auto simp: hub_ok_def open_stream_def subscribers_of_subscribe)
next
  case (broadcast eid ev st)
  then show ?case by (rule hub_ok_same) simp_all
next
  case (sent st q c ev evs)
  then show ?case by (intro hub_ok_send [of st]) (simp_all add: take_event_def)
next
  case (pinged st q c)
  then show ?case by (intro hub_ok_send [of st]) simp_all
next
  case (broken st q c)
  then show ?case by (intro hub_ok_close [of st]) (simp_all add: take_event_def)
qed

lemma hub_ok_run: "stream_run ls st \<Longrightarrow> hub_ok st"
proof (induction rule: stream_run.induct)
  case quiet
  then show ?case by (simp add: hub_ok_def no_streams_def subscribers_of_def)
qed (rule hub_ok_step)


text \<open>A step leaves the connections it does not name as they were, up to what a broadcast adds.\<close>

lemma conn_ok_other:
  assumes "conn_ok ls st q" "ss_conns st' q = ss_conns st q" "hb_queues (ss_hub st') q = hb_queues (ss_hub st) q"
    "hear l (heard ls) q = heard ls q"
  shows "conn_ok (ls @ [l]) st' q"
  using assms by (auto simp: conn_ok_def split: option.splits if_splits)

lemma conn_ok_broadcast:
  assumes "conn_ok ls st q" "hub_ok st"
  shows "conn_ok (ls @ [Broadcast eid ev]) (st\<lparr>ss_hub := broadcast_ws eid ev (ss_hub st)\<rparr>) q"
proof (cases "ss_conns st q")
  case None
  with assms(1) show ?thesis by (simp add: conn_ok_def)
next
  case (Some c)
  have "distinct (subscribers_of eid (ss_hub st))" using assms(2) by (simp add: hub_ok_def)
  then have q: "hb_queues (broadcast_ws eid ev (ss_hub st)) q =
      hb_queues (ss_hub st) q @ (if q \<in> set (subscribers_of eid (ss_hub st)) then [ev] else [])"
    by (simp add: broadcast_ws_def fold_put_event)
  have "q \<in> set (subscribers_of eid (ss_hub st)) \<longleftrightarrow> sc_open c \<and> sc_execution c = eid"
    using assms(2) Some by (simp add: hub_ok_def)
  with assms(1) Some q show ?thesis
    by (auto simp: conn_ok_def intro: prefix_prefix split: if_splits)
qed

lemma conn_ok_send:
  assumes "conn_ok ls st q" "ss_conns st q = Some c" "sc_open c" "hb_queues (ss_hub st) q = ev # evs"
  shows "conn_ok (ls @ [Sent q]) (send_frame q c (EventFrame ev) (take_event q st)) q"
proof -
  obtain all where all: "heard ls q = Some (sc_execution c, all)" "all = events (sc_sent c) @ ev # evs"
    "no_final (events (sc_sent c))"
    using assms by (auto simp: conn_ok_def)
  show ?thesis
  proof (cases "is_final ev")
    case True
    with all show ?thesis by (auto simp: conn_ok_def stream_defs)
  next
    case False
    with all assms(3,4) show ?thesis by (simp add: conn_ok_def stream_defs)
  qed
qed

lemma conn_ok_break:
  assumes "conn_ok ls st q" "ss_conns st q = Some c" "sc_open c"
  shows "conn_ok (ls @ [Broken q]) (close_stream q c (take_event q st)) q"
  using assms by (auto simp: conn_ok_def stream_defs)

lemma conn_ok_ping:
  assumes "conn_ok ls st q" "ss_conns st q = Some c" "sc_open c"
  shows "conn_ok (ls @ [Pinged q]) (send_frame q c PingFrame st) q"
  using assms by (auto simp: conn_ok_def stream_defs)

lemma conn_ok_open: "conn_ok (ls @ [Opened eid q]) (open_stream eid q st) q"
  by (simp add: conn_ok_def open_stream_def subscribe_ws_def)

lemma untouched_conn:
  assumes "k \<noteq> q"
  shows "ss_conns (send_frame q c fr st) k = ss_conns st k" "ss_conns (close_stream q c st) k = ss_conns st k"
    "ss_conns (open_stream eid q st) k = ss_conns st k" "ss_conns (take_event q st) k = ss_conns st k"
    "hb_queues (ss_hub (send_frame q c fr st)) k = hb_queues (ss_hub st) k"
    "hb_queues (ss_hub (close_stream q c st)) k = hb_queues (ss_hub st) k"
    "hb_queues (ss_hub (open_stream eid q st)) k = hb_queues (ss_hub st) k"
    "hb_queues (ss_hub (take_event q st)) k = hb_queues (ss_hub st) k"
  using assms by (simp_all add: stream_defs subscribe_ws_def)

lemma conn_ok_step:
  assumes "stream_step l st st'" "hub_ok st" "\<And>q. conn_ok ls st q"
  shows "conn_ok (ls @ [l]) st' k"
  using assms
proof (cases rule: stream_step.cases)
  case (opened q eid)
  then show ?thesis
    by (cases "k = q") (simp_all add: conn_ok_open conn_ok_other [OF assms(3)] untouched_conn)
next
  case (broadcast eid ev)
  then show ?thesis by (simp add: conn_ok_broadcast [OF assms(3,2)])
next
  case (sent q c ev evs)
  then show ?thesis
    by (cases "k = q") (simp_all add: conn_ok_send [OF assms(3)] conn_ok_other [OF assms(3)] untouched_conn)
next
  case (pinged q c)
  then show ?thesis
    by (cases "k = q") (simp_all add: conn_ok_ping [OF assms(3)] conn_ok_other [OF assms(3)] untouched_conn)
next
  case (broken q c)
  then show ?thesis
    by (cases "k = q") (simp_all add: conn_ok_break [OF assms(3)] conn_ok_other [OF assms(3)] untouched_conn)
qed

lemma stream_run_ok: "stream_run ls st \<Longrightarrow> conn_ok ls st q"
proof (induction arbitrary: q rule: stream_run.induct)
  case quiet
  then show ?case by (simp add: conn_ok_def no_streams_def)
next
  case (then_step ls st l st')
  then show ?case by (blast intro: conn_ok_step hub_ok_run)
qed


section \<open>A stream to its end\<close>

lemma open_conn:
  assumes "stream_run ls st" "ss_conns st q = Some c" "sc_open c"
  shows "heard ls q = Some (sc_execution c, events (sc_sent c) @ hb_queues (ss_hub st) q)"
    "no_final (events (sc_sent c))"
  using stream_run_ok [OF assms(1), of q] assms(2,3) by (auto simp: conn_ok_def)

lemma closed_conn:
  assumes "stream_run ls st" "ss_conns st q = Some c" "\<not> sc_open c"
  obtains evs where "heard ls q = Some (sc_execution c, evs)" "prefix (events (sc_sent c)) evs"
    "Broken q \<in> set ls \<and> no_final (events (sc_sent c)) \<or>
      (\<exists>pre ev. events (sc_sent c) = pre @ [ev] \<and> no_final pre \<and> is_final ev)"
  using stream_run_ok [OF assms(1), of q] assms(2,3) by (auto simp: conn_ok_def)

lemma one_final:
  assumes "xs @ ev # ys = pre @ [fin]" "no_final pre" "is_final ev"
  shows "ys = []"
proof (cases ys rule: rev_cases)
  case (snoc zs z)
  with assms(1) have "pre = xs @ ev # zs" by simp
  with assms(2,3) show ?thesis by simp
qed

lemma stream_drains:
  assumes "stream_run ls st" "ss_conns st q = Some c" "sc_open c"
    "heard ls q = Some (eid, pre @ [fin])" "no_final pre" "is_final fin"
  shows "\<exists>st' c'. stream_run (ls @ replicate (length (hb_queues (ss_hub st) q)) (Sent q)) st' \<and>
    ss_conns st' q = Some c' \<and> \<not> sc_open c' \<and> events (sc_sent c') = pre @ [fin]"
  using assms(1-4)
proof (induction "hb_queues (ss_hub st) q" arbitrary: ls st c)
  case Nil
  from open_conn [OF Nil(2-4)] Nil(1,5) have "no_final (pre @ [fin])" by simp
  with assms(6) show ?case by simp
next
  case (Cons ev evs)
  let ?st = "send_frame q c (EventFrame ev) (take_event q st)"
  have step: "stream_run (ls @ [Sent q]) ?st"
    by (rule then_step [OF Cons(3)]) (rule stream_step.sent [OF Cons(4,5) Cons(2) [symmetric]])
  have all: "events (sc_sent c) @ ev # evs = pre @ [fin]"
    using open_conn(1) [OF Cons(3-5)] Cons(2,6) by simp
  have len: "hb_queues (ss_hub st) q = ev # evs" using Cons(2) by simp
  show ?case
  proof (cases "is_final ev")
    case True
    with one_final [OF all assms(5)] have "evs = []" by simp
    with step True all len show ?thesis
      by (intro exI [of _ ?st] exI [of _ "c\<lparr>sc_sent := sc_sent c @ [EventFrame ev], sc_open := False\<rparr>"])
        (simp add: stream_defs)
  next
    case False
    let ?c = "c\<lparr>sc_sent := sc_sent c @ [EventFrame ev]\<rparr>"
    have "\<exists>st' c'. stream_run ((ls @ [Sent q]) @ replicate (length (hb_queues (ss_hub ?st) q)) (Sent q)) st' \<and>
        ss_conns st' q = Some c' \<and> \<not> sc_open c' \<and> events (sc_sent c') = pre @ [fin]"
      by (rule Cons(1) [OF _ step, of ?c]) (use False Cons(5,6) Cons(2) [symmetric] in \<open>simp_all add: stream_defs\<close>)
    with len False show ?thesis by (simp add: stream_defs)
  qed
qed

text \<open>
  C11: every client hears its execution. At any moment of any interleaving of connections,
  broadcasts and sends, an open connection has sent, and still has in its queue, exactly the
  events broadcast for its execution since it was opened, in their order and none of any other
  execution; a closed one has sent them up to an \<open>execution_complete\<close>, unless the client has
  gone, and is no subscriber any more.
\<close>

theorem streams_deliver:
  assumes "stream_run ls st" "ss_conns st q = Some c"
  shows "\<exists>evs. heard ls q = Some (sc_execution c, evs) \<and>
    (if sc_open c
     then events (sc_sent c) @ hb_queues (ss_hub st) q = evs \<and> no_final (events (sc_sent c)) \<and>
       q \<in> set (subscribers_of (sc_execution c) (ss_hub st))
     else prefix (events (sc_sent c)) evs \<and> (\<forall>eid. q \<notin> set (subscribers_of eid (ss_hub st))) \<and>
       (Broken q \<in> set ls \<or> (\<exists>pre ev. events (sc_sent c) = pre @ [ev] \<and> no_final pre \<and> is_final ev)))"
proof -
  have subs: "q \<in> set (subscribers_of eid (ss_hub st)) \<longleftrightarrow> sc_open c \<and> sc_execution c = eid" for eid
    using hub_ok_run [OF assms(1)] assms(2) by (simp add: hub_ok_def)
  show ?thesis
  proof (cases "sc_open c")
    case True
    with open_conn [OF assms] subs show ?thesis by simp
  next
    case False
    from closed_conn [OF assms this] obtain evs where "heard ls q = Some (sc_execution c, evs)"
      "prefix (events (sc_sent c)) evs"
      "Broken q \<in> set ls \<or> (\<exists>pre ev. events (sc_sent c) = pre @ [ev] \<and> no_final pre \<and> is_final ev)"
      by metis
    with False subs show ?thesis by simp
  qed
qed

text \<open>A client that opens the stream and then hears the events of a run.\<close>

lemma heard_broadcasts:
  "heard ls q = Some (eid, evs) \<Longrightarrow> heard (ls @ map (Broadcast eid) new) q = Some (eid, evs @ new)"
proof (induction new rule: rev_induct)
  case (snoc ev new)
  then show ?case by (simp flip: append_assoc)
qed simp

lemma stream_run_broadcasts:
  assumes "stream_run ls st"
  shows "\<exists>st'. stream_run (ls @ map (Broadcast eid) new) st' \<and> ss_conns st' = ss_conns st"
proof (induction new rule: rev_induct)
  case (snoc ev new)
  then obtain st' where "stream_run (ls @ map (Broadcast eid) new) st'" "ss_conns st' = ss_conns st" by blast
  with then_step [OF _ broadcast] show ?case by fastforce
qed (use assms in auto)

definition watched :: "ws_event list \<Rightarrow> stream_label list" where
  "watched evs = Opened ''e1'' 0 # map (Broadcast ''e1'') evs"

lemma watched_run:
  "\<exists>st. stream_run (watched evs) st \<and> heard (watched evs) 0 = Some (''e1'', evs) \<and>
    ss_conns st 0 = Some \<lparr>sc_execution = ''e1'', sc_open = True, sc_sent = []\<rparr>"
proof -
  have "stream_run ([] @ [Opened ''e1'' 0]) (open_stream ''e1'' 0 no_streams)"
    by (rule then_step [OF quiet opened]) (simp add: no_streams_def)
  from stream_run_broadcasts [OF this, of "''e1''" evs] obtain st where
    "stream_run (watched evs) st" "ss_conns st = ss_conns (open_stream ''e1'' 0 no_streams)"
    unfolding watched_def by auto
  moreover have "heard (watched evs) 0 = Some (''e1'', [] @ evs)"
    using heard_broadcasts [of "[Opened ''e1'' 0]" 0 "''e1''" "[]" evs] by (simp add: watched_def heard_def)
  ultimately show ?thesis by (auto simp: open_stream_def)
qed

theorem streams_deliver_witness:
  "\<exists>st c. stream_run (watched [StepStart ''a'' 1]) st \<and> ss_conns st 0 = Some c \<and> sc_open c \<and>
    events (sc_sent c) @ hb_queues (ss_hub st) 0 = [StepStart ''a'' 1]"
proof -
  obtain st c where st: "stream_run (watched [StepStart ''a'' 1]) st" "ss_conns st 0 = Some c" "sc_open c"
    "heard (watched [StepStart ''a'' 1]) 0 = Some (''e1'', [StepStart ''a'' 1])"
    using watched_run [of "[StepStart ''a'' 1]"] by auto
  with streams_deliver [OF st(1,2)] show ?thesis by auto
qed

text \<open>
  C10: a run ends its streams. Whoever opened a stream on a waiting execution before the run, and
  has not gone: once the run has broadcast its events, either the stream has been closed after
  exactly these events, the last one the \<open>execution_complete\<close> with the status the row has now, or
  there are events waiting for it, and when the handler has sent them the stream is closed so.
\<close>

theorem run_ends_its_streams:
  assumes "distinct (map tn_id (tenants s))"
    and "find_execution eid s = Some e" "ex_status e = ExPending"
    and "run_execution env eid wid tid input s = (s', evs)"
    and "stream_run ls st" "ss_conns st q = Some c" "Broken q \<notin> set ls"
    and "heard ls q = Some (eid, evs)"
  shows "(\<exists>e' tokens cost out. find_execution eid s' = Some e' \<and>
      last evs = ExecutionComplete (ex_status e') tokens cost out) \<and>
    (if sc_open c
     then hb_queues (ss_hub st) q \<noteq> [] \<and>
       (\<exists>st' c'. stream_run (ls @ replicate (length (hb_queues (ss_hub st) q)) (Sent q)) st' \<and>
         ss_conns st' q = Some c' \<and> \<not> sc_open c' \<and> events (sc_sent c') = evs)
     else events (sc_sent c) = evs)"
proof -
  from run_execution_final [OF assms(1-4)] obtain e' pre tokens cost out where
    e': "find_execution eid s' = Some e'" and
    evs: "evs = pre @ [ExecutionComplete (ex_status e') tokens cost out]" "no_final pre"
    by blast
  show ?thesis
  proof (cases "sc_open c")
    case True
    with open_conn [OF assms(5,6)] assms(8) evs(1)
    have "pre @ [ExecutionComplete (ex_status e') tokens cost out] =
        events (sc_sent c) @ hb_queues (ss_hub st) q" "no_final (events (sc_sent c))" by simp_all
    then have "hb_queues (ss_hub st) q \<noteq> []"
      by (metis append_Nil2 is_final.simps(1) no_final_simps(2) no_final_simps(3))
    with True e' evs stream_drains [OF assms(5,6) True _ evs(2)] assms(8) show ?thesis by simp
  next
    case False
    from closed_conn [OF assms(5,6) this] assms(7,8) have
      "prefix (events (sc_sent c)) evs" "\<exists>pre ev. events (sc_sent c) = pre @ [ev] \<and> is_final ev"
      by (metis option.inject prod.inject)+
    then obtain xs ev ys where "events (sc_sent c) = xs @ [ev]" "is_final ev" "evs = xs @ ev # ys"
      by (auto simp: prefix_def)
    moreover from this one_final [of xs ev ys pre] evs have "ys = []" by metis
    ultimately have "events (sc_sent c) = evs" by simp
    with False e' evs(1) show ?thesis by simp
  qed
qed

theorem run_ends_its_streams_witness:
  "\<exists>st c n. stream_run (watched (snd (sample_run (sample_db ExPending 0))) @ replicate n (Sent 0)) st \<and>
    ss_conns st 0 = Some c \<and> \<not> sc_open c \<and> events (sc_sent c) = snd (sample_run (sample_db ExPending 0))"
proof -
  let ?evs = "snd (sample_run (sample_db ExPending 0))"
  obtain st c where st: "stream_run (watched ?evs) st" "heard (watched ?evs) 0 = Some (''e1'', ?evs)"
    "ss_conns st 0 = Some c" "sc_open c"
    using watched_run [of ?evs] by auto
  have e: "find_execution ''e1'' (sample_db ExPending 0) = Some (sample_execution ''e1'' ''w1'' ExPending)"
    "ex_status (sample_execution ''e1'' ''w1'' ExPending) = ExPending"
    by (simp_all add: sample_db_def find_execution_def sample_execution_def)
  have run: "run_execution sample_env ''e1'' ''w1'' ''t1'' JNull (sample_db ExPending 0) =
      (fst (sample_run (sample_db ExPending 0)), ?evs)"
    by (simp add: sample_run_def)
  have "Broken 0 \<notin> set (watched ?evs)" by (auto simp: watched_def)
  from run_ends_its_streams [OF sample_db_keys e run st(1,3) this st(2)] st(4)
  have "\<exists>st' c'. stream_run (watched ?evs @ replicate (length (hb_queues (ss_hub st) 0)) (Sent 0)) st' \<and>
      ss_conns st' 0 = Some c' \<and> \<not> sc_open c' \<and> events (sc_sent c') = ?evs"
    by presburger
  then show ?thesis by blast
qed

end
