(* ===== verification/Loops.thy ===== *)
theory Loops
  imports Streams
begin

text \<open>
  The background workers: \<open>WebhookDispatcherWorker\<close> of \<open>app/services/webhook_dispatcher_worker.py\<close>,
  \<open>DispatchAlertEvaluationWorker\<close> of \<open>app/services/dispatch_alert_evaluator_worker.py\<close> and
  \<open>DispatchAutomationWorkerScheduler\<close> of \<open>app/services/dispatch_automation_worker_scheduler.py\<close>.
  The three classes have the same \<open>start\<close>, \<open>stop\<close> and \<open>_run_loop\<close> and differ in the pass, which
  is a parameter. A pass is a sequence of steps with local variables of its own, so that two loops
  could interleave within their passes; that they do not is what the invariant shows.
\<close>

section \<open>A pass\<close>

text \<open>
  What a pass first reads into its local variables, and its next step: on with other local variables,
  or returned, or an exception, with the data after it. Both get the number of the pass, which
  selects its clocks and draws.
\<close>

record ('l, 'd) worker_pass =
  wp_enter :: "nat \<Rightarrow> 'd \<Rightarrow> 'l"
  wp_advance :: "nat \<Rightarrow> 'l \<Rightarrow> 'd \<Rightarrow> ('l + bool) \<times> 'd"

text \<open>The rest of a pass alone, to its end: whether it raised, and the data it leaves.\<close>

inductive whole :: "('l, 'd) worker_pass \<Rightarrow> nat \<Rightarrow> 'l \<Rightarrow> 'd \<Rightarrow> bool \<Rightarrow> 'd \<Rightarrow> bool" for pass n where
  last: "wp_advance pass n l x = (Inr raised, x') \<Longrightarrow> whole pass n l x raised x'"
| more: "wp_advance pass n l x = (Inl l1, x1) \<Longrightarrow> whole pass n l1 x1 raised x' \<Longrightarrow> whole pass n l x raised x'"

definition passes_end :: "('l, 'd) worker_pass \<Rightarrow> bool" where
  "passes_end pass \<longleftrightarrow> (\<forall>n l x. \<exists>raised x'. whole pass n l x raised x')"

text \<open>
  The specification: one thread that makes one pass after the other. \<open>serial pass d n p x\<close> holds when
  it has made \<open>n\<close> passes from the data \<open>d\<close>, is within the next one with the local variables \<open>l\<close> when
  \<open>p\<close> is \<open>Some l\<close> and between two when it is \<open>None\<close>, and the data is then \<open>x\<close>.
\<close>

inductive serial :: "('l, 'd) worker_pass \<Rightarrow> 'd \<Rightarrow> nat \<Rightarrow> 'l option \<Rightarrow> 'd \<Rightarrow> bool" for pass d where
  nothing: "serial pass d 0 None d"
| enters: "serial pass d n None x \<Longrightarrow> serial pass d n (Some (wp_enter pass n x)) x"
| goes_on: "serial pass d n (Some l) x \<Longrightarrow> wp_advance pass n l x = (Inl l', x') \<Longrightarrow> serial pass d n (Some l') x'"
| ends: "serial pass d n (Some l) x \<Longrightarrow> wp_advance pass n l x = (Inr raised, x') \<Longrightarrow> serial pass d (Suc n) None x'"

section \<open>The loop\<close>

text \<open>
  Where the task of a loop is: at the test of \<open>while\<close>, at the call of \<open>run_once\<close>, within it with its
  local variables, waiting for an event of that identity or for the interval to pass, or returned.
\<close>

datatype 'l loop_pc = Checking | Entering | InPass 'l | Waiting nat | Ended

text \<open>
  The object: \<open>_task\<close> and \<open>_stop_event\<close> by their identities; with the events that are set, the
  tasks there are, the tasks that calls of \<open>stop\<close> wait for, the passes made, and the data.
\<close>

record ('l, 'd) worker =
  wk_task :: "nat option"
  wk_event :: nat
  wk_set :: "nat set"
  wk_tasks :: "nat \<Rightarrow> 'l loop_pc option"
  wk_stopping :: "nat list"
  wk_passes :: nat
  wk_data :: 'd

definition idle_worker :: "'d \<Rightarrow> ('l, 'd) worker" where
  "idle_worker d = \<lparr>wk_task = None, wk_event = 0, wk_set = {}, wk_tasks = (\<lambda>t. None), wk_stopping = [],
    wk_passes = 0, wk_data = d\<rparr>"

definition is_running :: "('l, 'd) worker \<Rightarrow> bool" where
  "is_running w = (case wk_task w of None \<Rightarrow> False | Some t \<Rightarrow> wk_tasks w t \<noteq> Some Ended)"

definition goto :: "nat \<Rightarrow> 'l loop_pc \<Rightarrow> ('l, 'd) worker \<Rightarrow> ('l, 'd) worker" where
  "goto t pc w = w\<lparr>wk_tasks := (wk_tasks w)(t \<mapsto> pc)\<rparr>"

text \<open>\<open>start\<close>, with the new task and the new event.\<close>

definition start_worker :: "nat \<Rightarrow> nat \<Rightarrow> ('l, 'd) worker \<Rightarrow> ('l, 'd) worker" where
  "start_worker t ev w =
    (if is_running w then w else goto t Checking (w\<lparr>wk_event := ev, wk_task := Some t\<rparr>))"

text \<open>\<open>stop\<close> up to \<open>await self._task\<close>, and from there on.\<close>

definition stop_worker :: "('l, 'd) worker \<Rightarrow> ('l, 'd) worker" where
  "stop_worker w = w\<lparr>wk_set := insert (wk_event w) (wk_set w),
    wk_stopping := (case wk_task w of None \<Rightarrow> [] | Some t \<Rightarrow> [t]) @ wk_stopping w\<rparr>"

definition stop_returns :: "nat \<Rightarrow> ('l, 'd) worker \<Rightarrow> ('l, 'd) worker" where
  "stop_returns t w = w\<lparr>wk_task := None, wk_stopping := remove1 t (wk_stopping w)\<rparr>"

text \<open>
  The steps of \<open>_run_loop\<close>: the test, the start of \<open>run_once\<close> and a step of it. When it returns the
  loop waits; an exception is logged and the loop waits all the same.
\<close>

definition loop_check :: "nat \<Rightarrow> ('l, 'd) worker \<Rightarrow> ('l, 'd) worker" where
  "loop_check t w = goto t (if wk_event w \<in> wk_set w then Ended else Entering) w"

definition enter_pass :: "('l, 'd) worker_pass \<Rightarrow> nat \<Rightarrow> ('l, 'd) worker \<Rightarrow> ('l, 'd) worker" where
  "enter_pass pass t w = goto t (InPass (wp_enter pass (wk_passes w) (wk_data w))) w"

definition run_once :: "('l, 'd) worker_pass \<Rightarrow> nat \<Rightarrow> 'l \<Rightarrow> ('l, 'd) worker \<Rightarrow> ('l, 'd) worker" where
  "run_once pass t l w =
    (case wp_advance pass (wk_passes w) l (wk_data w) of
      (Inl l', x) \<Rightarrow> goto t (InPass l') (w\<lparr>wk_data := x\<rparr>)
    | (Inr raised, x) \<Rightarrow> goto t (Waiting (wk_event w)) (w\<lparr>wk_data := x, wk_passes := Suc (wk_passes w)\<rparr>))"

datatype worker_label = Started nat nat | Stopped | StopDone nat | Looped nat | Entered nat | Advanced nat
  | Woken nat | TimedOut nat

inductive worker_step ::
  "('l, 'd) worker_pass \<Rightarrow> worker_label \<Rightarrow> ('l, 'd) worker \<Rightarrow> ('l, 'd) worker \<Rightarrow> bool" for pass where
  started: "wk_tasks w t = None \<Longrightarrow> ev \<notin> insert (wk_event w) (wk_set w) \<Longrightarrow>
    worker_step pass (Started t ev) w (start_worker t ev w)"
| stopped: "worker_step pass Stopped w (stop_worker w)"
| stop_done: "t \<in> set (wk_stopping w) \<Longrightarrow> wk_tasks w t = Some Ended \<Longrightarrow>
    worker_step pass (StopDone t) w (stop_returns t w)"
| looped: "wk_tasks w t = Some Checking \<Longrightarrow> worker_step pass (Looped t) w (loop_check t w)"
| entered: "wk_tasks w t = Some Entering \<Longrightarrow> worker_step pass (Entered t) w (enter_pass pass t w)"
| advanced: "wk_tasks w t = Some (InPass l) \<Longrightarrow> worker_step pass (Advanced t) w (run_once pass t l w)"
| woken: "wk_tasks w t = Some (Waiting ev) \<Longrightarrow> ev \<in> wk_set w \<Longrightarrow> worker_step pass (Woken t) w (goto t Checking w)"
| timed_out: "wk_tasks w t = Some (Waiting ev) \<Longrightarrow> worker_step pass (TimedOut t) w (goto t Checking w)"

text \<open>
  The application starts a worker when it starts up and stops it once when it shuts down. What the
  proofs need of it: \<open>start\<close> and \<open>stop\<close> are not called while a \<open>stop\<close> is waiting.
\<close>

definition orderly_step :: "('l, 'd) worker_pass \<Rightarrow> ('l, 'd) worker \<Rightarrow> ('l, 'd) worker \<Rightarrow> bool" where
  "orderly_step pass w w' \<longleftrightarrow>
    (\<exists>l. worker_step pass l w w' \<and> (l = Stopped \<or> (\<exists>t ev. l = Started t ev) \<longrightarrow> wk_stopping w = []))"

definition loops :: "('l, 'd) worker \<Rightarrow> nat set" where
  "loops w = {t. \<exists>pc. wk_tasks w t = Some pc \<and> pc \<noteq> Ended}"

text \<open>The local variables of the passes in progress, and those of a task.\<close>

definition in_progress :: "('l, 'd) worker \<Rightarrow> 'l set" where
  "in_progress w = {l. \<exists>t. wk_tasks w t = Some (InPass l)}"

definition locals_at :: "'l loop_pc \<Rightarrow> 'l option" where
  "locals_at pc = (case pc of InPass l \<Rightarrow> Some l | _ \<Rightarrow> None)"

section \<open>The invariant\<close>

definition worker_ok :: "('l, 'd) worker_pass \<Rightarrow> 'd \<Rightarrow> ('l, 'd) worker \<Rightarrow> bool" where
  "worker_ok pass d w \<longleftrightarrow>
    (\<forall>t \<in> loops w. wk_task w = Some t) \<and>
    (\<forall>t. wk_task w = Some t \<longrightarrow> wk_tasks w t \<noteq> None \<and> (wk_tasks w t = Some Ended \<longrightarrow> wk_event w \<in> wk_set w)) \<and>
    (\<forall>t ev. wk_tasks w t = Some (Waiting ev) \<longrightarrow> ev = wk_event w) \<and>
    (wk_stopping w = [] \<or> (\<exists>t. wk_stopping w = [t] \<and> wk_task w = Some t \<and> wk_event w \<in> wk_set w)) \<and>
    (\<exists>p. in_progress w = set_option p \<and> serial pass d (wk_passes w) p (wk_data w))"

lemma worker_okI:
  assumes "\<And>t. t \<in> loops w \<Longrightarrow> wk_task w = Some t"
    and "\<And>t. wk_task w = Some t \<Longrightarrow> wk_tasks w t \<noteq> None \<and> (wk_tasks w t = Some Ended \<longrightarrow> wk_event w \<in> wk_set w)"
    and "\<And>t ev. wk_tasks w t = Some (Waiting ev) \<Longrightarrow> ev = wk_event w"
    and "wk_stopping w = [] \<or> (\<exists>t. wk_stopping w = [t] \<and> wk_task w = Some t \<and> wk_event w \<in> wk_set w)"
    and "in_progress w = set_option p" "serial pass d (wk_passes w) p (wk_data w)"
  shows "worker_ok pass d w"
  using assms unfolding worker_ok_def by blast

lemma worker_okD:
  assumes "worker_ok pass d w"
  shows "t \<in> loops w \<Longrightarrow> wk_task w = Some t"
    and "\<exists>p. in_progress w = set_option p \<and> serial pass d (wk_passes w) p (wk_data w)"
    and "wk_stopping w = [] \<or> (\<exists>t. wk_stopping w = [t] \<and> wk_task w = Some t \<and> wk_event w \<in> wk_set w)"
  using assms unfolding worker_ok_def by blast+

lemma worker_ok_idle: "worker_ok pass d (idle_worker d)"
  by (auto simp: worker_ok_def idle_worker_def loops_def in_progress_def intro!: exI [of _ None] serial.nothing)

lemmas worker_defs = start_worker_def stop_worker_def stop_returns_def loop_check_def enter_pass_def run_once_def
  goto_def is_running_def

lemma locals_at_simps [simp]:
  "locals_at Checking = None" "locals_at Entering = None" "locals_at (InPass l) = Some l"
  "locals_at (Waiting ev) = None" "locals_at Ended = None"
  by (simp_all add: locals_at_def)

lemma worker_ok_start:
  assumes "worker_ok pass d w" "wk_stopping w = []" "wk_tasks w t = None"
  shows "worker_ok pass d (start_worker t ev w)"
proof (cases "is_running w")
  case False
  with assms(1) have none: "loops w = {}"
    by (auto simp: worker_ok_def loops_def is_running_def split: option.splits)
  let ?w = "goto t Checking (w\<lparr>wk_event := ev, wk_task := Some t\<rparr>)"
  have sub: "u = t \<and> q = Checking" if "wk_tasks ?w u = Some q" "q \<noteq> Ended" for u q
    using that none by (auto simp: loops_def goto_def split: if_splits)
  have none_in: "in_progress w = {}" "in_progress ?w = {}"
    using none sub by (auto simp: in_progress_def loops_def)
  obtain p where p: "in_progress w = set_option p" "serial pass d (wk_passes w) p (wk_data w)"
    using worker_okD(2) [OF assms(1)] by blast
  have "worker_ok pass d ?w"
  proof (rule worker_okI)
    show "wk_task ?w = Some u" if "u \<in> loops ?w" for u
    proof -
      from that obtain q where "wk_tasks ?w u = Some q" "q \<noteq> Ended" unfolding loops_def by blast
      with sub have "u = t" by blast
      then show ?thesis by (simp add: goto_def)
    qed
    show "e = wk_event ?w" if "wk_tasks ?w u = Some (Waiting e)" for u e
      using sub [OF that] by simp
    show "in_progress ?w = set_option p" using none_in p(1) by simp
    show "serial pass d (wk_passes ?w) p (wk_data ?w)" using p(2) by (simp add: goto_def)
  qed (use assms(2) in \<open>simp_all add: goto_def\<close>)
  with False show ?thesis by (simp add: start_worker_def)
qed (use assms in \<open>simp add: start_worker_def\<close>)

lemma only_loop:
  assumes "worker_ok pass d w" "wk_tasks w t = Some pc" "pc \<noteq> Ended"
  shows "wk_task w = Some t" "loops w = {t}" "serial pass d (wk_passes w) (locals_at pc) (wk_data w)"
proof -
  from assms(2,3) have t: "t \<in> loops w" by (simp add: loops_def)
  show task: "wk_task w = Some t" by (rule worker_okD(1) [OF assms(1) t])
  have "u = t" if "u \<in> loops w" for u using worker_okD(1) [OF assms(1) that] task by simp
  with t show one: "loops w = {t}" by blast
  obtain p where p: "in_progress w = set_option p" "serial pass d (wk_passes w) p (wk_data w)"
    using worker_okD(2) [OF assms(1)] by blast
  have "u = t" if "wk_tasks w u = Some (InPass l)" for u l
    using that one by (auto simp: loops_def)
  then have "in_progress w = set_option (locals_at pc)"
    using assms(2) by (auto simp: in_progress_def locals_at_def split: loop_pc.splits)
  with p show "serial pass d (wk_passes w) (locals_at pc) (wk_data w)"
    by (cases p; cases "locals_at pc") auto
qed

lemma worker_ok_move:
  assumes "worker_ok pass d w" "t \<in> loops w" "serial pass d k (locals_at pc) x"
    and "pc = Ended \<Longrightarrow> wk_event w \<in> wk_set w" "\<And>ev. pc = Waiting ev \<Longrightarrow> ev = wk_event w"
  shows "worker_ok pass d (goto t pc (w\<lparr>wk_data := x, wk_passes := k\<rparr>))"
proof -
  let ?w = "goto t pc (w\<lparr>wk_data := x, wk_passes := k\<rparr>)"
  from assms(2) obtain pc0 where "wk_tasks w t = Some pc0" "pc0 \<noteq> Ended" by (auto simp: loops_def)
  note only = only_loop [OF assms(1) this]
  have sub: "u = t" if "wk_tasks ?w u = Some q" "q \<noteq> Ended" for u q
    using that only(2) by (auto simp: loops_def goto_def split: if_splits)
  have at: "wk_tasks ?w t = Some pc" by (simp add: goto_def)
  show ?thesis
  proof (rule worker_okI [where p = "locals_at pc"])
    show "wk_task ?w = Some u" if "u \<in> loops ?w" for u
    proof -
      from that obtain q where "wk_tasks ?w u = Some q" "q \<noteq> Ended" unfolding loops_def by blast
      with sub have "u = t" by blast
      with only(1) show ?thesis by (simp add: goto_def)
    qed
    show "e = wk_event ?w" if "wk_tasks ?w u = Some (Waiting e)" for u e
      using sub [OF that] that at assms(5) by (simp add: goto_def)
    show "in_progress ?w = set_option (locals_at pc)"
      using sub at by (fastforce simp: in_progress_def locals_at_def split: loop_pc.splits)
    show "wk_tasks ?w u \<noteq> None \<and> (wk_tasks ?w u = Some Ended \<longrightarrow> wk_event ?w \<in> wk_set ?w)" if "wk_task ?w = Some u" for u
      using that only(1) assms(4) by (simp add: goto_def)
    show "serial pass d (wk_passes ?w) (locals_at pc) (wk_data ?w)" using assms(3) by (simp add: goto_def)
  qed (use worker_okD(3) [OF assms(1)] in \<open>simp add: goto_def\<close>)
qed

lemma worker_ok_goto:
  assumes "worker_ok pass d w" "wk_tasks w t = Some pc0" "pc0 \<noteq> Ended" "locals_at pc0 = None" "locals_at pc = None"
    and "pc = Ended \<Longrightarrow> wk_event w \<in> wk_set w" "\<And>ev. pc = Waiting ev \<Longrightarrow> ev = wk_event w"
  shows "worker_ok pass d (goto t pc w)"
proof -
  note only = only_loop [OF assms(1-3)]
  then have "worker_ok pass d (goto t pc (w\<lparr>wk_data := wk_data w, wk_passes := wk_passes w\<rparr>))"
    using assms(4-7) by (intro worker_ok_move [OF assms(1)]) simp_all
  then show ?thesis by simp
qed

lemma worker_ok_enter:
  assumes "worker_ok pass d w" "wk_tasks w t = Some Entering"
  shows "worker_ok pass d (enter_pass pass t w)"
proof -
  note only = only_loop [OF assms]
  have "worker_ok pass d (goto t (InPass (wp_enter pass (wk_passes w) (wk_data w)))
      (w\<lparr>wk_data := wk_data w, wk_passes := wk_passes w\<rparr>))"
    using only by (intro worker_ok_move [OF assms(1)]) (simp_all add: enters)
  then show ?thesis by (simp add: enter_pass_def)
qed

lemma worker_ok_advance:
  assumes "worker_ok pass d w" "wk_tasks w t = Some (InPass l)"
  shows "worker_ok pass d (run_once pass t l w)"
proof -
  note only = only_loop [OF assms]
  obtain r x where adv: "wp_advance pass (wk_passes w) l (wk_data w) = (r, x)" by fastforce
  show ?thesis
  proof (cases r)
    case (Inl l')
    with adv only have "serial pass d (wk_passes w) (locals_at (InPass l')) x" by (auto intro: goes_on)
    from worker_ok_move [OF assms(1) _ this] only have
      "worker_ok pass d (goto t (InPass l') (w\<lparr>wk_data := x, wk_passes := wk_passes w\<rparr>))" by simp
    with Inl adv show ?thesis by (simp add: run_once_def)
  next
    case (Inr raised)
    with adv only have "serial pass d (Suc (wk_passes w)) (locals_at (Waiting (wk_event w))) x"
      by (auto intro: ends)
    from worker_ok_move [OF assms(1) _ this] only Inr adv show ?thesis by (simp add: run_once_def)
  qed
qed

lemma worker_ok_step: "worker_ok pass d w \<Longrightarrow> orderly_step pass w w' \<Longrightarrow> worker_ok pass d w'"
  unfolding orderly_step_def
proof (elim exE conjE)
  fix l assume ok: "worker_ok pass d w" and step: "worker_step pass l w w'"
    and calm: "l = Stopped \<or> (\<exists>t ev. l = Started t ev) \<longrightarrow> wk_stopping w = []"
  from step show ?thesis
  proof cases
    case (started t ev)
    with calm show ?thesis using worker_ok_start [OF ok] by simp
  next
    case stopped
    with calm ok show ?thesis
      by (auto simp: worker_ok_def stop_worker_def loops_def in_progress_def split: option.splits)
  next
    case (stop_done t)
    with ok show ?thesis by (auto simp: worker_ok_def stop_returns_def loops_def in_progress_def)
  next
    case (looped t)
    then show ?thesis
      unfolding looped(2) loop_check_def by (intro worker_ok_goto [OF ok]) (auto split: if_splits)
  next
    case (entered t)
    then show ?thesis using worker_ok_enter [OF ok] by simp
  next
    case (advanced t)
    then show ?thesis using worker_ok_advance [OF ok] by simp
  next
    case (woken t ev)
    then show ?thesis by (auto intro!: worker_ok_goto [OF ok])
  next
    case (timed_out t ev)
    then show ?thesis by (auto intro!: worker_ok_goto [OF ok])
  qed
qed

interpretation worker_system: invariant_system "\<lambda>w. w = idle_worker d" "orderly_step pass" "worker_ok pass d"
  for pass :: "('l, 'd) worker_pass" and d
  by unfold_locales (auto intro: worker_ok_idle worker_ok_step)


section \<open>A stop comes to its end\<close>

definition stops_within :: "('l, 'd) worker_pass \<Rightarrow> nat \<Rightarrow> ('l, 'd) worker \<Rightarrow> bool" where
  "stops_within pass n w \<longleftrightarrow>
    (\<exists>w'. (orderly_step pass)\<^sup>*\<^sup>* w w' \<and> wk_task w' = None \<and> loops w' = {} \<and> wk_passes w' \<le> wk_passes w + n)"

lemma stops_within_step:
  assumes "worker_step pass l w w1" "l \<noteq> Stopped" "\<And>t ev. l \<noteq> Started t ev" "stops_within pass n w1"
    "wk_passes w1 + n \<le> wk_passes w + m"
  shows "stops_within pass m w"
proof -
  from assms(1-3) have "orderly_step pass w w1" by (auto simp: orderly_step_def)
  with assms(4,5) show ?thesis
    unfolding stops_within_def by (meson converse_rtranclp_into_rtranclp le_trans)
qed

lemma stop_ends:
  assumes "worker_ok pass d w" "wk_stopping w = [t]" "wk_tasks w t = Some Ended"
  shows "stops_within pass 0 w"
proof -
  have "loops w = {}" using assms by (auto simp: worker_ok_def loops_def)
  then have "stops_within pass 0 (stop_returns t w)"
    unfolding stops_within_def by (intro exI [of _ "stop_returns t w"]) (simp add: stop_returns_def loops_def)
  then show ?thesis
    by (rule stops_within_step [OF stop_done [OF _ assms(3)], rotated 3])
      (use assms(2) in \<open>simp_all add: stop_returns_def\<close>)
qed

lemma stop_ends_checking:
  assumes "worker_ok pass d w" "wk_stopping w = [t]" "wk_tasks w t = Some Checking"
  shows "stops_within pass 0 w"
proof -
  from assms(1,2) have set: "wk_event w \<in> wk_set w" by (simp add: worker_ok_def)
  have "worker_ok pass d (loop_check t w)"
    unfolding loop_check_def by (intro worker_ok_goto [OF assms(1,3)]) (use set in simp_all)
  then have "stops_within pass 0 (loop_check t w)"
    by (rule stop_ends [where t = t]) (use assms(2) set in \<open>simp_all add: loop_check_def goto_def\<close>)
  then show ?thesis
    by (rule stops_within_step [OF looped [OF assms(3)], rotated 2]) (simp_all add: loop_check_def goto_def)
qed

lemma stop_ends_waiting:
  assumes "worker_ok pass d w" "wk_stopping w = [t]" "wk_tasks w t = Some (Waiting ev)"
  shows "stops_within pass 0 w"
proof -
  from assms have set: "ev \<in> wk_set w" by (auto simp: worker_ok_def)
  have "worker_ok pass d (goto t Checking w)"
    by (intro worker_ok_goto [OF assms(1,3)]) simp_all
  then have "stops_within pass 0 (goto t Checking w)"
    by (rule stop_ends_checking [where t = t]) (use assms(2) in \<open>simp_all add: goto_def\<close>)
  then show ?thesis
    by (rule stops_within_step [OF woken [OF assms(3) set], rotated 2]) (simp_all add: goto_def)
qed

lemma stop_ends_in_pass:
  assumes "whole pass n l x raised x'" "worker_ok pass d w" "wk_stopping w = [t]" "wk_tasks w t = Some (InPass l)"
    "wk_passes w = n" "wk_data w = x"
  shows "stops_within pass 1 w"
  using assms
proof (induction arbitrary: w rule: whole.induct)
  case (last l x raised x')
  note step = advanced [OF last.prems(3), of pass]
  have go: "run_once pass t l w = goto t (Waiting (wk_event w)) (w\<lparr>wk_data := x', wk_passes := Suc n\<rparr>)"
    using last by (simp add: run_once_def)
  have "stops_within pass 0 (run_once pass t l w)"
    by (rule stop_ends_waiting [OF worker_ok_advance [OF last.prems(1,3)], where t = t and ev = "wk_event w"])
      (use last.prems in \<open>simp_all add: go goto_def\<close>)
  then show ?case
    by (rule stops_within_step [OF step, rotated 2]) (use last.prems in \<open>simp_all add: go goto_def\<close>)
next
  case (more l x l1 x1 raised x')
  note step = advanced [OF more.prems(3), of pass]
  have go: "run_once pass t l w = goto t (InPass l1) (w\<lparr>wk_data := x1\<rparr>)"
    using more by (simp add: run_once_def)
  have "stops_within pass 1 (run_once pass t l w)"
    by (rule more.IH [OF worker_ok_advance [OF more.prems(1,3)]]) (use more.prems in \<open>simp_all add: go goto_def\<close>)
  then show ?case
    by (rule stops_within_step [OF step, rotated 2]) (use more.prems in \<open>simp_all add: go goto_def\<close>)
qed

lemma stop_ends_entering:
  assumes "passes_end pass" "worker_ok pass d w" "wk_stopping w = [t]" "wk_tasks w t = Some Entering"
  shows "stops_within pass 1 w"
proof -
  let ?l = "wp_enter pass (wk_passes w) (wk_data w)"
  from assms(1) obtain raised x' where "whole pass (wk_passes w) ?l (wk_data w) raised x'"
    unfolding passes_end_def by blast
  then have "stops_within pass 1 (enter_pass pass t w)"
    by (rule stop_ends_in_pass [OF _ worker_ok_enter [OF assms(2,4)], where t = t])
      (use assms(3) in \<open>simp_all add: enter_pass_def goto_def\<close>)
  then show ?thesis
    by (rule stops_within_step [OF entered [OF assms(4)], rotated 2]) (simp_all add: enter_pass_def goto_def)
qed

lemma stop_completes:
  assumes "passes_end pass" "worker_ok pass d w" "wk_stopping w \<noteq> []"
  shows "stops_within pass 1 w"
proof -
  from assms(2,3) obtain t pc where t: "wk_stopping w = [t]" "wk_tasks w t = Some pc"
    by (auto simp: worker_ok_def)
  have weaker: "stops_within pass 0 w \<Longrightarrow> stops_within pass 1 w" by (auto simp: stops_within_def le_SucI)
  show ?thesis
  proof (cases pc)
    case (InPass l)
    from assms(1) obtain raised x' where "whole pass (wk_passes w) l (wk_data w) raised x'"
      unfolding passes_end_def by blast
    from stop_ends_in_pass [OF this assms(2) t(1)] t(2) InPass show ?thesis by simp
  qed (use t weaker stop_ends [OF assms(2)] stop_ends_checking [OF assms(2)] stop_ends_waiting [OF assms(2)]
      stop_ends_entering [OF assms(1,2)] in auto)
qed

text \<open>
  C26: the background loops. Whatever the passes do, raise included, and however start, stop, the
  timers and the steps of the passes interleave, as long as start and stop are not called while a stop
  is waiting: at most one loop is alive and it is the one a stop would wait for; a loop that has ended
  was stopped, so no failing pass ends it; at most one pass is in progress, and the data and its local
  variables are those of a single thread that makes the passes one after another; and if every
  pass comes to an end, a waiting stop can return, with no loop left and after at most the one pass in
  progress.
\<close>

theorem background_loop_correct:
  assumes "reachable (\<lambda>w. w = idle_worker d) (orderly_step pass) w"
  shows "(\<forall>t \<in> loops w. wk_task w = Some t) \<and>
    (\<forall>t. wk_task w = Some t \<longrightarrow> t \<in> loops w \<or> wk_event w \<in> wk_set w) \<and>
    (\<exists>p. in_progress w = set_option p \<and> serial pass d (wk_passes w) p (wk_data w)) \<and>
    (wk_stopping w \<noteq> [] \<and> passes_end pass \<longrightarrow> (\<exists>w'. (orderly_step pass)\<^sup>*\<^sup>* w w' \<and> wk_task w' = None \<and>
      loops w' = {} \<and> wk_passes w' \<le> wk_passes w + 1))"
proof -
  from worker_system.reachable_inv [OF assms] have ok: "worker_ok pass d w" .
  have "t \<in> loops w \<or> wk_event w \<in> wk_set w" if "wk_task w = Some t" for t
    using ok that by (auto simp: worker_ok_def loops_def)
  with ok stop_completes [OF _ ok] show ?thesis unfolding stops_within_def worker_ok_def by blast
qed

text \<open>
  A worker whose pass reads the data in one step and writes it back, one larger, in the next; the
  first pass raises after that. It is stopped between the two steps.
\<close>

definition flaky_pass :: "(int option, int) worker_pass" where
  "flaky_pass = \<lparr>wp_enter = \<lambda>n x. None,
    wp_advance = \<lambda>n l x. case l of None \<Rightarrow> (Inl (Some x), x) | Some y \<Rightarrow> (Inr (n = 0), y + 1)\<rparr>"

lemma flaky_pass_ends: "passes_end flaky_pass"
proof -
  have w: "whole flaky_pass n (Some y) x (n = 0) (y + 1)" for n y x
    by (rule whole.last) (simp add: flaky_pass_def)
  have "whole flaky_pass n None x (n = 0) (x + 1)" for n x
    by (rule whole.more [OF _ w]) (simp add: flaky_pass_def)
  with w have "\<exists>r x'. whole flaky_pass n l x r x'" for n l x by (cases l) blast+
  then show ?thesis by (simp add: passes_end_def)
qed

definition stopping_worker :: "(int option, int) worker" where
  "stopping_worker = stop_worker (run_once flaky_pass 0 None
    (enter_pass flaky_pass 0 (loop_check 0 (start_worker 0 1 (idle_worker 7)))))"

lemma stopping_worker_reachable: "reachable (\<lambda>w. w = idle_worker 7) (orderly_step flaky_pass) stopping_worker"
proof -
  let ?w1 = "start_worker 0 1 (idle_worker 7) :: (int option, int) worker"
  let ?w2 = "loop_check 0 ?w1"
  let ?w3 = "enter_pass flaky_pass 0 ?w2"
  let ?w4 = "run_once flaky_pass 0 None ?w3"
  note defs = worker_defs idle_worker_def flaky_pass_def
  have 1: "worker_step flaky_pass (Started 0 1) (idle_worker 7) ?w1"
    by (rule worker_step.started) (simp_all add: idle_worker_def)
  have 2: "worker_step flaky_pass (Looped 0) ?w1 ?w2" by (rule looped) (simp add: defs)
  have 3: "worker_step flaky_pass (Entered 0) ?w2 ?w3" by (rule entered) (simp add: defs)
  have 4: "worker_step flaky_pass (Advanced 0) ?w3 ?w4" by (rule advanced) (simp add: defs)
  have 5: "worker_step flaky_pass Stopped ?w4 stopping_worker"
    unfolding stopping_worker_def by (rule worker_step.stopped)
  have calm: "wk_stopping (idle_worker 7 :: (int option, int) worker) = []" "wk_stopping ?w4 = []"
    by (simp_all add: defs)
  have ord: "orderly_step flaky_pass (idle_worker 7) ?w1" "orderly_step flaky_pass ?w1 ?w2"
    "orderly_step flaky_pass ?w2 ?w3" "orderly_step flaky_pass ?w3 ?w4" "orderly_step flaky_pass ?w4 stopping_worker"
    unfolding orderly_step_def using 1 2 3 4 5 calm by blast+
  note base = reachable.base [where start = "\<lambda>w. w = idle_worker 7", OF refl]
  note go = reachable.more [where start = "\<lambda>w. w = idle_worker 7" and step = "orderly_step flaky_pass"]
  show ?thesis by (rule go [OF go [OF go [OF go [OF go [OF base ord(1)] ord(2)] ord(3)] ord(4)] ord(5)])
qed

theorem background_loop_correct_witness:
  "in_progress stopping_worker = {Some 7} \<and> serial flaky_pass 7 0 (Some (Some 7)) 7 \<and>
   (\<exists>w'. (orderly_step flaky_pass)\<^sup>*\<^sup>* stopping_worker w' \<and> wk_task w' = None \<and> loops w' = {} \<and> wk_passes w' \<le> 1)"
proof -
  have p: "wk_passes stopping_worker = 0" "wk_stopping stopping_worker \<noteq> []" "wk_data stopping_worker = 7"
    "in_progress stopping_worker = {Some 7}"
    by (auto simp: stopping_worker_def worker_defs idle_worker_def flaky_pass_def in_progress_def)
  from background_loop_correct [OF stopping_worker_reachable] obtain q where
    q: "in_progress stopping_worker = set_option q" "serial flaky_pass 7 (wk_passes stopping_worker) q (wk_data stopping_worker)"
    by blast
  with p have "q = Some (Some 7)" by (cases q) auto
  with background_loop_correct [OF stopping_worker_reachable] p q flaky_pass_ends show ?thesis by simp
qed

text \<open>
  Out of order it goes wrong: a \<open>start\<close> between the end of the loop and the return of the \<open>stop\<close>
  that waits for it begins a second loop, whose task the \<open>stop\<close> then forgets: it runs on and no
  \<open>stop\<close> waits for it any more.
\<close>

lemma start_during_stop_is_forgotten:
  "\<exists>w. reachable (\<lambda>w. w = idle_worker 0) (\<lambda>w w'. \<exists>l. worker_step flaky_pass l w w') w \<and>
    wk_task w = None \<and> wk_stopping w = [] \<and> loops w \<noteq> {}"
proof -
  let ?w1 = "start_worker 0 1 (idle_worker 0) :: (int option, int) worker"
  let ?w2 = "stop_worker ?w1"
  let ?w3 = "loop_check 0 ?w2"
  let ?w4 = "start_worker 1 2 ?w3"
  let ?w5 = "stop_returns 0 ?w4"
  note defs = worker_defs idle_worker_def
  let ?step = "\<lambda>w w'. \<exists>l. worker_step flaky_pass l w w'"
  have "worker_step flaky_pass (Started 0 1) (idle_worker 0) ?w1"
    by (rule worker_step.started) (simp_all add: defs)
  then have 1: "?step (idle_worker 0) ?w1" ..
  have "worker_step flaky_pass Stopped ?w1 ?w2" by (rule worker_step.stopped)
  then have 2: "?step ?w1 ?w2" ..
  have "worker_step flaky_pass (Looped 0) ?w2 ?w3" by (rule looped) (simp add: defs)
  then have 3: "?step ?w2 ?w3" ..
  have "worker_step flaky_pass (Started 1 2) ?w3 ?w4" by (rule worker_step.started) (simp_all add: defs)
  then have 4: "?step ?w3 ?w4" ..
  have "worker_step flaky_pass (StopDone 0) ?w4 ?w5" by (rule stop_done) (simp_all add: defs)
  then have 5: "?step ?w4 ?w5" ..
  note go = reachable.more [where start = "\<lambda>w. w = idle_worker 0" and step = ?step]
  have "reachable (\<lambda>w. w = idle_worker 0) ?step ?w5"
    by (rule go [OF go [OF go [OF go [OF go [OF reachable.base [where start = "\<lambda>w. w = idle_worker _", OF refl] 1] 2] 3] 4] 5])
  moreover have "wk_task ?w5 = None" "wk_stopping ?w5 = []" "1 \<in> loops ?w5"
    by (simp_all add: defs loops_def)
  ultimately show ?thesis by blast
qed


section \<open>The three workers\<close>

text \<open>
  The passes: \<open>run_once\<close> of each class with the limits its constructor has clamped, one candidate or
  tenant a step; the local variables are the loop's rest and the report. A raised
  exception leaves what was committed; environments, clocks and identifiers are those of the pass.
\<close>

definition dispatcher_pass ::
  "(nat \<Rightarrow> uuid \<Rightarrow> run_env) \<Rightarrow> (nat \<Rightarrow> uuid \<Rightarrow> uuid) \<Rightarrow> (nat \<Rightarrow> uuid \<Rightarrow> instant) \<Rightarrow> (nat \<Rightarrow> instant) \<Rightarrow> int \<Rightarrow>
    (bool \<times> execution list \<times> dispatch_report, db) worker_pass" where
  "dispatcher_pass envs fresh created now limit = \<lparr>
    wp_enter = \<lambda>n s. (False,
      pending_execution_candidates (max PENDING_SCAN_LIMIT (nat (max limit 1))) s, empty_report),
    wp_advance = \<lambda>n (expired, es, rep) s.
      (case es of
        [] \<Rightarrow> (Inr False, s)
      | e # es' \<Rightarrow>
          if dr_dispatched rep \<ge> nat (max limit 1) then (Inr False, s)
          else if expired then (Inr True, s)
          else (case visit (executor_env (envs n) (fresh n) (created n)) default_policy (now n) e (rep, s) of
            (rep', expired', s') \<Rightarrow> (Inl (expired', es', rep'), s')))\<rparr>"

definition alert_pass ::
  "net \<Rightarrow> fernet \<Rightarrow> settings \<Rightarrow> (nat \<Rightarrow> uuid \<Rightarrow> delivery_draw) \<Rightarrow> int \<Rightarrow> int \<Rightarrow>
    (uuid list \<times> evaluation_report, db \<times> traffic) worker_pass" where
  "alert_pass net fn st dw limit window = \<lparr>
    wp_enter = \<lambda>n x. (let tids = scanned_tenants (max limit 1) (fst x) in
      (tids, \<lparr>er_tenants_scanned = length tids, er_tenants_evaluated = 0, er_attempted = 0, er_delivered = 0,
        er_failed = 0, er_skipped = 0, er_tenant_ids = []\<rparr>)),
    wp_advance = \<lambda>n (tids, rep) x.
      (case tids of
        [] \<Rightarrow> (Inr False, x)
      | tid # tids' \<Rightarrow>
         (case evaluate_tenant_alerts net fn st (dw n) (max window 1) [tid] rep (fst x) (snd x) of
           (Inl err, y) \<Rightarrow> (Inr True, y)
         | (Inr rep', y) \<Rightarrow> (Inl (tids', rep'), y)))\<rparr>"

definition scheduler_pass ::
  "(nat \<Rightarrow> worker_env) \<Rightarrow> (nat \<Rightarrow> schedule_env) \<Rightarrow> int \<Rightarrow> (tenant list \<times> scheduler_report, db) worker_pass" where
  "scheduler_pass wenv env limit = \<lparr>
    wp_enter = \<lambda>n s. (if \<not> sv_lock (env n) then ([], fresh_report False True)
      else (tenants_by_age s, fresh_report True False)),
    wp_advance = \<lambda>n (ts, rep) s.
      (case ts of
        [] \<Rightarrow> (Inr False, s)
      | t # ts' \<Rightarrow>
          if sr_tenants_due rep \<ge> nat (max limit 1) then (Inr False, s)
          else (case evaluate_tenants (env n\<lparr>sv_run := plan_worker_run (wenv n)\<rparr>) (nat (max limit 1)) [t] rep s of
            (Inl err, s') \<Rightarrow> (Inr True, s')
          | (Inr rep', s') \<Rightarrow> (Inl (ts', rep'), s')))\<rparr>"

text \<open>A pass alone does what the service does: the same data, and an exception when the service raises.\<close>

lemma dispatcher_pass_rest:
  assumes "dispatch_loop (executor_env (envs n) (fresh n) (created n)) (nat (max limit 1)) default_policy (now n)
    expired es rep s = (rep', exc, s')"
  shows "whole (dispatcher_pass envs fresh created now limit) n (expired, es, rep) s (exc \<noteq> None) s'"
  using assms
proof (induction es arbitrary: expired rep s)
  case Nil
  then show ?case by (intro whole.last) (simp add: dispatcher_pass_def)
next
  case (Cons e es)
  show ?case
  proof (cases "nat (max limit 1) \<le> dr_dispatched rep \<or> expired")
    case True
    with Cons.prems show ?thesis
      by (intro whole.last) (auto simp: dispatcher_pass_def dispatch_loop_Cons split: if_splits)
  next
    case False
    obtain rep1 x1 s1 where v: "visit (executor_env (envs n) (fresh n) (created n)) default_policy (now n) e (rep, s) =
        (rep1, x1, s1)" by (metis surj_pair)
    with False have "wp_advance (dispatcher_pass envs fresh created now limit) n (expired, e # es, rep) s =
        (Inl (x1, es, rep1), s1)" by (simp add: dispatcher_pass_def)
    moreover have "dispatch_loop (executor_env (envs n) (fresh n) (created n)) (nat (max limit 1)) default_policy
        (now n) x1 es rep1 s1 = (rep', exc, s')"
      using Cons.prems False v by (simp add: dispatch_loop_Cons)
    ultimately show ?thesis using Cons.IH by (blast intro: whole.more)
  qed
qed

lemma dispatcher_pass_whole:
  assumes "dispatch_pending_webhook_executions (envs n) (fresh n) (created n) (max limit 1) default_policy (now n) s =
    (rep, exc, s')"
  shows "whole (dispatcher_pass envs fresh created now limit) n
    (wp_enter (dispatcher_pass envs fresh created now limit) n s) s (exc \<noteq> None) s'"
proof -
  have "dispatch_loop (executor_env (envs n) (fresh n) (created n)) (nat (max limit 1)) default_policy (now n) False
      (pending_execution_candidates (max PENDING_SCAN_LIMIT (nat (max limit 1))) s) empty_report s = (rep, exc, s')"
    using assms by (simp add: dispatch_pending_webhook_executions_def dispatch_pass_def split: if_splits)
  from dispatcher_pass_rest [where envs = envs and fresh = fresh and created = created and now = now and n = n, OF this] show ?thesis by (simp add: dispatcher_pass_def)
qed

lemma evaluate_tenant_alerts_Cons:
  "evaluate_tenant_alerts net fn st dw window (tid # tids) rep s tf =
    (case evaluate_tenant_alerts net fn st dw window [tid] rep s tf of
      (Inl err, y) \<Rightarrow> (Inl err, y)
    | (Inr rep', y) \<Rightarrow> evaluate_tenant_alerts net fn st dw window tids rep' (fst y) (snd y))"
  by (simp split: sum.split prod.split)

lemma alert_pass_rest:
  assumes "evaluate_tenant_alerts net fn st (dw n) (max window 1) tids rep (fst x) (snd x) = (r, y)"
  shows "whole (alert_pass net fn st dw limit window) n (tids, rep) x (isl r) y"
  using assms
proof (induction tids arbitrary: rep x)
  case Nil
  then show ?case by (intro whole.last) (auto simp: alert_pass_def)
next
  case (Cons tid tids)
  obtain r1 y1 where one: "evaluate_tenant_alerts net fn st (dw n) (max window 1) [tid] rep (fst x) (snd x) = (r1, y1)"
    by (metis surj_pair)
  note all = Cons.prems [unfolded evaluate_tenant_alerts_Cons [of _ _ _ _ _ tid tids], unfolded one]
  show ?case
  proof (cases r1)
    case (Inl err)
    with one have "wp_advance (alert_pass net fn st dw limit window) n (tid # tids, rep) x = (Inr True, y1)"
      by (simp add: alert_pass_def del: evaluate_tenant_alerts.simps)
    with all Inl show ?thesis by (auto intro: whole.last)
  next
    case (Inr rep1)
    with one have "wp_advance (alert_pass net fn st dw limit window) n (tid # tids, rep) x = (Inl (tids, rep1), y1)"
      by (simp add: alert_pass_def del: evaluate_tenant_alerts.simps)
    moreover have "whole (alert_pass net fn st dw limit window) n (tids, rep1) y1 (isl r) y"
      by (rule Cons.IH) (use all Inr in simp)
    ultimately show ?thesis by (rule whole.more)
  qed
qed

lemma alert_pass_whole:
  assumes "evaluate_dispatch_alerts net fn st (dw n) (max limit 1) (max window 1) s tf = (r, y)"
  shows "whole (alert_pass net fn st dw limit window) n
    (wp_enter (alert_pass net fn st dw limit window) n (s, tf)) (s, tf) (isl r) y"
proof -
  let ?tids = "scanned_tenants (max limit 1) s"
  let ?rep = "\<lparr>er_tenants_scanned = length ?tids, er_tenants_evaluated = 0, er_attempted = 0, er_delivered = 0,
    er_failed = 0, er_skipped = 0, er_tenant_ids = []\<rparr>"
  have "evaluate_tenant_alerts net fn st (dw n) (max window 1) ?tids ?rep (fst (s, tf)) (snd (s, tf)) = (r, y)"
    using assms by (simp add: evaluate_dispatch_alerts_def Let_def)
  from alert_pass_rest [where dw = dw and n = n, OF this] show ?thesis by (simp add: alert_pass_def Let_def)
qed

lemma evaluate_tenants_Cons:
  "\<not> limit \<le> sr_tenants_due rep \<Longrightarrow> evaluate_tenants env limit (t # ts) rep s =
    (case evaluate_tenants env limit [t] rep s of
      (Inl err, s') \<Rightarrow> (Inl err, s')
    | (Inr rep', s') \<Rightarrow> evaluate_tenants env limit ts rep' s')"
  by (simp add: Let_def split: sum.split prod.split)

lemma scheduler_pass_rest:
  assumes "evaluate_tenants (env n\<lparr>sv_run := plan_worker_run (wenv n)\<rparr>) (nat (max limit 1)) ts rep s = (r, s')"
  shows "whole (scheduler_pass wenv env limit) n (ts, rep) s (isl r) s'"
  using assms
proof (induction ts arbitrary: rep s)
  case Nil
  then show ?case by (intro whole.last) (auto simp: scheduler_pass_def)
next
  case (Cons t ts)
  let ?ev = "evaluate_tenants (env n\<lparr>sv_run := plan_worker_run (wenv n)\<rparr>) (nat (max limit 1))"
  show ?case
  proof (cases "nat (max limit 1) \<le> sr_tenants_due rep")
    case True
    with Cons.prems show ?thesis by (intro whole.last) (auto simp: scheduler_pass_def)
  next
    case False
    obtain r1 s1 where one: "?ev [t] rep s = (r1, s1)" by fastforce
    note all = Cons.prems [unfolded evaluate_tenants_Cons [OF False, of _ t ts] one]
    show ?thesis
    proof (cases r1)
      case (Inl err)
      with one False have "wp_advance (scheduler_pass wenv env limit) n (t # ts, rep) s = (Inr True, s1)"
        by (simp add: scheduler_pass_def del: evaluate_tenants.simps)
      with all Inl show ?thesis by (auto intro: whole.last)
    next
      case (Inr rep1)
      with one False have "wp_advance (scheduler_pass wenv env limit) n (t # ts, rep) s = (Inl (ts, rep1), s1)"
        by (simp add: scheduler_pass_def del: evaluate_tenants.simps)
      moreover have "whole (scheduler_pass wenv env limit) n (ts, rep1) s1 (isl r) s'"
        by (rule Cons.IH) (use all Inr in simp)
      ultimately show ?thesis by (rule whole.more)
    qed
  qed
qed

lemma scheduler_pass_whole:
  assumes "evaluate_automation_workers (env n\<lparr>sv_run := plan_worker_run (wenv n)\<rparr>) (max limit 1) s = (r, s')"
  shows "whole (scheduler_pass wenv env limit) n (wp_enter (scheduler_pass wenv env limit) n s) s (isl r) s'"
proof (cases "sv_lock (env n)")
  case True
  with assms have "evaluate_tenants (env n\<lparr>sv_run := plan_worker_run (wenv n)\<rparr>) (nat (max limit 1)) (tenants_by_age s)
      (fresh_report True False) s = (r, s')"
    by (simp add: evaluate_automation_workers_def)
  from scheduler_pass_rest [where env = env and wenv = wenv and n = n, OF this] True show ?thesis by (simp add: scheduler_pass_def)
next
  case False
  with assms have "evaluate_tenants (env n\<lparr>sv_run := plan_worker_run (wenv n)\<rparr>) (nat (max limit 1)) []
      (fresh_report False True) s = (r, s')"
    by (simp add: evaluate_automation_workers_def)
  from scheduler_pass_rest [where env = env and wenv = wenv and n = n, OF this] False show ?thesis by (simp add: scheduler_pass_def)
qed

text \<open>
  What every step of a pass keeps, the data of a worker has at every moment, and when the passes
  end a waiting stop can return.
\<close>

locale periodic =
  fixes pass :: "('l, 'd) worker_pass" and inv :: "'d \<Rightarrow> bool"
  assumes advance_keeps: "inv x \<Longrightarrow> inv (snd (wp_advance pass n l x))"
    and ends_always: "passes_end pass"
begin

lemma serial_keeps: "serial pass d n p x \<Longrightarrow> inv d \<Longrightarrow> inv x"
  by (induction rule: serial.induct) (use advance_keeps in \<open>metis snd_conv\<close>)+

lemma worker_keeps:
  assumes "reachable (\<lambda>w. w = idle_worker d) (orderly_step pass) w" "inv d"
  shows "inv (wk_data w)"
  using worker_okD(2) [OF worker_system.reachable_inv [OF assms(1)]] serial_keeps assms(2) by blast

lemma worker_stops:
  assumes "reachable (\<lambda>w. w = idle_worker d) (orderly_step pass) w" "wk_stopping w \<noteq> []"
  shows "stops_within pass 1 w"
  using stop_completes [OF ends_always worker_system.reachable_inv [OF assms(1)] assms(2)] .

end

text \<open>The dispatcher: no tenant over its budget.\<close>

definition budgets_kept :: "db \<Rightarrow> bool" where
  "budgets_kept s \<longleftrightarrow> distinct (map tn_id (tenants s)) \<and>
    (\<forall>t \<in> set (tenants s). tn_tokens_used_this_month t \<le> tn_monthly_token_budget t)"

lemma run_keeps_budgets:
  assumes "budgets_kept s"
  shows "budgets_kept (fst (run_execution env eid wid tid input s))"
  using assms run_execution_budget [of s env eid wid tid input] run_execution_keeps(1) [of s env eid wid tid input]
  by (simp add: budgets_kept_def)

lemma visit_keeps_budgets:
  assumes "budgets_kept s" "visit (executor_env envs fresh created) policy now e (rep, s) = (rep', expired, s')"
  shows "budgets_kept s'"
proof (cases "judge now s e = Dispatch")
  case False
  with assms show ?thesis by (cases "judge now s e") (auto simp: visit_def)
next
  case True
  obtain x1 s1 where run: "de_run (executor_env envs fresh created) e s = (x1, s1)" by fastforce
  obtain r where "dispatch_one (executor_env envs fresh created) policy now e s = (r, expired, s')"
    using assms(2) True by (auto simp: visit_def split: prod.splits)
  with run have "apply_retry_policy_after_dispatch (fresh (ex_id e)) (created (ex_id e)) (ex_id e) policy now s1 = (r, s')"
    by (auto simp: dispatch_one_def executor_env_def split: prod.splits)
  from apply_retry_keeps(1) [OF this] have "tenants s' = tenants s1" .
  moreover have "budgets_kept s1" using run_keeps_budgets [OF assms(1)] run by (auto simp: executor_env_def)
  ultimately show ?thesis by (simp add: budgets_kept_def)
qed

lemma dispatcher_pass_ends: "passes_end (dispatcher_pass envs fresh created now limit)"
  unfolding passes_end_def
proof (intro allI)
  fix n :: nat and l :: "bool \<times> execution list \<times> dispatch_report" and s :: db
  obtain expired es rep where l: "l = (expired, es, rep)" by (cases l)
  obtain rep' exc s' where "dispatch_loop (executor_env (envs n) (fresh n) (created n)) (nat (max limit 1)) default_policy
      (now n) expired es rep s = (rep', exc, s')" by (metis surj_pair)
  from dispatcher_pass_rest [where envs = envs and fresh = fresh and created = created and now = now and n = n, OF this]
  show "\<exists>raised x'. whole (dispatcher_pass envs fresh created now limit) n l s raised x'" unfolding l by blast
qed

interpretation dispatcher_worker: periodic "dispatcher_pass envs fresh created now limit" budgets_kept
  for envs fresh created now limit
proof
  show "budgets_kept (snd (wp_advance (dispatcher_pass envs fresh created now limit) n l s))" if "budgets_kept s" for s n l
    using that by (auto simp: dispatcher_pass_def visit_keeps_budgets split: prod.splits list.splits)
qed (rule dispatcher_pass_ends)

lemma dispatcher_worker_keeps_budgets:
  assumes "reachable (\<lambda>w. w = idle_worker s) (orderly_step (dispatcher_pass envs fresh created now limit)) w"
    and "budgets_kept s"
  shows "budgets_kept (wk_data w)"
  using assms by (rule dispatcher_worker.worker_keeps)


text \<open>The scheduler: the tenants' rows, with their budgets and configurations, are left alone.\<close>

lemma evaluate_tenants_rows:
  assumes "sv_run env = plan_worker_run wenv"
  shows "tenants (snd (evaluate_tenants env limit ts rep s)) = tenants s"
proof (induction ts arbitrary: rep s)
  case (Cons t ts)
  obtain rep3 s3 where one: "run_tenant env (tn_id t) (case get_worker_config (tn_id t) s of Inr c \<Rightarrow> wc_max_plans_per_run c)
      (rep\<lparr>sr_tenants_scanned := sr_tenants_scanned rep + 1, sr_tenants_enabled := sr_tenants_enabled rep + 1\<rparr>) s = (rep3, s3)"
    by fastforce
  from plan_worker.run_tenant_effect [OF assms one] have "tenants s3 = tenants s" by blast
  with one Cons show ?case by (auto simp: Let_def split: sum.split)
qed simp

lemma scheduler_pass_rows: "tenants (snd (wp_advance (scheduler_pass wenv env limit) n l s)) = tenants s"
proof -
  obtain ts rep where l: "l = (ts, rep)" by fastforce
  have "tenants (snd (evaluate_tenants (env n\<lparr>sv_run := plan_worker_run (wenv n)\<rparr>) (nat (max limit 1)) [t] rep s)) =
      tenants s" for t
    by (rule evaluate_tenants_rows [of _ "wenv n"]) simp
  then show ?thesis
    unfolding l scheduler_pass_def
    by (auto simp del: evaluate_tenants.simps split: list.split sum.split prod.split) (metis snd_conv)+
qed

lemma scheduler_pass_ends: "passes_end (scheduler_pass wenv env limit)"
  unfolding passes_end_def
proof (intro allI)
  fix n :: nat and l :: "tenant list \<times> scheduler_report" and s :: db
  obtain ts rep where l: "l = (ts, rep)" by fastforce
  obtain r s' where "evaluate_tenants (env n\<lparr>sv_run := plan_worker_run (wenv n)\<rparr>) (nat (max limit 1)) ts rep s = (r, s')"
    by fastforce
  from scheduler_pass_rest [where env = env and wenv = wenv and n = n, OF this] show "\<exists>raised x'. whole (scheduler_pass wenv env limit) n l s raised x'"
    unfolding l by blast
qed

interpretation scheduler_worker: periodic "scheduler_pass wenv env limit" "\<lambda>s. tenants s = rows"
  for wenv env limit rows
  by unfold_locales (simp_all add: scheduler_pass_rows scheduler_pass_ends)

text \<open>The alert evaluator: a pass adds delivery rows and changes nothing else.\<close>

definition without_deliveries :: "db \<Rightarrow> db" where
  "without_deliveries s = s\<lparr>deliveries := []\<rparr>"

lemma deliver_frame:
  assumes "deliver_dispatch_alerts net fn st dw tid window enforce s tf = (r, s', tf')"
  shows "without_deliveries s' = without_deliveries s"
proof (cases r)
  case (Inl err)
  with assms have "s' = s" by (auto simp: deliver_dispatch_alerts_def split: sum.splits prod.splits if_splits)
  then show ?thesis by simp
next
  case (Inr rep)
  with assms have "deliver_dispatch_alerts net fn st dw tid window enforce s tf = (Inr rep, s', tf')" by simp
  then show ?thesis
  proof (cases rule: deliver_dispatch_alerts_InrD)
    case (sent pv p)
    from deliver_routes_items [OF sent(4)] show ?thesis by (auto simp: without_deliveries_def)
  qed simp
qed

lemma evaluate_alerts_frame:
  "without_deliveries (fst (snd (evaluate_tenant_alerts net fn st dw window tids rep s tf))) = without_deliveries s"
proof (induction tids arbitrary: rep s tf)
  case (Cons tid tids)
  obtain q s1 tf1 where d: "deliver_dispatch_alerts net fn st (dw tid) tid window True s tf = (q, s1, tf1)"
    by (metis surj_pair)
  with deliver_frame [OF d] Cons show ?case by (auto split: sum.split)
qed simp

lemma alert_pass_frame:
  "without_deliveries (fst (snd (wp_advance (alert_pass net fn st dw limit window) n l x))) = without_deliveries (fst x)"
proof -
  obtain tids rep where l: "l = (tids, rep)" by fastforce
  note frame = evaluate_alerts_frame [of net fn st "dw n" "max window 1" _ rep "fst x" "snd x"]
  show ?thesis
  proof (cases tids)
    case (Cons tid tids')
    obtain r y where one: "evaluate_tenant_alerts net fn st (dw n) (max window 1) [tid] rep (fst x) (snd x) = (r, y)"
      by (metis surj_pair)
    then have "snd (wp_advance (alert_pass net fn st dw limit window) n l x) = y"
      by (cases r) (simp_all add: l Cons alert_pass_def del: evaluate_tenant_alerts.simps)
    with frame [of "[tid]"] one show ?thesis by simp
  qed (simp add: l alert_pass_def)
qed

lemma alert_pass_ends: "passes_end (alert_pass net fn st dw limit window)"
  unfolding passes_end_def
proof (intro allI)
  fix n :: nat and l :: "uuid list \<times> evaluation_report" and x :: "db \<times> traffic"
  obtain tids rep where l: "l = (tids, rep)" by fastforce
  obtain r y where "evaluate_tenant_alerts net fn st (dw n) (max window 1) tids rep (fst x) (snd x) = (r, y)"
    by (metis surj_pair)
  from alert_pass_rest [where dw = dw and n = n, OF this] show "\<exists>raised x'. whole (alert_pass net fn st dw limit window) n l x raised x'"
    unfolding l by blast
qed

interpretation alert_worker: periodic "alert_pass net fn st dw limit window" "\<lambda>x. without_deliveries (fst x) = rest"
  for net fn st dw limit window rest
  by unfold_locales (simp_all add: alert_pass_frame alert_pass_ends)

end
