(* ===== verification/Middleware.thy ===== *)
theory Middleware
  imports Auth
begin

text \<open>
  The middleware in front of the endpoints: the tenant context, \<open>app/middleware/tenant.py\<close>, and
  the sliding-window rate limit, \<open>app/middleware/rate_limit.py\<close>, in the order \<open>app/main.py\<close> gives
  them (the middleware added last runs first). The clock of the limiter is monotonic, in seconds,
  and has nothing to do with the instants of the database.
\<close>

section \<open>The tenant context\<close>

record http_request =
  rq_method :: string
  rq_path :: string
  rq_headers :: "(string, string) dict"
  rq_client :: "string option"

definition PUBLIC_PATHS :: "string list" where
  "PUBLIC_PATHS = [''/health'', ''/ready'', ''/docs'', ''/openapi.json'', ''/redoc'',
    ''/api/v1/auth/register'', ''/api/v1/auth/login'', ''/api/v1/auth/refresh'']"

definition is_public :: "string \<Rightarrow> bool" where
  "is_public path \<longleftrightarrow> path \<in> set PUBLIC_PATHS \<or> starts_with ''/docs'' path \<or> starts_with ''/redoc'' path"

definition header_or :: "string \<Rightarrow> string \<Rightarrow> http_request \<Rightarrow> string" where
  "header_or name dflt r = (case dget name (rq_headers r) of None \<Rightarrow> dflt | Some v \<Rightarrow> v)"

text \<open>
  The claims \<open>tenant_id\<close> and \<open>sub\<close> the middleware puts into the state of the request; the header
  names of a request are in lower case. A \<open>sub\<close> claim that is no string is an \<open>AttributeError\<close>.
\<close>

definition tenant_context ::
  "crypto \<Rightarrow> instant \<Rightarrow> http_request \<Rightarrow> db \<Rightarrow> http_error + (json \<times> json) option" where
  "tenant_context cy now r s =
    (if rq_method r = ''OPTIONS'' \<or> is_public (rq_path r) \<or> starts_with ''/ws/'' (rq_path r) then Inr None
     else let header = header_or ''authorization'' [] r in
     if \<not> starts_with ''Bearer '' header then Inr None
     else case cy_decode cy now (drop 7 header) of
       None \<Rightarrow> Inr None
     | Some p \<Rightarrow>
        if jget ''type'' p \<noteq> JStr ''access'' then Inr None
        else if \<not> (truthy (jget ''sub'' p) \<and> truthy (jget ''tenant_id'' p)) then Inr None
        else case jget ''sub'' p of
          JStr x \<Rightarrow>
            (case parse_uuid x of
              None \<Rightarrow> Inr None
            | Some uid \<Rightarrow>
               (case user_by_id uid s of
                 Some u \<Rightarrow> if us_is_active u then Inr (Some (jget ''tenant_id'' p, jget ''sub'' p)) else Inr None
               | None \<Rightarrow> Inr None))
        | v \<Rightarrow> Inl (HTTPException 500 ''object has no attribute replace''))"

section \<open>The rate limiter\<close>

record limiter =
  lm_max_requests :: int
  lm_window_seconds :: int
  lm_trust_forwarded :: bool

definition default_limiter :: limiter where
  "default_limiter = \<lparr>lm_max_requests = 100, lm_window_seconds = 60, lm_trust_forwarded = False\<rparr>"

definition client_ip :: "limiter \<Rightarrow> http_request \<Rightarrow> string" where
  "client_ip lm r =
    (let forwarded = header_or ''x-forwarded-for'' [] r in
     if lm_trust_forwarded lm \<and> forwarded \<noteq> [] then py_strip (takeWhile (\<lambda>c. c \<noteq> CHR '','') forwarded)
     else (case rq_client r of None \<Rightarrow> ''unknown'' | Some host \<Rightarrow> host))"

definition get_key :: "limiter \<Rightarrow> http_request \<Rightarrow> json option \<Rightarrow> string" where
  "get_key lm r tenant =
    (case tenant of
      Some t \<Rightarrow> if truthy t then ''tenant:'' @ py_str t else ''ip:'' @ client_ip lm r
    | None \<Rightarrow> ''ip:'' @ client_ip lm r)"

text \<open>\<open>_request_log\<close>, a \<open>defaultdict(list)\<close>: reading a key that is absent enters an empty list.\<close>

type_synonym request_log = "(string, rat list) dict"

definition log_of :: "string \<Rightarrow> request_log \<Rightarrow> rat list" where
  "log_of key rl = (case dget key rl of None \<Rightarrow> [] | Some ts \<Rightarrow> ts)"

definition touch :: "string \<Rightarrow> request_log \<Rightarrow> request_log" where
  "touch key rl = (if dget key rl = None then dset key [] rl else rl)"

fun first_within :: "rat \<Rightarrow> nat \<Rightarrow> rat list \<Rightarrow> nat" where
  "first_within cutoff i [] = i"
| "first_within cutoff i (t # ts) = (if t \<ge> cutoff then i else first_within cutoff (Suc i) ts)"

definition cleanup :: "limiter \<Rightarrow> string \<Rightarrow> rat \<Rightarrow> request_log \<Rightarrow> request_log" where
  "cleanup lm key now rl =
    (let cutoff = now - of_int (lm_window_seconds lm);
         timestamps = log_of key rl;
         trimmed = drop (first_within cutoff 0 timestamps) timestamps in
     if trimmed \<noteq> [] then dset key trimmed rl else dpop key rl)"

text \<open>\<open>int()\<close> of a float.\<close>

definition py_trunc :: "rat \<Rightarrow> int" where
  "py_trunc x = (if x < 0 then - \<lfloor>- x\<rfloor> else \<lfloor>x\<rfloor>)"

datatype admission = Unlimited | Admitted string | TooMany int | IndexError

definition limited :: "http_request \<Rightarrow> bool" where
  "limited r \<longleftrightarrow> starts_with ''/api/'' (rq_path r) \<and> rq_method r \<noteq> ''OPTIONS''"

text \<open>The part of \<open>dispatch\<close> before the endpoint is called, and the headers it adds afterwards.\<close>

definition admit :: "limiter \<Rightarrow> rat \<Rightarrow> http_request \<Rightarrow> json option \<Rightarrow> request_log \<Rightarrow> admission \<times> request_log" where
  "admit lm now r tenant rl =
    (if \<not> limited r then (Unlimited, rl)
     else let key = get_key lm r tenant;
              log1 = touch key (cleanup lm key now rl);
              ts = log_of key log1 in
       if int (length ts) \<ge> lm_max_requests lm then
         (case ts of
           [] \<Rightarrow> (IndexError, log1)
         | t # _ \<Rightarrow> (TooMany (max 1 (py_trunc (of_int (lm_window_seconds lm) - (now - t)))), log1))
       else (Admitted key, dset key (ts @ [now]) log1))"

definition limit_headers :: "limiter \<Rightarrow> string \<Rightarrow> request_log \<Rightarrow> (string \<times> string) list \<times> request_log" where
  "limit_headers lm key rl =
    (let log1 = touch key rl; remaining = lm_max_requests lm - int (length (log_of key log1)) in
     ([(''X-RateLimit-Limit'', show_int (lm_max_requests lm)),
       (''X-RateLimit-Remaining'', show_int (max 0 remaining)),
       (''X-RateLimit-Reset'', show_int (lm_window_seconds lm))], log1))"

text \<open>
  A request on its way to the endpoint: the tenant middleware is added last and so runs first, and
  the limiter sees the tenant it found.
\<close>

definition enter :: "crypto \<Rightarrow> instant \<Rightarrow> limiter \<Rightarrow> rat \<Rightarrow> http_request \<Rightarrow> db \<Rightarrow> request_log \<Rightarrow>
    (http_error + admission) \<times> request_log" where
  "enter cy now lm clock r s rl =
    (case tenant_context cy now r s of
      Inl err \<Rightarrow> (Inl err, rl)
    | Inr ctx \<Rightarrow> (case admit lm clock r (map_option fst ctx) rl of (v, rl') \<Rightarrow> (Inr v, rl')))"

section \<open>The abstract limiter\<close>

text \<open>
  What the limiter promises: it remembers every request it ever admitted, and admits a request
  when fewer than the maximum of them, with the same key, lie in the window that ends now.
\<close>

type_synonym history = "(string \<times> rat) list"

definition times_of :: "string \<Rightarrow> history \<Rightarrow> rat list" where
  "times_of key h = map snd (filter (\<lambda>p. fst p = key) h)"

definition in_window :: "limiter \<Rightarrow> string \<Rightarrow> rat \<Rightarrow> history \<Rightarrow> rat list" where
  "in_window lm key now h = filter (\<lambda>t. now - of_int (lm_window_seconds lm) \<le> t) (times_of key h)"

definition window_admit :: "limiter \<Rightarrow> rat \<Rightarrow> http_request \<Rightarrow> json option \<Rightarrow> history \<Rightarrow> admission \<times> history" where
  "window_admit lm now r tenant h =
    (if \<not> limited r then (Unlimited, h)
     else let key = get_key lm r tenant; recent = in_window lm key now h in
       if int (length recent) \<ge> lm_max_requests lm
       then (TooMany (max 1 (py_trunc (of_int (lm_window_seconds lm) - (now - hd recent)))), h)
       else (Admitted key, h @ [(key, now)]))"

type_synonym arrival = "rat \<times> http_request \<times> json option"

definition limiter_step :: "limiter \<Rightarrow> request_log \<Rightarrow> arrival \<Rightarrow> admission \<times> request_log" where
  "limiter_step lm rl = (\<lambda>(now, r, tenant). admit lm now r tenant rl)"

definition window_step :: "limiter \<Rightarrow> history \<Rightarrow> arrival \<Rightarrow> admission \<times> history" where
  "window_step lm h = (\<lambda>(now, r, tenant). window_admit lm now r tenant h)"

text \<open>The instants at which the requests of a key were admitted.\<close>

definition admitted_at :: "string \<Rightarrow> arrival list \<Rightarrow> admission list \<Rightarrow> rat list" where
  "admitted_at key as vs = map (\<lambda>p. fst (fst p)) (filter (\<lambda>p. snd p = Admitted key) (zip as vs))"

section \<open>Refinement\<close>

lemma first_within_shift: "first_within c (Suc i) ts = Suc (first_within c i ts)"
  by (induction ts arbitrary: i) auto

lemma drop_first_within: "drop (first_within c 0 ts) ts = dropWhile (\<lambda>t. t < c) ts"
  by (induction ts) (auto simp: first_within_shift)

lemma dropWhile_sorted: "sorted ts \<Longrightarrow> dropWhile (\<lambda>t. t < (c::rat)) ts = filter (\<lambda>t. c \<le> t) ts"
  by (induction ts) (auto simp: filter_id_conv intro: filter_True [symmetric] order_trans)

lemma log_of_dset [simp]: "log_of k (dset j v rl) = (if k = j then v else log_of k rl)"
  by (simp add: log_of_def dget_dset)

lemma log_of_dpop [simp]: "log_of k (dpop j rl) = (if k = j then [] else log_of k rl)"
  by (simp add: log_of_def dget_dpop)

lemma log_of_touch [simp]: "log_of k (touch j rl) = log_of k rl"
  by (auto simp: touch_def log_of_def dget_dset)

lemma log_of_cleanup:
  "log_of k (cleanup lm key now rl) =
    (if k = key then dropWhile (\<lambda>t. t < now - of_int (lm_window_seconds lm)) (log_of key rl) else log_of k rl)"
  by (auto simp: cleanup_def Let_def drop_first_within [symmetric])

text \<open>
  The log of a key is the history of the key from some cutoff on, and the cutoff lies before the
  window of any later request.
\<close>

definition follows :: "limiter \<Rightarrow> rat \<Rightarrow> request_log \<Rightarrow> history \<Rightarrow> bool" where
  "follows lm now rl h \<longleftrightarrow> sorted (map snd h) \<and> (\<forall>p \<in> set h. snd p \<le> now) \<and>
    (\<forall>key. \<exists>c \<le> now - of_int (lm_window_seconds lm). log_of key rl = filter (\<lambda>t. c \<le> t) (times_of key h))"

lemma sorted_times_of: "sorted (map snd h) \<Longrightarrow> sorted (times_of key h)"
  unfolding times_of_def by (rule sorted_filter)

lemma follows_later: "follows lm now rl h \<Longrightarrow> now \<le> now' \<Longrightarrow> follows lm now' rl h"
  unfolding follows_def by (meson diff_right_mono order_trans)

lemma follows_cleanup:
  assumes "follows lm now rl h"
  shows "log_of key (cleanup lm key now rl) = in_window lm key now h"
proof -
  let ?w = "now - of_int (lm_window_seconds lm)"
  obtain c where c: "c \<le> ?w" "log_of key rl = filter (\<lambda>t. c \<le> t) (times_of key h)"
    using assms unfolding follows_def by blast
  have "sorted (times_of key h)"
    using assms sorted_times_of unfolding follows_def by blast
  then have "sorted (filter (\<lambda>t. c \<le> t) (times_of key h))"
    using sorted_filter [of "\<lambda>x. x"] by simp
  then have "log_of key (cleanup lm key now rl) = filter (\<lambda>t. ?w \<le> t) (filter (\<lambda>t. c \<le> t) (times_of key h))"
    by (simp only: log_of_cleanup c(2) dropWhile_sorted) simp
  also have "\<dots> = in_window lm key now h"
    using c(1) by (auto simp: in_window_def intro: filter_cong)
  finally show ?thesis .
qed

lemma times_of_snoc: "times_of k (h @ [(key, now)]) = times_of k h @ (if k = key then [now] else [])"
  by (simp add: times_of_def)

lemma admit_refines:
  assumes "follows lm now rl h" "1 \<le> lm_max_requests lm" "0 \<le> lm_window_seconds lm"
    and "admit lm now r tenant rl = (v, rl')" "window_admit lm now r tenant h = (v', h')"
  shows "v = v' \<and> follows lm now rl' h'"
proof (cases "limited r")
  case False
  with assms show ?thesis by (simp add: admit_def window_admit_def)
next
  case True
  let ?key = "get_key lm r tenant" and ?w = "now - of_int (lm_window_seconds lm)"
  let ?log1 = "touch ?key (cleanup lm ?key now rl)"
  have recent: "log_of ?key ?log1 = in_window lm ?key now h"
    by (simp add: follows_cleanup [OF assms(1)])
  have other: "log_of k ?log1 = log_of k rl" if "k \<noteq> ?key" for k
    using that by (simp add: log_of_cleanup)
  have log1: "\<exists>c \<le> ?w. log_of k ?log1 = filter (\<lambda>t. c \<le> t) (times_of k h)" for k
    using assms(1) recent other [of k] unfolding follows_def in_window_def by (cases "k = ?key") auto
  show ?thesis
  proof (cases "int (length (in_window lm ?key now h)) \<ge> lm_max_requests lm")
    case full: True
    then obtain t ts where "in_window lm ?key now h = t # ts"
      using assms(2) by (cases "in_window lm ?key now h") auto
    with full True recent assms(4,5) have "v = v'" "rl' = ?log1" "h' = h"
      by (auto simp: admit_def window_admit_def Let_def)
    with log1 assms(1) show ?thesis unfolding follows_def by simp
  next
    case False
    with True recent assms(4,5) have v: "v = v'" and rl': "rl' = dset ?key (in_window lm ?key now h @ [now]) ?log1"
      and h': "h' = h @ [(?key, now)]"
      by (auto simp: admit_def window_admit_def Let_def)
    have "\<exists>c \<le> ?w. log_of k rl' = filter (\<lambda>t. c \<le> t) (times_of k h')" for k
    proof (cases "k = ?key")
      case True
      then show ?thesis
        using assms(3) by (intro exI [of _ ?w]) (simp add: rl' h' times_of_snoc in_window_def)
    next
      case False
      then show ?thesis using log1 [of k] by (simp add: rl' h' times_of_snoc)
    qed
    moreover have "sorted (map snd h')" "\<forall>p \<in> set h'. snd p \<le> now"
      using assms(1) unfolding follows_def h' by (auto simp: sorted_append)
    ultimately show ?thesis using v unfolding follows_def by blast
  qed
qed

interpretation limiter: step_refinement "limiter_step lm" "window_step lm" fst
    "\<lambda>now rl h. 1 \<le> lm_max_requests lm \<and> 0 \<le> lm_window_seconds lm \<and> follows lm now rl h" for lm
proof
  fix a :: arrival and c s c' s' v v'
  assume rel: "1 \<le> lm_max_requests lm \<and> 0 \<le> lm_window_seconds lm \<and> follows lm (fst a) c s"
    and step: "limiter_step lm c a = (v, c')" "window_step lm s a = (v', s')"
  obtain now r tenant where "a = (now, r, tenant)" by (cases a)
  with rel step admit_refines [of lm now c s r tenant]
  show "v = v' \<and> 1 \<le> lm_max_requests lm \<and> 0 \<le> lm_window_seconds lm \<and> follows lm (fst a) c' s'"
    by (simp add: limiter_step_def window_step_def)
next
  fix t t' :: rat and c s
  assume "1 \<le> lm_max_requests lm \<and> 0 \<le> lm_window_seconds lm \<and> follows lm t c s" "t \<le> t'"
  then show "1 \<le> lm_max_requests lm \<and> 0 \<le> lm_window_seconds lm \<and> follows lm t' c s"
    using follows_later by blast
qed

section \<open>Windows\<close>

definition windows_bounded :: "limiter \<Rightarrow> rat \<Rightarrow> history \<Rightarrow> bool" where
  "windows_bounded lm now h \<longleftrightarrow> (\<forall>p \<in> set h. snd p \<le> now) \<and>
    (\<forall>key. windows_within (lm_max_requests lm) (of_int (lm_window_seconds lm)) (times_of key h))"

lemma windows_bounded_step:
  assumes "windows_bounded lm now h" "window_admit lm now r tenant h = (v, h')"
  shows "windows_bounded lm now h'"
proof (cases "\<exists>key. v = Admitted key")
  case False
  with assms show ?thesis by (auto simp: window_admit_def Let_def split: if_splits)
next
  case True
  then obtain key where h': "h' = h @ [(key, now)]" and v: "v = Admitted key"
    and few: "int (length (in_window lm key now h)) < lm_max_requests lm"
    using assms(2) by (auto simp: window_admit_def Let_def split: if_splits)
  have "windows_within (lm_max_requests lm) (of_int (lm_window_seconds lm)) (times_of k h')" for k
  proof (cases "k = key")
    case True
    have "\<forall>t \<in> set (times_of key h). t \<le> now"
      using assms(1) unfolding windows_bounded_def by (auto simp: times_of_def)
    with assms(1) few True show ?thesis
      unfolding windows_bounded_def by (simp add: h' times_of_snoc windows_within_snoc in_window_def)
  next
    case False
    with assms(1) show ?thesis unfolding windows_bounded_def by (simp add: h' times_of_snoc)
  qed
  with assms(1) show ?thesis unfolding windows_bounded_def by (auto simp: h')
qed

lemma window_run_times:
  "times_of key (snd (run_steps (window_step lm) as h)) =
    times_of key h @ admitted_at key as (fst (run_steps (window_step lm) as h))"
proof (induction as arbitrary: h)
  case (Cons a as)
  obtain now r tenant where a: "a = (now, r, tenant)" by (cases a)
  obtain v h1 where w: "window_admit lm now r tenant h = (v, h1)"
    by (cases "window_admit lm now r tenant h")
  then have "times_of key h1 = times_of key h @ (if v = Admitted key then [now] else [])"
    by (auto simp: window_admit_def Let_def times_of_snoc split: if_splits)
  with Cons [of h1] show ?case
    by (simp add: a w window_step_def case_prod_beta admitted_at_def)
qed (simp add: admitted_at_def)

lemma windows_bounded_run:
  "sorted (t # map fst as) \<Longrightarrow> windows_bounded lm t h \<Longrightarrow>
    \<exists>t'. windows_bounded lm t' (snd (run_steps (window_step lm) as h))"
proof (induction as arbitrary: t h)
  case (Cons a as)
  obtain now r tenant where a: "a = (now, r, tenant)" by (cases a)
  obtain v h1 where w: "window_admit lm now r tenant h = (v, h1)"
    by (cases "window_admit lm now r tenant h")
  have "windows_bounded lm now h"
    using Cons.prems a unfolding windows_bounded_def by fastforce
  then have "windows_bounded lm now h1" by (rule windows_bounded_step [OF _ w])
  from Cons.IH [OF _ this] Cons.prems(1) show ?case
    by (auto simp: a w window_step_def case_prod_beta)
qed auto

section \<open>Properties\<close>

text \<open>
  C19: the rate limiter is a sliding window. Whatever requests arrive, in the order of the clock,
  the limiter, which forgets old requests and drops idle keys, answers each of them as the abstract
  limiter that remembers everything; and no interval of the length of the window holds more
  admitted requests of a key than the maximum.
\<close>

theorem limiter_is_sliding_window:
  assumes "1 \<le> lm_max_requests lm" "0 \<le> lm_window_seconds lm" "sorted (map fst as)"
  shows "fst (run_steps (limiter_step lm) as []) = fst (run_steps (window_step lm) as []) \<and>
    int (count_within a (of_int (lm_window_seconds lm)) (admitted_at key as (fst (run_steps (limiter_step lm) as []))))
      \<le> lm_max_requests lm"
proof (cases as)
  case Nil
  with assms(1) show ?thesis by (simp add: count_within_def admitted_at_def)
next
  case (Cons b bs)
  then have sorted: "sorted (fst b # map fst as)" using assms(3) by auto
  have "follows lm (fst b) [] []" unfolding follows_def by (auto simp: log_of_def times_of_def)
  with limiter.run_refines [OF sorted] assms(1,2)
  have same: "fst (run_steps (limiter_step lm) as []) = fst (run_steps (window_step lm) as [])" by blast
  have "windows_bounded lm (fst b) []"
    using assms(1) by (simp add: windows_bounded_def times_of_def windows_within_Nil)
  from windows_bounded_run [OF sorted this] obtain t where
    "windows_bounded lm t (snd (run_steps (window_step lm) as []))" by blast
  moreover have "times_of key (snd (run_steps (window_step lm) as [])) =
      admitted_at key as (fst (run_steps (window_step lm) as []))"
    using window_run_times [of key lm as "[]"] by (simp add: times_of_def)
  ultimately
  have "int (count_within a (of_int (lm_window_seconds lm)) (admitted_at key as (fst (run_steps (window_step lm) as []))))
      \<le> lm_max_requests lm"
    unfolding windows_bounded_def windows_within_def by metis
  with same show ?thesis by simp
qed

definition sample_arrival :: "rat \<Rightarrow> arrival" where
  "sample_arrival t = (t, \<lparr>rq_method = ''GET'', rq_path = ''/api/v1/tools'', rq_headers = [],
    rq_client = Some ''10.0.0.1''\<rparr>, None)"

definition sample_limiter :: limiter where
  "sample_limiter = \<lparr>lm_max_requests = 2, lm_window_seconds = 60, lm_trust_forwarded = False\<rparr>"

theorem limiter_is_sliding_window_witness:
  "fst (run_steps (limiter_step sample_limiter) (map sample_arrival [0, 1, 5, 61]) []) =
      [Admitted ''ip:10.0.0.1'', Admitted ''ip:10.0.0.1'', TooMany 55, Admitted ''ip:10.0.0.1''] \<and>
    count_within 1 60 (admitted_at ''ip:10.0.0.1'' (map sample_arrival [0, 1, 5, 61])
      (fst (run_steps (limiter_step sample_limiter) (map sample_arrival [0, 1, 5, 61]) []))) \<le> 2"
proof -
  have s: "sorted (map fst (map sample_arrival [0, 1, 5, 61]))" by (simp add: sample_arrival_def)
  have run: "fst (run_steps (window_step sample_limiter) (map sample_arrival [0, 1, 5, 61]) []) =
      [Admitted ''ip:10.0.0.1'', Admitted ''ip:10.0.0.1'', TooMany 55, Admitted ''ip:10.0.0.1'']"
    by code_simp
  have lm: "1 \<le> lm_max_requests sample_limiter" "0 \<le> lm_window_seconds sample_limiter"
    by (simp_all add: sample_limiter_def)
  have two: "lm_max_requests sample_limiter = 2" "of_int (lm_window_seconds sample_limiter) = (60 :: rat)"
    by (simp_all add: sample_limiter_def)
  from limiter_is_sliding_window [OF lm s, of 1 "''ip:10.0.0.1''"]
  have "fst (run_steps (limiter_step sample_limiter) (map sample_arrival [0, 1, 5, 61]) []) =
      fst (run_steps (window_step sample_limiter) (map sample_arrival [0, 1, 5, 61]) [])"
    "int (count_within 1 60 (admitted_at ''ip:10.0.0.1'' (map sample_arrival [0, 1, 5, 61])
      (fst (run_steps (limiter_step sample_limiter) (map sample_arrival [0, 1, 5, 61]) [])))) \<le> 2"
    unfolding two by blast+
  then show ?thesis unfolding run by linarith
qed

end
