(* ===== verification/Deploy.thy ===== *)
theory Deploy
  imports SafeHttp
begin

text \<open>
  The tooling around a release: the check of the deployment's configuration,
  \<open>scripts/validate-deploy-config.py\<close>, the check of a release's versions,
  \<open>scripts/validate-release.py\<close>, and the lines of the log, \<open>app/core/logging.py\<close>. An environment
  is a dictionary of texts; what a script prints is left out, its errors and its exit code are
  values.
\<close>

section \<open>The configuration of a deployment\<close>

type_synonym environ = "(string, string) dict"

definition getenv :: "string \<Rightarrow> environ \<Rightarrow> string" where
  "getenv key env = (case dget key env of None \<Rightarrow> [] | Some v \<Rightarrow> v)"

definition REQUIRED_SECRETS :: "string list" where
  "REQUIRED_SECRETS = [''DEPLOY_HOST'', ''DEPLOY_USER'', ''DEPLOY_PATH'', ''DEPLOY_SSH_KEY'', ''DB_PASSWORD'',
    ''JWT_SECRET'', ''CREDENTIAL_ENCRYPTION_KEY'']"

definition REQUIRED_VARS :: "string list" where
  "REQUIRED_VARS = [''CORS_ORIGINS'']"

definition missing_settings :: "environ \<Rightarrow> string list" where
  "missing_settings env =
    map (\<lambda>k. ''secret:'' @ k) (filter (\<lambda>k. py_strip (getenv k env) = []) REQUIRED_SECRETS) @
    map (\<lambda>k. ''var:'' @ k) (filter (\<lambda>k. py_strip (getenv k env) = []) REQUIRED_VARS)"

definition report_if :: "bool \<Rightarrow> string \<Rightarrow> string list" where
  "report_if b msg = (if b then [msg] else [])"

definition secret_errors :: "environ \<Rightarrow> string list" where
  "secret_errors env =
    (let jwt = getenv ''JWT_SECRET'' env; db = getenv ''DB_PASSWORD'' env;
         key = getenv ''CREDENTIAL_ENCRYPTION_KEY'' env in
     report_if (jwt \<noteq> [] \<and> (length jwt < 32 \<or>
         jwt \<in> {''change-me-in-production-use-256-bit-random-key'', ''dev-secret-change-in-production''}))
       ''JWT_SECRET must be a non-placeholder value with at least 32 characters'' @
     report_if (db \<noteq> [] \<and> (length db < 16 \<or> py_lower db \<in> {''password'', ''localpassword'', ''changeme''}))
       ''DB_PASSWORD must be a non-placeholder value with at least 16 characters'' @
     (if key = [] then []
      else report_if (length key < 32 \<or> key \<in> {''change-me-use-a-separate-256-bit-random-key'',
          ''dev-only-credential-encryption-key-do-not-use-in-prod''})
          ''CREDENTIAL_ENCRYPTION_KEY must be a non-placeholder value with at least 32 characters'' @
        report_if (jwt \<noteq> [] \<and> key = jwt) ''CREDENTIAL_ENCRYPTION_KEY must differ from JWT_SECRET''))"

text \<open>The loop over the origins stops at the first bad one; \<open>None\<close> is the \<open>ValueError\<close> of \<open>urlparse\<close>.\<close>

definition https_url :: "(string \<Rightarrow> bool) \<Rightarrow> string \<Rightarrow> bool option" where
  "https_url bracketed u =
    map_option (\<lambda>p. pu_scheme p = ''https'' \<and> pu_netloc p \<noteq> []) (urlparse bracketed u)"

fun origin_errors :: "(string \<Rightarrow> bool) \<Rightarrow> string list \<Rightarrow> string list option" where
  "origin_errors bracketed [] = Some []"
| "origin_errors bracketed (u # us) =
    (case https_url bracketed u of
      None \<Rightarrow> None
    | Some ok \<Rightarrow>
       if u = ''*'' \<or> \<not> ok then Some [''CORS_ORIGINS must contain explicit https origins only'']
       else origin_errors bracketed us)"

definition deploy_origins :: "environ \<Rightarrow> string list" where
  "deploy_origins env = filter (\<lambda>x. x \<noteq> []) (map py_strip (py_split (CHR '','') (getenv ''CORS_ORIGINS'' env)))"

definition api_url_errors :: "(string \<Rightarrow> bool) \<Rightarrow> environ \<Rightarrow> string list option" where
  "api_url_errors bracketed env =
    (let u = py_strip (getenv ''VITE_API_URL'' env) in
     if u = [] then Some []
     else map_option (\<lambda>ok. report_if (\<not> ok) ''VITE_API_URL must be an https URL when set'') (https_url bracketed u))"

definition or_default :: "string \<Rightarrow> string \<Rightarrow> string" where
  "or_default v d = (if v = [] then d else v)"

definition log_errors :: "environ \<Rightarrow> string list" where
  "log_errors env =
    report_if (or_default (getenv ''LOG_FORMAT'' env) ''json'' \<notin> {''json'', ''text''}) ''LOG_FORMAT must be json or text'' @
    report_if (py_upper (or_default (getenv ''LOG_LEVEL'' env) ''INFO'') \<notin>
        {''DEBUG'', ''INFO'', ''WARNING'', ''ERROR'', ''CRITICAL''}) ''LOG_LEVEL is invalid''"

text \<open>The errors of \<open>main\<close>, whose exit code is 0 when there are none.\<close>

definition validate_deploy_config :: "(string \<Rightarrow> bool) \<Rightarrow> environ \<Rightarrow> string list option" where
  "validate_deploy_config bracketed env =
    (case origin_errors bracketed (deploy_origins env) of
      None \<Rightarrow> None
    | Some origins \<Rightarrow>
       (case api_url_errors bracketed env of
         None \<Rightarrow> None
       | Some api \<Rightarrow>
          Some (report_if (missing_settings env \<noteq> []) ''missing required configuration'' @
            secret_errors env @ origins @ api @ log_errors env)))"

text \<open>The settings the deployed application reads from the same environment.\<close>

definition deployed_settings :: "string \<Rightarrow> environ \<Rightarrow> settings" where
  "deployed_settings app_env env =
    \<lparr>st_jwt_secret = getenv ''JWT_SECRET'' env,
     st_credential_encryption_key = getenv ''CREDENTIAL_ENCRYPTION_KEY'' env,
     st_app_env = app_env, st_cors_origins = getenv ''CORS_ORIGINS'' env\<rparr>"

section \<open>The versions of a release\<close>

text \<open>The three versions, the tag and the text of the changelog; \<open>Inl\<close> is what the script reports.\<close>

definition normalized_tag :: "string \<Rightarrow> string" where
  "normalized_tag tag = (if starts_with ''v'' tag then tl tag else tag)"

definition validate_release :: "string \<Rightarrow> string \<Rightarrow> string \<Rightarrow> string option \<Rightarrow> string \<Rightarrow> string + string" where
  "validate_release backend frontend cli tag changelog =
    (if card {backend, frontend, cli} \<noteq> 1 then
       Inl (''Version mismatch: backend='' @ backend @ '', frontend='' @ frontend @ '', cli='' @ cli)
     else if tag \<noteq> None \<and> tag \<noteq> Some [] \<and> normalized_tag (the tag) \<noteq> backend then
       Inl (''Tag version mismatch: tag='' @ the tag @ '', expected=v'' @ backend)
     else if \<not> occurs_in (''## ['' @ backend @ '']'') changelog then
       Inl (''CHANGELOG.md is missing a section for version '' @ backend)
     else Inr backend)"

section \<open>A line of the log\<close>

text \<open>
  \<open>JsonFormatter.format\<close>: the fields every line has, the attributes of the record on the list, in
  the order of the code, and the text of the exception.
\<close>

record log_record =
  lr_level :: string
  lr_name :: string
  lr_message :: string
  lr_attributes :: "(string, json) dict"
  lr_exception :: "string option"

definition LOGGED_ATTRIBUTES :: "string list" where
  "LOGGED_ATTRIBUTES = [''request_id'', ''method'', ''path'', ''status_code'', ''duration_ms'', ''tenant_id'',
    ''user_id'', ''client_ip'', ''execution_id'', ''workflow_id'', ''agent_name'', ''step_number'', ''total_tokens'',
    ''total_cost'', ''error'', ''node_id'']"

definition log_payload :: "string \<Rightarrow> log_record \<Rightarrow> (string, json) dict" where
  "log_payload timestamp r =
    [(''timestamp'', JStr timestamp), (''level'', JStr (lr_level r)), (''logger'', JStr (lr_name r)),
     (''message'', JStr (lr_message r))] @
    concat (map (\<lambda>k. case dget k (lr_attributes r) of None \<Rightarrow> [] | Some v \<Rightarrow> [(k, v)]) LOGGED_ATTRIBUTES) @
    (case lr_exception r of None \<Rightarrow> [] | Some x \<Rightarrow> [(''exception'', JStr x)])"

definition format_record :: "string \<Rightarrow> log_record \<Rightarrow> string" where
  "format_record timestamp r = json_dumps (JObj (log_payload timestamp r))"

section \<open>What an accepted configuration guarantees\<close>

lemma report_if_Nil [simp]: "report_if b msg = [] \<longleftrightarrow> \<not> b"
  by (simp add: report_if_def)

lemma origin_errors_Nil: "origin_errors bracketed us = Some [] \<Longrightarrow> ''*'' \<notin> set us"
  by (induction bracketed us rule: origin_errors.induct) (auto split: option.splits if_splits)

lemma origin_errors_https:
  "origin_errors bracketed us = Some [] \<Longrightarrow> u \<in> set us \<Longrightarrow> https_url bracketed u = Some True"
  by (induction bracketed us rule: origin_errors.induct) (auto split: option.splits if_splits)

lemma validate_deploy_config_Nil:
  assumes "validate_deploy_config bracketed env = Some []"
  shows "missing_settings env = []" "secret_errors env = []"
    "origin_errors bracketed (deploy_origins env) = Some []" "log_errors env = []"
  using assms by (auto simp: validate_deploy_config_def split: option.splits)

lemma present_setting:
  assumes "missing_settings env = []" "k \<in> set (REQUIRED_SECRETS @ REQUIRED_VARS)"
  shows "getenv k env \<noteq> []"
  using assms by (auto simp: missing_settings_def filter_empty_conv py_strip_def)

text \<open>
  A configuration the deployment check accepts starts: whatever the environment is called, the
  application's own checks pass; every allowed origin is an https origin.
\<close>

lemma accepted_deployment_starts:
  assumes "validate_deploy_config bracketed env = Some []"
  shows "startup_check (deployed_settings app_env env) = None \<and>
    (\<forall>u \<in> set (cors_origins (deployed_settings app_env env)). https_url bracketed u = Some True)"
proof -
  note ok = validate_deploy_config_Nil [OF assms]
  have "getenv ''JWT_SECRET'' env \<noteq> []" "getenv ''CREDENTIAL_ENCRYPTION_KEY'' env \<noteq> []"
    using present_setting [OF ok(1)] by (simp_all add: REQUIRED_SECRETS_def)
  with ok(2) have "validate_runtime_safety (deployed_settings app_env env) = None"
    by (auto simp: secret_errors_def validate_runtime_safety_def deployed_settings_def Let_def
        DEFAULT_JWT_SECRET_def split: if_splits)
  moreover have "cors_origins (deployed_settings app_env env) = deploy_origins env"
    by (simp add: cors_origins_def deployed_settings_def deploy_origins_def)
  ultimately show ?thesis
    using origin_errors_Nil [OF ok(3)] origin_errors_https [OF ok(3)] by (simp add: startup_check_def)
qed

text \<open>An attribute that is not on the list, as the counters of the background workers, is in no line.\<close>

lemma worker_counters_not_logged:
  assumes "k \<notin> set LOGGED_ATTRIBUTES" "k \<notin> {''timestamp'', ''level'', ''logger'', ''message'', ''exception''}"
  shows "dget k (log_payload timestamp r) = None"
  using assms by (auto simp: dget_None_iff log_payload_def split: option.splits)

lemma dispatched_not_logged: "dget ''dispatched'' (log_payload timestamp r) = None"
  by (rule worker_counters_not_logged) (simp_all add: LOGGED_ATTRIBUTES_def)

end
