(* ===== verification/Spec2Isabelle.thy ===== *)
theory Spec2Isabelle
  imports Loops Middleware Deploy
begin

text \<open>
  Verification of the backend of the multi-tenant agentic workflow platform (\<open>src/backend/app\<close>).

  \<^bold>\<open>The program.\<close> Tenants design workflows, graphs of agents and connectors, and run them. A
  request passes the middleware (rate limit, tenant context), is authenticated and authorised,
  and calls a service on the database; starting a workflow leaves a background task that runs it:
  the executor orders the graph, calls the language models and tools of the agents, charges the
  tenant's budget, writes logs and broadcasts events, which the WebSocket streams carry to the
  clients. Webhooks create pending executions, which the dispatcher runs and retries; the doctor
  diagnoses failed executions and proposes fixes; the operations side watches the health of the
  dispatching, alerts over HTTP, tracks incidents, and repairs by plans that a worker executes.
  Three background loops drive dispatcher, alerts and plan worker.

  \<^bold>\<open>The theories\<close>, in the order of their imports, with the files they model:

  \<^item> \<open>Prelude\<close>, \<open>PyValue\<close>, \<open>PyTime\<close>, \<open>Json\<close>: rows, dictionaries in insertion order (a locale
    with its interpretation \<open>pydict\<close>), reachability and invariants (\<open>invariant_system\<close>), runs and
    refinement; what the code uses of Python: truthiness, \<open>str\<close>, \<open>repr\<close>, \<open>int\<close>, UUIDs, \<open>datetime\<close>
    with its ISO text, \<open>json.dumps\<close> and \<open>json.loads\<close>, with their round trips.
  \<^item> \<open>Store\<close>: the tables of \<open>models/\<close>, one record per table, and the database as the record \<open>db\<close> of
    lists of rows.
  \<^item> \<open>Compiler\<close>, \<open>TopoSort\<close>, \<open>Cost\<close>, \<open>Agent\<close>, \<open>Executor\<close>: \<open>engine/compiler.py\<close>,
    \<open>engine/executor.py\<close>, \<open>engine/cost.py\<close>, \<open>engine/agents/base.py\<close>. The loop of a run is
    \<open>run_loop\<close> over \<open>loop_turn\<close>, with the state \<open>loop_state\<close>; the whole run is \<open>run_execution\<close>.
    \<open>RunSpec\<close> states what a turn does to tables, logs and events and an invariant of the loop;
    \<open>Runs\<close> derives the effect of a whole run; \<open>RunProperties\<close> its properties: budget, accounting,
    isolation, the end of a run and its one final event, the order of the nodes, the bounds.
    \<open>Samples\<close> holds the data of the witnesses.
  \<^item> \<open>ExecutionService\<close>: \<open>services/execution_service.py\<close>; when a run is admitted, the limit of
    concurrent executions, cancellation and retry.
  \<^item> \<open>Dispatcher\<close>, \<open>Connectors\<close>: \<open>services/webhook_dispatcher_service.py\<close> and
    \<open>services/connector_service.py\<close>; the pass over the pending executions on top of the locale
    \<open>executor\<close>, which \<open>run_execution\<close> provides; signature and rate limit of webhooks as
    a transition system, where a delivery has the two times of the code: the start of its transaction,
    which stamps its rows, and the later clock of the check. The first section below puts the two
    theories together.
  \<^item> \<open>Auth\<close>: \<open>core/security.py\<close>, \<open>core/dependencies.py\<close>, \<open>services/auth_service.py\<close>,
    \<open>api/v1/auth.py\<close> and \<open>tenants.py\<close>; accounts, sessions and refresh tokens as a transition
    system \<open>serve\<close> with the invariant \<open>auth_inv\<close>.
  \<^item> \<open>Redaction\<close>, \<open>Settings\<close>: \<open>services/connector_security.py\<close> and \<open>core/config.py\<close>; masking and
    redaction, the checks at start-up, encryption of credentials and its round trip.
  \<^item> \<open>SafeHttp\<close>, \<open>Tools\<close>: \<open>engine/tools/safe_http.py\<close>, \<open>services/connector_runtime_service.py\<close>,
    \<open>engine/tools/executor.py\<close>, \<open>services/tool_service.py\<close>; outgoing HTTP requests go to public
    addresses only and a server reads from them what was given; database tools connect through the
    parameter \<open>sql\<close>, unchecked as in the code; the file tool stays under its base; masked
    configurations round-trip.
  \<^item> \<open>Workflows\<close>, \<open>Doctor\<close>: \<open>services/workflow_service.py\<close>, \<open>services/agent_service.py\<close>,
    \<open>services/workflow_doctor_service.py\<close>; the catalogue is well typed and within the plan in
    every reachable state; diagnosis, replay and application of a fix.
  \<^item> \<open>Health\<close>, \<open>Alerts\<close>, \<open>Incidents\<close>, \<open>Dashboards\<close>: the parts of \<open>services/analytics_service.py\<close>;
    cooldown of alerts, at most one open incident and plan, the cache and whose data it serves,
    cost timeline, CSV export and its reader.
  \<^item> \<open>PlanWorker\<close>, \<open>Scheduler\<close>: \<open>services/dispatch_automation_plan_worker.py\<close> and
    \<open>services/dispatch_automation_worker_scheduler.py\<close>; claiming and executing plans, which
    tenants are due.
  \<^item> \<open>Middleware\<close>: \<open>middleware/\<close>; the limiter refines a sliding window over the whole history.
  \<^item> \<open>Api\<close>, \<open>ApiAnalytics\<close>: the routers \<open>api/v1/\<close> with authentication, role, request schema and
    service, as \<open>serve_execution\<close>, \<open>serve_connector\<close> and so on over the state \<open>api_state\<close>:
    database, registry of running executions, cache, background tasks.
  \<^item> \<open>Tenancy\<close>, \<open>Separation\<close>, \<open>SeparationOps\<close>, \<open>SeparationWorker\<close>, \<open>Isolation\<close>, \<open>Roles\<close>,
    \<open>TenancyKept\<close>: the slice of a tenant; every query commutes with it; every operation is
    \<open>scoped\<close>, that is, it answers on the slice as on the whole and changes nothing outside; hence
    for requests, for the roles, and along runs of many users (the locale \<open>separation\<close> and its
    interpretation \<open>tenants_run\<close>).
  \<^item> \<open>Streams\<close>: the WebSocket endpoint of \<open>api/v1/executions.py\<close> and the subscriptions of
    \<open>engine/executor.py\<close>, with the browser's encoding of the token; who may open a stream, what an
    open stream has sent in every interleaving, and that a run ends its streams.
  \<^item> \<open>Loops\<close>: the three worker classes as one step relation. A pass has local variables and takes many
    steps, a candidate or tenant each, which interleave with everything else; the specification is the
    one thread \<open>serial\<close>, and each pass alone is shown to be the modelled service (\<open>dispatcher_pass_whole\<close>
    and the like). The locale \<open>periodic\<close> is interpreted on the three passes.
  \<^item> \<open>Deploy\<close>: \<open>scripts/validate-deploy-config.py\<close>, \<open>scripts/validate-release.py\<close>, the lines of
    \<open>core/logging.py\<close>; a configuration the deployment check accepts passes the start-up checks.

  \<^bold>\<open>How code becomes definitions.\<close> A service is a function \<open>db \<Rightarrow> (http_error + 'a) \<times> db\<close>: \<open>Inl\<close> is
  the \<open>HTTPException\<close>, or status 500 for an exception nobody catches, and leaves the database as
  it was unless the code has committed before. Fresh identifiers, clocks and other draws are
  arguments; one request draws each once. Transactions are atomic steps, one after another: what two
  concurrent requests can do between a check and the insert it guards (two pending plans or open
  acknowledgements, deliveries beyond a rate limit) is outside, and listed as findings. A rollback
  expires the objects of the session, and reading one afterwards raises: a run whose step the budget
  refuses ends as failed (\<open>AfterRollback\<close>), and the dispatch pass it belongs to ends with an
  exception when it reads its next candidate. Statuses with a fixed set
  of values are datatypes. Texts are ASCII; JSON numbers are whole; money is rational, with the
  rounding of the code (half to even) written out; instants are microseconds. An endpoint checks in
  the order authentication, role, schema (422), service. Runs started by a request are recorded in
  \<open>as_tasks\<close>, and are runs of \<open>run_execution\<close>.

  \<^bold>\<open>Parameters.\<close> What is not in the repository is an argument: LangGraph and the providers of
  language models (\<open>run_env\<close>), JWT, bcrypt and SHA-256 (\<open>crypto\<close>, with \<open>token_laws\<close>: a token decodes
  to its claims until it expires), Fernet (\<open>fernet\<close>, with \<open>fernet_laws\<close>), HMAC, name resolution and
  sockets (\<open>net\<close>), SQL drivers and the file system. Each law is shown to be satisfiable by an
  instance in a witness.

  \<^bold>\<open>Bounds and fuel.\<close> As in the code: ten iterations of a cyclic run, 100 scanned executions per
  dispatch pass, three attempts, 1000 executions scanned for a dead letter, thirty minutes of
  back-off after a failed scheduled run, 60 seconds of cache, a cooldown of 5 to 1440 minutes, 25
  tenants per evaluation, 50000 exported rows. The recursions of the executor, the sort and the
  decoders terminate by a measure; the JSON parser takes the length of its input as fuel, which the
  round trip \<open>loads_dumps\<close> shows to be enough.

  \<^bold>\<open>Hypotheses of the isolation theorems.\<close> Keys are unique and references stay within a tenant
  (\<open>wired\<close>), which every request keeps; the identifiers a request draws are fresh. They cover all
  routers of a tenant; the ingestion of webhooks, which carries no user, the accounts, and the
  fleet view of the platform's administrators are outside.

  \<^bold>\<open>Not modelled.\<close> The columns \<open>updated_at\<close>, indexes and ORM relationships; row and advisory locks
  of PostgreSQL beyond what their outcome decides; interleavings of two database transactions;
  the cancellation of tasks by the server that shuts down; the wiring of the application
  (\<open>main.py\<close>, \<open>core/database.py\<close>), which assembles modelled parts; the migrations, which state
  the schema a second time; \<open>check-api-slo.py\<close>, which measures latencies; logging except for the
  fields of a line; the front end except for the token it sends.
\<close>

section \<open>From a webhook to its run\<close>

lemma attempts_bounded: "\<exists>n. m \<le> n \<and> attempts_within n s"
proof -
  let ?a = "(\<lambda>x. attempt_number (obj_or_empty (ex_input_data x))) ` set (executions s)"
  have "attempts_within (Max (insert m ?a)) s"
    unfolding attempts_within_def by (intro ballI Max_ge) auto
  moreover have "m \<le> Max (insert m ?a)" by (intro Max_ge) auto
  ultimately show ?thesis by blast
qed

lemma ingested_dispatch:
  "judge now s (new_execution i c tid wid (ingested_input trigger_id event_id dv)) =
    (if is_workflow_dispatch_paused wid s then Paused else Dispatch)"
  by (simp add: judge_def new_execution_def ingested_input_def is_webhook_trigger_execution_def is_retry_due_def
      dispatch_metadata_def jget_def dget_def parse_datetime_def)

lemma all_candidates:
  assumes "row_count (\<lambda>e. ex_status e = ExPending) (executions s) \<le> n"
  shows "set (pending_execution_candidates n s) = {e \<in> set (executions s). ex_status e = ExPending}"
    "length (pending_execution_candidates n s) \<le> n"
  using assms by (simp_all add: pending_execution_candidates_def row_count_def length_filter_sort_key)

text \<open>
  C4: an accepted webhook is run. When a delivery is accepted for a workflow whose dispatch is not
  paused, and the next dispatch pass finds no more pending executions than its limit and is not ended
  by an exception (which happens when an earlier run of the pass rolled back), that pass dispatches the
  execution of the delivery, and no row of it is pending afterwards.
\<close>

theorem accepted_webhook_dispatched:
  assumes "ingest_webhook hmac dw public_id dv s = (Inr (eid, st), s1)"
    and "distinct (map tn_id (tenants s))" "find_trigger public_id s = Some t"
    and "\<not> is_workflow_dispatch_paused (tg_workflow_id t) s"
    and "int (row_count (\<lambda>e. ex_status e = ExPending) (executions s1)) \<le> limit"
    and "\<forall>i. fresh i \<notin> ex_id ` set (executions s1)"
    and "dispatch_pending_webhook_executions envs fresh created limit policy now s1 = (rep, None, s2)"
  shows "eid = ig_execution_id dw \<and> eid \<in> set (dr_execution_ids rep) \<and>
    (\<forall>e \<in> set (executions s2). ex_id e = eid \<longrightarrow> ex_status e \<noteq> ExPending)"
proof -
  let ?e = "new_execution (ig_execution_id dw) (ig_created dw) (tg_tenant_id t) (tg_workflow_id t)
    (ingested_input (tg_id t) (ig_event_id dw) dv)"
  let ?es = "pending_execution_candidates (max PENDING_SCAN_LIMIT (nat limit)) s1"
  have eid: "eid = ig_execution_id dw" and s1: "executions s1 = executions s @ [?e]" "workflows s1 = workflows s"
      "tenants s1 = tenants s"
    using assms(1,3) by (auto elim!: ingest_webhook_InrD)
  have count: "row_count (\<lambda>e. ex_status e = ExPending) (executions s1) \<le> nat limit" using assms(5) by linarith
  have "0 < row_count (\<lambda>e. ex_status e = ExPending) (executions s1)"
    by (simp add: s1 row_count_def new_execution_def)
  with count have "0 < limit" by linarith
  with assms(7) have loop: "dispatch_loop (executor_env envs fresh created) (nat limit) policy now False ?es empty_report s1 =
      (rep, None, s2)"
    by (simp add: dispatch_pending_webhook_executions_def dispatch_pass_def)
  have dist: "distinct (map tn_id (tenants s1))" using assms(2) s1(3) by simp
  have "?e \<in> set ?es"
    using all_candidates(1) [of s1 "max PENDING_SCAN_LIMIT (nat limit)"] count s1(1) by (auto simp: new_execution_def)
  moreover have "judge now s1 ?e = Dispatch"
    using assms(4) s1(2) by (simp add: ingested_dispatch is_workflow_dispatch_paused_def)
  moreover have "length ?es \<le> nat limit"
    using count by (simp add: pending_execution_candidates_def row_count_def length_filter_sort_key)
  ultimately have "ex_id ?e \<in> set (dr_execution_ids rep)"
    by (intro dispatch_loop_reaches [OF loop dist]) (auto simp: empty_report_def balanced_def)
  moreover obtain n where n: "rp_max_attempts policy \<le> n" "attempts_within n s1" using attempts_bounded by blast
  have "pass_inv (ex_id ` set (executions s1)) n rep s2"
  proof (rule dispatched.dispatch_loop_inv [where envs = envs, OF _ n(1) _ _ _ loop])
    show "pass_inv (ex_id ` set (executions s1)) n empty_report s1"
      using dist n(2) by (simp add: pass_inv_def empty_report_def settled_def)
    show "ex_id ` set ?es \<subseteq> ex_id ` set (executions s1)"
      unfolding pending_execution_candidates_def by (rule image_mono) (auto dest: in_set_takeD)
  qed (use assms(6) in \<open>simp_all add: executor_env_def\<close>)
  ultimately show ?thesis using eid by (auto simp: pass_inv_def settled_def new_execution_def)
qed


theorem accepted_webhook_dispatched_witness:
  "\<exists>s rep s1 s2 st. ingest_webhook sample_hmac (sample_ingest 5) ''pub'' sample_delivery s = (Inr (''e9'', st), s1) \<and>
    dispatch_pending_webhook_executions (\<lambda>_. sample_env) (\<lambda>i. i @ ''r'') (\<lambda>_. 9) 1 default_policy 6 s1 = (rep, None, s2) \<and>
    dr_execution_ids rep = [''e9''] \<and>
    list_all (\<lambda>e. ex_status e \<noteq> ExPending) (filter (\<lambda>e. ex_id e = ''e9'') (executions s2))"
proof -
  let ?s = "snd (create_trigger sample_row_draw ''pub'' ''t1'' ''w1'' ''u1'' ''webhook'' signed_config (sample_db ExCompleted 0))"
  let ?i = "ingest_webhook sample_hmac (sample_ingest 5) ''pub'' sample_delivery ?s"
  let ?d = "dispatch_pending_webhook_executions (\<lambda>_. sample_env) (\<lambda>i. i @ ''r'') (\<lambda>_. 9) 1 default_policy 6 (snd ?i)"
  have "case fst ?i of Inr x \<Rightarrow> fst x = ''e9'' | Inl _ \<Rightarrow> False" by code_simp
  then obtain st where "fst ?i = Inr (''e9'', st)" by (auto split: sum.splits)
  then have i: "?i = (Inr (''e9'', st), snd ?i)" by (metis prod.collapse)
  have "fst (snd ?d) = None" by code_simp
  then have d: "?d = (fst ?d, None, snd (snd ?d))" by (metis prod.collapse)
  have tn: "distinct (map tn_id (tenants ?s))" by code_simp
  have "map_option tg_workflow_id (find_trigger ''pub'' ?s) = Some ''w1''" by code_simp
  then obtain t where t: "find_trigger ''pub'' ?s = Some t" and w: "tg_workflow_id t = ''w1''" by auto
  have "\<not> is_workflow_dispatch_paused ''w1'' ?s" by code_simp
  then have np: "\<not> is_workflow_dispatch_paused (tg_workflow_id t) ?s" unfolding w .
  have cnt: "int (row_count (\<lambda>e. ex_status e = ExPending) (executions (snd ?i))) \<le> 1" by code_simp
  have "ex_id ` set (executions (snd ?i)) = {''e0'', ''e1'', ''e9''}"
  proof -
    have "map ex_id (executions (snd ?i)) = [''e0'', ''e1'', ''e9'']" by code_simp
    then have "set (map ex_id (executions (snd ?i))) = {''e0'', ''e1'', ''e9''}" by simp
    then show ?thesis by (simp only: set_map)
  qed
  then have fresh: "\<forall>i. i @ ''r'' \<notin> ex_id ` set (executions (snd ?i))" by (simp add: append_eq_Cons_conv)
  have ids: "dr_execution_ids (fst ?d) = [''e9'']" by code_simp
  have "\<forall>e \<in> set (executions (snd (snd ?d))). ex_id e = ''e9'' \<longrightarrow> ex_status e \<noteq> ExPending"
    using accepted_webhook_dispatched [OF i tn t np cnt fresh d] by blast
  then have "list_all (\<lambda>e. ex_status e \<noteq> ExPending) (filter (\<lambda>e. ex_id e = ''e9'') (executions (snd (snd ?d))))"
    by (simp add: list_all_iff)
  with i d ids show ?thesis by blast
qed

end
